(* ===== verification/Prelude.thy ===== *)
theory Prelude
  imports Main "HOL-Library.Word" "HOL-Library.Char_ord" "HOL-Library.List_Lexorder"
    "HOL-Library.Product_Lexorder" "HOL-Library.Sublist"
begin

text \<open>
  Shared vocabulary of the development.

  \<^item> Rust results: \<open>Err\<close> and \<open>Ok\<close> name the two injections of \<open>'e + 'a\<close>.
  \<^item> Machine integers: \<open>u8\<close>, \<open>u32\<close>, \<open>u64\<close> are words; the saturating and checked
    operations of the Rust standard library are defined on words of any width and
    characterised through \<^const>\<open>unat\<close>.
  \<^item> Strings: a Rust \<open>String\<close> is its sequence of UTF-8 bytes, an element of HOL's
    \<open>string\<close> (a list of 8-bit \<open>char\<close>). Lengths, prefixes and slices are those of the
    byte sequence, as in Rust; the operations that look at Unicode characters
    (\<open>trim\<close>, \<open>chars\<close>) are written out on the encoded form.
\<close>

named_theorems guard_defs \<open>definitions of the guards an operation tests\<close>
named_theorems word_nat \<open>saturating and checked word operations read through unat\<close>

section \<open>Results\<close>

abbreviation Err :: "'e \<Rightarrow> 'e + 'a" where "Err \<equiv> Inl"
abbreviation Ok :: "'a \<Rightarrow> 'e + 'a" where "Ok \<equiv> Inr"

definition is_ok :: "'e + 'a \<Rightarrow> bool" where
  "is_ok r = (case r of Err _ \<Rightarrow> False | Ok _ \<Rightarrow> True)"

lemma is_ok_simps [simp]: "is_ok (Ok x)" "\<not> is_ok (Err e)"
  by (simp_all add: is_ok_def)

section \<open>Machine integers\<close>

type_synonym u8 = "8 word"
type_synonym u32 = "32 word"
type_synonym u64 = "64 word"

definition saturating_add :: "'a::len word \<Rightarrow> 'a word \<Rightarrow> 'a word" where
  "saturating_add a b = (if unat a + unat b < 2 ^ LENGTH('a) then a + b else - 1)"

definition saturating_sub :: "'a::len word \<Rightarrow> 'a word \<Rightarrow> 'a word" where
  "saturating_sub a b = (if b \<le> a then a - b else 0)"

definition saturating_mul :: "'a::len word \<Rightarrow> 'a word \<Rightarrow> 'a word" where
  "saturating_mul a b = (if unat a * unat b < 2 ^ LENGTH('a) then a * b else - 1)"

definition checked_add :: "'a::len word \<Rightarrow> 'a word \<Rightarrow> 'a word option" where
  "checked_add a b = (if unat a + unat b < 2 ^ LENGTH('a) then Some (a + b) else None)"

definition checked_shl :: "'a::len word \<Rightarrow> nat \<Rightarrow> 'a word option" where
  "checked_shl a n = (if n < LENGTH('a) then Some (push_bit n a) else None)"

lemma unat_minus_one_max [simp]: "unat (- 1 :: 'a::len word) = 2 ^ LENGTH('a) - 1"
  by (simp add: unsigned_minus_1_eq_mask mask_eq_exp_minus_1)

lemma unat_saturating_add [word_nat]:
  "unat (saturating_add a (b :: 'a::len word)) = min (unat a + unat b) (2 ^ LENGTH('a) - 1)"
proof (cases "unat a + unat b < 2 ^ LENGTH('a)")
  case True
  then show ?thesis by (simp add: saturating_add_def unat_word_ariths)
next
  case False
  then show ?thesis by (simp add: saturating_add_def unat_minus_one_max)
qed

lemma unat_saturating_sub [word_nat]:
  "unat (saturating_sub a (b :: 'a::len word)) = unat a - unat b"
  by (auto simp: saturating_sub_def unat_sub word_le_nat_alt)

lemma unat_saturating_mul [word_nat]:
  "unat (saturating_mul a (b :: 'a::len word)) = min (unat a * unat b) (2 ^ LENGTH('a) - 1)"
proof (cases "unat a * unat b < 2 ^ LENGTH('a)")
  case True
  then show ?thesis by (simp add: saturating_mul_def unat_word_ariths)
next
  case False
  then show ?thesis by (simp add: saturating_mul_def unat_minus_one_max)
qed

lemma unat_checked_add [word_nat]:
  "checked_add a (b :: 'a::len word) = Some c \<Longrightarrow> unat c = unat a + unat b"
  by (auto simp: checked_add_def unat_word_ariths split: if_splits)

lemma unat_bounded: "unat (a :: 'a::len word) \<le> 2 ^ LENGTH('a) - 1"
proof -
  have "unat a < 2 ^ LENGTH('a)" by (rule unsigned_less)
  then show ?thesis by linarith
qed

lemma saturating_add_mono:
  "a \<le> a' \<Longrightarrow> saturating_add a (b :: 'a::len word) \<le> saturating_add a' b"
  by (simp add: word_le_nat_alt unat_saturating_add)

lemma saturating_add_ge: "a \<le> saturating_add a (b :: 'a::len word)"
  using unat_bounded [of a] by (simp add: word_le_nat_alt unat_saturating_add)

lemma saturating_add_zero [simp]: "saturating_add a 0 = (a :: 'a::len word)"
  by (simp add: saturating_add_def)


section \<open>Strings\<close>

definition byte :: "char \<Rightarrow> nat" where "byte c = of_char c"

definition is_ascii_upper :: "char \<Rightarrow> bool" where
  "is_ascii_upper c \<longleftrightarrow> 65 \<le> byte c \<and> byte c \<le> 90"

definition is_ascii_digit :: "char \<Rightarrow> bool" where
  "is_ascii_digit c \<longleftrightarrow> 48 \<le> byte c \<and> byte c \<le> 57"

definition is_ascii_alphanumeric :: "char \<Rightarrow> bool" where
  "is_ascii_alphanumeric c \<longleftrightarrow>
     is_ascii_digit c \<or> is_ascii_upper c \<or> (97 \<le> byte c \<and> byte c \<le> 122)"

definition is_ascii_hexdigit :: "char \<Rightarrow> bool" where
  "is_ascii_hexdigit c \<longleftrightarrow>
     is_ascii_digit c \<or> (65 \<le> byte c \<and> byte c \<le> 70) \<or> (97 \<le> byte c \<and> byte c \<le> 102)"

definition ascii_lower :: "char \<Rightarrow> char" where
  "ascii_lower c = (if is_ascii_upper c then char_of (byte c + 32) else c)"

definition to_ascii_lowercase :: "string \<Rightarrow> string" where
  "to_ascii_lowercase s = map ascii_lower s"

definition eq_ignore_ascii_case :: "string \<Rightarrow> string \<Rightarrow> bool" where
  "eq_ignore_ascii_case s t \<longleftrightarrow> to_ascii_lowercase s = to_ascii_lowercase t"

text \<open>
  The characters of Unicode's \<open>White_Space\<close> property, which \<open>str::trim\<close> strips, in
  UTF-8. Since UTF-8 is self-synchronising, a suffix of a well-formed string that
  equals one of these byte sequences is that character.
\<close>

definition white_space :: "string list" where
  "white_space =
     [[CHR 0x20], [CHR 0x09], [CHR 0x0A], [CHR 0x0B], [CHR 0x0C], [CHR 0x0D],
      [CHR 0xC2, CHR 0x85], [CHR 0xC2, CHR 0xA0], [CHR 0xE1, CHR 0x9A, CHR 0x80],
      [CHR 0xE2, CHR 0x80, CHR 0x80], [CHR 0xE2, CHR 0x80, CHR 0x81],
      [CHR 0xE2, CHR 0x80, CHR 0x82], [CHR 0xE2, CHR 0x80, CHR 0x83],
      [CHR 0xE2, CHR 0x80, CHR 0x84], [CHR 0xE2, CHR 0x80, CHR 0x85],
      [CHR 0xE2, CHR 0x80, CHR 0x86], [CHR 0xE2, CHR 0x80, CHR 0x87],
      [CHR 0xE2, CHR 0x80, CHR 0x88], [CHR 0xE2, CHR 0x80, CHR 0x89],
      [CHR 0xE2, CHR 0x80, CHR 0x8A], [CHR 0xE2, CHR 0x80, CHR 0xA8],
      [CHR 0xE2, CHR 0x80, CHR 0xA9], [CHR 0xE2, CHR 0x80, CHR 0xAF],
      [CHR 0xE2, CHR 0x81, CHR 0x9F], [CHR 0xE3, CHR 0x80, CHR 0x80]]"

fun leading :: "string list \<Rightarrow> string \<Rightarrow> nat" where
  "leading [] s = 0"
| "leading (w # ws) s = (if prefix w s then length w else leading ws s)"

function strip_leading :: "string list \<Rightarrow> string \<Rightarrow> string" where
  "strip_leading ws s =
     (if leading ws s = 0 \<or> s = [] then s else strip_leading ws (drop (leading ws s) s))"
  by pat_completeness auto
termination
  by (relation "measure (\<lambda>(ws, s). length s)") auto

declare strip_leading.simps [simp del]

definition trim_start :: "string \<Rightarrow> string" where
  "trim_start s = strip_leading white_space s"

definition trim_end :: "string \<Rightarrow> string" where
  "trim_end s = rev (strip_leading (map rev white_space) (rev s))"

definition trim :: "string \<Rightarrow> string" where
  "trim s = trim_end (trim_start s)"

lemma strip_leading_suffix: "suffix (strip_leading ws s) s"
proof (induction ws s rule: strip_leading.induct)
  case (1 ws s)
  show ?case
  proof (cases "leading ws s = 0 \<or> s = []")
    case True
    then show ?thesis by (simp add: strip_leading.simps [of ws s])
  next
    case False
    with 1 have "suffix (strip_leading ws (drop (leading ws s) s)) (drop (leading ws s) s)"
      by simp
    with False show ?thesis
      by (simp add: strip_leading.simps [of ws s]) (meson suffix_drop suffix_order.trans)
  qed
qed

lemma leading_strip_leading: "leading ws (strip_leading ws s) = 0 \<or> strip_leading ws s = []"
proof (induction ws s rule: strip_leading.induct)
  case (1 ws s)
  then show ?case by (cases "leading ws s = 0 \<or> s = []") (auto simp: strip_leading.simps [of ws s])
qed

lemma strip_leading_id: "leading ws s = 0 \<Longrightarrow> strip_leading ws s = s"
  by (simp add: strip_leading.simps [of ws s])

lemma strip_leading_Nil [simp]: "strip_leading ws [] = []"
  by (simp add: strip_leading.simps)

lemma leading_zero_iff:
  "[] \<notin> set ws \<Longrightarrow> leading ws s = 0 \<longleftrightarrow> (\<forall>w \<in> set ws. \<not> prefix w s)"
  by (induction ws) auto

lemma white_space_nonempty: "[] \<notin> set white_space" "[] \<notin> set (map rev white_space)"
  by (simp_all add: white_space_def)

lemma leading_prefix_zero:
  "[] \<notin> set ws \<Longrightarrow> leading ws s = 0 \<Longrightarrow> prefix p s \<Longrightarrow> leading ws p = 0"
  by (auto simp: leading_zero_iff dest: prefix_order.trans)

lemma trim_end_prefix: "prefix (trim_end s) s"
  using strip_leading_suffix [of "map rev white_space" "rev s"]
  by (simp add: trim_end_def suffix_to_prefix)

lemma trim_start_trim_end: "trim_start s = s \<Longrightarrow> trim_start (trim_end s) = trim_end s"
proof -
  assume "trim_start s = s"
  then have "leading white_space s = 0 \<or> s = []"
    using leading_strip_leading [of white_space s] by (simp add: trim_start_def)
  then show ?thesis
    using trim_end_prefix [of s] leading_prefix_zero [OF white_space_nonempty(1)]
    by (auto simp: trim_start_def strip_leading_id)
qed

lemma trim_start_idem [simp]: "trim_start (trim_start s) = trim_start s"
  using leading_strip_leading [of white_space s]
  by (auto simp: trim_start_def strip_leading_id)

lemma trim_end_idem [simp]: "trim_end (trim_end s) = trim_end s"
  using leading_strip_leading [of "map rev white_space" "rev s"]
  by (auto simp: trim_end_def strip_leading_id)

lemma trim_idem [simp]: "trim (trim s) = trim s"
  by (simp add: trim_def trim_start_trim_end)

lemma trim_Nil [simp]: "trim [] = []"
  by (simp add: trim_def trim_start_def trim_end_def)


definition strip_prefix :: "string \<Rightarrow> string \<Rightarrow> string option" where
  "strip_prefix p s = (if prefix p s then Some (drop (length p) s) else None)"

definition strip_suffix :: "string \<Rightarrow> string \<Rightarrow> string option" where
  "strip_suffix p s = (if suffix p s then Some (take (length s - length p) s) else None)"

text \<open>\<open>split_once\<close> cuts at the first occurrence of the pattern; \<open>rsplit_once\<close> at the
  last occurrence of a one-byte pattern.\<close>

fun split_once :: "string \<Rightarrow> string \<Rightarrow> (string \<times> string) option" where
  "split_once p [] = (if p = [] then Some ([], []) else None)"
| "split_once p (c # s) =
     (if prefix p (c # s) then Some ([], drop (length p) (c # s))
      else map_option (\<lambda>(a, b). (c # a, b)) (split_once p s))"

definition rsplit_once :: "char \<Rightarrow> string \<Rightarrow> (string \<times> string) option" where
  "rsplit_once c s = map_option (\<lambda>(a, b). (rev b, rev a)) (split_once [c] (rev s))"

definition str_contains :: "string \<Rightarrow> string \<Rightarrow> bool" where
  "str_contains s p \<longleftrightarrow> split_once p s \<noteq> None"

definition trim_end_matches :: "char \<Rightarrow> string \<Rightarrow> string" where
  "trim_end_matches c s = rev (dropWhile (\<lambda>x. x = c) (rev s))"

text \<open>The characters of a string, each given by its first byte: the bytes that are not
  UTF-8 continuation bytes (\<open>10xxxxxx\<close>).\<close>

definition lead_bytes :: "string \<Rightarrow> string" where
  "lead_bytes s = filter (\<lambda>c. \<not> (128 \<le> byte c \<and> byte c < 192)) s"

text \<open>\<open>Display\<close> for unsigned integers, and \<open>str::parse::<u64>\<close>: an optional \<open>+\<close>, at least
  one decimal digit, no value above \<open>u64::MAX\<close>.\<close>

fun show_nat :: "nat \<Rightarrow> string" where
  "show_nat n = (if n < 10 then [char_of (48 + n)] else show_nat (n div 10) @ [char_of (48 + n mod 10)])"

declare show_nat.simps [simp del]

definition digits_value :: "string \<Rightarrow> nat" where
  "digits_value s = foldl (\<lambda>n c. 10 * n + (byte c - 48)) 0 s"

definition parse_u64 :: "string \<Rightarrow> u64 option" where
  "parse_u64 s =
     (let ds = (case s of c # r \<Rightarrow> if byte c = 43 then r else s | [] \<Rightarrow> [])
      in if ds \<noteq> [] \<and> list_all is_ascii_digit ds \<and> digits_value ds < 2 ^ 64
         then Some (of_nat (digits_value ds)) else None)"

lemma strip_prefix_append [simp]: "strip_prefix p (p @ s) = Some s"
  by (simp add: strip_prefix_def)

lemma strip_prefix_eq_Some: "strip_prefix p s = Some r \<longleftrightarrow> s = p @ r"
  by (auto simp: strip_prefix_def prefix_def)

lemma split_once_Some: "split_once p s = Some (a, b) \<Longrightarrow> s = a @ p @ b"
proof (induction p s arbitrary: a rule: split_once.induct)
  case (2 p c s)
  then show ?case
    by (cases "prefix p (c # s)") (auto simp: prefix_def split: prod.splits)
qed (auto split: if_splits)

lemma rsplit_once_Some: "rsplit_once c s = Some (a, b) \<Longrightarrow> s = a @ c # b"
proof -
  assume "rsplit_once c s = Some (a, b)"
  then have "split_once [c] (rev s) = Some (rev b, rev a)"
    by (auto simp: rsplit_once_def)
  from split_once_Some [OF this] have "rev s = rev (a @ c # b)" by simp
  then show ?thesis by (simp only: rev_is_rev_conv)
qed

lemma str_contains_iff: "str_contains s p \<longleftrightarrow> (\<exists>a b. s = a @ p @ b)"
proof
  assume "str_contains s p"
  then show "\<exists>a b. s = a @ p @ b"
    by (auto simp: str_contains_def dest: split_once_Some)
next
  have start: "split_once p (p @ b) \<noteq> None" for b
  proof (cases "p @ b")
    case (Cons c s)
    then have "prefix p (c # s)" by (metis prefixI)
    with Cons show ?thesis by simp
  qed auto
  have "split_once p (a @ p @ b) \<noteq> None" for a b
    by (induction a) (use start in \<open>auto simp: prefix_def\<close>)
  then show "\<exists>a b. s = a @ p @ b \<Longrightarrow> str_contains s p"
    by (auto simp: str_contains_def)
qed

lemma byte_digit: "n < 10 \<Longrightarrow> byte (char_of (48 + n)) = 48 + n"
  by (simp add: byte_def)

lemma show_nat_nonempty [simp]: "show_nat n \<noteq> []"
  by (subst show_nat.simps) simp

lemma is_ascii_digit_char_of: "(n :: nat) < 10 \<Longrightarrow> is_ascii_digit (char_of (48 + n))"
  by (simp add: is_ascii_digit_def byte_digit)

lemma show_nat_digits: "list_all is_ascii_digit (show_nat n)"
proof (induction n rule: show_nat.induct)
  case (1 n)
  then show ?case
    by (cases "n < 10"; subst show_nat.simps) (simp_all add: is_ascii_digit_char_of)
qed

lemma digits_value_show_nat: "digits_value (show_nat n) = n"
proof (induction n rule: show_nat.induct)
  case (1 n)
  show ?case
  proof (cases "n < 10")
    case True
    then show ?thesis by (subst show_nat.simps) (simp add: digits_value_def byte_digit)
  next
    case False
    with 1 have "digits_value (show_nat (n div 10)) = n div 10" by simp
    with False show ?thesis
      by (subst show_nat.simps) (simp add: digits_value_def byte_digit)
  qed
qed

text \<open>Printing and parsing an unsigned 64-bit integer is the identity.\<close>

lemma parse_show_u64: "parse_u64 (show_nat (unat (n :: u64))) = Some n"
proof -
  obtain c r where cr: "show_nat (unat n) = c # r"
    by (cases "show_nat (unat n)") auto
  with show_nat_digits [of "unat n"] have "byte c \<noteq> 43"
    by (auto simp: is_ascii_digit_def)
  moreover have "unat n < 2 ^ 64" using unsigned_less [of n] by simp
  ultimately show ?thesis
    using cr show_nat_digits [of "unat n"] digits_value_show_nat [of "unat n"]
    by (simp add: parse_u64_def)
qed


section \<open>Iterators\<close>

fun find_map :: "('a \<Rightarrow> 'b option) \<Rightarrow> 'a list \<Rightarrow> 'b option" where
  "find_map f [] = None"
| "find_map f (x # xs) = (case f x of Some y \<Rightarrow> Some y | None \<Rightarrow> find_map f xs)"

definition or_else :: "'a option \<Rightarrow> 'a option \<Rightarrow> 'a option" where
  "or_else a b = (case a of Some x \<Rightarrow> Some x | None \<Rightarrow> b)"

definition unwrap_or :: "'a option \<Rightarrow> 'a \<Rightarrow> 'a" where
  "unwrap_or a d = (case a of Some x \<Rightarrow> x | None \<Rightarrow> d)"

definition opt_list :: "'a option \<Rightarrow> 'a list" where
  "opt_list a = (case a of Some x \<Rightarrow> [x] | None \<Rightarrow> [])"

definition is_some_and :: "('a \<Rightarrow> bool) \<Rightarrow> 'a option \<Rightarrow> bool" where
  "is_some_and p a = (case a of Some x \<Rightarrow> p x | None \<Rightarrow> False)"

definition is_none_or :: "('a \<Rightarrow> bool) \<Rightarrow> 'a option \<Rightarrow> bool" where
  "is_none_or p a = (case a of Some x \<Rightarrow> p x | None \<Rightarrow> True)"

lemma option_helper_simps [simp]:
  "or_else (Some x) b = Some x" "or_else None b = b"
  "unwrap_or (Some x) d = x" "unwrap_or None d = d"
  "opt_list (Some x) = [x]" "opt_list None = []"
  "is_some_and p (Some x) = p x" "\<not> is_some_and p None"
  "is_none_or p (Some x) = p x" "is_none_or p None"
  by (simp_all add: or_else_def unwrap_or_def opt_list_def is_some_and_def is_none_or_def)

lemma set_opt_list [simp]: "set (opt_list a) = set_option a"
  by (cases a) auto

lemma or_else_eq_Some: "or_else a b = Some x \<longleftrightarrow> a = Some x \<or> a = None \<and> b = Some x"
  by (cases a) auto

lemma find_map_Some: "find_map f xs = Some y \<Longrightarrow> \<exists>x \<in> set xs. f x = Some y"
  by (induction xs) (auto split: option.splits)

lemma find_map_None_iff [simp]: "find_map f xs = None \<longleftrightarrow> (\<forall>x \<in> set xs. f x = None)"
  by (induction xs) (auto split: option.splits)

lemma strict_sorted_find:
  "sorted_wrt (<) (xs :: 'a::linorder list) \<Longrightarrow> find p xs = Some x \<Longrightarrow> y \<in> set xs \<Longrightarrow> p y \<Longrightarrow> x \<le> y"
  by (induction xs) (auto split: if_splits)

end
