(* ===== verification/Ordered_Map.thy ===== *)
theory Ordered_Map
  imports Prelude
begin

text \<open>
  Rust's \<open>BTreeMap\<close>: a finite map whose iteration is in key order. The model is a list of
  key/value pairs with strictly increasing keys. The interface the other theories rely on
  is the locale \<open>ordered_store\<close>; it is interpreted on the list representation at the end.
\<close>

type_synonym ('k, 'v) omap = "('k \<times> 'v) list"

definition omap_wf :: "('k::linorder, 'v) omap \<Rightarrow> bool" where
  "omap_wf m \<longleftrightarrow> sorted_wrt (<) (map fst m)"

definition omap_get :: "('k::linorder, 'v) omap \<Rightarrow> 'k \<Rightarrow> 'v option" where
  "omap_get m k = map_of m k"

fun omap_insert :: "'k::linorder \<Rightarrow> 'v \<Rightarrow> ('k, 'v) omap \<Rightarrow> ('k, 'v) omap" where
  "omap_insert k v [] = [(k, v)]"
| "omap_insert k v ((k', v') # m) =
     (if k < k' then (k, v) # (k', v') # m
      else if k = k' then (k, v) # m
      else (k', v') # omap_insert k v m)"

definition omap_retain :: "('k::linorder \<Rightarrow> 'v \<Rightarrow> bool) \<Rightarrow> ('k, 'v) omap \<Rightarrow> ('k, 'v) omap" where
  "omap_retain p m = filter (\<lambda>(k, v). p k v) m"

definition omap_remove :: "'k::linorder \<Rightarrow> ('k, 'v) omap \<Rightarrow> ('k, 'v) omap" where
  "omap_remove k m = omap_retain (\<lambda>k' _. k' \<noteq> k) m"

definition omap_keys :: "('k, 'v) omap \<Rightarrow> 'k list" where "omap_keys m = map fst m"
definition omap_values :: "('k, 'v) omap \<Rightarrow> 'v list" where "omap_values m = map snd m"

lemma omap_wf_Nil [simp]: "omap_wf []"
  by (simp add: omap_wf_def)

lemma omap_wf_Cons [simp]:
  "omap_wf ((k, v) # m) \<longleftrightarrow> (\<forall>k' \<in> fst ` set m. k < k') \<and> omap_wf m"
  by (auto simp: omap_wf_def)

lemma omap_wf_distinct: "omap_wf m \<Longrightarrow> distinct (omap_keys m)"
  by (induction m) (auto simp: omap_wf_def omap_keys_def)

lemma omap_get_Nil [simp]: "omap_get [] k = None"
  by (simp add: omap_get_def)

lemma keys_omap_insert: "fst ` set (omap_insert k v m) = insert k (fst ` set m)"
  by (induction k v m rule: omap_insert.induct) auto

lemma omap_wf_insert: "omap_wf m \<Longrightarrow> omap_wf (omap_insert k v m)"
  by (induction k v m rule: omap_insert.induct) (auto simp: keys_omap_insert)

lemma omap_get_insert: "omap_get (omap_insert k v m) = (omap_get m)(k \<mapsto> v)"
proof
  fix x
  show "omap_get (omap_insert k v m) x = ((omap_get m)(k \<mapsto> v)) x"
    by (induction k v m rule: omap_insert.induct) (auto simp: omap_get_def)
qed

lemma keys_omap_retain: "fst ` set (omap_retain p m) \<subseteq> fst ` set m"
  by (auto simp: omap_retain_def)

lemma omap_wf_retain: "omap_wf m \<Longrightarrow> omap_wf (omap_retain p m)"
proof (induction m)
  case (Cons a m)
  then show ?case
    using keys_omap_retain [of p m] by (cases a) (auto simp: omap_retain_def)
qed (simp add: omap_retain_def)

lemma omap_get_None_iff: "omap_get m k = None \<longleftrightarrow> k \<notin> fst ` set m"
  by (simp add: omap_get_def map_of_eq_None_iff)

lemma omap_get_Some_iff:
  "omap_wf m \<Longrightarrow> omap_get m k = Some v \<longleftrightarrow> (k, v) \<in> set m"
  using omap_wf_distinct [of m] by (simp add: omap_get_def omap_keys_def)

lemma omap_get_retain:
  "omap_wf m \<Longrightarrow> omap_get (omap_retain p m) k =
     (case omap_get m k of Some v \<Rightarrow> if p k v then Some v else None | None \<Rightarrow> None)"
proof (induction m)
  case (Cons a m)
  then show ?case
    by (cases a) (auto simp: omap_get_def omap_retain_def map_of_eq_None_iff split: option.splits)
qed (simp add: omap_retain_def omap_get_def)

section \<open>The interface\<close>

text \<open>
  What the clients of an ordered map rely on: lookups after \<open>insert\<close> and \<open>retain\<close>, and
  that every operation keeps the representation invariant.
\<close>

locale ordered_store =
  fixes empty :: 'm
    and get :: "'m \<Rightarrow> 'k \<Rightarrow> 'v option"
    and insert_kv :: "'k \<Rightarrow> 'v \<Rightarrow> 'm \<Rightarrow> 'm"
    and retain :: "('k \<Rightarrow> 'v \<Rightarrow> bool) \<Rightarrow> 'm \<Rightarrow> 'm"
    and wf :: "'m \<Rightarrow> bool"
  assumes get_empty: "get empty k = None"
    and get_insert: "wf m \<Longrightarrow> get (insert_kv k v m) = (get m)(k \<mapsto> v)"
    and get_retain: "wf m \<Longrightarrow> get (retain p m) k =
           (case get m k of Some v \<Rightarrow> if p k v then Some v else None | None \<Rightarrow> None)"
    and wf_empty: "wf empty"
    and wf_insert: "wf m \<Longrightarrow> wf (insert_kv k v m)"
    and wf_retain: "wf m \<Longrightarrow> wf (retain p m)"
begin

lemma get_remove:
  "wf m \<Longrightarrow> get (retain (\<lambda>k' _. k' \<noteq> k) m) = (get m)(k := None)"
  by (rule ext) (auto simp: get_retain split: option.splits)

lemma get_remove_insert:
  "wf m \<Longrightarrow> get m k = None \<Longrightarrow> get (retain (\<lambda>k' _. k' \<noteq> k) (insert_kv k v m)) = get m"
  by (rule ext) (auto simp: get_remove wf_insert get_insert)

lemma retain_dom: "wf m \<Longrightarrow> dom (get (retain p m)) \<subseteq> dom (get m)"
  by (auto simp: dom_def get_retain split: option.splits)

lemma retain_retain:
  "wf m \<Longrightarrow> get (retain p (retain q m)) k = get (retain (\<lambda>k v. p k v \<and> q k v) m) k"
  by (auto simp: get_retain wf_retain split: option.splits)

end

interpretation btree: ordered_store "[]" omap_get omap_insert omap_retain omap_wf
  by unfold_locales
    (simp_all add: omap_get_insert omap_get_retain omap_wf_insert omap_wf_retain)

lemmas omap_simps = omap_get_insert btree.get_retain omap_wf_insert omap_wf_retain

end
