(* ===== verification/Repository.thy ===== *)
theory Repository
  imports Ordered_Map
begin

text \<open>
  \<open>opensymphony-domain/src/repository.rs\<close>: canonical repository identities, the
  normalisation of remote locators they are derived from, and the routing of an issue to
  a repository by its managed label. The SHA-256 of the fingerprint comes from the crate
  \<open>sha2\<close> and is the parameter \<open>sha256_hex\<close> (the lower-case hex digest of a byte string).
  A \<open>BTreeSet\<close> is the ascending list of its elements.
\<close>

section \<open>Identities\<close>

datatype canonical_repository_id = CanonicalRepositoryId (repository_id_str: string)
datatype safe_remote_fingerprint = SafeRemoteFingerprint string

datatype repository_identity_error = InvalidCanonicalId string | MissingRemoteIdentity

instantiation canonical_repository_id :: linorder
begin

definition less_eq_canonical_repository_id ::
  "canonical_repository_id \<Rightarrow> canonical_repository_id \<Rightarrow> bool" where
  "less_eq_canonical_repository_id x y \<longleftrightarrow> repository_id_str x \<le> repository_id_str y"

definition less_canonical_repository_id ::
  "canonical_repository_id \<Rightarrow> canonical_repository_id \<Rightarrow> bool" where
  "less_canonical_repository_id x y \<longleftrightarrow> repository_id_str x < repository_id_str y"

instance
  by standard
    (auto simp: less_eq_canonical_repository_id_def less_canonical_repository_id_def
      canonical_repository_id.expand)

end

definition canonical_repository_id_new ::
  "string \<Rightarrow> repository_identity_error + canonical_repository_id" where
  "canonical_repository_id_new value =
     (let v = trim value
      in if v = [] \<or> \<not> str_contains v '':'' then Err (InvalidCanonicalId v)
         else Ok (CanonicalRepositoryId v))"

section \<open>Locator normalisation\<close>

definition normalize_component :: "string \<Rightarrow> string" where
  "normalize_component value = to_ascii_lowercase (trim value)"

definition default_provider_authority :: "string \<Rightarrow> string option" where
  "default_provider_authority provider =
     (if provider = ''github'' then Some ''github.com''
      else if provider = ''gitlab'' then Some ''gitlab.com''
      else if provider = ''bitbucket'' then Some ''bitbucket.org''
      else None)"

definition normalize_default_port :: "string \<Rightarrow> string option \<Rightarrow> string" where
  "normalize_default_port authority default_port =
     (case default_port of
        None \<Rightarrow> authority
      | Some dp \<Rightarrow>
          (case rsplit_once (CHR '':'') authority of
             None \<Rightarrow> authority
           | Some (host, port) \<Rightarrow> if host = [] \<or> port \<noteq> dp then authority else host))"

definition trim_brackets :: "string \<Rightarrow> string" where
  "trim_brackets s =
     (let b = (\<lambda>c. c = CHR ''['' \<or> c = CHR '']'')
      in rev (dropWhile b (rev (dropWhile b s))))"

definition scheme_port :: "string \<Rightarrow> string option" where
  "scheme_port scheme =
     (if scheme = ''http'' then Some ''80''
      else if scheme = ''https'' then Some ''443''
      else if scheme = ''ssh'' then Some ''22''
      else None)"

definition remote_authority :: "string \<Rightarrow> string option" where
  "remote_authority locator =
     (let raw = trim locator
      in if raw = [] then None
         else
           let (scheme, without_scheme) =
                 (case split_once ''://'' raw of
                    None \<Rightarrow> (None, raw)
                  | Some (s, r) \<Rightarrow> (Some s, r));
               has_scheme = (scheme \<noteq> None);
               user_remainder = or_else (strip_prefix ''git@'' raw) (strip_prefix ''ssh@'' raw);
               authority =
                 (if has_scheme then takeWhile (\<lambda>c. c \<noteq> CHR ''/'') without_scheme
                  else case user_remainder of
                    Some r \<Rightarrow> takeWhile (\<lambda>c. c \<noteq> CHR '':'') r
                  | None \<Rightarrow> takeWhile (\<lambda>c. c \<noteq> CHR ''/'') without_scheme);
               authority =
                 trim_brackets
                   (case rsplit_once (CHR ''@'') authority of
                      None \<Rightarrow> authority
                    | Some (_, a) \<Rightarrow> a)
           in if authority = [] \<or>
                 (\<not> has_scheme \<and> \<not> str_contains authority ''.'' \<and>
                  \<not> str_contains authority '':'' \<and> authority \<noteq> ''localhost'')
              then None
              else
                let authority = normalize_component authority;
                    default_port =
                      (case scheme of
                         Some s \<Rightarrow> scheme_port (normalize_component s)
                       | None \<Rightarrow> if user_remainder \<noteq> None then Some ''22'' else None)
                in Some (normalize_default_port authority default_port))"

definition provider_identity :: "string \<Rightarrow> string \<Rightarrow> string" where
  "provider_identity provider locator =
     (let provider = normalize_component provider
      in case or_else (remote_authority locator) (default_provider_authority provider) of
           None \<Rightarrow> provider
         | Some authority \<Rightarrow> provider @ '':'' @ authority)"

definition normalize_locator_default_port :: "string \<Rightarrow> string \<Rightarrow> string" where
  "normalize_locator_default_port value default_port =
     (case split_once ''/'' value of
        None \<Rightarrow> value
      | Some (authority, path) \<Rightarrow>
          let normalized_authority =
                (case rsplit_once (CHR ''@'') authority of
                   Some (user, host) \<Rightarrow> user @ ''@'' @ normalize_default_port host (Some default_port)
                 | None \<Rightarrow> normalize_default_port authority (Some default_port))
          in if normalized_authority = authority then value
             else normalized_authority @ ''/'' @ path)"

definition normalize_locator :: "string \<Rightarrow> string" where
  "normalize_locator value =
     (let value = trim value;
          (default_port, value) =
            (case split_once ''://'' value of
               Some (scheme, without_scheme) \<Rightarrow>
                 (let scheme = to_ascii_lowercase scheme
                  in if scheme \<in> {''http'', ''https'', ''ssh'', ''git''}
                     then (scheme_port scheme, without_scheme)
                     else (None, value))
             | None \<Rightarrow> (None, value));
          value = (case default_port of
                     Some dp \<Rightarrow> normalize_locator_default_port value dp
                   | None \<Rightarrow> value);
          value = trim_end_matches (CHR ''/'') value
      in unwrap_or (strip_suffix ''.git'' value) value)"

definition strip_case_insensitive_prefix :: "string \<Rightarrow> string \<Rightarrow> string option" where
  "strip_case_insensitive_prefix value pre =
     (if length pre \<le> length value \<and> eq_ignore_ascii_case (take (length pre) value) pre
      then Some (drop (length pre) value) else None)"

definition nonempty :: "string option \<Rightarrow> string option" where
  "nonempty s = (case s of Some v \<Rightarrow> if v = [] then None else Some v | None \<Rightarrow> None)"

definition normalize_locator_for_provider :: "string \<Rightarrow> string \<Rightarrow> string" where
  "normalize_locator_for_provider provider locator =
     (let normalized = normalize_locator locator
      in case or_else (remote_authority locator)
                (or_else (map_option snd (rsplit_once (CHR '':'') provider))
                   (default_provider_authority (normalize_component provider))) of
           None \<Rightarrow> normalized
         | Some authority \<Rightarrow>
             let slash_prefix = authority @ ''/''; colon_prefix = authority @ '':''
             in case nonempty (strip_case_insensitive_prefix normalized slash_prefix) of
                  Some path \<Rightarrow> path
                | None \<Rightarrow>
                    (case nonempty (strip_case_insensitive_prefix normalized colon_prefix) of
                       Some path \<Rightarrow> path
                     | None \<Rightarrow>
                         (case split_once ''@'' normalized of
                            None \<Rightarrow> normalized
                          | Some (user, remainder) \<Rightarrow>
                              if user = [] then normalized
                              else unwrap_or
                                     (or_else (strip_case_insensitive_prefix remainder slash_prefix)
                                              (strip_case_insensitive_prefix remainder colon_prefix))
                                     normalized)))"

definition native_id :: "string option \<Rightarrow> string option" where
  "native_id provider_id = nonempty (map_option trim provider_id)"

definition canonical_from_remote ::
  "string \<Rightarrow> string option \<Rightarrow> string \<Rightarrow> repository_identity_error + canonical_repository_id" where
  "canonical_from_remote provider provider_id locator =
     (let provider = provider_identity provider locator;
          durable_key = (case native_id provider_id of
                           Some k \<Rightarrow> k
                         | None \<Rightarrow> normalize_locator_for_provider provider locator)
      in if provider = [] \<or> durable_key = [] then Err MissingRemoteIdentity
         else canonical_repository_id_new (provider @ '':repository:'' @ durable_key))"

definition fingerprint_from_remote ::
  "(string \<Rightarrow> string) \<Rightarrow> string \<Rightarrow> string option \<Rightarrow> string \<Rightarrow>
     repository_identity_error + safe_remote_fingerprint" where
  "fingerprint_from_remote sha256_hex provider provider_id locator =
     (let provider = provider_identity provider locator;
          pid = unwrap_or (native_id provider_id) [];
          locator = normalize_locator_for_provider provider locator
      in if provider = [] \<or> (pid = [] \<and> locator = []) then Err MissingRemoteIdentity
         else
           let material =
                 (if pid = [] then ''provider='' @ provider @ [CHR 0x1F] @ ''locator='' @ locator
                  else ''provider='' @ provider @ [CHR 0x1F] @ ''provider_id='' @ pid)
           in Ok (SafeRemoteFingerprint (''sha256:'' @ sha256_hex material)))"

section \<open>Routing\<close>

record repository_identity =
  ri_id :: canonical_repository_id
  ri_safe_remote_fingerprint :: safe_remote_fingerprint

record repository_binding =
  rb_alias :: string
  rb_repository :: repository_identity
  rb_config_generation :: string
  rb_inventory_generation :: string

datatype repository_routing_mode = LegacySingle | ProjectSet

record repository_inventory_entry =
  rie_alias :: string
  rie_identity :: repository_identity

record repository_routing =
  rr_mode :: repository_routing_mode
  rr_inventory :: "(string, repository_inventory_entry) omap"
  rr_project_repositories :: "(string, canonical_repository_id list) omap"
  rr_active_projects :: "string list"
  rr_legacy_repository :: "string option"
  rr_config_generation :: string
  rr_inventory_generation :: string

datatype repository_binding_outcome =
    Resolved repository_binding
  | MissingBinding
  | UnknownAlias string
  | MultipleBindings "string list"
  | RepositoryNotAllowedForProject canonical_repository_id string
  | ParentBindingNotAllowed
  | ProjectOutsideActiveSet string

definition managed_label_prefix :: string where "managed_label_prefix = ''repo:''"

definition managed_alias :: "string \<Rightarrow> string option" where
  "managed_alias label =
     map_option trim
       (or_else (strip_prefix managed_label_prefix label)
          (strip_case_insensitive_prefix label managed_label_prefix))"

definition managed_repository_aliases :: "string list \<Rightarrow> string list" where
  "managed_repository_aliases labels = List.map_filter managed_alias labels"

definition project_keys :: "string option \<Rightarrow> string option \<Rightarrow> string list" where
  "project_keys project_id project_slug =
     filter (\<lambda>v. v \<noteq> []) (map trim (opt_list project_id @ opt_list project_slug))"

definition select_project_key :: "string list \<Rightarrow> string list \<Rightarrow> string option" where
  "select_project_key active keys =
     or_else
       (find_map (\<lambda>key. if key \<in> set active then Some key
                        else find (\<lambda>a. eq_ignore_ascii_case a key) active) keys)
       (case keys of [] \<Rightarrow> None | k # _ \<Rightarrow> Some k)"

text \<open>The outcome once the alias is known: lookup in the inventory and, in a project set,
  the project's allow list.\<close>

definition resolve_alias ::
  "repository_routing \<Rightarrow> string option \<Rightarrow> string \<Rightarrow> repository_binding_outcome" where
  "resolve_alias r project_key alias =
     (case omap_get (rr_inventory r) alias of
        None \<Rightarrow> UnknownAlias alias
      | Some entry \<Rightarrow>
          if rr_mode r = ProjectSet \<and>
             \<not> is_some_and (\<lambda>allowed. ri_id (rie_identity entry) \<in> set allowed)
                 (Option.bind project_key (omap_get (rr_project_repositories r)))
          then RepositoryNotAllowedForProject (ri_id (rie_identity entry)) (unwrap_or project_key [])
          else Resolved
                 \<lparr>rb_alias = alias, rb_repository = rie_identity entry,
                  rb_config_generation = rr_config_generation r,
                  rb_inventory_generation = rr_inventory_generation r\<rparr>)"

definition resolve ::
  "repository_routing \<Rightarrow> string list \<Rightarrow> string option \<Rightarrow> string option \<Rightarrow> bool \<Rightarrow>
     repository_binding_outcome" where
  "resolve r labels project_id project_slug is_parent =
     (let aliases = managed_repository_aliases labels;
          project_key = select_project_key (rr_active_projects r)
                          (project_keys project_id project_slug)
      in if is_parent \<and> aliases \<noteq> [] then ParentBindingNotAllowed
         else if rr_mode r = ProjectSet \<and> project_key = None then ProjectOutsideActiveSet []
         else if rr_mode r = ProjectSet \<and> unwrap_or project_key [] \<notin> set (rr_active_projects r)
         then ProjectOutsideActiveSet (unwrap_or project_key [])
         else case aliases of
                [] \<Rightarrow> if rr_mode r = LegacySingle \<and> \<not> is_parent
                      then resolve_alias r project_key (unwrap_or (rr_legacy_repository r) [])
                      else MissingBinding
              | [alias] \<Rightarrow> resolve_alias r project_key alias
              | _ \<Rightarrow> MultipleBindings aliases)"

section \<open>Outcomes\<close>

fun resolved_binding :: "repository_binding_outcome \<Rightarrow> repository_binding option" where
  "resolved_binding (Resolved binding) = Some binding"
| "resolved_binding _ = None"

definition repository_id :: "repository_binding_outcome \<Rightarrow> canonical_repository_id option" where
  "repository_id out = map_option (\<lambda>b. ri_id (rb_repository b)) (resolved_binding out)"

definition canonical_identity_changed ::
  "repository_binding_outcome \<Rightarrow> repository_binding_outcome \<Rightarrow> bool" where
  "canonical_identity_changed x y =
     (case (repository_id x, repository_id y) of
        (Some l, Some r) \<Rightarrow> l \<noteq> r
      | _ \<Rightarrow> x \<noteq> y)"

fun canonical_identity_changed_opt ::
  "repository_binding_outcome option \<Rightarrow> repository_binding_outcome option \<Rightarrow> bool" where
  "canonical_identity_changed_opt (Some l) (Some r) = canonical_identity_changed l r"
| "canonical_identity_changed_opt None None = False"
| "canonical_identity_changed_opt _ _ = True"

definition binding_changed_opt ::
  "repository_binding_outcome option \<Rightarrow> repository_binding_outcome option \<Rightarrow> bool" where
  "binding_changed_opt l r \<longleftrightarrow> l \<noteq> r"


section \<open>Lemmas\<close>

subsection \<open>Identity comparison\<close>

lemma repository_id_Resolved [simp]:
  "repository_id (Resolved b) = Some (ri_id (rb_repository b))"
  by (simp add: repository_id_def)

lemma repository_id_eq_Some:
  "repository_id out = Some i \<longleftrightarrow> (\<exists>b. out = Resolved b \<and> ri_id (rb_repository b) = i)"
  by (cases out) (auto simp: repository_id_def)

text \<open>Two outcomes are the same identity when they carry the same tag: the canonical id of
  a resolved outcome, the outcome itself otherwise.\<close>

definition identity_tag ::
  "repository_binding_outcome \<Rightarrow> canonical_repository_id + repository_binding_outcome" where
  "identity_tag out = (case repository_id out of Some i \<Rightarrow> Inl i | None \<Rightarrow> Inr out)"

lemma canonical_identity_changed_tag:
  "canonical_identity_changed x y \<longleftrightarrow> identity_tag x \<noteq> identity_tag y"
  by (auto simp: canonical_identity_changed_def identity_tag_def split: option.splits)

lemma canonical_identity_changed_opt_tag:
  "canonical_identity_changed_opt x y \<longleftrightarrow> map_option identity_tag x \<noteq> map_option identity_tag y"
  by (cases x; cases y) (simp_all add: canonical_identity_changed_tag)

subsection \<open>Routing\<close>

lemma resolve_alias_Resolved:
  assumes "resolve_alias r key alias = Resolved b"
  obtains entry where "omap_get (rr_inventory r) alias = Some entry" and "rb_alias b = alias"
    and "rb_repository b = rie_identity entry"
    and "rb_config_generation b = rr_config_generation r"
    and "rb_inventory_generation b = rr_inventory_generation r"
    and "rr_mode r = ProjectSet \<Longrightarrow>
           \<exists>k allowed. key = Some k \<and> omap_get (rr_project_repositories r) k = Some allowed \<and>
             ri_id (rie_identity entry) \<in> set allowed"
  using assms
  by (auto simp: resolve_alias_def is_some_and_def split: option.splits if_splits)
    (auto simp: bind_eq_Some_conv)

lemma select_project_key_Nil [simp]: "select_project_key active [] = None"
  by (simp add: select_project_key_def)

subsection \<open>Canonical identities\<close>

lemma canonical_new_Ok:
  "canonical_repository_id_new v = Ok i \<Longrightarrow>
     repository_id_str i = trim v \<and> trim v \<noteq> [] \<and> str_contains (trim v) '':''"
  by (auto simp: canonical_repository_id_new_def Let_def split: if_splits)

subsection \<open>Locators made of printable ASCII characters\<close>

definition printable :: "char \<Rightarrow> bool" where
  "printable c \<longleftrightarrow> 33 \<le> byte c \<and> byte c < 127"

fun starts_unprintable :: "string \<Rightarrow> bool" where
  "starts_unprintable [] = False"
| "starts_unprintable (c # r) = (\<not> printable c)"

lemma white_space_unprintable:
  "list_all starts_unprintable white_space" "list_all starts_unprintable (map rev white_space)"
  by code_simp+

lemma strip_leading_printable:
  assumes ws: "list_all starts_unprintable ws" and s: "list_all printable s"
  shows "strip_leading ws s = s"
proof (rule strip_leading_id)
  have "[] \<notin> set ws" using ws by (auto simp: list_all_iff)
  moreover have "\<not> prefix w s" if "w \<in> set ws" for w
    using ws s that by (cases w; cases s) (auto simp: list_all_iff)
  ultimately show "leading ws s = 0" by (simp add: leading_zero_iff)
qed

lemma trim_printable: "list_all printable s \<Longrightarrow> trim s = s"
  by (simp add: trim_def trim_start_def trim_end_def strip_leading_printable
      white_space_unprintable list_all_rev del: set_map)

lemma split_once_absent: "c \<in> set p \<Longrightarrow> c \<notin> set s \<Longrightarrow> split_once p s = None"
  by (cases "split_once p s") (auto dest: split_once_Some)

lemma rsplit_once_absent: "c \<notin> set s \<Longrightarrow> rsplit_once c s = None"
  by (simp add: rsplit_once_def split_once_absent)

lemma str_contains_absent: "c \<in> set p \<Longrightarrow> c \<notin> set s \<Longrightarrow> \<not> str_contains s p"
  by (simp add: str_contains_def split_once_absent)

lemma strip_prefix_absent: "c \<in> set p \<Longrightarrow> c \<notin> set s \<Longrightarrow> strip_prefix p s = None"
  by (auto simp: strip_prefix_def prefix_def)

text \<open>A repository path \<open>owner/name\<close> whose segments are plain: non-empty, of ASCII letters,
  digits, \<open>-\<close> and \<open>_\<close>.\<close>

definition plain_segment :: "string \<Rightarrow> bool" where
  "plain_segment s \<longleftrightarrow> s \<noteq> [] \<and>
     list_all (\<lambda>c. is_ascii_alphanumeric c \<or> c = CHR ''-'' \<or> c = CHR ''_'') s"

definition plain_path :: "string \<Rightarrow> bool" where
  "plain_path p \<longleftrightarrow> (\<exists>owner name. p = owner @ ''/'' @ name \<and>
     plain_segment owner \<and> owner \<noteq> ''localhost'' \<and> plain_segment name)"


lemma plain_char:
  "is_ascii_alphanumeric c \<or> c = CHR ''-'' \<or> c = CHR ''_'' \<Longrightarrow>
     printable c \<and> c \<notin> {CHR ''.'', CHR '':'', CHR ''@'', CHR ''/'', CHR ''['', CHR '']''}"
  by (auto simp: printable_def is_ascii_alphanumeric_def is_ascii_digit_def
      is_ascii_upper_def byte_def)

lemma plain_segmentD:
  assumes "plain_segment s"
  shows "s \<noteq> []" and "list_all printable s"
    and "CHR ''.'' \<notin> set s" and "CHR '':'' \<notin> set s" and "CHR ''@'' \<notin> set s" and "CHR ''/'' \<notin> set s"
    and "CHR ''['' \<notin> set s" and "CHR '']'' \<notin> set s"
  using assms plain_char by (fastforce simp: plain_segment_def list_all_iff)+

lemma ascii_lower_dot: "ascii_lower c = CHR ''.'' \<Longrightarrow> c = CHR ''.''"
proof -
  assume "ascii_lower c = CHR ''.''"
  then have "\<not> is_ascii_upper c"
    by (auto simp: ascii_lower_def is_ascii_upper_def byte_def
        dest: arg_cong [where f = "of_char :: char \<Rightarrow> nat"])
  with \<open>ascii_lower c = CHR ''.''\<close> show ?thesis by (simp add: ascii_lower_def)
qed

lemma strip_ci_prefix_no_dot:
  assumes "CHR ''.'' \<in> set pre" and "CHR ''.'' \<notin> set s"
  shows "strip_case_insensitive_prefix s pre = None"
proof (rule ccontr)
  assume "strip_case_insensitive_prefix s pre \<noteq> None"
  then have eq: "map ascii_lower (take (length pre) s) = map ascii_lower pre"
    by (auto simp: strip_case_insensitive_prefix_def eq_ignore_ascii_case_def
        to_ascii_lowercase_def split: if_splits)
  have "ascii_lower (CHR ''.'') = CHR ''.''"
    by (simp add: ascii_lower_def is_ascii_upper_def byte_def)
  with assms(1) have "CHR ''.'' \<in> set (map ascii_lower pre)" by force
  with eq have "CHR ''.'' \<in> ascii_lower ` set (take (length pre) s)" by (metis set_map)
  then obtain c where "c \<in> set (take (length pre) s)" and "ascii_lower c = CHR ''.''" by force
  with ascii_lower_dot assms(2) show False by (metis in_set_takeD)
qed

lemma no_git_suffix:
  assumes "CHR ''.'' \<notin> set name" shows "strip_suffix ''.git'' (x @ CHR ''/'' # name) = None"
proof -
  have "\<not> suffix ''.git'' (x @ CHR ''/'' # name)"
  proof
    assume "suffix ''.git'' (x @ CHR ''/'' # name)"
    then consider "suffix ''.git'' (CHR ''/'' # name)"
      | xs where "''.git'' = xs @ CHR ''/'' # name"
      by (auto simp: suffix_append)
    then show False
    proof cases
      case 1
      then have "CHR ''.'' \<in> set (CHR ''/'' # name)" by (auto dest: set_mono_suffix)
      with assms show False by simp
    next
      case 2
      then have "CHR ''/'' \<in> set ''.git''" by (metis in_set_conv_decomp)
      then show False by simp
    qed
  qed
  then show ?thesis by (simp add: strip_suffix_def)
qed

lemma trim_end_matches_id: "s \<noteq> [] \<Longrightarrow> last s \<noteq> c \<Longrightarrow> trim_end_matches c s = s"
proof -
  assume "s \<noteq> []" "last s \<noteq> c"
  then have "dropWhile (\<lambda>x. x = c) (rev s) = rev s"
    by (cases s rule: rev_cases) auto
  then show ?thesis by (simp add: trim_end_matches_def)
qed

lemma plain_pathD:
  assumes "plain_path p"
  shows "list_all printable p" and "CHR '':'' \<notin> set p" and "CHR ''@'' \<notin> set p"
    and "CHR ''.'' \<notin> set p" and "p \<noteq> []" and "hd p \<noteq> CHR ''/''" and "last p \<noteq> CHR ''/''"
    and "strip_suffix ''.git'' (x @ p) = None"
    and "takeWhile (\<lambda>c. c \<noteq> CHR ''/'') p \<noteq> ''localhost''"
    and "CHR '':'' \<notin> set (takeWhile (\<lambda>c. c \<noteq> CHR ''/'') p)"
    and "CHR ''.'' \<notin> set (takeWhile (\<lambda>c. c \<noteq> CHR ''/'') p)"
    and "trim_brackets (takeWhile (\<lambda>c. c \<noteq> CHR ''/'') p) = takeWhile (\<lambda>c. c \<noteq> CHR ''/'') p"
proof -
  from assms obtain owner name where p: "p = owner @ ''/'' @ name"
    and o: "plain_segment owner" "owner \<noteq> ''localhost''" and n: "plain_segment name"
    by (auto simp: plain_path_def)
  note od = plain_segmentD [OF o(1)] and nd = plain_segmentD [OF n]
  have slash: "printable (CHR ''/'')" by (simp add: printable_def byte_def)
  have tw: "takeWhile (\<lambda>c. c \<noteq> CHR ''/'') p = owner"
    using od(6) by (simp add: p) (subst takeWhile_append2, auto)
  show "list_all printable p" using od(2) nd(2) slash by (simp add: p)
  show "CHR '':'' \<notin> set p" "CHR ''@'' \<notin> set p" "CHR ''.'' \<notin> set p" "p \<noteq> []"
    using od nd by (simp_all add: p)
  show "hd p \<noteq> CHR ''/''" using od(1,6) by (cases owner) (auto simp: p)
  have "last p = last name" using nd(1) by (simp add: p)
  then show "last p \<noteq> CHR ''/''" using last_in_set [OF nd(1)] nd(6) by metis
  show "strip_suffix ''.git'' (x @ p) = None"
    using no_git_suffix [OF nd(3), of "x @ owner"] by (simp add: p)
  show "takeWhile (\<lambda>c. c \<noteq> CHR ''/'') p \<noteq> ''localhost''"
    "CHR '':'' \<notin> set (takeWhile (\<lambda>c. c \<noteq> CHR ''/'') p)"
    "CHR ''.'' \<notin> set (takeWhile (\<lambda>c. c \<noteq> CHR ''/'') p)"
    using o(2) od by (simp_all add: tw)
  have "dropWhile (\<lambda>c. c = CHR ''['' \<or> c = CHR '']'') owner = owner"
    "dropWhile (\<lambda>c. c = CHR ''['' \<or> c = CHR '']'') (rev owner) = rev owner"
    using od(7,8) by (auto simp: dropWhile_eq_self_iff dest: hd_in_set)
      (metis hd_in_set rev_is_Nil_conv set_rev)+
  then show "trim_brackets (takeWhile (\<lambda>c. c \<noteq> CHR ''/'') p) = takeWhile (\<lambda>c. c \<noteq> CHR ''/'') p"
    by (simp add: tw trim_brackets_def)
qed

lemma identity_concrete:
  "normalize_component ''github'' = ''github''"
  "normalize_component ''github.com'' = ''github.com''"
  "normalize_component ''https'' = ''https''"
  "to_ascii_lowercase ''https'' = ''https''"
  "trim_brackets ''github.com'' = ''github.com''"
  "rsplit_once (CHR ''@'') ''github.com'' = None"
  "rsplit_once (CHR '':'') ''github.com'' = None"
  "rsplit_once (CHR '':'') ''github:github.com'' = Some (''github'', ''github.com'')"
  "scheme_port ''https'' = Some ''443''"
  "default_provider_authority ''github'' = Some ''github.com''"
  "str_contains ''github.com'' ''.''"
  by code_simp+

lemma trim_plain: "plain_path p \<Longrightarrow> trim p = p"
  "plain_path p \<Longrightarrow> trim (''https://github.com/'' @ p) = ''https://github.com/'' @ p"
  "plain_path p \<Longrightarrow> trim (''git@github.com:'' @ p @ ''.git'') = ''git@github.com:'' @ p @ ''.git''"
  "plain_path p \<Longrightarrow> trim (''github:github.com:repository:'' @ p) = ''github:github.com:repository:'' @ p"
  by (rule trim_printable; simp add: plain_pathD(1) printable_def byte_def)+

lemma authority_shorthand: "plain_path p \<Longrightarrow> remote_authority p = None"
proof -
  assume p: "plain_path p"
  note d = plain_pathD [OF p]
  have "split_once ''://'' p = None" "strip_prefix ''git@'' p = None" "strip_prefix ''ssh@'' p = None"
    using d(2,3) by (simp_all add: split_once_absent [of "CHR '':''"] strip_prefix_absent [of "CHR ''@''"])
  moreover have "rsplit_once (CHR ''@'') (takeWhile (\<lambda>c. c \<noteq> CHR ''/'') p) = None"
    using d(3) by (auto intro!: rsplit_once_absent dest: set_takeWhileD)
  moreover have "\<not> str_contains (takeWhile (\<lambda>c. c \<noteq> CHR ''/'') p) ''.''"
    "\<not> str_contains (takeWhile (\<lambda>c. c \<noteq> CHR ''/'') p) '':''"
    using d(10,11) by (simp_all add: str_contains_absent)
  ultimately show ?thesis
    using d(9,12) by (simp add: remote_authority_def trim_plain(1) [OF p])
qed

lemma authority_https: "plain_path p \<Longrightarrow> remote_authority (''https://github.com/'' @ p) = Some ''github.com''"
  using trim_plain(2) [of p]
  by (simp add: remote_authority_def identity_concrete normalize_default_port_def)

lemma split_scheme_scp:
  "plain_path p \<Longrightarrow> split_once ''://'' (''git@github.com:'' @ p @ ''.git'') = None"
proof -
  assume p: "plain_path p"
  note d = plain_pathD [OF p]
  obtain c r where c: "p = c # r" "c \<noteq> CHR ''/''" using d(5,6) by (cases p) auto
  have "split_once ''://'' (p @ ''.git'') = None"
    using d(2) by (simp add: split_once_absent [of "CHR '':''"])
  with c show ?thesis by simp
qed

lemma authority_scp: "plain_path p \<Longrightarrow> remote_authority (''git@github.com:'' @ p @ ''.git'') = Some ''github.com''"
  using trim_plain(3) [of p] split_scheme_scp [of p]
  by (simp add: remote_authority_def identity_concrete normalize_default_port_def strip_prefix_def)

lemma locator_shorthand: "plain_path p \<Longrightarrow> normalize_locator p = p"
  using trim_plain(1) [of p] plain_pathD [of p] plain_pathD(8) [of p "[]"]
  by (simp add: normalize_locator_def split_once_absent [of "CHR '':''"] trim_end_matches_id)

lemma locator_https: "plain_path p \<Longrightarrow> normalize_locator (''https://github.com/'' @ p) = ''github.com/'' @ p"
  using trim_plain(2) [of p] plain_pathD [of p] plain_pathD(8) [of p "''github.com/''"]
  by (simp add: normalize_locator_def normalize_locator_default_port_def
     normalize_default_port_def identity_concrete trim_end_matches_id)

lemma locator_scp: "plain_path p \<Longrightarrow> normalize_locator (''git@github.com:'' @ p @ ''.git'') = ''git@github.com:'' @ p"
  using trim_plain(3) [of p] plain_pathD [of p] split_scheme_scp [of p]
    trim_end_matches_id [of "''git@github.com:'' @ p @ ''.git''" "CHR ''/''"]
  by (simp add: normalize_locator_def strip_suffix_def suffix_def)
lemma provider_github:
  "plain_path p \<Longrightarrow> provider_identity ''github'' p = ''github:github.com''"
  "plain_path p \<Longrightarrow> provider_identity ''github'' (''https://github.com/'' @ p) = ''github:github.com''"
  "plain_path p \<Longrightarrow> provider_identity ''github'' (''git@github.com:'' @ p @ ''.git'') = ''github:github.com''"
  using authority_shorthand authority_https authority_scp
  by (simp_all add: provider_identity_def identity_concrete)

lemma ci_prefix_concrete:
  "strip_case_insensitive_prefix (''github.com/'' @ p) ''github.com/'' = Some p"
  "strip_case_insensitive_prefix (''github.com:'' @ p) ''github.com:'' = Some p"
  "strip_case_insensitive_prefix (''github.com:'' @ p) ''github.com/'' = None"
  "strip_case_insensitive_prefix (''git@github.com:'' @ p) ''github.com/'' = None"
  "strip_case_insensitive_prefix (''git@github.com:'' @ p) ''github.com:'' = None"
  by (simp_all add: strip_case_insensitive_prefix_def eq_ignore_ascii_case_def
      to_ascii_lowercase_def ascii_lower_def is_ascii_upper_def byte_def)

lemma locator_key:
  assumes p: "plain_path p"
  shows "normalize_locator_for_provider ''github:github.com'' p = p"
    and "normalize_locator_for_provider ''github:github.com'' (''https://github.com/'' @ p) = p"
    and "normalize_locator_for_provider ''github:github.com'' (''git@github.com:'' @ p @ ''.git'') = p"
proof -
  note d = plain_pathD [OF p]
  show "normalize_locator_for_provider ''github:github.com'' p = p"
    using d(3,4) by (simp add: normalize_locator_for_provider_def locator_shorthand [OF p]
        authority_shorthand [OF p] identity_concrete strip_ci_prefix_no_dot nonempty_def
        split_once_absent [of "CHR ''@''"])
  show "normalize_locator_for_provider ''github:github.com'' (''https://github.com/'' @ p) = p"
    using d(5) ci_prefix_concrete(1) [of p]
    by (simp add: normalize_locator_for_provider_def locator_https [OF p, simplified]
        authority_https [OF p, simplified] nonempty_def)
  show "normalize_locator_for_provider ''github:github.com'' (''git@github.com:'' @ p @ ''.git'') = p"
    using ci_prefix_concrete [of p]
    by (simp add: normalize_locator_for_provider_def locator_scp [OF p, simplified]
        authority_scp [OF p, simplified] nonempty_def)
qed

section \<open>Properties\<close>

text \<open>A GitHub repository named by the shorthand \<open>owner/name\<close>, by its https URL or by
  its scp-style ssh locator has one canonical identity when no provider-native id is
  known, for every plain owner and name.\<close>

theorem remote_forms_agree:
  assumes "plain_path p"
  shows "canonical_from_remote ''github'' None p =
           Ok (CanonicalRepositoryId (''github:github.com:repository:'' @ p)) \<and>
         canonical_from_remote ''github'' None (''https://github.com/'' @ p) =
           Ok (CanonicalRepositoryId (''github:github.com:repository:'' @ p)) \<and>
         canonical_from_remote ''github'' None (''git@github.com:'' @ p @ ''.git'') =
           Ok (CanonicalRepositoryId (''github:github.com:repository:'' @ p))"
  using plain_pathD(5) [OF assms] trim_plain(4) [OF assms] provider_github [OF assms] locator_key [OF assms]
  by (simp add: canonical_from_remote_def native_id_def nonempty_def
      canonical_repository_id_new_def str_contains_def)


theorem remote_forms_agree_witness:
  "plain_path ''owner/repo'' \<and>
   canonical_from_remote ''github'' None ''git@github.com:owner/repo.git'' =
     Ok (CanonicalRepositoryId ''github:github.com:repository:owner/repo'')"
proof -
  have segments: "plain_segment ''owner''" "plain_segment ''repo''" "''owner'' \<noteq> ''localhost''"
    by code_simp+
  then have "plain_path (''owner'' @ ''/'' @ ''repo'')" unfolding plain_path_def by blast
  then have "plain_path ''owner/repo''" by simp
  with remote_forms_agree [of "''owner/repo''"] show ?thesis by simp
qed

text \<open>When the provider exposes a native repository id, the canonical identity and the
  fingerprint depend on the remote only through the provider and its authority: a rename,
  a transfer or different clone credentials leave both unchanged.\<close>

theorem native_identity_survives_rename:
  assumes "native_id pid = Some k" and "provider_identity p l = provider_identity p l'"
  shows "canonical_from_remote p pid l = canonical_from_remote p pid l' \<and>
         fingerprint_from_remote h p pid l = fingerprint_from_remote h p pid l'"
proof -
  from assms(1) have "k \<noteq> []"
    by (auto simp: native_id_def nonempty_def split: option.splits if_splits)
  with assms show ?thesis
    by (simp add: canonical_from_remote_def fingerprint_from_remote_def Let_def)
qed

theorem native_identity_survives_rename_witness:
  "canonical_from_remote ''github'' (Some ''42'') ''old-owner/old-name'' =
     canonical_from_remote ''github'' (Some ''42'') ''new-owner/new-name'' \<and>
   fingerprint_from_remote (\<lambda>m. m) ''github'' (Some ''42'') ''old-owner/old-name'' =
     fingerprint_from_remote (\<lambda>m. m) ''github'' (Some ''42'') ''new-owner/new-name''"
proof -
  have "native_id (Some ''42'') = Some ''42''"
    "provider_identity ''github'' ''old-owner/old-name'' =
     provider_identity ''github'' ''new-owner/new-name''"
    by code_simp+
  from native_identity_survives_rename [OF this] show ?thesis .
qed

text \<open>C9: routing never invents a binding. A resolved outcome names an inventory entry by
  its alias, carries that entry's identity and the routing's generations, is never given to
  a parent, and in a project set the repository is on the allow list of an active project
  that the issue belongs to.\<close>

theorem resolve_sound:
  assumes "resolve r labels pid slug is_parent = Resolved b"
  shows "\<not> is_parent \<and>
    (\<exists>entry. omap_get (rr_inventory r) (rb_alias b) = Some entry \<and>
       b = \<lparr>rb_alias = rb_alias b, rb_repository = rie_identity entry,
            rb_config_generation = rr_config_generation r,
            rb_inventory_generation = rr_inventory_generation r\<rparr>) \<and>
    (rr_mode r = ProjectSet \<longrightarrow>
       managed_repository_aliases labels = [rb_alias b] \<and>
       (\<exists>k allowed. k \<in> set (rr_active_projects r) \<and>
          select_project_key (rr_active_projects r) (project_keys pid slug) = Some k \<and>
          omap_get (rr_project_repositories r) k = Some allowed \<and>
          ri_id (rb_repository b) \<in> set allowed))"
proof -
  let ?key = "select_project_key (rr_active_projects r) (project_keys pid slug)"
  let ?al = "managed_repository_aliases labels"
  from assms obtain a where bound: "resolve_alias r ?key a = Resolved b"
    and par: "\<not> is_parent"
    and ps: "rr_mode r = ProjectSet \<longrightarrow> ?al = [a] \<and>
                (\<exists>k. ?key = Some k \<and> k \<in> set (rr_active_projects r))"
    by (auto simp: resolve_def Let_def split: if_splits list.splits)
  show ?thesis
    by (rule resolve_alias_Resolved [OF bound]) (use par ps in auto)
qed

definition demo_identity :: repository_identity where
  "demo_identity = \<lparr>ri_id = CanonicalRepositoryId ''github:github.com:repository:1'',
     ri_safe_remote_fingerprint = SafeRemoteFingerprint ''sha256:0''\<rparr>"

definition demo_routing :: repository_routing where
  "demo_routing = \<lparr>rr_mode = ProjectSet,
     rr_inventory = [(''one'', \<lparr>rie_alias = ''one'', rie_identity = demo_identity\<rparr>)],
     rr_project_repositories = [(''project-id'', [ri_id demo_identity])],
     rr_active_projects = [''project-id''], rr_legacy_repository = Some ''one'',
     rr_config_generation = ''config-1'', rr_inventory_generation = ''inventory-1''\<rparr>"

theorem resolve_sound_witness:
  "\<exists>b. resolve demo_routing [''Repo:one''] (Some ''PROJECT-id'') None False = Resolved b \<and>
     managed_repository_aliases [''Repo:one''] = [rb_alias b] \<and> rb_alias b = ''one''"
proof -
  have "\<exists>b. resolve demo_routing [''Repo:one''] (Some ''PROJECT-id'') None False = Resolved b \<and>
          rb_alias b = ''one'' \<and> rr_mode demo_routing = ProjectSet"
    by (rule exI [where x = "\<lparr>rb_alias = ''one'', rb_repository = demo_identity,
          rb_config_generation = ''config-1'', rb_inventory_generation = ''inventory-1''\<rparr>"]) code_simp
  then show ?thesis using resolve_sound by blast
qed

text \<open>"the canonical identity changed" is the negation of an equivalence relation on
  optional binding outcomes, so a chain of refreshes that each report no change reports
  none overall.\<close>

theorem identity_change_equivalence:
  "equivp (\<lambda>x y. \<not> canonical_identity_changed_opt x y)"
  by (rule equivpI) (auto simp: reflp_def symp_def transp_def canonical_identity_changed_opt_tag)

end
