(* ===== verification/Identifiers.thy ===== *)
theory Identifiers
  imports Prelude
begin

text \<open>
  \<open>opensymphony-domain/src/identifiers.rs\<close> and \<open>time.rs\<close>: the string newtypes that name
  conversations, issues, tracker states, workers and workspaces, and the millisecond
  timestamps and durations. The constructors validate their argument; the \<open>Ord\<close> instances
  that Rust derives are instances of \<open>linorder\<close> here.
\<close>

datatype identifier_error = EmptyIdentifier string

datatype conversation_id = ConversationId string
datatype issue_id = IssueId (issue_id_str: string)
datatype issue_identifier = IssueIdentifier (issue_identifier_str: string)
datatype tracker_state_id = TrackerStateId string
datatype worker_id = WorkerId (worker_id_str: string)
datatype workspace_key = WorkspaceKey (workspace_key_str: string)

text \<open>The constructor the macro \<open>string_identifier!\<close> expands to: the value is kept as it
  is, and rejected when only white space remains after trimming.\<close>

definition string_identifier_new ::
  "string \<Rightarrow> (string \<Rightarrow> 'a) \<Rightarrow> string \<Rightarrow> identifier_error + 'a" where
  "string_identifier_new kind mk value =
     (if trim value = [] then Err (EmptyIdentifier kind) else Ok (mk value))"

definition conversation_id_new :: "string \<Rightarrow> identifier_error + conversation_id" where
  "conversation_id_new = string_identifier_new ''ConversationId'' ConversationId"

definition issue_id_new :: "string \<Rightarrow> identifier_error + issue_id" where
  "issue_id_new = string_identifier_new ''IssueId'' IssueId"

definition issue_identifier_new :: "string \<Rightarrow> identifier_error + issue_identifier" where
  "issue_identifier_new = string_identifier_new ''IssueIdentifier'' IssueIdentifier"

definition tracker_state_id_new :: "string \<Rightarrow> identifier_error + tracker_state_id" where
  "tracker_state_id_new = string_identifier_new ''TrackerStateId'' TrackerStateId"

definition worker_id_new :: "string \<Rightarrow> identifier_error + worker_id" where
  "worker_id_new = string_identifier_new ''WorkerId'' WorkerId"

text \<open>\<open>sanitize_workspace_key\<close> works on characters: every character outside ASCII
  alphanumerics, \<open>.\<close>, \<open>_\<close> and \<open>-\<close> becomes one \<open>_\<close>.\<close>

definition safe_key_char :: "char \<Rightarrow> bool" where
  "safe_key_char c \<longleftrightarrow> is_ascii_alphanumeric c \<or> c \<in> {CHR ''.'', CHR ''_'', CHR ''-''}"

definition sanitize_workspace_key :: "string \<Rightarrow> string" where
  "sanitize_workspace_key value =
     map (\<lambda>c. if safe_key_char c then c else CHR ''_'') (lead_bytes value)"

definition workspace_key_new :: "string \<Rightarrow> identifier_error + workspace_key" where
  "workspace_key_new value =
     (if value = [] then Err (EmptyIdentifier ''WorkspaceKey'')
      else Ok (WorkspaceKey (sanitize_workspace_key value)))"

section \<open>Time\<close>

type_synonym duration_ms = u64
type_synonym timestamp_ms = u64

definition timestamp_saturating_add :: "timestamp_ms \<Rightarrow> duration_ms \<Rightarrow> timestamp_ms" where
  "timestamp_saturating_add t d = saturating_add t d"

section \<open>Orderings\<close>

instantiation issue_id :: linorder
begin

definition less_eq_issue_id :: "issue_id \<Rightarrow> issue_id \<Rightarrow> bool" where
  "less_eq_issue_id x y \<longleftrightarrow> issue_id_str x \<le> issue_id_str y"

definition less_issue_id :: "issue_id \<Rightarrow> issue_id \<Rightarrow> bool" where
  "less_issue_id x y \<longleftrightarrow> issue_id_str x < issue_id_str y"

instance
  by standard (auto simp: less_eq_issue_id_def less_issue_id_def issue_id.expand)

end

instantiation issue_identifier :: linorder
begin

definition less_eq_issue_identifier :: "issue_identifier \<Rightarrow> issue_identifier \<Rightarrow> bool" where
  "less_eq_issue_identifier x y \<longleftrightarrow> issue_identifier_str x \<le> issue_identifier_str y"

definition less_issue_identifier :: "issue_identifier \<Rightarrow> issue_identifier \<Rightarrow> bool" where
  "less_issue_identifier x y \<longleftrightarrow> issue_identifier_str x < issue_identifier_str y"

instance
  by standard
    (auto simp: less_eq_issue_identifier_def less_issue_identifier_def issue_identifier.expand)

end

section \<open>Lemmas\<close>

lemma less_issue_id_IssueId [simp]:
  "IssueId a < IssueId b \<longleftrightarrow> a < b" "IssueId a \<le> IssueId b \<longleftrightarrow> a \<le> b"
  by (simp_all add: less_issue_id_def less_eq_issue_id_def)

lemma string_identifier_new_Ok [simp]:
  "string_identifier_new kind mk v = Ok x \<longleftrightarrow> trim v \<noteq> [] \<and> x = mk v"
  by (auto simp: string_identifier_new_def)

lemma safe_key_char_ascii: "safe_key_char c \<Longrightarrow> \<not> (128 \<le> byte c)"
  by (auto simp: safe_key_char_def is_ascii_alphanumeric_def is_ascii_digit_def
      is_ascii_upper_def byte_def)

lemma sanitize_safe: "list_all safe_key_char (sanitize_workspace_key v)"
  by (auto simp: sanitize_workspace_key_def list_all_iff safe_key_char_def)

lemma sanitize_safe_id: "list_all safe_key_char v \<Longrightarrow> sanitize_workspace_key v = v"
proof -
  assume v: "list_all safe_key_char v"
  then have "lead_bytes v = v"
    by (auto simp: lead_bytes_def filter_id_conv list_all_iff dest: safe_key_char_ascii)
  with v show ?thesis
    by (simp add: sanitize_workspace_key_def map_idI list_all_iff)
qed

lemma sanitize_idem [simp]:
  "sanitize_workspace_key (sanitize_workspace_key v) = sanitize_workspace_key v"
  by (rule sanitize_safe_id) (rule sanitize_safe)

end
