(* ===== verification/Issues.thy ===== *)
theory Issues
  imports Identifiers Repository
begin

text \<open>
  \<open>opensymphony-domain/src/issue.rs\<close> and \<open>tracker.rs\<close>: the normalised issue the scheduler
  owns and the tracker's view of an issue (Linear). Instants of the \<open>chrono\<close> crate are
  integers; only their order is used. A \<open>HashSet\<close> that is only searched is a list.
\<close>

type_synonym date_time = int

text \<open>JSON values (\<open>serde_json::Value\<close>); an object is an association list without
  duplicate keys, and a number keeps its text.\<close>

datatype json =
    JNull
  | JBool bool
  | JNumber string
  | JString string
  | JArray "json list"
  | JObject "(string \<times> json) list"

fun json_get :: "json \<Rightarrow> string \<Rightarrow> json option" where
  "json_get (JObject kvs) k = map_of kvs k"
| "json_get _ k = None"

fun json_as_str :: "json \<Rightarrow> string option" where
  "json_as_str (JString s) = Some s"
| "json_as_str _ = None"

section \<open>Normalised issues\<close>

datatype issue_state_category = Active | NonActive | Terminal

record issue_state =
  is_id :: "tracker_state_id option"
  is_name :: string
  is_category :: issue_state_category

record blocker_ref =
  br_id :: "issue_id option"
  br_identifier :: "issue_identifier option"
  br_state :: "string option"
  br_created_at :: "timestamp_ms option"
  br_updated_at :: "timestamp_ms option"

record issue_ref =
  ir_id :: issue_id
  ir_identifier :: issue_identifier
  ir_state :: string

record normalized_issue =
  ni_id :: issue_id
  ni_identifier :: issue_identifier
  ni_title :: string
  ni_description :: "string option"
  ni_priority :: "u8 option"
  ni_state :: issue_state
  ni_branch_name :: "string option"
  ni_pr_url :: "string option"
  ni_pr_urls :: "string list"
  ni_url :: "string option"
  ni_labels :: "string list"
  ni_project_id :: "string option"
  ni_project_slug :: "string option"
  ni_project_name :: "string option"
  ni_parent_id :: "issue_id option"
  ni_repository_binding :: "repository_binding_outcome option"
  ni_blocked_by :: "blocker_ref list"
  ni_sub_issues :: "issue_ref list"
  ni_created_at :: "timestamp_ms option"
  ni_updated_at :: "timestamp_ms option"

section \<open>Tracker issues\<close>

datatype tracker_issue_state_kind =
    KBacklog | KUnstarted | KStarted | KCompleted | KCanceled | KTriage | KUnknown string

definition kind_from_tracker_type :: "string \<Rightarrow> tracker_issue_state_kind" where
  "kind_from_tracker_type value =
     (let v = to_ascii_lowercase (trim value)
      in if v = ''backlog'' then KBacklog
         else if v = ''unstarted'' then KUnstarted
         else if v = ''started'' then KStarted
         else if v = ''completed'' then KCompleted
         else if v = ''canceled'' then KCanceled
         else if v \<in> {''triage'', ''triaged''} then KTriage
         else KUnknown v)"

fun kind_is_terminal :: "tracker_issue_state_kind \<Rightarrow> bool" where
  "kind_is_terminal KCompleted = True"
| "kind_is_terminal KCanceled = True"
| "kind_is_terminal _ = False"

definition kind_from_tracker_name :: "string \<Rightarrow> tracker_issue_state_kind" where
  "kind_from_tracker_name value =
     (let v = to_ascii_lowercase (trim value)
      in if v = ''backlog'' then KBacklog
         else if v \<in> {''todo'', ''to do''} then KUnstarted
         else if v \<in> {''in progress'', ''started'', ''review'', ''human review'', ''merging''} then KStarted
         else if v \<in> {''done'', ''completed'', ''closed''} then KCompleted
         else if v \<in> {''canceled'', ''cancelled''} then KCanceled
         else if v \<in> {''triage'', ''triaged''} then KTriage
         else KUnknown v)"

record tracker_issue_state =
  ts_id :: string
  ts_name :: string
  ts_tracker_type :: string
  ts_kind :: tracker_issue_state_kind

definition state_is_terminal :: "tracker_issue_state \<Rightarrow> bool" where
  "state_is_terminal s = kind_is_terminal (ts_kind s)"

record tracker_issue_blocker =
  tb_id :: string
  tb_identifier :: string
  tb_title :: string
  tb_state :: tracker_issue_state

definition blocker_is_terminal :: "tracker_issue_blocker \<Rightarrow> bool" where
  "blocker_is_terminal b = state_is_terminal (tb_state b)"

record tracker_issue_ref =
  tr_id :: string
  tr_identifier :: string
  tr_title :: "string option"
  tr_url :: "string option"
  tr_state :: string
  tr_state_kind :: tracker_issue_state_kind

definition ref_is_terminal :: "tracker_issue_ref \<Rightarrow> string list \<Rightarrow> bool" where
  "ref_is_terminal r terminal_states =
     (let state = trim (tr_state r)
      in list_ex (\<lambda>t. eq_ignore_ascii_case (trim t) state) terminal_states)"

record tracker_project_milestone =
  tm_id :: string
  tm_name :: string

record tracker_issue =
  ti_id :: string
  ti_identifier :: string
  ti_url :: string
  ti_title :: string
  ti_description :: "string option"
  ti_priority :: "u8 option"
  ti_state :: string
  ti_state_kind :: tracker_issue_state_kind
  ti_branch_name :: "string option"
  ti_pr_url :: "string option"
  ti_pr_urls :: "string list"
  ti_labels :: "string list"
  ti_project_id :: "string option"
  ti_project_slug :: "string option"
  ti_project_name :: "string option"
  ti_parent_id :: "string option"
  ti_parent :: "tracker_issue_ref option"
  ti_project_milestone :: "tracker_project_milestone option"
  ti_blocked_by :: "tracker_issue_blocker list"
  ti_sub_issues :: "tracker_issue_ref list"
  ti_created_at :: date_time
  ti_updated_at :: date_time

end
