(* ===== verification/Selection.thy ===== *)
theory Selection
  imports Issues "HOL-Library.Multiset"
begin

text \<open>
  \<open>opensymphony-orchestrator/src/selection.rs\<close>: which tracker issues may be dispatched,
  and in which order. \<open>slice::sort_by\<close> is a stable sort; the model sorts by the key whose
  lexicographic order is the code's comparator chain.
\<close>

definition issue_blocked_by_non_terminal_blockers :: "tracker_issue \<Rightarrow> bool" where
  "issue_blocked_by_non_terminal_blockers i =
     list_ex (\<lambda>b. \<not> blocker_is_terminal b) (ti_blocked_by i)"

definition parent_issue_blocked_by_incomplete_children ::
  "tracker_issue \<Rightarrow> string list \<Rightarrow> bool" where
  "parent_issue_blocked_by_incomplete_children i terminal_states \<longleftrightarrow>
     ti_sub_issues i \<noteq> [] \<and>
     list_ex (\<lambda>s. \<not> ref_is_terminal s terminal_states) (ti_sub_issues i)"

definition should_dispatch_issue :: "tracker_issue \<Rightarrow> string list \<Rightarrow> bool" where
  "should_dispatch_issue i terminal_states \<longleftrightarrow>
     \<not> issue_blocked_by_non_terminal_blockers i \<and>
     \<not> parent_issue_blocked_by_incomplete_children i terminal_states"

definition priority_rank :: "tracker_issue \<Rightarrow> u8" where
  "priority_rank i = unwrap_or (ti_priority i) (- 1)"

definition dispatch_key :: "tracker_issue \<Rightarrow> u8 \<times> nat \<times> date_time \<times> string" where
  "dispatch_key i =
     (priority_rank i, length (ti_sub_issues i), ti_created_at i, ti_identifier i)"

definition sort_issues_for_dispatch :: "tracker_issue list \<Rightarrow> tracker_issue list" where
  "sort_issues_for_dispatch issues = sort_key dispatch_key issues"

definition filter_issues_for_dispatch ::
  "tracker_issue list \<Rightarrow> string list \<Rightarrow> tracker_issue list" where
  "filter_issues_for_dispatch issues terminal_states =
     sort_issues_for_dispatch (filter (\<lambda>i. should_dispatch_issue i terminal_states) issues)"

section \<open>Lemmas\<close>

lemma set_sort_issues [simp]: "set (sort_issues_for_dispatch xs) = set xs"
  by (simp add: sort_issues_for_dispatch_def)

lemma dispatchable_iff:
  "should_dispatch_issue i ts \<longleftrightarrow>
     (\<forall>b \<in> set (ti_blocked_by i). blocker_is_terminal b) \<and>
     (\<forall>s \<in> set (ti_sub_issues i). ref_is_terminal s ts)"
  by (auto simp: should_dispatch_issue_def issue_blocked_by_non_terminal_blockers_def
      parent_issue_blocked_by_incomplete_children_def list_ex_iff)

lemma sort_key_before:
  assumes "sort_key f xs = ys @ x # zs @ y # ws" shows "f x \<le> f y"
proof -
  have "sorted (map f (sort_key f xs))" by (rule sorted_sort_key)
  with assms show ?thesis by (simp add: sorted_append)
qed

section \<open>Properties\<close>


text \<open>An issue that the dispatch list holds has only terminal blockers and only
  sub-issues in a terminal state; adding a sub-issue in a state that is not terminal removes
  the issue from every later dispatch list.\<close>

theorem dispatch_respects_hierarchy:
  assumes "i \<in> set (filter_issues_for_dispatch issues ts)"
  shows "(\<forall>b \<in> set (ti_blocked_by i). kind_is_terminal (ts_kind (tb_state b))) \<and>
         (\<forall>s \<in> set (ti_sub_issues i). ref_is_terminal s ts) \<and>
         (\<forall>c. \<not> ref_is_terminal c ts \<longrightarrow>
            i\<lparr>ti_sub_issues := ti_sub_issues i @ [c]\<rparr> \<notin>
              set (filter_issues_for_dispatch issues' ts))"
  using assms
  by (auto simp: filter_issues_for_dispatch_def dispatchable_iff blocker_is_terminal_def
      state_is_terminal_def)

definition demo_child :: "string \<Rightarrow> string \<Rightarrow> tracker_issue_ref" where
  "demo_child ident state = \<lparr>tr_id = ''id-'' @ ident, tr_identifier = ident, tr_title = None,
     tr_url = None, tr_state = state, tr_state_kind = kind_from_tracker_name state\<rparr>"

definition demo_issue :: "string \<Rightarrow> u8 option \<Rightarrow> tracker_issue_ref list \<Rightarrow> tracker_issue" where
  "demo_issue ident priority children =
     \<lparr>ti_id = ''id-'' @ ident, ti_identifier = ident, ti_url = [], ti_title = ident,
      ti_description = None, ti_priority = priority, ti_state = ''In Progress'',
      ti_state_kind = KStarted, ti_branch_name = None, ti_pr_url = None, ti_pr_urls = [],
      ti_labels = [], ti_project_id = None, ti_project_slug = None, ti_project_name = None,
      ti_parent_id = None, ti_parent = None, ti_project_milestone = None, ti_blocked_by = [],
      ti_sub_issues = children, ti_created_at = 0, ti_updated_at = 0\<rparr>"

theorem dispatch_respects_hierarchy_witness:
  "(let p = demo_issue ''COE-1'' (Some 1) [demo_child ''COE-2'' '' done'']
    in p \<in> set (filter_issues_for_dispatch [p] [''Done'']) \<and>
       p\<lparr>ti_sub_issues := ti_sub_issues p @ [demo_child ''COE-3'' ''Todo'']\<rparr> \<notin>
         set (filter_issues_for_dispatch [p] [''Done'']))"
proof -
  let ?p = "demo_issue ''COE-1'' (Some 1) [demo_child ''COE-2'' '' done'']"
  let ?c = "demo_child ''COE-3'' ''Todo''"
  have "ref_is_terminal (demo_child ''COE-2'' '' done'') [''Done'']" by code_simp
  then have p: "?p \<in> set (filter_issues_for_dispatch [?p] [''Done''])"
    by (simp add: filter_issues_for_dispatch_def dispatchable_iff demo_issue_def)
  moreover have "\<not> ref_is_terminal ?c [''Done'']" by code_simp
  ultimately show ?thesis
    using dispatch_respects_hierarchy [OF p, of "[?p]"] by (simp add: Let_def)
qed

end
