(* ===== verification/Runtime.thy ===== *)
theory Runtime
  imports Issues
begin

text \<open>
  \<open>opensymphony-domain/src/runtime.rs\<close>: liveness phases and progress snapshots, retry
  attempts with their back-off policy, runs, the stall clock, conversation activity,
  harness interrupts and worker outcomes. Counters that the code advances with \<open>+=\<close>
  are words, so the addition wraps as it does in a release build.
\<close>

section \<open>Liveness\<close>

datatype runtime_liveness_phase =
    WaitingOnPriorTurn | RunningTurn | PhaseQuiet | PhaseDegraded | PhaseReconciling
  | PhaseCancelling | PhaseStalled | PhaseDetached | PhaseTerminal

datatype liveness_state =
    LiveActive | LiveQuiet | LiveDegraded | LiveStalled | LiveDetached | LiveTerminal

fun phase_liveness :: "runtime_liveness_phase \<Rightarrow> liveness_state" where
  "phase_liveness WaitingOnPriorTurn = LiveActive"
| "phase_liveness RunningTurn = LiveActive"
| "phase_liveness PhaseQuiet = LiveQuiet"
| "phase_liveness PhaseDegraded = LiveDegraded"
| "phase_liveness PhaseReconciling = LiveStalled"
| "phase_liveness PhaseCancelling = LiveStalled"
| "phase_liveness PhaseStalled = LiveStalled"
| "phase_liveness PhaseDetached = LiveDetached"
| "phase_liveness PhaseTerminal = LiveTerminal"

datatype stream_health =
    HealthUnknown | HealthAttaching | HealthHistorySyncing | HealthReady
  | HealthReconnecting | HealthDisconnected | HealthFailed | HealthDetached

datatype history_sync_status = SyncIdle | SyncInProgress | SyncSynced | SyncStale | SyncFailed

datatype reconnect_status = Connected | ReconnectPending | ReconnectExhausted | ReconnectClosed

datatype detach_reason = DetachCancelFailed | DetachCancelUnsupported | DetachUnreachable | DetachWorkerShutdown

record detach_metadata =
  dm_reason :: detach_reason
  dm_detached_at :: timestamp_ms
  dm_last_execution_status :: "string option"
  dm_summary :: string

record runtime_progress_snapshot =
  ps_phase :: runtime_liveness_phase
  ps_liveness_state :: liveness_state
  ps_event_count :: u64
  ps_event_delta :: u64
  ps_input_tokens :: u64
  ps_input_token_delta :: u64
  ps_output_tokens :: u64
  ps_output_token_delta :: u64
  ps_cache_read_tokens :: u64
  ps_cache_read_token_delta :: u64
  ps_execution_status :: "string option"
  ps_stream_health :: stream_health
  ps_history_sync_status :: history_sync_status
  ps_reconnect_status :: reconnect_status
  ps_last_activity_at :: "timestamp_ms option"
  ps_stall_deadline_at :: "timestamp_ms option"
  ps_last_event_cursor :: "string option"
  ps_last_event_kind :: "string option"
  ps_last_event_at :: "timestamp_ms option"
  ps_detach_metadata :: "detach_metadata option"

definition snapshot_initial :: "runtime_liveness_phase \<Rightarrow> runtime_progress_snapshot" where
  "snapshot_initial phase =
     \<lparr>ps_phase = phase, ps_liveness_state = phase_liveness phase,
      ps_event_count = 0, ps_event_delta = 0, ps_input_tokens = 0, ps_input_token_delta = 0,
      ps_output_tokens = 0, ps_output_token_delta = 0, ps_cache_read_tokens = 0,
      ps_cache_read_token_delta = 0, ps_execution_status = None,
      ps_stream_health = HealthUnknown, ps_history_sync_status = SyncIdle,
      ps_reconnect_status = Connected, ps_last_activity_at = None,
      ps_stall_deadline_at = None, ps_last_event_cursor = None, ps_last_event_kind = None,
      ps_last_event_at = None, ps_detach_metadata = None\<rparr>"

record progress_builder =
  pb_previous :: runtime_progress_snapshot
  pb_phase :: runtime_liveness_phase
  pb_event_count :: u64
  pb_input_tokens :: u64
  pb_output_tokens :: u64
  pb_cache_read_tokens :: u64
  pb_execution_status :: "string option"
  pb_stream_health :: stream_health
  pb_history_sync_status :: history_sync_status
  pb_reconnect_status :: reconnect_status
  pb_last_activity_at :: "timestamp_ms option"
  pb_stall_deadline_at :: "timestamp_ms option"
  pb_last_event_cursor :: "string option"
  pb_last_event_kind :: "string option"
  pb_last_event_at :: "timestamp_ms option"
  pb_detach_metadata :: "detach_metadata option"

definition update_with ::
  "runtime_progress_snapshot \<Rightarrow> runtime_liveness_phase \<Rightarrow> progress_builder" where
  "update_with s phase =
     \<lparr>pb_previous = s, pb_phase = phase, pb_event_count = ps_event_count s,
      pb_input_tokens = ps_input_tokens s, pb_output_tokens = ps_output_tokens s,
      pb_cache_read_tokens = ps_cache_read_tokens s,
      pb_execution_status = ps_execution_status s, pb_stream_health = ps_stream_health s,
      pb_history_sync_status = ps_history_sync_status s,
      pb_reconnect_status = ps_reconnect_status s,
      pb_last_activity_at = ps_last_activity_at s,
      pb_stall_deadline_at = ps_stall_deadline_at s,
      pb_last_event_cursor = ps_last_event_cursor s,
      pb_last_event_kind = ps_last_event_kind s, pb_last_event_at = ps_last_event_at s,
      pb_detach_metadata = ps_detach_metadata s\<rparr>"

text \<open>The builder's setters, one per field a caller may replace.\<close>

datatype progress_field =
    WithEventCount u64
  | WithInputTokens u64
  | WithOutputTokens u64
  | WithCacheReadTokens u64
  | WithExecutionStatus "string option"
  | WithStreamHealth stream_health
  | WithHistorySyncStatus history_sync_status
  | WithReconnectStatus reconnect_status
  | WithLastActivityAt "timestamp_ms option"
  | WithStallDeadlineAt "timestamp_ms option"
  | WithLastEventCursor "string option"
  | WithLastEventKind "string option"
  | WithLastEventAt "timestamp_ms option"
  | WithDetachMetadata "detach_metadata option"

fun with_field :: "progress_field \<Rightarrow> progress_builder \<Rightarrow> progress_builder" where
  "with_field (WithEventCount n) b = b\<lparr>pb_event_count := n\<rparr>"
| "with_field (WithInputTokens n) b = b\<lparr>pb_input_tokens := n\<rparr>"
| "with_field (WithOutputTokens n) b = b\<lparr>pb_output_tokens := n\<rparr>"
| "with_field (WithCacheReadTokens n) b = b\<lparr>pb_cache_read_tokens := n\<rparr>"
| "with_field (WithExecutionStatus s) b = b\<lparr>pb_execution_status := s\<rparr>"
| "with_field (WithStreamHealth h) b = b\<lparr>pb_stream_health := h\<rparr>"
| "with_field (WithHistorySyncStatus h) b = b\<lparr>pb_history_sync_status := h\<rparr>"
| "with_field (WithReconnectStatus h) b = b\<lparr>pb_reconnect_status := h\<rparr>"
| "with_field (WithLastActivityAt t) b = b\<lparr>pb_last_activity_at := t\<rparr>"
| "with_field (WithStallDeadlineAt t) b = b\<lparr>pb_stall_deadline_at := t\<rparr>"
| "with_field (WithLastEventCursor c) b = b\<lparr>pb_last_event_cursor := c\<rparr>"
| "with_field (WithLastEventKind k) b = b\<lparr>pb_last_event_kind := k\<rparr>"
| "with_field (WithLastEventAt t) b = b\<lparr>pb_last_event_at := t\<rparr>"
| "with_field (WithDetachMetadata m) b = b\<lparr>pb_detach_metadata := m\<rparr>"

definition build_snapshot :: "progress_builder \<Rightarrow> runtime_progress_snapshot" where
  "build_snapshot b =
     \<lparr>ps_phase = pb_phase b, ps_liveness_state = phase_liveness (pb_phase b),
      ps_event_count = pb_event_count b,
      ps_event_delta = saturating_sub (pb_event_count b) (ps_event_count (pb_previous b)),
      ps_input_tokens = pb_input_tokens b,
      ps_input_token_delta =
        saturating_sub (pb_input_tokens b) (ps_input_tokens (pb_previous b)),
      ps_output_tokens = pb_output_tokens b,
      ps_output_token_delta =
        saturating_sub (pb_output_tokens b) (ps_output_tokens (pb_previous b)),
      ps_cache_read_tokens = pb_cache_read_tokens b,
      ps_cache_read_token_delta =
        saturating_sub (pb_cache_read_tokens b) (ps_cache_read_tokens (pb_previous b)),
      ps_execution_status = pb_execution_status b, ps_stream_health = pb_stream_health b,
      ps_history_sync_status = pb_history_sync_status b,
      ps_reconnect_status = pb_reconnect_status b,
      ps_last_activity_at = pb_last_activity_at b,
      ps_stall_deadline_at = pb_stall_deadline_at b,
      ps_last_event_cursor = pb_last_event_cursor b,
      ps_last_event_kind = pb_last_event_kind b, ps_last_event_at = pb_last_event_at b,
      ps_detach_metadata = pb_detach_metadata b\<rparr>"

section \<open>Retry attempts and back-off\<close>

text \<open>\<open>RetryAttempt(NonZeroU32)\<close>; only the constructors below build one, and none builds
  attempt zero (\<open>attempt_wf\<close>).\<close>

datatype retry_attempt = RetryAttempt (attempt_get: u32)

datatype retry_calculation_error = ZeroAttempt | AttemptOverflow

definition attempt_wf :: "retry_attempt \<Rightarrow> bool" where
  "attempt_wf a \<longleftrightarrow> attempt_get a \<noteq> 0"

definition attempt_first :: retry_attempt where "attempt_first = RetryAttempt 1"

definition attempt_new :: "u32 \<Rightarrow> retry_calculation_error + retry_attempt" where
  "attempt_new value = (if value = 0 then Err ZeroAttempt else Ok (RetryAttempt value))"

definition attempt_checked_next :: "retry_attempt \<Rightarrow> retry_attempt option" where
  "attempt_checked_next a =
     (case checked_add (attempt_get a) 1 of
        None \<Rightarrow> None
      | Some n \<Rightarrow> if n = 0 then None else Some (RetryAttempt n))"

definition attempt_after :: "retry_attempt option \<Rightarrow> retry_calculation_error + retry_attempt" where
  "attempt_after previous =
     (case previous of
        Some p \<Rightarrow> (case attempt_checked_next p of
                     Some a \<Rightarrow> Ok a
                   | None \<Rightarrow> Err AttemptOverflow)
      | None \<Rightarrow> Ok attempt_first)"

record retry_policy =
  rp_continuation_delay_ms :: duration_ms
  rp_failure_base_delay_ms :: duration_ms
  rp_max_backoff_ms :: duration_ms

definition retry_policy_default :: retry_policy where
  "retry_policy_default = \<lparr>rp_continuation_delay_ms = 1000, rp_failure_base_delay_ms = 10000,
     rp_max_backoff_ms = 300000\<rparr>"

definition failure_delay :: "retry_policy \<Rightarrow> retry_attempt \<Rightarrow> duration_ms" where
  "failure_delay p attempt =
     (let exponent = min (saturating_sub (attempt_get attempt) 1) 63;
          multiplier = unwrap_or (checked_shl (1 :: u64) (unat exponent)) (- 1);
          uncapped = saturating_mul (rp_failure_base_delay_ms p) multiplier
      in min uncapped (rp_max_backoff_ms p))"

datatype retry_reason =
    RetryContinuation | RetryFailure | RetryStalled | RetryCancelled | RetryReconciliation

record retry_entry =
  re_issue_id :: issue_id
  re_identifier :: issue_identifier
  re_attempt :: retry_attempt
  re_normal_retry_count :: u32
  re_scheduled_at :: timestamp_ms
  re_due_at :: timestamp_ms
  re_reason :: retry_reason
  re_error :: "string option"

definition retry_continuation ::
  "normalized_issue \<Rightarrow> retry_attempt option \<Rightarrow> u32 \<Rightarrow> timestamp_ms \<Rightarrow> retry_policy \<Rightarrow>
     retry_calculation_error + retry_entry" where
  "retry_continuation issue previous count scheduled_at policy =
     (case attempt_after previous of
        Err e \<Rightarrow> Err e
      | Ok attempt \<Rightarrow> Ok
          \<lparr>re_issue_id = ni_id issue, re_identifier = ni_identifier issue,
           re_attempt = attempt, re_normal_retry_count = saturating_add count 1,
           re_scheduled_at = scheduled_at,
           re_due_at = timestamp_saturating_add scheduled_at (rp_continuation_delay_ms policy),
           re_reason = RetryContinuation, re_error = None\<rparr>)"

definition retry_failure ::
  "normalized_issue \<Rightarrow> retry_attempt option \<Rightarrow> u32 \<Rightarrow> timestamp_ms \<Rightarrow> retry_reason \<Rightarrow>
     string option \<Rightarrow> retry_policy \<Rightarrow> retry_calculation_error + retry_entry" where
  "retry_failure issue previous count scheduled_at reason error policy =
     (case attempt_after previous of
        Err e \<Rightarrow> Err e
      | Ok attempt \<Rightarrow> Ok
          \<lparr>re_issue_id = ni_id issue, re_identifier = ni_identifier issue,
           re_attempt = attempt, re_normal_retry_count = saturating_add count 1,
           re_scheduled_at = scheduled_at,
           re_due_at = timestamp_saturating_add scheduled_at (failure_delay policy attempt),
           re_reason = reason, re_error = error\<rparr>)"


section \<open>Lemmas\<close>

lemma attempt_after_wf: "attempt_after p = Ok a \<Longrightarrow> attempt_wf a"
  by (auto simp: attempt_after_def attempt_checked_next_def attempt_wf_def attempt_first_def
      split: option.splits if_splits)

lemma checked_add_one_u32:
  "checked_add (n :: u32) 1 = (if unat n = 2 ^ 32 - 1 then None else Some (n + 1))"
proof -
  have "unat n < 2 ^ 32" using unsigned_less [of n] by simp
  then show ?thesis by (auto simp: checked_add_def)
qed

lemma unat_u32_Suc: "unat (n :: u32) \<noteq> 2 ^ 32 - 1 \<Longrightarrow> unat (n + 1) = Suc (unat n)"
proof -
  assume "unat n \<noteq> 2 ^ 32 - 1"
  moreover have "unat n < 2 ^ 32" using unsigned_less [of n] by simp
  ultimately show ?thesis by (simp add: unat_word_ariths)
qed

lemma attempt_checked_next_eq:
  "attempt_checked_next a =
     (if unat (attempt_get a) = 2 ^ 32 - 1 then None else Some (RetryAttempt (attempt_get a + 1)))"
proof (cases "unat (attempt_get a) = 2 ^ 32 - 1")
  case False
  then have "attempt_get a + 1 \<noteq> 0"
    using unat_u32_Suc [of "attempt_get a"] by (metis nat.distinct(1) unsigned_0)
  with False show ?thesis by (simp add: attempt_checked_next_def checked_add_one_u32)
qed (simp add: attempt_checked_next_def checked_add_one_u32)

lemma unat_exponent:
  "unat (min (saturating_sub (n :: u32) 1) 63) = min (unat n - 1) 63"
  by (simp add: min_def word_le_nat_alt unat_saturating_sub)

lemma unat_min: "unat (min a (b :: 'a::len word)) = min (unat a) (unat b)"
  by (simp add: min_def word_le_nat_alt)

lemma unat_shl_one: "n < 64 \<Longrightarrow> checked_shl (1 :: u64) n = Some (2 ^ n)"
  by (simp add: checked_shl_def push_bit_of_1)

lemma unat_pow2:
  "n < 64 \<Longrightarrow> unat (2 ^ n :: u64) = 2 ^ n"
proof -
  assume "n < 64"
  then have "(2 :: nat) ^ n < 2 ^ 64" by (intro power_strict_increasing) simp_all
  then have "unat (of_nat (2 ^ n) :: u64) = 2 ^ n"
    by (simp add: unat_of_nat del: of_nat_power)
  then show ?thesis by simp
qed

section \<open>Properties\<close>

text \<open>The back-off of the \<open>n\<close>-th attempt is the base delay doubled \<open>n - 1\<close> times (at
  most 63 times), capped by the policy's maximum; the saturating arithmetic makes this exact
  for every attempt and every policy, with no wrap-around.\<close>

theorem failure_delay_backoff:
  "unat (failure_delay p a) =
     min (unat (rp_failure_base_delay_ms p) * 2 ^ min (unat (attempt_get a) - 1) 63)
         (unat (rp_max_backoff_ms p))"
proof -
  let ?e = "min (unat (attempt_get a) - 1) 63"
  have e: "?e < 64" by simp
  have "unat (rp_max_backoff_ms p) \<le> 2 ^ 64 - 1"
    using unat_bounded [of "rp_max_backoff_ms p"] by simp
  moreover have "checked_shl (1 :: u64) (unat (min (saturating_sub (attempt_get a) 1) 63)) =
      Some (2 ^ ?e)"
    by (simp only: unat_exponent unat_shl_one [OF e])
  ultimately show ?thesis
    unfolding failure_delay_def Let_def unat_min unat_saturating_mul
    by (simp add: unat_pow2 [OF e, simplified] min.absorb1 min.assoc)
qed

text \<open>Retry attempts are numbered from one without gaps: the first attempt is 1, each
  later one is its predecessor plus one, and the only failure is the overflow after
  attempt \<open>u32::MAX\<close>. No attempt zero arises.\<close>

theorem attempt_after_numbering:
  "attempt_after previous =
     (case previous of
        None \<Rightarrow> Ok (RetryAttempt 1)
      | Some p \<Rightarrow> if unat (attempt_get p) = 2 ^ 32 - 1 then Err AttemptOverflow
                  else Ok (RetryAttempt (attempt_get p + 1))) \<and>
   (\<forall>a. attempt_after previous = Ok a \<longrightarrow>
      unat (attempt_get a) = (case previous of None \<Rightarrow> 1 | Some p \<Rightarrow> Suc (unat (attempt_get p))))"
  by (auto simp: attempt_after_def attempt_first_def attempt_checked_next_eq unat_u32_Suc
      split: option.splits)

theorem attempt_after_numbering_witness:
  "attempt_after (Some (RetryAttempt 1)) = Ok (RetryAttempt 2)"
  using attempt_after_numbering [of "Some (RetryAttempt 1)"] by simp

text \<open>A progress snapshot agrees with its predecessor: whatever fields the caller
  replaced, the liveness state is that of the phase, and each counter's delta is exactly the
  growth since the previous snapshot, zero when the counter went back.\<close>

theorem progress_snapshot_deltas:
  fixes s phase fs
  defines "s' \<equiv> build_snapshot (foldr with_field fs (update_with s phase))"
  shows "ps_liveness_state s' = phase_liveness (ps_phase s') \<and> ps_phase s' = phase \<and>
    unat (ps_event_delta s') = unat (ps_event_count s') - unat (ps_event_count s) \<and>
    unat (ps_input_token_delta s') = unat (ps_input_tokens s') - unat (ps_input_tokens s) \<and>
    unat (ps_output_token_delta s') = unat (ps_output_tokens s') - unat (ps_output_tokens s) \<and>
    unat (ps_cache_read_token_delta s') =
      unat (ps_cache_read_tokens s') - unat (ps_cache_read_tokens s)"
proof -
  have frame: "pb_previous (with_field f b) = pb_previous b \<and> pb_phase (with_field f b) = pb_phase b"
    for f b by (cases f) simp_all
  have "pb_previous (foldr with_field fs b) = pb_previous b \<and>
      pb_phase (foldr with_field fs b) = pb_phase b" for b
    by (induction fs) (simp_all add: frame)
  then show ?thesis
    by (simp add: s'_def build_snapshot_def unat_saturating_sub update_with_def)
qed

end
