(* ===== verification/Workspace_Path.thy ===== *)
theory Workspace_Path
  imports Identifiers
begin

text \<open>
  The path handling at the end of \<open>opensymphony-domain/src/state_machine.rs\<close>. A \<open>Path\<close> is
  the sequence of its components, which is what \<open>Path\<close>'s equality compares, on a Unix host
  (no prefix component) and for names that are valid UTF-8. \<open>std::fs::canonicalize\<close> is the
  parameter \<open>canon\<close>, which returns \<open>None\<close> where the call fails.
\<close>

datatype path_component = RootDir | CurDir | ParentDir | Normal string

type_synonym path = "path_component list"

section \<open>Paths of the standard library\<close>

fun split_slash :: "string \<Rightarrow> string list" where
  "split_slash [] = [[]]"
| "split_slash (c # s) =
     (if c = CHR ''/'' then [] # split_slash s
      else case split_slash s of [] \<Rightarrow> [[c]] | seg # segs \<Rightarrow> (c # seg) # segs)"

fun segment_components :: "string list \<Rightarrow> path" where
  "segment_components [] = []"
| "segment_components (seg # segs) =
     (if seg = [] \<or> seg = ''.'' then segment_components segs
      else (if seg = ''..'' then ParentDir else Normal seg) # segment_components segs)"

definition path_from :: "string \<Rightarrow> path" where
  "path_from s =
     (case s of
        [] \<Rightarrow> []
      | c # _ \<Rightarrow>
          if c = CHR ''/'' then RootDir # segment_components (split_slash s)
          else (case split_slash s of
                  [] \<Rightarrow> []
                | seg # segs \<Rightarrow> (if seg = ''.'' then [CurDir] else []) @ segment_components (seg # segs)))"

fun is_absolute :: "path \<Rightarrow> bool" where
  "is_absolute (RootDir # _) = True"
| "is_absolute _ = False"

definition file_name :: "path \<Rightarrow> string option" where
  "file_name p = (if p = [] then None else case last p of Normal s \<Rightarrow> Some s | _ \<Rightarrow> None)"

definition path_parent :: "path \<Rightarrow> path option" where
  "path_parent p = (if p = [] \<or> last p = RootDir then None else Some (butlast p))"

text \<open>The component sequences that paths have: a root only in front, a \<open>.\<close> only in front of
  a relative path, and names that are neither empty nor special nor contain a separator.\<close>

fun component_wf :: "path_component \<Rightarrow> bool" where
  "component_wf (Normal s) = (s \<noteq> [] \<and> s \<noteq> ''.'' \<and> s \<noteq> ''..'' \<and> CHR ''/'' \<notin> set s)"
| "component_wf ParentDir = True"
| "component_wf _ = False"

fun path_wf :: "path \<Rightarrow> bool" where
  "path_wf (RootDir # cs) = list_all component_wf cs"
| "path_wf (CurDir # cs) = list_all component_wf cs"
| "path_wf cs = list_all component_wf cs"

section \<open>Normalisation\<close>

fun normalize_step :: "bool \<times> string list \<Rightarrow> path_component \<Rightarrow> bool \<times> string list" where
  "normalize_step (has_root, parts) RootDir = (True, parts)"
| "normalize_step (has_root, parts) CurDir = (has_root, parts)"
| "normalize_step (has_root, parts) ParentDir =
     (if parts \<noteq> [] \<and> last parts \<noteq> ''..'' then (has_root, butlast parts)
      else if \<not> has_root then (has_root, parts @ [''..''])
      else (has_root, parts))"
| "normalize_step (has_root, parts) (Normal c) = (has_root, parts @ [c])"

definition part_component :: "string \<Rightarrow> path_component" where
  "part_component s = (if s = ''..'' then ParentDir else Normal s)"

definition normalize_workspace_path :: "path \<Rightarrow> path" where
  "normalize_workspace_path p =
     (let (has_root, parts) = foldl normalize_step (False, []) p;
          normalized = (if has_root then [RootDir] else []) @ map part_component parts
      in if normalized = [] then [CurDir] else normalized)"

definition comparable_workspace_path :: "(path \<Rightarrow> path option) \<Rightarrow> path \<Rightarrow> path" where
  "comparable_workspace_path canon p =
     (if is_absolute p then unwrap_or (canon p) (normalize_workspace_path p)
      else normalize_workspace_path p)"

section \<open>Workspace keys\<close>

definition workspace_path_matches_key :: "path \<Rightarrow> workspace_key \<Rightarrow> bool" where
  "workspace_path_matches_key p key =
     is_some_and (\<lambda>name.
       name = workspace_key_str key \<or>
       is_some_and (\<lambda>generation. generation \<noteq> [])
         (strip_prefix (workspace_key_str key @ ''--'') name) \<or>
       (is_some_and (\<lambda>generation. 0 < generation) (parse_u64 name) \<and>
        Option.bind (path_parent p) file_name = Some (workspace_key_str key) \<and>
        Option.bind (Option.bind (path_parent p) path_parent) file_name = Some ''parents''))
     (file_name p)"

definition workspace_key_matches_issue :: "workspace_key \<Rightarrow> workspace_key \<Rightarrow> bool" where
  "workspace_key_matches_issue actual expected \<longleftrightarrow>
     actual = expected \<or>
     list_ex (\<lambda>pre. is_some_and (\<lambda>digest. length digest = 16 \<and> list_all is_ascii_hexdigit digest)
                     (strip_prefix pre (workspace_key_str actual)))
       [workspace_key_str expected @ ''-'', ''parent-'' @ workspace_key_str expected @ ''-'']"

section \<open>Lemmas\<close>

text \<open>The parts after any number of steps: a run of \<open>..\<close>, empty below a root, then names.\<close>

definition parts_ok :: "bool \<Rightarrow> string list \<Rightarrow> bool" where
  "parts_ok has_root parts \<longleftrightarrow>
     (\<exists>k names. parts = replicate k ''..'' @ names \<and> ''..'' \<notin> set names \<and> (has_root \<longrightarrow> k = 0))"

lemma parts_ok_Nil [simp]: "parts_ok r []"
  by (auto simp: parts_ok_def)

lemma parts_ok_root: "parts_ok True parts \<longleftrightarrow> ''..'' \<notin> set parts"
  by (auto simp: parts_ok_def)

lemma parts_ok_snoc_name: "parts_ok r parts \<Longrightarrow> s \<noteq> ''..'' \<Longrightarrow> parts_ok r (parts @ [s])"
proof -
  assume "parts_ok r parts" and s: "s \<noteq> ''..''"
  then obtain k names where "parts = replicate k ''..'' @ names" "''..'' \<notin> set names" "r \<longrightarrow> k = 0"
    by (auto simp: parts_ok_def)
  with s show ?thesis
    unfolding parts_ok_def by (intro exI [of _ k] exI [of _ "names @ [s]"]) auto
qed

lemma parts_ok_snoc_up:
  assumes "parts_ok False parts" and "parts = [] \<or> last parts = ''..''"
  shows "parts_ok False (parts @ [''..''])"
proof -
  from assms(1) obtain k names where p: "parts = replicate k ''..'' @ names" "''..'' \<notin> set names"
    by (auto simp: parts_ok_def)
  with assms(2) have "names = []" by (metis append_is_Nil_conv last_appendR last_in_set)
  with p show ?thesis
    unfolding parts_ok_def
    by (intro exI [of _ "Suc k"] exI [of _ "[]"]) (simp add: replicate_append_same)
qed

lemma parts_ok_butlast:
  assumes "parts_ok r parts" and "parts \<noteq> []" and "last parts \<noteq> ''..''"
  shows "parts_ok r (butlast parts)"
proof -
  from assms(1) obtain k names where p: "parts = replicate k ''..'' @ names" "''..'' \<notin> set names"
    "r \<longrightarrow> k = 0" by (auto simp: parts_ok_def)
  have "names \<noteq> []"
  proof
    assume "names = []"
    with p assms(2) have "parts = replicate k ''..''" and "k \<noteq> 0" by auto
    with assms(3) show False by simp
  qed
  with p show ?thesis
    unfolding parts_ok_def
    by (intro exI [of _ k] exI [of _ "butlast names"]) (auto simp: butlast_append dest: in_set_butlastD)
qed

lemma normalize_step_ok:
  assumes "component_wf c" and "parts_ok r parts" and "normalize_step (r, parts) c = (r', parts')"
  shows "r' = r \<and> parts_ok r' parts'"
  using assms
  by (cases c) (auto intro: parts_ok_snoc_name parts_ok_snoc_up parts_ok_butlast split: if_splits)

lemma normalize_fold_ok:
  "list_all component_wf cs \<Longrightarrow> parts_ok r parts \<Longrightarrow>
     foldl normalize_step (r, parts) cs = (r', parts') \<Longrightarrow> r' = r \<and> parts_ok r' parts'"
proof (induction cs arbitrary: r parts)
  case (Cons c cs)
  obtain r1 p1 where s: "normalize_step (r, parts) c = (r1, p1)" by fastforce
  with normalize_step_ok [OF _ Cons.prems(2) s] Cons.prems(1) have "r1 = r" "parts_ok r1 p1" by auto
  with Cons.IH [of r1 p1] Cons.prems(1,3) s show ?case by auto
qed simp

text \<open>Refolding parts that are already normal changes nothing.\<close>

lemma fold_names:
  "''..'' \<notin> set names \<Longrightarrow>
     foldl normalize_step (r, parts) (map part_component names) = (r, parts @ names)"
  by (induction names arbitrary: parts) (auto simp: part_component_def)

lemma fold_ups:
  "foldl normalize_step (False, replicate j ''..'') (replicate k ParentDir) =
     (False, replicate (j + k) ''..'')"
proof (induction k arbitrary: j)
  case (Suc k)
  have "normalize_step (False, replicate j ''..'') ParentDir = (False, replicate (Suc j) ''..'')"
    by (cases j) (auto simp: replicate_append_same)
  then show ?case using Suc [of "Suc j"] by simp
qed simp

lemma fold_parts_ok:
  assumes "parts_ok r parts"
  shows "foldl normalize_step (r, []) (map part_component parts) = (r, parts)"
proof -
  from assms obtain k names where p: "parts = replicate k ''..'' @ names" "''..'' \<notin> set names"
    "r \<longrightarrow> k = 0" by (auto simp: parts_ok_def)
  have "part_component ''..'' = ParentDir"
    by (simp add: part_component_def)
  with p fold_names [OF p(2)] fold_ups [of 0 k] show ?thesis
    by (cases r) simp_all
qed

lemma normalize_parts:
  assumes "path_wf p"
  obtains r parts where "foldl normalize_step (False, []) p = (r, parts)"
    and "parts_ok r parts" and "r \<longleftrightarrow> is_absolute p"
proof (cases p)
  case (Cons c cs)
  have "list_all component_wf cs"
    using assms Cons by (cases c) auto
  moreover obtain r1 p1 where s: "normalize_step (False, []) c = (r1, p1)" by fastforce
  moreover from s have "parts_ok r1 p1" "r1 \<longleftrightarrow> is_absolute p"
    using assms Cons
    by (cases c; auto simp: parts_ok_def intro: exI [of _ "Suc 0"] exI [of _ 0])+
  ultimately show ?thesis
    using that normalize_fold_ok [of cs r1 p1] Cons
    by (cases "foldl normalize_step (r1, p1) cs") auto
qed (use that in auto)


lemma normalize_eq:
  "foldl normalize_step (False, []) p = (r, parts) \<Longrightarrow>
     normalize_workspace_path p =
       (if r then RootDir # map part_component parts
        else if parts = [] then [CurDir] else map part_component parts)"
  by (simp add: normalize_workspace_path_def)

lemma normalize_idem:
  assumes "path_wf p"
  shows "normalize_workspace_path (normalize_workspace_path p) = normalize_workspace_path p"
proof -
  from normalize_parts [OF assms] obtain r parts
    where f: "foldl normalize_step (False, []) p = (r, parts)" and ok: "parts_ok r parts" by blast
  have "foldl normalize_step (False, []) (normalize_workspace_path p) = (r, parts)"
    using fold_parts_ok [OF ok] by (cases r) (auto simp: normalize_eq [OF f])
  then show ?thesis by (simp add: normalize_eq f)
qed

lemma normalize_absolute:
  assumes "path_wf p" and "is_absolute p"
  shows "\<exists>names. ''..'' \<notin> set names \<and> normalize_workspace_path p = RootDir # map Normal names"
proof -
  from normalize_parts [OF assms(1)] obtain r parts
    where f: "foldl normalize_step (False, []) p = (r, parts)" and ok: "parts_ok r parts"
      and r: "r \<longleftrightarrow> is_absolute p" by blast
  with assms(2) have "''..'' \<notin> set parts" by (simp add: parts_ok_root)
  moreover from this have "map part_component parts = map Normal parts"
    by (auto simp: part_component_def)
  ultimately show ?thesis using r assms(2) by (auto simp: normalize_eq [OF f])
qed

section \<open>Properties\<close>

text \<open>Two workspace paths are compared in a normal form: normalising is idempotent, it
  keeps a path absolute or relative, and an absolute path becomes a root followed by names
  only, so that no \<open>.\<close> or \<open>..\<close> can make one checkout look like another.\<close>

theorem normalize_workspace_path_correct:
  assumes "path_wf p"
  shows "normalize_workspace_path (normalize_workspace_path p) = normalize_workspace_path p \<and>
         is_absolute (normalize_workspace_path p) = is_absolute p \<and>
         (is_absolute p \<longrightarrow>
            (\<exists>names. ''..'' \<notin> set names \<and> normalize_workspace_path p = RootDir # map Normal names))"
proof -
  from normalize_parts [OF assms] obtain r parts
    where f: "foldl normalize_step (False, []) p = (r, parts)" and r: "r \<longleftrightarrow> is_absolute p" by blast
  have "is_absolute (normalize_workspace_path p) = r"
    by (cases parts) (auto simp: normalize_eq [OF f] part_component_def)
  with r normalize_idem [OF assms] normalize_absolute [OF assms] show ?thesis by blast
qed

theorem normalize_workspace_path_correct_witness:
  "path_wf (path_from ''/tmp/./ws/../ws/COE-1'') \<and>
   is_absolute (normalize_workspace_path (path_from ''/tmp/./ws/../ws/COE-1'')) \<and>
   normalize_workspace_path (path_from ''/tmp/./ws/../ws/COE-1'') = path_from ''/tmp/ws/COE-1''"
proof -
  have wf: "path_wf (path_from ''/tmp/./ws/../ws/COE-1'')" by code_simp
  have "is_absolute (path_from ''/tmp/./ws/../ws/COE-1'')"
    "normalize_workspace_path (path_from ''/tmp/./ws/../ws/COE-1'') = path_from ''/tmp/ws/COE-1''"
    by code_simp+
  with wf normalize_workspace_path_correct [OF wf] show ?thesis by simp
qed

end
