(* ===== verification/Runs.thy ===== *)
theory Runs
  imports Runtime Workspace_Path
begin

text \<open>
  The run side of \<open>opensymphony-domain/src/runtime.rs\<close>: workspace records, run attempts, the
  stall clock, harness interrupts and worker outcomes.
\<close>

record workspace_record =
  wr_path :: path
  wr_workspace_key :: workspace_key
  wr_created_now :: bool
  wr_created_at :: "timestamp_ms option"
  wr_updated_at :: "timestamp_ms option"
  wr_last_seen_tracker_refresh_at :: "timestamp_ms option"

section \<open>Run attempts\<close>

record run_attempt =
  ra_worker_id :: worker_id
  ra_issue_id :: issue_id
  ra_issue_identifier :: issue_identifier
  ra_workspace_path :: path
  ra_repository_binding :: "repository_binding option"
  ra_claimed_at :: timestamp_ms
  ra_started_at :: "timestamp_ms option"
  ra_attempt :: "retry_attempt option"
  ra_normal_retry_count :: u32
  ra_turn_count :: u32
  ra_max_turns :: u32

definition run_attempt_new ::
  "worker_id \<Rightarrow> issue_id \<Rightarrow> issue_identifier \<Rightarrow> path \<Rightarrow> timestamp_ms \<Rightarrow> retry_attempt option \<Rightarrow>
     u32 \<Rightarrow> run_attempt" where
  "run_attempt_new worker issue identifier workspace claimed_at attempt max_turns =
     \<lparr>ra_worker_id = worker, ra_issue_id = issue, ra_issue_identifier = identifier,
      ra_workspace_path = workspace, ra_repository_binding = None,
      ra_claimed_at = claimed_at, ra_started_at = None, ra_attempt = attempt,
      ra_normal_retry_count = 0, ra_turn_count = 0, ra_max_turns = max_turns\<rparr>"

definition with_normal_retry_count :: "u32 \<Rightarrow> run_attempt \<Rightarrow> run_attempt" where
  "with_normal_retry_count n run = run\<lparr>ra_normal_retry_count := n\<rparr>"

definition with_repository_binding :: "repository_binding option \<Rightarrow> run_attempt \<Rightarrow> run_attempt" where
  "with_repository_binding b run = run\<lparr>ra_repository_binding := b\<rparr>"

definition mark_started :: "timestamp_ms \<Rightarrow> run_attempt \<Rightarrow> run_attempt" where
  "mark_started t run = run\<lparr>ra_started_at := Some t\<rparr>"

definition run_record_turn_started :: "run_attempt \<Rightarrow> run_attempt" where
  "run_record_turn_started run = run\<lparr>ra_turn_count := saturating_add (ra_turn_count run) 1\<rparr>"

section \<open>The stall clock\<close>

record stall_metadata =
  sm_started_at :: timestamp_ms
  sm_last_activity_at :: timestamp_ms
  sm_idle_timeout_ms :: duration_ms
  sm_total_runtime_cap_ms :: "duration_ms option"
  sm_stalled_at :: timestamp_ms

definition stall_with_runtime_cap ::
  "timestamp_ms \<Rightarrow> duration_ms \<Rightarrow> duration_ms option \<Rightarrow> stall_metadata" where
  "stall_with_runtime_cap started_at idle cap =
     (let idle_deadline = timestamp_saturating_add started_at idle;
          stalled_at =
            (case cap of
               Some c \<Rightarrow> min idle_deadline (timestamp_saturating_add started_at c)
             | None \<Rightarrow> idle_deadline)
      in \<lparr>sm_started_at = started_at, sm_last_activity_at = started_at,
          sm_idle_timeout_ms = idle, sm_total_runtime_cap_ms = cap, sm_stalled_at = stalled_at\<rparr>)"

definition stall_new :: "timestamp_ms \<Rightarrow> duration_ms \<Rightarrow> stall_metadata" where
  "stall_new started_at idle = stall_with_runtime_cap started_at idle None"

text \<open>The updated clock and whether the deadline moved forward.\<close>

definition observe_activity :: "stall_metadata \<Rightarrow> timestamp_ms \<Rightarrow> stall_metadata \<times> bool" where
  "observe_activity s activity_at =
     (if activity_at < sm_last_activity_at s then (s, False)
      else
        let idle_deadline = timestamp_saturating_add activity_at (sm_idle_timeout_ms s);
            new_stalled_at =
              (case sm_total_runtime_cap_ms s of
                 Some cap \<Rightarrow> min idle_deadline (timestamp_saturating_add (sm_started_at s) cap)
               | None \<Rightarrow> idle_deadline)
        in (s\<lparr>sm_last_activity_at := activity_at, sm_stalled_at := new_stalled_at\<rparr>,
            sm_stalled_at s < new_stalled_at))"

definition is_stalled_at :: "stall_metadata \<Rightarrow> timestamp_ms \<Rightarrow> bool" where
  "is_stalled_at s now \<longleftrightarrow> sm_stalled_at s \<le> now"

section \<open>Harness interrupts\<close>

datatype harness_interrupt_reason =
    OperatorCancel | TrackerMergingSupersedesHumanReview | SchedulerAbort

datatype harness_interrupt_expected_next_state =
    ExpectPaused | ExpectInterrupted | ExpectReleased | ExpectCloseoutPending

datatype harness_interrupt_status =
    InterruptRequested | InterruptAcknowledged | InterruptFailed | InterruptTimedOut

record harness_interrupt_command =
  hc_run_id :: string
  hc_issue_id :: issue_id
  hc_harness_kind :: string
  hc_conversation_id :: conversation_id
  hc_turn_id :: "string option"
  hc_reason :: harness_interrupt_reason
  hc_expected_next_state :: harness_interrupt_expected_next_state

record harness_interrupt_state =
  hi_command :: harness_interrupt_command
  hi_status :: harness_interrupt_status
  hi_requested_at :: timestamp_ms
  hi_updated_at :: "timestamp_ms option"
  hi_detail :: "string option"

definition interrupt_requested ::
  "harness_interrupt_command \<Rightarrow> timestamp_ms \<Rightarrow> harness_interrupt_state" where
  "interrupt_requested command t =
     \<lparr>hi_command = command, hi_status = InterruptRequested, hi_requested_at = t,
      hi_updated_at = None, hi_detail = None\<rparr>"

definition replace_command ::
  "harness_interrupt_command \<Rightarrow> harness_interrupt_state \<Rightarrow> harness_interrupt_state" where
  "replace_command command i = i\<lparr>hi_command := command\<rparr>"

definition interrupt_acknowledge ::
  "timestamp_ms \<Rightarrow> harness_interrupt_state \<Rightarrow> harness_interrupt_state" where
  "interrupt_acknowledge t i =
     (if hi_status i \<noteq> InterruptRequested then i
      else i\<lparr>hi_status := InterruptAcknowledged, hi_updated_at := Some t, hi_detail := None\<rparr>)"

definition interrupt_fail ::
  "timestamp_ms \<Rightarrow> string \<Rightarrow> harness_interrupt_state \<Rightarrow> harness_interrupt_state" where
  "interrupt_fail t detail i =
     (if hi_status i \<noteq> InterruptRequested then i
      else i\<lparr>hi_status := InterruptFailed, hi_updated_at := Some t, hi_detail := Some detail\<rparr>)"

definition interrupt_timeout ::
  "timestamp_ms \<Rightarrow> string \<Rightarrow> harness_interrupt_state \<Rightarrow> harness_interrupt_state" where
  "interrupt_timeout t detail i =
     (if hi_status i \<noteq> InterruptRequested then i
      else i\<lparr>hi_status := InterruptTimedOut, hi_updated_at := Some t, hi_detail := Some detail\<rparr>)"

section \<open>Worker outcomes and releases\<close>

datatype worker_outcome_kind =
    OutSucceeded | OutFailed | OutTimedOut | OutStalled | OutCancelled | OutDetached | OutCancelFailed

record parent_verification_evidence =
  pv_schema_version :: u32
  pv_run_id :: string
  pv_attempt :: u32
  pv_hierarchy_generation :: u64
  pv_repository_commits :: "(canonical_repository_id, string) omap"
  pv_command :: string
  pv_command_hash :: string
  pv_root :: string
  pv_repair_repository_id :: "canonical_repository_id option"

record worker_outcome_record =
  wo_worker_id :: worker_id
  wo_attempt :: "retry_attempt option"
  wo_outcome :: worker_outcome_kind
  wo_started_at :: timestamp_ms
  wo_finished_at :: timestamp_ms
  wo_turn_count :: u32
  wo_summary :: "string option"
  wo_error :: "string option"
  wo_harness_stopped :: bool
  wo_parent_verification :: "parent_verification_evidence option"

definition outcome_from_run ::
  "run_attempt \<Rightarrow> worker_outcome_kind \<Rightarrow> timestamp_ms \<Rightarrow> string option \<Rightarrow> string option \<Rightarrow>
     worker_outcome_record" where
  "outcome_from_run run outcome finished_at summary error =
     \<lparr>wo_worker_id = ra_worker_id run, wo_attempt = ra_attempt run, wo_outcome = outcome,
      wo_started_at = unwrap_or (ra_started_at run) (ra_claimed_at run),
      wo_finished_at = finished_at, wo_turn_count = ra_turn_count run, wo_summary = summary,
      wo_error = error, wo_harness_stopped = False, wo_parent_verification = None\<rparr>"

definition with_harness_stopped :: "worker_outcome_record \<Rightarrow> worker_outcome_record" where
  "with_harness_stopped out = out\<lparr>wo_harness_stopped := True\<rparr>"

datatype release_reason =
    ReleaseCompleted | ReleaseTrackerInactive | ReleaseTrackerTerminal | ReleaseCancelled
  | ReleaseRetryExhausted

fun preserves_reactivation_state :: "release_reason \<Rightarrow> bool" where
  "preserves_reactivation_state ReleaseTrackerInactive = True"
| "preserves_reactivation_state _ = False"

section \<open>The deadline contract\<close>

text \<open>
  What the scheduler relies on when it polls a clock for stalls: activity never moves the
  deadline back, a late signal changes nothing, and the deadline never passes the cap.
  Proved once from the laws of one step, for any sequence of signals.
\<close>

locale sliding_deadline =
  fixes observe :: "'s \<Rightarrow> 't::linorder \<Rightarrow> 's"
    and deadline :: "'s \<Rightarrow> 't"
    and last_seen :: "'s \<Rightarrow> 't"
    and hard_cap :: "'s \<Rightarrow> 't option"
    and inv :: "'s \<Rightarrow> bool"
  assumes inv_observe: "inv s \<Longrightarrow> inv (observe s t)"
    and deadline_observe: "inv s \<Longrightarrow> deadline s \<le> deadline (observe s t)"
    and last_observe: "inv s \<Longrightarrow> last_seen (observe s t) = max (last_seen s) t"
    and cap_observe: "hard_cap (observe s t) = hard_cap s"
    and cap_bound: "inv s \<Longrightarrow> hard_cap s = Some c \<Longrightarrow> deadline s \<le> c"
    and deadline_ge: "inv s \<Longrightarrow> hard_cap s = None \<Longrightarrow> last_seen s \<le> deadline s"
begin

lemma inv_foldl: "inv s \<Longrightarrow> inv (foldl observe s ts)"
  by (induction ts arbitrary: s) (auto intro: inv_observe)

lemma cap_foldl: "hard_cap (foldl observe s ts) = hard_cap s"
  by (induction ts arbitrary: s) (auto simp: cap_observe)

lemma deadline_foldl: "inv s \<Longrightarrow> deadline s \<le> deadline (foldl observe s ts)"
proof (induction ts arbitrary: s)
  case (Cons t ts)
  have "deadline s \<le> deadline (observe s t)" using Cons.prems by (rule deadline_observe)
  also have "\<dots> \<le> deadline (foldl observe (observe s t) ts)"
    by (rule Cons.IH) (rule inv_observe [OF Cons.prems])
  finally show ?case by simp
qed simp

lemma last_foldl: "inv s \<Longrightarrow> last_seen (foldl observe s ts) = foldl max (last_seen s) ts"
  by (induction ts arbitrary: s) (auto simp: last_observe inv_observe)

lemma stalled_once_capped:
  "inv s \<Longrightarrow> hard_cap s = Some c \<Longrightarrow> c \<le> now \<Longrightarrow> deadline (foldl observe s ts) \<le> now"
  using cap_bound [OF inv_foldl, of s ts c] by (auto simp: cap_foldl)

end

text \<open>The clock's invariant: the deadline is what the constructor and every update compute.\<close>

definition stall_inv :: "stall_metadata \<Rightarrow> bool" where
  "stall_inv s \<longleftrightarrow>
     sm_started_at s \<le> sm_last_activity_at s \<and>
     sm_stalled_at s =
       (case sm_total_runtime_cap_ms s of
          Some cap \<Rightarrow> min (timestamp_saturating_add (sm_last_activity_at s) (sm_idle_timeout_ms s))
                        (timestamp_saturating_add (sm_started_at s) cap)
        | None \<Rightarrow> timestamp_saturating_add (sm_last_activity_at s) (sm_idle_timeout_ms s))"

definition stall_cap :: "stall_metadata \<Rightarrow> timestamp_ms option" where
  "stall_cap s = map_option (timestamp_saturating_add (sm_started_at s)) (sm_total_runtime_cap_ms s)"

lemma stall_inv_new: "stall_inv (stall_with_runtime_cap t idle cap)"
  by (cases cap) (simp_all add: stall_inv_def stall_with_runtime_cap_def)

lemma stall_inv_observe: "stall_inv s \<Longrightarrow> stall_inv (fst (observe_activity s t))"
  by (auto simp: stall_inv_def observe_activity_def Let_def split: option.splits)

interpretation stall: sliding_deadline "\<lambda>s t. fst (observe_activity s t)"
    sm_stalled_at sm_last_activity_at stall_cap stall_inv
proof
  show "stall_inv s \<Longrightarrow> stall_inv (fst (observe_activity s t))" for s t
    by (rule stall_inv_observe)
  show "stall_inv s \<Longrightarrow> sm_stalled_at s \<le> sm_stalled_at (fst (observe_activity s t))" for s t
    using saturating_add_mono [of "sm_last_activity_at s" t "sm_idle_timeout_ms s"]
    by (auto simp: stall_inv_def observe_activity_def Let_def timestamp_saturating_add_def
        min.coboundedI1 split: option.splits)
  show "stall_inv s \<Longrightarrow> sm_last_activity_at (fst (observe_activity s t)) = max (sm_last_activity_at s) t"
    for s t by (auto simp: observe_activity_def Let_def max_def)
  show "stall_cap (fst (observe_activity s t)) = stall_cap s" for s t
    by (simp add: stall_cap_def observe_activity_def Let_def)
  show "stall_inv s \<Longrightarrow> stall_cap s = Some c \<Longrightarrow> sm_stalled_at s \<le> c" for s c
    by (auto simp: stall_inv_def stall_cap_def)
  show "stall_inv s \<Longrightarrow> stall_cap s = None \<Longrightarrow> sm_last_activity_at s \<le> sm_stalled_at s" for s
    by (simp add: stall_inv_def stall_cap_def timestamp_saturating_add_def saturating_add_ge)
qed


lemma stall_inv_deadline:
  "stall_inv s \<Longrightarrow> is_stalled_at s now \<longleftrightarrow>
     timestamp_saturating_add (sm_last_activity_at s) (sm_idle_timeout_ms s) \<le> now \<or>
     is_some_and (\<lambda>cap. timestamp_saturating_add (sm_started_at s) cap \<le> now)
       (sm_total_runtime_cap_ms s)"
  by (auto simp: stall_inv_def is_stalled_at_def min_def split: option.splits)

lemma observe_activity_frame [simp]:
  "sm_started_at (fst (observe_activity s t)) = sm_started_at s"
  "sm_idle_timeout_ms (fst (observe_activity s t)) = sm_idle_timeout_ms s"
  "sm_total_runtime_cap_ms (fst (observe_activity s t)) = sm_total_runtime_cap_ms s"
  by (simp_all add: observe_activity_def Let_def)

lemma observe_activity_advanced:
  "stall_inv s \<Longrightarrow> snd (observe_activity s t) \<longleftrightarrow>
     sm_stalled_at s < sm_stalled_at (fst (observe_activity s t))"
  by (simp add: observe_activity_def Let_def)

text \<open>The updates an interrupt can receive after it was requested.\<close>

datatype interrupt_update =
    Acknowledge timestamp_ms | Fail timestamp_ms string | TimeOut timestamp_ms string

fun apply_interrupt_update ::
  "harness_interrupt_state \<Rightarrow> interrupt_update \<Rightarrow> harness_interrupt_state" where
  "apply_interrupt_update i (Acknowledge t) = interrupt_acknowledge t i"
| "apply_interrupt_update i (Fail t d) = interrupt_fail t d i"
| "apply_interrupt_update i (TimeOut t d) = interrupt_timeout t d i"

lemma resolved_unchanged:
  "hi_status i \<noteq> InterruptRequested \<Longrightarrow> apply_interrupt_update i u = i"
  by (cases u) (simp_all add: interrupt_acknowledge_def interrupt_fail_def interrupt_timeout_def)

lemma resolved_run:
  "hi_status i \<noteq> InterruptRequested \<Longrightarrow> foldl apply_interrupt_update i us = i"
  by (induction us) (simp_all add: resolved_unchanged)

lemma update_resolves:
  "hi_status i = InterruptRequested \<Longrightarrow> hi_status (apply_interrupt_update i u) \<noteq> InterruptRequested"
  by (cases u) (simp_all add: interrupt_acknowledge_def interrupt_fail_def interrupt_timeout_def)

section \<open>Properties\<close>

text \<open>After any sequence of activity signals, on time or late, a run counts as stalled
  exactly when the idle timeout has passed since the latest signal or the runtime cap has
  passed since the start; the deadline never moved back, and no signal moved it past the
  cap.\<close>

theorem stall_clock_correct:
  assumes "s = stall_with_runtime_cap start idle cap"
    and "s' = foldl (\<lambda>s t. fst (observe_activity s t)) s ts"
  shows "(is_stalled_at s' now \<longleftrightarrow>
            timestamp_saturating_add (foldl max start ts) idle \<le> now \<or>
            is_some_and (\<lambda>c. timestamp_saturating_add start c \<le> now) cap) \<and>
         sm_stalled_at s \<le> sm_stalled_at s' \<and>
         (\<forall>c. cap = Some c \<longrightarrow> sm_stalled_at s' \<le> timestamp_saturating_add start c)"
proof -
  have inv: "stall_inv s" by (simp add: assms(1) stall_inv_new)
  have frame: "sm_started_at s' = start" "sm_idle_timeout_ms s' = idle"
    "sm_total_runtime_cap_ms s' = cap"
    unfolding assms by (induction ts rule: rev_induct) (simp_all add: stall_with_runtime_cap_def Let_def)
  have "sm_last_activity_at s' = foldl max start ts"
    using stall.last_foldl [OF inv, of ts] by (simp add: assms stall_with_runtime_cap_def Let_def)
  with stall.inv_foldl [OF inv, of ts] frame
  have "is_stalled_at s' now \<longleftrightarrow>
      timestamp_saturating_add (foldl max start ts) idle \<le> now \<or>
      is_some_and (\<lambda>c. timestamp_saturating_add start c \<le> now) cap"
    by (simp add: stall_inv_deadline assms(2))
  moreover have "sm_stalled_at s' \<le> timestamp_saturating_add start c" if "cap = Some c" for c
    using stall.cap_bound [OF stall.inv_foldl [OF inv, of ts]] that frame
    by (simp add: assms(2) stall_cap_def)
  ultimately show ?thesis
    using stall.deadline_foldl [OF inv, of ts] by (simp add: assms(2))
qed

theorem stall_clock_correct_witness:
  "is_stalled_at (foldl (\<lambda>s t. fst (observe_activity s t))
     (stall_with_runtime_cap 100 50 (Some 70)) [140, 130]) 175"
proof -
  have "is_some_and (\<lambda>c. timestamp_saturating_add 100 c \<le> 175) (Some (70 :: u64))"
    by (simp add: timestamp_saturating_add_def saturating_add_def)
  with stall_clock_correct [OF refl refl, of 100 50 "Some 70" "[140, 130]" 175] show ?thesis
    by blast
qed

text \<open>The first resolution of an interrupt wins. A requested interrupt is resolved by the
  next acknowledgement, failure or timeout, and nothing that arrives after that changes its
  status, its time or its detail.\<close>

theorem first_interrupt_resolution_wins:
  "foldl apply_interrupt_update (interrupt_requested command t) (u # us) =
     apply_interrupt_update (interrupt_requested command t) u \<and>
   hi_status (apply_interrupt_update (interrupt_requested command t) u) \<noteq> InterruptRequested"
proof -
  have "hi_status (apply_interrupt_update (interrupt_requested command t) u) \<noteq> InterruptRequested"
    by (rule update_resolves) (simp add: interrupt_requested_def)
  then show ?thesis by (simp add: resolved_run)
qed

end
