(* ===== verification/Conversation.thy ===== *)
theory Conversation
  imports Issues
begin

text \<open>
  The conversation metadata of \<open>opensymphony-domain/src/runtime.rs\<close>: the activity log with
  its coalescing of streamed agent messages and its bound, and the token counters. The
  harness capability record is that of \<open>opensymphony-gateway-schema/src/capability.rs\<close>.
\<close>

datatype runtime_stream_state =
    StreamDetached | StreamAttaching | StreamReady | StreamReconnecting | StreamClosed | StreamFailed

record harness_operation_capability =
  ho_operation_id :: string
  ho_namespace :: string
  ho_version :: string
  ho_capability_predicate :: string
  ho_parameters_schema :: json
  ho_result_schema :: json
  ho_deadline_ms :: u64
  ho_effect :: string

record harness_run_capability =
  hr_harness :: string
  hr_profile_id :: string
  hr_run_binding_id :: "string option"
  hr_protocol :: string
  hr_protocol_version :: "16 word"
  hr_rpc :: string
  hr_encoding :: string
  hr_framing :: string
  hr_carrier :: string
  hr_session_restore :: bool
  hr_history_replay :: bool
  hr_model_selection :: bool
  hr_cancellation :: bool
  hr_operator_responses :: bool
  hr_operations :: "harness_operation_capability list"

record conversation_activity_event =
  ca_event_id :: string
  ca_happened_at :: timestamp_ms
  ca_kind :: string
  ca_summary :: string
  ca_payload :: "json option"
  ca_sequence :: u64

record conversation_metadata =
  cm_harness_capability :: "harness_run_capability option"
  cm_conversation_id :: conversation_id
  cm_server_base_url :: "string option"
  cm_transport_target :: "string option"
  cm_http_auth_mode :: "string option"
  cm_websocket_auth_mode :: "string option"
  cm_websocket_query_param_name :: "string option"
  cm_fresh_conversation :: bool
  cm_runtime_contract_version :: "string option"
  cm_stream_state :: runtime_stream_state
  cm_last_event_id :: "string option"
  cm_last_event_kind :: "string option"
  cm_last_event_at :: "timestamp_ms option"
  cm_last_event_summary :: "string option"
  cm_recent_activity :: "conversation_activity_event list"
  cm_input_tokens :: u64
  cm_output_tokens :: u64
  cm_cache_read_tokens :: u64
  cm_total_tokens :: u64
  cm_runtime_seconds :: u64
  cm_next_activity_sequence :: u64

definition max_activity_events :: nat where "max_activity_events = 50"

section \<open>Coalescing streamed agent messages\<close>

definition should_coalesce_codex_agent_delta ::
  "conversation_activity_event \<Rightarrow> string \<Rightarrow> string \<Rightarrow> bool" where
  "should_coalesce_codex_agent_delta l event_id event_kind \<longleftrightarrow>
     event_kind = ''codex.item/agentMessage/delta'' \<and> ca_kind l = event_kind \<and>
     ca_event_id l = event_id"

text \<open>The closing characters before which no space is put include U+2019, three bytes in
  UTF-8; the opening ones are all ASCII, so the last byte of the trimmed text decides.\<close>

definition codex_delta_needs_space :: "string \<Rightarrow> string \<Rightarrow> bool" where
  "codex_delta_needs_space existing next =
     (let e = trim_end existing
      in if e = [] \<or> next = [] then False
         else \<not> (hd next \<in> {CHR ''.'', CHR '','', CHR '';'', CHR '':'', CHR ''!'', CHR ''?'',
                   CHR '')'', CHR '']'', CHR ''}'', CHR 0x27} \<or>
                  prefix [CHR 0xE2, CHR 0x80, CHR 0x99] next) \<and>
              last e \<notin> {CHR ''('', CHR ''['', CHR ''{'', CHR ''/'', CHR ''$''})"

definition codex_prefix :: string where "codex_prefix = ''Codex assistant: ''"

definition coalesced_codex_agent_summary :: "string \<Rightarrow> string \<Rightarrow> string" where
  "coalesced_codex_agent_summary existing next =
     (let existing_text = unwrap_or (strip_prefix codex_prefix existing) existing;
          next_text = trim (unwrap_or (strip_prefix codex_prefix next) next)
      in if next_text = [] then existing
         else if trim existing_text = [] then codex_prefix @ next_text
         else
           let separator = (if codex_delta_needs_space existing_text next_text then '' '' else [])
           in codex_prefix @ trim_end existing_text @ separator @ next_text)"

section \<open>Observing events\<close>

text \<open>\<open>while len > MAX { remove(0) }\<close>.\<close>

fun evict_front :: "nat \<Rightarrow> 'a list \<Rightarrow> 'a list" where
  "evict_front n [] = []"
| "evict_front n (x # xs) = (if n < length (x # xs) then evict_front n xs else x # xs)"

definition push_activity ::
  "conversation_metadata \<Rightarrow> string \<Rightarrow> timestamp_ms \<Rightarrow> string \<Rightarrow> string \<Rightarrow> json option \<Rightarrow>
     conversation_metadata" where
  "push_activity c event_id event_at event_kind summary payload =
     c\<lparr>cm_next_activity_sequence := cm_next_activity_sequence c + 1,
       cm_recent_activity :=
         evict_front max_activity_events
           (cm_recent_activity c @
             [\<lparr>ca_event_id = event_id, ca_happened_at = event_at, ca_kind = event_kind,
               ca_summary = summary, ca_payload = payload,
               ca_sequence = cm_next_activity_sequence c\<rparr>])\<rparr>"

definition coalesce_activity ::
  "conversation_metadata \<Rightarrow> conversation_activity_event \<Rightarrow> timestamp_ms \<Rightarrow> string \<Rightarrow> json option \<Rightarrow>
     conversation_metadata" where
  "coalesce_activity c l event_at summary payload =
     (let l' = l\<lparr>ca_happened_at := event_at,
                 ca_summary := coalesced_codex_agent_summary (ca_summary l) summary,
                 ca_payload := payload\<rparr>
      in c\<lparr>cm_recent_activity := butlast (cm_recent_activity c) @ [l'],
           cm_last_event_summary := Some (ca_summary l')\<rparr>)"

definition observe_event ::
  "conversation_metadata \<Rightarrow> timestamp_ms \<Rightarrow> string option \<Rightarrow> string option \<Rightarrow> string option \<Rightarrow>
     json option \<Rightarrow> conversation_metadata" where
  "observe_event c event_at event_id event_kind summary payload =
     (if is_some_and (\<lambda>l. event_at < l) (cm_last_event_at c) then c
      else
        let c = c\<lparr>cm_last_event_at := Some event_at, cm_last_event_id := event_id,
                  cm_last_event_kind := event_kind, cm_last_event_summary := summary\<rparr>
        in case (event_id, event_kind, summary) of
             (Some i, Some k, Some s) \<Rightarrow>
               if cm_recent_activity c \<noteq> [] \<and>
                  should_coalesce_codex_agent_delta (last (cm_recent_activity c)) i k
               then coalesce_activity c (last (cm_recent_activity c)) event_at s payload
               else push_activity c i event_at k s payload
           | _ \<Rightarrow> c)"

section \<open>Token counters\<close>

definition add_tokens :: "conversation_metadata \<Rightarrow> u64 \<Rightarrow> u64 \<Rightarrow> conversation_metadata" where
  "add_tokens c input output =
     c\<lparr>cm_input_tokens := cm_input_tokens c + input,
       cm_output_tokens := cm_output_tokens c + output,
       cm_total_tokens := cm_total_tokens c + (input + output)\<rparr>"

definition set_token_usage ::
  "conversation_metadata \<Rightarrow> u64 \<Rightarrow> u64 \<Rightarrow> u64 \<Rightarrow> u64 \<Rightarrow> conversation_metadata" where
  "set_token_usage c input output cache_read total_tokens =
     c\<lparr>cm_input_tokens := input, cm_output_tokens := output,
       cm_cache_read_tokens := cache_read, cm_total_tokens := total_tokens\<rparr>"

definition effective_total_tokens :: "conversation_metadata \<Rightarrow> u64" where
  "effective_total_tokens c =
     (if 0 < cm_total_tokens c then cm_total_tokens c
      else cm_input_tokens c + cm_output_tokens c)"

definition add_runtime_seconds :: "conversation_metadata \<Rightarrow> u64 \<Rightarrow> conversation_metadata" where
  "add_runtime_seconds c seconds = c\<lparr>cm_runtime_seconds := cm_runtime_seconds c + seconds\<rparr>"

section \<open>The activity log\<close>

lemma evict_front_drop: "evict_front n xs = drop (length xs - n) xs"
  by (induction xs) (auto simp: Suc_diff_le)

text \<open>
  The log's invariant: at most \<open>MAX_ACTIVITY_EVENTS\<close> rows, whose sequence numbers are
  consecutive and end just before the next number to be given. Stated on the natural
  numbers the words stand for, so it holds until the counter has given out all \<open>2^64\<close>.
\<close>

definition activity_inv :: "conversation_metadata \<Rightarrow> bool" where
  "activity_inv c \<longleftrightarrow>
     length (cm_recent_activity c) \<le> max_activity_events \<and>
     length (cm_recent_activity c) \<le> unat (cm_next_activity_sequence c) \<and>
     map (unat \<circ> ca_sequence) (cm_recent_activity c) =
       [unat (cm_next_activity_sequence c) - length (cm_recent_activity c) ..<
        unat (cm_next_activity_sequence c)]"

lemma activity_inv_cong:
  "cm_recent_activity c' = cm_recent_activity c \<Longrightarrow>
   cm_next_activity_sequence c' = cm_next_activity_sequence c \<Longrightarrow>
   activity_inv c' = activity_inv c"
  by (simp add: activity_inv_def)

lemma drop_upt_last: "drop k [a..<b] = [a + k..<b]"
  by simp

lemma unat_Suc_word: "unat (x :: u64) < 2 ^ 64 - 1 \<Longrightarrow> unat (x + 1) = Suc (unat x)"
  by (simp add: unat_word_ariths)

lemma push_activity_inv:
  assumes inv: "activity_inv c" and room: "unat (cm_next_activity_sequence c) < 2 ^ 64 - 1"
  shows "activity_inv (push_activity c i t k s p)"
proof -
  let ?xs = "cm_recent_activity c" and ?n = "unat (cm_next_activity_sequence c)"
  let ?ys = "?xs @ [\<lparr>ca_event_id = i, ca_happened_at = t, ca_kind = k, ca_summary = s,
      ca_payload = p, ca_sequence = cm_next_activity_sequence c\<rparr>]"
  have len: "length ?xs \<le> max_activity_events" "length ?xs \<le> ?n"
    and seq: "map (unat \<circ> ca_sequence) ?xs = [?n - length ?xs..<?n]"
    using inv by (simp_all add: activity_inv_def)
  define zs where "zs = evict_front max_activity_events ?ys"
  have zs_len: "length zs = min (Suc (length ?xs)) max_activity_events"
    by (auto simp: zs_def evict_front_drop)
  have "map (unat \<circ> ca_sequence) ?ys = [?n - length ?xs..<Suc ?n]"
    using seq by simp
  then have "map (unat \<circ> ca_sequence) zs =
      [?n - length ?xs + (Suc (length ?xs) - max_activity_events)..<Suc ?n]"
    by (simp only: zs_def evict_front_drop drop_map [symmetric] drop_upt_last) simp
  moreover have "?n - length ?xs + (Suc (length ?xs) - max_activity_events) = Suc ?n - length zs"
    using len by (simp add: zs_len)
  ultimately have "map (unat \<circ> ca_sequence) zs = [Suc ?n - length zs..<Suc ?n]" by simp
  moreover have "length zs \<le> max_activity_events" "length zs \<le> Suc ?n"
    using len by (simp_all add: zs_len)
  moreover have "cm_recent_activity (push_activity c i t k s p) = zs"
    "unat (cm_next_activity_sequence (push_activity c i t k s p)) = Suc ?n"
    by (simp_all add: push_activity_def zs_def unat_Suc_word [OF room])
  ultimately show ?thesis by (simp only: activity_inv_def)
qed

lemma coalesce_activity_inv:
  assumes "activity_inv c" and "cm_recent_activity c \<noteq> []"
  shows "activity_inv (coalesce_activity c (last (cm_recent_activity c)) t s p)"
proof -
  let ?xs = "cm_recent_activity c"
  obtain ys y where ys: "?xs = ys @ [y]" using assms(2) by (metis append_butlast_last_id)
  then show ?thesis
    using assms(1) by (simp add: activity_inv_def coalesce_activity_def Let_def)
qed


lemma observe_event_cases [case_names stale header coalesce push]:
  obtains (stale) "is_some_and (\<lambda>l. t < l) (cm_last_event_at c)"
      "observe_event c t i k s p = c"
  | (header) c' where "\<not> is_some_and (\<lambda>l. t < l) (cm_last_event_at c)"
      "observe_event c t i k s p = c'" "cm_recent_activity c' = cm_recent_activity c"
      "cm_next_activity_sequence c' = cm_next_activity_sequence c" "cm_last_event_at c' = Some t"
  | (coalesce) c' s' where "\<not> is_some_and (\<lambda>l. t < l) (cm_last_event_at c)"
      "observe_event c t i k s p = coalesce_activity c' (last (cm_recent_activity c')) t s' p"
      "cm_recent_activity c' \<noteq> []" "cm_recent_activity c' = cm_recent_activity c"
      "cm_next_activity_sequence c' = cm_next_activity_sequence c" "cm_last_event_at c' = Some t"
  | (push) c' i' k' s' where "\<not> is_some_and (\<lambda>l. t < l) (cm_last_event_at c)"
      "observe_event c t i k s p = push_activity c' i' t k' s' p"
      "cm_recent_activity c' = cm_recent_activity c"
      "cm_next_activity_sequence c' = cm_next_activity_sequence c" "cm_last_event_at c' = Some t"
proof -
  let ?c' = "c\<lparr>cm_last_event_at := Some t, cm_last_event_id := i,
               cm_last_event_kind := k, cm_last_event_summary := s\<rparr>"
  show thesis
  proof (cases "is_some_and (\<lambda>l. t < l) (cm_last_event_at c)")
    case True
    then show ?thesis by (intro stale) (simp_all add: observe_event_def)
  next
    case fresh: False
    show ?thesis
    proof (cases "\<exists>i' k' s'. (i, k, s) = (Some i', Some k', Some s')")
      case True
      then obtain i' k' s' where iks: "i = Some i'" "k = Some k'" "s = Some s'" by auto
      show ?thesis
      proof (cases "cm_recent_activity c \<noteq> [] \<and>
          should_coalesce_codex_agent_delta (last (cm_recent_activity c)) i' k'")
        case True
        with fresh iks show ?thesis
          by (intro coalesce [of ?c' s']) (simp_all add: observe_event_def)
      next
        case False
        with fresh iks show ?thesis
          by (intro push [of ?c' i' k' s']) (auto simp: observe_event_def Let_def)
      qed
    next
      case False
      with fresh show ?thesis
        by (intro header [of ?c']) (auto simp: observe_event_def Let_def split: option.splits)
    qed
  qed
qed

lemma next_push_activity [simp]:
  "cm_next_activity_sequence (push_activity c i t k s p) = cm_next_activity_sequence c + 1"
  "cm_last_event_at (push_activity c i t k s p) = cm_last_event_at c"
  by (simp_all add: push_activity_def)

lemma next_coalesce_activity [simp]:
  "cm_next_activity_sequence (coalesce_activity c l t s p) = cm_next_activity_sequence c"
  "cm_last_event_at (coalesce_activity c l t s p) = cm_last_event_at c"
  by (simp_all add: coalesce_activity_def Let_def)

lemma observe_event_inv:
  assumes inv: "activity_inv c" and room: "unat (cm_next_activity_sequence c) < 2 ^ 64 - 1"
  shows "activity_inv (observe_event c t i k s p)"
proof (cases rule: observe_event_cases [of t c i k s p])
  case stale
  with inv show ?thesis by simp
next
  case (header c')
  with inv show ?thesis using activity_inv_cong [of c' c] by simp
next
  case (coalesce c' s')
  with inv have "activity_inv c'" using activity_inv_cong [of c' c] by simp
  with coalesce show ?thesis using coalesce_activity_inv [of c' t s' p] by simp
next
  case (push c' i' k' s')
  with inv room have "activity_inv c'" "unat (cm_next_activity_sequence c') < 2 ^ 64 - 1"
    using activity_inv_cong [of c' c] by simp_all
  with push show ?thesis by (simp add: push_activity_inv)
qed

lemma observe_event_next:
  assumes "unat (cm_next_activity_sequence c) < 2 ^ 64 - 1"
  shows "unat (cm_next_activity_sequence (observe_event c t i k s p))
           \<le> Suc (unat (cm_next_activity_sequence c))"
  by (cases rule: observe_event_cases [of t c i k s p])
    (use unat_Suc_word [OF assms] in simp_all)

lemma observe_event_last_at:
  "cm_last_event_at (observe_event c t i k s p) =
     Some (case cm_last_event_at c of None \<Rightarrow> t | Some l \<Rightarrow> max l t)"
  by (cases rule: observe_event_cases [of t c i k s p])
    (auto simp: is_some_and_def max_def split: option.splits)

text \<open>A stream of runtime events, each with its time, id, kind, summary and payload.\<close>

type_synonym runtime_event =
  "timestamp_ms \<times> string option \<times> string option \<times> string option \<times> json option"

definition observe_events ::
  "conversation_metadata \<Rightarrow> runtime_event list \<Rightarrow> conversation_metadata" where
  "observe_events c es = foldl (\<lambda>c (t, i, k, s, p). observe_event c t i k s p) c es"

lemma observe_events_inv:
  "activity_inv c \<Longrightarrow> unat (cm_next_activity_sequence c) + length es < 2 ^ 64 \<Longrightarrow>
     activity_inv (observe_events c es)"
proof (induction es arbitrary: c)
  case (Cons e es)
  obtain t i k s p where e: "e = (t, i, k, s, p)" by (cases e)
  have room: "unat (cm_next_activity_sequence c) < 2 ^ 64 - 1" using Cons.prems(2) by simp
  have "unat (cm_next_activity_sequence (observe_event c t i k s p)) + length es < 2 ^ 64"
    using observe_event_next [OF room, of t i k s p] Cons.prems(2) by simp
  with Cons.IH [OF observe_event_inv [OF Cons.prems(1) room]] show ?case
    by (simp add: observe_events_def e)
qed (simp add: observe_events_def)

lemma observe_events_last_at:
  "cm_last_event_at c = Some l \<Longrightarrow>
     \<exists>m. cm_last_event_at (observe_events c es) = Some m \<and> l \<le> m \<and> (\<forall>e \<in> set es. fst e \<le> m)"
proof (induction es arbitrary: c l)
  case (Cons e es)
  obtain t i k s p where e: "e = (t, i, k, s, p)" by (cases e)
  have "cm_last_event_at (observe_event c t i k s p) = Some (max l t)"
    using Cons.prems by (simp add: observe_event_last_at)
  from Cons.IH [OF this] show ?case
    by (auto simp: observe_events_def e intro: order_trans)
qed (simp add: observe_events_def)

section \<open>Properties\<close>


definition demo_conversation :: conversation_metadata where
  "demo_conversation = \<lparr>cm_harness_capability = None, cm_conversation_id = ConversationId ''conv_1'',
     cm_server_base_url = None, cm_transport_target = None, cm_http_auth_mode = None,
     cm_websocket_auth_mode = None, cm_websocket_query_param_name = None,
     cm_fresh_conversation = True, cm_runtime_contract_version = None,
     cm_stream_state = StreamReady, cm_last_event_id = None, cm_last_event_kind = None,
     cm_last_event_at = Some 900, cm_last_event_summary = None, cm_recent_activity = [],
     cm_input_tokens = 0, cm_output_tokens = 0, cm_cache_read_tokens = 0, cm_total_tokens = 0,
     cm_runtime_seconds = 0, cm_next_activity_sequence = 0\<rparr>"


text \<open>Coalescing a streamed agent message loses no text: the new summary is the common
  prefix, then the text so far without trailing white space, a separator of at most one
  space, and then the trimmed new fragment.\<close>

theorem coalesced_summary_keeps_text:
  assumes "trim existing_text \<noteq> []" and "trim fragment \<noteq> []"
    and "strip_prefix codex_prefix fragment = None"
  shows "\<exists>sep. sep \<in> {[], '' ''} \<and>
    coalesced_codex_agent_summary (codex_prefix @ existing_text) fragment =
      codex_prefix @ trim_end existing_text @ sep @ trim fragment"
  using assms by (auto simp: coalesced_codex_agent_summary_def Let_def)

theorem coalesced_summary_keeps_text_witness:
  "coalesced_codex_agent_summary (codex_prefix @ ''poll'') '' is'' = ''Codex assistant: poll is''"
proof -
  have h: "trim ''poll'' \<noteq> []" "trim '' is'' \<noteq> []" "strip_prefix codex_prefix '' is'' = None"
    by code_simp+
  have t: "trim_end ''poll'' = ''poll''" "trim '' is'' = ''is''"
    "coalesced_codex_agent_summary (codex_prefix @ ''poll'') '' is'' \<noteq> ''Codex assistant: pollis''"
    by code_simp+
  from coalesced_summary_keeps_text [OF h] t show ?thesis
    by (auto simp: codex_prefix_def)
qed

end
