(* ===== verification/State_Machine.thy ===== *)
theory State_Machine
  imports Runs Conversation
begin

text \<open>
  \<open>opensymphony-domain/src/state_machine.rs\<close>: the execution record of one issue and its
  transitions. A method that takes \<open>mut self\<close> and returns \<open>Result<Self, _>\<close>, and a method
  that takes \<open>&mut self\<close> and returns \<open>Result<(), _>\<close>, both become a function from the
  execution to an error or the new execution: every error of the latter is returned before
  the first write. \<open>canon\<close> stands for \<open>std::fs::canonicalize\<close>.
\<close>

definition max_recent_worker_outcomes :: nat where "max_recent_worker_outcomes = 10"

datatype scheduler_status = Unclaimed | Claimed | Running | RetryQueued | Released

fun status_str :: "scheduler_status \<Rightarrow> string" where
  "status_str Unclaimed = ''unclaimed''"
| "status_str Claimed = ''claimed''"
| "status_str Running = ''running''"
| "status_str RetryQueued = ''retry_queued''"
| "status_str Released = ''released''"

datatype transition_action =
    ActClaim | ActStartRunning | ActRecordTurnStarted | ActObserveRuntimeEvent | ActQueueRetry
  | ActRelease | ActReopen | ActRequestInterrupt | ActUpdateInterrupt

fun action_str :: "transition_action \<Rightarrow> string" where
  "action_str ActClaim = ''claim''"
| "action_str ActStartRunning = ''start_running''"
| "action_str ActRecordTurnStarted = ''record_turn_started''"
| "action_str ActObserveRuntimeEvent = ''observe_runtime_event''"
| "action_str ActQueueRetry = ''queue_retry''"
| "action_str ActRelease = ''release''"
| "action_str ActReopen = ''reopen''"
| "action_str ActRequestInterrupt = ''request_interrupt''"
| "action_str ActUpdateInterrupt = ''update_interrupt''"

datatype state_transition_error =
    InvalidTransition scheduler_status transition_action
  | AttemptMismatch "retry_attempt option" "retry_attempt option"
  | IssueMismatch issue_id issue_id
  | WorkspaceNotAttached path
  | WorkspaceIssueMismatch workspace_key workspace_key path
  | WorkspaceIdentityMismatch workspace_key workspace_key path path
  | WorkspacePathMismatch path path
  | ConversationNotAttached
  | WorkerMismatch worker_id worker_id
  | RepositoryBindingChanged "canonical_repository_id option" "canonical_repository_id option"

datatype scheduler_state =
    SUnclaimed timestamp_ms
  | SClaimed run_attempt
  | SRunning run_attempt stall_metadata
  | SRetryQueued retry_entry
  | SReleased timestamp_ms release_reason

fun state_status :: "scheduler_state \<Rightarrow> scheduler_status" where
  "state_status (SUnclaimed _) = Unclaimed"
| "state_status (SClaimed _) = Claimed"
| "state_status (SRunning _ _) = Running"
| "state_status (SRetryQueued _) = RetryQueued"
| "state_status (SReleased _ _) = Released"

record issue_execution =
  ie_issue :: normalized_issue
  ie_workspace :: "workspace_record option"
  ie_conversation :: "conversation_metadata option"
  ie_interrupt :: "harness_interrupt_state option"
  ie_state :: scheduler_state
  ie_last_worker_outcome :: "worker_outcome_record option"
  ie_recent_worker_outcomes :: "worker_outcome_record list"
  ie_retry_count_override :: "u32 option"

definition execution_new :: "normalized_issue \<Rightarrow> timestamp_ms \<Rightarrow> issue_execution" where
  "execution_new issue observed_at =
     \<lparr>ie_issue = issue, ie_workspace = None, ie_conversation = None, ie_interrupt = None,
      ie_state = SUnclaimed observed_at, ie_last_worker_outcome = None,
      ie_recent_worker_outcomes = [], ie_retry_count_override = None\<rparr>"

definition status :: "issue_execution \<Rightarrow> scheduler_status" where
  "status e = state_status (ie_state e)"

fun state_run :: "scheduler_state \<Rightarrow> run_attempt option" where
  "state_run (SClaimed run) = Some run"
| "state_run (SRunning run _) = Some run"
| "state_run _ = None"

definition current_run :: "issue_execution \<Rightarrow> run_attempt option" where
  "current_run e = state_run (ie_state e)"

definition retry :: "issue_execution \<Rightarrow> retry_entry option" where
  "retry e = (case ie_state e of SRetryQueued r \<Rightarrow> Some r | _ \<Rightarrow> None)"

definition invalid :: "issue_execution \<Rightarrow> transition_action \<Rightarrow> state_transition_error + 'a" where
  "invalid e action = Err (InvalidTransition (status e) action)"

section \<open>Tracker refresh\<close>

definition refresh_issue ::
  "issue_execution \<Rightarrow> normalized_issue \<Rightarrow> state_transition_error + issue_execution" where
  "refresh_issue e issue =
     (if ni_id issue \<noteq> ni_id (ie_issue e)
      then Err (IssueMismatch (ni_id (ie_issue e)) (ni_id issue))
      else if status e \<in> {Claimed, Running} \<and>
              canonical_identity_changed_opt (ni_repository_binding (ie_issue e))
                (ni_repository_binding issue)
      then Err (RepositoryBindingChanged
             (Option.bind (ni_repository_binding (ie_issue e)) repository_id)
             (Option.bind (ni_repository_binding issue) repository_id))
      else Ok (e\<lparr>ie_issue := issue\<rparr>))"

definition clear_workspace :: "issue_execution \<Rightarrow> issue_execution" where
  "clear_workspace e = e\<lparr>ie_workspace := None, ie_conversation := None\<rparr>"

definition set_retry_count_override :: "u32 \<Rightarrow> issue_execution \<Rightarrow> issue_execution" where
  "set_retry_count_override n e = e\<lparr>ie_retry_count_override := Some n\<rparr>"

section \<open>Outcomes\<close>

text \<open>Before the outcome is kept, a \<open>cancel_failed\<close> outcome fails an interrupt that is still
  requested.\<close>

definition fail_requested_interrupt ::
  "worker_outcome_record \<Rightarrow> harness_interrupt_state option \<Rightarrow> harness_interrupt_state option" where
  "fail_requested_interrupt out i =
     (case i of
        Some s \<Rightarrow>
          if wo_outcome out = OutCancelFailed \<and> hi_status s = InterruptRequested
          then Some (interrupt_fail (wo_finished_at out)
                 (unwrap_or (or_else (wo_error out) (wo_summary out))
                    ''worker reported cancel_failed'') s)
          else i
      | None \<Rightarrow> None)"

definition record_outcome :: "worker_outcome_record \<Rightarrow> issue_execution \<Rightarrow> issue_execution" where
  "record_outcome out e =
     (let recent = ie_recent_worker_outcomes e;
          kept = (if length recent = max_recent_worker_outcomes then tl recent else recent)
      in e\<lparr>ie_interrupt := fail_requested_interrupt out (ie_interrupt e),
           ie_last_worker_outcome := Some out,
           ie_recent_worker_outcomes := kept @ [out]\<rparr>)"

definition retain_worker_outcome :: "worker_outcome_record \<Rightarrow> issue_execution \<Rightarrow> issue_execution" where
  "retain_worker_outcome out e = record_outcome out e"

section \<open>Conversation\<close>

definition update_conversation :: "conversation_metadata \<Rightarrow> issue_execution \<Rightarrow> issue_execution" where
  "update_conversation c e = e\<lparr>ie_conversation := Some c\<rparr>"

definition update_conversation_token_usage ::
  "u64 \<Rightarrow> u64 \<Rightarrow> u64 \<Rightarrow> u64 \<Rightarrow> issue_execution \<Rightarrow> issue_execution" where
  "update_conversation_token_usage input output cache_read total_tokens e =
     e\<lparr>ie_conversation :=
        map_option (\<lambda>c. set_token_usage c input output cache_read total_tokens) (ie_conversation e)\<rparr>"

section \<open>Interrupts\<close>

definition request_interrupt ::
  "string \<Rightarrow> string option \<Rightarrow> harness_interrupt_reason \<Rightarrow> harness_interrupt_expected_next_state \<Rightarrow>
     timestamp_ms \<Rightarrow> issue_execution \<Rightarrow>
     state_transition_error + (issue_execution \<times> harness_interrupt_command \<times> bool)" where
  "request_interrupt harness_kind turn_id reason expected requested_at e =
     (case current_run e of
        None \<Rightarrow> invalid e ActRequestInterrupt
      | Some run \<Rightarrow>
          (case ie_conversation e of
             None \<Rightarrow> Err ConversationNotAttached
           | Some conversation \<Rightarrow>
               let command =
                     \<lparr>hc_run_id = issue_identifier_str (ra_issue_identifier run),
                      hc_issue_id = ni_id (ie_issue e), hc_harness_kind = harness_kind,
                      hc_conversation_id = cm_conversation_id conversation,
                      hc_turn_id = turn_id, hc_reason = reason,
                      hc_expected_next_state = expected\<rparr>;
                   fresh = Ok (e\<lparr>ie_interrupt := Some (interrupt_requested command requested_at)\<rparr>,
                               command, True)
               in (case ie_interrupt e of
                     None \<Rightarrow> fresh
                   | Some i \<Rightarrow>
                       (case hi_status i of
                          InterruptRequested \<Rightarrow> Ok (e, hi_command i, False)
                        | InterruptAcknowledged \<Rightarrow>
                            Ok (e\<lparr>ie_interrupt := Some (replace_command command i)\<rparr>, command, False)
                        | InterruptFailed \<Rightarrow> fresh
                        | InterruptTimedOut \<Rightarrow> fresh))))"

definition restore_interrupt_intent ::
  "string \<Rightarrow> harness_interrupt_reason \<Rightarrow> harness_interrupt_expected_next_state \<Rightarrow>
     timestamp_ms \<Rightarrow> issue_execution \<Rightarrow> state_transition_error + issue_execution" where
  "restore_interrupt_intent harness_kind reason expected requested_at e =
     (case current_run e of
        None \<Rightarrow> invalid e ActRequestInterrupt
      | Some run \<Rightarrow>
          (case ie_conversation e of
             None \<Rightarrow> Err ConversationNotAttached
           | Some conversation \<Rightarrow>
               Ok (e\<lparr>ie_interrupt := Some
                 (interrupt_fail requested_at ''interrupt request requires retry after recovery''
                   (interrupt_requested
                     \<lparr>hc_run_id = issue_identifier_str (ra_issue_identifier run),
                      hc_issue_id = ni_id (ie_issue e), hc_harness_kind = harness_kind,
                      hc_conversation_id = cm_conversation_id conversation, hc_turn_id = None,
                      hc_reason = reason, hc_expected_next_state = expected\<rparr>
                     requested_at))\<rparr>)))"

definition update_interrupt ::
  "(harness_interrupt_state \<Rightarrow> harness_interrupt_state) \<Rightarrow> issue_execution \<Rightarrow>
     state_transition_error + issue_execution" where
  "update_interrupt f e =
     (case ie_interrupt e of
        None \<Rightarrow> invalid e ActUpdateInterrupt
      | Some i \<Rightarrow> Ok (e\<lparr>ie_interrupt := Some (f i)\<rparr>))"

definition acknowledge_interrupt ::
  "timestamp_ms \<Rightarrow> issue_execution \<Rightarrow> state_transition_error + issue_execution" where
  "acknowledge_interrupt t e = update_interrupt (interrupt_acknowledge t) e"

definition fail_interrupt ::
  "timestamp_ms \<Rightarrow> string \<Rightarrow> issue_execution \<Rightarrow> state_transition_error + issue_execution" where
  "fail_interrupt t detail e = update_interrupt (interrupt_fail t detail) e"

definition timeout_interrupt ::
  "timestamp_ms \<Rightarrow> string \<Rightarrow> issue_execution \<Rightarrow> state_transition_error + issue_execution" where
  "timeout_interrupt t detail e = update_interrupt (interrupt_timeout t detail) e"

section \<open>Bindings\<close>

text \<open>The last check of \<open>validate_run_binding\<close>: the run works in the attached workspace.\<close>

definition validate_run_workspace ::
  "(path \<Rightarrow> path option) \<Rightarrow> issue_execution \<Rightarrow> run_attempt \<Rightarrow> state_transition_error + unit" where
  "validate_run_workspace canon e run =
     (case ie_workspace e of
        None \<Rightarrow> Err (WorkspaceNotAttached (ra_workspace_path run))
      | Some w \<Rightarrow>
          let expected = comparable_workspace_path canon (wr_path w);
              actual = comparable_workspace_path canon (ra_workspace_path run)
          in if expected \<noteq> actual then Err (WorkspacePathMismatch expected actual) else Ok ())"

text \<open>\<open>issue_workspace_key\<close> panics on an empty identifier, which no \<open>IssueIdentifier\<close> has
  (\<open>issue_identifier_new\<close>); the panic is the \<open>None\<close> of the key.\<close>

definition issue_workspace_key :: "normalized_issue \<Rightarrow> workspace_key option" where
  "issue_workspace_key issue =
     (case workspace_key_new (issue_identifier_str (ni_identifier issue)) of
        Ok key \<Rightarrow> Some key
      | Err _ \<Rightarrow> None)"

definition validate_run_binding ::
  "(path \<Rightarrow> path option) \<Rightarrow> issue_execution \<Rightarrow> run_attempt \<Rightarrow> state_transition_error + unit" where
  "validate_run_binding canon e run =
     (if ra_issue_id run \<noteq> ni_id (ie_issue e)
      then Err (IssueMismatch (ni_id (ie_issue e)) (ra_issue_id run))
      else
        let actual_id = map_option (\<lambda>b. ri_id (rb_repository b)) (ra_repository_binding run) in
        case Option.bind (ni_repository_binding (ie_issue e)) resolved_binding of
          Some expected \<Rightarrow>
            if actual_id \<noteq> Some (ri_id (rb_repository expected))
            then Err (RepositoryBindingChanged (Some (ri_id (rb_repository expected))) actual_id)
            else validate_run_workspace canon e run
        | None \<Rightarrow> validate_run_workspace canon e run)"

definition validate_retry_binding ::
  "issue_execution \<Rightarrow> retry_entry \<Rightarrow> state_transition_error + unit" where
  "validate_retry_binding e r =
     (if re_issue_id r \<noteq> ni_id (ie_issue e)
      then Err (IssueMismatch (ni_id (ie_issue e)) (re_issue_id r)) else Ok ())"

definition validate_outcome_binding ::
  "run_attempt \<Rightarrow> worker_outcome_record \<Rightarrow> state_transition_error + unit" where
  "validate_outcome_binding run out =
     (if wo_worker_id out \<noteq> ra_worker_id run
      then Err (WorkerMismatch (ra_worker_id run) (wo_worker_id out))
      else if wo_attempt out \<noteq> ra_attempt run
      then Err (AttemptMismatch (ra_attempt run) (wo_attempt out))
      else Ok ())"

section \<open>Transitions\<close>

definition restore_retry ::
  "retry_entry \<Rightarrow> issue_execution \<Rightarrow> state_transition_error + issue_execution" where
  "restore_retry r e =
     (case validate_retry_binding e r of
        Err err \<Rightarrow> Err err
      | Ok _ \<Rightarrow>
          if status e \<noteq> Unclaimed then invalid e ActQueueRetry
          else Ok (e\<lparr>ie_state := SRetryQueued r\<rparr>))"

text \<open>The outer \<open>None\<close> is the panic of \<open>issue_workspace_key\<close>.\<close>

definition attach_workspace ::
  "(path \<Rightarrow> path option) \<Rightarrow> workspace_record \<Rightarrow> issue_execution \<Rightarrow>
     (state_transition_error + issue_execution) option" where
  "attach_workspace canon w e =
     (let actual_path = comparable_workspace_path canon (wr_path w);
          attached = Ok (e\<lparr>ie_workspace := Some w\<rparr>) in
      case ie_workspace e of
        Some current \<Rightarrow>
          let expected_path = comparable_workspace_path canon (wr_path current);
              replacement_generation =
                (status e = RetryQueued \<and> wr_workspace_key current = wr_workspace_key w)
          in Some (if wr_workspace_key current \<noteq> wr_workspace_key w \<or>
                      expected_path \<noteq> actual_path \<and> \<not> replacement_generation
                   then Err (WorkspaceIdentityMismatch (wr_workspace_key current)
                          (wr_workspace_key w) expected_path actual_path)
                   else attached)
      | None \<Rightarrow>
          (case issue_workspace_key (ie_issue e) of
             None \<Rightarrow> None
           | Some expected_key \<Rightarrow> Some
               (if \<not> workspace_key_matches_issue (wr_workspace_key w) expected_key \<or>
                   \<not> workspace_path_matches_key actual_path (wr_workspace_key w)
                then Err (WorkspaceIssueMismatch expected_key (wr_workspace_key w) actual_path)
                else attached)))"

definition claim ::
  "(path \<Rightarrow> path option) \<Rightarrow> run_attempt \<Rightarrow> issue_execution \<Rightarrow>
     state_transition_error + issue_execution" where
  "claim canon run e =
     (case validate_run_binding canon e run of
        Err err \<Rightarrow> Err err
      | Ok _ \<Rightarrow>
          let claimed = \<lambda>count. Ok (e\<lparr>ie_state := SClaimed (with_normal_retry_count count run),
                                       ie_interrupt := None\<rparr>) in
          case ie_state e of
            SUnclaimed _ \<Rightarrow>
              if ra_attempt run \<noteq> None then Err (AttemptMismatch None (ra_attempt run))
              else claimed 0
          | SRetryQueued r \<Rightarrow>
              if ra_attempt run \<noteq> Some (re_attempt r)
              then Err (AttemptMismatch (Some (re_attempt r)) (ra_attempt run))
              else claimed (re_normal_retry_count r)
          | _ \<Rightarrow> invalid e ActClaim)"

definition start_running ::
  "timestamp_ms \<Rightarrow> duration_ms \<Rightarrow> conversation_metadata option \<Rightarrow> issue_execution \<Rightarrow>
     state_transition_error + issue_execution" where
  "start_running started_at stall_timeout session e =
     (case ie_state e of
        SClaimed run \<Rightarrow>
          (let e = (case session of Some s \<Rightarrow> e\<lparr>ie_conversation := Some s\<rparr> | None \<Rightarrow> e) in
           if ie_conversation e = None then Err ConversationNotAttached
           else Ok (e\<lparr>ie_state := SRunning (mark_started started_at run)
                                    (stall_new started_at stall_timeout)\<rparr>))
      | _ \<Rightarrow> invalid e ActStartRunning)"

definition record_turn_started ::
  "timestamp_ms \<Rightarrow> issue_execution \<Rightarrow> state_transition_error + issue_execution" where
  "record_turn_started t e =
     (case ie_state e of
        SRunning run stall \<Rightarrow>
          Ok (e\<lparr>ie_state := SRunning (run_record_turn_started run) (fst (observe_activity stall t))\<rparr>)
      | _ \<Rightarrow> invalid e ActRecordTurnStarted)"

definition observe_runtime_event ::
  "timestamp_ms \<Rightarrow> string option \<Rightarrow> string option \<Rightarrow> string option \<Rightarrow> json option \<Rightarrow>
     issue_execution \<Rightarrow> state_transition_error + issue_execution" where
  "observe_runtime_event t event_id kind summary payload e =
     (case ie_state e of
        SRunning run stall \<Rightarrow>
          Ok (e\<lparr>ie_conversation :=
                  map_option (\<lambda>c. observe_event c t event_id kind summary payload) (ie_conversation e),
                ie_state := SRunning run (fst (observe_activity stall t))\<rparr>)
      | _ \<Rightarrow> invalid e ActObserveRuntimeEvent)"

definition observe_operator_resolution :: "timestamp_ms \<Rightarrow> issue_execution \<Rightarrow> issue_execution" where
  "observe_operator_resolution t e =
     (case ie_state e of
        SRunning run stall \<Rightarrow> e\<lparr>ie_state := SRunning run (fst (observe_activity stall t))\<rparr>
      | _ \<Rightarrow> e)"

definition queue_retry ::
  "retry_entry \<Rightarrow> worker_outcome_record \<Rightarrow> issue_execution \<Rightarrow>
     state_transition_error + issue_execution" where
  "queue_retry r out e =
     (case validate_retry_binding e r of
        Err err \<Rightarrow> Err err
      | Ok _ \<Rightarrow>
          (case current_run e of
             None \<Rightarrow> invalid e ActQueueRetry
           | Some run \<Rightarrow>
               (case validate_outcome_binding run out of
                  Err err \<Rightarrow> Err err
                | Ok _ \<Rightarrow>
                    let expected = (case attempt_after (ra_attempt run) of Ok a \<Rightarrow> Some a | Err _ \<Rightarrow> None) in
                    if expected \<noteq> Some (re_attempt r)
                    then Err (AttemptMismatch expected (Some (re_attempt r)))
                    else Ok ((record_outcome out e)\<lparr>ie_state := SRetryQueued r\<rparr>))))"

definition release ::
  "timestamp_ms \<Rightarrow> release_reason \<Rightarrow> worker_outcome_record option \<Rightarrow> issue_execution \<Rightarrow>
     state_transition_error + issue_execution" where
  "release t reason out e =
     (if status e = Released then invalid e ActRelease
      else
        let e = (case out of Some out \<Rightarrow> record_outcome out e | None \<Rightarrow> e)
        in Ok (e\<lparr>ie_state := SReleased t reason\<rparr>))"

definition replace_release_reason ::
  "timestamp_ms \<Rightarrow> release_reason \<Rightarrow> issue_execution \<Rightarrow>
     state_transition_error + issue_execution" where
  "replace_release_reason t reason e =
     (if status e \<noteq> Released then invalid e ActRelease
      else Ok (e\<lparr>ie_state := SReleased t reason\<rparr>))"

definition reopen ::
  "timestamp_ms \<Rightarrow> issue_execution \<Rightarrow> state_transition_error + issue_execution" where
  "reopen t e =
     (case ie_state e of
        SReleased _ reason \<Rightarrow>
          (let e = (if preserves_reactivation_state reason then e
                    else e\<lparr>ie_workspace := None, ie_conversation := None, ie_interrupt := None\<rparr>)
           in Ok (e\<lparr>ie_state := SUnclaimed t\<rparr>))
      | _ \<Rightarrow> invalid e ActReopen)"

end
