(* ===== verification/Executions.thy ===== *)
theory Executions
  imports State_Machine
begin

text \<open>
  What the transitions of \<open>state_machine.rs\<close> guarantee together: the step relation of an
  issue's execution, the invariant of every reachable execution, the abstract status machine
  that the transitions refine, and the contracts of claiming, retrying and interrupting.
\<close>

section \<open>The step relation\<close>

datatype exec_action =
    DoRefresh | DoClearWorkspace | DoSetOverride | DoRetainOutcome | DoUpdateConversation
  | DoUpdateTokens | DoRequestInterrupt | DoRestoreInterrupt | DoUpdateInterrupt | DoRestoreRetry
  | DoAttachWorkspace | DoClaim | DoStartRunning | DoRecordTurn | DoObserveEvent
  | DoOperatorResolution | DoQueueRetry | DoRelease | DoReplaceReason | DoReopen

inductive exec_step ::
  "(path \<Rightarrow> path option) \<Rightarrow> issue_execution \<Rightarrow> exec_action \<Rightarrow> issue_execution \<Rightarrow> bool"
  for canon where
  step_refresh: "refresh_issue e issue = Ok e' \<Longrightarrow> exec_step canon e DoRefresh e'"
| step_clear: "exec_step canon e DoClearWorkspace (clear_workspace e)"
| step_override: "exec_step canon e DoSetOverride (set_retry_count_override n e)"
| step_retain: "exec_step canon e DoRetainOutcome (retain_worker_outcome out e)"
| step_conversation: "exec_step canon e DoUpdateConversation (update_conversation c e)"
| step_tokens: "exec_step canon e DoUpdateTokens (update_conversation_token_usage i out cr tot e)"
| step_request:
    "request_interrupt kind turn reason expected t e = Ok (e', command, dispatch) \<Longrightarrow>
       exec_step canon e DoRequestInterrupt e'"
| step_restore_interrupt:
    "restore_interrupt_intent kind reason expected t e = Ok e' \<Longrightarrow>
       exec_step canon e DoRestoreInterrupt e'"
| step_acknowledge: "acknowledge_interrupt t e = Ok e' \<Longrightarrow> exec_step canon e DoUpdateInterrupt e'"
| step_fail: "fail_interrupt t d e = Ok e' \<Longrightarrow> exec_step canon e DoUpdateInterrupt e'"
| step_timeout: "timeout_interrupt t d e = Ok e' \<Longrightarrow> exec_step canon e DoUpdateInterrupt e'"
| step_restore_retry: "restore_retry r e = Ok e' \<Longrightarrow> exec_step canon e DoRestoreRetry e'"
| step_attach: "attach_workspace canon w e = Some (Ok e') \<Longrightarrow> exec_step canon e DoAttachWorkspace e'"
| step_claim: "claim canon run e = Ok e' \<Longrightarrow> exec_step canon e DoClaim e'"
| step_start: "start_running t timeout session e = Ok e' \<Longrightarrow> exec_step canon e DoStartRunning e'"
| step_turn: "record_turn_started t e = Ok e' \<Longrightarrow> exec_step canon e DoRecordTurn e'"
| step_event: "observe_runtime_event t i k s p e = Ok e' \<Longrightarrow> exec_step canon e DoObserveEvent e'"
| step_operator: "exec_step canon e DoOperatorResolution (observe_operator_resolution t e)"
| step_queue_retry: "queue_retry r out e = Ok e' \<Longrightarrow> exec_step canon e DoQueueRetry e'"
| step_release: "release t reason o' e = Ok e' \<Longrightarrow> exec_step canon e DoRelease e'"
| step_replace: "replace_release_reason t reason e = Ok e' \<Longrightarrow> exec_step canon e DoReplaceReason e'"
| step_reopen: "reopen t e = Ok e' \<Longrightarrow> exec_step canon e DoReopen e'"

inductive exec_reachable ::
  "(path \<Rightarrow> path option) \<Rightarrow> normalized_issue \<Rightarrow> issue_execution \<Rightarrow> bool" for canon issue where
  reach_new: "exec_reachable canon issue (execution_new issue t)"
| reach_step: "exec_reachable canon issue e \<Longrightarrow> exec_step canon e act e' \<Longrightarrow>
                 exec_reachable canon issue e'"

section \<open>Results of the transitions\<close>

text \<open>What an accepted transition returns, in the form the invariant proofs use.\<close>

named_theorems exec_results

lemma refresh_Ok [exec_results]:
  "refresh_issue e issue = Ok e' \<longleftrightarrow>
     e' = e\<lparr>ie_issue := issue\<rparr> \<and> ni_id issue = ni_id (ie_issue e) \<and>
     (status e \<in> {Claimed, Running} \<longrightarrow>
        \<not> canonical_identity_changed_opt (ni_repository_binding (ie_issue e))
            (ni_repository_binding issue))"
  by (auto simp: refresh_issue_def)

lemma update_interrupt_Ok [exec_results]:
  "update_interrupt f e = Ok e' \<longleftrightarrow>
     (\<exists>i. ie_interrupt e = Some i \<and> e' = e\<lparr>ie_interrupt := Some (f i)\<rparr>)"
  by (auto simp: update_interrupt_def invalid_def split: option.splits)

lemma restore_retry_Ok [exec_results]:
  "restore_retry r e = Ok e' \<longleftrightarrow>
     re_issue_id r = ni_id (ie_issue e) \<and> status e = Unclaimed \<and> e' = e\<lparr>ie_state := SRetryQueued r\<rparr>"
  by (auto simp: restore_retry_def validate_retry_binding_def invalid_def)

lemma queue_retry_Ok [exec_results]:
  "queue_retry r out e = Ok e' \<longleftrightarrow>
     re_issue_id r = ni_id (ie_issue e) \<and>
     (\<exists>run. current_run e = Some run \<and> wo_worker_id out = ra_worker_id run \<and>
            wo_attempt out = ra_attempt run \<and> attempt_after (ra_attempt run) = Ok (re_attempt r)) \<and>
     e' = (record_outcome out e)\<lparr>ie_state := SRetryQueued r\<rparr>"
  by (auto simp: queue_retry_def validate_retry_binding_def validate_outcome_binding_def
      invalid_def Let_def split: option.splits sum.splits if_splits)

lemma release_Ok [exec_results]:
  "release t reason out e = Ok e' \<longleftrightarrow>
     status e \<noteq> Released \<and>
     e' = (case out of Some out \<Rightarrow> record_outcome out e | None \<Rightarrow> e)\<lparr>ie_state := SReleased t reason\<rparr>"
  by (auto simp: release_def invalid_def Let_def)

lemma replace_reason_Ok [exec_results]:
  "replace_release_reason t reason e = Ok e' \<longleftrightarrow>
     status e = Released \<and> e' = e\<lparr>ie_state := SReleased t reason\<rparr>"
  by (auto simp: replace_release_reason_def invalid_def)

lemma reopen_Ok [exec_results]:
  "reopen t e = Ok e' \<longleftrightarrow>
     (\<exists>t0 reason. ie_state e = SReleased t0 reason \<and>
        e' = (if preserves_reactivation_state reason then e
              else e\<lparr>ie_workspace := None, ie_conversation := None, ie_interrupt := None\<rparr>)
             \<lparr>ie_state := SUnclaimed t\<rparr>)"
  by (cases "ie_state e") (auto simp: reopen_def invalid_def Let_def)

lemma start_running_Ok [exec_results]:
  "start_running t timeout session e = Ok e' \<longleftrightarrow>
     (\<exists>run c. ie_state e = SClaimed run \<and> or_else session (ie_conversation e) = Some c \<and>
        e' = e\<lparr>ie_conversation := Some c,
               ie_state := SRunning (mark_started t run) (stall_new t timeout)\<rparr>)"
  by (cases "ie_state e"; cases session)
    (auto simp: start_running_def invalid_def Let_def or_else_def split: option.splits)

lemma record_turn_Ok [exec_results]:
  "record_turn_started t e = Ok e' \<longleftrightarrow>
     (\<exists>run stall. ie_state e = SRunning run stall \<and>
        e' = e\<lparr>ie_state := SRunning (run_record_turn_started run) (fst (observe_activity stall t))\<rparr>)"
  by (cases "ie_state e") (auto simp: record_turn_started_def invalid_def)

lemma observe_runtime_event_Ok [exec_results]:
  "observe_runtime_event t i k s p e = Ok e' \<longleftrightarrow>
     (\<exists>run stall. ie_state e = SRunning run stall \<and>
        e' = e\<lparr>ie_conversation := map_option (\<lambda>c. observe_event c t i k s p) (ie_conversation e),
               ie_state := SRunning run (fst (observe_activity stall t))\<rparr>)"
  by (cases "ie_state e") (auto simp: observe_runtime_event_def invalid_def)

text \<open>What a run must be bound to, and the two states a claim starts from.\<close>

definition run_bound :: "issue_execution \<Rightarrow> run_attempt \<Rightarrow> bool" where
  "run_bound e run \<longleftrightarrow>
     ra_issue_id run = ni_id (ie_issue e) \<and>
     (\<forall>b. Option.bind (ni_repository_binding (ie_issue e)) resolved_binding = Some b \<longrightarrow>
          map_option (\<lambda>b. ri_id (rb_repository b)) (ra_repository_binding run) =
            Some (ri_id (rb_repository b)))"

definition run_in_workspace :: "(path \<Rightarrow> path option) \<Rightarrow> issue_execution \<Rightarrow> run_attempt \<Rightarrow> bool" where
  "run_in_workspace canon e run \<longleftrightarrow>
     is_some_and (\<lambda>w. comparable_workspace_path canon (wr_path w) =
                       comparable_workspace_path canon (ra_workspace_path run)) (ie_workspace e)"

fun claimable_as :: "scheduler_state \<Rightarrow> (retry_attempt option \<times> u32) option" where
  "claimable_as (SUnclaimed _) = Some (None, 0)"
| "claimable_as (SRetryQueued r) = Some (Some (re_attempt r), re_normal_retry_count r)"
| "claimable_as _ = None"

lemma validate_run_binding_Ok:
  "validate_run_binding canon e run = Ok () \<longleftrightarrow> run_bound e run \<and> run_in_workspace canon e run"
  by (auto simp: validate_run_binding_def validate_run_workspace_def run_bound_def
      run_in_workspace_def is_some_and_def Let_def split: option.splits)

lemma claim_Ok [exec_results]:
  "claim canon run e = Ok e' \<longleftrightarrow>
     run_bound e run \<and> run_in_workspace canon e run \<and>
     (\<exists>count. claimable_as (ie_state e) = Some (ra_attempt run, count) \<and>
        e' = e\<lparr>ie_state := SClaimed (with_normal_retry_count count run), ie_interrupt := None\<rparr>)"
proof (cases "validate_run_binding canon e run")
  case (Inr u)
  then show ?thesis using validate_run_binding_Ok [of canon e run]
    by (cases "ie_state e") (auto simp: claim_def invalid_def Let_def)
qed (use validate_run_binding_Ok [of canon e run] in \<open>auto simp: claim_def\<close>)

lemma attach_Ok [exec_results]:
  "attach_workspace canon w e = Some (Ok e') \<Longrightarrow> e' = e\<lparr>ie_workspace := Some w\<rparr>"
  by (auto simp: attach_workspace_def Let_def split: option.splits if_splits)

lemma request_interrupt_Ok:
  "request_interrupt kind turn reason expected t e = Ok (e', command, dispatch) \<Longrightarrow>
     \<exists>i. e' = e\<lparr>ie_interrupt := Some i\<rparr> \<and> hc_issue_id command = ni_id (ie_issue e) \<or> e' = e"
  by (auto simp: request_interrupt_def invalid_def Let_def
      split: option.splits harness_interrupt_status.splits)

section \<open>The invariant\<close>

definition outcomes_inv :: "issue_execution \<Rightarrow> bool" where
  "outcomes_inv e \<longleftrightarrow>
     length (ie_recent_worker_outcomes e) \<le> max_recent_worker_outcomes \<and>
     ie_last_worker_outcome e =
       (if ie_recent_worker_outcomes e = [] then None else Some (last (ie_recent_worker_outcomes e)))"

fun state_inv :: "issue_execution \<Rightarrow> scheduler_state \<Rightarrow> bool" where
  "state_inv e (SClaimed run) = run_bound e run"
| "state_inv e (SRunning run stall) =
     (run_bound e run \<and> ra_started_at run = Some (sm_started_at stall) \<and> stall_inv stall)"
| "state_inv e (SRetryQueued r) = (re_issue_id r = ni_id (ie_issue e))"
| "state_inv e _ = True"

definition interrupt_inv :: "issue_execution \<Rightarrow> bool" where
  "interrupt_inv e \<longleftrightarrow>
     (\<forall>i. ie_interrupt e = Some i \<longrightarrow> hc_issue_id (hi_command i) = ni_id (ie_issue e))"

definition exec_inv :: "issue_execution \<Rightarrow> bool" where
  "exec_inv e \<longleftrightarrow> outcomes_inv e \<and> state_inv e (ie_state e) \<and> interrupt_inv e"

subsection \<open>Frames\<close>

text \<open>The invariant depends on the issue only through its id and resolved repository.\<close>

lemma outcomes_inv_frame [simp]:
  "outcomes_inv (e\<lparr>ie_issue := a\<rparr>) = outcomes_inv e"
  "outcomes_inv (e\<lparr>ie_workspace := w\<rparr>) = outcomes_inv e"
  "outcomes_inv (e\<lparr>ie_conversation := c\<rparr>) = outcomes_inv e"
  "outcomes_inv (e\<lparr>ie_interrupt := i\<rparr>) = outcomes_inv e"
  "outcomes_inv (e\<lparr>ie_state := st\<rparr>) = outcomes_inv e"
  "outcomes_inv (e\<lparr>ie_retry_count_override := n\<rparr>) = outcomes_inv e"
  by (simp_all add: outcomes_inv_def)

lemma run_bound_frame [simp]:
  "run_bound (e\<lparr>ie_workspace := w\<rparr>) run = run_bound e run"
  "run_bound (e\<lparr>ie_conversation := c\<rparr>) run = run_bound e run"
  "run_bound (e\<lparr>ie_interrupt := i\<rparr>) run = run_bound e run"
  "run_bound (e\<lparr>ie_state := st\<rparr>) run = run_bound e run"
  "run_bound (e\<lparr>ie_retry_count_override := n\<rparr>) run = run_bound e run"
  "run_bound (e\<lparr>ie_last_worker_outcome := l\<rparr>) run = run_bound e run"
  "run_bound (e\<lparr>ie_recent_worker_outcomes := ls\<rparr>) run = run_bound e run"
  "run_bound e (with_normal_retry_count k run) = run_bound e run"
  "run_bound e (mark_started t run) = run_bound e run"
  "run_bound e (run_record_turn_started run) = run_bound e run"
  by (simp_all add: run_bound_def with_normal_retry_count_def mark_started_def
      run_record_turn_started_def)

lemma state_inv_cong:
  assumes "ie_issue e' = ie_issue e"
  shows "state_inv e' st = state_inv e st"
  using assms by (cases st) (simp_all add: run_bound_def)

lemma interrupt_inv_frame [simp]:
  "interrupt_inv (e\<lparr>ie_workspace := w\<rparr>) = interrupt_inv e"
  "interrupt_inv (e\<lparr>ie_conversation := c\<rparr>) = interrupt_inv e"
  "interrupt_inv (e\<lparr>ie_state := st\<rparr>) = interrupt_inv e"
  "interrupt_inv (e\<lparr>ie_retry_count_override := n\<rparr>) = interrupt_inv e"
  "interrupt_inv (e\<lparr>ie_interrupt := None\<rparr>)"
  "interrupt_inv (e\<lparr>ie_interrupt := Some i\<rparr>) \<longleftrightarrow> hc_issue_id (hi_command i) = ni_id (ie_issue e)"
  by (simp_all add: interrupt_inv_def)

lemma interrupt_command [simp]:
  "hi_command (interrupt_acknowledge t i) = hi_command i"
  "hi_command (interrupt_fail t d i) = hi_command i"
  "hi_command (interrupt_timeout t d i) = hi_command i"
  "hi_command (interrupt_requested c t) = c"
  "hi_command (replace_command c i) = c"
  by (simp_all add: interrupt_acknowledge_def interrupt_fail_def interrupt_timeout_def
      interrupt_requested_def replace_command_def)

subsection \<open>Recording an outcome\<close>

lemma record_outcome_frame [simp]:
  "ie_issue (record_outcome out e) = ie_issue e"
  "ie_workspace (record_outcome out e) = ie_workspace e"
  "ie_conversation (record_outcome out e) = ie_conversation e"
  "ie_state (record_outcome out e) = ie_state e"
  "ie_last_worker_outcome (record_outcome out e) = Some out"
  "ie_retry_count_override (record_outcome out e) = ie_retry_count_override e"
  "ie_interrupt (record_outcome out e) = fail_requested_interrupt out (ie_interrupt e)"
  by (simp_all add: record_outcome_def Let_def)

lemma record_outcome_outcomes: "outcomes_inv e \<Longrightarrow> outcomes_inv (record_outcome out e)"
  by (auto simp: outcomes_inv_def record_outcome_def max_recent_worker_outcomes_def Let_def)

lemma record_outcome_interrupt: "interrupt_inv e \<Longrightarrow> interrupt_inv (record_outcome out e)"
  by (auto simp: interrupt_inv_def fail_requested_interrupt_def split: option.splits if_splits)

lemma record_outcome_inv: "exec_inv e \<Longrightarrow> exec_inv (record_outcome out e)"
  using state_inv_cong [of "record_outcome out e" e "ie_state e"]
  by (simp add: exec_inv_def record_outcome_outcomes record_outcome_interrupt)

subsection \<open>Preservation\<close>

lemma refresh_run_bound:
  assumes "run_bound e run" and "ni_id issue = ni_id (ie_issue e)"
    and "\<not> canonical_identity_changed_opt (ni_repository_binding (ie_issue e))
          (ni_repository_binding issue)"
  shows "run_bound (e\<lparr>ie_issue := issue\<rparr>) run"
  using assms
  by (cases "ni_repository_binding (ie_issue e)"; cases "ni_repository_binding issue")
    (auto simp: run_bound_def canonical_identity_changed_def repository_id_def split: option.splits)

lemma exec_inv_refresh:
  assumes "exec_inv e" and r: "refresh_issue e issue = Ok e'"
  shows "exec_inv e'"
proof -
  have "state_inv (e\<lparr>ie_issue := issue\<rparr>) (ie_state e)"
    using assms r
    by (cases "ie_state e")
      (auto simp: exec_inv_def refresh_Ok status_def intro: refresh_run_bound)
  with assms r show ?thesis by (auto simp: exec_inv_def refresh_Ok interrupt_inv_def)
qed

lemma exec_inv_state:
  "exec_inv e \<Longrightarrow> state_inv e st \<Longrightarrow> exec_inv (e\<lparr>ie_state := st\<rparr>)"
  using state_inv_cong [of "e\<lparr>ie_state := st\<rparr>" e st] by (simp add: exec_inv_def)

lemma exec_inv_other [simp]:
  "exec_inv (e\<lparr>ie_workspace := w\<rparr>) = exec_inv e"
  "exec_inv (e\<lparr>ie_conversation := c\<rparr>) = exec_inv e"
  "exec_inv (e\<lparr>ie_retry_count_override := n\<rparr>) = exec_inv e"
  using state_inv_cong [of "e\<lparr>ie_workspace := w\<rparr>" e "ie_state e"]
    state_inv_cong [of "e\<lparr>ie_conversation := c\<rparr>" e "ie_state e"]
    state_inv_cong [of "e\<lparr>ie_retry_count_override := n\<rparr>" e "ie_state e"]
  by (simp_all add: exec_inv_def)

lemma exec_inv_interrupt:
  "exec_inv e \<Longrightarrow> interrupt_inv (e\<lparr>ie_interrupt := i\<rparr>) \<Longrightarrow> exec_inv (e\<lparr>ie_interrupt := i\<rparr>)"
  using state_inv_cong [of "e\<lparr>ie_interrupt := i\<rparr>" e "ie_state e"] by (simp add: exec_inv_def)

lemma request_interrupt_inv:
  assumes "request_interrupt kind turn reason expected t e = Ok (e', command, dispatch)"
    and "exec_inv e"
  shows "exec_inv e'"
  using assms
  by (auto simp: request_interrupt_def invalid_def Let_def intro: exec_inv_interrupt
      split: option.splits harness_interrupt_status.splits)

lemma restore_interrupt_inv:
  assumes "restore_interrupt_intent kind reason expected t e = Ok e'" and "exec_inv e"
  shows "exec_inv e'"
  using assms
  by (auto simp: restore_interrupt_intent_def invalid_def intro: exec_inv_interrupt
      split: option.splits)

lemma update_interrupt_inv:
  assumes "update_interrupt f e = Ok e'" and "exec_inv e" and "\<And>i. hi_command (f i) = hi_command i"
  shows "exec_inv e'"
proof -
  from assms(1) obtain i where i: "ie_interrupt e = Some i" "e' = e\<lparr>ie_interrupt := Some (f i)\<rparr>"
    by (auto simp: update_interrupt_Ok)
  then have "interrupt_inv e'" using assms(2,3) by (simp add: exec_inv_def interrupt_inv_def)
  with i assms(2) show ?thesis using exec_inv_interrupt by blast
qed

lemma claim_inv: "claim canon run e = Ok e' \<Longrightarrow> exec_inv e \<Longrightarrow> exec_inv e'"
proof -
  assume c: "claim canon run e = Ok e'" and inv: "exec_inv e"
  then obtain count where b: "run_bound e run"
      "e' = e\<lparr>ie_state := SClaimed (with_normal_retry_count count run), ie_interrupt := None\<rparr>"
    by (auto simp: claim_Ok)
  with inv have "exec_inv (e\<lparr>ie_state := SClaimed (with_normal_retry_count count run)\<rparr>)"
    by (intro exec_inv_state) simp_all
  with b show ?thesis by (auto intro: exec_inv_interrupt)
qed

lemma running_inv:
  assumes "exec_inv e" and "ie_state e = SRunning run stall"
  shows "state_inv e (SRunning run (fst (observe_activity stall t)))"
    and "state_inv e (SRunning (run_record_turn_started run) (fst (observe_activity stall t)))"
  using assms by (simp_all add: exec_inv_def run_record_turn_started_def [abs_def] run_bound_def
      stall_inv_observe)

lemma started_stall [simp]:
  "sm_started_at (stall_with_runtime_cap t idle cap) = t"
  "ra_started_at (mark_started t run) = Some t"
  by (simp_all add: stall_with_runtime_cap_def Let_def mark_started_def)

lemma start_running_inv:
  assumes "start_running t timeout session e = Ok e'" and "exec_inv e"
  shows "exec_inv e'"
proof -
  from assms(1) obtain run c where r: "ie_state e = SClaimed run" "e' = (e\<lparr>ie_conversation := Some c\<rparr>)
      \<lparr>ie_state := SRunning (mark_started t run) (stall_new t timeout)\<rparr>"
    by (auto simp: start_running_Ok)
  have "state_inv (e\<lparr>ie_conversation := Some c\<rparr>) (SRunning (mark_started t run) (stall_new t timeout))"
    using assms(2) r(1)
    by (simp add: exec_inv_def stall_new_def stall_inv_new started_stall)
  with r(2) assms(2) show ?thesis by (simp only: exec_inv_state exec_inv_other)
qed

lemma operator_resolution_inv: "exec_inv e \<Longrightarrow> exec_inv (observe_operator_resolution t e)"
  using running_inv(1) [of e]
  by (cases "ie_state e") (auto simp: observe_operator_resolution_def intro!: exec_inv_state)

lemma reopen_inv: "reopen t e = Ok e' \<Longrightarrow> exec_inv e \<Longrightarrow> exec_inv e'"
proof -
  assume "reopen t e = Ok e'" and inv: "exec_inv e"
  then consider "e' = e\<lparr>ie_state := SUnclaimed t\<rparr>"
    | "e' = (e\<lparr>ie_workspace := None, ie_conversation := None, ie_interrupt := None\<rparr>)\<lparr>ie_state := SUnclaimed t\<rparr>"
    by (auto simp: reopen_Ok split: if_splits)
  then show ?thesis
  proof cases
    case 2
    have "exec_inv (e\<lparr>ie_workspace := None, ie_conversation := None, ie_interrupt := None\<rparr>)"
      using inv by (intro exec_inv_interrupt) simp_all
    with 2 show ?thesis by (simp add: exec_inv_state)
  qed (simp add: inv exec_inv_state)
qed

lemma queue_retry_inv: "queue_retry r out e = Ok e' \<Longrightarrow> exec_inv e \<Longrightarrow> exec_inv e'"
  using exec_inv_state [OF record_outcome_inv, of e out "SRetryQueued r"]
  by (auto simp: queue_retry_Ok)

lemma release_inv: "release t reason o' e = Ok e' \<Longrightarrow> exec_inv e \<Longrightarrow> exec_inv e'"
  using record_outcome_inv by (auto simp: release_Ok intro!: exec_inv_state split: option.splits)

lemma exec_step_inv: "exec_step canon e act e' \<Longrightarrow> exec_inv e \<Longrightarrow> exec_inv e'"
proof (induction rule: exec_step.induct)
  case (step_turn t e e')
  then show ?case using running_inv(2) by (auto simp: record_turn_Ok intro!: exec_inv_state)
next
  case (step_event t i k s p e e')
  then obtain run stall where r: "ie_state e = SRunning run stall"
      "e' = (e\<lparr>ie_conversation := map_option (\<lambda>c. observe_event c t i k s p) (ie_conversation e)\<rparr>)
        \<lparr>ie_state := SRunning run (fst (observe_activity stall t))\<rparr>"
    by (auto simp: observe_runtime_event_Ok)
  show ?case unfolding r(2)
    by (rule exec_inv_state) (use running_inv(1) [of e] r(1) step_event.prems in simp_all)
qed (auto simp: acknowledge_interrupt_def fail_interrupt_def timeout_interrupt_def
      clear_workspace_def set_retry_count_override_def retain_worker_outcome_def
      update_conversation_def update_conversation_token_usage_def restore_retry_Ok
      replace_reason_Ok
    intro: exec_inv_refresh request_interrupt_inv restore_interrupt_inv update_interrupt_inv
      claim_inv start_running_inv operator_resolution_inv reopen_inv queue_retry_inv release_inv
      record_outcome_inv exec_inv_state dest!: attach_Ok)

lemma exec_step_issue: "exec_step canon e act e' \<Longrightarrow> ni_id (ie_issue e') = ni_id (ie_issue e)"
  by (induction rule: exec_step.induct)
    (auto simp: exec_results acknowledge_interrupt_def fail_interrupt_def timeout_interrupt_def
      clear_workspace_def set_retry_count_override_def retain_worker_outcome_def
      update_conversation_def update_conversation_token_usage_def restore_interrupt_intent_def
      observe_operator_resolution_def invalid_def dest!: attach_Ok request_interrupt_Ok
      split: option.splits scheduler_state.splits)

lemma reachable_inv:
  "exec_reachable canon issue e \<Longrightarrow> exec_inv e \<and> ni_id (ie_issue e) = ni_id issue"
proof (induction rule: exec_reachable.induct)
  case (reach_new t)
  then show ?case
    by (simp add: execution_new_def exec_inv_def outcomes_inv_def interrupt_inv_def
        max_recent_worker_outcomes_def)
qed (auto simp: exec_step_issue exec_step_inv)

section \<open>The abstract status machine\<close>

text \<open>The scheduler's view of an execution: its status, and for each action the one status it
  leads to, or \<open>None\<close> where the action is refused.\<close>

definition holding :: "scheduler_status \<Rightarrow> bool" where
  "holding st \<longleftrightarrow> st = Claimed \<or> st = Running"

definition guarded :: "bool \<Rightarrow> 'a \<Rightarrow> 'a option" where
  "guarded b x = (if b then Some x else None)"

lemma guarded_Some [simp]: "guarded b x = Some y \<longleftrightarrow> b \<and> y = x"
  by (auto simp: guarded_def)

fun status_next :: "exec_action \<Rightarrow> scheduler_status \<Rightarrow> scheduler_status option" where
  "status_next DoClaim st = guarded (st = Unclaimed \<or> st = RetryQueued) Claimed"
| "status_next DoStartRunning st = guarded (st = Claimed) Running"
| "status_next DoRecordTurn st = guarded (st = Running) Running"
| "status_next DoObserveEvent st = guarded (st = Running) Running"
| "status_next DoQueueRetry st = guarded (holding st) RetryQueued"
| "status_next DoRestoreRetry st = guarded (st = Unclaimed) RetryQueued"
| "status_next DoRelease st = guarded (st \<noteq> Released) Released"
| "status_next DoReplaceReason st = guarded (st = Released) Released"
| "status_next DoReopen st = guarded (st = Released) Unclaimed"
| "status_next DoRequestInterrupt st = guarded (holding st) st"
| "status_next DoRestoreInterrupt st = guarded (holding st) st"
| "status_next _ st = Some st"

lemma status_simps [simp]:
  "status (e\<lparr>ie_state := st\<rparr>) = state_status st"
  "status (e\<lparr>ie_issue := i\<rparr>) = status e"
  "status (e\<lparr>ie_workspace := w\<rparr>) = status e"
  "status (e\<lparr>ie_conversation := c\<rparr>) = status e"
  "status (e\<lparr>ie_interrupt := it\<rparr>) = status e"
  "status (e\<lparr>ie_retry_count_override := n\<rparr>) = status e"
  "status (record_outcome out e) = status e"
  by (simp_all add: status_def)

lemma status_state: "ie_state e = st \<Longrightarrow> status e = state_status st"
  by (simp add: status_def)

lemma current_run_holding: "current_run e = Some run \<Longrightarrow> holding (status e)"
  by (cases "ie_state e") (simp_all add: current_run_def holding_def status_def)

lemma claimable_status: "claimable_as st = Some x \<Longrightarrow> state_status st = Unclaimed \<or> state_status st = RetryQueued"
  by (cases st) simp_all

lemma request_interrupt_status:
  "request_interrupt kind turn reason expected t e = Ok (e', command, dispatch) \<Longrightarrow>
     holding (status e) \<and> status e' = status e"
  by (auto simp: request_interrupt_def invalid_def Let_def dest: current_run_holding
      split: option.splits harness_interrupt_status.splits)

lemma restore_interrupt_status:
  "restore_interrupt_intent kind reason expected t e = Ok e' \<Longrightarrow>
     holding (status e) \<and> status e' = status e"
  by (auto simp: restore_interrupt_intent_def invalid_def dest: current_run_holding
      split: option.splits)

lemma operator_resolution_status [simp]: "status (observe_operator_resolution t e) = status e"
  by (cases "ie_state e") (simp_all add: observe_operator_resolution_def status_def)

lemma exec_step_status:
  "exec_step canon e act e' \<Longrightarrow> status_next act (status e) = Some (status e')"
proof (induction rule: exec_step.induct)
  case (step_claim run e e')
  then show ?case using claimable_status [of "ie_state e"] by (auto simp: claim_Ok status_def)
next
  case (step_request kind turn reason expected t e e' command dispatch)
  then show ?case by (auto dest: request_interrupt_status)
next
  case (step_restore_interrupt kind reason expected t e e')
  then show ?case by (auto dest: restore_interrupt_status)
next
  case (step_queue_retry r out e e')
  then show ?case by (auto simp: queue_retry_Ok dest: current_run_holding)
next
  case (step_release t reason o' e e')
  then show ?case by (auto simp: release_Ok split: option.splits)
qed (auto simp: exec_results acknowledge_interrupt_def fail_interrupt_def timeout_interrupt_def
      clear_workspace_def set_retry_count_override_def retain_worker_outcome_def
      update_conversation_def update_conversation_token_usage_def dest!: attach_Ok
      dest: status_state)

inductive exec_trace ::
  "(path \<Rightarrow> path option) \<Rightarrow> issue_execution \<Rightarrow> exec_action list \<Rightarrow> issue_execution \<Rightarrow> bool"
  for canon where
  trace_Nil: "exec_trace canon e [] e"
| trace_Cons: "exec_step canon e act e' \<Longrightarrow> exec_trace canon e' acts e'' \<Longrightarrow>
                 exec_trace canon e (act # acts) e''"

inductive_cases exec_trace_NilE: "exec_trace canon e [] e'"
inductive_cases exec_trace_ConsE: "exec_trace canon e (act # acts) e'"

lemma exec_trace_append:
  "exec_trace canon e (xs @ ys) e'' \<Longrightarrow> \<exists>e'. exec_trace canon e xs e' \<and> exec_trace canon e' ys e''"
proof (induction xs arbitrary: e)
  case (Cons x xs)
  from Cons.prems obtain e1 where s: "exec_step canon e x e1" "exec_trace canon e1 (xs @ ys) e''"
    by (auto elim: exec_trace_ConsE)
  from Cons.IH [OF s(2)] s(1) show ?case by (meson trace_Cons)
qed (auto intro: trace_Nil)

lemma holding_kept:
  "status_next act st = Some st' \<Longrightarrow> holding st \<Longrightarrow> act \<noteq> DoQueueRetry \<Longrightarrow> act \<noteq> DoRelease \<Longrightarrow> holding st'"
  by (cases act) (auto simp: holding_def)

lemma holding_trace:
  "exec_trace canon e acts e' \<Longrightarrow> holding (status e) \<Longrightarrow> DoQueueRetry \<notin> set acts \<Longrightarrow>
     DoRelease \<notin> set acts \<Longrightarrow> holding (status e')"
  by (induction rule: exec_trace.induct) (auto dest!: exec_step_status intro: holding_kept)

section \<open>Retries\<close>

definition attempt_ordinal :: "retry_attempt option \<Rightarrow> nat" where
  "attempt_ordinal a = (case a of None \<Rightarrow> 0 | Some a \<Rightarrow> unat (attempt_get a))"

lemma attempt_after_ordinal:
  "attempt_after p = Ok a \<Longrightarrow> attempt_ordinal (Some a) = Suc (attempt_ordinal p)"
  by (auto simp: attempt_ordinal_def attempt_after_def attempt_first_def attempt_checked_next_eq
      unat_u32_Suc split: option.splits if_splits)

lemma retry_queued_step:
  "exec_step canon e act e' \<Longrightarrow> ie_state e = SRetryQueued r \<Longrightarrow> act \<noteq> DoClaim \<Longrightarrow> act \<noteq> DoRelease \<Longrightarrow>
     ie_state e' = SRetryQueued r"
  by (induction rule: exec_step.induct)
    (auto simp: exec_results acknowledge_interrupt_def fail_interrupt_def timeout_interrupt_def
      clear_workspace_def set_retry_count_override_def retain_worker_outcome_def
      update_conversation_def update_conversation_token_usage_def restore_interrupt_intent_def
      observe_operator_resolution_def invalid_def status_def current_run_def
      dest!: attach_Ok request_interrupt_Ok)

lemma retry_queued_trace:
  "exec_trace canon e acts e' \<Longrightarrow> ie_state e = SRetryQueued r \<Longrightarrow> DoClaim \<notin> set acts \<Longrightarrow>
     DoRelease \<notin> set acts \<Longrightarrow> ie_state e' = SRetryQueued r"
  by (induction rule: exec_trace.induct) (auto dest: retry_queued_step)

text \<open>The attempt an execution is at, while it holds a run or a queued retry.\<close>

fun state_ordinal :: "scheduler_state \<Rightarrow> nat option" where
  "state_ordinal (SClaimed run) = Some (attempt_ordinal (ra_attempt run))"
| "state_ordinal (SRunning run _) = Some (attempt_ordinal (ra_attempt run))"
| "state_ordinal (SRetryQueued r) = Some (attempt_ordinal (Some (re_attempt r)))"
| "state_ordinal _ = None"

lemma attempt_frame [simp]:
  "ra_attempt (with_normal_retry_count n run) = ra_attempt run"
  "ra_attempt (mark_started t run) = ra_attempt run"
  "ra_attempt (run_record_turn_started run) = ra_attempt run"
  by (simp_all add: with_normal_retry_count_def mark_started_def run_record_turn_started_def)

lemma current_run_ordinal:
  "current_run e = Some run \<Longrightarrow> state_ordinal (ie_state e) = Some (attempt_ordinal (ra_attempt run))"
  by (cases "ie_state e") (simp_all add: current_run_def)

lemma claimable_ordinal:
  "claimable_as st = Some (a, n) \<Longrightarrow> state_ordinal st = Some k \<Longrightarrow> attempt_ordinal a = k"
  by (cases st) auto

lemma state_ordinal_step:
  "exec_step canon e act e' \<Longrightarrow> state_ordinal (ie_state e) = Some k \<Longrightarrow> act \<noteq> DoRelease \<Longrightarrow>
     \<exists>k'. state_ordinal (ie_state e') = Some k' \<and> k \<le> k'"
proof (induction rule: exec_step.induct)
  case (step_queue_retry r out e e')
  then obtain run where run: "current_run e = Some run" "attempt_after (ra_attempt run) = Ok (re_attempt r)"
      "ie_state e' = SRetryQueued r" by (auto simp: queue_retry_Ok)
  with step_queue_retry.prems(1) show ?case
    using attempt_after_ordinal [OF run(2)] current_run_ordinal [OF run(1)] by simp
next
  case (step_claim run e e')
  then show ?case using claimable_ordinal [of "ie_state e"] by (auto simp: claim_Ok)
next
  case (step_restore_retry r e e')
  then show ?case by (cases "ie_state e") (auto simp: restore_retry_Ok status_def)
next
  case (step_operator e t)
  then show ?case by (cases "ie_state e") (auto simp: observe_operator_resolution_def)
next
  case (step_replace t reason e e')
  then show ?case by (cases "ie_state e") (auto simp: replace_reason_Ok status_def)
qed (auto simp: exec_results acknowledge_interrupt_def fail_interrupt_def timeout_interrupt_def
      clear_workspace_def set_retry_count_override_def retain_worker_outcome_def
      update_conversation_def update_conversation_token_usage_def restore_interrupt_intent_def
      invalid_def dest!: attach_Ok request_interrupt_Ok split: option.splits)

lemma state_ordinal_trace:
  "exec_trace canon e acts e' \<Longrightarrow> state_ordinal (ie_state e) = Some k \<Longrightarrow> DoRelease \<notin> set acts \<Longrightarrow>
     \<exists>k'. state_ordinal (ie_state e') = Some k' \<and> k \<le> k'"
proof (induction arbitrary: k rule: exec_trace.induct)
  case (trace_Cons e act e' acts e'')
  from state_ordinal_step [OF trace_Cons.hyps(1) trace_Cons.prems(1)] trace_Cons.prems(2)
  obtain k1 where "state_ordinal (ie_state e') = Some k1" "k \<le> k1" by auto
  with trace_Cons.IH [of k1] trace_Cons.prems(2) show ?case by (auto intro: order_trans)
qed simp

section \<open>Demonstration values\<close>

definition demo_normalized_issue :: normalized_issue where
  "demo_normalized_issue =
     \<lparr>ni_id = IssueId ''i1'', ni_identifier = IssueIdentifier ''COE-1'', ni_title = ''t'',
      ni_description = None, ni_priority = None,
      ni_state = \<lparr>is_id = None, is_name = ''Todo'', is_category = Active\<rparr>,
      ni_branch_name = None, ni_pr_url = None, ni_pr_urls = [], ni_url = None, ni_labels = [],
      ni_project_id = None, ni_project_slug = None, ni_project_name = None, ni_parent_id = None,
      ni_repository_binding = None, ni_blocked_by = [], ni_sub_issues = [],
      ni_created_at = None, ni_updated_at = None\<rparr>"

definition demo_workspace :: workspace_record where
  "demo_workspace =
     \<lparr>wr_path = path_from ''/ws/COE-1'', wr_workspace_key = WorkspaceKey ''COE-1'',
      wr_created_now = True, wr_created_at = None, wr_updated_at = None,
      wr_last_seen_tracker_refresh_at = None\<rparr>"

definition demo_run :: "retry_attempt option \<Rightarrow> run_attempt" where
  "demo_run attempt =
     run_attempt_new (WorkerId ''w1'') (IssueId ''i1'') (IssueIdentifier ''COE-1'')
       (path_from ''/ws/COE-1'') 10 attempt 5"

definition demo_execution :: "scheduler_state \<Rightarrow> issue_execution" where
  "demo_execution st =
     (execution_new demo_normalized_issue 1)
       \<lparr>ie_workspace := Some demo_workspace, ie_conversation := Some demo_conversation, ie_state := st\<rparr>"

definition demo_outcome :: worker_outcome_record where
  "demo_outcome = outcome_from_run (demo_run None) OutFailed 20 None None"

definition demo_retry :: retry_entry where
  "demo_retry =
     \<lparr>re_issue_id = IssueId ''i1'', re_identifier = IssueIdentifier ''COE-1'',
      re_attempt = RetryAttempt 1, re_normal_retry_count = 1, re_scheduled_at = 20,
      re_due_at = 30, re_reason = RetryFailure, re_error = None\<rparr>"

lemmas demo_defs =
  demo_normalized_issue_def demo_workspace_def demo_run_def demo_execution_def demo_outcome_def
  demo_retry_def execution_new_def run_attempt_new_def outcome_from_run_def

lemma demo_claim:
  "claimable_as st = Some (a, n) \<Longrightarrow>
   claim canon (demo_run a) (demo_execution st) =
     Ok ((demo_execution (SClaimed (with_normal_retry_count n (demo_run a))))\<lparr>ie_interrupt := None\<rparr>)"
  by (simp add: claim_Ok demo_defs run_bound_def run_in_workspace_def)

lemma demo_queue_retry:
  "queue_retry demo_retry demo_outcome (demo_execution (SClaimed (demo_run None))) =
     Ok ((record_outcome demo_outcome (demo_execution (SClaimed (demo_run None))))
           \<lparr>ie_state := SRetryQueued demo_retry\<rparr>)"
  by (simp add: queue_retry_Ok demo_defs current_run_def attempt_after_def attempt_first_def)

section \<open>Properties\<close>

text \<open>C2: every execution the transitions can reach keeps its issue's id, works on a run that
  belongs to that issue and to the repository the issue resolved to, runs only with a clock
  that is consistent and started with the run, has at most ten recent outcomes the last of
  which is the last outcome, and only holds an interrupt and a retry of its own issue.\<close>

theorem execution_invariant:
  assumes "exec_reachable canon issue e"
  shows "ni_id (ie_issue e) = ni_id issue \<and>
    (\<forall>run. current_run e = Some run \<longrightarrow> ra_issue_id run = ni_id issue \<and>
       (\<forall>b. Option.bind (ni_repository_binding (ie_issue e)) resolved_binding = Some b \<longrightarrow>
          map_option (\<lambda>b. ri_id (rb_repository b)) (ra_repository_binding run) =
            Some (ri_id (rb_repository b)))) \<and>
    (\<forall>run stall. ie_state e = SRunning run stall \<longrightarrow>
       ra_started_at run = Some (sm_started_at stall) \<and> stall_inv stall) \<and>
    length (ie_recent_worker_outcomes e) \<le> 10 \<and>
    (\<forall>out. ie_last_worker_outcome e = Some out \<longrightarrow> last (ie_recent_worker_outcomes e) = out) \<and>
    (\<forall>i. ie_interrupt e = Some i \<longrightarrow> hc_issue_id (hi_command i) = ni_id issue) \<and>
    (\<forall>r. retry e = Some r \<longrightarrow> re_issue_id r = ni_id issue)"
proof -
  from reachable_inv [OF assms] have inv: "exec_inv e" and id: "ni_id (ie_issue e) = ni_id issue"
    by simp_all
  then have "state_inv e (ie_state e)" by (simp add: exec_inv_def)
  with inv id show ?thesis
    by (cases "ie_state e")
      (auto simp: exec_inv_def outcomes_inv_def interrupt_inv_def run_bound_def current_run_def
        retry_def max_recent_worker_outcomes_def)
qed

theorem execution_invariant_witness:
  "(let e = release 20 ReleaseCompleted (Some demo_outcome) (execution_new demo_normalized_issue 1)
    in \<exists>e'. e = Ok e' \<and> ni_id (ie_issue e') = IssueId ''i1'' \<and>
            last (ie_recent_worker_outcomes e') = demo_outcome)"
proof -
  let ?new = "execution_new demo_normalized_issue 1"
  let ?e = "(record_outcome demo_outcome ?new)\<lparr>ie_state := SReleased 20 ReleaseCompleted\<rparr>"
  have r: "release 20 ReleaseCompleted (Some demo_outcome) ?new = Ok ?e"
  proof -
    have "status ?new = Unclaimed" by (simp add: status_def execution_new_def)
    then show ?thesis by (simp add: release_Ok)
  qed
  from reach_step [OF reach_new step_release [OF r]]
  have "exec_reachable canon demo_normalized_issue ?e" for canon .
  from execution_invariant [OF this] have "last (ie_recent_worker_outcomes ?e) = demo_outcome"
      "ni_id (ie_issue ?e) = ni_id demo_normalized_issue" by simp_all
  then show ?thesis unfolding r by (simp add: demo_normalized_issue_def)
qed

text \<open>C1: the detailed transitions implement the abstract status machine: whenever an action
  is accepted, the machine allows it in the old status and the new status is the one it
  names.\<close>

theorem execution_refines_status_machine:
  assumes "exec_step canon e act e'"
  shows "status_next act (status e) = Some (status e')"
  using assms by (rule exec_step_status)

theorem execution_refines_status_machine_witness:
  "status_next DoClaim (status (demo_execution (SUnclaimed 1))) = Some Claimed"
proof -
  have "claim (\<lambda>_. None) (demo_run None) (demo_execution (SUnclaimed 1)) =
      Ok ((demo_execution (SClaimed (with_normal_retry_count 0 (demo_run None))))\<lparr>ie_interrupt := None\<rparr>)"
    by (rule demo_claim) simp
  from execution_refines_status_machine [OF step_claim [OF this]] show ?thesis
    by (simp add: demo_execution_def)
qed

text \<open>C3: an issue is never claimed twice at once: in every sequence of transitions, between
  two claims there is a retry that was queued or a release.\<close>

theorem no_double_claim:
  assumes "exec_trace canon e (xs @ [DoClaim] @ ys @ [DoClaim] @ zs) e'"
  shows "DoQueueRetry \<in> set ys \<or> DoRelease \<in> set ys"
proof (rule ccontr)
  assume no: "\<not> (DoQueueRetry \<in> set ys \<or> DoRelease \<in> set ys)"
  from exec_trace_append [OF assms] obtain e0 where "exec_trace canon e0 (DoClaim # ys @ DoClaim # zs) e'"
    by auto
  then obtain e1 where c1: "exec_step canon e0 DoClaim e1" and t: "exec_trace canon e1 (ys @ DoClaim # zs) e'"
    by (auto elim: exec_trace_ConsE)
  from exec_trace_append [OF t] obtain e2 where
    ys: "exec_trace canon e1 ys e2" and "exec_trace canon e2 (DoClaim # zs) e'" by blast
  then obtain e3 where c2: "exec_step canon e2 DoClaim e3" by (auto elim: exec_trace_ConsE)
  have "holding (status e1)" using exec_step_status [OF c1] by (simp add: holding_def)
  with ys no have "holding (status e2)" by (auto intro: holding_trace)
  with exec_step_status [OF c2] show False by (auto simp: holding_def)
qed

theorem no_double_claim_witness:
  "\<exists>e acts. exec_trace (\<lambda>_. None) (demo_execution (SUnclaimed 1)) ([] @ [DoClaim] @ acts @ [DoClaim] @ []) e \<and>
     (DoQueueRetry \<in> set acts \<or> DoRelease \<in> set acts)"
proof -
  let ?run = "with_normal_retry_count 0 (demo_run None)" and ?canon = "\<lambda>_. None"
  let ?e1 = "(demo_execution (SClaimed ?run))\<lparr>ie_interrupt := None\<rparr>"
  have run: "?run = demo_run None" and e1: "?e1 = demo_execution (SClaimed (demo_run None))"
    by (simp_all add: demo_defs with_normal_retry_count_def)
  let ?e2 = "(record_outcome demo_outcome (demo_execution (SClaimed (demo_run None))))
      \<lparr>ie_state := SRetryQueued demo_retry\<rparr>"
  let ?e3 = "?e2\<lparr>ie_state := SClaimed (with_normal_retry_count 1 (demo_run (Some (RetryAttempt 1)))),
      ie_interrupt := None\<rparr>"
  have "claim ?canon (demo_run (Some (RetryAttempt 1))) ?e2 = Ok ?e3"
    by (simp add: claim_Ok run_bound_def run_in_workspace_def demo_defs)
  then have "exec_step ?canon ?e2 DoClaim ?e3" by (rule step_claim)
  moreover have "exec_step ?canon (demo_execution (SClaimed (demo_run None))) DoQueueRetry ?e2"
    by (rule step_queue_retry) (rule demo_queue_retry)
  moreover have "exec_step ?canon (demo_execution (SUnclaimed 1)) DoClaim
      (demo_execution (SClaimed (demo_run None)))"
    using step_claim [OF demo_claim [of "SUnclaimed 1" None 0 ?canon]] e1 by simp
  ultimately have "exec_trace ?canon (demo_execution (SUnclaimed 1))
      ([] @ [DoClaim] @ [DoQueueRetry] @ [DoClaim] @ []) ?e3"
    by (auto intro: exec_trace.intros)
  from this no_double_claim [OF this] show ?thesis by blast
qed

text \<open>A retry carries a run to exactly its next attempt: once a retry is queued, and
  whatever else happens to the issue short of a release, the next claim is accepted only for
  the attempt numbered one higher than the run that ended, it takes the retry count from the
  queued entry, and the outcome of the ended run is kept.\<close>

theorem retry_cycle_next_attempt:
  assumes "current_run e = Some old" and "queue_retry r out e = Ok e1"
    and "exec_trace canon e1 acts e2" and "DoClaim \<notin> set acts" and "DoRelease \<notin> set acts"
    and "claim canon run e2 = Ok e3"
  shows "attempt_ordinal (ra_attempt run) = Suc (attempt_ordinal (ra_attempt old)) \<and>
    ra_attempt run = Some (re_attempt r) \<and> wo_worker_id out = ra_worker_id old \<and>
    ie_last_worker_outcome e1 = Some out \<and>
    current_run e3 = Some (run\<lparr>ra_normal_retry_count := re_normal_retry_count r\<rparr>)"
proof -
  from assms(1,2) have q: "e1 = (record_outcome out e)\<lparr>ie_state := SRetryQueued r\<rparr>"
      "wo_worker_id out = ra_worker_id old" "attempt_after (ra_attempt old) = Ok (re_attempt r)"
    by (auto simp: queue_retry_Ok)
  then have "ie_state e2 = SRetryQueued r" using retry_queued_trace [OF assms(3)] assms(4,5) by simp
  with assms(6) have "ra_attempt run = Some (re_attempt r)"
      "ie_state e3 = SClaimed (with_normal_retry_count (re_normal_retry_count r) run)"
    by (auto simp: claim_Ok)
  with q attempt_after_ordinal [OF q(3)] show ?thesis
    by (simp add: current_run_def with_normal_retry_count_def)
qed

theorem retry_cycle_next_attempt_witness:
  "\<exists>e1 e3. queue_retry demo_retry demo_outcome (demo_execution (SClaimed (demo_run None))) = Ok e1 \<and>
     claim (\<lambda>_. None) (demo_run (Some (RetryAttempt 1))) e1 = Ok e3 \<and>
     attempt_ordinal (Some (RetryAttempt 1)) = Suc 0 \<and>
     current_run e3 = Some ((demo_run (Some (RetryAttempt 1)))\<lparr>ra_normal_retry_count := 1\<rparr>)"
proof -
  let ?run = "demo_run (Some (RetryAttempt 1))" and ?canon = "\<lambda>_. None"
  let ?e2 = "(record_outcome demo_outcome (demo_execution (SClaimed (demo_run None))))
      \<lparr>ie_state := SRetryQueued demo_retry\<rparr>"
  let ?e3 = "?e2\<lparr>ie_state := SClaimed (with_normal_retry_count 1 ?run), ie_interrupt := None\<rparr>"
  have c: "claim ?canon ?run ?e2 = Ok ?e3"
    by (simp add: claim_Ok run_bound_def run_in_workspace_def demo_defs)
  have "current_run (demo_execution (SClaimed (demo_run None))) = Some (demo_run None)"
    by (simp add: current_run_def demo_execution_def)
  from retry_cycle_next_attempt [OF this demo_queue_retry trace_Nil _ _ c] demo_queue_retry c
  show ?thesis by (simp add: demo_run_def run_attempt_new_def attempt_ordinal_def demo_retry_def)
qed

text \<open>C4: an outcome ends one run only: after it was accepted with a retry, no report of the
  same outcome is accepted again until the issue is released, whatever claims, turns and
  further retries come in between.\<close>

theorem outcome_ends_one_run:
  assumes "queue_retry r out e = Ok e1" and "exec_trace canon e1 acts e2"
    and "DoRelease \<notin> set acts"
  shows "\<not> is_ok (queue_retry r' out e2)"
proof
  assume "is_ok (queue_retry r' out e2)"
  then obtain e3 where "queue_retry r' out e2 = Ok e3" by (cases "queue_retry r' out e2") simp_all
  then obtain run' where run': "current_run e2 = Some run'" "wo_attempt out = ra_attempt run'"
    by (auto simp: queue_retry_Ok)
  have out: "attempt_after (wo_attempt out) = Ok (re_attempt r)" "ie_state e1 = SRetryQueued r"
    using assms(1) by (auto simp: queue_retry_Ok)
  from attempt_after_ordinal [OF out(1)] out(2)
  have "state_ordinal (ie_state e1) = Some (Suc (attempt_ordinal (wo_attempt out)))" by simp
  from state_ordinal_trace [OF assms(2) this assms(3)] current_run_ordinal [OF run'(1)]
  show False using run'(2) by simp
qed

theorem outcome_ends_one_run_witness:
  "\<exists>e1. queue_retry demo_retry demo_outcome (demo_execution (SClaimed (demo_run None))) = Ok e1 \<and>
     \<not> is_ok (queue_retry demo_retry demo_outcome e1)"
  using demo_queue_retry outcome_ends_one_run [OF demo_queue_retry trace_Nil, of demo_retry] by auto

text \<open>An interrupt request is dispatched to the harness once. While it is unanswered, every
  further request returns the command already sent and is not dispatched; once acknowledged,
  later requests are not dispatched either; only after it failed is a new request sent.\<close>

theorem interrupt_dispatched_once:
  assumes "request_interrupt kind turn reason expected t e = Ok (e1, command, True)"
  shows "request_interrupt kind' turn' reason' expected' t' e1 = Ok (e1, command, False) \<and>
    (\<exists>e2 e3 command'. acknowledge_interrupt ta e1 = Ok e2 \<and>
       request_interrupt kind' turn' reason' expected' t' e2 = Ok (e3, command', False)) \<and>
    (\<exists>e2 e3 command'. fail_interrupt tf d e1 = Ok e2 \<and>
       request_interrupt kind' turn' reason' expected' t' e2 = Ok (e3, command', True))"
proof -
  from assms obtain run c where r: "current_run e = Some run" "ie_conversation e = Some c"
      "e1 = e\<lparr>ie_interrupt := Some (interrupt_requested command t)\<rparr>"
    by (auto simp: request_interrupt_def invalid_def Let_def
        split: option.splits harness_interrupt_status.splits)
  then show ?thesis
    by (simp add: request_interrupt_def current_run_def acknowledge_interrupt_def fail_interrupt_def
        update_interrupt_def interrupt_requested_def interrupt_acknowledge_def interrupt_fail_def
        Let_def)
qed

theorem interrupt_dispatched_once_witness:
  "\<exists>e1 command. request_interrupt ''codex'' None OperatorCancel ExpectPaused 30
       (demo_execution (SClaimed (demo_run None))) = Ok (e1, command, True) \<and>
     request_interrupt ''codex'' None SchedulerAbort ExpectReleased 31 e1 = Ok (e1, command, False)"
proof -
  obtain e1 command where r: "request_interrupt ''codex'' None OperatorCancel ExpectPaused 30
       (demo_execution (SClaimed (demo_run None))) = Ok (e1, command, True)"
    by (simp add: request_interrupt_def current_run_def demo_execution_def execution_new_def Let_def)
  with interrupt_dispatched_once [OF r] show ?thesis by blast
qed

text \<open>Attaching a workspace never moves a run to another checkout: the first attachment
  must carry the issue's own key and a directory named after it, and a later one keeps the key,
  and also the path unless only a retry is queued, so that a claimed or running worker stays
  in the directory it was claimed for.\<close>

theorem attach_workspace_isolated:
  assumes "attach_workspace canon w e = Some (Ok e')"
  shows "ie_workspace e' = Some w \<and>
    (ie_workspace e = None \<longrightarrow>
       workspace_path_matches_key (comparable_workspace_path canon (wr_path w)) (wr_workspace_key w) \<and>
       (\<exists>key. issue_workspace_key (ie_issue e) = Some key \<and>
              workspace_key_matches_issue (wr_workspace_key w) key)) \<and>
    (\<forall>old. ie_workspace e = Some old \<longrightarrow> wr_workspace_key w = wr_workspace_key old) \<and>
    (\<forall>run. current_run e = Some run \<and> run_in_workspace canon e run \<longrightarrow>
           run_in_workspace canon e' run)"
  using assms
  by (cases "ie_state e")
    (auto simp: attach_workspace_def run_in_workspace_def current_run_def status_def Let_def
      split: option.splits if_splits)

theorem attach_workspace_isolated_witness:
  "attach_workspace (\<lambda>_. None) demo_workspace (demo_execution (SClaimed (demo_run None))) =
     Some (Ok (demo_execution (SClaimed (demo_run None)))) \<and>
   run_in_workspace (\<lambda>_. None) (demo_execution (SClaimed (demo_run None))) (demo_run None)"
proof -
  let ?e = "demo_execution (SClaimed (demo_run None))" and ?canon = "\<lambda>_. None"
  have a: "attach_workspace ?canon demo_workspace ?e = Some (Ok ?e)"
    by (simp add: attach_workspace_def demo_execution_def status_def)
  moreover have "run_in_workspace ?canon ?e (demo_run None)"
    by (simp add: run_in_workspace_def demo_execution_def demo_workspace_def demo_run_def
        run_attempt_new_def)
  ultimately show ?thesis
    using attach_workspace_isolated [OF a] by (simp add: current_run_def demo_execution_def)
qed

end
