(* ===== verification/Leases.thy ===== *)
theory Leases
  imports Issues Repository "HOL-Library.Sublist" "HOL-Library.Product_Lexorder"
begin

text \<open>
  The lease table of \<open>opensymphony-orchestrator/src/hierarchy.rs\<close>: resources, owners, lease
  records and the operations on the list of leases. \<open>now\<close> is the clock that \<open>active()\<close>
  reads (\<open>current_epoch_millis\<close>); one value stands for every reading within one operation.
\<close>

section \<open>Records\<close>

text \<open>A resource is a datatype with selectors, so that it can carry the derived \<open>Ord\<close>: the
  fields are compared in order.\<close>

datatype lease_resource =
  LeaseResource (res_issue_id: issue_id) (res_repository_id: canonical_repository_id)
    (res_checkout_generation: string)

fun resource_key :: "lease_resource \<Rightarrow> issue_id \<times> canonical_repository_id \<times> string" where
  "resource_key (LeaseResource i r g) = (i, r, g)"

lemma resource_key_inject [simp]: "resource_key a = resource_key b \<longleftrightarrow> a = b"
  by (cases a; cases b) simp

instantiation lease_resource :: linorder
begin

definition less_eq_lease_resource :: "lease_resource \<Rightarrow> lease_resource \<Rightarrow> bool" where
  "less_eq_lease_resource a b = (resource_key a \<le> resource_key b)"

definition less_lease_resource :: "lease_resource \<Rightarrow> lease_resource \<Rightarrow> bool" where
  "less_lease_resource a b = (resource_key a < resource_key b)"

instance
  by standard (auto simp: less_eq_lease_resource_def less_lease_resource_def less_le)

end

record lease_owner =
  own_id :: string
  own_kind :: string

definition leaf_worker :: "issue_id \<Rightarrow> lease_owner" where
  "leaf_worker i = \<lparr>own_id = ''leaf-worker:'' @ issue_id_str i, own_kind = ''leaf_worker''\<rparr>"

definition ancestor :: "issue_id \<Rightarrow> lease_owner" where
  "ancestor i =
     \<lparr>own_id = ''ancestor-integration:'' @ issue_id_str i, own_kind = ''ancestor_integration''\<rparr>"

definition review_owner :: "issue_id \<Rightarrow> lease_owner" where
  "review_owner i = \<lparr>own_id = ''review:'' @ issue_id_str i, own_kind = ''review''\<rparr>"

definition review_for_parent :: "issue_id \<Rightarrow> issue_id \<Rightarrow> lease_owner" where
  "review_for_parent p i =
     \<lparr>own_id = ''review:'' @ issue_id_str p @ '':'' @ issue_id_str i, own_kind = ''review''\<rparr>"

definition repair_owner :: "issue_id \<Rightarrow> lease_owner" where
  "repair_owner p = \<lparr>own_id = ''repair:'' @ issue_id_str p, own_kind = ''repair''\<rparr>"

definition diagnostic :: "string \<Rightarrow> lease_owner" where
  "diagnostic operator = \<lparr>own_id = ''diagnostic:'' @ operator, own_kind = ''diagnostic_hold''\<rparr>"

datatype lease_kind = LeafWorker | Review | AncestorIntegration | Repair | DiagnosticHold

record lease_record =
  lr_kind :: lease_kind
  lr_resource :: lease_resource
  lr_owner :: lease_owner
  lr_hierarchy_generation :: u64
  lr_acquired_at :: u64
  lr_expires_at :: "u64 option"
  lr_released_at :: "u64 option"

definition active_at :: "u64 \<Rightarrow> lease_record \<Rightarrow> bool" where
  "active_at now l \<longleftrightarrow> lr_released_at l = None \<and> is_none_or (\<lambda>t. now < t) (lr_expires_at l)"

datatype lease_error = LeaseConflict lease_resource string

type_synonym lease_key = "lease_kind \<times> lease_resource \<times> lease_owner"

definition lease_key :: "lease_record \<Rightarrow> lease_key" where
  "lease_key l = (lr_kind l, lr_resource l, lr_owner l)"

definition starts_with :: "string \<Rightarrow> string \<Rightarrow> bool" where
  "starts_with p s \<longleftrightarrow> take (length p) s = p"

section \<open>Compaction\<close>

definition max_inactive_lease_history :: nat where "max_inactive_lease_history = 256"

text \<open>The first loop of \<open>compact_lease_history\<close>, over the leases from the newest: an inactive
  lease is kept once per kind, resource and owner.\<close>

fun keep_latest :: "u64 \<Rightarrow> lease_key set \<Rightarrow> lease_record list \<Rightarrow> lease_record list" where
  "keep_latest now seen [] = []"
| "keep_latest now seen (l # ls) =
     (if active_at now l then l # keep_latest now seen ls
      else if lease_key l \<in> seen then keep_latest now seen ls
      else l # keep_latest now (insert (lease_key l) seen) ls)"

definition lease_timestamp :: "lease_record \<Rightarrow> u64" where
  "lease_timestamp l = unwrap_or (or_else (lr_released_at l) (lr_expires_at l)) (lr_acquired_at l)"

definition inactive_candidates :: "u64 \<Rightarrow> lease_record list \<Rightarrow> (nat \<times> u64) list" where
  "inactive_candidates now ls =
     map (\<lambda>(i, l). (i, lease_timestamp l)) (filter (\<lambda>(i, l). \<not> active_at now l) (enumerate 0 ls))"

definition drop_indices :: "u64 \<Rightarrow> nat \<Rightarrow> lease_record list \<Rightarrow> nat list" where
  "drop_indices now k ls = map fst (take k (sort_key snd (inactive_candidates now ls)))"

definition drop_oldest :: "u64 \<Rightarrow> lease_record list \<Rightarrow> lease_record list" where
  "drop_oldest now ls =
     (let inactive = length (filter (\<lambda>l. \<not> active_at now l) ls)
      in if max_inactive_lease_history < inactive
         then let dropped = set (drop_indices now (inactive - max_inactive_lease_history) ls)
              in map snd (filter (\<lambda>(i, _). i \<notin> dropped) (enumerate 0 ls))
         else ls)"

definition compact_lease_history :: "u64 \<Rightarrow> lease_record list \<Rightarrow> lease_record list" where
  "compact_lease_history now ls = drop_oldest now (rev (keep_latest now {} (rev ls)))"

section \<open>Acquiring\<close>

text \<open>\<open>iter_mut().find(..)\<close> and an assignment through the reference.\<close>

fun replace_first :: "('a \<Rightarrow> bool) \<Rightarrow> 'a \<Rightarrow> 'a list \<Rightarrow> 'a list option" where
  "replace_first P y [] = None"
| "replace_first P y (x # xs) =
     (if P x then Some (y # xs) else map_option ((#) x) (replace_first P y xs))"

fun acquire_loop ::
  "u64 \<Rightarrow> lease_record list \<Rightarrow> lease_record list \<Rightarrow> lease_error + lease_record list" where
  "acquire_loop now [] next_leases = Ok next_leases"
| "acquire_loop now (r # rs) next_leases =
     (case replace_first (\<lambda>l. active_at now l \<and> lr_kind l = lr_kind r \<and>
                               lr_resource l = lr_resource r \<and> lr_owner l = lr_owner r) r next_leases of
        Some next_leases \<Rightarrow> acquire_loop now rs next_leases
      | None \<Rightarrow>
          (case find (\<lambda>l. active_at now l \<and> lr_kind l = lr_kind r \<and> lr_resource l = lr_resource r \<and>
                          lr_owner l \<noteq> lr_owner r \<and> lr_kind r = LeafWorker) next_leases of
             Some l \<Rightarrow> Err (LeaseConflict (lr_resource r) (own_id (lr_owner l)))
           | None \<Rightarrow> acquire_loop now rs (next_leases @ [r])))"

definition acquire :: "u64 \<Rightarrow> lease_record list \<Rightarrow> lease_record list \<Rightarrow>
    lease_error + lease_record list" where
  "acquire now records ls =
     (case acquire_loop now records ls of
        Err e \<Rightarrow> Err e
      | Ok next_leases \<Rightarrow> Ok (compact_lease_history now next_leases))"

section \<open>Releasing\<close>

text \<open>The loop all release operations share: stamp the active leases a condition selects.\<close>

definition stamp_where ::
  "u64 \<Rightarrow> (lease_record \<Rightarrow> bool) \<Rightarrow> u64 \<Rightarrow> lease_record list \<Rightarrow> lease_record list" where
  "stamp_where now sel t ls =
     map (\<lambda>l. if active_at now l \<and> sel l then l\<lparr>lr_released_at := Some t\<rparr> else l) ls"

definition release_where ::
  "u64 \<Rightarrow> (lease_record \<Rightarrow> bool) \<Rightarrow> u64 \<Rightarrow> lease_record list \<Rightarrow> lease_record list" where
  "release_where now sel t ls = compact_lease_history now (stamp_where now sel t ls)"

definition any_active :: "u64 \<Rightarrow> (lease_record \<Rightarrow> bool) \<Rightarrow> lease_record list \<Rightarrow> bool" where
  "any_active now sel ls \<longleftrightarrow> list_ex (\<lambda>l. active_at now l \<and> sel l) ls"

section \<open>Lemmas\<close>

definition actives :: "u64 \<Rightarrow> lease_record list \<Rightarrow> lease_record list" where
  "actives now ls = filter (active_at now) ls"

definition claims :: "u64 \<Rightarrow> lease_record list \<Rightarrow> lease_key set" where
  "claims now ls = lease_key ` set (actives now ls)"

lemma actives_simps [simp]:
  "actives now [] = []"
  "actives now (l # ls) = (if active_at now l then l # actives now ls else actives now ls)"
  "actives now (ls @ ls') = actives now ls @ actives now ls'"
  by (simp_all add: actives_def)

lemma set_actives [simp]: "set (actives now ls) = {l \<in> set ls. active_at now l}"
  by (auto simp: actives_def)

lemma actives_rev: "actives now (rev ls) = rev (actives now ls)"
  by (simp add: actives_def rev_filter)

lemma keep_latest_actives [simp]: "actives now (keep_latest now seen ls) = actives now ls"
  by (induction ls arbitrary: seen) auto

lemma keep_latest_subseq: "subseq (keep_latest now seen ls) ls"
  by (induction ls arbitrary: seen) auto

lemma subseq_rev: "subseq xs ys \<Longrightarrow> subseq (rev xs) (rev ys)"
  by (induction rule: list_emb.induct) (auto intro: subseq_rev_drop_many list_emb_append_mono)

lemma subseq_set: "subseq xs ys \<Longrightarrow> set xs \<subseteq> set ys"
  by (induction rule: list_emb.induct) auto

lemma enumerate_index_unique:
  "(i, x) \<in> set (enumerate k xs) \<Longrightarrow> (i, y) \<in> set (enumerate k xs) \<Longrightarrow> x = y"
  by (auto simp: in_set_enumerate_eq)

lemma filter_enumerate_subseq: "subseq (map snd (filter P (enumerate k xs))) xs"
proof (induction xs arbitrary: k)
  case (Cons x xs)
  show ?case using Cons [of "Suc k"] by (auto intro: list_emb_Cons)
qed simp

lemma filter_enumerate_kept:
  "(\<And>i x. (i, x) \<in> set (enumerate k xs) \<Longrightarrow> i \<in> D \<Longrightarrow> \<not> P x) \<Longrightarrow>
     filter P (map snd (filter (\<lambda>(i, _). i \<notin> D) (enumerate k xs))) = filter P xs"
proof (induction xs arbitrary: k)
  case (Cons x xs)
  have "filter P (map snd (filter (\<lambda>(i, _). i \<notin> D) (enumerate (Suc k) xs))) = filter P xs"
    using Cons.prems by (intro Cons.IH) auto
  with Cons.prems [of k x] show ?case by auto
qed simp

lemma drop_indices_inactive:
  assumes "i \<in> set (drop_indices now k ls)"
  shows "\<exists>l. (i, l) \<in> set (enumerate 0 ls) \<and> \<not> active_at now l"
proof -
  from assms obtain ts where "(i, ts) \<in> set (take k (sort_key snd (inactive_candidates now ls)))"
    by (auto simp: drop_indices_def)
  then have "(i, ts) \<in> set (inactive_candidates now ls)" by (metis in_set_takeD set_sort)
  then show ?thesis by (auto simp: inactive_candidates_def)
qed

lemma drop_oldest_actives [simp]: "actives now (drop_oldest now ls) = actives now ls"
proof -
  have "\<not> active_at now l" if "(i, l) \<in> set (enumerate 0 ls)" "i \<in> set (drop_indices now k ls)" for i l k
    using drop_indices_inactive [OF that(2)] enumerate_index_unique [OF that(1)] by auto
  then show ?thesis
    by (simp add: drop_oldest_def actives_def Let_def filter_enumerate_kept)
qed

lemma drop_oldest_subseq: "subseq (drop_oldest now ls) ls"
  by (simp add: drop_oldest_def Let_def filter_enumerate_subseq)

lemma compact_actives [simp]: "actives now (compact_lease_history now ls) = actives now ls"
  by (simp add: compact_lease_history_def actives_rev)

lemma compact_subseq: "subseq (compact_lease_history now ls) ls"
proof -
  have "subseq (rev (keep_latest now {} (rev ls))) ls"
    using subseq_rev [OF keep_latest_subseq, of now "{}" "rev ls"] by simp
  with drop_oldest_subseq [of now] show ?thesis
    unfolding compact_lease_history_def by (rule subseq_order.order_trans)
qed

lemma compact_claims [simp]: "claims now (compact_lease_history now ls) = claims now ls"
  by (simp add: claims_def del: set_actives)

lemma compact_set: "set (compact_lease_history now ls) \<subseteq> set ls"
  using compact_subseq by (rule subseq_set)

subsection \<open>The bound on the history\<close>

definition inactives :: "u64 \<Rightarrow> lease_record list \<Rightarrow> lease_record list" where
  "inactives now ls = filter (\<lambda>l. \<not> active_at now l) ls"

lemma length_filter_enumerate:
  fixes xs :: "'a list"
  shows "D \<subseteq> {k..<k + length xs} \<Longrightarrow>
     length (filter (\<lambda>(i, _). i \<notin> D) (enumerate k xs)) = length xs - card D"
proof -
  assume D: "D \<subseteq> {k..<k + length xs}"
  have "length (filter (\<lambda>(i, _). i \<notin> D) (enumerate k xs)) =
      length (filter (\<lambda>i. i \<notin> D) (map fst (enumerate k xs)))"
  proof -
    have "(\<lambda>(i, _). i \<notin> D) = (\<lambda>i. i \<notin> D) \<circ> (fst :: nat \<times> 'a \<Rightarrow> nat)" by auto
    then show ?thesis by (simp only: filter_map length_map)
  qed
  also have "\<dots> = length (filter (\<lambda>i. i \<notin> D) [k..<k + length xs])" by simp
  also have "\<dots> = card (set (filter (\<lambda>i. i \<notin> D) [k..<k + length xs]))"
    by (rule distinct_card [symmetric]) simp
  also have "set (filter (\<lambda>i. i \<notin> D) [k..<k + length xs]) = {k..<k + length xs} - D" by auto
  also have "card ({k..<k + length xs} - D) = length xs - card D" using D by (simp add: card_Diff_subset finite_subset [OF D])
  finally show ?thesis .
qed

lemma distinct_drop_indices: "distinct (drop_indices now k ls)"
proof -
  have "distinct (map fst (inactive_candidates now ls))"
  proof -
    have "map fst (inactive_candidates now ls) =
        map fst (filter (\<lambda>(i, l). \<not> active_at now l) (enumerate 0 ls))"
      by (simp add: inactive_candidates_def case_prod_beta)
    moreover have "distinct (map fst (enumerate 0 ls))" by simp
    ultimately show ?thesis by (metis distinct_map_filter)
  qed
  then have "distinct (map fst (sort_key snd (inactive_candidates now ls)))"
    by (simp add: distinct_map)
  then show ?thesis unfolding drop_indices_def by (metis distinct_take take_map)
qed

lemma length_inactive_candidates: "length (inactive_candidates now ls) = length (inactives now ls)"
proof -
  have "length (filter (\<lambda>(i, l). \<not> active_at now l) (enumerate k ls)) = length (inactives now ls)" for k
    by (induction ls arbitrary: k) (simp_all add: inactives_def)
  then show ?thesis by (simp add: inactive_candidates_def)
qed

lemma length_split: "length ls = length (actives now ls) + length (inactives now ls)"
  unfolding actives_def inactives_def by (rule sum_length_filter_compl [symmetric])

lemma drop_oldest_bound: "length (inactives now (drop_oldest now ls)) \<le> max_inactive_lease_history"
proof (cases "max_inactive_lease_history < length (inactives now ls)")
  case True
  let ?k = "length (inactives now ls) - max_inactive_lease_history"
  let ?D = "set (drop_indices now ?k ls)"
  have "?D \<subseteq> {0..<0 + length ls}"
    using drop_indices_inactive by (fastforce simp: in_set_enumerate_eq)
  moreover have "card ?D = ?k"
    using True by (simp add: distinct_card [OF distinct_drop_indices])
      (simp add: drop_indices_def length_inactive_candidates)
  moreover have "drop_oldest now ls = map snd (filter (\<lambda>(i, _). i \<notin> ?D) (enumerate 0 ls))"
    using True by (simp add: drop_oldest_def inactives_def Let_def)
  ultimately have "length (drop_oldest now ls) = length ls - ?k"
    by (simp only: length_map length_filter_enumerate)
  with length_split [of "drop_oldest now ls" now] length_split [of ls now] True show ?thesis
    by simp
next
  case False
  then show ?thesis by (simp add: drop_oldest_def inactives_def Let_def)
qed

lemma compact_bound: "length (inactives now (compact_lease_history now ls)) \<le> max_inactive_lease_history"
  by (simp add: compact_lease_history_def drop_oldest_bound)

subsection \<open>Acquiring and releasing\<close>

lemma replace_first_Some:
  "replace_first P y xs = Some ys \<Longrightarrow>
     \<exists>us x vs. xs = us @ x # vs \<and> P x \<and> ys = us @ y # vs"
proof (induction xs arbitrary: ys)
  case (Cons x xs)
  show ?case
  proof (cases "P x")
    case False
    with Cons.prems obtain zs where "replace_first P y xs = Some zs" "ys = x # zs" by auto
    with Cons.IH obtain us x' vs where "xs = us @ x' # vs" "P x'" "zs = us @ y # vs" by blast
    then have "x # xs = (x # us) @ x' # vs \<and> P x' \<and> ys = (x # us) @ y # vs"
      using \<open>ys = x # zs\<close> by simp
    with False show ?thesis by blast
  qed (use Cons.prems in force)
qed simp

lemma replace_first_None: "replace_first P y xs = None \<longleftrightarrow> (\<forall>x \<in> set xs. \<not> P x)"
  by (induction xs) auto

text \<open>No two workers hold the same checkout.\<close>

definition leaf_exclusive :: "u64 \<Rightarrow> lease_record list \<Rightarrow> bool" where
  "leaf_exclusive now ls \<longleftrightarrow>
     (\<forall>res o1 o2. (LeafWorker, res, o1) \<in> claims now ls \<longrightarrow> (LeafWorker, res, o2) \<in> claims now ls \<longrightarrow>
        o1 = o2)"

lemma leaf_exclusive_mono:
  "leaf_exclusive now ls \<Longrightarrow> claims now' ls' \<subseteq> claims now ls \<Longrightarrow> leaf_exclusive now' ls'"
  unfolding leaf_exclusive_def by blast

abbreviation same_claim :: "u64 \<Rightarrow> lease_record \<Rightarrow> lease_record \<Rightarrow> bool" where
  "same_claim now r l \<equiv> active_at now l \<and> lr_kind l = lr_kind r \<and> lr_resource l = lr_resource r \<and>
     lr_owner l = lr_owner r"

lemma acquire_loop_Cons:
  assumes "acquire_loop now (r # rs) ls = Ok ls'"
  obtains (renewed) us x vs where "ls = us @ x # vs" "same_claim now r x"
      "acquire_loop now rs (us @ r # vs) = Ok ls'"
  | (pushed) "acquire_loop now rs (ls @ [r]) = Ok ls'"
      "\<And>l. l \<in> set ls \<Longrightarrow> active_at now l \<Longrightarrow> lr_kind l = LeafWorker \<Longrightarrow> lr_kind r = LeafWorker \<Longrightarrow>
         lr_resource l = lr_resource r \<Longrightarrow> lr_owner l = lr_owner r"
proof (cases "replace_first (same_claim now r) r ls")
  case None
  with assms show ?thesis
    by (intro pushed) (auto simp: find_None_iff split: option.splits)
next
  case (Some ms)
  with assms replace_first_Some [OF Some] show ?thesis by (auto intro: renewed)
qed

lemma claims_replace:
  assumes "ls = us @ x # vs" and "same_claim now r x"
  shows "claims now (us @ r # vs) \<subseteq> claims now ls"
    and "active_at now r \<Longrightarrow> claims now (us @ r # vs) = claims now ls \<union> {lease_key r}"
  using assms by (auto simp: claims_def lease_key_def)

lemma acquire_loop_claims:
  "acquire_loop now rs ls = Ok ls' \<Longrightarrow> list_all (active_at now) rs \<Longrightarrow>
     claims now ls' = claims now ls \<union> lease_key ` set rs"
proof (induction rs arbitrary: ls)
  case (Cons r rs)
  have r: "active_at now r" "list_all (active_at now) rs" using Cons.prems(2) by simp_all
  from Cons.prems(1) show ?case
  proof (cases rule: acquire_loop_Cons)
    case (renewed us x vs)
    with Cons.IH [OF renewed(3) r(2)] claims_replace(2) [OF renewed(1,2) r(1)] show ?thesis by simp
  next
    case pushed
    have "claims now (ls @ [r]) = claims now ls \<union> {lease_key r}"
      using r(1) by (simp add: claims_def insert_commute)
    with Cons.IH [OF pushed(1) r(2)] show ?thesis by simp
  qed
qed simp

lemma acquire_loop_exclusive:
  "acquire_loop now rs ls = Ok ls' \<Longrightarrow> leaf_exclusive now ls \<Longrightarrow> leaf_exclusive now ls'"
proof (induction rs arbitrary: ls)
  case (Cons r rs)
  from Cons.prems(1) show ?case
  proof (cases rule: acquire_loop_Cons)
    case (renewed us x vs)
    then show ?thesis
      using Cons.IH leaf_exclusive_mono [OF Cons.prems(2) claims_replace(1)] by blast
  next
    case pushed
    have new: "claims now (ls @ [r]) \<subseteq> insert (lease_key r) (claims now ls)"
      by (auto simp: claims_def)
    have "own = lr_owner r" if "(LeafWorker, res, own) \<in> claims now ls" "lr_kind r = LeafWorker"
        "res = lr_resource r" for res own
    proof -
      from that(1) obtain l where "l \<in> set ls" "active_at now l" "lease_key l = (LeafWorker, res, own)"
        by (auto simp: claims_def)
      with pushed(2) [of l] that(2,3) show ?thesis by (simp add: lease_key_def)
    qed
    note held = this
    have "leaf_exclusive now (ls @ [r])"
      unfolding leaf_exclusive_def
    proof (intro allI impI)
      fix res o1 o2
      assume "(LeafWorker, res, o1) \<in> claims now (ls @ [r])" "(LeafWorker, res, o2) \<in> claims now (ls @ [r])"
      with new have "(LeafWorker, res, o1) = lease_key r \<or> (LeafWorker, res, o1) \<in> claims now ls"
          "(LeafWorker, res, o2) = lease_key r \<or> (LeafWorker, res, o2) \<in> claims now ls" by blast+
      then show "o1 = o2"
        using held [of res o1] held [of res o2] Cons.prems(2)
        by (auto simp: lease_key_def leaf_exclusive_def)
    qed
    with Cons.IH [OF pushed(1)] show ?thesis by simp
  qed
qed simp

lemma stamp_actives: "actives now (stamp_where now sel t ls) = filter (\<lambda>l. \<not> sel l) (actives now ls)"
  by (induction ls) (auto simp: stamp_where_def active_at_def)

lemma release_actives [simp]:
  "actives now (release_where now sel t ls) = filter (\<lambda>l. \<not> sel l) (actives now ls)"
  by (simp add: release_where_def stamp_actives del: set_actives)

lemma any_active_iff: "any_active now sel ls \<longleftrightarrow> (\<exists>l \<in> set (actives now ls). sel l)"
  by (auto simp: any_active_def list_ex_iff)

subsection \<open>The contract of a release\<close>

text \<open>
  What a caller may assume of any operation that releases leases: among the active leases it
  removes exactly those it selects, by kind, resource and owner, it keeps the order of the
  others, and the inactive history stays bounded. Everything else about releases follows.
\<close>

locale lease_release =
  fixes op :: "u64 \<Rightarrow> u64 \<Rightarrow> 's \<Rightarrow> 's"
    and table :: "'s \<Rightarrow> lease_record list"
    and sel :: "u64 \<Rightarrow> 's \<Rightarrow> lease_record \<Rightarrow> bool"
  assumes op_actives: "actives now (table (op now t s)) = filter (\<lambda>l. \<not> sel now s l) (actives now (table s))"
    and op_history: "length (inactives now (table (op now t s))) \<le> max_inactive_lease_history"
    and sel_key: "lease_key l = lease_key l' \<Longrightarrow> sel now s l = sel now s l'"
begin

lemma op_keeps: "l \<in> set (table s) \<Longrightarrow> active_at now l \<Longrightarrow> \<not> sel now s l \<Longrightarrow> l \<in> set (table (op now t s))"
proof -
  assume "l \<in> set (table s)" "active_at now l" "\<not> sel now s l"
  then have "l \<in> set (actives now (table (op now t s)))" by (simp add: op_actives del: set_actives) simp
  then show ?thesis by simp
qed

lemma op_removes: "l \<in> set (table (op now t s)) \<Longrightarrow> active_at now l \<Longrightarrow> l \<in> set (table s) \<and> \<not> sel now s l"
proof -
  assume "l \<in> set (table (op now t s))" "active_at now l"
  then have "l \<in> set (actives now (table (op now t s)))" by simp
  then show ?thesis unfolding op_actives by simp
qed

lemma op_claims:
  "claims now (table (op now t s)) = {k \<in> claims now (table s). \<forall>l. lease_key l = k \<longrightarrow> \<not> sel now s l}"
proof (intro set_eqI iffI)
  fix k assume "k \<in> claims now (table (op now t s))"
  then obtain l where l: "l \<in> set (actives now (table s))" "\<not> sel now s l" "k = lease_key l"
    by (auto simp: claims_def op_actives simp del: set_actives)
  have "\<not> sel now s l'" if "lease_key l' = k" for l'
    using l(2) sel_key [of l' l now s] that l(3) by simp
  moreover have "k \<in> claims now (table s)"
    unfolding claims_def l(3) by (rule imageI) (rule l(1))
  ultimately show "k \<in> {k \<in> claims now (table s). \<forall>l. lease_key l = k \<longrightarrow> \<not> sel now s l}" by blast
next
  fix k assume k: "k \<in> {k \<in> claims now (table s). \<forall>l. lease_key l = k \<longrightarrow> \<not> sel now s l}"
  then obtain l where "l \<in> set (actives now (table s))" "k = lease_key l"
    by (auto simp: claims_def simp del: set_actives)
  moreover from this k have "\<not> sel now s l" by blast
  ultimately show "k \<in> claims now (table (op now t s))"
    unfolding claims_def op_actives by (intro image_eqI [of _ _ l]) simp_all
qed

lemma op_claims_subset: "claims now (table (op now t s)) \<subseteq> claims now (table s)"
  by (auto simp: op_claims)

lemma op_exclusive: "leaf_exclusive now (table s) \<Longrightarrow> leaf_exclusive now (table (op now t s))"
  by (erule leaf_exclusive_mono) (rule op_claims_subset)

lemma op_again: "actives now (table (op now t (op now t' s))) =
    filter (\<lambda>l. \<not> sel now s l \<and> \<not> sel now (op now t' s) l) (actives now (table s))"
  unfolding op_actives by simp

end

lemma release_where_contract:
  assumes "\<And>now l l'. lease_key l = lease_key l' \<Longrightarrow> sel now s l = sel now s l'"
  shows "actives now (release_where now (sel now s) t ls) = filter (\<lambda>l. \<not> sel now s l) (actives now ls)"
    and "length (inactives now (release_where now (sel now s) t ls)) \<le> max_inactive_lease_history"
  by (simp_all add: release_where_def compact_bound stamp_actives del: set_actives)

section \<open>Properties\<close>

text \<open>Compacting the lease history never touches an active lease: the active leases stay,
  in order, the result is a sublist of the table, and at most 256 inactive leases remain.\<close>

theorem compaction_keeps_active:
  "filter (active_at now) (compact_lease_history now ls) = filter (active_at now) ls \<and>
   subseq (compact_lease_history now ls) ls \<and>
   length (filter (\<lambda>l. \<not> active_at now l) (compact_lease_history now ls)) \<le> 256"
  using compact_actives [of now ls] compact_subseq [of now ls] compact_bound [of now ls]
  by (simp add: actives_def inactives_def max_inactive_lease_history_def)

text \<open>Two leaf workers never hold one checkout: acquiring leases keeps the active leaf
  claims exclusive, at that instant and at any later one, and a successful acquisition adds
  exactly the requested claims to those that were active.\<close>

theorem acquire_exclusive:
  assumes "acquire now rs ls = Ok ls'" and "leaf_exclusive now ls"
    and "list_all (active_at now) rs" and "now \<le> later"
  shows "leaf_exclusive now ls' \<and> leaf_exclusive later ls' \<and>
         claims now ls' = claims now ls \<union> lease_key ` set rs"
proof -
  from assms(1) obtain ms where ms: "acquire_loop now rs ls = Ok ms" "ls' = compact_lease_history now ms"
    by (auto simp: acquire_def split: sum.splits)
  then have ex: "leaf_exclusive now ls'"
    using acquire_loop_exclusive [OF ms(1) assms(2)] by (simp add: leaf_exclusive_def)
  have "active_at later l \<Longrightarrow> active_at now l" for l
    using assms(4) by (cases "lr_expires_at l") (auto simp: active_at_def is_none_or_def)
  then have "claims later ls' \<subseteq> claims now ls'" by (auto simp: claims_def)
  with ex have "leaf_exclusive later ls'" by (rule leaf_exclusive_mono)
  with ex acquire_loop_claims [OF ms(1) assms(3)] ms(2) show ?thesis by simp
qed

definition demo_lease :: "string \<Rightarrow> lease_record" where
  "demo_lease i =
     \<lparr>lr_kind = LeafWorker,
      lr_resource = LeaseResource (IssueId i) (CanonicalRepositoryId ''r'') ''g1'',
      lr_owner = leaf_worker (IssueId i), lr_hierarchy_generation = 1, lr_acquired_at = 5,
      lr_expires_at = None, lr_released_at = None\<rparr>"

theorem acquire_exclusive_witness:
  "\<exists>ls. acquire 5 [demo_lease ''a'', demo_lease ''b''] [] = Ok ls \<and> leaf_exclusive 9 ls \<and>
     lease_key (demo_lease ''a'') \<in> claims 5 ls"
proof -
  have "acquire_loop 5 [demo_lease ''a'', demo_lease ''b''] [] = Ok [demo_lease ''a'', demo_lease ''b'']"
    by (simp add: demo_lease_def leaf_worker_def)
  then obtain ls where a: "acquire 5 [demo_lease ''a'', demo_lease ''b''] [] = Ok ls"
    by (auto simp: acquire_def)
  have "leaf_exclusive 5 []" "list_all (active_at 5) [demo_lease ''a'', demo_lease ''b'']"
    by (simp_all add: leaf_exclusive_def claims_def active_at_def demo_lease_def is_none_or_def)
  from acquire_exclusive [OF a this, of 9] a show ?thesis by auto
qed

end
