(* ===== verification/Hierarchy.thy ===== *)
theory Hierarchy
  imports Issues Leases "HOL-Library.Multiset"
begin

text \<open>
  The hierarchy snapshot of one parent issue in \<open>opensymphony-orchestrator/src/hierarchy.rs\<close>:
  its child edges, the reconciliation of a changed scope, the dispatch fences, and the evidence
  a parent needs before it may integrate. A \<open>None\<close> of \<open>child_edges\<close> and of the operations
  that build edges is the panic of \<open>expect\<close> on a blank tracker id.
\<close>

section \<open>Edges and snapshots\<close>

record hierarchy_child_edge =
  he_child_id :: issue_id
  he_child_identifier :: issue_identifier
  he_required :: bool

datatype hierarchy_blocked_reason =
    HierarchyChanged | MissingMergeEvidence | MissingTargetCommit | MissingCheckoutEvidence
  | UnresolvedFailure string | StaleGeneration

datatype hierarchy_reconciliation =
    Unchanged | GenerationAdvanced u64 | BlockedForReplanning u64

record required_merge_commit =
  rm_repository_id :: "canonical_repository_id option"
  rm_commit :: string

record hierarchy_snapshot =
  hs_parent_id :: issue_id
  hs_generation :: u64
  hs_required_child_edges :: "hierarchy_child_edge list"
  hs_frozen :: bool
  hs_blocked_reason :: "hierarchy_blocked_reason option"
  hs_eligibility_blocked_reason :: "hierarchy_blocked_reason option"
  hs_dispatched_generation :: "u64 option"
  hs_dispatch_intent_generation :: "u64 option"
  hs_in_flight_generation :: "u64 option"
  hs_dispatch_required_merge_commits :: "required_merge_commit list"

definition expect_ok :: "'e + 'a \<Rightarrow> 'a option" where
  "expect_ok r = (case r of Ok x \<Rightarrow> Some x | Err _ \<Rightarrow> None)"

definition edge_required :: "string list \<Rightarrow> tracker_issue_ref \<Rightarrow> bool" where
  "edge_required canceled_states child \<longleftrightarrow>
     tr_state_kind child \<noteq> KCanceled \<and>
     \<not> list_ex (\<lambda>configured. str_contains (to_ascii_lowercase configured) ''cancel'' \<and>
                  eq_ignore_ascii_case (trim configured) (trim (tr_state child))) canceled_states"

definition child_edge :: "string list \<Rightarrow> tracker_issue_ref \<Rightarrow> hierarchy_child_edge option" where
  "child_edge canceled_states child =
     (case expect_ok (issue_id_new (tr_id child)) of
        None \<Rightarrow> None
      | Some i \<Rightarrow>
          (case expect_ok (issue_identifier_new (tr_identifier child)) of
             None \<Rightarrow> None
           | Some ident \<Rightarrow> Some \<lparr>he_child_id = i, he_child_identifier = ident,
                 he_required = edge_required canceled_states child\<rparr>))"

text \<open>\<open>From<&TrackerIssueRef>\<close>: without configured states.\<close>

definition edge_from_ref :: "tracker_issue_ref \<Rightarrow> hierarchy_child_edge option" where
  "edge_from_ref child =
     Option.bind (expect_ok (issue_id_new (tr_id child))) (\<lambda>i.
     map_option (\<lambda>ident. \<lparr>he_child_id = i, he_child_identifier = ident,
                          he_required = (tr_state_kind child \<noteq> KCanceled)\<rparr>)
       (expect_ok (issue_identifier_new (tr_identifier child))))"

fun collect_options :: "'a option list \<Rightarrow> 'a list option" where
  "collect_options [] = Some []"
| "collect_options (x # xs) =
     (case x of None \<Rightarrow> None | Some y \<Rightarrow> map_option ((#) y) (collect_options xs))"

definition child_edges :: "string list \<Rightarrow> tracker_issue_ref list \<Rightarrow> hierarchy_child_edge list option" where
  "child_edges canceled_states children =
     map_option (sort_key he_child_id) (collect_options (map (child_edge canceled_states) children))"

definition snapshot_new_with_canceled_states ::
  "tracker_issue \<Rightarrow> string list \<Rightarrow> hierarchy_snapshot option" where
  "snapshot_new_with_canceled_states parent canceled_states =
     Option.bind (expect_ok (issue_id_new (ti_id parent))) (\<lambda>i.
     map_option (\<lambda>edges.
       \<lparr>hs_parent_id = i, hs_generation = 1, hs_required_child_edges = edges, hs_frozen = False,
        hs_blocked_reason = None, hs_eligibility_blocked_reason = None,
        hs_dispatched_generation = None, hs_dispatch_intent_generation = None,
        hs_in_flight_generation = None, hs_dispatch_required_merge_commits = []\<rparr>)
       (child_edges canceled_states (ti_sub_issues parent)))"

definition snapshot_new :: "tracker_issue \<Rightarrow> hierarchy_snapshot option" where
  "snapshot_new parent = snapshot_new_with_canceled_states parent []"

section \<open>Reconciliation\<close>

definition scope_of :: "hierarchy_child_edge list \<Rightarrow> (issue_id \<times> bool) set" where
  "scope_of edges = set (map (\<lambda>e. (he_child_id e, he_required e)) edges)"

text \<open>\<open>reconcile_with_canceled_states\<close> once the edges are built.\<close>

definition reconcile_edges ::
  "hierarchy_child_edge list \<Rightarrow> hierarchy_snapshot \<Rightarrow> hierarchy_snapshot \<times> hierarchy_reconciliation" where
  "reconcile_edges next_edges s =
     (if next_edges = hs_required_child_edges s then (s, Unchanged)
      else if scope_of (hs_required_child_edges s) = scope_of next_edges
      then (s\<lparr>hs_required_child_edges := next_edges\<rparr>, Unchanged)
      else
        let generation = saturating_add (hs_generation s) 1;
            s' = s\<lparr>hs_generation := generation, hs_required_child_edges := next_edges,
                   hs_eligibility_blocked_reason := None,
                   hs_in_flight_generation :=
                     (if hs_frozen s \<and> hs_dispatched_generation s = Some (hs_generation s)
                      then or_else (hs_in_flight_generation s) (Some (hs_generation s))
                      else hs_in_flight_generation s),
                   hs_dispatched_generation := None, hs_dispatch_intent_generation := None,
                   hs_dispatch_required_merge_commits := []\<rparr>
        in if hs_frozen s
           then (s'\<lparr>hs_blocked_reason := Some HierarchyChanged\<rparr>, BlockedForReplanning generation)
           else (s'\<lparr>hs_blocked_reason := None\<rparr>, GenerationAdvanced generation))"

definition reconcile_with_canceled_states ::
  "tracker_issue_ref list \<Rightarrow> string list \<Rightarrow> hierarchy_snapshot \<Rightarrow>
     (hierarchy_snapshot \<times> hierarchy_reconciliation) option" where
  "reconcile_with_canceled_states children canceled_states s =
     map_option (\<lambda>edges. reconcile_edges edges s) (child_edges canceled_states children)"

definition reconcile ::
  "tracker_issue_ref list \<Rightarrow> hierarchy_snapshot \<Rightarrow>
     (hierarchy_snapshot \<times> hierarchy_reconciliation) option" where
  "reconcile children s = reconcile_with_canceled_states children [] s"

section \<open>Fences\<close>

definition freeze :: "hierarchy_snapshot \<Rightarrow> hierarchy_blocked_reason + hierarchy_snapshot" where
  "freeze s =
     (case hs_blocked_reason s of
        Some reason \<Rightarrow> Err reason
      | None \<Rightarrow> Ok (s\<lparr>hs_frozen := True\<rparr>))"

definition accepts_event :: "u64 \<Rightarrow> hierarchy_snapshot \<Rightarrow> bool" where
  "accepts_event generation s \<longleftrightarrow> generation = hs_generation s \<and> hs_blocked_reason s = None"

definition replan :: "hierarchy_snapshot \<Rightarrow> hierarchy_snapshot" where
  "replan s =
     s\<lparr>hs_frozen := False, hs_blocked_reason := None, hs_eligibility_blocked_reason := None,
       hs_dispatched_generation := None, hs_dispatch_intent_generation := None,
       hs_dispatch_required_merge_commits := [], hs_in_flight_generation := None\<rparr>"

definition mark_dispatch_intent :: "hierarchy_snapshot \<Rightarrow> hierarchy_snapshot" where
  "mark_dispatch_intent s = s\<lparr>hs_dispatch_intent_generation := Some (hs_generation s)\<rparr>"

definition clear_dispatch_intent :: "hierarchy_snapshot \<Rightarrow> hierarchy_snapshot" where
  "clear_dispatch_intent s =
     s\<lparr>hs_dispatch_intent_generation := None, hs_dispatch_required_merge_commits := []\<rparr>"

definition dispatch_intended :: "hierarchy_snapshot \<Rightarrow> bool" where
  "dispatch_intended s \<longleftrightarrow> hs_dispatch_intent_generation s = Some (hs_generation s)"

definition restore_in_flight_dispatch_for_generation ::
  "u64 \<Rightarrow> hierarchy_snapshot \<Rightarrow> hierarchy_snapshot \<times> bool" where
  "restore_in_flight_dispatch_for_generation generation s =
     (if hs_in_flight_generation s = Some generation then (s, False)
      else (s\<lparr>hs_in_flight_generation := Some generation\<rparr>, True))"

definition restore_in_flight_dispatch :: "hierarchy_snapshot \<Rightarrow> hierarchy_snapshot \<times> bool" where
  "restore_in_flight_dispatch s =
     (case hs_dispatch_intent_generation s of
        None \<Rightarrow> (s, False)
      | Some generation \<Rightarrow> restore_in_flight_dispatch_for_generation generation s)"

definition restore_recovered_dispatch_fence :: "hierarchy_snapshot \<Rightarrow> hierarchy_snapshot \<times> bool" where
  "restore_recovered_dispatch_fence s =
     (case or_else (hs_dispatch_intent_generation s) (hs_dispatched_generation s) of
        None \<Rightarrow> (s, False)
      | Some generation \<Rightarrow> restore_in_flight_dispatch_for_generation generation s)"

definition mark_dispatched :: "hierarchy_snapshot \<Rightarrow> hierarchy_snapshot" where
  "mark_dispatched s =
     s\<lparr>hs_dispatched_generation := Some (hs_generation s), hs_dispatch_intent_generation := None,
       hs_dispatch_required_merge_commits := [], hs_in_flight_generation := None\<rparr>"

definition dispatch_claimed :: "hierarchy_snapshot \<Rightarrow> bool" where
  "dispatch_claimed s \<longleftrightarrow> hs_dispatched_generation s = Some (hs_generation s)"

definition has_in_flight_dispatch :: "hierarchy_snapshot \<Rightarrow> bool" where
  "has_in_flight_dispatch s \<longleftrightarrow> hs_in_flight_generation s \<noteq> None"

definition has_dispatched_execution_fence :: "hierarchy_snapshot \<Rightarrow> bool" where
  "has_dispatched_execution_fence s \<longleftrightarrow> dispatch_claimed s \<or> hs_in_flight_generation s \<noteq> None"

definition clear_in_flight_dispatch :: "hierarchy_snapshot \<Rightarrow> hierarchy_snapshot \<times> bool" where
  "clear_in_flight_dispatch s =
     (s\<lparr>hs_in_flight_generation := None\<rparr>, hs_in_flight_generation s \<noteq> None)"

section \<open>Eligibility\<close>

record provider_evidence_boundary =
  pe_issue_id :: issue_id
  pe_evidence_at :: timestamp_ms

record child_eligibility_evidence =
  ce_child_id :: issue_id
  ce_hierarchy_generation :: u64
  ce_orchestrator_terminal :: bool
  ce_provider_merge_confirmed :: bool
  ce_merge_required :: bool
  ce_merge_result_commit :: "string option"
  ce_merge_result_commits :: "string list"
  ce_merge_result_commits_by_repository :: "required_merge_commit list"
  ce_merge_repository_id :: "canonical_repository_id option"
  ce_merge_repository_ids :: "canonical_repository_id list"
  ce_provider_evidence_at :: "timestamp_ms option"
  ce_provider_evidence_by_issue :: "provider_evidence_boundary list"
  ce_resource :: "lease_resource option"
  ce_resources :: "lease_resource list"
  ce_unresolved_failure :: "string option"

record parent_eligibility_evidence =
  pe_hierarchy_generation :: u64
  pe_children :: "child_eligibility_evidence list"

definition tracker_only_child :: "u64 \<Rightarrow> issue_id \<Rightarrow> child_eligibility_evidence" where
  "tracker_only_child generation i =
     \<lparr>ce_child_id = i, ce_hierarchy_generation = generation, ce_orchestrator_terminal = False,
      ce_provider_merge_confirmed = False, ce_merge_required = True,
      ce_merge_result_commit = None, ce_merge_result_commits = [],
      ce_merge_result_commits_by_repository = [], ce_merge_repository_id = None,
      ce_merge_repository_ids = [], ce_provider_evidence_at = None,
      ce_provider_evidence_by_issue = [], ce_resource = None, ce_resources = [],
      ce_unresolved_failure = None\<rparr>"

definition tracker_only :: "tracker_issue \<Rightarrow> u64 \<Rightarrow> parent_eligibility_evidence option" where
  "tracker_only parent generation =
     map_option (\<lambda>ids. \<lparr>pe_hierarchy_generation = generation,
                        pe_children = map (tracker_only_child generation) ids\<rparr>)
       (collect_options (map (\<lambda>c. expect_ok (issue_id_new (tr_id c))) (ti_sub_issues parent)))"

definition tracker_only_for_snapshot :: "hierarchy_snapshot \<Rightarrow> parent_eligibility_evidence" where
  "tracker_only_for_snapshot s =
     \<lparr>pe_hierarchy_generation = hs_generation s,
      pe_children = map (\<lambda>e. tracker_only_child (hs_generation s) (he_child_id e))
                      (hs_required_child_edges s)\<rparr>"

definition child_resources :: "child_eligibility_evidence \<Rightarrow> lease_resource list" where
  "child_resources c = (if ce_resources c = [] then opt_list (ce_resource c) else ce_resources c)"

definition resources_cover :: "child_eligibility_evidence \<Rightarrow> canonical_repository_id \<Rightarrow> bool" where
  "resources_cover c r \<longleftrightarrow> list_ex (\<lambda>res. res_repository_id res = r) (child_resources c)"

text \<open>One iteration of the loop of \<open>eligible_for\<close>: the error it returns, if any.\<close>

definition child_blocked ::
  "hierarchy_snapshot \<Rightarrow> child_eligibility_evidence \<Rightarrow> hierarchy_blocked_reason option" where
  "child_blocked s c =
     (if ce_hierarchy_generation c \<noteq> hs_generation s then Some StaleGeneration
      else if \<not> ce_orchestrator_terminal c
      then Some (UnresolvedFailure ''child orchestrator outcome is not terminal'')
      else if ce_unresolved_failure c \<noteq> None
      then map_option UnresolvedFailure (ce_unresolved_failure c)
      else if \<not> ce_merge_required c
      then (if ce_merge_result_commit c \<noteq> None \<or> ce_merge_result_commits c \<noteq> [] \<or>
               ce_merge_repository_id c \<noteq> None \<or> ce_merge_repository_ids c \<noteq> [] \<or>
               ce_resource c \<noteq> None \<or> ce_resources c \<noteq> []
            then Some MissingCheckoutEvidence else None)
      else if \<not> ce_provider_merge_confirmed c then Some MissingMergeEvidence
      else if is_none_or (\<lambda>commit. trim commit = []) (ce_merge_result_commit c) \<and>
              ce_merge_result_commits c = []
      then Some MissingTargetCommit
      else if list_ex (\<lambda>commit. is_none_or (\<lambda>r. \<not> resources_cover c r) (rm_repository_id commit))
                (ce_merge_result_commits_by_repository c)
      then Some MissingCheckoutEvidence
      else if list_ex (\<lambda>r. \<not> resources_cover c r)
                (if ce_merge_repository_ids c = [] then opt_list (ce_merge_repository_id c)
                 else ce_merge_repository_ids c)
      then Some MissingCheckoutEvidence
      else if child_resources c = [] then Some MissingCheckoutEvidence
      else if ce_resources c = [] \<and>
              is_some_and (\<lambda>res. res_issue_id res \<noteq> ce_child_id c) (ce_resource c)
      then Some MissingCheckoutEvidence
      else None)"

definition required_ids :: "hierarchy_snapshot \<Rightarrow> issue_id list" where
  "required_ids s = map he_child_id (filter he_required (hs_required_child_edges s))"

definition eligible_for ::
  "parent_eligibility_evidence \<Rightarrow> hierarchy_snapshot \<Rightarrow> hierarchy_blocked_reason + unit" where
  "eligible_for ev s =
     (if hs_blocked_reason s \<noteq> None \<or> pe_hierarchy_generation ev \<noteq> hs_generation s
      then Err StaleGeneration
      else if set (required_ids s) \<noteq> set (map ce_child_id (pe_children ev)) then Err HierarchyChanged
      else case find_map (child_blocked s) (pe_children ev) of
             Some reason \<Rightarrow> Err reason
           | None \<Rightarrow> Ok ())"

definition integration_leases ::
  "parent_eligibility_evidence \<Rightarrow> issue_id \<Rightarrow> u64 \<Rightarrow> lease_record list" where
  "integration_leases ev parent_id now =
     map (\<lambda>res. \<lparr>lr_kind = AncestorIntegration, lr_resource = res, lr_owner = ancestor parent_id,
                 lr_hierarchy_generation = pe_hierarchy_generation ev, lr_acquired_at = now,
                 lr_expires_at = None, lr_released_at = None\<rparr>)
       (concat (map child_resources (pe_children ev)))"

section \<open>Lemmas\<close>

lemma collect_options_Some: "collect_options xs = Some ys \<longleftrightarrow> xs = map Some ys"
  by (induction xs arbitrary: ys) (auto split: option.splits)

subsection \<open>Edges\<close>

lemma issue_id_new_Ok: "expect_ok (issue_id_new v) = Some i \<Longrightarrow> i = IssueId v"
  by (auto simp: expect_ok_def issue_id_new_def string_identifier_new_def split: if_splits)

lemma child_edge_id: "child_edge canceled c = Some e \<Longrightarrow> he_child_id e = IssueId (tr_id c)"
  by (auto simp: child_edge_def dest: issue_id_new_Ok split: option.splits)

lemma child_edges_Some:
  "child_edges canceled cs = Some edges \<longleftrightarrow>
     (\<exists>es. map (child_edge canceled) cs = map Some es \<and> edges = sort_key he_child_id es)"
  by (auto simp: child_edges_def collect_options_Some)

lemma map_eq_map_Some:
  "map f xs = map Some ys \<longleftrightarrow> (\<forall>x \<in> set xs. f x \<noteq> None) \<and> ys = map (the \<circ> f) xs"
proof (induction xs arbitrary: ys)
  case (Cons x xs)
  then show ?case by (cases ys; cases "f x") auto
qed simp

lemma child_edges_perm:
  assumes perm: "mset cs' = mset cs" and dist: "distinct (map tr_id cs)"
    and edges: "child_edges canceled cs = Some edges"
  shows "child_edges canceled cs' = Some edges"
proof -
  let ?edge = "the \<circ> child_edge canceled"
  from edges have ok: "\<forall>c \<in> set cs. child_edge canceled c \<noteq> None"
    and es: "edges = sort_key he_child_id (map ?edge cs)"
    by (auto simp: child_edges_Some map_eq_map_Some)
  have id: "he_child_id (?edge c) = IssueId (tr_id c)" if "c \<in> set cs" for c
    using ok that child_edge_id [of canceled c "?edge c"] by auto
  have set_eq: "set cs' = set cs" using perm by (rule mset_eq_setD)
  have "inj_on tr_id (set cs)" using dist by (simp add: distinct_map)
  then have inj: "inj_on he_child_id (set (map ?edge cs'))"
    using id by (auto simp: inj_on_def set_eq)
  have "mset (map ?edge cs') = mset edges"
    using perm by (simp add: es)
  from sort_key_inj_key_eq [OF this inj] have "sort_key he_child_id (map ?edge cs') = edges"
    by (simp add: es)
  then show ?thesis using ok by (auto simp: child_edges_Some map_eq_map_Some set_eq)
qed

subsection \<open>Fences\<close>

text \<open>The generation of the worker that may still be running.\<close>

definition fence_generation :: "hierarchy_snapshot \<Rightarrow> u64 option" where
  "fence_generation s =
     or_else (hs_in_flight_generation s) (if dispatch_claimed s then Some (hs_generation s) else None)"

text \<open>What may happen to a snapshot while a dispatched worker is running.\<close>

inductive scope_step :: "hierarchy_snapshot \<Rightarrow> hierarchy_snapshot \<Rightarrow> bool" where
  scope_reconcile: "reconcile_with_canceled_states children canceled s = Some (s', r) \<Longrightarrow> scope_step s s'"
| scope_freeze: "freeze s = Ok s' \<Longrightarrow> scope_step s s'"
| scope_intent: "scope_step s (mark_dispatch_intent s)"
| scope_clear_intent: "scope_step s (clear_dispatch_intent s)"

inductive_cases scope_stepE: "scope_step s s'"

lemma reconcile_edges_fence:
  "hs_frozen s \<Longrightarrow> fence_generation s = Some g \<Longrightarrow>
     hs_frozen (fst (reconcile_edges edges s)) \<and> fence_generation (fst (reconcile_edges edges s)) = Some g"
  by (auto simp: reconcile_edges_def fence_generation_def dispatch_claimed_def or_else_def Let_def
      split: option.splits if_splits)

lemma scope_step_fence:
  "scope_step s s' \<Longrightarrow> hs_frozen s \<Longrightarrow> fence_generation s = Some g \<Longrightarrow>
     hs_frozen s' \<and> fence_generation s' = Some g"
proof (induction rule: scope_step.induct)
  case (scope_reconcile children canceled s s' r)
  then obtain edges where "s' = fst (reconcile_edges edges s)"
    by (auto simp: reconcile_with_canceled_states_def) (metis fst_conv)
  with scope_reconcile.prems show ?case by (simp add: reconcile_edges_fence)
qed (auto simp: freeze_def mark_dispatch_intent_def clear_dispatch_intent_def fence_generation_def
      dispatch_claimed_def split: option.splits)

subsection \<open>Eligibility\<close>

lemma not_is_none_or: "\<not> is_none_or p x \<longleftrightarrow> is_some_and (\<lambda>y. \<not> p y) x"
  by (cases x) (simp_all add: is_none_or_def is_some_and_def)

lemma not_is_some_and: "\<not> is_some_and p x \<longleftrightarrow> is_none_or (\<lambda>y. \<not> p y) x"
  by (cases x) (simp_all add: is_none_or_def is_some_and_def)

lemma child_blocked_None:
  "child_blocked s c = None \<longleftrightarrow>
     ce_hierarchy_generation c = hs_generation s \<and> ce_orchestrator_terminal c \<and>
     ce_unresolved_failure c = None \<and>
     (if ce_merge_required c
      then ce_provider_merge_confirmed c \<and>
           (is_some_and (\<lambda>commit. trim commit \<noteq> []) (ce_merge_result_commit c) \<or>
            ce_merge_result_commits c \<noteq> []) \<and>
           (\<forall>commit \<in> set (ce_merge_result_commits_by_repository c).
              is_some_and (resources_cover c) (rm_repository_id commit)) \<and>
           (\<forall>r \<in> set (if ce_merge_repository_ids c = [] then opt_list (ce_merge_repository_id c)
                      else ce_merge_repository_ids c). resources_cover c r) \<and>
           child_resources c \<noteq> [] \<and>
           (ce_resources c = [] \<longrightarrow> is_none_or (\<lambda>res. res_issue_id res = ce_child_id c) (ce_resource c))
      else ce_merge_result_commit c = None \<and> ce_merge_result_commits c = [] \<and>
           ce_merge_repository_id c = None \<and> ce_merge_repository_ids c = [] \<and>
           ce_resource c = None \<and> ce_resources c = [])"
  by (cases "ce_unresolved_failure c"; cases "ce_merge_required c")
    (simp_all add: child_blocked_def list_ex_iff not_is_none_or not_is_some_and)

lemma eligible_for_Ok:
  "eligible_for ev s = Ok () \<longleftrightarrow>
     hs_blocked_reason s = None \<and> pe_hierarchy_generation ev = hs_generation s \<and>
     set (required_ids s) = ce_child_id ` set (pe_children ev) \<and>
     (\<forall>c \<in> set (pe_children ev). child_blocked s c = None)"
  unfolding find_map_None_iff [of "child_blocked s", symmetric]
  by (cases "find_map (child_blocked s) (pe_children ev)")
    (simp_all add: eligible_for_def del: find_map_None_iff)

section \<open>Properties\<close>

text \<open>Reconciling a parent's children changes the generation exactly when the scope (the
  children and which of them are required) changed. The new edges are always taken over; an
  unchanged scope changes nothing else; a changed one moves to the next generation, drops the
  dispatch marks of the old one and rejects its late events, and when the scope was frozen no
  event at all is accepted and it cannot be frozen again, until it is replanned.\<close>

theorem reconcile_advances_generation:
  assumes "reconcile_with_canceled_states children canceled s = Some (s', r)"
    and "child_edges canceled children = Some edges" and "unat (hs_generation s) < 2 ^ 64 - 1"
  shows "hs_required_child_edges s' = edges \<and>
    (if scope_of edges = scope_of (hs_required_child_edges s)
     then r = Unchanged \<and> s' = s\<lparr>hs_required_child_edges := edges\<rparr>
     else unat (hs_generation s') = Suc (unat (hs_generation s)) \<and>
          \<not> accepts_event (hs_generation s) s' \<and> \<not> dispatch_claimed s' \<and> \<not> dispatch_intended s' \<and>
          (if hs_frozen s
           then r = BlockedForReplanning (hs_generation s') \<and> freeze s' = Err HierarchyChanged \<and>
                (\<forall>g. \<not> accepts_event g s') \<and> accepts_event (hs_generation s') (replan s')
           else r = GenerationAdvanced (hs_generation s') \<and> accepts_event (hs_generation s') s'))"
proof -
  from assms(1,2) have rec: "reconcile_edges edges s = (s', r)"
    by (simp add: reconcile_with_canceled_states_def)
  have suc: "unat (saturating_add (hs_generation s) 1) = Suc (unat (hs_generation s))"
    using assms(3) by (simp add: word_nat)
  then have "hs_generation s \<noteq> saturating_add (hs_generation s) 1" by fastforce
  with rec suc show ?thesis
    by (auto simp: reconcile_edges_def accepts_event_def dispatch_claimed_def dispatch_intended_def
        freeze_def replan_def Let_def split: if_splits)
qed

definition demo_ref :: "string \<Rightarrow> tracker_issue_ref" where
  "demo_ref i =
     \<lparr>tr_id = i, tr_identifier = i, tr_title = None, tr_url = None, tr_state = ''Todo'',
      tr_state_kind = KUnstarted\<rparr>"

definition demo_edge :: "string \<Rightarrow> hierarchy_child_edge" where
  "demo_edge i =
     \<lparr>he_child_id = IssueId i, he_child_identifier = IssueIdentifier i, he_required = True\<rparr>"

definition demo_snapshot :: "string list \<Rightarrow> hierarchy_snapshot" where
  "demo_snapshot is =
     \<lparr>hs_parent_id = IssueId ''p'', hs_generation = 1, hs_required_child_edges = map demo_edge is,
      hs_frozen = True, hs_blocked_reason = None, hs_eligibility_blocked_reason = None,
      hs_dispatched_generation = Some 1, hs_dispatch_intent_generation = None,
      hs_in_flight_generation = None, hs_dispatch_required_merge_commits = []\<rparr>"

lemma demo_child_edges: "child_edges [] [demo_ref ''b'', demo_ref ''a''] = Some [demo_edge ''a'', demo_edge ''b'']"
  by code_simp

theorem reconcile_advances_generation_witness:
  "\<exists>s' r. reconcile_with_canceled_states [demo_ref ''b'', demo_ref ''a''] [] (demo_snapshot [''a'']) = Some (s', r) \<and>
     unat (hs_generation s') = 2 \<and> freeze s' = Err HierarchyChanged"
proof -
  let ?edges = "[demo_edge ''a'', demo_edge ''b'']" and ?s = "demo_snapshot [''a'']"
  obtain s' r where r: "reconcile_with_canceled_states [demo_ref ''b'', demo_ref ''a''] [] ?s = Some (s', r)"
    by (metis demo_child_edges option.map(2) reconcile_with_canceled_states_def surj_pair)
  have "scope_of ?edges \<noteq> scope_of (hs_required_child_edges ?s)"
    by (simp add: scope_of_def demo_snapshot_def demo_edge_def)
  with reconcile_advances_generation [OF r demo_child_edges] r show ?thesis
    by (simp add: demo_snapshot_def)
qed

text \<open>C7: the fence of a dispatched worker survives a changing scope: once a frozen generation
  was dispatched, no sequence of reconciliations, freezes and dispatch intents makes the
  snapshot forget the generation whose worker may still run.\<close>

theorem dispatch_fence_survives:
  assumes "scope_step\<^sup>*\<^sup>* s s'" and "hs_frozen s" and "dispatch_claimed s"
    and "hs_in_flight_generation s = None"
  shows "has_dispatched_execution_fence s' \<and>
    (hs_in_flight_generation s' = Some (hs_generation s) \<or>
     hs_generation s' = hs_generation s \<and> dispatch_claimed s')"
proof -
  have "hs_frozen s' \<and> fence_generation s' = Some (hs_generation s)"
    using assms(1)
  proof (induction rule: rtranclp_induct)
    case base
    then show ?case using assms by (simp add: fence_generation_def or_else_def)
  qed (auto dest: scope_step_fence)
  then show ?thesis
    by (auto simp: fence_generation_def has_dispatched_execution_fence_def or_else_def
        split: option.splits if_splits)
qed

theorem dispatch_fence_survives_witness:
  "\<exists>s'. scope_step (demo_snapshot [''a'']) s' \<and> \<not> dispatch_claimed s' \<and> has_dispatched_execution_fence s'"
proof -
  let ?s = "demo_snapshot [''a'']"
  let ?s' = "fst (reconcile_edges [demo_edge ''a'', demo_edge ''b''] ?s)"
  have "reconcile_with_canceled_states [demo_ref ''b'', demo_ref ''a''] [] ?s =
      Some (?s', snd (reconcile_edges [demo_edge ''a'', demo_edge ''b''] ?s))"
    by (simp add: reconcile_with_canceled_states_def demo_child_edges)
  then have step: "scope_step ?s ?s'" by (rule scope_reconcile)
  moreover have "\<not> dispatch_claimed ?s'"
    by (simp add: reconcile_edges_def demo_snapshot_def demo_edge_def scope_of_def dispatch_claimed_def Let_def)
  ultimately show ?thesis
    using dispatch_fence_survives [of ?s ?s']
    by (auto simp: demo_snapshot_def dispatch_claimed_def)
qed

text \<open>The order in which the tracker lists the children does not matter: a permuted list of
  distinct children reconciles to the very same snapshot.\<close>

theorem child_order_irrelevant:
  assumes "mset children' = mset children" and "distinct (map tr_id children)"
    and "child_edges canceled children = Some (hs_required_child_edges s)"
  shows "reconcile_with_canceled_states children' canceled s = Some (s, Unchanged)"
  using child_edges_perm [OF assms]
  by (simp add: reconcile_with_canceled_states_def reconcile_edges_def)

theorem child_order_irrelevant_witness:
  "reconcile_with_canceled_states [demo_ref ''a'', demo_ref ''b''] [] (demo_snapshot [''a'', ''b'']) =
     Some (demo_snapshot [''a'', ''b''], Unchanged)"
proof (rule child_order_irrelevant)
  show "mset [demo_ref ''a'', demo_ref ''b''] = mset [demo_ref ''b'', demo_ref ''a'']" by simp
  show "distinct (map tr_id [demo_ref ''b'', demo_ref ''a''])" by (simp add: demo_ref_def)
  show "child_edges [] [demo_ref ''b'', demo_ref ''a''] =
      Some (hs_required_child_edges (demo_snapshot [''a'', ''b'']))"
    by (simp add: demo_child_edges demo_snapshot_def)
qed

text \<open>C6: a parent found eligible is backed by its children: the evidence names exactly the
  required children, each of the current generation, terminal and without failure, and for a
  child whose merge is required the provider confirmed it and the leases the parent then
  acquires hold a checkout of that child and of every repository it merged into.\<close>

theorem eligible_parent_is_backed:
  assumes "eligible_for ev s = Ok ()"
  shows "set (required_ids s) = ce_child_id ` set (pe_children ev) \<and>
    (\<forall>c \<in> set (pe_children ev).
       ce_hierarchy_generation c = hs_generation s \<and> ce_orchestrator_terminal c \<and>
       ce_unresolved_failure c = None \<and>
       (ce_merge_required c \<longrightarrow> ce_provider_merge_confirmed c \<and>
          (\<exists>l \<in> set (integration_leases ev p now). active_at now l \<and> lr_owner l = ancestor p \<and>
             lr_hierarchy_generation l = hs_generation s \<and> lr_resource l \<in> set (child_resources c)) \<and>
          (\<forall>r \<in> set (ce_merge_repository_ids c).
             \<exists>l \<in> set (integration_leases ev p now). lr_resource l \<in> set (child_resources c) \<and>
               res_repository_id (lr_resource l) = r)))"
proof -
  let ?lease = "\<lambda>res. \<lparr>lr_kind = AncestorIntegration, lr_resource = res, lr_owner = ancestor p,
      lr_hierarchy_generation = pe_hierarchy_generation ev, lr_acquired_at = now,
      lr_expires_at = None, lr_released_at = None\<rparr>"
  have lease: "?lease res \<in> set (integration_leases ev p now)"
    if "c \<in> set (pe_children ev)" "res \<in> set (child_resources c)" for c res
    using that by (auto simp: integration_leases_def)
  have act: "active_at now (?lease res)" for res by (simp add: active_at_def is_none_or_def)
  have gen: "pe_hierarchy_generation ev = hs_generation s" using assms by (simp add: eligible_for_Ok)
  have none: "child_blocked s c = None" if "c \<in> set (pe_children ev)" for c
    using assms that by (simp only: eligible_for_Ok)
  note info = none [unfolded child_blocked_None]
  show ?thesis
  proof (intro conjI ballI impI)
    show "set (required_ids s) = ce_child_id ` set (pe_children ev)"
      using assms by (simp only: eligible_for_Ok)
  next
    fix c assume c: "c \<in> set (pe_children ev)"
    from info [OF c] show "ce_hierarchy_generation c = hs_generation s" "ce_orchestrator_terminal c"
      "ce_unresolved_failure c = None" by simp_all
  next
    fix c assume c: "c \<in> set (pe_children ev)" and m: "ce_merge_required c"
    note merge = info [OF c, unfolded if_P [OF m]]
    from merge show "ce_provider_merge_confirmed c" by (elim conjE)
    from merge have "child_resources c \<noteq> []" by (elim conjE)
    from lease [OF c hd_in_set [OF this]] hd_in_set [OF this] act gen
    show "\<exists>l \<in> set (integration_leases ev p now). active_at now l \<and> lr_owner l = ancestor p \<and>
        lr_hierarchy_generation l = hs_generation s \<and> lr_resource l \<in> set (child_resources c)"
      by (intro bexI) simp_all
    fix r assume r: "r \<in> set (ce_merge_repository_ids c)"
    then have "ce_merge_repository_ids c \<noteq> []" by auto
    with r merge have "resources_cover c r" by simp
    then obtain res where "res \<in> set (child_resources c)" "res_repository_id res = r"
      by (auto simp: resources_cover_def list_ex_iff)
    with lease [OF c this(1)] show "\<exists>l \<in> set (integration_leases ev p now).
        lr_resource l \<in> set (child_resources c) \<and> res_repository_id (lr_resource l) = r"
      by (intro bexI) simp_all
  qed
qed

definition demo_evidence :: parent_eligibility_evidence where
  "demo_evidence =
     \<lparr>pe_hierarchy_generation = 1,
      pe_children =
        [(tracker_only_child 1 (IssueId ''a''))
           \<lparr>ce_orchestrator_terminal := True, ce_provider_merge_confirmed := True,
            ce_merge_result_commit := Some ''c0ffee'',
            ce_merge_repository_ids := [CanonicalRepositoryId ''r''],
            ce_resources := [LeaseResource (IssueId ''a'') (CanonicalRepositoryId ''r'') ''g1'']\<rparr>]\<rparr>"

theorem eligible_parent_is_backed_witness:
  "eligible_for demo_evidence (demo_snapshot [''a'']) = Ok () \<and>
   (\<exists>l \<in> set (integration_leases demo_evidence (IssueId ''p'') 7).
      res_repository_id (lr_resource l) = CanonicalRepositoryId ''r'')"
proof -
  have t: "trim ''c0ffee'' = ''c0ffee''" by code_simp
  have e: "eligible_for demo_evidence (demo_snapshot [''a'']) = Ok ()"
    unfolding eligible_for_Ok child_blocked_None
    by (simp add: demo_evidence_def demo_snapshot_def required_ids_def demo_edge_def
        tracker_only_child_def resources_cover_def child_resources_def is_some_and_def t)
  from eligible_parent_is_backed [OF e, of "IssueId ''p''" 7] e show ?thesis
    by (simp add: demo_evidence_def tracker_only_child_def) blast
qed

text \<open>The tracker's word is not enough: evidence built from the tracker's state alone makes
  no parent with children eligible, whether the children are required or not.\<close>

theorem tracker_state_is_not_evidence:
  "eligible_for (tracker_only_for_snapshot s) s = Ok () \<longleftrightarrow>
     hs_blocked_reason s = None \<and> hs_required_child_edges s = []"
proof (cases "hs_required_child_edges s")
  case (Cons e es)
  have "\<not> ce_orchestrator_terminal (tracker_only_child g i)" for g i
    by (simp add: tracker_only_child_def)
  with Cons show ?thesis
    by (auto simp: eligible_for_Ok tracker_only_for_snapshot_def child_blocked_None)
qed (simp add: eligible_for_Ok tracker_only_for_snapshot_def required_ids_def)

end
