(* ===== verification/Worklist.thy ===== *)
theory Worklist
  imports Prelude
begin

text \<open>
  The two worklist loops the orchestrator and the planner walk their graphs with. A graph is
  an association list from a node to its successors. The stack is a list popped at its end, as
  \<open>Vec::pop\<close> does. In the first loop a node is marked when it is pushed, in the second when it
  is popped, and only nodes of a scope are followed. Both terminate on every finite graph and
  compute reachability.
\<close>

type_synonym 'a adjacency = "('a \<times> 'a list) list"

definition succs :: "'a adjacency \<Rightarrow> 'a \<Rightarrow> 'a list" where
  "succs adj x = unwrap_or (map_of adj x) []"

definition adj_nodes :: "'a adjacency \<Rightarrow> 'a set" where
  "adj_nodes adj = (\<Union>(x, ys) \<in> set adj. set ys)"

lemma finite_adj_nodes [simp]: "finite (adj_nodes adj)"
  by (auto simp: adj_nodes_def)

lemma succs_nodes: "y \<in> set (succs adj x) \<Longrightarrow> y \<in> adj_nodes adj"
  by (cases "map_of adj x") (auto simp: succs_def adj_nodes_def unwrap_or_def dest!: map_of_SomeD)

text \<open>\<open>BTreeSet::insert\<close> for each element in turn: the elements that were new, in order.\<close>

fun newly_inserted :: "'a set \<Rightarrow> 'a list \<Rightarrow> 'a list" where
  "newly_inserted seen [] = []"
| "newly_inserted seen (y # ys) =
     (if y \<in> seen then newly_inserted seen ys else y # newly_inserted (insert y seen) ys)"

lemma set_newly_inserted [simp]: "set (newly_inserted seen ys) = set ys - seen"
  by (induction seen ys rule: newly_inserted.induct) auto

lemma distinct_newly_inserted [simp]: "distinct (newly_inserted seen ys)"
  by (induction seen ys rule: newly_inserted.induct) auto

section \<open>Marking on push\<close>

lemma explore_push_measure:
  assumes ne: "pending \<noteq> []"
  shows "length (butlast pending @ newly_inserted seen (succs adj (last pending))) +
      card (adj_nodes adj - (seen \<union> set (newly_inserted seen (succs adj (last pending))))) <
    length pending + card (adj_nodes adj - seen)"
proof -
  define fresh where "fresh = newly_inserted seen (succs adj (last pending))"
  have sub: "set fresh \<subseteq> adj_nodes adj - seen" by (auto simp: fresh_def succs_nodes)
  have "adj_nodes adj - (seen \<union> set fresh) = (adj_nodes adj - seen) - set fresh" by auto
  then have "card (adj_nodes adj - (seen \<union> set fresh)) + card (set fresh) = card (adj_nodes adj - seen)"
    using sub card_Diff_subset [of "set fresh" "adj_nodes adj - seen"] card_mono [OF _ sub] by simp
  moreover have "card (set fresh) = length fresh"
    unfolding fresh_def by (intro distinct_card distinct_newly_inserted)
  ultimately have "card (adj_nodes adj - (seen \<union> set fresh)) + length fresh = card (adj_nodes adj - seen)"
    by simp
  with ne show ?thesis
    unfolding fresh_def [symmetric] by (cases pending rule: rev_cases) auto
qed

function explore_push :: "'a adjacency \<Rightarrow> 'a list \<Rightarrow> 'a set \<Rightarrow> 'a set" where
  "explore_push adj pending seen =
     (if pending = [] then seen
      else let fresh = newly_inserted seen (succs adj (last pending))
           in explore_push adj (butlast pending @ fresh) (seen \<union> set fresh))"
  by pat_completeness auto
termination
proof (relation "measure (\<lambda>(adj, pending, seen). length pending + card (adj_nodes adj - seen))")
  fix adj :: "'a adjacency" and pending seen fresh
  assume ne: "pending \<noteq> []" and fresh: "fresh = newly_inserted seen (succs adj (last pending))"
  from explore_push_measure [OF ne, where adj = adj and seen = seen]
  show "((adj, butlast pending @ fresh, seen \<union> set fresh), adj, pending, seen) \<in>
      measure (\<lambda>(adj, pending, seen). length pending + card (adj_nodes adj - seen))"
    by (simp add: fresh)
qed simp

declare explore_push.simps [simp del]

definition adj_edges :: "'a adjacency \<Rightarrow> ('a \<times> 'a) set" where
  "adj_edges adj = {(x, y). y \<in> set (succs adj x)}"

lemma closed_rtrancl:
  assumes "A \<subseteq> R" and "\<And>x y. x \<in> R \<Longrightarrow> (x, y) \<in> E \<Longrightarrow> y \<in> R"
  shows "E\<^sup>* `` A \<subseteq> R"
proof
  fix y assume "y \<in> E\<^sup>* `` A"
  then obtain x where "(x, y) \<in> E\<^sup>*" "x \<in> R" using assms(1) by auto
  then show "y \<in> R" by (induction rule: rtrancl_induct) (auto intro: assms(2))
qed

lemma explore_push_extends: "seen \<subseteq> explore_push adj pending seen"
proof (induction adj pending seen rule: explore_push.induct)
  case (1 adj pending seen)
  then show ?case
    by (cases "pending = []") (auto simp: explore_push.simps [of adj pending] explore_push.simps [of adj "[]"] Let_def)
qed

lemma explore_push_upper: "explore_push adj pending seen \<subseteq> (adj_edges adj)\<^sup>* `` (seen \<union> set pending)"
proof (induction adj pending seen rule: explore_push.induct)
  case (1 adj pending seen)
  show ?case
  proof (cases "pending = []")
    case False
    let ?E = "adj_edges adj" and ?x = "last pending"
    let ?fresh = "newly_inserted seen (succs adj ?x)"
    have "?x \<in> set pending" using False by simp
    then have "set ?fresh \<subseteq> ?E\<^sup>* `` (seen \<union> set pending)"
      by (auto simp: adj_edges_def)
    then have "seen \<union> set ?fresh \<union> set (butlast pending @ ?fresh) \<subseteq> ?E\<^sup>* `` (seen \<union> set pending)"
      using in_set_butlastD by fastforce
    then have "?E\<^sup>* `` (seen \<union> set ?fresh \<union> set (butlast pending @ ?fresh)) \<subseteq> ?E\<^sup>* `` (seen \<union> set pending)"
      by (intro closed_rtrancl) (auto intro: rtrancl_into_rtrancl)
    with "1.IH" [OF False refl] False show ?thesis
      by (simp add: explore_push.simps [of adj pending] Let_def)
  qed (auto simp: explore_push.simps)
qed

lemma explore_push_lower:
  assumes "set pending \<subseteq> seen" and "\<And>x. x \<in> seen \<Longrightarrow> x \<notin> set pending \<Longrightarrow> set (succs adj x) \<subseteq> seen"
  shows "(adj_edges adj)\<^sup>* `` seen \<subseteq> explore_push adj pending seen"
  using assms
proof (induction adj pending seen rule: explore_push.induct)
  case (1 adj pending seen)
  show ?case
  proof (cases "pending = []")
    case True
    then show ?thesis
      using closed_rtrancl [of seen seen "adj_edges adj"] "1.prems"(2)
      by (auto simp: explore_push.simps adj_edges_def)
  next
    case False
    let ?fresh = "newly_inserted seen (succs adj (last pending))"
    have "set (butlast pending) \<subseteq> seen" using "1.prems"(1) by (auto dest: in_set_butlastD)
    then have pend: "set (butlast pending @ ?fresh) \<subseteq> seen \<union> set ?fresh" by auto
    have split: "x \<in> set pending \<Longrightarrow> x = last pending \<or> x \<in> set (butlast pending)" for x
      using False by (metis append_butlast_last_id in_set_conv_decomp rotate1.simps(2) set_ConsD set_rotate1)
    have "set (succs adj x) \<subseteq> seen \<union> set ?fresh"
      if "x \<in> seen \<union> set ?fresh" "x \<notin> set (butlast pending @ ?fresh)" for x
      using that "1.prems"(2) [of x] split [of x] by auto
    from "1.IH" [OF False refl pend this]
    have "(adj_edges adj)\<^sup>* `` (seen \<union> set ?fresh) \<subseteq> explore_push adj pending seen"
      using False by (simp add: explore_push.simps [of adj pending] Let_def)
    then show ?thesis by blast
  qed
qed

lemma explore_push_reachable:
  "explore_push adj [x] {x} = {y. (x, y) \<in> (adj_edges adj)\<^sup>*}"
  using explore_push_upper [of adj "[x]" "{x}"] explore_push_lower [of "[x]" "{x}" adj] by auto

section \<open>Marking on pop\<close>

function explore_pop :: "'a adjacency \<Rightarrow> ('a \<Rightarrow> bool) \<Rightarrow> 'a list \<Rightarrow> 'a set \<Rightarrow> 'a set" where
  "explore_pop adj scope pending seen =
     (if pending = [] then seen
      else if scope (last pending) \<and> last pending \<notin> seen
      then explore_pop adj scope (butlast pending @ succs adj (last pending)) (insert (last pending) seen)
      else explore_pop adj scope (butlast pending) seen)"
  by pat_completeness auto
termination
proof (relation "inv_image (finite_psubset <*lex*> less_than)
    (\<lambda>(adj, scope, pending, seen). ((adj_nodes adj \<union> set pending) - seen, length pending))")
  show "wf (inv_image (finite_psubset <*lex*> less_than)
      (\<lambda>(adj :: 'a adjacency, scope :: 'a \<Rightarrow> bool, pending, seen).
        ((adj_nodes adj \<union> set pending) - seen, length pending)))"
    by (intro wf_inv_image wf_lex_prod wf_finite_psubset wf_less_than)
next
  fix adj :: "'a adjacency" and scope :: "'a \<Rightarrow> bool" and pending seen
  assume ne: "pending \<noteq> []" and c: "scope (last pending) \<and> last pending \<notin> seen"
  have "last pending \<in> set pending" using ne by simp
  moreover have "set (butlast pending) \<subseteq> set pending" by (auto dest: in_set_butlastD)
  moreover have "set (succs adj (last pending)) \<subseteq> adj_nodes adj" by (auto intro: succs_nodes)
  ultimately have "(adj_nodes adj \<union> set (butlast pending @ succs adj (last pending))) -
      insert (last pending) seen \<subset> (adj_nodes adj \<union> set pending) - seen"
    using c by auto
  then show "((adj, scope, butlast pending @ succs adj (last pending), insert (last pending) seen),
      adj, scope, pending, seen) \<in> inv_image (finite_psubset <*lex*> less_than)
        (\<lambda>(adj, scope, pending, seen). ((adj_nodes adj \<union> set pending) - seen, length pending))"
    by (simp add: finite_psubset_def)
next
  fix adj :: "'a adjacency" and scope :: "'a \<Rightarrow> bool" and pending seen
  assume ne: "pending \<noteq> []" and "\<not> (scope (last pending) \<and> last pending \<notin> seen)"
  have "(adj_nodes adj \<union> set (butlast pending)) - seen \<subseteq> (adj_nodes adj \<union> set pending) - seen"
    by (auto dest: in_set_butlastD)
  with ne show "((adj, scope, butlast pending, seen), adj, scope, pending, seen) \<in>
      inv_image (finite_psubset <*lex*> less_than)
        (\<lambda>(adj, scope, pending, seen). ((adj_nodes adj \<union> set pending) - seen, length pending))"
    by (auto simp: finite_psubset_def psubset_eq)
qed

declare explore_pop.simps [simp del]

definition scoped_edges :: "'a adjacency \<Rightarrow> ('a \<Rightarrow> bool) \<Rightarrow> ('a \<times> 'a) set" where
  "scoped_edges adj scope = {(x, y). y \<in> set (succs adj x) \<and> scope y}"

lemma explore_pop_upper:
  "explore_pop adj scope pending seen \<subseteq>
     (scoped_edges adj scope)\<^sup>* `` (seen \<union> {x \<in> set pending. scope x})"
proof (induction adj scope pending seen rule: explore_pop.induct)
  case (1 adj scope pending seen)
  let ?E = "scoped_edges adj scope" and ?x = "last pending"
  let ?start = "seen \<union> {x \<in> set pending. scope x}"
  show ?case
  proof (cases "pending = []")
    case ne: False
    have bl: "set (butlast pending) \<subseteq> set pending" by (auto dest: in_set_butlastD)
    show ?thesis
    proof (cases "scope ?x \<and> ?x \<notin> seen")
      case True
      have "insert ?x seen \<union> {x \<in> set (butlast pending @ succs adj ?x). scope x} \<subseteq> ?E\<^sup>* `` ?start"
        using True ne bl by (auto simp: scoped_edges_def)
      then have "?E\<^sup>* `` (insert ?x seen \<union> {x \<in> set (butlast pending @ succs adj ?x). scope x}) \<subseteq>
          ?E\<^sup>* `` ?start"
        by (intro closed_rtrancl) (auto intro: rtrancl_into_rtrancl)
      with "1.IH"(1) [OF ne True] True ne show ?thesis
        by (simp add: explore_pop.simps [of adj scope pending])
    next
      case False
      have "?E\<^sup>* `` (seen \<union> {x \<in> set (butlast pending). scope x}) \<subseteq> ?E\<^sup>* `` ?start"
        using bl by (intro Image_mono) auto
      with "1.IH"(2) [OF ne False] False ne show ?thesis
        by (auto simp: explore_pop.simps [of adj scope pending])
    qed
  qed (auto simp: explore_pop.simps)
qed

lemma explore_pop_lower:
  assumes "\<And>x y. x \<in> seen \<Longrightarrow> (x, y) \<in> scoped_edges adj scope \<Longrightarrow> y \<in> seen \<union> set pending"
  shows "(scoped_edges adj scope)\<^sup>* `` (seen \<union> {x \<in> set pending. scope x}) \<subseteq>
           explore_pop adj scope pending seen"
  using assms
proof (induction adj scope pending seen rule: explore_pop.induct)
  case (1 adj scope pending seen)
  let ?E = "scoped_edges adj scope" and ?x = "last pending"
  show ?case
  proof (cases "pending = []")
    case True
    then show ?thesis
      using closed_rtrancl [of seen seen ?E] "1.prems" by (simp add: explore_pop.simps)
  next
    case ne: False
    have sp: "set pending = insert ?x (set (butlast pending))"
      using ne by (metis append_butlast_last_id list.simps(15) rotate1.simps(2) set_rotate1)
    show ?thesis
    proof (cases "scope ?x \<and> ?x \<notin> seen")
      case True
      have "y \<in> insert ?x seen \<union> set (butlast pending @ succs adj ?x)"
        if "x \<in> insert ?x seen" "(x, y) \<in> ?E" for x y
        using that "1.prems" [of x y] sp by (auto simp: scoped_edges_def)
      from "1.IH"(1) [OF ne True this]
      have "?E\<^sup>* `` (insert ?x seen \<union> {x \<in> set (butlast pending @ succs adj ?x). scope x}) \<subseteq>
          explore_pop adj scope pending seen"
        using True ne by (simp add: explore_pop.simps [of adj scope pending])
      then show ?thesis using sp by (auto simp: Image_def)
    next
      case False
      have "y \<in> seen \<union> set (butlast pending)" if "x \<in> seen" "(x, y) \<in> ?E" for x y
        using that "1.prems" [of x y] sp False by (auto simp: scoped_edges_def)
      note ih = "1.IH"(2) [OF ne False this]
      have "explore_pop adj scope pending seen = explore_pop adj scope (butlast pending) seen"
        using False ne by (auto simp: explore_pop.simps [of adj scope pending])
      with ih have "?E\<^sup>* `` (seen \<union> {x \<in> set (butlast pending). scope x}) \<subseteq>
          explore_pop adj scope pending seen" by simp
      moreover have "seen \<union> {x \<in> set pending. scope x} = seen \<union> {x \<in> set (butlast pending). scope x}"
        using sp False by auto
      ultimately show ?thesis by simp
    qed
  qed
qed

lemma explore_pop_reachable:
  "explore_pop adj scope pending {} = (scoped_edges adj scope)\<^sup>* `` {x \<in> set pending. scope x}"
  using explore_pop_upper [of adj scope pending "{}"] explore_pop_lower [of "{}" adj scope pending]
  by auto

section \<open>Searching with an early exit\<close>

text \<open>The loop of the first section, left as soon as a successor satisfies \<open>stop\<close>.\<close>

function explore_until :: "'a adjacency \<Rightarrow> ('a \<Rightarrow> bool) \<Rightarrow> 'a list \<Rightarrow> 'a set \<Rightarrow> bool" where
  "explore_until adj stop pending seen =
     (if pending = [] then False
      else if list_ex stop (succs adj (last pending)) then True
      else let fresh = newly_inserted seen (succs adj (last pending))
           in explore_until adj stop (butlast pending @ fresh) (seen \<union> set fresh))"
  by pat_completeness auto
termination
proof (relation "measure (\<lambda>(adj, stop, pending, seen). length pending + card (adj_nodes adj - seen))")
  fix adj :: "'a adjacency" and stop :: "'a \<Rightarrow> bool" and pending seen fresh
  assume ne: "pending \<noteq> []" and fresh: "fresh = newly_inserted seen (succs adj (last pending))"
  from explore_push_measure [OF ne, where adj = adj and seen = seen] ne
  show "((adj, stop, butlast pending @ fresh, seen \<union> set fresh), adj, stop, pending, seen) \<in>
      measure (\<lambda>(adj, stop, pending, seen). length pending + card (adj_nodes adj - seen))"
    by (simp add: fresh)
qed simp

declare explore_until.simps [simp del]

lemma explore_until_push:
  "explore_until adj stop pending seen \<longleftrightarrow>
     (\<exists>y \<in> set pending \<union> (explore_push adj pending seen - seen). list_ex stop (succs adj y))"
proof (induction adj stop pending seen rule: explore_until.induct)
  case (1 adj stop pending seen)
  let ?fresh = "newly_inserted seen (succs adj (last pending))"
  show ?case
  proof (cases "pending = []")
    case ne: False
    have sp: "set pending = insert (last pending) (set (butlast pending))"
      using ne by (metis append_butlast_last_id list.simps(15) rotate1.simps(2) set_rotate1)
    show ?thesis
    proof (cases "list_ex stop (succs adj (last pending))")
      case True
      then show ?thesis using sp ne by (auto simp: explore_until.simps [of adj])
    next
      case False
      have push: "explore_push adj pending seen = explore_push adj (butlast pending @ ?fresh) (seen \<union> set ?fresh)"
        using ne by (simp add: explore_push.simps [of adj pending] Let_def)
      have "seen \<union> set ?fresh \<subseteq> explore_push adj pending seen"
        unfolding push by (rule explore_push_extends)
      then have "set (butlast pending @ ?fresh) \<union> (explore_push adj pending seen - (seen \<union> set ?fresh)) =
          set (butlast pending) \<union> (explore_push adj pending seen - seen)"
        by auto
      with "1.IH" [OF ne False refl] False ne sp show ?thesis
        by (simp add: explore_until.simps [of adj stop pending] Let_def push)
    qed
  qed (simp add: explore_until.simps explore_push.simps)
qed

lemma explore_until_reachable:
  "explore_until adj stop [x] {x} \<longleftrightarrow> (\<exists>y. (x, y) \<in> (adj_edges adj)\<^sup>+ \<and> stop y)"
proof -
  have "explore_until adj stop [x] {x} \<longleftrightarrow>
      (\<exists>y z. (x, y) \<in> (adj_edges adj)\<^sup>* \<and> (y, z) \<in> adj_edges adj \<and> stop z)"
    unfolding explore_until_push explore_push_reachable by (auto simp: list_ex_iff adj_edges_def)
  also have "\<dots> \<longleftrightarrow> (\<exists>y. (x, y) \<in> (adj_edges adj)\<^sup>+ \<and> stop y)"
    by (auto simp: trancl_unfold_right relcomp_unfold)
  finally show ?thesis .
qed

end
