(* ===== verification/Durable.thy ===== *)
theory Durable
  imports Hierarchy Worklist Ordered_Map
begin

text \<open>
  \<open>DurableOrchestratorState\<close> of \<open>opensymphony-orchestrator/src/hierarchy.rs\<close>: the hierarchy
  snapshots, the lease table and the run boundaries, with the operations that acquire, rebind
  and release leases along the hierarchy. The type \<open>'c\<close> stands for the parent integration
  controllers, which these operations carry along untouched. A \<open>BTreeSet\<close> that is only asked
  for membership is a set; one that is iterated is the ascending list of its elements.
\<close>

definition hierarchy_state_schema_version :: u32 where "hierarchy_state_schema_version = 1"

record 'c durable_state =
  ds_schema_version :: u32
  ds_hierarchy :: "(issue_id, hierarchy_snapshot) omap"
  ds_leases :: "lease_record list"
  ds_run_hierarchy_generations :: "(issue_id, u64) omap"
  ds_run_started_at_by_issue :: "(issue_id, timestamp_ms) omap"
  ds_terminal_orchestrator_issues :: "issue_id list"
  ds_parent_integrations :: "(issue_id, 'c) omap"

definition durable_default :: "'c durable_state" where
  "durable_default =
     \<lparr>ds_schema_version = hierarchy_state_schema_version, ds_hierarchy = [], ds_leases = [],
      ds_run_hierarchy_generations = [], ds_run_started_at_by_issue = [],
      ds_terminal_orchestrator_issues = [], ds_parent_integrations = []\<rparr>"

section \<open>Acquiring\<close>

definition acquire_leases ::
  "u64 \<Rightarrow> lease_record list \<Rightarrow> 'c durable_state \<Rightarrow> lease_error + 'c durable_state" where
  "acquire_leases now records s =
     (case acquire now records (ds_leases s) of
        Err e \<Rightarrow> Err e
      | Ok leases \<Rightarrow> Ok (s\<lparr>ds_leases := leases\<rparr>))"

definition leaf_lease_of :: "lease_resource \<Rightarrow> lease_record \<Rightarrow> bool" where
  "leaf_lease_of res l \<longleftrightarrow>
     lr_kind l = LeafWorker \<and> lr_resource l = res \<and> lr_owner l = leaf_worker (res_issue_id res)"

definition acquire_required_and_release_leaf ::
  "u64 \<Rightarrow> lease_record list \<Rightarrow> lease_resource list \<Rightarrow> u64 \<Rightarrow> 'c durable_state \<Rightarrow>
     lease_error + 'c durable_state" where
  "acquire_required_and_release_leaf now required leaf_resources released_at s =
     (case acquire_leases now required s of
        Err e \<Rightarrow> Err e
      | Ok s' \<Rightarrow>
          Ok (s'\<lparr>ds_leases := compact_lease_history now
                   (foldl (\<lambda>ls res. stamp_where now (leaf_lease_of res) released_at ls)
                     (ds_leases s') leaf_resources)\<rparr>))"

section \<open>Walking the hierarchy\<close>

definition hierarchy_adj :: "(issue_id, hierarchy_snapshot) omap \<Rightarrow> issue_id adjacency" where
  "hierarchy_adj h = map (\<lambda>(p, snap). (p, required_ids snap)) h"

definition subtree_issue_ids :: "'c durable_state \<Rightarrow> issue_id \<Rightarrow> issue_id set" where
  "subtree_issue_ids s parent = explore_push (hierarchy_adj (ds_hierarchy s)) [parent] {parent}"

definition current_subtree_issue_ids :: "'c durable_state \<Rightarrow> issue_id \<Rightarrow> issue_id set option" where
  "current_subtree_issue_ids s parent =
     (if omap_get (ds_hierarchy s) parent = None then None else Some (subtree_issue_ids s parent))"

text \<open>The \<open>children\<close> map of \<open>retained_subtree_issue_ids\<close>, built edge by edge.\<close>

definition all_links ::
  "'c durable_state \<Rightarrow> (issue_id \<times> issue_id) list option \<Rightarrow> (issue_id \<times> issue_id) list" where
  "all_links s reachable =
     concat (map (\<lambda>(p, snap). map (Pair p) (required_ids snap)) (ds_hierarchy s)) @
     unwrap_or reachable []"

definition add_link ::
  "(issue_id, issue_id list) omap \<Rightarrow> issue_id \<times> issue_id \<Rightarrow> (issue_id, issue_id list) omap" where
  "add_link m e = omap_insert (fst e) (insort_insert (snd e) (unwrap_or (omap_get m (fst e)) [])) m"

definition children_map ::
  "'c durable_state \<Rightarrow> issue_id \<Rightarrow> (issue_id \<times> issue_id) list option \<Rightarrow>
     (issue_id, issue_id list) omap" where
  "children_map s parent reachable =
     foldl add_link [] (filter (\<lambda>e. fst e \<noteq> parent) (all_links s reachable))"

definition retained_subtree_issue_ids ::
  "'c durable_state \<Rightarrow> issue_id \<Rightarrow> issue_id set \<Rightarrow> (issue_id \<times> issue_id) list option \<Rightarrow>
     issue_id set" where
  "retained_subtree_issue_ids s parent subtree reachable =
     (let children = children_map s parent reachable;
          pending = concat (map snd (filter (\<lambda>(p, _). p \<notin> subtree) children))
      in explore_pop children (\<lambda>i. i \<in> subtree) pending {})"

text \<open>The loop that collects a subtree below a list of roots.\<close>

definition subtree_below :: "'c durable_state \<Rightarrow> issue_id list \<Rightarrow> issue_id set" where
  "subtree_below s roots = explore_pop (hierarchy_adj (ds_hierarchy s)) (\<lambda>_. True) roots {}"

section \<open>Releasing\<close>

definition release_owner :: "lease_owner \<Rightarrow> u64 \<Rightarrow> u64 \<Rightarrow> 'c durable_state \<Rightarrow> 'c durable_state" where
  "release_owner owner now t s =
     s\<lparr>ds_leases := release_where now (\<lambda>l. lr_owner l = owner) t (ds_leases s)\<rparr>"

definition release_resource_leases ::
  "lease_resource \<Rightarrow> u64 \<Rightarrow> u64 \<Rightarrow> 'c durable_state \<Rightarrow> 'c durable_state \<times> bool" where
  "release_resource_leases res now t s =
     (let sel = \<lambda>l. lr_resource l = res
      in (s\<lparr>ds_leases := release_where now sel t (ds_leases s)\<rparr>, any_active now sel (ds_leases s)))"

definition review_of_parent :: "issue_id \<Rightarrow> lease_record \<Rightarrow> bool" where
  "review_of_parent p l \<longleftrightarrow>
     lr_kind l = Review \<and> own_kind (lr_owner l) = ''review'' \<and>
     starts_with (''review:'' @ issue_id_str p @ '':'') (own_id (lr_owner l))"

definition release_parent_leases_inner ::
  "issue_id \<Rightarrow> bool \<Rightarrow> u64 \<Rightarrow> u64 \<Rightarrow> 'c durable_state \<Rightarrow> 'c durable_state \<times> bool" where
  "release_parent_leases_inner p release_ancestor now t s =
     (let sel = \<lambda>l. (release_ancestor \<and> lr_owner l = ancestor p) \<or> review_of_parent p l
      in (s\<lparr>ds_leases := release_where now sel t (ds_leases s)\<rparr>, any_active now sel (ds_leases s)))"

definition release_parent_leases ::
  "issue_id \<Rightarrow> u64 \<Rightarrow> u64 \<Rightarrow> 'c durable_state \<Rightarrow> 'c durable_state \<times> bool" where
  "release_parent_leases p now t s = release_parent_leases_inner p True now t s"

definition release_parent_leases_preserving_ancestor ::
  "issue_id \<Rightarrow> u64 \<Rightarrow> u64 \<Rightarrow> 'c durable_state \<Rightarrow> 'c durable_state \<times> bool" where
  "release_parent_leases_preserving_ancestor p now t s = release_parent_leases_inner p False now t s"

definition release_parent_resource_leases ::
  "issue_id \<Rightarrow> lease_resource \<Rightarrow> u64 \<Rightarrow> u64 \<Rightarrow> 'c durable_state \<Rightarrow> 'c durable_state \<times> bool" where
  "release_parent_resource_leases p res now t s =
     (let sel = \<lambda>l. lr_resource l = res \<and>
            (lr_owner l = ancestor p \<or> lr_owner l = repair_owner p \<or> review_of_parent p l)
      in (s\<lparr>ds_leases := release_where now sel t (ds_leases s)\<rparr>, any_active now sel (ds_leases s)))"

definition retained_child_ids :: "'c durable_state \<Rightarrow> issue_id set" where
  "retained_child_ids s = set (concat (map required_ids (omap_values (ds_hierarchy s))))"

definition release_obsolete_leaf_leases ::
  "issue_id list \<Rightarrow> u64 \<Rightarrow> u64 \<Rightarrow> 'c durable_state \<Rightarrow> 'c durable_state" where
  "release_obsolete_leaf_leases removed now t s =
     (let retained = retained_child_ids s
      in s\<lparr>ds_leases := release_where now
             (\<lambda>l. lr_kind l = LeafWorker \<and> res_issue_id (lr_resource l) \<in> set removed \<and>
                  res_issue_id (lr_resource l) \<notin> retained) t (ds_leases s)\<rparr>)"

text \<open>The condition of the loop in \<open>release_removed_subtree_leases\<close>.\<close>

definition removed_subtree_lease ::
  "issue_id set \<Rightarrow> issue_id set \<Rightarrow> string list \<Rightarrow> lease_record \<Rightarrow> bool" where
  "removed_subtree_lease subtree retained review_prefixes l =
     (case lr_kind l of
        LeafWorker \<Rightarrow> res_issue_id (lr_resource l) \<in> subtree \<and> res_issue_id (lr_resource l) \<notin> retained
      | AncestorIntegration \<Rightarrow> (\<exists>i \<in> subtree. lr_owner l = ancestor i \<and> i \<notin> retained)
      | Review \<Rightarrow>
          list_ex (\<lambda>pre. own_id (lr_owner l) = pre \<or> starts_with (pre @ '':'') (own_id (lr_owner l)))
            review_prefixes
      | Repair \<Rightarrow> False
      | DiagnosticHold \<Rightarrow> False)"

definition release_removed_subtree_leases ::
  "issue_id \<Rightarrow> issue_id list \<Rightarrow> (issue_id \<times> issue_id) list option \<Rightarrow> u64 \<Rightarrow> u64 \<Rightarrow>
     'c durable_state \<Rightarrow> 'c durable_state \<times> bool" where
  "release_removed_subtree_leases p removed reachable now t s =
     (let subtree = subtree_below s removed in
      if subtree = {} then (s, False)
      else
        let retained = retained_subtree_issue_ids s p subtree reachable;
            review_prefixes =
              map (\<lambda>c. ''review:'' @ issue_id_str p @ '':'' @ issue_id_str c) removed @
              map (\<lambda>i. ''review:'' @ issue_id_str i)
                (filter (\<lambda>i. i \<in> subtree \<and> i \<notin> retained) (omap_keys (ds_hierarchy s)));
            sel = removed_subtree_lease subtree retained review_prefixes
        in (s\<lparr>ds_leases := release_where now sel t (ds_leases s)\<rparr>, any_active now sel (ds_leases s)))"

definition release_ancestor_leases_for_children ::
  "issue_id list \<Rightarrow> u64 \<Rightarrow> u64 \<Rightarrow> 'c durable_state \<Rightarrow> 'c durable_state" where
  "release_ancestor_leases_for_children children now t s =
     s\<lparr>ds_leases := release_where now
         (\<lambda>l. lr_kind l = AncestorIntegration \<and> list_ex (\<lambda>c. lr_owner l = ancestor c) children)
         t (ds_leases s)\<rparr>"

definition undispatched_subtree_lease ::
  "issue_id \<Rightarrow> issue_id set \<Rightarrow> issue_id set \<Rightarrow> string list \<Rightarrow> lease_record \<Rightarrow> bool" where
  "undispatched_subtree_lease p subtree retained review_prefixes l =
     (case lr_kind l of
        LeafWorker \<Rightarrow> res_issue_id (lr_resource l) \<in> subtree \<and> res_issue_id (lr_resource l) \<notin> retained
      | AncestorIntegration \<Rightarrow>
          lr_owner l = ancestor p \<or> (\<exists>i \<in> subtree. lr_owner l = ancestor i \<and> i \<notin> retained)
      | Review \<Rightarrow> list_ex (\<lambda>pre. starts_with pre (own_id (lr_owner l))) review_prefixes
      | Repair \<Rightarrow> False
      | DiagnosticHold \<Rightarrow> False)"

definition release_subtree_evidence_with_reachability ::
  "issue_id \<Rightarrow> (issue_id \<times> issue_id) list option \<Rightarrow> u64 \<Rightarrow> u64 \<Rightarrow> 'c durable_state \<Rightarrow>
     'c durable_state \<times> bool" where
  "release_subtree_evidence_with_reachability p reachable now t s =
     (let roots = (case omap_get (ds_hierarchy s) p of None \<Rightarrow> [] | Some snap \<Rightarrow> required_ids snap);
          subtree = subtree_below s roots;
          retained = retained_subtree_issue_ids s p subtree reachable;
          review_prefixes =
            (''review:'' @ issue_id_str p @ '':'') #
            map (\<lambda>i. ''review:'' @ issue_id_str i @ '':'')
              (filter (\<lambda>i. i \<in> subtree \<and> i \<notin> retained) (omap_keys (ds_hierarchy s)));
          sel = undispatched_subtree_lease p subtree retained review_prefixes
      in (s\<lparr>ds_leases := release_where now sel t (ds_leases s)\<rparr>, any_active now sel (ds_leases s)))"

definition release_subtree_evidence_for_undispatched_parent ::
  "issue_id \<Rightarrow> u64 \<Rightarrow> u64 \<Rightarrow> 'c durable_state \<Rightarrow> 'c durable_state \<times> bool" where
  "release_subtree_evidence_for_undispatched_parent p now t s =
     release_subtree_evidence_with_reachability p None now t s"

definition release_leaf_leases_for_parent ::
  "issue_id \<Rightarrow> u64 \<Rightarrow> u64 \<Rightarrow> 'c durable_state \<Rightarrow> 'c durable_state" where
  "release_leaf_leases_for_parent p now t s =
     (let resources = map lr_resource
            (filter (\<lambda>l. active_at now l \<and> lr_kind l = AncestorIntegration \<and> lr_owner l = ancestor p)
              (ds_leases s))
      in s\<lparr>ds_leases := release_where now
             (\<lambda>l. lr_kind l = LeafWorker \<and> lr_resource l \<in> set resources \<and>
                  lr_owner l = leaf_worker (res_issue_id (lr_resource l))) t (ds_leases s)\<rparr>)"

section \<open>Rebinding\<close>

definition rebind_leaf_leases :: "issue_id list \<Rightarrow> u64 \<Rightarrow> u64 \<Rightarrow> 'c durable_state \<Rightarrow> 'c durable_state" where
  "rebind_leaf_leases children generation now s =
     s\<lparr>ds_leases := map (\<lambda>l. if active_at now l \<and> lr_kind l = LeafWorker \<and>
                               res_issue_id (lr_resource l) \<in> set children
                            then l\<lparr>lr_hierarchy_generation := generation\<rparr> else l) (ds_leases s)\<rparr>"

definition rebind_ancestor_leases :: "issue_id \<Rightarrow> u64 \<Rightarrow> u64 \<Rightarrow> 'c durable_state \<Rightarrow> 'c durable_state" where
  "rebind_ancestor_leases p generation now s =
     s\<lparr>ds_leases := map (\<lambda>l. if active_at now l \<and> lr_kind l = AncestorIntegration \<and>
                               lr_owner l = ancestor p
                            then l\<lparr>lr_hierarchy_generation := generation\<rparr> else l) (ds_leases s)\<rparr>"

section \<open>Queries\<close>

definition held_resource ::
  "lease_owner \<Rightarrow> u64 option \<Rightarrow> issue_id set option \<Rightarrow> u64 \<Rightarrow> lease_record \<Rightarrow> bool" where
  "held_resource owner generation subtree now l \<longleftrightarrow>
     active_at now l \<and> lr_kind l = AncestorIntegration \<and> lr_owner l = owner \<and>
     is_none_or (\<lambda>g. lr_hierarchy_generation l = g) generation \<and>
     is_none_or (\<lambda>ids. res_issue_id (lr_resource l) \<in> ids) subtree"

definition note_resource ::
  "(lease_resource, u64) omap \<Rightarrow> lease_record \<Rightarrow> (lease_resource, u64) omap" where
  "note_resource m l =
     omap_insert (lr_resource l)
       (case omap_get m (lr_resource l) of
          None \<Rightarrow> lr_acquired_at l
        | Some acquired_at \<Rightarrow> max acquired_at (lr_acquired_at l)) m"

definition resources_for_ancestor_owner ::
  "lease_owner \<Rightarrow> u64 option \<Rightarrow> issue_id set option \<Rightarrow> u64 \<Rightarrow> 'c durable_state \<Rightarrow>
     lease_resource list" where
  "resources_for_ancestor_owner owner generation subtree now s =
     omap_keys (foldl note_resource [] (filter (held_resource owner generation subtree now) (ds_leases s)))"

definition descendant_resources_for :: "issue_id \<Rightarrow> u64 \<Rightarrow> 'c durable_state \<Rightarrow> lease_resource list" where
  "descendant_resources_for p now s =
     resources_for_ancestor_owner (ancestor p)
       (or_else (map_option hs_generation (omap_get (ds_hierarchy s) p))
          (omap_get (ds_run_hierarchy_generations s) p))
       (current_subtree_issue_ids s p) now s"

definition descendant_resources_for_generation ::
  "issue_id \<Rightarrow> u64 \<Rightarrow> u64 \<Rightarrow> 'c durable_state \<Rightarrow> lease_resource list" where
  "descendant_resources_for_generation p generation now s =
     resources_for_ancestor_owner (ancestor p) (Some generation) None now s"

definition ancestor_resources_for_child ::
  "issue_id \<Rightarrow> issue_id \<Rightarrow> u64 \<Rightarrow> 'c durable_state \<Rightarrow> lease_resource list" where
  "ancestor_resources_for_child p child now s =
     (case omap_get (ds_hierarchy s) p of
        None \<Rightarrow> []
      | Some snap \<Rightarrow>
          if child \<notin> set (required_ids snap) then []
          else resources_for_ancestor_owner (ancestor p) (Some (hs_generation snap))
                 (Some (subtree_issue_ids s child)) now s)"

definition live_issue_ids :: "issue_id set \<Rightarrow> u64 \<Rightarrow> 'c durable_state \<Rightarrow> issue_id set" where
  "live_issue_ids retained now s =
     retained \<union> set (omap_keys (ds_hierarchy s)) \<union>
     set (concat (map (\<lambda>snap. map he_child_id (hs_required_child_edges snap)) (omap_values (ds_hierarchy s)))) \<union>
     set (map (\<lambda>l. res_issue_id (lr_resource l)) (filter (active_at now) (ds_leases s)))"

definition prune_obsolete_run_boundaries ::
  "issue_id set \<Rightarrow> u64 \<Rightarrow> 'c durable_state \<Rightarrow> 'c durable_state \<times> bool" where
  "prune_obsolete_run_boundaries retained now s =
     (let live = live_issue_ids retained now s;
          s' = s\<lparr>ds_run_hierarchy_generations :=
                   omap_retain (\<lambda>i _. i \<in> live) (ds_run_hierarchy_generations s),
                 ds_run_started_at_by_issue :=
                   omap_retain (\<lambda>i _. i \<in> live) (ds_run_started_at_by_issue s),
                 ds_terminal_orchestrator_issues :=
                   filter (\<lambda>i. i \<in> live) (ds_terminal_orchestrator_issues s)\<rparr>
      in (s', length (ds_run_hierarchy_generations s) \<noteq> length (ds_run_hierarchy_generations s') \<or>
              length (ds_run_started_at_by_issue s) \<noteq> length (ds_run_started_at_by_issue s') \<or>
              length (ds_terminal_orchestrator_issues s) \<noteq> length (ds_terminal_orchestrator_issues s')))"

definition active_for_at :: "lease_resource \<Rightarrow> u64 \<Rightarrow> 'c durable_state \<Rightarrow> bool" where
  "active_for_at res now s = list_ex (\<lambda>l. active_at now l \<and> lr_resource l = res) (ds_leases s)"

definition has_ancestor_edge :: "issue_id \<Rightarrow> 'c durable_state \<Rightarrow> bool" where
  "has_ancestor_edge child s =
     list_ex (\<lambda>snap. child \<in> set (required_ids snap)) (omap_values (ds_hierarchy s))"

definition has_dispatched_ancestor :: "issue_id \<Rightarrow> 'c durable_state \<Rightarrow> bool" where
  "has_dispatched_ancestor child s =
     list_ex (\<lambda>snap. dispatch_claimed snap \<and> child \<in> set (required_ids snap)) (omap_values (ds_hierarchy s))"

text \<open>The parents of each child, in the order of the hierarchy map.\<close>

definition parent_adj :: "(issue_id, hierarchy_snapshot) omap \<Rightarrow> issue_id adjacency" where
  "parent_adj h =
     map (\<lambda>d. (d, map fst (filter (\<lambda>(_, snap). d \<in> set (required_ids snap)) h)))
       (concat (map (\<lambda>(_, snap). required_ids snap) h))"

definition fenced_ancestor :: "u64 \<Rightarrow> 'c durable_state \<Rightarrow> issue_id \<Rightarrow> bool" where
  "fenced_ancestor now s p \<longleftrightarrow>
     is_some_and has_dispatched_execution_fence (omap_get (ds_hierarchy s) p) \<and>
     list_ex (\<lambda>l. active_at now l \<and> lr_kind l = AncestorIntegration \<and> lr_owner l = ancestor p) (ds_leases s)"

definition has_active_dispatched_ancestor :: "issue_id \<Rightarrow> u64 \<Rightarrow> 'c durable_state \<Rightarrow> bool" where
  "has_active_dispatched_ancestor child now s =
     explore_until (parent_adj (ds_hierarchy s)) (fenced_ancestor now s) [child] {child}"

section \<open>Lemmas\<close>

subsection \<open>Edges\<close>

text \<open>The relation the walks follow: from a parent to a child it requires.\<close>

definition requires :: "'c durable_state \<Rightarrow> (issue_id \<times> issue_id) set" where
  "requires s = {(p, c). \<exists>snap. omap_get (ds_hierarchy s) p = Some snap \<and> c \<in> set (required_ids snap)}"

lemma hierarchy_adj_edges: "adj_edges (hierarchy_adj (ds_hierarchy s)) = requires s"
proof -
  have "map_of (hierarchy_adj h) p = map_option required_ids (omap_get h p)" for h p
    unfolding hierarchy_adj_def omap_get_def by (induction h) auto
  then have "c \<in> set (succs (hierarchy_adj (ds_hierarchy s)) p) \<longleftrightarrow>
      (\<exists>snap. omap_get (ds_hierarchy s) p = Some snap \<and> c \<in> set (required_ids snap))" for p c
    by (cases "omap_get (ds_hierarchy s) p") (simp_all add: succs_def unwrap_or_def)
  then show ?thesis by (simp add: adj_edges_def requires_def)
qed

lemma subtree_issue_ids_eq: "subtree_issue_ids s p = {i. (p, i) \<in> (requires s)\<^sup>*}"
  by (simp add: subtree_issue_ids_def explore_push_reachable hierarchy_adj_edges)

lemma subtree_below_eq: "subtree_below s roots = (requires s)\<^sup>* `` set roots"
  by (simp add: subtree_below_def explore_pop_reachable scoped_edges_def flip: hierarchy_adj_edges adj_edges_def)

lemma omap_pair: "omap_wf h \<Longrightarrow> (p, snap) \<in> set h \<longleftrightarrow> omap_get h p = Some snap"
  using omap_wf_distinct [of h] by (simp add: omap_get_def omap_keys_def map_of_eq_Some_iff)

lemma map_of_tabulate: "map_of (map (\<lambda>d. (d, f d)) ds) d = (if d \<in> set ds then Some (f d) else None)"
  by (induction ds) auto

lemma parent_adj_edges:
  assumes "omap_wf (ds_hierarchy s)"
  shows "adj_edges (parent_adj (ds_hierarchy s)) = (requires s)\<inverse>"
proof -
  have "p \<in> set (succs (parent_adj (ds_hierarchy s)) d) \<longleftrightarrow>
      (\<exists>snap. (p, snap) \<in> set (ds_hierarchy s) \<and> d \<in> set (required_ids snap))" for p d
    by (force simp: succs_def parent_adj_def map_of_tabulate unwrap_or_def)
  then show ?thesis using omap_pair [OF assms] by (auto simp: adj_edges_def requires_def)
qed

subsection \<open>The release contract on the model's operations\<close>

lemma key_fields: "lease_key l = lease_key l' \<Longrightarrow>
    lr_kind l = lr_kind l' \<and> lr_resource l = lr_resource l' \<and> lr_owner l = lr_owner l'"
  by (simp add: lease_key_def)

lemma review_of_parent_key: "lease_key l = lease_key l' \<Longrightarrow> review_of_parent p l = review_of_parent p l'"
  by (simp add: lease_key_def review_of_parent_def)

lemmas release_ops = compact_bound release_where_def stamp_actives Let_def

interpretation owner_release: lease_release "release_owner owner" ds_leases
    "\<lambda>_ _ l. lr_owner l = owner" for owner
proof
  show "lease_key l = lease_key l' \<Longrightarrow> (lr_owner l = owner) = (lr_owner l' = owner)" for l l'
    by (simp add: lease_key_def)
qed (simp_all add: release_owner_def release_ops del: set_actives)

interpretation resource_release: lease_release "\<lambda>now t s. fst (release_resource_leases res now t s)"
    ds_leases "\<lambda>_ _ l. lr_resource l = res" for res
proof
  show "lease_key l = lease_key l' \<Longrightarrow> (lr_resource l = res) = (lr_resource l' = res)" for l l'
    by (simp add: lease_key_def)
qed (simp_all add: release_resource_leases_def release_ops del: set_actives)

interpretation parent_release: lease_release
    "\<lambda>now t s. fst (release_parent_leases_inner p release_ancestor now t s)" ds_leases
    "\<lambda>_ _ l. (release_ancestor \<and> lr_owner l = ancestor p) \<or> review_of_parent p l" for p release_ancestor
proof
  show "lease_key l = lease_key l' \<Longrightarrow>
      ((release_ancestor \<and> lr_owner l = ancestor p) \<or> review_of_parent p l) =
      ((release_ancestor \<and> lr_owner l' = ancestor p) \<or> review_of_parent p l')" for l l'
    using key_fields [of l l'] review_of_parent_key [of l l' p] by simp
qed (simp_all add: release_parent_leases_inner_def release_ops del: set_actives)

interpretation parent_resource_release: lease_release
    "\<lambda>now t s. fst (release_parent_resource_leases p res now t s)" ds_leases
    "\<lambda>_ _ l. lr_resource l = res \<and>
       (lr_owner l = ancestor p \<or> lr_owner l = repair_owner p \<or> review_of_parent p l)" for p res
proof
  show "lease_key l = lease_key l' \<Longrightarrow>
      (lr_resource l = res \<and>
         (lr_owner l = ancestor p \<or> lr_owner l = repair_owner p \<or> review_of_parent p l)) =
      (lr_resource l' = res \<and>
         (lr_owner l' = ancestor p \<or> lr_owner l' = repair_owner p \<or> review_of_parent p l'))" for l l'
    using key_fields [of l l'] review_of_parent_key [of l l' p] by simp
qed (simp_all add: release_parent_resource_leases_def release_ops del: set_actives)

interpretation obsolete_release: lease_release "release_obsolete_leaf_leases removed" ds_leases
    "\<lambda>_ s l. lr_kind l = LeafWorker \<and> res_issue_id (lr_resource l) \<in> set removed \<and>
       res_issue_id (lr_resource l) \<notin> retained_child_ids s" for removed
proof
  show "lease_key l = lease_key l' \<Longrightarrow>
      (lr_kind l = LeafWorker \<and> res_issue_id (lr_resource l) \<in> set removed \<and>
         res_issue_id (lr_resource l) \<notin> retained_child_ids s) =
      (lr_kind l' = LeafWorker \<and> res_issue_id (lr_resource l') \<in> set removed \<and>
         res_issue_id (lr_resource l') \<notin> retained_child_ids s)" for l l' and s :: "'a durable_state"
    using key_fields [of l l'] by simp
qed (simp_all add: release_obsolete_leaf_leases_def release_ops del: set_actives)

interpretation children_release: lease_release "release_ancestor_leases_for_children children" ds_leases
    "\<lambda>_ _ l. lr_kind l = AncestorIntegration \<and> list_ex (\<lambda>c. lr_owner l = ancestor c) children"
    for children
proof
  show "lease_key l = lease_key l' \<Longrightarrow>
      (lr_kind l = AncestorIntegration \<and> list_ex (\<lambda>c. lr_owner l = ancestor c) children) =
      (lr_kind l' = AncestorIntegration \<and> list_ex (\<lambda>c. lr_owner l' = ancestor c) children)" for l l'
    using key_fields [of l l'] by simp
qed (simp_all add: release_ancestor_leases_for_children_def release_ops del: set_actives)

text \<open>The subtree releases select by kind, resource and owner too; the selection depends on the
  hierarchy of the state. With nothing removed, \<open>release_removed_subtree_leases\<close> does not
  compact, so its contract is stated for a subtree that is not empty.\<close>

definition removed_selection ::
  "issue_id \<Rightarrow> issue_id list \<Rightarrow> (issue_id \<times> issue_id) list option \<Rightarrow> 'c durable_state \<Rightarrow>
     lease_record \<Rightarrow> bool" where
  "removed_selection p removed reachable s =
     (let subtree = subtree_below s removed;
          retained = retained_subtree_issue_ids s p subtree reachable
      in removed_subtree_lease subtree retained
           (map (\<lambda>c. ''review:'' @ issue_id_str p @ '':'' @ issue_id_str c) removed @
            map (\<lambda>i. ''review:'' @ issue_id_str i)
              (filter (\<lambda>i. i \<in> subtree \<and> i \<notin> retained) (omap_keys (ds_hierarchy s)))))"

definition undispatched_selection ::
  "issue_id \<Rightarrow> (issue_id \<times> issue_id) list option \<Rightarrow> 'c durable_state \<Rightarrow> lease_record \<Rightarrow> bool" where
  "undispatched_selection p reachable s =
     (let roots = (case omap_get (ds_hierarchy s) p of None \<Rightarrow> [] | Some snap \<Rightarrow> required_ids snap);
          subtree = subtree_below s roots;
          retained = retained_subtree_issue_ids s p subtree reachable
      in undispatched_subtree_lease p subtree retained
           ((''review:'' @ issue_id_str p @ '':'') #
            map (\<lambda>i. ''review:'' @ issue_id_str i @ '':'')
              (filter (\<lambda>i. i \<in> subtree \<and> i \<notin> retained) (omap_keys (ds_hierarchy s)))))"

lemma removed_subtree_empty: "subtree_below s removed = {} \<longleftrightarrow> removed = []"
  by (cases removed) (auto simp: subtree_below_eq)

lemma removed_subtree_key:
  "lease_key l = lease_key l' \<Longrightarrow>
     removed_subtree_lease subtree retained ps l = removed_subtree_lease subtree retained ps l'"
  using key_fields [of l l'] by (simp add: removed_subtree_lease_def split: lease_kind.split)

lemma undispatched_subtree_key:
  "lease_key l = lease_key l' \<Longrightarrow>
     undispatched_subtree_lease p subtree retained ps l = undispatched_subtree_lease p subtree retained ps l'"
  using key_fields [of l l'] by (simp add: undispatched_subtree_lease_def split: lease_kind.split)

interpretation removed_release: lease_release
    "\<lambda>now t s. fst (release_removed_subtree_leases p (r # removed) reachable now t s)" ds_leases
    "\<lambda>_ s l. removed_selection p (r # removed) reachable s l" for p r removed reachable
proof
  show "lease_key l = lease_key l' \<Longrightarrow>
      removed_selection p (r # removed) reachable s l = removed_selection p (r # removed) reachable s l'"
    for l l' and s :: "'a durable_state"
    unfolding removed_selection_def Let_def by (rule removed_subtree_key)
qed (simp_all add: release_removed_subtree_leases_def removed_selection_def removed_subtree_empty
      release_ops del: set_actives)

interpretation undispatched_release: lease_release
    "\<lambda>now t s. fst (release_subtree_evidence_with_reachability p reachable now t s)" ds_leases
    "\<lambda>_ s l. undispatched_selection p reachable s l" for p reachable
proof
  show "lease_key l = lease_key l' \<Longrightarrow>
      undispatched_selection p reachable s l = undispatched_selection p reachable s l'"
    for l l' and s :: "'a durable_state"
    unfolding undispatched_selection_def Let_def by (rule undispatched_subtree_key)
qed (simp_all add: release_subtree_evidence_with_reachability_def undispatched_selection_def
      release_ops del: set_actives)

interpretation leaf_release: lease_release "release_leaf_leases_for_parent p" ds_leases
    "\<lambda>now s l. lr_kind l = LeafWorker \<and>
       (\<exists>a \<in> set (actives now (ds_leases s)). lr_kind a = AncestorIntegration \<and>
          lr_owner a = ancestor p \<and> lr_resource l = lr_resource a) \<and>
       lr_owner l = leaf_worker (res_issue_id (lr_resource l))" for p
proof
  show "lease_key l = lease_key l' \<Longrightarrow>
      (lr_kind l = LeafWorker \<and> (\<exists>a \<in> set (actives now (ds_leases s)). lr_kind a = AncestorIntegration \<and>
          lr_owner a = ancestor p \<and> lr_resource l = lr_resource a) \<and>
         lr_owner l = leaf_worker (res_issue_id (lr_resource l))) =
      (lr_kind l' = LeafWorker \<and> (\<exists>a \<in> set (actives now (ds_leases s)). lr_kind a = AncestorIntegration \<and>
          lr_owner a = ancestor p \<and> lr_resource l' = lr_resource a) \<and>
         lr_owner l' = leaf_worker (res_issue_id (lr_resource l')))" for l l' now and s :: "'a durable_state"
    using key_fields [of l l'] by simp
next
  fix now t and s :: "'a durable_state"
  let ?sel = "\<lambda>l. lr_kind l = LeafWorker \<and>
       (\<exists>a \<in> set (actives now (ds_leases s)). lr_kind a = AncestorIntegration \<and>
          lr_owner a = ancestor p \<and> lr_resource l = lr_resource a) \<and>
       lr_owner l = leaf_worker (res_issue_id (lr_resource l))"
  have "ds_leases (release_leaf_leases_for_parent p now t s) = release_where now ?sel t (ds_leases s)"
  proof -
    have field: "ds_leases (s\<lparr>ds_leases := ls\<rparr>) = ls" for ls by simp
    show ?thesis
      unfolding release_leaf_leases_for_parent_def Let_def field
      by (intro arg_cong [where f = "\<lambda>P. release_where now P t (ds_leases s)"] ext) (auto simp: image_iff)
  qed
  then show "actives now (ds_leases (release_leaf_leases_for_parent p now t s)) =
        filter (\<lambda>l. \<not> ?sel l) (actives now (ds_leases s))"
      "length (inactives now (ds_leases (release_leaf_leases_for_parent p now t s)))
        \<le> max_inactive_lease_history"
    by (simp_all add: release_ops del: set_actives)
qed

subsection \<open>Handing a checkout over\<close>

lemma stamp_all_actives:
  "actives now (foldl (\<lambda>ls res. stamp_where now (leaf_lease_of res) t ls) ls rs) =
     filter (\<lambda>l. \<not> list_ex (\<lambda>res. leaf_lease_of res l) rs) (actives now ls)"
  by (induction rs arbitrary: ls) (simp_all add: stamp_actives conj_commute del: set_actives)

lemma leaf_lease_key:
  "list_ex (\<lambda>res. leaf_lease_of res l) rs \<longleftrightarrow>
     lease_key l \<in> (\<lambda>res. (LeafWorker, res, leaf_worker (res_issue_id res))) ` set rs"
  by (auto simp: list_ex_iff leaf_lease_of_def lease_key_def)

lemma claims_filter: "lease_key ` set (filter (\<lambda>l. lease_key l \<notin> K) (actives now ls)) = claims now ls - K"
  unfolding claims_def by (auto simp del: set_actives)

lemma acquire_claims:
  assumes "acquire now rs ls = Ok ls'" and "list_all (active_at now) rs"
  shows "claims now ls' = claims now ls \<union> lease_key ` set rs"
proof -
  from assms(1) obtain ms where "acquire_loop now rs ls = Ok ms" "ls' = compact_lease_history now ms"
    by (auto simp: acquire_def split: sum.splits)
  with acquire_loop_claims [OF _ assms(2)] show ?thesis by simp
qed

lemma active_for_claims: "k \<in> claims now (ds_leases s) \<Longrightarrow> active_for_at (fst (snd k)) now s"
  by (auto simp: claims_def active_for_at_def list_ex_iff lease_key_def)

subsection \<open>Owners\<close>

lemma colon_prefix:
  assumes "CHR '':'' \<notin> set p" and "CHR '':'' \<notin> set q" and "starts_with (p @ '':'') (q @ '':'' @ r)"
  shows "p = q"
proof -
  from assms(3) obtain t where "q @ '':'' @ r = (p @ '':'') @ t"
    by (metis append_take_drop_id starts_with_def)
  then have "takeWhile (\<lambda>c. c \<noteq> CHR '':'') (q @ '':'' @ r) = takeWhile (\<lambda>c. c \<noteq> CHR '':'') (p @ '':'' @ t)"
    by simp
  moreover have "takeWhile (\<lambda>c. c \<noteq> CHR '':'') (x @ '':'' @ y) = x" if "CHR '':'' \<notin> set x" for x y
    using that by (subst takeWhile_append2) auto
  ultimately show ?thesis using assms(1,2) by metis
qed

lemma starts_with_common [simp]: "starts_with (a @ p) (a @ q) = starts_with p q"
  by (simp add: starts_with_def)

lemma starts_with_self [simp]: "starts_with p (p @ q)"
  by (simp add: starts_with_def)

lemma ancestor_inject [simp]: "ancestor p = ancestor q \<longleftrightarrow> p = q"
  by (auto simp: ancestor_def issue_id.expand)

lemma review_of_parent_other:
  assumes "CHR '':'' \<notin> set (issue_id_str p)" and "CHR '':'' \<notin> set (issue_id_str q)"
    and "lr_owner l = review_for_parent q c"
  shows "review_of_parent p l \<longleftrightarrow> lr_kind l = Review \<and> p = q"
proof -
  have "starts_with (''review:'' @ issue_id_str p @ '':'') (''review:'' @ issue_id_str q @ '':'' @ issue_id_str c)
      \<longleftrightarrow> starts_with (issue_id_str p @ '':'') (issue_id_str q @ '':'' @ issue_id_str c)"
    by (rule starts_with_common)
  moreover have "starts_with (issue_id_str p @ '':'') (issue_id_str q @ '':'' @ issue_id_str c) \<longleftrightarrow> p = q"
    using colon_prefix [OF assms(1,2)] starts_with_self [of "issue_id_str p @ '':''"]
    by (auto simp: issue_id.expand)
  ultimately show ?thesis using assms(3) by (simp add: review_of_parent_def review_for_parent_def)
qed

subsection \<open>Resources\<close>

lemma note_resource_wf: "omap_wf m \<Longrightarrow> omap_wf (foldl note_resource m ls)"
  by (induction ls arbitrary: m) (simp_all add: note_resource_def omap_wf_insert)

lemma note_resource_keys:
  "set (omap_keys (foldl note_resource m ls)) = set (omap_keys m) \<union> lr_resource ` set ls"
  by (induction ls arbitrary: m) (auto simp: note_resource_def keys_omap_insert omap_keys_def)

lemma resources_for_ancestor_owner_eq:
  "resources_for_ancestor_owner owner g sub now s =
     sorted_list_of_set (lr_resource ` {l \<in> set (ds_leases s). held_resource owner g sub now l})"
proof -
  let ?m = "foldl note_resource [] (filter (held_resource owner g sub now) (ds_leases s))"
  have wf: "omap_wf ?m" by (rule note_resource_wf) simp
  have "sorted_wrt (<) (omap_keys ?m)" using wf by (simp only: omap_wf_def omap_keys_def)
  then have "sorted_list_of_set (set (omap_keys ?m)) = omap_keys ?m"
    by (simp only: strict_sorted_iff sorted_list_of_set.idem_if_sorted_distinct)
  moreover have "set (omap_keys ?m) = lr_resource ` {l \<in> set (ds_leases s). held_resource owner g sub now l}"
    unfolding note_resource_keys by (simp add: omap_keys_def)
  ultimately show ?thesis
    unfolding resources_for_ancestor_owner_def by simp
qed

subsection \<open>Retained children\<close>

lemma succs_omap: "succs m p = unwrap_or (omap_get m p) []"
  by (simp add: succs_def omap_get_def)

lemma succs_Nil [simp]: "succs [] p = []"
  by (simp add: succs_def)

lemma in_unwrap_list: "c \<in> set (unwrap_or x []) \<longleftrightarrow> (\<exists>ys. x = Some ys \<and> c \<in> set ys)"
  by (cases x) (simp_all add: unwrap_or_def)

lemma add_links_succs:
  "set (succs (foldl add_link m es) p) = set (succs m p) \<union> {c. (p, c) \<in> set es}"
proof (induction es arbitrary: m)
  case (Cons e es)
  have "set (succs (add_link m e) p) = set (succs m p) \<union> {c. (p, c) = e}"
    by (cases e; cases "omap_get m (fst e)")
      (auto simp: succs_omap add_link_def omap_get_insert unwrap_or_def set_insort_insert)
  then show ?case using Cons [of "add_link m e"] by auto
qed simp

lemma add_links_wf: "omap_wf m \<Longrightarrow> omap_wf (foldl add_link m es)"
  by (induction es arbitrary: m) (simp_all add: add_link_def omap_wf_insert)

text \<open>The links that can retain a descendant: those of every parent but the given one, from
  the snapshots or from what the tracker reports.\<close>

definition other_links ::
  "'c durable_state \<Rightarrow> issue_id \<Rightarrow> (issue_id \<times> issue_id) list option \<Rightarrow> (issue_id \<times> issue_id) set" where
  "other_links s p reachable = {(q, c) \<in> requires s \<union> set (unwrap_or reachable []). q \<noteq> p}"

lemma children_map_succs:
  assumes "omap_wf (ds_hierarchy s)"
  shows "set (succs (children_map s p reachable) q) = {c. (q, c) \<in> other_links s p reachable}"
proof -
  have "set (all_links s reachable) = requires s \<union> set (unwrap_or reachable [])"
    using omap_pair [OF assms] by (force simp: all_links_def requires_def)
  then show ?thesis
    unfolding children_map_def add_links_succs by (auto simp: other_links_def)
qed

lemma children_map_wf: "omap_wf (children_map s p reachable)"
  by (simp add: children_map_def add_links_wf)

lemma retained_eq:
  assumes wf: "omap_wf (ds_hierarchy s)"
  shows "retained_subtree_issue_ids s p subtree reachable =
    {(x, y) \<in> other_links s p reachable. y \<in> subtree}\<^sup>* ``
      {c \<in> subtree. \<exists>q. q \<notin> subtree \<and> (q, c) \<in> other_links s p reachable}"
proof -
  let ?cm = "children_map s p reachable"
  have pair: "(q, cs) \<in> set ?cm \<longleftrightarrow> omap_get ?cm q = Some cs" for q cs
    by (rule omap_pair [OF children_map_wf])
  have roots: "set (concat (map snd (filter (\<lambda>(q, _). q \<notin> subtree) ?cm))) =
      {c. \<exists>q. q \<notin> subtree \<and> (q, c) \<in> other_links s p reachable}" (is "?L = ?R")
  proof (intro set_eqI)
    fix c
    have "c \<in> ?L \<longleftrightarrow> (\<exists>q cs. (q, cs) \<in> set ?cm \<and> q \<notin> subtree \<and> c \<in> set cs)" by force
    also have "\<dots> \<longleftrightarrow> (\<exists>q. q \<notin> subtree \<and> c \<in> set (succs ?cm q))"
      by (simp add: pair succs_omap in_unwrap_list) blast
    finally show "c \<in> ?L \<longleftrightarrow> c \<in> ?R" by (simp add: children_map_succs [OF wf])
  qed
  have edges: "scoped_edges ?cm (\<lambda>i. i \<in> subtree) = {(x, y) \<in> other_links s p reachable. y \<in> subtree}"
    by (auto simp: scoped_edges_def children_map_succs [OF wf])
  have pend: "{x \<in> set (concat (map snd (filter (\<lambda>(q, _). q \<notin> subtree) ?cm))). x \<in> subtree} =
      {c \<in> subtree. \<exists>q. q \<notin> subtree \<and> (q, c) \<in> other_links s p reachable}"
    unfolding roots by auto
  show ?thesis
    unfolding retained_subtree_issue_ids_def Let_def explore_pop_reachable edges pend ..
qed

lemma subtree_below_closed: "x \<in> subtree_below s roots \<Longrightarrow> (x, y) \<in> requires s \<Longrightarrow> y \<in> subtree_below s roots"
  unfolding subtree_below_eq by (auto intro: rtrancl_into_rtrancl)

lemma retained_path:
  assumes wf: "omap_wf (ds_hierarchy s)" and sub: "subtree = subtree_below s roots"
    and q: "(q, c) \<in> other_links s p reachable" "q \<notin> subtree" and c: "c \<in> subtree"
    and path: "(c, i) \<in> {(x, y) \<in> requires s. x \<noteq> p}\<^sup>*"
  shows "i \<in> retained_subtree_issue_ids s p subtree reachable"
proof -
  have "i \<in> subtree \<and> (c, i) \<in> {(x, y) \<in> other_links s p reachable. y \<in> subtree}\<^sup>*"
    using path
  proof (induction rule: rtrancl_induct)
    case (step x y)
    then have "y \<in> subtree" using sub subtree_below_closed by blast
    moreover from step.hyps(2) have "(x, y) \<in> other_links s p reachable" by (simp add: other_links_def)
    ultimately show ?case using step.IH by (auto intro: rtrancl_into_rtrancl)
  qed (use c in simp)
  then show ?thesis using q c by (auto simp: retained_eq [OF wf])
qed

section \<open>Reachable states\<close>

text \<open>What the scheduler does to the durable state, with a clock that does not run backwards.\<close>

inductive durable_reach :: "u64 \<Rightarrow> 'c durable_state \<Rightarrow> bool" where
  dr_init: "durable_reach now durable_default"
| dr_tick: "durable_reach now s \<Longrightarrow> now \<le> now' \<Longrightarrow> durable_reach now' s"
| dr_hierarchy: "durable_reach now s \<Longrightarrow> durable_reach now (s\<lparr>ds_hierarchy := h\<rparr>)"
| dr_acquire: "durable_reach now s \<Longrightarrow> acquire_leases now rs s = Ok s' \<Longrightarrow> durable_reach now s'"
| dr_handover: "durable_reach now s \<Longrightarrow> acquire_required_and_release_leaf now rs leaf t s = Ok s' \<Longrightarrow>
    durable_reach now s'"
| dr_owner: "durable_reach now s \<Longrightarrow> durable_reach now (release_owner owner now t s)"
| dr_resource: "durable_reach now s \<Longrightarrow> durable_reach now (fst (release_resource_leases res now t s))"
| dr_parent: "durable_reach now s \<Longrightarrow> durable_reach now (fst (release_parent_leases p now t s))"
| dr_preserving: "durable_reach now s \<Longrightarrow>
    durable_reach now (fst (release_parent_leases_preserving_ancestor p now t s))"
| dr_parent_resource: "durable_reach now s \<Longrightarrow>
    durable_reach now (fst (release_parent_resource_leases p res now t s))"
| dr_obsolete: "durable_reach now s \<Longrightarrow> durable_reach now (release_obsolete_leaf_leases removed now t s)"
| dr_removed: "durable_reach now s \<Longrightarrow>
    durable_reach now (fst (release_removed_subtree_leases p removed reachable now t s))"
| dr_children: "durable_reach now s \<Longrightarrow>
    durable_reach now (release_ancestor_leases_for_children children now t s)"
| dr_undispatched: "durable_reach now s \<Longrightarrow>
    durable_reach now (fst (release_subtree_evidence_with_reachability p reachable now t s))"
| dr_leaf: "durable_reach now s \<Longrightarrow> durable_reach now (release_leaf_leases_for_parent p now t s)"
| dr_rebind_leaf: "durable_reach now s \<Longrightarrow> durable_reach now (rebind_leaf_leases children g now s)"
| dr_rebind_ancestor: "durable_reach now s \<Longrightarrow> durable_reach now (rebind_ancestor_leases p g now s)"
| dr_prune: "durable_reach now s \<Longrightarrow>
    durable_reach now (fst (prune_obsolete_run_boundaries retained now s))"

lemma claims_regenerate [simp]:
  "claims now (map (\<lambda>l. if P l then l\<lparr>lr_hierarchy_generation := g\<rparr> else l) ls) = claims now ls"
  by (induction ls) (auto simp: claims_def active_at_def lease_key_def)

lemma claims_later: "now \<le> now' \<Longrightarrow> claims now' ls \<subseteq> claims now ls"
proof -
  assume "now \<le> now'"
  then have "active_at now' l \<Longrightarrow> active_at now l" for l
    by (cases "lr_expires_at l") (auto simp: active_at_def)
  then show ?thesis by (auto simp: claims_def)
qed

lemma acquire_exclusive_leases:
  "acquire now rs ls = Ok ls' \<Longrightarrow> leaf_exclusive now ls \<Longrightarrow> leaf_exclusive now ls'"
  using acquire_loop_exclusive by (auto simp: acquire_def leaf_exclusive_def split: sum.splits)

lemma handover_claims_subset:
  assumes "acquire_required_and_release_leaf now rs leaf t s = Ok s'"
  obtains ls where "acquire now rs (ds_leases s) = Ok ls" "claims now (ds_leases s') \<subseteq> claims now ls"
proof -
  from assms obtain ls where ls: "acquire now rs (ds_leases s) = Ok ls"
    and s': "ds_leases s' = compact_lease_history now
      (foldl (\<lambda>ls res. stamp_where now (leaf_lease_of res) t ls) ls leaf)"
    by (auto simp: acquire_required_and_release_leaf_def acquire_leases_def split: sum.splits)
  have "claims now (ds_leases s') \<subseteq> claims now ls"
    unfolding s' claims_def compact_actives stamp_all_actives by auto
  with ls that show ?thesis by blast
qed

lemma reach_exclusive: "durable_reach now s \<Longrightarrow> leaf_exclusive now (ds_leases s)"
proof (induction rule: durable_reach.induct)
  case (dr_init now)
  then show ?case by (simp add: durable_default_def leaf_exclusive_def claims_def)
next
  case (dr_tick now s now')
  then show ?case using claims_later leaf_exclusive_mono by blast
next
  case (dr_acquire now s rs s')
  then show ?case using acquire_exclusive_leases by (auto simp: acquire_leases_def split: sum.splits)
next
  case (dr_handover now s rs leaf t s')
  then show ?case
    using acquire_exclusive_leases leaf_exclusive_mono handover_claims_subset by metis
next
  case (dr_removed now s p removed reachable t)
  show ?case
  proof (cases removed)
    case Nil
    then show ?thesis
      using dr_removed.IH by (simp add: release_removed_subtree_leases_def removed_subtree_empty)
  next
    case (Cons r rs)
    then show ?thesis using removed_release.op_exclusive [OF dr_removed.IH] by simp
  qed
next
  case (dr_rebind_leaf now s children g)
  then show ?case by (simp add: rebind_leaf_leases_def leaf_exclusive_def)
next
  case (dr_rebind_ancestor now s p g)
  then show ?case by (simp add: rebind_ancestor_leases_def leaf_exclusive_def)
qed (simp_all add: owner_release.op_exclusive resource_release.op_exclusive
      parent_release.op_exclusive parent_resource_release.op_exclusive obsolete_release.op_exclusive
      children_release.op_exclusive undispatched_release.op_exclusive leaf_release.op_exclusive
      release_parent_leases_def release_parent_leases_preserving_ancestor_def
      prune_obsolete_run_boundaries_def Let_def)

section \<open>Properties\<close>

text \<open>Handing a checkout from its worker to an ancestor leaves no gap: after
  \<open>acquire_required_and_release_leaf\<close> the active claims are exactly those from before and the
  required ones, less the worker's claims on the handed-over checkouts, so every required
  checkout is still held.\<close>

theorem handover_keeps_checkout:
  assumes "acquire_required_and_release_leaf now required leaf t s = Ok s'"
    and "list_all (active_at now) required"
  shows "claims now (ds_leases s') =
      (claims now (ds_leases s) \<union> lease_key ` set required) -
      (\<lambda>res. (LeafWorker, res, leaf_worker (res_issue_id res))) ` set leaf \<and>
    (\<forall>r \<in> set required. lr_kind r \<noteq> LeafWorker \<longrightarrow> active_for_at (lr_resource r) now s')"
proof -
  let ?K = "(\<lambda>res. (LeafWorker, res, leaf_worker (res_issue_id res))) ` set leaf"
  from assms(1) obtain ls where ls: "acquire now required (ds_leases s) = Ok ls"
    and s': "ds_leases s' = compact_lease_history now
      (foldl (\<lambda>ls res. stamp_where now (leaf_lease_of res) t ls) ls leaf)"
    by (auto simp: acquire_required_and_release_leaf_def acquire_leases_def split: sum.splits)
  have "claims now (ds_leases s') = claims now ls - ?K"
    unfolding s' claims_def compact_actives stamp_all_actives leaf_lease_key
    using claims_filter [of ?K now ls] by (simp add: claims_def del: set_actives)
  then have eq: "claims now (ds_leases s') =
      (claims now (ds_leases s) \<union> lease_key ` set required) - ?K"
    by (simp add: acquire_claims [OF ls assms(2)])
  have "active_for_at (lr_resource r) now s'" if "r \<in> set required" "lr_kind r \<noteq> LeafWorker" for r
  proof -
    have "lease_key r \<in> claims now (ds_leases s')"
      unfolding eq using that by (auto simp: lease_key_def)
    from active_for_claims [OF this] show ?thesis by (simp add: lease_key_def)
  qed
  with eq show ?thesis by blast
qed

theorem handover_keeps_checkout_witness:
  "\<exists>s'. acquire_required_and_release_leaf 5
       [(demo_lease ''a'')\<lparr>lr_kind := AncestorIntegration, lr_owner := ancestor (IssueId ''p'')\<rparr>]
       [lr_resource (demo_lease ''a'')] 5
       ((durable_default :: unit durable_state)\<lparr>ds_leases := [demo_lease ''a'']\<rparr>) = Ok s' \<and>
     active_for_at (lr_resource (demo_lease ''a'')) 5 s'"
proof -
  let ?r = "(demo_lease ''a'')\<lparr>lr_kind := AncestorIntegration, lr_owner := ancestor (IssueId ''p'')\<rparr>"
  let ?s = "(durable_default :: unit durable_state)\<lparr>ds_leases := [demo_lease ''a'']\<rparr>"
  have act: "list_all (active_at 5) [?r]" by (simp add: active_at_def demo_lease_def is_none_or_def)
  have "acquire_loop 5 [?r] (ds_leases ?s) = Ok [demo_lease ''a'', ?r]"
    by (simp add: demo_lease_def durable_default_def)
  then obtain s' where s': "acquire_required_and_release_leaf 5 [?r] [lr_resource (demo_lease ''a'')] 5 ?s = Ok s'"
    by (simp add: acquire_required_and_release_leaf_def acquire_leases_def acquire_def)
  from handover_keeps_checkout [OF s' act] s' show ?thesis by (simp add: demo_lease_def)
qed

text \<open>C8: releasing a removed subtree spares what another parent still needs: the leaf lease of
  every descendant that a parent outside the subtree requires, directly or below a required
  child, stays active; so do the leases of issues outside the subtree and all repair and
  diagnostic leases.\<close>

theorem removed_subtree_spares_needed:
  assumes "omap_wf (ds_hierarchy s)" and "l \<in> set (ds_leases s)" and "active_at now l"
    and "lr_kind l = Repair \<or> lr_kind l = DiagnosticHold \<or>
         lr_kind l = LeafWorker \<and>
           (res_issue_id (lr_resource l) \<notin> subtree_below s removed \<or>
            (\<exists>q c. (q, c) \<in> other_links s p reachable \<and> q \<notin> subtree_below s removed \<and>
                   c \<in> subtree_below s removed \<and>
                   (c, res_issue_id (lr_resource l)) \<in> {(x, y) \<in> requires s. x \<noteq> p}\<^sup>*))"
  shows "l \<in> set (ds_leases (fst (release_removed_subtree_leases p removed reachable now t s)))"
proof (cases removed)
  case Nil
  then show ?thesis
    using assms(2) by (simp add: release_removed_subtree_leases_def removed_subtree_empty)
next
  case (Cons r rs)
  let ?i = "res_issue_id (lr_resource l)" and ?sub = "subtree_below s removed"
  have "?i \<notin> ?sub \<or> ?i \<in> retained_subtree_issue_ids s p ?sub reachable" if "lr_kind l = LeafWorker"
    using assms(4) that retained_path [OF assms(1) refl] by auto
  then have "\<not> removed_selection p (r # rs) reachable s l"
    using assms(4) unfolding removed_selection_def removed_subtree_lease_def Let_def Cons
    by (auto split: lease_kind.split)
  with removed_release.op_keeps assms(2,3) Cons show ?thesis by blast
qed

definition demo_durable :: "unit durable_state" where
  "demo_durable =
     durable_default
       \<lparr>ds_hierarchy :=
          [(IssueId ''c'', (demo_snapshot [''g''])\<lparr>hs_parent_id := IssueId ''c''\<rparr>),
           (IssueId ''p'', demo_snapshot [''g''])],
        ds_leases := [demo_lease ''g'']\<rparr>"

lemma demo_durable_wf: "omap_wf (ds_hierarchy demo_durable)"
  by (simp add: demo_durable_def)

lemma demo_required_ids:
  "required_ids (demo_snapshot is) = map IssueId is"
  "required_ids ((demo_snapshot is)\<lparr>hs_parent_id := p\<rparr>) = map IssueId is"
  by (induction "is") (simp_all add: required_ids_def demo_snapshot_def demo_edge_def)

lemma demo_requires:
  "requires demo_durable = {(IssueId ''c'', IssueId ''g''), (IssueId ''p'', IssueId ''g'')}"
  by (auto simp: requires_def demo_durable_def omap_get_def demo_required_ids split: if_splits)

lemma demo_below: "subtree_below demo_durable [IssueId ''c''] = {IssueId ''c'', IssueId ''g''}"
proof -
  have "(requires demo_durable)\<^sup>* `` {IssueId ''c''} \<subseteq> {IssueId ''c'', IssueId ''g''}"
    by (rule closed_rtrancl) (auto simp: demo_requires)
  moreover have "(IssueId ''c'', IssueId ''g'') \<in> (requires demo_durable)\<^sup>*"
    by (auto simp: demo_requires)
  ultimately show ?thesis by (auto simp: subtree_below_eq)
qed

theorem removed_subtree_spares_needed_witness:
  "demo_lease ''g'' \<in> set (ds_leases (fst (release_removed_subtree_leases (IssueId ''q'')
     [IssueId ''c''] (Some [(IssueId ''p'', IssueId ''g'')]) 5 5 demo_durable)))"
proof (rule removed_subtree_spares_needed [OF demo_durable_wf])
  have "(IssueId ''p'', IssueId ''g'') \<in>
      other_links demo_durable (IssueId ''q'') (Some [(IssueId ''p'', IssueId ''g'')])"
    by (simp add: other_links_def demo_requires)
  then show "lr_kind (demo_lease ''g'') = Repair \<or> lr_kind (demo_lease ''g'') = DiagnosticHold \<or>
      lr_kind (demo_lease ''g'') = LeafWorker \<and>
        (res_issue_id (lr_resource (demo_lease ''g'')) \<notin> subtree_below demo_durable [IssueId ''c''] \<or>
         (\<exists>q c. (q, c) \<in> other_links demo_durable (IssueId ''q'') (Some [(IssueId ''p'', IssueId ''g'')]) \<and>
            q \<notin> subtree_below demo_durable [IssueId ''c''] \<and> c \<in> subtree_below demo_durable [IssueId ''c''] \<and>
            (c, res_issue_id (lr_resource (demo_lease ''g''))) \<in>
              {(x, y) \<in> requires demo_durable. x \<noteq> IssueId ''q''}\<^sup>*))"
    unfolding demo_below by (intro disjI2) (auto simp: demo_lease_def)
qed (simp_all add: demo_durable_def demo_lease_def active_at_def)

text \<open>The links of the parent itself retain nothing: when a grandchild moved up to become
  a required child of the very parent that lost the child above it, and no other parent needs
  it, releasing the removed subtree also releases the grandchild's leaf lease, although the
  parent requires that grandchild now.\<close>

theorem lifted_descendant_lease_released:
  assumes "omap_wf (ds_hierarchy s)" and "(p, g) \<in> requires s"
    and "removed \<noteq> []" and "g \<in> subtree_below s removed"
    and "\<And>q c. (q, c) \<in> other_links s p reachable \<Longrightarrow> c \<in> subtree_below s removed \<Longrightarrow>
            q \<in> subtree_below s removed"
    and "lr_kind l = LeafWorker" and "res_issue_id (lr_resource l) = g" and "active_at now l"
  shows "l \<notin> set (ds_leases (fst (release_removed_subtree_leases p removed reachable now t s)))"
proof -
  from assms(3) obtain r rs where r: "removed = r # rs" by (cases removed) auto
  have none: "{c \<in> subtree_below s removed. \<exists>q. q \<notin> subtree_below s removed \<and>
      (q, c) \<in> other_links s p reachable} = {}"
    using assms(5) by blast
  have "retained_subtree_issue_ids s p (subtree_below s removed) reachable = {}"
    unfolding retained_eq [OF assms(1)] none by (rule Image_empty2)
  then have "removed_selection p removed reachable s l"
    using assms(4,6,7) by (simp add: removed_selection_def removed_subtree_lease_def Let_def)
  with removed_release.op_removes assms(8) r show ?thesis by blast
qed

theorem lifted_descendant_lease_released_witness:
  "(IssueId ''p'', IssueId ''g'') \<in> requires demo_durable \<and>
   demo_lease ''g'' \<in> set (ds_leases demo_durable) \<and>
   demo_lease ''g'' \<notin> set (ds_leases (fst (release_removed_subtree_leases (IssueId ''p'')
     [IssueId ''c''] None 5 5 demo_durable)))"
proof (intro conjI)
  show "demo_lease ''g'' \<notin> set (ds_leases (fst (release_removed_subtree_leases (IssueId ''p'')
      [IssueId ''c''] None 5 5 demo_durable)))"
  proof (rule lifted_descendant_lease_released [OF demo_durable_wf])
    show "(IssueId ''p'', IssueId ''g'') \<in> requires demo_durable" by (simp add: demo_requires)
    show "IssueId ''g'' \<in> subtree_below demo_durable [IssueId ''c'']" by (simp add: demo_below)
    show "q \<in> subtree_below demo_durable [IssueId ''c'']"
      if "(q, c) \<in> other_links demo_durable (IssueId ''p'') None" for q c
      using that by (auto simp: other_links_def demo_requires demo_below)
  qed (simp_all add: demo_lease_def active_at_def)
next
  show "demo_lease ''g'' \<in> set (ds_leases demo_durable)" by (simp add: demo_durable_def)
qed (simp add: demo_requires)

text \<open>C5: no two workers ever hold one checkout: in every state the durable operations reach,
  with a clock that does not run backwards, the active leaf leases on one resource have one
  owner.\<close>

theorem leaf_leases_exclusive:
  assumes "durable_reach now s" and "l1 \<in> set (ds_leases s)" and "l2 \<in> set (ds_leases s)"
    and "active_at now l1" and "active_at now l2" and "lr_kind l1 = LeafWorker" and "lr_kind l2 = LeafWorker"
    and "lr_resource l1 = lr_resource l2"
  shows "lr_owner l1 = lr_owner l2"
proof -
  have "(LeafWorker, lr_resource l, lr_owner l) \<in> claims now (ds_leases s)"
    if "l \<in> set (ds_leases s)" "active_at now l" "lr_kind l = LeafWorker" for l
    using that by (force simp: claims_def lease_key_def)
  with reach_exclusive [OF assms(1)] assms(2-) show ?thesis
    unfolding leaf_exclusive_def by metis
qed

theorem leaf_leases_exclusive_witness:
  "\<exists>s :: unit durable_state. durable_reach 5 s \<and> demo_lease ''a'' \<in> set (ds_leases s) \<and>
     lr_owner (demo_lease ''a'') = lr_owner (demo_lease ''a'')"
proof -
  let ?s = "(durable_default :: unit durable_state)\<lparr>ds_leases := [demo_lease ''a'']\<rparr>"
  have "acquire_leases 5 [demo_lease ''a''] (durable_default :: unit durable_state) = Ok ?s"
    by (simp add: acquire_leases_def acquire_def durable_default_def compact_lease_history_def
        drop_oldest_def active_at_def demo_lease_def max_inactive_lease_history_def)
  with dr_init have reach: "durable_reach 5 ?s" by (rule dr_acquire)
  have "lr_owner (demo_lease ''a'') = lr_owner (demo_lease ''a'')"
    by (rule leaf_leases_exclusive [OF reach]) (simp_all add: demo_lease_def active_at_def)
  with reach show ?thesis by (intro exI [of _ ?s]) simp
qed

text \<open>The search for a dispatched ancestor finds exactly the issues that lie below one, at
  any depth and through any number of parents: an ancestor that requires the issue, whose
  execution fence is up and that holds an active integration lease.\<close>

theorem dispatched_ancestor_search:
  assumes "omap_wf (ds_hierarchy s)"
  shows "has_active_dispatched_ancestor child now s \<longleftrightarrow>
    (\<exists>p snap. (p, child) \<in> (requires s)\<^sup>+ \<and> omap_get (ds_hierarchy s) p = Some snap \<and>
       has_dispatched_execution_fence snap \<and>
       (\<exists>l \<in> set (ds_leases s). active_at now l \<and> lr_kind l = AncestorIntegration \<and>
          lr_owner l = ancestor p))"
proof -
  have "has_active_dispatched_ancestor child now s \<longleftrightarrow>
      (\<exists>p. (p, child) \<in> (requires s)\<^sup>+ \<and> fenced_ancestor now s p)"
    by (simp add: has_active_dispatched_ancestor_def explore_until_reachable
        parent_adj_edges [OF assms] trancl_converse)
  then show ?thesis
    by (auto simp: fenced_ancestor_def is_some_and_def list_ex_iff split: option.splits)
qed

theorem dispatched_ancestor_search_witness:
  "has_active_dispatched_ancestor (IssueId ''g'') 5
     (demo_durable\<lparr>ds_leases := [(demo_lease ''g'')\<lparr>lr_kind := AncestorIntegration,
        lr_owner := ancestor (IssueId ''p'')\<rparr>]\<rparr>)"
proof -
  let ?l = "(demo_lease ''g'')\<lparr>lr_kind := AncestorIntegration, lr_owner := ancestor (IssueId ''p'')\<rparr>"
  let ?s = "demo_durable\<lparr>ds_leases := [?l]\<rparr>"
  have wf: "omap_wf (ds_hierarchy ?s)" using demo_durable_wf by simp
  have "requires ?s = requires demo_durable" by (simp add: requires_def)
  then have "(IssueId ''p'', IssueId ''g'') \<in> (requires ?s)\<^sup>+" by (auto simp: demo_requires)
  moreover have "omap_get (ds_hierarchy ?s) (IssueId ''p'') = Some (demo_snapshot [''g''])"
    by (simp add: demo_durable_def omap_get_def)
  moreover have "has_dispatched_execution_fence (demo_snapshot [''g''])"
    by (simp add: has_dispatched_execution_fence_def dispatch_claimed_def demo_snapshot_def)
  moreover have "?l \<in> set (ds_leases ?s) \<and> active_at 5 ?l" by (simp add: active_at_def demo_lease_def)
  ultimately show ?thesis unfolding dispatched_ancestor_search [OF wf] by force
qed

text \<open>The checkouts a parent integrates are, in ascending order and without repetition,
  exactly those it holds an active integration lease of the current generation on and that
  belong to its current subtree.\<close>

theorem descendant_resources_exact:
  assumes "omap_get (ds_hierarchy s) p = Some snap"
  shows "descendant_resources_for p now s =
    sorted_list_of_set (lr_resource ` {l \<in> set (ds_leases s). active_at now l \<and>
       lr_kind l = AncestorIntegration \<and> lr_owner l = ancestor p \<and>
       lr_hierarchy_generation l = hs_generation snap \<and>
       (p, res_issue_id (lr_resource l)) \<in> (requires s)\<^sup>*})"
  using assms
  by (simp add: descendant_resources_for_def resources_for_ancestor_owner_eq held_resource_def
      current_subtree_issue_ids_def subtree_issue_ids_eq or_else_def)

theorem descendant_resources_exact_witness:
  "descendant_resources_for (IssueId ''p'') 5
     (demo_durable\<lparr>ds_leases := [(demo_lease ''g'')\<lparr>lr_kind := AncestorIntegration,
        lr_owner := ancestor (IssueId ''p'')\<rparr>, (demo_lease ''x'')]\<rparr>) = [lr_resource (demo_lease ''g'')]"
proof -
  let ?l = "(demo_lease ''g'')\<lparr>lr_kind := AncestorIntegration, lr_owner := ancestor (IssueId ''p'')\<rparr>"
  let ?s = "demo_durable\<lparr>ds_leases := [?l, demo_lease ''x'']\<rparr>"
  have h: "omap_get (ds_hierarchy ?s) (IssueId ''p'') = Some (demo_snapshot [''g''])"
    by (simp add: demo_durable_def omap_get_def)
  have "requires ?s = requires demo_durable" by (simp add: requires_def)
  then have "(IssueId ''p'', IssueId ''g'') \<in> (requires ?s)\<^sup>*" by (auto simp: demo_requires)
  then have "{l \<in> set (ds_leases ?s). active_at 5 l \<and> lr_kind l = AncestorIntegration \<and>
      lr_owner l = ancestor (IssueId ''p'') \<and>
      lr_hierarchy_generation l = hs_generation (demo_snapshot [''g'']) \<and>
      (IssueId ''p'', res_issue_id (lr_resource l)) \<in> (requires ?s)\<^sup>*} = {?l}"
    by (auto simp: active_at_def demo_lease_def demo_snapshot_def)
  with descendant_resources_exact [OF h, of 5] show ?thesis by (simp add: demo_lease_def)
qed

text \<open>Releasing a parent's leases is confined to that parent: its own ancestor and review
  leases are gone, and every active lease of another parent, under its ancestor or review
  owner, is still there (issue ids carry no colon).\<close>

theorem parent_release_confined:
  assumes "CHR '':'' \<notin> set (issue_id_str p)" and "CHR '':'' \<notin> set (issue_id_str q)" and "active_at now l"
    and s'_def: "s' = fst (release_parent_leases p now t s)"
  shows "(lr_owner l = ancestor p \<or> lr_kind l = Review \<and> lr_owner l = review_for_parent p c \<longrightarrow>
            l \<notin> set (ds_leases s')) \<and>
    (q \<noteq> p \<and> l \<in> set (ds_leases s) \<and>
       (lr_kind l = AncestorIntegration \<and> lr_owner l = ancestor q \<or> lr_owner l = review_for_parent q c) \<longrightarrow>
       l \<in> set (ds_leases s'))"
proof -
  let ?sel = "lr_owner l = ancestor p \<or> review_of_parent p l"
  have s': "s' = fst (release_parent_leases_inner p True now t s)"
    by (simp add: s'_def release_parent_leases_def)
  have gone: "l \<in> set (ds_leases s') \<Longrightarrow> \<not> ?sel"
    unfolding s' using parent_release.op_removes [of l p True now t s] assms(3) by blast
  have kept: "l \<in> set (ds_leases s) \<Longrightarrow> \<not> ?sel \<Longrightarrow> l \<in> set (ds_leases s')"
    unfolding s' using parent_release.op_keeps [of l s now True p t] assms(3) by blast
  have mine: "review_of_parent p l" if "lr_kind l = Review" "lr_owner l = review_for_parent p c"
    using review_of_parent_other [OF assms(1,1) that(2)] that(1) by simp
  have other: "\<not> review_of_parent p l" if "q \<noteq> p" "lr_owner l = review_for_parent q c"
    using review_of_parent_other [OF assms(1,2) that(2)] that(1) by simp
  have anc: "\<not> review_of_parent p l" if "lr_kind l = AncestorIntegration"
    using that by (simp add: review_of_parent_def)
  have diff: "review_for_parent q c \<noteq> ancestor p" by (simp add: review_for_parent_def ancestor_def)
  show ?thesis
  proof (intro conjI impI)
    assume "lr_owner l = ancestor p \<or> lr_kind l = Review \<and> lr_owner l = review_for_parent p c"
    with mine have ?sel by blast
    with gone show "l \<notin> set (ds_leases s')" by blast
  next
    assume a: "q \<noteq> p \<and> l \<in> set (ds_leases s) \<and>
       (lr_kind l = AncestorIntegration \<and> lr_owner l = ancestor q \<or> lr_owner l = review_for_parent q c)"
    then have "lr_owner l \<noteq> ancestor p" using diff by (metis ancestor_inject)
    moreover from a other anc have "\<not> review_of_parent p l" by blast
    ultimately show "l \<in> set (ds_leases s')" using a kept by blast
  qed
qed

theorem parent_release_confined_witness:
  "(demo_lease ''g'')\<lparr>lr_kind := AncestorIntegration, lr_owner := ancestor (IssueId ''q'')\<rparr> \<in>
     set (ds_leases (fst (release_parent_leases (IssueId ''p'') 5 5
       (demo_durable\<lparr>ds_leases := [(demo_lease ''g'')\<lparr>lr_kind := AncestorIntegration,
          lr_owner := ancestor (IssueId ''q'')\<rparr>]\<rparr>))))"
proof -
  let ?l = "(demo_lease ''g'')\<lparr>lr_kind := AncestorIntegration, lr_owner := ancestor (IssueId ''q'')\<rparr>"
  have "active_at 5 ?l" by (simp add: active_at_def demo_lease_def)
  with parent_release_confined [where p = "IssueId ''p''" and q = "IssueId ''q''" and now = 5 and l = ?l
      and t = 5 and s = "demo_durable\<lparr>ds_leases := [?l]\<rparr>", OF _ _ _ refl] show ?thesis
    by simp
qed

text \<open>Pruning the run boundaries forgets exactly the issues that are no longer live (neither
  retained by the caller, nor in the hierarchy, nor under an active lease); it keeps the
  boundary of every live issue, reports whether it dropped anything, and repeating it changes
  nothing.\<close>

theorem prune_keeps_live:
  assumes "prune_obsolete_run_boundaries retained now s = (s', changed)"
  shows "set (ds_run_started_at_by_issue s') =
      {(i, t) \<in> set (ds_run_started_at_by_issue s). i \<in> live_issue_ids retained now s} \<and>
    set (ds_run_hierarchy_generations s') =
      {(i, g) \<in> set (ds_run_hierarchy_generations s). i \<in> live_issue_ids retained now s} \<and>
    set (ds_terminal_orchestrator_issues s') =
      {i \<in> set (ds_terminal_orchestrator_issues s). i \<in> live_issue_ids retained now s} \<and>
    (\<not> changed \<longleftrightarrow> s' = s) \<and>
    prune_obsolete_run_boundaries retained now s' = (s', False)"
proof -
  let ?live = "live_issue_ids retained now s"
  let ?keep = "\<lambda>m. omap_retain (\<lambda>i _. i \<in> ?live) m"
  have s': "s' = s\<lparr>ds_run_hierarchy_generations := ?keep (ds_run_hierarchy_generations s),
      ds_run_started_at_by_issue := omap_retain (\<lambda>i _. i \<in> ?live) (ds_run_started_at_by_issue s),
      ds_terminal_orchestrator_issues := filter (\<lambda>i. i \<in> ?live) (ds_terminal_orchestrator_issues s)\<rparr>"
    and changed: "changed \<longleftrightarrow>
      length (ds_run_hierarchy_generations s) \<noteq> length (ds_run_hierarchy_generations s') \<or>
      length (ds_run_started_at_by_issue s) \<noteq> length (ds_run_started_at_by_issue s') \<or>
      length (ds_terminal_orchestrator_issues s) \<noteq> length (ds_terminal_orchestrator_issues s')"
    using assms by (auto simp: prune_obsolete_run_boundaries_def Let_def)
  have live: "live_issue_ids retained now s' = ?live" by (simp add: live_issue_ids_def s')
  have same: "length xs = length (filter P xs) \<longleftrightarrow> filter P xs = xs" for P and xs :: "'x list"
    by (metis filter_True filter_id_conv length_filter_less less_irrefl)
  have fields: "s\<lparr>ds_run_hierarchy_generations := a, ds_run_started_at_by_issue := b,
      ds_terminal_orchestrator_issues := c\<rparr> = s \<longleftrightarrow>
      a = ds_run_hierarchy_generations s \<and> b = ds_run_started_at_by_issue s \<and>
      c = ds_terminal_orchestrator_issues s" for a b c
    by (cases s) simp
  have unchanged: "\<not> changed \<longleftrightarrow> s' = s"
    unfolding changed by (simp add: s' omap_retain_def same fields) blast
  have kept: "omap_retain (\<lambda>i _. i \<in> ?live) (ds_run_hierarchy_generations s') = ds_run_hierarchy_generations s'"
      "omap_retain (\<lambda>i _. i \<in> ?live) (ds_run_started_at_by_issue s') = ds_run_started_at_by_issue s'"
      "filter (\<lambda>i. i \<in> ?live) (ds_terminal_orchestrator_issues s') = ds_terminal_orchestrator_issues s'"
    by (simp_all add: s' omap_retain_def case_prod_unfold)
  have "prune_obsolete_run_boundaries retained now s' = (s', False)"
    by (simp add: prune_obsolete_run_boundaries_def Let_def live kept)
  moreover have "set (ds_run_started_at_by_issue s') =
        {(i, t) \<in> set (ds_run_started_at_by_issue s). i \<in> ?live}"
      "set (ds_run_hierarchy_generations s') =
        {(i, g) \<in> set (ds_run_hierarchy_generations s). i \<in> ?live}"
      "set (ds_terminal_orchestrator_issues s') =
        {i \<in> set (ds_terminal_orchestrator_issues s). i \<in> ?live}"
    by (auto simp: s' omap_retain_def)
  ultimately show ?thesis using unchanged by blast
qed

theorem prune_keeps_live_witness:
  "\<exists>s'. prune_obsolete_run_boundaries {} 5
       (demo_durable\<lparr>ds_run_started_at_by_issue := [(IssueId ''g'', 1), (IssueId ''z'', 2)]\<rparr>) = (s', True) \<and>
     set (ds_run_started_at_by_issue s') = {(IssueId ''g'', 1)}"
proof -
  let ?s = "demo_durable\<lparr>ds_run_started_at_by_issue := [(IssueId ''g'', 1), (IssueId ''z'', 2)]\<rparr>"
  have live: "live_issue_ids {} 5 ?s = {IssueId ''c'', IssueId ''p'', IssueId ''g''}"
    by (auto simp: live_issue_ids_def demo_durable_def demo_snapshot_def demo_edge_def demo_lease_def
        omap_keys_def omap_values_def active_at_def)
  obtain s' changed where r: "prune_obsolete_run_boundaries {} 5 ?s = (s', changed)" by fastforce
  from prune_keeps_live [OF r, unfolded live]
  have set_eq: "set (ds_run_started_at_by_issue s') = {(IssueId ''g'', 1)}" and "\<not> changed \<longleftrightarrow> s' = ?s"
    by auto
  moreover from set_eq have "s' \<noteq> ?s" by auto
  ultimately show ?thesis using r by simp
qed

end
