(* ===== verification/Journal.thy ===== *)
theory Journal
  imports Issues Ordered_Map
begin

text \<open>
  The event journal: the record types of \<open>opensymphony-gateway-schema/src/event_journal.rs\<close>,
  \<open>cursor.rs\<close>, \<open>version.rs\<close> and \<open>envelope.rs\<close>, the bounded in-memory journal and the event
  stream of \<open>opensymphony-domain/src/journal.rs\<close>. The lock around the journal makes each
  method one step; \<open>usize\<close> values are naturals. A fresh UUID and the current time are
  arguments. The broadcast channel is outside the repository: a receiver is the list of what
  its \<open>recv\<close> will return.
\<close>

section \<open>Events\<close>

datatype event_actor =
    ActorSystem string | ActorUser string | ActorAgent string | ActorHarness string

fun actor_kind_label :: "event_actor \<Rightarrow> string" where
  "actor_kind_label (ActorSystem _) = ''system''"
| "actor_kind_label (ActorUser _) = ''user''"
| "actor_kind_label (ActorAgent _) = ''agent''"
| "actor_kind_label (ActorHarness _) = ''harness''"

fun actor_id :: "event_actor \<Rightarrow> string" where
  "actor_id (ActorSystem i) = i"
| "actor_id (ActorUser i) = i"
| "actor_id (ActorAgent i) = i"
| "actor_id (ActorHarness i) = i"

datatype event_kind =
    OrchestratorStateTransition string string
  | OrchestratorWorkerStarted
  | OrchestratorWorkerCompleted string
  | OrchestratorWorkerFailed string
  | OrchestratorRetryScheduled u32
  | GatewayActionDispatched string
  | GatewayActionCompleted string
  | GatewayActionFailed string string
  | HarnessEventNormalized string
  | HarnessSseEvent
  | HarnessToolCall
  | HarnessToolResult
  | HarnessConversationStateUpdate
  | RunStarted
  | RunCompleted
  | RunFailed
  | RunCancelled
  | TerminalFrame string
  | LogEntry string
  | ApprovalRequested
  | ApprovalGranted
  | ApprovalDenied
  | PlanningSessionStarted
  | PlanningMessage
  | PlanningArtifactGenerated
  | StreamConnected string
  | StreamDisconnected string
  | StreamReconnected string
  | TaskGraphMilestoneCreated string
  | TaskGraphMilestoneUpdated string
  | TaskGraphIssueCreated string
  | TaskGraphIssueUpdated string
  | TaskGraphSubIssueCreated string string
  | TaskGraphSubIssueUpdated string
  | TaskGraphRelationCreated string string
  | TaskGraphCommentCreated string string
  | MemoryGraphUpdated string
  | CodeGraphUpdated string
  | CodeIndexProgress string
  | CodeIndexFailed string
  | UnknownKind string

fun kind_tag :: "event_kind \<Rightarrow> string" where
  "kind_tag (OrchestratorStateTransition _ _) = ''orchestrator.state_transition''"
| "kind_tag OrchestratorWorkerStarted = ''orchestrator.worker_started''"
| "kind_tag (OrchestratorWorkerCompleted _) = ''orchestrator.worker_completed''"
| "kind_tag (OrchestratorWorkerFailed _) = ''orchestrator.worker_failed''"
| "kind_tag (OrchestratorRetryScheduled _) = ''orchestrator.retry_scheduled''"
| "kind_tag (GatewayActionDispatched _) = ''gateway.action_dispatched''"
| "kind_tag (GatewayActionCompleted _) = ''gateway.action_completed''"
| "kind_tag (GatewayActionFailed _ _) = ''gateway.action_failed''"
| "kind_tag (HarnessEventNormalized _) = ''harness.event_normalized''"
| "kind_tag HarnessSseEvent = ''harness.sse_event''"
| "kind_tag HarnessToolCall = ''harness.tool_call''"
| "kind_tag HarnessToolResult = ''harness.tool_result''"
| "kind_tag HarnessConversationStateUpdate = ''harness.conversation_state_update''"
| "kind_tag RunStarted = ''run.started''"
| "kind_tag RunCompleted = ''run.completed''"
| "kind_tag RunFailed = ''run.failed''"
| "kind_tag RunCancelled = ''run.cancelled''"
| "kind_tag (TerminalFrame _) = ''terminal.frame''"
| "kind_tag (LogEntry _) = ''log.entry''"
| "kind_tag ApprovalRequested = ''approval.requested''"
| "kind_tag ApprovalGranted = ''approval.granted''"
| "kind_tag ApprovalDenied = ''approval.denied''"
| "kind_tag PlanningSessionStarted = ''planning.session_started''"
| "kind_tag PlanningMessage = ''planning.message''"
| "kind_tag PlanningArtifactGenerated = ''planning.artifact_generated''"
| "kind_tag (StreamConnected _) = ''stream.connected''"
| "kind_tag (StreamDisconnected _) = ''stream.disconnected''"
| "kind_tag (StreamReconnected _) = ''stream.reconnected''"
| "kind_tag (TaskGraphMilestoneCreated _) = ''task_graph.milestone_created''"
| "kind_tag (TaskGraphMilestoneUpdated _) = ''task_graph.milestone_updated''"
| "kind_tag (TaskGraphIssueCreated _) = ''task_graph.issue_created''"
| "kind_tag (TaskGraphIssueUpdated _) = ''task_graph.issue_updated''"
| "kind_tag (TaskGraphSubIssueCreated _ _) = ''task_graph.sub_issue_created''"
| "kind_tag (TaskGraphSubIssueUpdated _) = ''task_graph.sub_issue_updated''"
| "kind_tag (TaskGraphRelationCreated _ _) = ''task_graph.relation_created''"
| "kind_tag (TaskGraphCommentCreated _ _) = ''task_graph.comment_created''"
| "kind_tag (MemoryGraphUpdated _) = ''memory_graph_updated''"
| "kind_tag (CodeGraphUpdated _) = ''code_graph_updated''"
| "kind_tag (CodeIndexProgress _) = ''code_index_progress''"
| "kind_tag (CodeIndexFailed _) = ''code_index_failed''"
| "kind_tag (UnknownKind raw_kind) = raw_kind"

fun is_high_volume :: "event_kind \<Rightarrow> bool" where
  "is_high_volume (TerminalFrame _) = True"
| "is_high_volume (LogEntry _) = True"
| "is_high_volume _ = False"

definition default_partition :: "event_kind \<Rightarrow> string" where
  "default_partition k = (if is_high_volume k then ''terminal_log'' else ''events'')"

record schema_version =
  sv_major :: "16 word"
  sv_minor :: "16 word"
  sv_patch :: "16 word"

definition schema_version_v1 :: schema_version where
  "schema_version_v1 = \<lparr>sv_major = 1, sv_minor = 0, sv_patch = 0\<rparr>"

datatype entity_kind =
    EntIssue | EntSubIssue | EntMilestone | EntRun | EntWorkspace | EntConversation
  | EntTerminalSession | EntPlanningSession | EntProject | EntRepository | EntAgent | EntHarness
  | EntUnknown

record entity_ref =
  er_kind :: entity_kind
  er_id :: string
  er_identifier :: "string option"

definition entity_ref_issue :: "string \<Rightarrow> string option \<Rightarrow> entity_ref" where
  "entity_ref_issue i identifier = \<lparr>er_kind = EntIssue, er_id = i, er_identifier = identifier\<rparr>"

definition entity_ref_run :: "string \<Rightarrow> entity_ref" where
  "entity_ref_run i = \<lparr>er_kind = EntRun, er_id = i, er_identifier = None\<rparr>"

definition entity_ref_terminal :: "string \<Rightarrow> entity_ref" where
  "entity_ref_terminal i = \<lparr>er_kind = EntTerminalSession, er_id = i, er_identifier = None\<rparr>"

record event_record =
  ev_event_id :: string
  ev_sequence :: u64
  ev_schema_version :: schema_version
  ev_actor :: event_actor
  ev_correlation_id :: "string option"
  ev_entity_refs :: "entity_ref list"
  ev_happened_at :: date_time
  ev_summary :: string
  ev_kind :: event_kind
  ev_payload :: "json option"
  ev_raw_payload_ref :: "string option"

text \<open>\<open>SchemaVersion::as_str\<close>; the width 1 of the format pads nothing.\<close>

definition schema_version_str :: "schema_version \<Rightarrow> string" where
  "schema_version_str v =
     show_nat (unat (sv_major v)) @ ''.'' @ show_nat (unat (sv_minor v)) @ ''.'' @
     show_nat (unat (sv_patch v))"

record stream_cursor =
  sc_sequence :: u64
  sc_partition :: string
  sc_timestamp_anchor :: "u64 option"

definition stream_cursor_new :: "u64 \<Rightarrow> string \<Rightarrow> stream_cursor" where
  "stream_cursor_new sequence part =
     \<lparr>sc_sequence = sequence, sc_partition = part, sc_timestamp_anchor = None\<rparr>"

definition with_timestamp_anchor :: "u64 \<Rightarrow> stream_cursor \<Rightarrow> stream_cursor" where
  "with_timestamp_anchor anchor c = c\<lparr>sc_timestamp_anchor := Some anchor\<rparr>"

definition next_cursor :: "string \<Rightarrow> event_record \<Rightarrow> stream_cursor" where
  "next_cursor part e = stream_cursor_new (ev_sequence e) part"

definition is_duplicate_of :: "event_record \<Rightarrow> event_record \<Rightarrow> bool" where
  "is_duplicate_of e e' \<longleftrightarrow> ev_event_id e = ev_event_id e'"

definition has_raw_payload :: "event_record \<Rightarrow> bool" where
  "has_raw_payload e \<longleftrightarrow> ev_raw_payload_ref e \<noteq> None"

record page_cursor =
  pc_page_token :: string
  pc_page_size :: u32

definition page_cursor_first :: "u32 \<Rightarrow> page_cursor" where
  "page_cursor_first n = \<lparr>pc_page_token = [], pc_page_size = n\<rparr>"

record gateway_envelope =
  ge_schema_version :: schema_version
  ge_cursor :: stream_cursor
  ge_entity_ref :: entity_ref
  ge_event_kind :: string
  ge_payload :: "json option"
  ge_raw_payload :: "json option"
  ge_emitted_at :: date_time

definition envelope_new ::
  "stream_cursor \<Rightarrow> entity_ref \<Rightarrow> string \<Rightarrow> json \<Rightarrow> date_time \<Rightarrow> gateway_envelope" where
  "envelope_new cursor entity kind payload now =
     \<lparr>ge_schema_version = schema_version_v1, ge_cursor = cursor, ge_entity_ref = entity,
      ge_event_kind = kind, ge_payload = Some payload, ge_raw_payload = Some payload,
      ge_emitted_at = now\<rparr>"

definition envelope_from_raw_payload ::
  "stream_cursor \<Rightarrow> entity_ref \<Rightarrow> string \<Rightarrow> json \<Rightarrow> date_time \<Rightarrow> gateway_envelope" where
  "envelope_from_raw_payload cursor entity kind raw now =
     \<lparr>ge_schema_version = schema_version_v1, ge_cursor = cursor, ge_entity_ref = entity,
      ge_event_kind = kind, ge_payload = None, ge_raw_payload = Some raw, ge_emitted_at = now\<rparr>"

section \<open>The builder\<close>

record event_record_builder =
  bd_event_id :: "string option"
  bd_sequence :: "u64 option"
  bd_schema_version :: "schema_version option"
  bd_actor :: "event_actor option"
  bd_correlation_id :: "string option"
  bd_entity_refs :: "entity_ref list"
  bd_happened_at :: "date_time option"
  bd_summary :: string
  bd_kind :: "event_kind option"
  bd_payload :: "json option"
  bd_raw_payload_ref :: "string option"

definition builder :: event_record_builder where
  "builder =
     \<lparr>bd_event_id = None, bd_sequence = None, bd_schema_version = None, bd_actor = None,
      bd_correlation_id = None, bd_entity_refs = [], bd_happened_at = None, bd_summary = [],
      bd_kind = None, bd_payload = None, bd_raw_payload_ref = None\<rparr>"

definition build :: "string \<Rightarrow> date_time \<Rightarrow> event_record_builder \<Rightarrow> event_record" where
  "build fresh_id now b =
     \<lparr>ev_event_id = unwrap_or (bd_event_id b) fresh_id, ev_sequence = unwrap_or (bd_sequence b) 0,
      ev_schema_version = unwrap_or (bd_schema_version b) schema_version_v1,
      ev_actor = unwrap_or (bd_actor b) (ActorSystem ''system''),
      ev_correlation_id = bd_correlation_id b, ev_entity_refs = bd_entity_refs b,
      ev_happened_at = unwrap_or (bd_happened_at b) now, ev_summary = bd_summary b,
      ev_kind = unwrap_or (bd_kind b) (UnknownKind ''unspecified''), ev_payload = bd_payload b,
      ev_raw_payload_ref = bd_raw_payload_ref b\<rparr>"

definition orchestrator_event ::
  "event_kind \<Rightarrow> string \<Rightarrow> json option \<Rightarrow> string \<Rightarrow> date_time \<Rightarrow> event_record" where
  "orchestrator_event kind summary payload fresh_id now =
     build fresh_id now
       (builder\<lparr>bd_actor := Some (ActorSystem ''orchestrator''), bd_kind := Some kind,
                bd_summary := summary, bd_payload := payload\<rparr>)"

definition gateway_action_event ::
  "event_kind \<Rightarrow> string option \<Rightarrow> string \<Rightarrow> json option \<Rightarrow> string \<Rightarrow> date_time \<Rightarrow> event_record" where
  "gateway_action_event kind correlation summary payload fresh_id now =
     build fresh_id now
       (builder\<lparr>bd_actor := Some (ActorSystem ''gateway''), bd_correlation_id := correlation,
                bd_kind := Some kind, bd_summary := summary, bd_payload := payload\<rparr>)"

definition harness_event ::
  "string \<Rightarrow> event_kind \<Rightarrow> string \<Rightarrow> json option \<Rightarrow> string \<Rightarrow> date_time \<Rightarrow> event_record" where
  "harness_event harness_id kind summary payload fresh_id now =
     build fresh_id now
       (builder\<lparr>bd_actor := Some (ActorHarness harness_id), bd_kind := Some kind,
                bd_summary := summary, bd_payload := payload\<rparr>)"

section \<open>The journal\<close>

record event_page =
  ep_schema_version :: schema_version
  ep_events :: "event_record list"
  ep_next_cursor :: "stream_cursor option"
  ep_has_more :: bool

datatype journal_error =
    Backpressure nat | NotFound string | InvalidCursor string | PartitionNotFound string

datatype journal_health_status = Healthy | NearCapacity | AtCapacity | Backpressured

record journal_health =
  jh_status :: journal_health_status
  jh_capacity :: nat
  jh_used :: nat
  jh_oldest_sequence :: "u64 option"
  jh_newest_sequence :: "u64 option"

record journal_state =
  js_events :: "event_record list"
  js_capacity :: nat
  js_next_sequence :: u64

definition journal_new :: "nat \<Rightarrow> journal_state" where
  "journal_new capacity = \<lparr>js_events = [], js_capacity = capacity, js_next_sequence = 1\<rparr>"

definition deque_front :: "'a list \<Rightarrow> 'a option" where
  "deque_front xs = (case xs of [] \<Rightarrow> None | x # _ \<Rightarrow> Some x)"

definition deque_back :: "'a list \<Rightarrow> 'a option" where
  "deque_back xs = (if xs = [] then None else Some (last xs))"

text \<open>On success the event stored, which is also the one broadcast to the subscribers.\<close>

definition append_event ::
  "event_record \<Rightarrow> journal_state \<Rightarrow> journal_error + (event_record \<times> journal_state)" where
  "append_event event st =
     (let event = event\<lparr>ev_sequence := js_next_sequence st\<rparr>;
          events = (if js_capacity st \<le> length (js_events st)
                    then drop (length (js_events st) - js_capacity st div 2) (js_events st)
                    else js_events st)
      in if js_capacity st \<le> length events then Err (Backpressure (js_capacity st))
         else Ok (event, st\<lparr>js_next_sequence := saturating_add (js_next_sequence st) 1,
                            js_events := events @ [event]\<rparr>))"

definition stale_cursor_reason :: "u64 \<Rightarrow> u64 \<Rightarrow> string" where
  "stale_cursor_reason cursor oldest =
     ''Cursor sequence '' @ show_nat (unat cursor) @ '' is older than oldest available sequence '' @
     show_nat (unat oldest)"

definition query_after ::
  "stream_cursor \<Rightarrow> nat \<Rightarrow> journal_state \<Rightarrow> journal_error + event_page" where
  "query_after cursor limit st =
     (if 0 < sc_sequence cursor \<and>
         is_some_and (\<lambda>e. sc_sequence cursor < ev_sequence e) (deque_front (js_events st))
      then Err (InvalidCursor (stale_cursor_reason (sc_sequence cursor)
             (ev_sequence (hd (js_events st)))))
      else
        let matching = filter (\<lambda>e. sc_sequence cursor < ev_sequence e \<and>
                                   default_partition (ev_kind e) = sc_partition cursor) (js_events st);
            events = take limit matching
        in Ok \<lparr>ep_schema_version = schema_version_v1, ep_events = events,
               ep_next_cursor = map_option (next_cursor (sc_partition cursor)) (deque_back events),
               ep_has_more = (drop limit matching \<noteq> [])\<rparr>)"

definition latest_cursor_for_partition :: "string \<Rightarrow> journal_state \<Rightarrow> stream_cursor" where
  "latest_cursor_for_partition part st =
     stream_cursor_new
       (unwrap_or (map_option ev_sequence
          (deque_back (filter (\<lambda>e. default_partition (ev_kind e) = part) (js_events st)))) 0)
       part"

definition latest_cursor :: "journal_state \<Rightarrow> stream_cursor" where
  "latest_cursor st = latest_cursor_for_partition ''events'' st"

definition oldest_sequence :: "journal_state \<Rightarrow> u64 option" where
  "oldest_sequence st = map_option ev_sequence (deque_front (js_events st))"

definition recent_events :: "nat \<Rightarrow> journal_state \<Rightarrow> event_record list" where
  "recent_events limit st =
     (if limit = 0 \<or> js_events st = [] then []
      else drop (length (js_events st) - limit) (js_events st))"

definition health :: "journal_state \<Rightarrow> journal_health" where
  "health st =
     (let used = length (js_events st);
          status = (if used = 0 then Healthy
                    else if js_capacity st \<le> used then AtCapacity
                    else if js_capacity st * 4 div 5 \<le> used then NearCapacity
                    else Healthy)
      in \<lparr>jh_status = status, jh_capacity = js_capacity st, jh_used = used,
          jh_oldest_sequence = map_option ev_sequence (deque_front (js_events st)),
          jh_newest_sequence = map_option ev_sequence (deque_back (js_events st))\<rparr>)"

section \<open>Streams\<close>

datatype stream_error_type = ErrBackpressure | ErrDisconnected | ErrCursorNotFound | ErrServer

record stream_error =
  se_error_type :: stream_error_type
  se_message :: string
  se_recoverable :: bool

definition stream_error_backpressure :: stream_error where
  "stream_error_backpressure =
     \<lparr>se_error_type = ErrBackpressure, se_message = ''Stream backpressure active; delivery delayed'',
      se_recoverable = True\<rparr>"

definition stream_error_disconnected :: "string \<Rightarrow> stream_error" where
  "stream_error_disconnected reason =
     \<lparr>se_error_type = ErrDisconnected, se_message = reason, se_recoverable = True\<rparr>"

definition stream_error_cursor_not_found :: "u64 \<Rightarrow> stream_error" where
  "stream_error_cursor_not_found seq =
     \<lparr>se_error_type = ErrCursorNotFound,
      se_message = ''Cursor sequence '' @ show_nat (unat seq) @
        '' not found; oldest available events may have been evicted'',
      se_recoverable = True\<rparr>"

definition stream_error_server :: "string \<Rightarrow> stream_error" where
  "stream_error_server message =
     \<lparr>se_error_type = ErrServer, se_message = message, se_recoverable = False\<rparr>"

record stream_connection_state =
  cn_connected :: bool
  cn_backpressure_active :: bool
  cn_last_sequence :: "u64 option"
  cn_error :: "stream_error option"

type_synonym connections = "(string, stream_connection_state) omap"

definition register_connection :: "string \<Rightarrow> connections \<Rightarrow> connections" where
  "register_connection i cs =
     omap_insert i \<lparr>cn_connected = True, cn_backpressure_active = False, cn_last_sequence = None,
                    cn_error = None\<rparr> cs"

definition unregister_connection :: "string \<Rightarrow> connections \<Rightarrow> connections" where
  "unregister_connection i cs = omap_remove i cs"

definition connection_state :: "string \<Rightarrow> connections \<Rightarrow> stream_connection_state option" where
  "connection_state i cs = omap_get cs i"

definition connection_summary :: "connections \<Rightarrow> stream_connection_state list" where
  "connection_summary cs = omap_values cs"

definition active_connection_count :: "connections \<Rightarrow> nat" where
  "active_connection_count cs = length (filter cn_connected (omap_values cs))"

record event_stream =
  es_last_sequence :: u64
  es_partition :: string

definition event_stream_new :: "u64 \<Rightarrow> string \<Rightarrow> event_stream" where
  "event_stream_new last_sequence part =
     \<lparr>es_last_sequence = last_sequence, es_partition = part\<rparr>"

definition create_stream :: "stream_cursor \<Rightarrow> event_stream" where
  "create_stream cursor = event_stream_new (sc_sequence cursor) (sc_partition cursor)"

definition set_last_sequence :: "u64 \<Rightarrow> event_stream \<Rightarrow> event_stream" where
  "set_last_sequence seq s = s\<lparr>es_last_sequence := max seq (es_last_sequence s)\<rparr>"

text \<open>What \<open>inner.recv().await\<close> returns; at the end of the list the receiver still waits.\<close>

datatype channel_item =
    ChannelEvent event_record | ChannelError stream_error | ChannelLagged u64 | ChannelClosed

datatype recv_result =
    RecvEvent event_record | RecvError stream_error | RecvClosed | RecvWaiting

fun stream_recv ::
  "channel_item list \<Rightarrow> event_stream \<Rightarrow> recv_result \<times> channel_item list \<times> event_stream" where
  "stream_recv [] s = (RecvWaiting, [], s)"
| "stream_recv (ChannelEvent e # items) s =
     (if ev_sequence e \<le> es_last_sequence s then stream_recv items s
      else if default_partition (ev_kind e) = es_partition s
      then (RecvEvent e, items, s\<lparr>es_last_sequence := ev_sequence e\<rparr>)
      else stream_recv items s)"
| "stream_recv (ChannelError err # items) s = (RecvError err, items, s)"
| "stream_recv (ChannelLagged _ # items) s = (RecvError stream_error_backpressure, items, s)"
| "stream_recv (ChannelClosed # items) s = (RecvClosed, items, s)"

end
