(* ===== verification/Event_Replay.thy ===== *)
theory Event_Replay
  imports Journal
begin

text \<open>
  Replay of the journal to a WebSocket client: the functions around \<open>event_stream_ws\<close> of
  \<open>opensymphony-gateway/src/lib.rs\<close> over the journal of the theory Journal.

  The socket and the JSON serialisation are outside the repository: \<open>up n\<close> says whether the
  \<open>n\<close>th frame offered to the socket is sent, \<open>ser e\<close> whether the event serialises. Other
  tasks append to the journal between two queries, so a replay is given the list of the
  journal states its queries find; when the list ends the replay is still under way.

  The trait \<open>EventJournalBackend\<close> is the locale \<open>event_journal_backend\<close>; its laws are what the
  replay relies on, and it is interpreted on the in-memory journal.
\<close>

section \<open>Frames\<close>

datatype ws_replay_kind = WsBacklog | WsLagRecovery | WsLive

fun serialize_error_message :: "ws_replay_kind \<Rightarrow> string" where
  "serialize_error_message WsBacklog = ''Failed to serialize backlog event''"
| "serialize_error_message WsLagRecovery = ''Failed to serialize lag recovery event''"
| "serialize_error_message WsLive = ''Failed to serialize live event''"

datatype ws_frame = EventFrame event_record | ErrorFrame stream_error

record wire =
  w_frames :: "ws_frame list"
  w_attempts :: nat

fun stream_error_from_journal_error :: "journal_error \<Rightarrow> u64 \<Rightarrow> stream_error" where
  "stream_error_from_journal_error (InvalidCursor _) seq = stream_error_cursor_not_found seq"
| "stream_error_from_journal_error (PartitionNotFound part) _ =
     stream_error_disconnected (''Partition not found: '' @ part)"
| "stream_error_from_journal_error (Backpressure _) _ = stream_error_backpressure"
| "stream_error_from_journal_error (NotFound event_id) _ =
     stream_error_disconnected (''Event not found: '' @ event_id)"

definition send_ws_frame :: "(nat \<Rightarrow> bool) \<Rightarrow> ws_frame \<Rightarrow> wire \<Rightarrow> bool \<times> wire" where
  "send_ws_frame up f w =
     (let w' = w\<lparr>w_attempts := Suc (w_attempts w)\<rparr>
      in if up (w_attempts w) then (True, w'\<lparr>w_frames := w_frames w @ [f]\<rparr>) else (False, w'))"

definition send_ws_stream_error :: "(nat \<Rightarrow> bool) \<Rightarrow> stream_error \<Rightarrow> wire \<Rightarrow> bool \<times> wire" where
  "send_ws_stream_error up err w = send_ws_frame up (ErrorFrame err) w"

definition send_ws_server_error :: "(nat \<Rightarrow> bool) \<Rightarrow> string \<Rightarrow> wire \<Rightarrow> bool \<times> wire" where
  "send_ws_server_error up message w =
     send_ws_stream_error up (stream_error_server message) w"

definition send_ws_event ::
  "(event_record \<Rightarrow> bool) \<Rightarrow> (nat \<Rightarrow> bool) \<Rightarrow> ws_replay_kind \<Rightarrow> event_record \<Rightarrow> wire \<Rightarrow> bool \<times> wire" where
  "send_ws_event ser up kind e w =
     (if ser e then send_ws_frame up (EventFrame e) w
      else (True, snd (send_ws_server_error up (serialize_error_message kind) w)))"

section \<open>Replay\<close>

definition gateway_event_page_limit :: nat where
  "gateway_event_page_limit = 100"

datatype replay_result = ReplayDone u64 | ReplayFailed | ReplayPending

fun send_page ::
  "(event_record \<Rightarrow> bool) \<Rightarrow> (nat \<Rightarrow> bool) \<Rightarrow> ws_replay_kind \<Rightarrow> event_record list \<Rightarrow> u64 \<Rightarrow> wire
   \<Rightarrow> u64 option \<times> wire" where
  "send_page ser up kind [] seq w = (Some seq, w)"
| "send_page ser up kind (e # es) seq w =
     (case send_ws_event ser up kind e w of
        (False, w') \<Rightarrow> (None, w')
      | (True, w') \<Rightarrow> send_page ser up kind es (max (ev_sequence e) seq) w')"

fun replay_loop ::
  "(stream_cursor \<Rightarrow> nat \<Rightarrow> 's \<Rightarrow> journal_error + event_page) \<Rightarrow> (event_record \<Rightarrow> bool) \<Rightarrow>
   (nat \<Rightarrow> bool) \<Rightarrow> ws_replay_kind \<Rightarrow> 's list \<Rightarrow> stream_cursor \<Rightarrow> u64 \<Rightarrow> wire \<Rightarrow> replay_result \<times> wire" where
  "replay_loop query ser up kind [] cursor seq w = (ReplayPending, w)"
| "replay_loop query ser up kind (s # ss) cursor seq w =
     (case query cursor gateway_event_page_limit s of
        Err je \<Rightarrow>
          (ReplayFailed, snd (send_ws_stream_error up
             (stream_error_from_journal_error je (sc_sequence cursor)) w))
      | Ok page \<Rightarrow>
          (case send_page ser up kind (ep_events page) seq w of
             (None, w') \<Rightarrow> (ReplayFailed, w')
           | (Some seq', w') \<Rightarrow>
               if \<not> ep_has_more page then (ReplayDone seq', w')
               else case ep_next_cursor page of
                      Some next \<Rightarrow> replay_loop query ser up kind ss next seq' w'
                    | None \<Rightarrow> (ReplayDone seq', w')))"

definition replay_ws_events_from_cursor ::
  "(stream_cursor \<Rightarrow> nat \<Rightarrow> 's \<Rightarrow> journal_error + event_page) \<Rightarrow> (event_record \<Rightarrow> bool) \<Rightarrow>
   (nat \<Rightarrow> bool) \<Rightarrow> ws_replay_kind \<Rightarrow> 's list \<Rightarrow> stream_cursor \<Rightarrow> wire \<Rightarrow> replay_result \<times> wire" where
  "replay_ws_events_from_cursor query ser up kind ss cursor w =
     replay_loop query ser up kind ss cursor (sc_sequence cursor) w"

section \<open>Live events\<close>

datatype session_end =
    EndDisconnected | EndUnrecoverable | EndClosed | EndReplayFailed | StillLive | StillReplaying

lemma stream_recv_shorter:
  assumes "stream_recv items s = (r, items', s')" "r \<noteq> RecvWaiting"
  shows "length items' < length items"
  using assms
proof (induction items s rule: stream_recv.induct)
  case (2 e items s)
  then show ?case by (auto split: if_splits intro: less_SucI)
qed auto

text \<open>The recoveries after a lag are given the states their queries find, one list for each.\<close>

function forward_ws_live_events ::
  "(stream_cursor \<Rightarrow> nat \<Rightarrow> 's \<Rightarrow> journal_error + event_page) \<Rightarrow> (event_record \<Rightarrow> bool) \<Rightarrow>
   (nat \<Rightarrow> bool) \<Rightarrow> string \<Rightarrow> 's list list \<Rightarrow> channel_item list \<Rightarrow> event_stream \<Rightarrow> wire \<Rightarrow>
   session_end \<times> wire" where
  "forward_ws_live_events query ser up part recov items s w =
     (case stream_recv items s of
        (RecvWaiting, _, _) \<Rightarrow> (StillLive, w)
      | (RecvClosed, _, _) \<Rightarrow> (EndClosed, w)
      | (RecvEvent e, items', s') \<Rightarrow>
          (case send_ws_event ser up WsLive e w of
             (False, w') \<Rightarrow> (EndDisconnected, w')
           | (True, w') \<Rightarrow> forward_ws_live_events query ser up part recov items' s' w')
      | (RecvError err, items', s') \<Rightarrow>
          (let w' = snd (send_ws_stream_error up err w)
           in if \<not> se_recoverable err then (EndUnrecoverable, w')
              else case recov of
                     [] \<Rightarrow> (StillReplaying, w')
                   | ss # recov' \<Rightarrow>
                       (case replay_ws_events_from_cursor query ser up WsLagRecovery ss
                               (stream_cursor_new (es_last_sequence s') part) w' of
                          (ReplayDone seq, w'') \<Rightarrow>
                            forward_ws_live_events query ser up part recov' items'
                              (set_last_sequence seq s') w''
                        | (ReplayFailed, w'') \<Rightarrow> (EndReplayFailed, w'')
                        | (ReplayPending, w'') \<Rightarrow> (StillReplaying, w''))))"
  by pat_completeness auto
termination
proof (relation "measure (\<lambda>(query, ser, up, part, recov, items, s, w). length items)", goal_cases)
  case 1
  show ?case by simp
next
  case (2 query ser up part recov items s w r p e items' s' b w')
  then show ?case using stream_recv_shorter [of items s r items' s'] by simp
next
  case (3 query ser up part recov items s w r p err items' s')
  then show ?case using stream_recv_shorter [of items s r items' s'] by simp
qed

declare forward_ws_live_events.simps [simp del]

text \<open>\<open>event_stream_ws\<close> once the client's first message has named its cursor. The stream is
  subscribed before the first query, so \<open>items\<close> holds what is appended from then on.\<close>

definition event_stream_ws ::
  "(stream_cursor \<Rightarrow> nat \<Rightarrow> 's \<Rightarrow> journal_error + event_page) \<Rightarrow> (event_record \<Rightarrow> bool) \<Rightarrow>
   (nat \<Rightarrow> bool) \<Rightarrow> stream_cursor \<Rightarrow> 's list \<Rightarrow> 's list list \<Rightarrow> channel_item list \<Rightarrow>
   session_end \<times> wire" where
  "event_stream_ws query ser up cursor ss recov items =
     (case replay_ws_events_from_cursor query ser up WsBacklog ss
             (stream_cursor_new (sc_sequence cursor) (sc_partition cursor))
             \<lparr>w_frames = [], w_attempts = 0\<rparr> of
        (ReplayDone seq, w) \<Rightarrow>
          forward_ws_live_events query ser up (sc_partition cursor) recov items
            (set_last_sequence seq (create_stream cursor)) w
      | (ReplayFailed, w) \<Rightarrow> (EndReplayFailed, w)
      | (ReplayPending, w) \<Rightarrow> (StillReplaying, w))"

section \<open>What the client has seen\<close>

definition matches :: "stream_cursor \<Rightarrow> event_record \<Rightarrow> bool" where
  "matches c e \<longleftrightarrow> sc_sequence c < ev_sequence e \<and> default_partition (ev_kind e) = sc_partition c"

definition seq_sorted :: "event_record list \<Rightarrow> bool" where
  "seq_sorted es \<longleftrightarrow> sorted_wrt (<) (map ev_sequence es)"

definition not_stale :: "stream_cursor \<Rightarrow> event_record list \<Rightarrow> bool" where
  "not_stale c es \<longleftrightarrow> sc_sequence c = 0 \<or> es = [] \<or> ev_sequence (hd es) \<le> sc_sequence c"

fun event_of :: "ws_frame \<Rightarrow> event_record option" where
  "event_of (EventFrame e) = Some e"
| "event_of (ErrorFrame _) = None"

definition wire_events :: "wire \<Rightarrow> event_record list" where
  "wire_events w = List.map_filter event_of (w_frames w)"

lemma seq_sorted_simps [simp]:
  "seq_sorted []"
  "seq_sorted (e # es) \<longleftrightarrow> (\<forall>e' \<in> set es. ev_sequence e < ev_sequence e') \<and> seq_sorted es"
  "seq_sorted (es @ es') \<longleftrightarrow>
     seq_sorted es \<and> seq_sorted es' \<and> (\<forall>e \<in> set es. \<forall>e' \<in> set es'. ev_sequence e < ev_sequence e')"
  by (auto simp: seq_sorted_def sorted_wrt_append)

lemma seq_sorted_filter: "seq_sorted es \<Longrightarrow> seq_sorted (filter p es)"
  by (induction es) auto

lemma seq_sorted_take: "seq_sorted es \<Longrightarrow> seq_sorted (take n es)"
  by (metis append_take_drop_id seq_sorted_simps(3))

lemma seq_sorted_last: "seq_sorted es \<Longrightarrow> e \<in> set es \<Longrightarrow> ev_sequence e \<le> ev_sequence (last es)"
  by (induction es) (auto intro: less_imp_le)

lemma wire_events_simps [simp]:
  "wire_events (w\<lparr>w_attempts := n\<rparr>) = wire_events w"
  "wire_events (w\<lparr>w_frames := fs @ [EventFrame e]\<rparr>) = List.map_filter event_of fs @ [e]"
  "wire_events (w\<lparr>w_frames := fs @ [ErrorFrame err]\<rparr>) = List.map_filter event_of fs"
  "wire_events \<lparr>w_frames = [], w_attempts = n\<rparr> = []"
  by (simp_all add: wire_events_def List.map_filter_def)

lemma wire_events_error [simp]:
  "wire_events (snd (send_ws_stream_error up err w)) = wire_events w"
  "wire_events (snd (send_ws_server_error up msg w)) = wire_events w"
  by (simp_all add: send_ws_server_error_def send_ws_stream_error_def send_ws_frame_def Let_def)
     (simp_all add: wire_events_def)

lemma wire_events_event:
  "wire_events (snd (send_ws_event ser up kind e w)) =
     (if ser e \<and> up (w_attempts w) then wire_events w @ [e] else wire_events w)"
  by (simp add: send_ws_event_def) (simp add: send_ws_frame_def Let_def wire_events_def List.map_filter_def)

lemma send_ws_event_up: "fst (send_ws_event ser (\<lambda>_. True) kind e w)"
  by (simp add: send_ws_event_def send_ws_frame_def)

text \<open>The client has seen events of its cursor in strictly increasing order, up to \<open>m\<close>.\<close>

definition seen_upto :: "stream_cursor \<Rightarrow> u64 \<Rightarrow> wire \<Rightarrow> bool" where
  "seen_upto c m w \<longleftrightarrow> seq_sorted (wire_events w) \<and>
     (\<forall>e \<in> set (wire_events w). matches c e \<and> ev_sequence e \<le> m)"

lemma seen_upto_error [simp]:
  "seen_upto c m (snd (send_ws_stream_error up err w)) \<longleftrightarrow> seen_upto c m w"
  by (simp add: seen_upto_def)

lemma seen_upto_mono: "seen_upto c m w \<Longrightarrow> m \<le> m' \<Longrightarrow> seen_upto c m' w"
  by (auto simp: seen_upto_def)

lemma seen_upto_event:
  assumes "seen_upto c m w" "matches c e" "m < ev_sequence e" "ev_sequence e \<le> m'"
  shows "seen_upto c m' (snd (send_ws_event ser up kind e w))"
  using assms by (auto simp: seen_upto_def wire_events_event)

lemma send_page_seen:
  assumes "send_page ser up kind es m w = (r, w')" "seen_upto c m w" "seq_sorted es"
    and "\<forall>e \<in> set es. matches c e \<and> m < ev_sequence e"
  shows "(case r of None \<Rightarrow> \<exists>m'. seen_upto c m' w'
          | Some m' \<Rightarrow> m' = (if es = [] then m else ev_sequence (last es)) \<and> seen_upto c m' w')"
  using assms
proof (induction ser up kind es m w rule: send_page.induct)
  case (2 ser up kind e es m w)
  obtain b w1 where s: "send_ws_event ser up kind e w = (b, w1)" by (metis surj_pair)
  have seen: "seen_upto c (max (ev_sequence e) m) w1"
    using seen_upto_event [of c m w e "max (ev_sequence e) m" ser up kind] 2 s by simp
  show ?case
  proof (cases b)
    case False
    then show ?thesis using 2 s seen by auto
  next
    case True
    have m: "max (ev_sequence e) m = ev_sequence e" using "2.prems"(4) by (simp add: max_absorb1 less_imp_le)
    have "send_page ser up kind es (max (ev_sequence e) m) w1 = (r, w')"
      using "2.prems"(1) s True by simp
    moreover have "seq_sorted es" "\<forall>e' \<in> set es. matches c e' \<and> max (ev_sequence e) m < ev_sequence e'"
      using "2.prems" m by auto
    ultimately have *: "case r of None \<Rightarrow> \<exists>m'. seen_upto c m' w'
      | Some m' \<Rightarrow> m' = (if es = [] then max (ev_sequence e) m else ev_sequence (last es)) \<and>
          seen_upto c m' w'"
      using "2.IH" [of b w1] s True seen by simp
    show ?thesis using * unfolding m by (cases "es = []") (auto split: option.splits)
  qed
qed auto

lemma stream_recv_event:
  "stream_recv items s = (RecvEvent e, items', s') \<Longrightarrow>
     es_last_sequence s < ev_sequence e \<and> default_partition (ev_kind e) = es_partition s \<and>
     s' = s\<lparr>es_last_sequence := ev_sequence e\<rparr>"
  by (induction items s rule: stream_recv.induct) (auto split: if_splits)

lemma stream_recv_no_event:
  "stream_recv items s = (r, items', s') \<Longrightarrow> (\<And>e. r \<noteq> RecvEvent e) \<Longrightarrow> s' = s"
  by (induction items s rule: stream_recv.induct) (auto split: if_splits)

section \<open>The interface of a journal\<close>

text \<open>\<open>EventJournalBackend\<close> as its readers use it: what a query returns in terms of the events
  the journal retains.\<close>

locale event_journal_backend =
  fixes query :: "stream_cursor \<Rightarrow> nat \<Rightarrow> 's \<Rightarrow> journal_error + event_page"
    and retained :: "'s \<Rightarrow> event_record list"
    and sound :: "'s \<Rightarrow> bool"
  assumes retained_sorted: "sound s \<Longrightarrow> seq_sorted (retained s)"
    and query_stale: "is_ok (query c n s) \<longleftrightarrow> not_stale c (retained s)"
    and query_events: "query c n s = Ok p \<Longrightarrow> ep_events p = take n (filter (matches c) (retained s))"
    and query_more:
      "query c n s = Ok p \<Longrightarrow> ep_has_more p \<longleftrightarrow> n < length (filter (matches c) (retained s))"
    and query_next:
      "query c n s = Ok p \<Longrightarrow>
         ep_next_cursor p = map_option (next_cursor (sc_partition c)) (deque_back (ep_events p))"
begin

lemma query_page_sorted: "sound s \<Longrightarrow> query c n s = Ok p \<Longrightarrow> seq_sorted (ep_events p)"
  by (simp add: query_events retained_sorted seq_sorted_filter seq_sorted_take)

lemma query_page_matches: "query c n s = Ok p \<Longrightarrow> e \<in> set (ep_events p) \<Longrightarrow> matches c e"
  by (auto simp: query_events dest: in_set_takeD)

lemma query_more_next:
  assumes "query c (Suc n) s = Ok p" "ep_has_more p"
  shows "ep_events p \<noteq> []"
    and "ep_next_cursor p = Some (stream_cursor_new (ev_sequence (last (ep_events p))) (sc_partition c))"
proof -
  show "ep_events p \<noteq> []"
    using query_events [OF assms(1)] query_more [OF assms(1)] assms(2) by auto
  then show "ep_next_cursor p = Some (stream_cursor_new (ev_sequence (last (ep_events p))) (sc_partition c))"
    using query_next [OF assms(1)] by (simp add: deque_back_def next_cursor_def)
qed

lemma page_seen:
  assumes "query cur n s = Ok p" "sound s" "send_page ser up kind (ep_events p) m w = (r, w')"
    and "seen_upto c m w" "sc_partition cur = sc_partition c" "sc_sequence cur = m"
    and "sc_sequence c \<le> m"
  shows "(case r of None \<Rightarrow> \<exists>m'. seen_upto c m' w'
          | Some m' \<Rightarrow> m' = (if ep_events p = [] then m else ev_sequence (last (ep_events p))) \<and>
              seen_upto c m' w') \<and>
         (ep_events p \<noteq> [] \<longrightarrow> m \<le> ev_sequence (last (ep_events p)))"
proof -
  have "\<forall>e \<in> set (ep_events p). matches c e \<and> m < ev_sequence e"
    using query_page_matches [OF assms(1)] assms(5-7) by (fastforce simp: matches_def)
  then show ?thesis
    using send_page_seen [OF assms(3) assms(4)] query_page_sorted [OF assms(2) assms(1)]
    by (auto intro!: less_imp_le split: option.splits)
qed

lemma replay_loop_seen:
  assumes "replay_loop query ser up kind ss cur m w = (r, w')" "\<forall>s \<in> set ss. sound s"
    and "seen_upto c m w" "sc_partition cur = sc_partition c" "sc_sequence cur = m"
    and "sc_sequence c \<le> m"
  shows "case r of ReplayDone m' \<Rightarrow> m \<le> m' \<and> seen_upto c m' w' | _ \<Rightarrow> \<exists>m'. seen_upto c m' w'"
  using assms
proof (induction ss arbitrary: cur m w)
  case Nil
  then show ?case by auto
next
  case (Cons s ss)
  show ?case
  proof (cases "query cur gateway_event_page_limit s")
    case (Inl je)
    then show ?thesis using Cons.prems by auto
  next
    case (Inr p)
    obtain r1 w1 where sp: "send_page ser up kind (ep_events p) m w = (r1, w1)" by (metis surj_pair)
    note page = page_seen [OF Inr _ sp, of c]
    show ?thesis
    proof (cases r1)
      case None
      then show ?thesis using Cons.prems Inr sp page by auto
    next
      case (Some m1)
      have m1: "m \<le> m1" "seen_upto c m1 w1"
        "m1 = (if ep_events p = [] then m else ev_sequence (last (ep_events p)))"
        using page Some Cons.prems by auto
      show ?thesis
      proof (cases "ep_has_more p")
        case False
        then show ?thesis using Cons.prems Inr sp Some m1 by auto
      next
        case True
        have q: "query cur (Suc 99) s = Ok p" using Inr by (simp add: gateway_event_page_limit_def)
        have nx: "ep_next_cursor p = Some (stream_cursor_new m1 (sc_partition c))"
          using query_more_next [OF q True] m1(3) Cons.prems by simp
        have "replay_loop query ser up kind ss (stream_cursor_new m1 (sc_partition c)) m1 w1 = (r, w')"
          using Cons.prems(1) Inr sp Some True nx by simp
        then show ?thesis
          using Cons.IH [OF _ _ m1(2)] m1(1) Cons.prems
          by (fastforce simp: stream_cursor_new_def split: replay_result.splits)
      qed
    qed
  qed
qed

lemma replay_seen:
  assumes "replay_ws_events_from_cursor query ser up kind ss (stream_cursor_new m (sc_partition c)) w
             = (r, w')"
    and "\<forall>s \<in> set ss. sound s" "seen_upto c m w" "sc_sequence c \<le> m"
  shows "case r of ReplayDone m' \<Rightarrow> m \<le> m' \<and> seen_upto c m' w' | _ \<Rightarrow> \<exists>m'. seen_upto c m' w'"
  using replay_loop_seen [of ser up kind ss "stream_cursor_new m (sc_partition c)" m w r w' c] assms
  by (simp add: replay_ws_events_from_cursor_def stream_cursor_new_def)

lemma forward_seen:
  assumes "forward_ws_live_events query ser up part recov items s w = (r, w')"
    and "\<forall>ss \<in> set recov. \<forall>st \<in> set ss. sound st" "seen_upto c (es_last_sequence s) w"
    and "es_partition s = sc_partition c" "part = sc_partition c" "sc_sequence c \<le> es_last_sequence s"
  shows "\<exists>m. seen_upto c m w'"
  using assms
proof (induction "length items" arbitrary: recov items s w rule: less_induct)
  case less
  obtain rr items' s' where rv: "stream_recv items s = (rr, items', s')" by (metis surj_pair)
  have shorter: "rr \<noteq> RecvWaiting \<Longrightarrow> length items' < length items"
    using stream_recv_shorter [OF rv] by simp
  note unfolded = less.prems(1) [unfolded forward_ws_live_events.simps [of _ _ _ _ _ items]]
  show ?case
  proof (cases rr)
    case (RecvEvent e)
    note ev = stream_recv_event [OF rv [unfolded RecvEvent]]
    obtain b w1 where se: "send_ws_event ser up WsLive e w = (b, w1)" by (metis surj_pair)
    have "matches c e" using ev less.prems by (auto simp: matches_def)
    then have w1: "seen_upto c (ev_sequence e) w1"
      using seen_upto_event [OF less.prems(3), of e "ev_sequence e" ser up WsLive] ev se by simp
    show ?thesis
    proof (cases b)
      case False
      then show ?thesis using unfolded rv RecvEvent se w1 by auto
    next
      case True
      then have "forward_ws_live_events query ser up part recov items' s' w1 = (r, w')"
        using unfolded rv RecvEvent se by simp
      then show ?thesis
        using less.hyps [of items' recov s' w1] shorter RecvEvent less.prems ev w1 by auto
    qed
  next
    case (RecvError err)
    have s': "s' = s" using stream_recv_no_event [OF rv] RecvError by simp
    define w1 where "w1 = snd (send_ws_stream_error up err w)"
    have w1: "seen_upto c (es_last_sequence s) w1" using less.prems by (simp add: w1_def)
    consider "\<not> se_recoverable err" | "se_recoverable err" "recov = []"
      | ss recov' where "se_recoverable err" "recov = ss # recov'"
      by (cases recov) auto
    then show ?thesis
    proof cases
      case 3
      obtain rp w2 where rp: "replay_ws_events_from_cursor query ser up WsLagRecovery ss
          (stream_cursor_new (es_last_sequence s) (sc_partition c)) w1 = (rp, w2)"
        by (metis surj_pair)
      note seen = replay_seen [OF rp _ w1]
      show ?thesis
      proof (cases rp)
        case (ReplayDone m)
        then have "forward_ws_live_events query ser up part recov' items' (set_last_sequence m s) w2 = (r, w')"
          using unfolded rv RecvError 3 s' rp less.prems by (simp add: Let_def w1_def)
        then show ?thesis
          using less.hyps [of items' recov' "set_last_sequence m s" w2] shorter RecvError less.prems
            seen ReplayDone 3
          by (auto simp: set_last_sequence_def max_absorb1)
      qed (use unfolded rv RecvError 3 s' rp less.prems seen in \<open>auto simp: Let_def w1_def\<close>)
    qed (use unfolded rv RecvError s' less.prems in \<open>auto simp: Let_def\<close>)
  qed (use unfolded rv less.prems in auto)
qed

lemma session_seen:
  assumes "event_stream_ws query ser up c ss recov items = (r, w)" "\<forall>st \<in> set ss. sound st"
    and "\<forall>ss \<in> set recov. \<forall>st \<in> set ss. sound st"
  shows "\<exists>m. seen_upto c m w"
proof -
  define w0 where "w0 = \<lparr>w_frames = [], w_attempts = 0\<rparr>"
  have w0: "seen_upto c (sc_sequence c) w0" by (simp add: seen_upto_def w0_def)
  obtain rp w1 where rp: "replay_ws_events_from_cursor query ser up WsBacklog ss
      (stream_cursor_new (sc_sequence c) (sc_partition c)) w0 = (rp, w1)"
    by (metis surj_pair)
  note seen = replay_seen [OF rp assms(2) w0 order_refl]
  show ?thesis
  proof (cases rp)
    case (ReplayDone m)
    then have "forward_ws_live_events query ser up (sc_partition c) recov items
        (set_last_sequence m (create_stream c)) w1 = (r, w)"
      using assms(1) rp by (simp add: event_stream_ws_def w0_def)
    then show ?thesis
      using forward_seen [of ser up "sc_partition c" recov items _ w1 r w c] seen ReplayDone assms(3)
      by (simp add: set_last_sequence_def create_stream_def event_stream_new_def max_absorb1)
  qed (use assms(1) rp seen in \<open>auto simp: event_stream_ws_def w0_def\<close>)
qed

end

section \<open>Appending while a client reads\<close>

text \<open>Appends a list of events in order: the events as stored and the state after them.\<close>

fun append_all ::
  "(event_record \<Rightarrow> 's \<Rightarrow> journal_error + (event_record \<times> 's)) \<Rightarrow> event_record list \<Rightarrow> 's
   \<Rightarrow> (event_record list \<times> 's) option" where
  "append_all app [] s = Some ([], s)"
| "append_all app (e # es) s =
     (case app e s of
        Err _ \<Rightarrow> None
      | Ok (e', s') \<Rightarrow> map_option (\<lambda>(stored, s''). (e' # stored, s'')) (append_all app es s'))"

text \<open>The states successive queries find when a batch of events is appended before each.\<close>

fun journal_states ::
  "(event_record \<Rightarrow> 's \<Rightarrow> journal_error + (event_record \<times> 's)) \<Rightarrow> event_record list list \<Rightarrow> 's
   \<Rightarrow> (event_record list \<times> 's list) option" where
  "journal_states app [] s = Some ([], [])"
| "journal_states app (b # bs) s =
     (case append_all app b s of
        None \<Rightarrow> None
      | Some (stored, s') \<Rightarrow>
          map_option (\<lambda>(stored', ss). (stored @ stored', s' # ss)) (journal_states app bs s'))"

lemma append_all_append:
  "append_all app (es @ es') s =
     (case append_all app es s of
        None \<Rightarrow> None
      | Some (stored, s') \<Rightarrow> map_option (\<lambda>(st, s''). (stored @ st, s'')) (append_all app es' s'))"
  by (induction app es s rule: append_all.induct)
     (auto split: sum.splits option.splits simp: option.map_comp comp_def case_prod_unfold
       option.map_ident)

lemma journal_states_append_all:
  "journal_states app bs s = Some (stored, ss) \<Longrightarrow>
     append_all app (concat bs) s = Some (stored, last (s # ss))"
  by (induction app bs s arbitrary: stored ss rule: journal_states.induct)
     (auto simp: append_all_append split: option.splits prod.splits)

text \<open>A cursor resumes where a page ended.\<close>

lemma filter_resume:
  assumes "seq_sorted es" "page = take n (filter (matches c) es)" "page \<noteq> []"
    and "c' = stream_cursor_new (ev_sequence (last page)) (sc_partition c)"
  shows "page @ filter (matches c') es = filter (matches c) es"
proof -
  define F where "F = filter (matches c) es"
  have sorted: "seq_sorted (take n F @ drop n F)" using assms(1) by (simp add: F_def seq_sorted_filter)
  have page: "page = take n F" using assms(2) by (simp add: F_def)
  have last: "last page \<in> set page" using assms(3) by simp
  then have "matches c (last page)" using page by (auto simp: F_def dest: in_set_takeD)
  then have "filter (matches c') es = filter (\<lambda>e. ev_sequence (last page) < ev_sequence e) F"
    by (auto simp: F_def assms(4) matches_def stream_cursor_new_def intro!: filter_cong)
  also have "\<dots> = filter (\<lambda>e. ev_sequence (last page) < ev_sequence e) (take n F @ drop n F)" by simp
  also have "\<dots> = drop n F"
  proof -
    have "filter (\<lambda>e. ev_sequence (last page) < ev_sequence e) (take n F) = []"
      using seq_sorted_last [of "take n F"] assms(1) page
      by (simp add: filter_empty_conv not_less seq_sorted_take seq_sorted_filter F_def)
    moreover have "filter (\<lambda>e. ev_sequence (last page) < ev_sequence e) (drop n F) = drop n F"
      using sorted last page by (auto simp: filter_id_conv simp del: append_take_drop_id)
    ultimately show ?thesis by (simp only: filter_append append_Nil)
  qed
  finally show ?thesis by (simp add: page F_def)
qed

lemma stale_free_complete:
  assumes "seq_sorted H" "es = drop k H" "H \<noteq> [] \<longrightarrow> es \<noteq> []" "not_stale c es"
    and "0 < sc_sequence c \<or> es = H"
  shows "filter (matches c) es = filter (matches c) H"
proof (cases "es = H")
  case False
  then have ne: "es \<noteq> []" using assms by auto
  then have hd: "ev_sequence (hd es) \<le> sc_sequence c" using assms(4,5) False by (auto simp: not_stale_def)
  have "seq_sorted (take k H @ es)" using assms(1,2) by simp
  then have "\<forall>e \<in> set (take k H). ev_sequence e < ev_sequence (hd es)" using ne by simp
  then have "filter (matches c) (take k H) = []"
    using hd by (auto simp: filter_empty_conv matches_def)
  then have "filter (matches c) (take k H @ es) = filter (matches c) es" by simp
  then show ?thesis using assms(2) by simp
qed simp

lemma stream_recv_events:
  "stream_recv (map ChannelEvent es) s =
     (case dropWhile (\<lambda>e. \<not> (es_last_sequence s < ev_sequence e \<and>
                              default_partition (ev_kind e) = es_partition s)) es of
        [] \<Rightarrow> (RecvWaiting, [], s)
      | e # es' \<Rightarrow> (RecvEvent e, map ChannelEvent es', s\<lparr>es_last_sequence := ev_sequence e\<rparr>))"
  by (induction es) auto

lemma forward_events:
  assumes "seq_sorted es"
  shows "\<exists>w'. forward_ws_live_events query (\<lambda>_. True) (\<lambda>_. True) part recov (map ChannelEvent es) s w
            = (StillLive, w') \<and>
          wire_events w' = wire_events w @ filter (\<lambda>e. es_last_sequence s < ev_sequence e \<and>
                              default_partition (ev_kind e) = es_partition s) es"
  using assms
proof (induction "length es" arbitrary: es s w rule: less_induct)
  case less
  define P where "P = (\<lambda>e :: event_record. es_last_sequence s < ev_sequence e \<and>
                            default_partition (ev_kind e) = es_partition s)"
  have recv: "stream_recv (map ChannelEvent es) s =
     (case dropWhile (\<lambda>e. \<not> P e) es of
        [] \<Rightarrow> (RecvWaiting, [], s)
      | e # es' \<Rightarrow> (RecvEvent e, map ChannelEvent es', s\<lparr>es_last_sequence := ev_sequence e\<rparr>))"
    unfolding P_def by (rule stream_recv_events)
  show ?case
  proof (cases "dropWhile (\<lambda>e. \<not> P e) es")
    case Nil
    then have "filter P es = []" by (simp add: dropWhile_eq_Nil_conv filter_empty_conv)
    moreover have "stream_recv (map ChannelEvent es) s = (RecvWaiting, [], s)"
      using recv unfolding Nil by simp
    ultimately show ?thesis
      unfolding P_def [symmetric] by (subst forward_ws_live_events.simps) simp
  next
    case (Cons e es')
    define w1 where "w1 = snd (send_ws_event (\<lambda>_. True) (\<lambda>_. True) WsLive e w)"
    have se: "send_ws_event (\<lambda>_. True) (\<lambda>_. True) WsLive e w = (True, w1)"
      using send_ws_event_up [of "\<lambda>_. True" WsLive e w] by (simp add: w1_def prod_eq_iff)
    have split: "es = takeWhile (\<lambda>e. \<not> P e) es @ e # es'"
      using takeWhile_dropWhile_id [of "\<lambda>e. \<not> P e" es] Cons by simp
    have Pe: "P e" using hd_dropWhile [of "\<lambda>e. \<not> P e" es] Cons by simp
    have sorted: "seq_sorted (takeWhile (\<lambda>e. \<not> P e) es @ e # es')"
      using less.prems split by simp
    have "filter P es = filter P (takeWhile (\<lambda>e. \<not> P e) es @ e # es')" using split by simp
    also have "\<dots> = e # filter P es'"
      using Pe by (simp add: filter_empty_conv) (auto dest: set_takeWhileD)
    also have "filter P es' = filter (\<lambda>e'. ev_sequence e < ev_sequence e' \<and>
        default_partition (ev_kind e') = es_partition s) es'"
      using sorted Pe by (intro filter_cong) (auto simp: P_def)
    finally have flt: "filter P es = e # \<dots>" .
    have "length es' < length es" by (subst split) simp
    from less.hyps [OF this, of "s\<lparr>es_last_sequence := ev_sequence e\<rparr>" w1] sorted
    obtain w' where "forward_ws_live_events query (\<lambda>_. True) (\<lambda>_. True) part recov (map ChannelEvent es')
        (s\<lparr>es_last_sequence := ev_sequence e\<rparr>) w1 = (StillLive, w')"
      and "wire_events w' = wire_events w1 @ filter (\<lambda>e'. ev_sequence e < ev_sequence e' \<and>
        default_partition (ev_kind e') = es_partition s) es'"
      by auto
    moreover have "wire_events w1 = wire_events w @ [e]" by (simp add: w1_def wire_events_event)
    moreover have "stream_recv (map ChannelEvent es) s =
        (RecvEvent e, map ChannelEvent es', s\<lparr>es_last_sequence := ev_sequence e\<rparr>)"
      using recv unfolding Cons by simp
    ultimately show ?thesis
      unfolding P_def [symmetric] flt by (subst forward_ws_live_events.simps) (simp add: se)
  qed
qed

text \<open>The writer's half of the interface: what an append does to the retained events, as long as
  sequence numbers are left (\<open>room\<close>).\<close>

locale event_journal = event_journal_backend query retained sound
  for query :: "stream_cursor \<Rightarrow> nat \<Rightarrow> 's \<Rightarrow> journal_error + event_page"
    and retained :: "'s \<Rightarrow> event_record list"
    and sound :: "'s \<Rightarrow> bool" +
  fixes app :: "event_record \<Rightarrow> 's \<Rightarrow> journal_error + (event_record \<times> 's)"
    and room :: "'s \<Rightarrow> nat"
    and issued :: "'s \<Rightarrow> u64"
  assumes retained_issued: "sound s \<Longrightarrow> e \<in> set (retained s) \<Longrightarrow> ev_sequence e \<le> issued s"
    and app_sound: "sound s \<Longrightarrow> 0 < room s \<Longrightarrow> app e s = Ok (e', s') \<Longrightarrow> sound s'"
    and app_room: "sound s \<Longrightarrow> 0 < room s \<Longrightarrow> app e s = Ok (e', s') \<Longrightarrow> room s' = room s - 1"
    and app_issued: "sound s \<Longrightarrow> 0 < room s \<Longrightarrow> app e s = Ok (e', s') \<Longrightarrow>
      issued s < ev_sequence e' \<and> issued s' = ev_sequence e'"
    and app_retained: "sound s \<Longrightarrow> 0 < room s \<Longrightarrow> app e s = Ok (e', s') \<Longrightarrow>
      \<exists>k. retained s' = drop k (retained s) @ [e']"
begin

text \<open>\<open>H\<close> is the history of a journal: what it retains is the newest part of it.\<close>

definition history :: "'s \<Rightarrow> event_record list \<Rightarrow> bool" where
  "history s H \<longleftrightarrow> sound s \<and> seq_sorted H \<and> (\<forall>e \<in> set H. ev_sequence e \<le> issued s) \<and>
     (\<exists>k. retained s = drop k H) \<and> (H \<noteq> [] \<longrightarrow> retained s \<noteq> [])"

lemma history_append:
  assumes "history s H" "0 < room s" "app e s = Ok (e', s')"
  shows "history s' (H @ [e'])"
proof -
  have s: "sound s" using assms(1) by (simp add: history_def)
  obtain j where j: "retained s = drop j H" using assms(1) by (auto simp: history_def)
  obtain k where k: "retained s' = drop k (retained s) @ [e']"
    using app_retained [OF s assms(2,3)] by blast
  have "retained s' = drop (min (j + k) (length H)) (H @ [e'])"
    using j k by (simp add: min_def add.commute)
  then have "\<exists>k. retained s' = drop k (H @ [e'])" by blast
  moreover have "\<forall>e \<in> set H. ev_sequence e < ev_sequence e'" "issued s' = ev_sequence e'"
    using assms(1) app_issued [OF s assms(2,3)] by (auto simp: history_def)
  ultimately show ?thesis
    using assms(1) app_sound [OF s assms(2,3)] k by (simp add: history_def less_imp_le)
qed

lemma history_append_all:
  assumes "append_all app es s = Some (stored, s')" "history s H" "length es \<le> room s"
  shows "history s' (H @ stored) \<and> room s' = room s - length es \<and>
         (\<forall>e \<in> set stored. issued s < ev_sequence e) \<and> issued s \<le> issued s'"
  using assms
proof (induction es arbitrary: s H stored)
  case (Cons e es)
  obtain e1 s1 st where a: "app e s = Ok (e1, s1)" "append_all app es s1 = Some (st, s')"
    and st: "stored = e1 # st"
    using Cons.prems(1) by (auto split: sum.splits)
  have sound: "sound s" and pos: "0 < room s" using Cons.prems by (auto simp: history_def)
  have "history s1 (H @ [e1])" by (rule history_append [OF Cons.prems(2) pos a(1)])
  then show ?case
    using Cons.IH [OF a(2), of "H @ [e1]"] Cons.prems(3) st app_room [OF sound pos a(1)]
      app_issued [OF sound pos a(1)]
    by fastforce
qed auto

lemma history_complete:
  assumes "history s H" "is_ok (query c n s)" "0 < sc_sequence c \<or> retained s = H"
  shows "filter (matches c) (retained s) = filter (matches c) H"
  using assms stale_free_complete [of H "retained s" _ c] query_stale [of c n s]
  by (auto simp: history_def)

lemma send_page_all:
  assumes "seq_sorted es" "\<forall>e \<in> set es. m < ev_sequence e"
  shows "\<exists>w'. send_page (\<lambda>_. True) (\<lambda>_. True) kind es m w
            = (Some (if es = [] then m else ev_sequence (last es)), w') \<and>
          wire_events w' = wire_events w @ es"
  using assms
proof (induction es arbitrary: m w)
  case (Cons e es)
  define w1 where "w1 = snd (send_ws_event (\<lambda>_. True) (\<lambda>_. True) kind e w)"
  have se: "send_ws_event (\<lambda>_. True) (\<lambda>_. True) kind e w = (True, w1)"
    using send_ws_event_up [of "\<lambda>_. True" kind e w] by (simp add: w1_def prod_eq_iff)
  have we: "wire_events w1 = wire_events w @ [e]" by (simp add: w1_def wire_events_event)
  have m: "max (ev_sequence e) m = ev_sequence e"
    using Cons.prems(2) by (simp add: max_absorb1 less_imp_le)
  obtain w' where "send_page (\<lambda>_. True) (\<lambda>_. True) kind es (ev_sequence e) w1
      = (Some (if es = [] then ev_sequence e else ev_sequence (last es)), w')"
    and "wire_events w' = wire_events w1 @ es"
    using Cons.IH [of "ev_sequence e" w1] Cons.prems(1) by auto
  then show ?case by (auto simp: se m we)
qed simp

lemma page_all:
  assumes "query c n s = Ok p" "history s H" "0 < sc_sequence c \<or> retained s = H"
  shows "ep_events p = take n (filter (matches c) H)"
    and "ep_has_more p \<longleftrightarrow> n < length (filter (matches c) H)"
    and "\<exists>w'. send_page (\<lambda>_. True) (\<lambda>_. True) kind (ep_events p) (sc_sequence c) w
            = (Some (if ep_events p = [] then sc_sequence c else ev_sequence (last (ep_events p))), w') \<and>
          wire_events w' = wire_events w @ ep_events p"
proof -
  have F: "filter (matches c) (retained s) = filter (matches c) H"
    using history_complete [OF assms(2) _ assms(3), of n] assms(1) by simp
  show ev: "ep_events p = take n (filter (matches c) H)" using query_events [OF assms(1)] F by simp
  show "ep_has_more p \<longleftrightarrow> n < length (filter (matches c) H)" using query_more [OF assms(1)] F by simp
  have "seq_sorted (ep_events p)" using assms(2) by (simp add: ev history_def seq_sorted_filter seq_sorted_take)
  moreover have "\<forall>e \<in> set (ep_events p). sc_sequence c < ev_sequence e"
    by (auto simp: ev matches_def dest: in_set_takeD)
  ultimately show "\<exists>w'. send_page (\<lambda>_. True) (\<lambda>_. True) kind (ep_events p) (sc_sequence c) w
            = (Some (if ep_events p = [] then sc_sequence c else ev_sequence (last (ep_events p))), w') \<and>
          wire_events w' = wire_events w @ ep_events p"
    by (rule send_page_all)
qed

text \<open>What a finished replay has sent, for a cursor that names the last event the client has.\<close>

definition replayed :: "stream_cursor \<Rightarrow> event_record list \<Rightarrow> event_record list \<Rightarrow> u64 \<Rightarrow> wire \<Rightarrow> wire \<Rightarrow> bool" where
  "replayed c H stored m w w' \<longleftrightarrow> (\<exists>pre suf. stored = pre @ suf \<and>
     wire_events w' = wire_events w @ filter (matches c) (H @ pre) \<and> sc_sequence c \<le> m \<and>
     (\<forall>e \<in> set (H @ pre). matches c e \<longrightarrow> ev_sequence e \<le> m) \<and>
     (m = sc_sequence c \<or> m \<in> ev_sequence ` set (H @ pre)))"

lemma replayed_done:
  assumes "query c gateway_event_page_limit s = Ok p" "history s H" "0 < sc_sequence c \<or> retained s = H"
    and "send_page (\<lambda>_. True) (\<lambda>_. True) kind (ep_events p) (sc_sequence c) w = (Some m, w')"
    and "\<not> ep_has_more p"
  shows "replayed c H stored m w w'"
proof -
  note page = page_all [OF assms(1-3)]
  have ev: "ep_events p = filter (matches c) H" using page(1,2) assms(5) by simp
  have m: "m = (if ep_events p = [] then sc_sequence c else ev_sequence (last (ep_events p)))"
    and w': "wire_events w' = wire_events w @ ep_events p"
    using page(3) [of kind w] assms(4) by auto
  have sorted: "seq_sorted (ep_events p)" using assms(2) by (simp add: ev history_def seq_sorted_filter)
  have upto: "\<forall>e \<in> set (ep_events p). ev_sequence e \<le> m"
    using seq_sorted_last [OF sorted] m by auto
  have last: "ep_events p \<noteq> [] \<Longrightarrow> last (ep_events p) \<in> set H \<and> matches c (last (ep_events p))"
    using last_in_set [of "ep_events p"] by (auto simp: ev)
  have "sc_sequence c \<le> m" using last m by (auto simp: matches_def)
  moreover have "m = sc_sequence c \<or> m \<in> ev_sequence ` set H" using last m by auto
  ultimately show ?thesis
    unfolding replayed_def using upto w' ev by (intro exI [of _ "[]"] exI [of _ stored]) auto
qed

lemma replay_loop_complete:
  assumes "replay_loop query (\<lambda>_. True) (\<lambda>_. True) kind (s # ss) c (sc_sequence c) w = (ReplayDone m, w')"
    and "journal_states app bs s = Some (stored, ss)" "history s H" "length (concat bs) \<le> room s"
    and "0 < sc_sequence c \<or> retained s = H"
  shows "replayed c H stored m w w'"
  using assms
proof (induction bs arbitrary: s ss stored c w H)
  case Nil
  obtain p where q: "query c gateway_event_page_limit s = Ok p"
    using Nil.prems(1) by (auto split: sum.splits)
  obtain m1 w1 where sp:
    "send_page (\<lambda>_. True) (\<lambda>_. True) kind (ep_events p) (sc_sequence c) w = (Some m1, w1)"
    using page_all(3) [OF q Nil.prems(3,5), of kind w] by blast
  have "\<not> ep_has_more p \<and> m1 = m \<and> w1 = w'"
    using Nil.prems(1,2) q sp query_more_next(2) [of c 99 s p]
    by (auto simp: gateway_event_page_limit_def split: if_splits option.splits)
  then show ?case
    using replayed_done [OF q Nil.prems(3,5), of kind w m w' stored] sp by simp
next
  case (Cons b bs)
  obtain p where q: "query c gateway_event_page_limit s = Ok p"
    using Cons.prems(1) by (auto split: sum.splits)
  note page = page_all [OF q Cons.prems(3,5)]
  obtain m1 w1 where sp:
    "send_page (\<lambda>_. True) (\<lambda>_. True) kind (ep_events p) (sc_sequence c) w = (Some m1, w1)"
    and m1: "m1 = (if ep_events p = [] then sc_sequence c else ev_sequence (last (ep_events p)))"
    and w1: "wire_events w1 = wire_events w @ ep_events p"
    using page(3) [of kind w] by blast
  obtain st s1 st' ss' where js: "append_all app b s = Some (st, s1)"
      "journal_states app bs s1 = Some (st', ss')" and eqs: "stored = st @ st'" "ss = s1 # ss'"
    using Cons.prems(2) by (auto split: option.splits)
  have lb: "length b \<le> room s" using Cons.prems(4) by simp
  note h1 = history_append_all [OF js(1) Cons.prems(3) lb]
  have all: "append_all app (concat (b # bs)) s = Some (stored, last (s # ss))"
    by (rule journal_states_append_all [OF Cons.prems(2)])
  note hall = history_append_all [OF all Cons.prems(3,4)]
  show ?case
  proof (cases "ep_has_more p")
    case False
    then have "m1 = m \<and> w1 = w'" using Cons.prems(1) q sp by simp
    then show ?thesis
      using replayed_done [OF q Cons.prems(3,5), of kind w m w' stored] sp False by simp
  next
    case True
    define c1 where "c1 = stream_cursor_new m1 (sc_partition c)"
    have q': "query c (Suc 99) s = Ok p" using q by (simp add: gateway_event_page_limit_def)
    note nx = query_more_next [OF q' True]
    have m1': "m1 = ev_sequence (last (ep_events p))" using m1 nx(1) by simp
    have seq: "sc_sequence c1 = m1" by (simp add: c1_def stream_cursor_new_def)
    have "replay_loop query (\<lambda>_. True) (\<lambda>_. True) kind (s1 # ss') c1 (sc_sequence c1) w1 = (ReplayDone m, w')"
      using Cons.prems(1) q sp True nx(2) eqs by (simp add: c1_def seq m1' stream_cursor_new_def)
    moreover have "matches c (last (ep_events p))"
      using nx(1) query_page_matches [OF q] by simp
    then have gt: "sc_sequence c < m1" by (simp add: m1' matches_def)
    then have "0 < sc_sequence c1" unfolding seq by (metis word_gt_0_no word_not_simps(1) word_neq_0_conv)
    ultimately have rest: "replayed c1 (H @ st) st' m w1 w'"
      using Cons.IH [of s1 ss' c1 w1 st' "H @ st"] js(2) h1 Cons.prems(4) by auto
    then obtain pre suf where ps: "st' = pre @ suf"
      "wire_events w' = wire_events w1 @ filter (matches c1) (H @ st @ pre)"
      "m1 \<le> m" "\<forall>e \<in> set (H @ st @ pre). matches c1 e \<longrightarrow> ev_sequence e \<le> m"
      "m = m1 \<or> m \<in> ev_sequence ` set (H @ st @ pre)"
      by (auto simp: replayed_def seq)
    have sorted: "seq_sorted (H @ st @ pre @ suf)" using hall eqs ps(1) by (simp add: history_def)
    have len: "gateway_event_page_limit < length (filter (matches c) H)" using page(2) True by simp
    then have ev: "ep_events p = take gateway_event_page_limit (filter (matches c) (H @ st @ pre))"
      using page(1) by simp
    have "seq_sorted (H @ st @ pre)" using sorted by auto
    then have "ep_events p @ filter (matches c1) (H @ st @ pre) = filter (matches c) (H @ st @ pre)"
      by (rule filter_resume [OF _ ev nx(1)]) (simp only: c1_def m1')
    then have we: "wire_events w' = wire_events w @ filter (matches c) (H @ st @ pre)"
      using ps(2) w1 by simp
    have c1: "matches c1 e \<longleftrightarrow> matches c e \<and> m1 < ev_sequence e" for e
      using gt by (auto simp: c1_def matches_def stream_cursor_new_def)
    have "\<forall>e \<in> set (H @ st @ pre). matches c e \<longrightarrow> ev_sequence e \<le> m"
      using ps(3,4) c1 by (metis order.trans linorder_not_less)
    moreover have "last (ep_events p) \<in> set (filter (matches c) H)"
      using last_in_set [OF nx(1)] page(1) by (metis in_set_takeD)
    then have "m \<in> ev_sequence ` set (H @ st @ pre)" using ps(5) by (auto simp: m1')
    ultimately show ?thesis
      unfolding replayed_def using we eqs ps(1,3) gt
      by (intro exI [of _ "st @ pre"] exI [of _ suf]) auto
  qed
qed

text \<open>A replay that no writer disturbs needs a query for every full page and one more.\<close>

lemma replay_loop_finishes:
  assumes "sound s" "not_stale c (retained s)" "gateway_event_page_limit * n \<ge> length (filter (matches c) (retained s))"
    and "0 < n"
  shows "\<exists>m' w'. replay_loop query (\<lambda>_. True) (\<lambda>_. True) kind (replicate n s) c (sc_sequence c) w
                    = (ReplayDone m', w') \<and>
                  wire_events w' = wire_events w @ filter (matches c) (retained s)"
  using assms
proof (induction n arbitrary: c w)
  case (Suc n)
  let ?L = gateway_event_page_limit
  obtain p where q: "query c ?L s = Ok p"
    using query_stale [of c ?L s] Suc.prems(2) by (cases "query c ?L s") auto
  have "\<forall>e \<in> set (ep_events p). sc_sequence c < ev_sequence e"
    using query_page_matches [OF q] by (auto simp: matches_def)
  from send_page_all [OF query_page_sorted [OF Suc.prems(1) q] this, of kind w]
  obtain w1 where sp: "send_page (\<lambda>_. True) (\<lambda>_. True) kind (ep_events p) (sc_sequence c) w =
      (Some (if ep_events p = [] then sc_sequence c else ev_sequence (last (ep_events p))), w1)"
    and w1: "wire_events w1 = wire_events w @ ep_events p"
    by blast
  have ev: "ep_events p = take ?L (filter (matches c) (retained s))" by (rule query_events [OF q])
  show ?case
  proof (cases "ep_has_more p")
    case False
    then show ?thesis using q sp w1 ev query_more [OF q] by simp
  next
    case True
    have q': "query c (Suc 99) s = Ok p" using q by (simp add: gateway_event_page_limit_def)
    note nx = query_more_next [OF q' True]
    define c1 where "c1 = stream_cursor_new (ev_sequence (last (ep_events p))) (sc_partition c)"
    have len: "?L < length (filter (matches c) (retained s))" using query_more [OF q] True by simp
    have all: "ep_events p @ filter (matches c1) (retained s) = filter (matches c) (retained s)"
      by (rule filter_resume [OF retained_sorted [OF Suc.prems(1)] ev nx(1) c1_def])
    have "length (filter (matches c1) (retained s)) + ?L = length (filter (matches c) (retained s))"
      using all ev len by (metis add.commute length_append length_take less_imp_le min.absorb2)
    then have fits: "length (filter (matches c1) (retained s)) \<le> ?L * n" "0 < n"
      using Suc.prems(3) len by (cases n, auto)+
    have "last (ep_events p) \<in> set (retained s)"
      using last_in_set [OF nx(1)] unfolding ev by (auto dest: in_set_takeD)
    then obtain x xs where "retained s = x # xs" "ev_sequence x \<le> ev_sequence (last (ep_events p))"
      using retained_sorted [OF Suc.prems(1)] by (cases "retained s") (auto intro: less_imp_le)
    then have "not_stale c1 (retained s)" by (simp add: not_stale_def c1_def stream_cursor_new_def)
    from Suc.IH [OF Suc.prems(1) this fits, of w1]
    obtain m' w' where "replay_loop query (\<lambda>_. True) (\<lambda>_. True) kind (replicate n s) c1
        (sc_sequence c1) w1 = (ReplayDone m', w')"
      "wire_events w' = wire_events w1 @ filter (matches c1) (retained s)"
      by blast
    then show ?thesis using q sp True nx w1 all by (simp add: c1_def stream_cursor_new_def)
  qed
qed simp

text \<open>Subscribing first, then replaying, then forwarding what the channel holds misses nothing and
  repeats nothing, whatever is appended in between.\<close>

lemma session_complete:
  assumes "event_stream_ws query (\<lambda>_. True) (\<lambda>_. True) c ss recov (map ChannelEvent (stored @ later)) = (r, w)"
    and "journal_states app bs s = Some (stored, ss)" "append_all app es (last ss) = Some (later, s')"
    and "history s H" "length (concat bs @ es) \<le> room s" "0 < sc_sequence c"
    and "r \<notin> {StillReplaying, EndReplayFailed}"
  shows "r = StillLive \<and> wire_events w = filter (matches c) (H @ stored @ later)"
proof -
  define w0 where "w0 = \<lparr>w_frames = [], w_attempts = 0\<rparr>"
  define c0 where "c0 = stream_cursor_new (sc_sequence c) (sc_partition c)"
  have c0: "sc_sequence c0 = sc_sequence c" "matches c0 = matches c"
    by (auto simp: c0_def stream_cursor_new_def matches_def)
  obtain m w1 where rp: "replay_ws_events_from_cursor query (\<lambda>_. True) (\<lambda>_. True) WsBacklog ss c0 w0
      = (ReplayDone m, w1)"
    using assms(1,7) by (auto simp: event_stream_ws_def w0_def c0_def split: prod.splits replay_result.splits)
  then obtain s0 ss' where ss: "ss = s0 # ss'"
    by (cases ss) (auto simp: replay_ws_events_from_cursor_def)
  obtain b bs' st st' where js: "bs = b # bs'" "append_all app b s = Some (st, s0)"
      "journal_states app bs' s0 = Some (st', ss')" "stored = st @ st'"
    using assms(2) ss by (cases bs) (auto split: option.splits)
  have h0: "history s0 (H @ st)" "length (concat bs') \<le> room s0"
    using history_append_all [OF js(2) assms(4)] assms(5) js(1) by auto
  have "replay_loop query (\<lambda>_. True) (\<lambda>_. True) WsBacklog (s0 # ss') c0 (sc_sequence c0) w0 = (ReplayDone m, w1)"
    using rp ss by (simp add: replay_ws_events_from_cursor_def)
  then have "replayed c0 (H @ st) st' m w0 w1"
    by (rule replay_loop_complete [OF _ js(3) h0]) (use assms(6) c0(1) in simp)
  then obtain pre suf where ps: "st' = pre @ suf"
      "wire_events w1 = filter (matches c) (H @ st @ pre)" "sc_sequence c \<le> m"
      "\<forall>e \<in> set (H @ st @ pre). matches c e \<longrightarrow> ev_sequence e \<le> m"
      "m = sc_sequence c \<or> m \<in> ev_sequence ` set (H @ st @ pre)"
    by (auto simp: replayed_def c0 w0_def)
  have "append_all app (concat bs @ es) s = Some (stored @ later, s')"
    using journal_states_append_all [OF assms(2)] assms(3) ss by (simp add: append_all_append)
  from history_append_all [OF this assms(4)] assms(5)
  have sorted: "seq_sorted (H @ st @ pre @ suf @ later)"
    by (simp add: history_def js(4) ps(1))
  define strm where "strm = set_last_sequence m (create_stream c)"
  have strm: "es_last_sequence strm = m" "es_partition strm = sc_partition c"
    using ps(3) by (simp_all add: strm_def set_last_sequence_def create_stream_def event_stream_new_def max_absorb1)
  have "seq_sorted (stored @ later)" using sorted by (auto simp: js(4) ps(1))
  from forward_events [OF this, of query "sc_partition c" recov strm w1]
  obtain w' where fw: "forward_ws_live_events query (\<lambda>_. True) (\<lambda>_. True) (sc_partition c) recov
        (map ChannelEvent (stored @ later)) strm w1 = (StillLive, w')"
      "wire_events w' = wire_events w1 @ filter (\<lambda>e. m < ev_sequence e \<and>
        default_partition (ev_kind e) = sc_partition c) (stored @ later)"
    by (auto simp: strm)
  have "(r, w) = (StillLive, w')"
    using assms(1) rp fw(1) by (simp add: event_stream_ws_def w0_def c0_def strm_def)
  moreover have "filter (\<lambda>e. m < ev_sequence e \<and> default_partition (ev_kind e) = sc_partition c) (st @ pre) = []"
    using le_less_trans [OF ps(3)] ps(4) by (fastforce simp: filter_empty_conv matches_def not_less [symmetric])
  moreover have "filter (\<lambda>e. m < ev_sequence e \<and> default_partition (ev_kind e) = sc_partition c) (suf @ later)
      = filter (matches c) (suf @ later)"
  proof (rule filter_cong)
    fix e assume "e \<in> set (suf @ later)"
    then have "m = sc_sequence c \<or> m < ev_sequence e" using sorted ps(5) by auto
    then show "(m < ev_sequence e \<and> default_partition (ev_kind e) = sc_partition c) = matches c e"
      using ps(3) by (auto simp: matches_def)
  qed simp
  ultimately show ?thesis using fw(2) ps(1,2) js(4) by simp
qed

end

section \<open>The in-memory journal implements the interface\<close>

definition journal_inv :: "journal_state \<Rightarrow> bool" where
  "journal_inv st \<longleftrightarrow> length (js_events st) < unat (js_next_sequence st) \<and>
     map (unat \<circ> ev_sequence) (js_events st) =
       [unat (js_next_sequence st) - length (js_events st)..<unat (js_next_sequence st)]"

definition journal_room :: "journal_state \<Rightarrow> nat" where
  "journal_room st = 2 ^ 64 - 1 - unat (js_next_sequence st)"

definition journal_issued :: "journal_state \<Rightarrow> u64" where
  "journal_issued st = js_next_sequence st - 1"

lemma seq_sorted_unat: "map (unat \<circ> ev_sequence) es = [a..<b] \<Longrightarrow> seq_sorted es"
proof -
  assume "map (unat \<circ> ev_sequence) es = [a..<b]"
  then have "sorted_wrt (<) (map (unat \<circ> ev_sequence) es)" by simp
  then show ?thesis by (simp add: seq_sorted_def sorted_wrt_map word_less_nat_alt)
qed

lemma seq_upt_less:
  "map (unat \<circ> ev_sequence) es = [a..<b] \<Longrightarrow> e \<in> set es \<Longrightarrow> unat (ev_sequence e) < b"
  by (metis atLeastLessThan_iff comp_apply image_eqI list.set_map set_upt)

lemma journal_issued_unat:
  "journal_inv st \<Longrightarrow> unat (journal_issued st) = unat (js_next_sequence st) - 1"
  by (cases "js_next_sequence st = 0") (auto simp: journal_inv_def journal_issued_def unat_minus_one)

lemma journal_next_unat:
  "0 < journal_room st \<Longrightarrow> unat (saturating_add (js_next_sequence st) 1) = Suc (unat (js_next_sequence st))"
  by (simp add: journal_room_def unat_saturating_add)

definition evicted :: "journal_state \<Rightarrow> nat" where
  "evicted st = (if js_capacity st \<le> length (js_events st)
                 then length (js_events st) - js_capacity st div 2 else 0)"

lemma append_event_eq:
  "append_event e st =
     (if js_capacity st = 0 then Err (Backpressure 0)
      else Ok (e\<lparr>ev_sequence := js_next_sequence st\<rparr>,
               st\<lparr>js_next_sequence := saturating_add (js_next_sequence st) 1,
                  js_events := drop (evicted st) (js_events st) @ [e\<lparr>ev_sequence := js_next_sequence st\<rparr>]\<rparr>))"
proof (cases "js_capacity st \<le> length (js_events st)")
  case True
  have "js_capacity st \<le> js_capacity st div 2 \<longleftrightarrow> js_capacity st = 0" by linarith
  moreover have "length (js_events st) - (length (js_events st) - js_capacity st div 2) = js_capacity st div 2"
    using True by linarith
  ultimately show ?thesis using True by (simp add: append_event_def Let_def evicted_def)
qed (simp add: append_event_def Let_def evicted_def)

lemma append_event_length:
  assumes "append_event e st = Ok (e', st')" "length (js_events st) \<le> js_capacity st"
  shows "length (js_events st') \<le> js_capacity st"
proof -
  have "js_capacity st \<noteq> 0" "length (js_events st') = Suc (length (js_events st) - evicted st)"
    using assms(1) by (auto simp: append_event_eq split: if_splits)
  then show ?thesis using assms(2) unfolding evicted_def by (cases "js_capacity st \<le> length (js_events st)") auto
qed

lemma journal_inv_append:
  assumes "journal_inv st" "0 < journal_room st" "append_event e st = Ok (e', st')"
  shows "journal_inv st'" "journal_room st' = journal_room st - 1"
    "journal_issued st' = ev_sequence e'" "journal_issued st < ev_sequence e'"
proof -
  define k where "k = evicted st"
  have k: "js_events st' = drop k (js_events st) @ [e']"
    "e' = e\<lparr>ev_sequence := js_next_sequence st\<rparr>"
    "js_next_sequence st' = saturating_add (js_next_sequence st) 1"
    using assms(3) by (auto simp: append_event_eq k_def split: if_splits)
  let ?n = "unat (js_next_sequence st)"
  have n: "unat (js_next_sequence st') = Suc ?n" using journal_next_unat [OF assms(2)] k(3) by simp
  have "map (unat \<circ> ev_sequence) (js_events st') = drop k [?n - length (js_events st)..<?n] @ [?n]"
    using assms(1) k(1,2) by (simp add: journal_inv_def drop_map [symmetric])
  also have "\<dots> = [?n - (length (js_events st) - k)..<Suc ?n]"
    using assms(1) by (cases "k \<le> length (js_events st)") (auto simp: journal_inv_def)
  finally show "journal_inv st'" using assms(1) k(1) n by (auto simp: journal_inv_def)
  then have "unat (journal_issued st') = ?n" using journal_issued_unat n by simp
  then show "journal_issued st' = ev_sequence e'" using k(2) by (simp add: unsigned_word_eqI)
  show "journal_room st' = journal_room st - 1" using n by (simp add: journal_room_def)
  show "journal_issued st < ev_sequence e'"
    using journal_issued_unat [OF assms(1)] assms(1) k(2)
    by (auto simp: word_less_nat_alt journal_inv_def)
qed

lemma query_after_Ok:
  "query_after c n st = Ok p \<longleftrightarrow> not_stale c (js_events st) \<and>
     p = \<lparr>ep_schema_version = schema_version_v1, ep_events = take n (filter (matches c) (js_events st)),
          ep_next_cursor = map_option (next_cursor (sc_partition c))
            (deque_back (take n (filter (matches c) (js_events st)))),
          ep_has_more = (drop n (filter (matches c) (js_events st)) \<noteq> [])\<rparr>"
  by (cases "js_events st")
     (auto simp: query_after_def not_stale_def deque_front_def is_some_and_def matches_def [abs_def]
       Let_def not_less word_neq_0_conv)

lemma query_after_is_ok: "is_ok (query_after c n st) \<longleftrightarrow> not_stale c (js_events st)"
  using query_after_Ok [of c n st] by (cases "query_after c n st") auto

interpretation memory_journal: event_journal query_after js_events journal_inv append_event
  journal_room journal_issued
proof (unfold_locales, goal_cases)
  case (1 s)
  then show ?case by (auto simp: journal_inv_def intro: seq_sorted_unat)
next
  case (2 c n s)
  then show ?case by (rule query_after_is_ok)
next
  case (6 s e)
  then have "unat (ev_sequence e) < unat (js_next_sequence s)"
    by (auto simp: journal_inv_def dest: seq_upt_less)
  then show ?case using journal_issued_unat [OF 6(1)] by (simp add: word_le_nat_alt)
next
  case (7 s e e' s')
  then show ?case by (rule journal_inv_append(1))
next
  case (8 s e e' s')
  then show ?case by (rule journal_inv_append(2))
next
  case (9 s e e' s')
  then show ?case using journal_inv_append(3,4) by blast
next
  case (10 s e e' s')
  have "js_events s' = drop (evicted s) (js_events s) @ [e']"
    using 10(3) by (auto simp: append_event_eq split: if_splits)
  then show ?case by blast
qed (simp_all add: query_after_Ok not_le)

section \<open>Properties of the journal and its streams\<close>

lemma append_all_journal:
  assumes "journal_inv st" "length es \<le> journal_room st" "js_capacity st \<noteq> 0"
    and "length (js_events st) \<le> js_capacity st"
  shows "\<exists>stored st'. append_all append_event es st = Some (stored, st') \<and> journal_inv st' \<and>
           js_capacity st' = js_capacity st \<and> length (js_events st') \<le> js_capacity st \<and>
           unat (js_next_sequence st') = unat (js_next_sequence st) + length es \<and>
           map (unat \<circ> ev_sequence) stored =
             [unat (js_next_sequence st)..<unat (js_next_sequence st) + length es] \<and>
           map ev_event_id stored = map ev_event_id es \<and>
           (\<exists>k. js_events st' = drop k (js_events st @ stored)) \<and>
           (es \<noteq> [] \<longrightarrow> js_events st' \<noteq> [])"
  using assms
proof (induction es arbitrary: st)
  case (Cons e es)
  obtain e1 s1 where a: "append_event e st = Ok (e1, s1)" using Cons.prems(3) by (simp add: append_event_eq)
  have room: "0 < journal_room st" using Cons.prems(2) by simp
  note inv = journal_inv_append [OF Cons.prems(1) room a]
  have e1: "e1 = e\<lparr>ev_sequence := js_next_sequence st\<rparr>" "js_capacity s1 = js_capacity st"
    "unat (js_next_sequence s1) = Suc (unat (js_next_sequence st))"
    and ev: "js_events s1 = drop (evicted st) (js_events st) @ [e1]"
    using a Cons.prems(3) journal_next_unat [OF room] by (auto simp: append_event_eq)
  have "length es \<le> journal_room s1" "js_capacity s1 \<noteq> 0" "length (js_events s1) \<le> js_capacity s1"
    using inv(2) append_event_length [OF a Cons.prems(4)] Cons.prems e1 by auto
  from Cons.IH [OF inv(1) this, unfolded e1(2,3)]
  obtain stored st' where IH: "append_all append_event es s1 = Some (stored, st')" "journal_inv st'"
    "js_capacity st' = js_capacity st" "length (js_events st') \<le> js_capacity st"
    "unat (js_next_sequence st') = Suc (unat (js_next_sequence st)) + length es"
    "map (unat \<circ> ev_sequence) stored =
       [Suc (unat (js_next_sequence st))..<Suc (unat (js_next_sequence st)) + length es]"
    "map ev_event_id stored = map ev_event_id es"
    "\<exists>k. js_events st' = drop k (js_events s1 @ stored)" "es \<noteq> [] \<longrightarrow> js_events st' \<noteq> []"
    by blast
  obtain k where k: "js_events st' = drop k (drop (evicted st) (js_events st) @ e1 # stored)"
    using IH(8) ev by auto
  have "evicted st \<le> length (js_events st)" by (simp add: evicted_def)
  then have "js_events st' = drop (k + evicted st) (js_events st @ e1 # stored)"
    using k by (simp add: drop_drop [symmetric] del: drop_drop)
  then have "\<exists>k. js_events st' = drop k (js_events st @ e1 # stored)" by blast
  moreover have "js_events st' \<noteq> []"
    using IH(1,9) ev by (cases es) auto
  moreover have "map (unat \<circ> ev_sequence) (e1 # stored) =
      [unat (js_next_sequence st)..<unat (js_next_sequence st) + length (e # es)]"
    unfolding list.map IH(6) by (simp add: e1(1) upt_conv_Cons del: upt_Suc)
  moreover have "append_all append_event (e # es) st = Some (e1 # stored, st')"
    using a IH(1) by simp
  moreover have "unat (js_next_sequence st') = unat (js_next_sequence st) + length (e # es)"
    "map ev_event_id (e1 # stored) = map ev_event_id (e # es)"
    using IH(5,7) e1(1) by simp_all
  ultimately show ?case using IH(2-4) by blast
qed (auto intro: exI [of _ 0])

lemma journal_new_inv [simp]:
  "journal_inv (journal_new cap)" "js_capacity (journal_new cap) = cap" "js_events (journal_new cap) = []"
  "unat (js_next_sequence (journal_new cap)) = 1" "journal_room (journal_new cap) = 2 ^ 64 - 2"
  by (simp_all add: journal_inv_def journal_new_def journal_room_def)

text \<open>C24: events are numbered from one without a gap, whatever sequence numbers the callers
  put in: appending \<open>es\<close> to a new journal of a positive capacity succeeds, stores them in order
  as numbers \<open>1, \<dots>, n\<close>, and retains the newest of them, within the capacity and never none.\<close>

theorem append_consecutive:
  assumes "0 < cap" "length es \<le> 2 ^ 64 - 2"
  shows "\<exists>stored st. append_all append_event es (journal_new cap) = Some (stored, st) \<and>
           map (unat \<circ> ev_sequence) stored = [1..<Suc (length es)] \<and>
           map ev_event_id stored = map ev_event_id es \<and>
           (\<exists>k. js_events st = drop k stored) \<and> length (js_events st) \<le> cap \<and>
           (es \<noteq> [] \<longrightarrow> js_events st \<noteq> [])"
  using append_all_journal [of "journal_new cap" es] assms by auto

lemma append_all_history:
  assumes "append_all append_event es (journal_new cap) = Some (H, st)" "length es \<le> 2 ^ 64 - 2"
  shows "memory_journal.history st H" "journal_room st = 2 ^ 64 - 2 - length es"
proof -
  have "memory_journal.history (journal_new cap) []"
    by (simp add: memory_journal.history_def)
  from memory_journal.history_append_all [OF assms(1) this] assms(2)
  show "memory_journal.history st H" "journal_room st = 2 ^ 64 - 2 - length es" by simp_all
qed

definition sample_event :: "event_kind \<Rightarrow> event_record" where
  "sample_event kind = orchestrator_event kind ''sample'' None ''id'' 0"

theorem append_consecutive_witness:
  "\<exists>stored st. append_all append_event [sample_event RunStarted, sample_event RunCompleted] (journal_new 1)
      = Some (stored, st) \<and> map (unat \<circ> ev_sequence) stored = [1, 2] \<and> length (js_events st) \<le> 1"
  using append_consecutive [of 1 "[sample_event RunStarted, sample_event RunCompleted]"] by auto

text \<open>A WebSocket client never sees an event twice or out of order: whatever is appended
  while it replays, however often its receiver lags and recovers, and whichever sends fail, the
  event frames sent to it have strictly increasing sequence numbers, lie beyond its cursor and
  belong to its partition.\<close>

theorem client_sees_no_duplicates:
  assumes "event_stream_ws query_after ser up c ss recov items = (r, w)"
    and "\<forall>st \<in> set ss. journal_inv st" "\<forall>ss \<in> set recov. \<forall>st \<in> set ss. journal_inv st"
  shows "sorted_wrt (<) (map ev_sequence (wire_events w)) \<and>
         (\<forall>e \<in> set (wire_events w). sc_sequence c < ev_sequence e \<and>
            default_partition (ev_kind e) = sc_partition c)"
  using memory_journal.session_seen [OF assms] by (auto simp: seen_upto_def seq_sorted_def matches_def)

text \<open>C23: a WebSocket client misses nothing: with a cursor other than zero, when the replay ends
  without an error and the receiver does not lag, the client has been sent exactly the events of
  its partition beyond the cursor among everything ever appended: before it connected (\<open>H\<close>),
  while it was replaying (\<open>stored\<close>) and afterwards (\<open>later\<close>), each once and in order.\<close>

theorem client_misses_nothing:
  assumes "append_all append_event es (journal_new cap) = Some (H, s)"
    and "journal_states append_event bs s = Some (stored, ss)"
    and "append_all append_event es' (last ss) = Some (later, s')"
    and "length (es @ concat bs @ es') \<le> 2 ^ 64 - 2" "0 < sc_sequence c"
    and "event_stream_ws query_after (\<lambda>_. True) (\<lambda>_. True) c ss recov (map ChannelEvent (stored @ later)) = (r, w)"
    and "r \<notin> {StillReplaying, EndReplayFailed}"
  shows "r = StillLive \<and> wire_events w = filter (matches c) (H @ stored @ later)"
proof -
  have "length es \<le> 2 ^ 64 - 2" using assms(4) by simp
  note h = append_all_history [OF assms(1) this]
  show ?thesis
    by (rule memory_journal.session_complete [OF assms(6,2,3) h(1) _ assms(5,7)])
       (use h(2) assms(4) in simp)
qed

text \<open>A cursor older than what the journal retains is reported, not skipped over: the client
  gets the one error frame that says so, and no event.\<close>

theorem stale_cursor_reported:
  assumes "js_events s = e # es" "0 < sc_sequence c" "sc_sequence c < ev_sequence e"
  shows "event_stream_ws query_after ser (\<lambda>_. True) c (s # ss) recov items =
           (EndReplayFailed,
            \<lparr>w_frames = [ErrorFrame (stream_error_cursor_not_found (sc_sequence c))], w_attempts = 1\<rparr>)"
  using assms
  by (simp add: event_stream_ws_def replay_ws_events_from_cursor_def query_after_def deque_front_def
      is_some_and_def stream_cursor_new_def send_ws_stream_error_def send_ws_frame_def)

text \<open>C28: the backlog replay ends: on a journal nobody appends to, a client whose cursor is not
  older than the retained events is through its backlog after one query for each full page of
  100 matching events and one more, and what it has been sent is exactly that backlog.\<close>

theorem replay_terminates:
  assumes "journal_inv s" "sc_sequence c = 0 \<or> js_events s = [] \<or> ev_sequence (hd (js_events s)) \<le> sc_sequence c"
    and "n = Suc (length (filter (matches c) (js_events s)) div 100)"
  shows "\<exists>m w. replay_ws_events_from_cursor query_after (\<lambda>_. True) (\<lambda>_. True) WsBacklog (replicate n s) c
                  \<lparr>w_frames = [], w_attempts = 0\<rparr> = (ReplayDone m, w) \<and>
                wire_events w = filter (matches c) (js_events s)"
proof -
  have "length (filter (matches c) (js_events s)) \<le> gateway_event_page_limit * n"
    using assms(3) by (simp add: gateway_event_page_limit_def)
  from memory_journal.replay_loop_finishes [OF assms(1) _ this, of WsBacklog "\<lparr>w_frames = [], w_attempts = 0\<rparr>"]
  show ?thesis using assms(2,3) by (simp add: replay_ws_events_from_cursor_def not_stale_def)
qed

definition sample_journal :: journal_state where
  "sample_journal = \<lparr>js_events = [(sample_event RunStarted)\<lparr>ev_sequence := 3\<rparr>,
      (sample_event HarnessSseEvent)\<lparr>ev_sequence := 4\<rparr>], js_capacity = 3, js_next_sequence = 5\<rparr>"

lemma sample_journal_inv: "journal_inv sample_journal"
  by (simp add: journal_inv_def sample_journal_def upt_rec)

theorem replay_terminates_witness:
  "\<exists>m w. replay_ws_events_from_cursor query_after (\<lambda>_. True) (\<lambda>_. True) WsBacklog [sample_journal]
            (stream_cursor_new 0 ''events'') \<lparr>w_frames = [], w_attempts = 0\<rparr> = (ReplayDone m, w) \<and>
         wire_events w = js_events sample_journal"
proof -
  have "filter (matches (stream_cursor_new 0 ''events'')) (js_events sample_journal) = js_events sample_journal"
    by (simp add: matches_def stream_cursor_new_def sample_journal_def sample_event_def orchestrator_event_def
        build_def builder_def default_partition_def unwrap_or_def)
  then show ?thesis
    using replay_terminates [OF sample_journal_inv, of "stream_cursor_new 0 ''events''" 1]
    by (simp add: stream_cursor_new_def sample_journal_def)
qed

theorem stale_cursor_reported_witness:
  "event_stream_ws query_after (\<lambda>_. True) (\<lambda>_. True) (stream_cursor_new 2 ''events'') [sample_journal] [] []
     = (EndReplayFailed,
        \<lparr>w_frames = [ErrorFrame (stream_error_cursor_not_found 2)], w_attempts = 1\<rparr>)"
  using stale_cursor_reported [of sample_journal "hd (js_events sample_journal)" "tl (js_events sample_journal)"
      "stream_cursor_new 2 ''events''" "\<lambda>_. True" "[]" "[]" "[]"]
  by (simp add: sample_journal_def stream_cursor_new_def)

theorem client_sees_no_duplicates_witness:
  "sorted_wrt (<) (map ev_sequence (wire_events (snd (event_stream_ws query_after (\<lambda>_. True) (\<lambda>_. True)
      (stream_cursor_new 3 ''events'') [sample_journal] [[sample_journal]]
      [ChannelEvent (hd (js_events sample_journal)), ChannelLagged 1]))))"
  using client_sees_no_duplicates [of "\<lambda>_. True" "\<lambda>_. True" "stream_cursor_new 3 ''events''" "[sample_journal]"
      "[[sample_journal]]" "[ChannelEvent (hd (js_events sample_journal)), ChannelLagged 1]"]
    sample_journal_inv
  by (metis empty_iff insert_iff list.set prod.collapse)

lemma sample_event_simps [simp]:
  "ev_kind (sample_event k) = k" "ev_sequence (sample_event k) = 0"
  by (simp_all add: sample_event_def orchestrator_event_def build_def builder_def unwrap_or_def)

theorem client_misses_nothing_witness:
  "\<exists>st1 st2 w. append_all append_event [sample_event RunStarted] (journal_new 3) =
        Some ([(sample_event RunStarted)\<lparr>ev_sequence := 1\<rparr>], st1) \<and>
      journal_states append_event [[sample_event HarnessSseEvent]] st1 =
        Some ([(sample_event HarnessSseEvent)\<lparr>ev_sequence := 2\<rparr>], [st2]) \<and>
      event_stream_ws query_after (\<lambda>_. True) (\<lambda>_. True) (stream_cursor_new 1 ''events'') [st2] []
        (map ChannelEvent [(sample_event HarnessSseEvent)\<lparr>ev_sequence := 2\<rparr>,
                           (sample_event RunCompleted)\<lparr>ev_sequence := 3\<rparr>]) = (StillLive, w) \<and>
      wire_events w = [(sample_event HarnessSseEvent)\<lparr>ev_sequence := 2\<rparr>,
                       (sample_event RunCompleted)\<lparr>ev_sequence := 3\<rparr>]"
proof -
  define e1 where "e1 = (sample_event RunStarted)\<lparr>ev_sequence := 1\<rparr>"
  define e2 where "e2 = (sample_event HarnessSseEvent)\<lparr>ev_sequence := 2\<rparr>"
  define e3 where "e3 = (sample_event RunCompleted)\<lparr>ev_sequence := 3\<rparr>"
  define st1 where "st1 = \<lparr>js_events = [e1], js_capacity = 3, js_next_sequence = 2\<rparr>"
  define st2 where "st2 = \<lparr>js_events = [e1, e2], js_capacity = 3, js_next_sequence = 3\<rparr>"
  define st3 where "st3 = \<lparr>js_events = [e2, e3], js_capacity = 3, js_next_sequence = 4\<rparr>"
  have a1: "append_all append_event [sample_event RunStarted] (journal_new 3) = Some ([e1], st1)"
    by (simp add: append_event_eq journal_new_def st1_def e1_def evicted_def saturating_add_def)
  have a2: "journal_states append_event [[sample_event HarnessSseEvent]] st1 = Some ([e2], [st2])"
    by (simp add: append_event_eq st1_def st2_def e2_def evicted_def saturating_add_def)
  have a3: "append_all append_event [sample_event RunCompleted] (last [st2]) =
      Some ([e3], \<lparr>js_events = [e1, e2, e3], js_capacity = 3, js_next_sequence = 4\<rparr>)"
    by (simp add: append_event_eq st2_def e3_def evicted_def saturating_add_def)
  obtain r w where ws: "event_stream_ws query_after (\<lambda>_. True) (\<lambda>_. True) (stream_cursor_new 1 ''events'') [st2] []
        (map ChannelEvent ([e2] @ [e3])) = (r, w)"
    by (metis surj_pair)
  have "matches (stream_cursor_new 1 ''events'') e2" "\<not> matches (stream_cursor_new 1 ''events'') e1"
    "matches (stream_cursor_new 1 ''events'') e3"
    by (simp_all add: matches_def stream_cursor_new_def e1_def e2_def e3_def default_partition_def)
  note m = this
  have p: "query_after (stream_cursor_new 1 ''events'') gateway_event_page_limit st2 =
      Ok \<lparr>ep_schema_version = schema_version_v1, ep_events = [e2],
          ep_next_cursor = Some (stream_cursor_new 2 ''events''), ep_has_more = False\<rparr>"
    using m by (simp add: query_after_Ok st2_def not_stale_def gateway_event_page_limit_def deque_back_def
        next_cursor_def stream_cursor_new_def e1_def e2_def)
  have sorted: "seq_sorted [e2, e3]" by (simp add: e2_def e3_def)
  have live: "fst (forward_ws_live_events query_after (\<lambda>_. True) (\<lambda>_. True) ''events'' []
      [ChannelEvent e2, ChannelEvent e3] st w) = StillLive" for st w
    using forward_events [OF sorted, of query_after "''events''" "[]" st w] by auto
  have "r = StillLive"
    using ws p live send_ws_event_up [of "\<lambda>_. True" WsBacklog e2 "\<lparr>w_frames = [], w_attempts = 0\<rparr>"]
    by (auto simp: event_stream_ws_def replay_ws_events_from_cursor_def stream_cursor_new_def
        split: prod.splits) (metis fst_conv)+
  then have "r \<notin> {StillReplaying, EndReplayFailed}" by simp
  then have "r = StillLive \<and> wire_events w = filter (matches (stream_cursor_new 1 ''events'')) ([e1] @ [e2] @ [e3])"
    using client_misses_nothing [OF a1 a2 a3 _ _ ws] by (simp add: stream_cursor_new_def)
  then show ?thesis
    using a1 a2 ws m by (auto simp: e1_def e2_def e3_def)
qed

end
