(* ===== verification/Redaction.thy ===== *)
theory Redaction
  imports Prelude
begin

text \<open>
  \<open>redact_runtime_diagnostic\<close> of \<open>opensymphony-workspace/src/models.rs\<close> and its helpers, which
  keep credentials out of durable diagnostics. The scanners work on byte offsets. Every offset
  they str_slice at follows an ASCII byte, precedes one or is the end of the string, so it is a
  character boundary and \<open>str::get\<close> and the slices do not fail; here a str_slice is \<open>take\<close> and
  \<open>drop\<close> on the bytes. A \<open>while\<close> loop that advances an index over a class of bytes is
  \<open>skip_while\<close>.
\<close>

section \<open>Scanning\<close>

definition is_ascii_whitespace :: "char \<Rightarrow> bool" where
  "is_ascii_whitespace c \<longleftrightarrow> byte c \<in> {32, 9, 10, 12, 13}"

definition skip_while :: "(char \<Rightarrow> bool) \<Rightarrow> string \<Rightarrow> nat \<Rightarrow> nat" where
  "skip_while p s i = i + length (takeWhile p (drop i s))"

definition byte_at :: "string \<Rightarrow> nat \<Rightarrow> char option" where
  "byte_at s i = (if i < length s then Some (s ! i) else None)"

definition replace_range :: "nat \<Rightarrow> nat \<Rightarrow> string \<Rightarrow> string \<Rightarrow> string" where
  "replace_range a b r s = take a s @ r @ drop b s"

definition str_slice :: "nat \<Rightarrow> nat \<Rightarrow> string \<Rightarrow> string" where
  "str_slice a b s = take (b - a) (drop a s)"

definition find_str :: "string \<Rightarrow> string \<Rightarrow> nat option" where
  "find_str p s = map_option (\<lambda>(a, b). length a) (split_once p s)"

definition rfind_char :: "char \<Rightarrow> string \<Rightarrow> nat option" where
  "rfind_char c s = map_option (\<lambda>(a, b). length a) (rsplit_once c s)"

text \<open>The end of an unquoted value: white space or one of \<open>, ; } ] &\<close>.\<close>

definition value_byte :: "char \<Rightarrow> bool" where
  "value_byte c \<longleftrightarrow> \<not> is_ascii_whitespace c \<and> c \<notin> set '',;}]&''"

definition quote_byte :: "char \<Rightarrow> bool" where
  "quote_byte c \<longleftrightarrow> byte c = 34 \<or> byte c = 39"

fun quoted_end_from :: "char \<Rightarrow> bool \<Rightarrow> string \<Rightarrow> nat" where
  "quoted_end_from q escaped [] = 0"
| "quoted_end_from q escaped (c # s) =
     (if c = q \<and> \<not> escaped then 0
      else Suc (quoted_end_from q (byte c = 92 \<and> \<not> escaped) s))"

definition quoted_value_end :: "string \<Rightarrow> nat \<Rightarrow> char \<Rightarrow> nat" where
  "quoted_value_end s i q = i + quoted_end_from q False (drop i s)"

definition redacted_mark :: string where "redacted_mark = ''[redacted]''"

lemma find_str_bound: "find_str p s = Some i \<Longrightarrow> i + length p \<le> length s"
  by (auto simp: find_str_def dest: split_once_Some)

lemma skip_while_ge: "i \<le> skip_while p s i"
  by (simp add: skip_while_def)

lemma skip_while_le: "i \<le> length s \<Longrightarrow> skip_while p s i \<le> length s"
  using length_takeWhile_le [of p "drop i s"] by (simp add: skip_while_def)

lemma quoted_end_from_le: "quoted_end_from q e s \<le> length s"
  by (induction q e s rule: quoted_end_from.induct) auto

lemma quoted_value_end_bounds:
  "i \<le> quoted_value_end s i q" "i \<le> length s \<Longrightarrow> quoted_value_end s i q \<le> length s"
  using quoted_end_from_le [of q False "drop i s"] by (auto simp: quoted_value_end_def)

lemma length_replace_range:
  "a \<le> b \<Longrightarrow> b \<le> length s \<Longrightarrow> length (replace_range a b r s) = length s - (b - a) + length r"
  by (simp add: replace_range_def)

lemma length_to_ascii_lowercase [simp]: "length (to_ascii_lowercase s) = length s"
  by (simp add: to_ascii_lowercase_def)

section \<open>Authorization headers\<close>

text \<open>\<open>value.split_once(char::is_whitespace)\<close>\<close>

fun split_once_whitespace :: "string \<Rightarrow> (string \<times> string) option" where
  "split_once_whitespace [] = None"
| "split_once_whitespace (c # s) =
     (let n = leading white_space (c # s)
      in if 0 < n then Some ([], drop n (c # s))
         else map_option (\<lambda>(a, b). (c # a, b)) (split_once_whitespace s))"

definition authorization_value_replacement :: "string \<Rightarrow> string" where
  "authorization_value_replacement value =
     (case split_once_whitespace value of
        None \<Rightarrow> redacted_mark
      | Some (scheme, tok) \<Rightarrow>
          if eq_ignore_ascii_case scheme ''bearer'' \<and> trim tok \<noteq> []
          then scheme @ '' [redacted]'' else redacted_mark)"

text \<open>Where the value after a key begins: an optional quote, white space, \<open>=\<close> or \<open>:\<close>, white
  space; \<open>None\<close> when there is no delimiter.\<close>

definition delimiter_after :: "string \<Rightarrow> nat \<Rightarrow> nat" where
  "delimiter_after s key_end =
     skip_while is_ascii_whitespace s
       (case byte_at s key_end of
          Some c \<Rightarrow> if quote_byte c then key_end + 1 else key_end
        | None \<Rightarrow> key_end)"

definition value_start_after :: "string \<Rightarrow> nat \<Rightarrow> nat option" where
  "value_start_after s key_end =
     (let d = delimiter_after s key_end
      in case byte_at s d of
           None \<Rightarrow> None
         | Some c \<Rightarrow> if c \<in> set ''=:'' then Some (skip_while is_ascii_whitespace s (d + 1)) else None)"

lemma delimiter_after_ge: "e \<le> delimiter_after s e"
  using skip_while_ge [of e is_ascii_whitespace s] skip_while_ge [of "e + 1" is_ascii_whitespace s]
  by (auto simp: delimiter_after_def split: option.splits)

lemma value_start_after_bounds:
  assumes "value_start_after s e = Some v" "e \<le> length s"
  shows "e < v" "v \<le> length s"
proof -
  have "delimiter_after s e < length s" "v = skip_while is_ascii_whitespace s (delimiter_after s e + 1)"
    using assms(1) by (auto simp: value_start_after_def Let_def byte_at_def split: if_splits)
  then show "e < v" "v \<le> length s"
    using delimiter_after_ge [of e s] skip_while_ge [of "delimiter_after s e + 1" is_ascii_whitespace s]
      skip_while_le [of "delimiter_after s e + 1" s is_ascii_whitespace]
    by auto
qed

text \<open>One occurrence of the key: the redacted text and where the search goes on.\<close>

definition authorization_step :: "string \<Rightarrow> nat \<Rightarrow> nat \<Rightarrow> string \<times> nat" where
  "authorization_step s key_start key_end =
     (if 0 < key_start \<and> (is_ascii_alphanumeric (s ! (key_start - 1)) \<or> s ! (key_start - 1) = CHR ''_'')
      then (s, key_end)
      else case value_start_after s key_end of
        None \<Rightarrow> (s, key_end)
      | Some value_start \<Rightarrow>
          (case byte_at s value_start of
             Some q \<Rightarrow>
               if quote_byte q then
                 (let content_start = value_start + 1;
                      content_end = quoted_value_end s content_start q;
                      content = str_slice content_start content_end s;
                      replacement = authorization_value_replacement content
                  in if replacement \<noteq> content
                     then (replace_range content_start content_end replacement s,
                           content_start + length replacement)
                     else (s, content_end))
               else
                 (let value_end = skip_while value_byte s value_start;
                      token_start = skip_while is_ascii_whitespace s value_end;
                      token_end = skip_while value_byte s token_start;
                      replacement = str_slice value_start value_end s @ '' [redacted]''
                  in if token_start < token_end
                     then (replace_range value_start token_end replacement s, value_start + length replacement)
                     else if value_start < value_end
                     then (replace_range value_start value_end redacted_mark s,
                           value_start + length redacted_mark)
                     else (s, value_end))
           | None \<Rightarrow> (s, value_start)))"

lemma authorization_step_progress:
  assumes "authorization_step s a e = (s', n)" "e \<le> length s"
  shows "e \<le> n \<and> n \<le> length s' \<and> length s' - n \<le> length s - e"
proof (cases "value_start_after s e")
  case None
  then show ?thesis using assms by (auto simp: authorization_step_def split: if_splits)
next
  case (Some v)
  note v = value_start_after_bounds [OF Some assms(2)]
  show ?thesis
  proof (cases "byte_at s v")
    case None
    then show ?thesis using assms Some v by (auto simp: authorization_step_def split: if_splits)
  next
    case (Some q)
    then have lt: "v < length s" by (simp add: byte_at_def split: if_splits)
    define ce where "ce = quoted_value_end s (Suc v) q"
    define ve where "ve = skip_while value_byte s v"
    define ts where "ts = skip_while is_ascii_whitespace s ve"
    define te where "te = skip_while value_byte s ts"
    have ce: "v + 1 \<le> ce" "ce \<le> length s"
      using quoted_value_end_bounds [of "Suc v" s q] lt by (auto simp: ce_def)
    have ve: "v \<le> ve" "ve \<le> length s" using skip_while_ge skip_while_le v(2) by (auto simp: ve_def)
    then have ts: "ve \<le> ts" "ts \<le> length s" using skip_while_ge skip_while_le by (auto simp: ts_def)
    then have te: "ts \<le> te" "te \<le> length s" using skip_while_ge skip_while_le by (auto simp: te_def)
    show ?thesis
      using assms(1) \<open>value_start_after s e = Some v\<close> Some v(1) ce ve ts te lt assms(2)
      by (auto simp: authorization_step_def Let_def ce_def [symmetric] ve_def [symmetric]
          ts_def [symmetric] te_def [symmetric] length_replace_range split: if_splits)
  qed
qed

function redact_authorization_at :: "string \<Rightarrow> nat \<Rightarrow> string" where
  "redact_authorization_at s search_from =
     (case find_str ''authorization'' (drop search_from (to_ascii_lowercase s)) of
        None \<Rightarrow> s
      | Some relative_start \<Rightarrow>
          (case authorization_step s (search_from + relative_start)
                  (search_from + relative_start + length ''authorization'') of
             (s', search_from') \<Rightarrow> redact_authorization_at s' search_from'))"
  by pat_completeness auto
termination
proof (relation "measure (\<lambda>(s, n). length s - n)", goal_cases)
  case (2 s n i s' n')
  define e where "e = n + i + length ''authorization''"
  have "i + length ''authorization'' \<le> length s - n" "0 < length ''authorization''"
    using find_str_bound [OF 2(1)] by simp_all
  then have "e \<le> length s" "n < e" unfolding e_def by linarith+
  moreover have "authorization_step s (n + i) e = (s', n')" using 2(2) by (simp add: e_def)
  moreover have "length s - e < length s - n" using calculation(1,2) by linarith
  ultimately show ?case
    using authorization_step_progress [of s "n + i" e s' n'] by (auto intro: le_less_trans)
qed simp

declare redact_authorization_at.simps [simp del]

definition redact_authorization_headers :: "string \<Rightarrow> string" where
  "redact_authorization_headers input = redact_authorization_at input 0"

section \<open>Standalone bearer tokens\<close>

definition is_bearer_word_byte :: "char \<Rightarrow> bool" where
  "is_bearer_word_byte c \<longleftrightarrow> is_ascii_alphanumeric c \<or> c \<in> set ''_-''"

definition bearer_byte :: "char \<Rightarrow> bool" where
  "bearer_byte c \<longleftrightarrow> value_byte c \<and> \<not> quote_byte c"

definition bearer_step :: "string \<Rightarrow> nat \<Rightarrow> nat \<Rightarrow> string \<times> nat" where
  "bearer_step s scheme_start scheme_end =
     (if 0 < scheme_start \<and> is_bearer_word_byte (s ! (scheme_start - 1)) \<or>
         is_none_or (\<lambda>c. \<not> is_ascii_whitespace c) (byte_at s scheme_end)
      then (s, scheme_end)
      else
        let token_start = skip_while is_ascii_whitespace s scheme_end;
            token_end = skip_while bearer_byte s token_start
        in if token_start = token_end then (s, scheme_end)
           else (replace_range token_start token_end redacted_mark s, token_start + length redacted_mark))"

lemma bearer_step_progress:
  assumes "bearer_step s a e = (s', n)" "e \<le> length s"
  shows "e \<le> n \<and> n \<le> length s' \<and> length s' - n \<le> length s - e"
proof -
  define ts where "ts = skip_while is_ascii_whitespace s e"
  define te where "te = skip_while bearer_byte s ts"
  have ts: "e \<le> ts" "ts \<le> length s" using skip_while_ge skip_while_le assms(2) by (auto simp: ts_def)
  then have te: "ts \<le> te" "te \<le> length s" using skip_while_ge skip_while_le by (auto simp: te_def)
  show ?thesis
    using assms ts te
    by (auto simp: bearer_step_def Let_def ts_def [symmetric] te_def [symmetric] length_replace_range
        split: if_splits)
qed

function redact_bearer_at :: "string \<Rightarrow> nat \<Rightarrow> string" where
  "redact_bearer_at s search_from =
     (case find_str ''bearer'' (drop search_from (to_ascii_lowercase s)) of
        None \<Rightarrow> s
      | Some relative_start \<Rightarrow>
          (case bearer_step s (search_from + relative_start)
                  (search_from + relative_start + length ''bearer'') of
             (s', search_from') \<Rightarrow> redact_bearer_at s' search_from'))"
  by pat_completeness auto
termination
proof (relation "measure (\<lambda>(s, n). length s - n)", goal_cases)
  case (2 s n i s' n')
  define e where "e = n + i + length ''bearer''"
  have "i + length ''bearer'' \<le> length s - n" "0 < length ''bearer''"
    using find_str_bound [OF 2(1)] by simp_all
  then have "e \<le> length s" "n < e" unfolding e_def by linarith+
  moreover have "bearer_step s (n + i) e = (s', n')" using 2(2) by (simp add: e_def)
  moreover have "length s - e < length s - n" using calculation(1,2) by linarith
  ultimately show ?case
    using bearer_step_progress [of s "n + i" e s' n'] by (auto intro: le_less_trans)
qed simp

declare redact_bearer_at.simps [simp del]

definition redact_standalone_bearer :: "string \<Rightarrow> string" where
  "redact_standalone_bearer input = redact_bearer_at input 0"

section \<open>Credentials in URLs\<close>

definition redact_diagnostic_token :: "string \<Rightarrow> string" where
  "redact_diagnostic_token tok =
     (case find_str ''://'' tok of
        None \<Rightarrow> tok
      | Some scheme_end \<Rightarrow>
          (case rfind_char (CHR ''@'') (drop (scheme_end + 3) tok) of
             None \<Rightarrow> tok
           | Some at \<Rightarrow>
               (let at = scheme_end + 3 + at;
                    userinfo = str_slice (scheme_end + 3) at tok
                in if \<not> eq_ignore_ascii_case userinfo ''git''
                   then take (scheme_end + 3) tok @ redacted_mark @ drop at tok
                   else tok)))"

section \<open>Values of sensitive keys\<close>

definition key_byte :: "char \<Rightarrow> bool" where
  "key_byte c \<longleftrightarrow> is_ascii_alphanumeric c \<or> c = CHR ''_'' \<or> c = CHR ''-''"

definition is_ascii_lower :: "char \<Rightarrow> bool" where
  "is_ascii_lower c \<longleftrightarrow> 97 \<le> byte c \<and> byte c \<le> 122"

definition push_underscore :: "string \<Rightarrow> string" where
  "push_underscore s = (if s \<noteq> [] \<and> last s = CHR ''_'' then s else s @ ''_'')"

text \<open>The field names normalised are runs of key bytes or the constants below, so their
  characters are their bytes. \<open>prev\<close> is the character before, \<open>None\<close> at the start.\<close>

fun normalize_field_chars :: "char option \<Rightarrow> string \<Rightarrow> string \<Rightarrow> string" where
  "normalize_field_chars prev [] normalized = normalized"
| "normalize_field_chars prev (c # s) normalized =
     (if c = CHR ''-'' then normalize_field_chars (Some c) s (push_underscore normalized)
      else if is_ascii_upper c then
        (let lower_or_digit = is_some_and (\<lambda>p. is_ascii_lower p \<or> is_ascii_digit p) prev;
             acronym = is_some_and is_ascii_upper prev \<and>
                       (case s of [] \<Rightarrow> False | d # _ \<Rightarrow> is_ascii_lower d);
             normalized = (if lower_or_digit \<or> acronym then push_underscore normalized else normalized)
         in normalize_field_chars (Some c) s (normalized @ [ascii_lower c]))
      else normalize_field_chars (Some c) s (normalized @ [ascii_lower c]))"

definition normalize_secret_field_name :: "string \<Rightarrow> string" where
  "normalize_secret_field_name name = normalize_field_chars None name []"

definition key_matches :: "string \<Rightarrow> string \<Rightarrow> bool" where
  "key_matches word key \<longleftrightarrow>
     normalize_secret_field_name word = key \<or> suffix (CHR ''_'' # key) (normalize_secret_field_name word)"

function find_key_at :: "string \<Rightarrow> string \<Rightarrow> nat \<Rightarrow> (nat \<times> nat) option" where
  "find_key_at s key index =
     (if length s \<le> index then None
      else if \<not> key_byte (s ! index) then find_key_at s key (index + 1)
      else if 0 < index \<and> key_byte (s ! (index - 1)) then find_key_at s key (index + 1)
      else let e = skip_while key_byte s (index + 1)
           in if key_matches (str_slice index e s) key then Some (index, e) else find_key_at s key e)"
  by pat_completeness auto
termination
proof (relation "measure (\<lambda>(s, key, i). length s - i)", goal_cases)
  case (4 s key i e)
  then show ?case using skip_while_ge [of "i + 1" key_byte s] by simp
qed auto

declare find_key_at.simps [simp del]

definition find_sensitive_key :: "string \<Rightarrow> nat \<Rightarrow> string \<Rightarrow> (nat \<times> nat) option" where
  "find_sensitive_key input search_from key =
     find_key_at input (normalize_secret_field_name key) search_from"

lemma find_key_at_bounds:
  "find_key_at s key i = Some (a, e) \<Longrightarrow> i \<le> a \<and> a < e \<and> e \<le> length s"
proof (induction s key i rule: find_key_at.induct)
  case (1 s key i)
  have le: "i < length s \<Longrightarrow> Suc i \<le> skip_while key_byte s (Suc i) \<and> skip_while key_byte s (Suc i) \<le> length s"
    using skip_while_ge [of "Suc i" key_byte s] skip_while_le [of "Suc i" s key_byte] by simp
  note unfolded = "1.prems" [unfolded find_key_at.simps [of s key i]]
  show ?case
  proof (cases "length s \<le> i \<or> \<not> key_byte (s ! i) \<or> 0 < i \<and> key_byte (s ! (i - 1))")
    case True
    then show ?thesis using "1.IH"(1,2) unfolded by (auto split: if_splits)
  next
    case False
    then show ?thesis using "1.IH"(3) unfolded le by (fastforce simp: Let_def split: if_splits)
  qed
qed

definition key_value_step :: "string \<Rightarrow> nat \<Rightarrow> string \<times> nat" where
  "key_value_step s key_end =
     (case value_start_after s key_end of
        None \<Rightarrow> (s, key_end)
      | Some value_start \<Rightarrow>
          (case find quote_byte (opt_list (byte_at s value_start)) of
             Some q \<Rightarrow>
               (let value_start = value_start + 1;
                    value_end = quoted_value_end s value_start q;
                    suffix_start = (if value_end < length s then value_end + 1 else value_end)
                in if eq_ignore_ascii_case (str_slice value_start value_end s) redacted_mark
                   then (s, suffix_start)
                   else (replace_range value_start value_end redacted_mark s,
                         value_start + length redacted_mark))
           | None \<Rightarrow>
               (let value_end = skip_while value_byte s value_start
                in if eq_ignore_ascii_case (str_slice value_start value_end s) redacted_mark
                   then (s, value_end)
                   else (replace_range value_start value_end redacted_mark s,
                         value_start + length redacted_mark))))"

lemma key_value_step_progress:
  assumes "key_value_step s e = (s', n)" "e \<le> length s"
  shows "e \<le> n \<and> n \<le> length s' \<and> length s' - n \<le> length s - e"
proof (cases "value_start_after s e")
  case None
  then show ?thesis using assms by (simp add: key_value_step_def)
next
  case (Some v)
  note v = value_start_after_bounds [OF Some assms(2)]
  define ve where "ve = skip_while value_byte s v"
  have ve: "v \<le> ve" "ve \<le> length s" using skip_while_ge skip_while_le v(2) by (auto simp: ve_def)
  show ?thesis
  proof (cases "find quote_byte (opt_list (byte_at s v))")
    case None
    then show ?thesis
      using assms(1) Some v ve by (auto simp: key_value_step_def Let_def ve_def [symmetric]
          length_replace_range split: if_splits)
  next
    case q: (Some q)
    then have lt: "v < length s" by (cases "v < length s") (auto simp: byte_at_def)
    define ce where "ce = quoted_value_end s (Suc v) q"
    have ce: "Suc v \<le> ce" "ce \<le> length s"
      using quoted_value_end_bounds [of "Suc v" s q] lt by (auto simp: ce_def)
    show ?thesis
      using assms(1) Some q v ce by (auto simp: key_value_step_def Let_def ce_def [symmetric]
          length_replace_range split: if_splits)
  qed
qed

function redact_key_value_at :: "string \<Rightarrow> string \<Rightarrow> nat \<Rightarrow> string" where
  "redact_key_value_at key s search_from =
     (case find_sensitive_key s search_from key of
        None \<Rightarrow> s
      | Some (_, key_end) \<Rightarrow>
          (case key_value_step s key_end of
             (s', search_from') \<Rightarrow> redact_key_value_at key s' search_from'))"
  by pat_completeness auto
termination
proof (relation "measure (\<lambda>(key, s, n). length s - n)", goal_cases)
  case (2 key s n p a e s' n')
  then have "n \<le> a \<and> a < e \<and> e \<le> length s"
    by (auto simp: find_sensitive_key_def dest!: find_key_at_bounds)
  moreover have "key_value_step s e = (s', n')" using 2 by simp
  moreover have "length s - e < length s - n" using calculation(1) by linarith
  ultimately show ?case
    using key_value_step_progress [of s e s' n'] by (auto intro: le_less_trans)
qed simp

declare redact_key_value_at.simps [simp del]

definition redact_key_value :: "string \<Rightarrow> string \<Rightarrow> string" where
  "redact_key_value input key = redact_key_value_at key input 0"

section \<open>Diagnostics\<close>

text \<open>\<open>split_whitespace\<close>: the non-empty words between Unicode white space; \<open>word\<close> is the word
  being read.\<close>

definition flush_word :: "string \<Rightarrow> string list" where
  "flush_word word = (if word = [] then [] else [word])"

function split_words :: "string \<Rightarrow> string \<Rightarrow> string list" where
  "split_words word [] = flush_word word"
| "split_words word (c # s) =
     (let n = leading white_space (c # s)
      in if 0 < n then flush_word word @ split_words [] (drop n (c # s))
         else split_words (word @ [c]) s)"
  by pat_completeness auto
termination
  by (relation "measure (\<lambda>(word, s). length s)") auto

definition split_whitespace :: "string \<Rightarrow> string list" where
  "split_whitespace s = split_words [] s"

fun join_words :: "string \<Rightarrow> string list \<Rightarrow> string" where
  "join_words sep [] = []"
| "join_words sep [w] = w"
| "join_words sep (w # ws) = w @ sep @ join_words sep ws"

text \<open>\<open>chars().take(n)\<close>: the bytes up to the \<open>n\<close>th character that begins.\<close>

fun take_chars :: "nat \<Rightarrow> string \<Rightarrow> string" where
  "take_chars n [] = []"
| "take_chars n (c # s) =
     (if 128 \<le> byte c \<and> byte c < 192 then c # take_chars n s
      else case n of 0 \<Rightarrow> [] | Suc m \<Rightarrow> c # take_chars m s)"

definition sensitive_keys :: "string list" where
  "sensitive_keys =
     [''access_token'', ''api_key'', ''apikey'', ''authorization'', ''pat'',
      ''personal_access_token'', ''account_id'', ''accountid'', ''account_identifier'',
      ''account_identity'', ''chatgpt_account_id'', ''account-id'', ''account-identifier'',
      ''account-identity'', ''chatgpt-account-id'', ''client_secret'', ''credential'',
      ''password'', ''refresh_token'', ''secret'', ''token'']"

definition redact_runtime_diagnostic :: "string \<Rightarrow> string" where
  "redact_runtime_diagnostic input =
     (let redacted = join_words '' ''
            (map redact_diagnostic_token
               (split_whitespace (redact_standalone_bearer (redact_authorization_headers input))));
          redacted = foldl redact_key_value redacted sensitive_keys;
          pre = take_chars 512 redacted
      in if 512 < length (lead_bytes redacted) then pre @ ''...'' else pre)"

end
