(* ===== verification/Parent_Records.thy ===== *)
theory Parent_Records
  imports Leases Runs Redaction Workspace_Path
begin

text \<open>
  The data of \<open>opensymphony-orchestrator/src/parent_integration.rs\<close>: the states of a parent's
  integration, its transition log, verification attempts with their command, resource and
  cleanup receipts, repair attempts with their ledger of provider operations, and the
  controller that holds them; with the pure functions on them.
\<close>

section \<open>States and the transition log\<close>

datatype parent_state =
    PsWaitingForChildren
  | PsWaitingForChildMerges
  | PsAcquiringChildLeases
  | PsPreparingIntegrationWorkspace
  | PsRefreshingRepositories
  | PsIntegrating
  | is_fixing: PsFixing canonical_repository_id u64
  | is_awaiting_review: PsAwaitingFixReview canonical_repository_id u64 string
  | is_awaiting_merge: PsAwaitingFixMerge canonical_repository_id u64 string
  | PsRefreshingAfterFixes
  | PsFinalVerification
  | PsFinalizing
  | PsCompleted
  | is_blocked: PsBlocked string
  | PsFailed string
  | PsCanceled string

fun parent_state_terminal :: "parent_state \<Rightarrow> bool" where
  "parent_state_terminal PsCompleted = True"
| "parent_state_terminal (PsFailed _) = True"
| "parent_state_terminal (PsCanceled _) = True"
| "parent_state_terminal _ = False"

datatype parent_retry_classification =
    PrNone | PrRetryable | PrCleanupThenRetry | PrOperatorAction | PrTerminal

record parent_side_effect_intent =
  si_kind :: string
  si_idempotency_key :: string

record parent_side_effect_receipt =
  sr_status :: string
  sr_detail :: "string option"

definition intent :: "string \<Rightarrow> string \<Rightarrow> parent_side_effect_intent" where
  "intent kind key = \<lparr>si_kind = kind, si_idempotency_key = key\<rparr>"

definition receipt :: "string \<Rightarrow> string option \<Rightarrow> parent_side_effect_receipt" where
  "receipt st detail = \<lparr>sr_status = st, sr_detail = detail\<rparr>"

record parent_transition =
  pt_state_version :: u64
  pt_previous :: parent_state
  pt_next :: parent_state
  pt_reason :: string
  pt_idempotency_key :: string
  pt_input_version :: string
  pt_side_effect_intent :: "parent_side_effect_intent option"
  pt_result_receipt :: "parent_side_effect_receipt option"
  pt_retry_classification :: parent_retry_classification
  pt_occurred_at :: timestamp_ms

section \<open>Verification attempts\<close>

datatype parent_attempt_root = ParentRoot | CheckoutHandle string

datatype parent_attempt_status =
    PaRunning | PaPassed | PaFailed | PaTimedOut | PaCanceled | PaIndeterminate

definition attempt_terminal :: "parent_attempt_status \<Rightarrow> bool" where
  "attempt_terminal s \<longleftrightarrow> s \<noteq> PaRunning"

definition attempt_passed :: "parent_attempt_status \<Rightarrow> bool" where
  "attempt_passed s \<longleftrightarrow> s = PaPassed"

datatype parent_resource_status = RsAllocated | RsReleased | RsCollision | RsCleanupFailed

record parent_resource_receipt =
  rr_kind :: string
  rr_identifier :: string
  rr_status :: parent_resource_status
  rr_occurred_at :: timestamp_ms
  rr_detail :: "string option"

datatype parent_cleanup_status = CsPending | CsSucceeded | CsFailed

record parent_cleanup_receipt =
  cr_status :: parent_cleanup_status
  cr_occurred_at :: timestamp_ms
  cr_detail :: "string option"

record parent_command_receipt =
  cc_command_id :: string
  cc_command :: string
  cc_command_hash :: string
  cc_root :: parent_attempt_root
  cc_started_at :: timestamp_ms
  cc_finished_at :: "timestamp_ms option"
  cc_exit_code :: "32 word option"

record parent_attempt =
  va_id :: string
  va_name :: string
  va_idempotency_key :: string
  va_root :: parent_attempt_root
  va_conversation_id :: "string option"
  va_started_at :: timestamp_ms
  va_finished_at :: "timestamp_ms option"
  va_timeout_ms :: u64
  va_status :: parent_attempt_status
  va_commands :: "parent_command_receipt list"
  va_exit_code :: "32 word option"
  va_bounded_log :: string
  va_log_truncated :: bool
  va_resources :: "parent_resource_receipt list"
  va_cleanup :: "parent_cleanup_receipt option"
  va_harness_stopped_at :: "timestamp_ms option"
  va_input_version :: string
  va_verified_repository_commits :: "(canonical_repository_id, string) omap"

section \<open>Targets and repairs\<close>

record parent_repair_policy =
  po_review_profile :: string
  po_review_provider :: string
  po_review_policy_generation :: string
  po_required_checks :: bool
  po_required_review :: bool
  po_merge_method :: string

definition repair_policy_default :: parent_repair_policy where
  "repair_policy_default =
     \<lparr>po_review_profile = ''legacy-default'', po_review_provider = ''github'',
      po_review_policy_generation = ''schema-1-default'', po_required_checks = True,
      po_required_review = True, po_merge_method = ''merge''\<rparr>"

record parent_repository_target =
  tg_repository_id :: canonical_repository_id
  tg_checkout_handle :: string
  tg_relative_path :: path
  tg_target_branch :: string
  tg_target_commit :: string
  tg_instruction_path :: path
  tg_instruction_hash :: string
  tg_repair_policy :: parent_repair_policy

datatype parent_repair_status =
    RpPreparingBranch | RpImplementing | RpAwaitingPullRequest | RpAwaitingReview
  | RpChangesRequested | RpAwaitingMerge | RpRefreshing | RpCompleted | RpFailedChecks
  | RpReviewRejected | RpReviewBudgetExhausted | RpProviderUnavailable | RpExternallyClosed
  | RpForcePushed | RpMergeConflict

definition resumable :: "parent_repair_status \<Rightarrow> bool" where
  "resumable s \<longleftrightarrow> s \<noteq> RpCompleted"

datatype parent_operation_kind =
    ReconcileBranch | CreateBranch | ReconcilePush | Push | ReconcilePullRequest
  | CreatePullRequest | ReconcileReview | RequestReview | ReconcileMerge | Merge | RefreshTarget

fun prerequisite :: "parent_operation_kind \<Rightarrow> parent_operation_kind option" where
  "prerequisite CreateBranch = Some ReconcileBranch"
| "prerequisite Push = Some ReconcilePush"
| "prerequisite CreatePullRequest = Some ReconcilePullRequest"
| "prerequisite RequestReview = Some ReconcileReview"
| "prerequisite Merge = Some ReconcileMerge"
| "prerequisite _ = None"

text \<open>The derived \<open>Debug\<close> form.\<close>

fun operation_kind_name :: "parent_operation_kind \<Rightarrow> string" where
  "operation_kind_name ReconcileBranch = ''ReconcileBranch''"
| "operation_kind_name CreateBranch = ''CreateBranch''"
| "operation_kind_name ReconcilePush = ''ReconcilePush''"
| "operation_kind_name Push = ''Push''"
| "operation_kind_name ReconcilePullRequest = ''ReconcilePullRequest''"
| "operation_kind_name CreatePullRequest = ''CreatePullRequest''"
| "operation_kind_name ReconcileReview = ''ReconcileReview''"
| "operation_kind_name RequestReview = ''RequestReview''"
| "operation_kind_name ReconcileMerge = ''ReconcileMerge''"
| "operation_kind_name Merge = ''Merge''"
| "operation_kind_name RefreshTarget = ''RefreshTarget''"

record parent_operation =
  op_kind :: parent_operation_kind
  op_idempotency_key :: string
  op_input_version :: string
  op_intended_at :: timestamp_ms
  op_receipt :: "parent_side_effect_receipt option"
  op_completed_at :: "timestamp_ms option"

record parent_review_feedback =
  rf_thread_id :: string
  rf_body :: string
  rf_path :: "string option"
  rf_line :: "u64 option"

record parent_advancement_failure =
  af_occurred_at :: timestamp_ms
  af_detail :: string

record parent_repair_attempt =
  rp_id :: string
  rp_number :: u64
  rp_repository_id :: canonical_repository_id
  rp_checkout_handle :: string
  rp_target_branch :: string
  rp_target_commit :: string
  rp_instruction_path :: path
  rp_instruction_hash :: string
  rp_branch :: string
  rp_lease_id :: string
  rp_policy :: parent_repair_policy
  rp_implementation_completed :: bool
  rp_last_advancement_failure :: "parent_advancement_failure option"
  rp_status :: parent_repair_status
  rp_created_at :: timestamp_ms
  rp_pushed_commit :: "string option"
  rp_pull_request_id :: "string option"
  rp_pull_request_url :: "string option"
  rp_merge_result_commit :: "string option"
  rp_refreshed_target_commit :: "string option"
  rp_requested_change_count :: u32
  rp_review_feedback :: "parent_review_feedback list"
  rp_operations :: "parent_operation list"

record parent_provider_snapshot =
  sn_pull_request_id :: "string option"
  sn_pull_request_url :: "string option"
  sn_head_commit :: "string option"
  sn_review_head_commit :: "string option"
  sn_review_request_cursor :: "string option"
  sn_open :: bool
  sn_checks_passed :: bool
  sn_checks_failed :: bool
  sn_review_approved :: bool
  sn_review_rejected :: bool
  sn_changes_requested :: bool
  sn_review_feedback :: "parent_review_feedback list"
  sn_mergeable :: bool
  sn_merge_conflict :: bool
  sn_merged :: bool
  sn_merge_result_commit :: "string option"
  sn_target_contains_merge_result :: bool
  sn_provider_available :: bool

section \<open>Final evidence and subtree cleanup\<close>

record parent_final_evidence =
  fe_attempt_id :: string
  fe_conversation_id :: string
  fe_input_version :: string
  fe_repository_commits :: "(canonical_repository_id, string) omap"
  fe_recorded_at :: timestamp_ms

datatype cleanup_terminal_outcome = CleanupSucceeded | CleanupFailedOutcome | CleanupCanceled

text \<open>\<open>CleanupTarget\<close> of \<open>opensymphony-workspace/src/models.rs\<close>; its \<open>workspace\<close> is a record of
  the domain.\<close>

record cleanup_target =
  ct_issue_id :: string
  ct_identifier :: string
  ct_workspace :: workspace_record
  ct_generation :: string
  ct_outcome :: cleanup_terminal_outcome

datatype parent_subtree_cleanup_status =
    SubtreePending | SubtreeRemoving | SubtreeRetained | SubtreeCompleted

record parent_subtree_cleanup_target =
  sct_resource :: "lease_resource option"
  sct_cleanup :: cleanup_target
  sct_prepared_at :: "timestamp_ms option"
  sct_cleaned_at :: "timestamp_ms option"

record parent_subtree_cleanup_intent =
  sc_hierarchy_generation :: u64
  sc_capture_acknowledged_at :: timestamp_ms
  sc_requested_at :: timestamp_ms
  sc_outcome :: cleanup_terminal_outcome
  sc_status :: parent_subtree_cleanup_status
  sc_parent_root :: parent_subtree_cleanup_target
  sc_descendants :: "parent_subtree_cleanup_target list"
  sc_retry_count :: u32
  sc_last_error :: "string option"

section \<open>The controller\<close>

record parent_controller =
  pc_parent_id :: issue_id
  pc_hierarchy_generation :: u64
  pc_state_version :: u64
  pc_state :: parent_state
  pc_admission_input_version :: "string option"
  pc_next_attempt_sequence :: u64
  pc_next_repair_sequence :: u64
  pc_transitions :: "parent_transition list"
  pc_targets :: "(canonical_repository_id, parent_repository_target) omap"
  pc_conversation_id :: "string option"
  pc_attempts :: "parent_attempt list"
  pc_repair_attempts :: "parent_repair_attempt list"
  pc_final_evidence :: "parent_final_evidence option"
  pc_subtree_cleanup :: "parent_subtree_cleanup_intent option"

datatype parent_error =
    InvalidGeneration
  | PeInvalidTransition parent_state parent_state
  | IdempotencyConflict string
  | ConversationMismatch string string
  | UnknownCheckoutHandle string
  | UnknownAttempt string
  | UnknownRepairAttempt string
  | UnknownRepairRepository string
  | RepairTargetMismatch string
  | ProviderReconciliationRequired parent_operation_kind parent_operation_kind
  | AttemptAlreadyTerminal string
  | AttemptNotReady string
  | ResourceCollision string string
  | FinalVerificationIncomplete
  | InvalidVerificationEvidence string

definition parent_controller_new :: "issue_id \<Rightarrow> u64 \<Rightarrow> parent_error + parent_controller" where
  "parent_controller_new parent_id generation =
     (if generation = 0 then Err InvalidGeneration
      else Ok \<lparr>pc_parent_id = parent_id, pc_hierarchy_generation = generation,
               pc_state_version = 0, pc_state = PsWaitingForChildren,
               pc_admission_input_version = None, pc_next_attempt_sequence = 0,
               pc_next_repair_sequence = 0, pc_transitions = [], pc_targets = [],
               pc_conversation_id = None, pc_attempts = [], pc_repair_attempts = [],
               pc_final_evidence = None, pc_subtree_cleanup = None\<rparr>)"

section \<open>Resources of an attempt\<close>

definition active_resource_keys :: "parent_attempt \<Rightarrow> (string \<times> string) list" where
  "active_resource_keys a =
     (let latest = foldl (\<lambda>m r. if rr_status r \<noteq> RsCollision
                               then omap_insert (rr_kind r, rr_identifier r) (rr_status r) m else m)
                     [] (va_resources a)
      in omap_keys (filter (\<lambda>(key, st). st = RsAllocated \<or> st = RsCleanupFailed) latest))"

definition cleanup_succeeded :: "parent_attempt \<Rightarrow> bool" where
  "cleanup_succeeded a \<longleftrightarrow> is_some_and (\<lambda>c. cr_status c = CsSucceeded) (va_cleanup a)"

definition cleanup_complete :: "parent_controller \<Rightarrow> bool" where
  "cleanup_complete s \<longleftrightarrow>
     list_all (\<lambda>a. va_status a \<noteq> PaRunning \<and> cleanup_succeeded a \<and> active_resource_keys a = [])
       (pc_attempts s)"

section \<open>The transition relation\<close>

definition allowed_transition :: "parent_state \<Rightarrow> parent_state \<Rightarrow> bool" where
  "allowed_transition a b \<longleftrightarrow>
     (case b of
        PsBlocked _ \<Rightarrow> True
      | PsFailed _ \<Rightarrow> True
      | PsCanceled _ \<Rightarrow> True
      | PsWaitingForChildren \<Rightarrow> False
      | PsWaitingForChildMerges \<Rightarrow> a = PsWaitingForChildren
      | PsAcquiringChildLeases \<Rightarrow> a = PsWaitingForChildMerges
      | PsPreparingIntegrationWorkspace \<Rightarrow> a = PsAcquiringChildLeases
      | PsRefreshingRepositories \<Rightarrow>
          a = PsPreparingIntegrationWorkspace \<or> a = PsIntegrating \<or> is_blocked a
      | PsIntegrating \<Rightarrow>
          a = PsRefreshingRepositories \<or> a = PsRefreshingAfterFixes \<or> a = PsFinalVerification
      | PsFixing _ _ \<Rightarrow> a = PsIntegrating \<or> is_awaiting_review a \<or> is_awaiting_merge a \<or> is_blocked a
      | PsAwaitingFixReview _ _ _ \<Rightarrow> is_fixing a \<or> is_awaiting_merge a \<or> is_blocked a
      | PsAwaitingFixMerge _ _ _ \<Rightarrow> is_awaiting_review a \<or> is_blocked a
      | PsRefreshingAfterFixes \<Rightarrow> is_awaiting_review a \<or> is_awaiting_merge a \<or> is_blocked a
      | PsFinalVerification \<Rightarrow> a = PsIntegrating
      | PsFinalizing \<Rightarrow> a = PsFinalVerification
      | PsCompleted \<Rightarrow> a = PsFinalizing) \<and>
     \<not> parent_state_terminal a"

text \<open>\<open>sha256_hex\<close> is the lower-case hex digest of the crate \<open>sha2\<close>.\<close>

definition parent_command_identity :: "(string \<Rightarrow> string) \<Rightarrow> string \<Rightarrow> string" where
  "parent_command_identity sha256_hex command = ''sha256:'' @ sha256_hex command"

end
