(* ===== verification/Parent_Integration.thy ===== *)
theory Parent_Integration
  imports Parent_Records
begin

text \<open>
  The methods of \<open>ParentIntegrationController\<close> (\<open>opensymphony-orchestrator/src/parent_integration.rs\<close>).
  A method that takes \<open>&mut self\<close> and returns a \<open>Result\<close> is a function to the result and the
  controller it leaves behind, on an error too: several methods change the controller before
  the step that fails. \<open>try_step\<close> is the operator \<open>?\<close>.
\<close>

type_synonym 'a outcome = "(parent_error + 'a) \<times> parent_controller"

definition try_step :: "'a outcome \<Rightarrow> ('a \<Rightarrow> parent_controller \<Rightarrow> 'b outcome) \<Rightarrow> 'b outcome" where
  "try_step r k = (case r of (Err e, s) \<Rightarrow> (Err e, s) | (Ok x, s) \<Rightarrow> k x s)"

definition done_with :: "'a outcome \<Rightarrow> unit outcome" where
  "done_with r = try_step r (\<lambda>_ s. (Ok (), s))"

lemma try_step_simps [simp]:
  "try_step (Err e, s) k = (Err e, s)" "try_step (Ok x, s) k = k x s"
  by (simp_all add: try_step_def)

lemma done_with_simps [simp]:
  "done_with (Err e, s) = (Err e, s)" "done_with (Ok x, s) = (Ok (), s)"
  by (simp_all add: done_with_def)

section \<open>Lists addressed by an identifier\<close>

fun update_first :: "('a \<Rightarrow> bool) \<Rightarrow> ('a \<Rightarrow> 'a) \<Rightarrow> 'a list \<Rightarrow> 'a list" where
  "update_first p f [] = []"
| "update_first p f (x # xs) = (if p x then f x # xs else x # update_first p f xs)"

fun remove_first :: "('a \<Rightarrow> bool) \<Rightarrow> 'a list \<Rightarrow> 'a list option" where
  "remove_first p [] = None"
| "remove_first p (x # xs) = (if p x then Some xs else map_option (Cons x) (remove_first p xs))"

text \<open>Updating the last element \<open>rposition\<close> finds.\<close>

definition update_last :: "('a \<Rightarrow> bool) \<Rightarrow> ('a \<Rightarrow> 'a) \<Rightarrow> 'a list \<Rightarrow> 'a list" where
  "update_last p f xs = rev (update_first p f (rev xs))"

definition rfind :: "('a \<Rightarrow> bool) \<Rightarrow> 'a list \<Rightarrow> 'a option" where
  "rfind p xs = find p (rev xs)"

definition attempt_named :: "string \<Rightarrow> parent_controller \<Rightarrow> parent_error + parent_attempt" where
  "attempt_named i s =
     (case find (\<lambda>a. va_id a = i) (pc_attempts s) of
        Some a \<Rightarrow> Ok a
      | None \<Rightarrow> Err (UnknownAttempt i))"

definition set_attempt ::
  "string \<Rightarrow> (parent_attempt \<Rightarrow> parent_attempt) \<Rightarrow> parent_controller \<Rightarrow> parent_controller" where
  "set_attempt i f s = s\<lparr>pc_attempts := update_first (\<lambda>a. va_id a = i) f (pc_attempts s)\<rparr>"

definition repair_named :: "string \<Rightarrow> parent_controller \<Rightarrow> parent_error + parent_repair_attempt" where
  "repair_named i s =
     (case find (\<lambda>r. rp_id r = i) (pc_repair_attempts s) of
        Some r \<Rightarrow> Ok r
      | None \<Rightarrow> Err (UnknownRepairAttempt i))"

definition set_repair ::
  "string \<Rightarrow> (parent_repair_attempt \<Rightarrow> parent_repair_attempt) \<Rightarrow> parent_controller \<Rightarrow> parent_controller" where
  "set_repair i f s =
     s\<lparr>pc_repair_attempts := update_first (\<lambda>r. rp_id r = i) f (pc_repair_attempts s)\<rparr>"

definition set_repair_status :: "string \<Rightarrow> parent_repair_status \<Rightarrow> parent_controller \<Rightarrow> parent_controller" where
  "set_repair_status i st = set_repair i (\<lambda>r. r\<lparr>rp_status := st\<rparr>)"

definition show_u64 :: "u64 \<Rightarrow> string" where "show_u64 n = show_nat (unat n)"

definition parent_key :: "parent_controller \<Rightarrow> string \<Rightarrow> string" where
  "parent_key s what =
     ''parent:'' @ issue_id_str (pc_parent_id s) @ '':'' @ show_u64 (pc_hierarchy_generation s) @ '':'' @ what"

definition target_commits :: "parent_controller \<Rightarrow> (canonical_repository_id, string) omap" where
  "target_commits s = map (\<lambda>(r, t). (r, tg_target_commit t)) (pc_targets s)"

section \<open>Transitions\<close>

definition max_transitions :: nat where "max_transitions = 256"

definition transition ::
  "parent_state \<Rightarrow> string \<Rightarrow> string \<Rightarrow> string \<Rightarrow> parent_side_effect_intent option \<Rightarrow>
   parent_side_effect_receipt option \<Rightarrow> parent_retry_classification \<Rightarrow> timestamp_ms \<Rightarrow>
   parent_controller \<Rightarrow> bool outcome" where
  "transition next reason key input side_effect rcpt classification t s =
     (case find (\<lambda>x. pt_idempotency_key x = key) (pc_transitions s) of
        Some existing \<Rightarrow>
          (if pt_next existing = next \<and> pt_reason existing = reason \<and> pt_input_version existing = input \<and>
              pt_side_effect_intent existing = side_effect \<and> pt_result_receipt existing = rcpt \<and>
              pt_retry_classification existing = classification
           then Ok False else Err (IdempotencyConflict key), s)
      | None \<Rightarrow>
          if \<not> allowed_transition (pc_state s) next
          then (Err (PeInvalidTransition (pc_state s) next), s)
          else
            let version = saturating_add (pc_state_version s) 1;
                entry = \<lparr>pt_state_version = version, pt_previous = pc_state s, pt_next = next,
                         pt_reason = reason, pt_idempotency_key = key, pt_input_version = input,
                         pt_side_effect_intent = side_effect, pt_result_receipt = rcpt,
                         pt_retry_classification = classification, pt_occurred_at = t\<rparr>;
                log = pc_transitions s @ [entry];
                log = (if max_transitions < length log then tl log else log)
            in (Ok True, s\<lparr>pc_state_version := version, pc_state := next, pc_transitions := log\<rparr>))"

section \<open>Admission and baselines\<close>

definition admit_transitions :: "string \<Rightarrow> timestamp_ms \<Rightarrow> parent_controller \<Rightarrow> bool outcome" where
  "admit_transitions input t s =
     try_step
       (transition PsWaitingForChildMerges ''required children reached terminal orchestrator outcomes''
          (parent_key s ''children'') input None (Some (receipt ''verified'' None)) PrRetryable t s)
       (\<lambda>_ s. try_step
         (transition PsAcquiringChildLeases ''provider merge evidence is complete''
            (parent_key s ''merges'') input None (Some (receipt ''verified'' None)) PrRetryable t s)
         (\<lambda>_ s.
           transition PsPreparingIntegrationWorkspace ''generation-bound descendant leases were acquired''
             (parent_key s ''leases'') input
             (Some (intent ''acquire_descendant_leases'' (parent_key s ''leases'')))
             (Some (receipt ''succeeded'' None)) PrRetryable t s))"

definition admit :: "string \<Rightarrow> timestamp_ms \<Rightarrow> parent_controller \<Rightarrow> unit outcome" where
  "admit input t s =
     (case pc_admission_input_version s of
        Some admitted \<Rightarrow>
          (if admitted = input then Ok () else Err (IdempotencyConflict (parent_key s ''admission'')), s)
      | None \<Rightarrow>
          (case admit_transitions input t s of
             (Err e, _) \<Rightarrow> (Err e, s)
           | (Ok _, s') \<Rightarrow> (Ok (), s'\<lparr>pc_admission_input_version := Some input\<rparr>)))"

definition record_baseline_verified :: "string \<Rightarrow> timestamp_ms \<Rightarrow> parent_controller \<Rightarrow> unit outcome" where
  "record_baseline_verified input t s =
     (if \<not> cleanup_complete s then (Err (AttemptNotReady ''baseline-refresh''), s)
      else
        let cycle = (if pc_attempts s = [] then ''initial'' else va_id (last (pc_attempts s)));
            key = parent_key s (''refresh:'' @ cycle @ '':'' @ input)
        in done_with (transition PsIntegrating
             ''all parent integration checkouts retain their recorded target commits as verified baselines''
             key input (Some (intent ''refresh_verified_baseline'' key)) (Some (receipt ''succeeded'' None))
             PrRetryable t s))"

definition record_workspace_prepared ::
  "parent_repository_target list \<Rightarrow> string \<Rightarrow> timestamp_ms \<Rightarrow> parent_controller \<Rightarrow> unit outcome" where
  "record_workspace_prepared targets input t s =
     (let s = s\<lparr>pc_targets := foldl (\<lambda>m x. omap_insert (tg_repository_id x) x m) [] targets\<rparr>
      in if pc_state s = PsPreparingIntegrationWorkspace
         then try_step
                (transition PsRefreshingRepositories
                   ''parent integration root and checkout map were verified'' (parent_key s ''workspace'') input
                   (Some (intent ''prepare_parent_workspace'' (parent_key s ''workspace'')))
                   (Some (receipt ''succeeded'' None)) PrRetryable t s)
                (\<lambda>_ s. record_baseline_verified input t s)
         else record_baseline_verified input t s)"

definition migrate_legacy_repair_target ::
  "parent_repository_target \<Rightarrow> parent_controller \<Rightarrow> bool outcome" where
  "migrate_legacy_repair_target current s =
     (let repo = tg_repository_id current in
      case omap_get (pc_targets s) repo of
        None \<Rightarrow> (Err (UnknownRepairRepository (repository_id_str repo)), s)
      | Some existing \<Rightarrow>
          if \<not> (tg_target_branch existing = [] \<and> tg_repair_policy existing = repair_policy_default)
          then (Ok False, s)
          else if tg_checkout_handle existing \<noteq> tg_checkout_handle current \<or>
                  tg_relative_path existing \<noteq> tg_relative_path current \<or>
                  tg_target_commit existing \<noteq> tg_target_commit current \<or>
                  tg_instruction_path existing \<noteq> [] \<and>
                    tg_instruction_path existing \<noteq> tg_instruction_path current \<or>
                  tg_instruction_hash existing \<noteq> [] \<and>
                    tg_instruction_hash existing \<noteq> tg_instruction_hash current
          then (Err (RepairTargetMismatch (repository_id_str repo)), s)
          else (Ok True, s\<lparr>pc_targets := omap_insert repo current (pc_targets s)\<rparr>))"

section \<open>Verification attempts\<close>

definition max_attempts :: nat where "max_attempts = 64"
definition max_log_bytes :: nat where "max_log_bytes = 16 * 1024"
definition max_command_bytes :: nat where "max_command_bytes = 4 * 1024"
definition max_command_id_bytes :: nat where "max_command_id_bytes = 256"
definition max_repair_failure_bytes :: nat where "max_repair_failure_bytes = 4 * 1024"
definition max_resource_receipts :: nat where "max_resource_receipts = 64"
definition max_command_receipts :: nat where "max_command_receipts = max_resource_receipts div 2"

text \<open>Room for a new attempt: the first terminal one is dropped at the bound.\<close>

definition make_attempt_room :: "parent_attempt list \<Rightarrow> parent_error + parent_attempt list" where
  "make_attempt_room attempts =
     (if length attempts < max_attempts then Ok attempts
      else case remove_first (\<lambda>a. attempt_terminal (va_status a)) attempts of
             Some attempts \<Rightarrow> Ok attempts
           | None \<Rightarrow> Err (InvalidVerificationEvidence
               ''nonterminal parent attempt receipts exceed their bound''))"

definition start_attempt_intent ::
  "string \<Rightarrow> string \<Rightarrow> parent_attempt_root \<Rightarrow> u64 \<Rightarrow> string \<Rightarrow> timestamp_ms \<Rightarrow>
   parent_controller \<Rightarrow> string outcome" where
  "start_attempt_intent name key root timeout input started s =
     (case find (\<lambda>a. va_idempotency_key a = key) (pc_attempts s) of
        Some existing \<Rightarrow>
          (if va_name existing = name \<and> va_root existing = root \<and> va_timeout_ms existing = timeout \<and>
              va_input_version existing = input
           then Ok (va_id existing) else Err (IdempotencyConflict key), s)
      | None \<Rightarrow>
          if \<not> (pc_state s = PsIntegrating \<or> pc_state s = PsFinalVerification \<or> is_fixing (pc_state s)) \<or>
             \<not> cleanup_complete s
          then (Err (AttemptNotReady name), s)
          else
            (case (case root of
                     ParentRoot \<Rightarrow> None
                   | CheckoutHandle h \<Rightarrow>
                       if list_ex (\<lambda>t. tg_checkout_handle t = h) (omap_values (pc_targets s)) then None
                       else Some h) of
               Some h \<Rightarrow> (Err (UnknownCheckoutHandle h), s)
             | None \<Rightarrow>
                 (case make_attempt_room (pc_attempts s) of
                    Err e \<Rightarrow> (Err e, s)
                  | Ok attempts \<Rightarrow>
                      let n = saturating_add (pc_next_attempt_sequence s) 1;
                          i = ''parent-attempt-'' @ show_u64 n
                      in (Ok i, s\<lparr>pc_next_attempt_sequence := n,
                           pc_attempts := attempts @
                             [\<lparr>va_id = i, va_name = name, va_idempotency_key = key, va_root = root,
                               va_conversation_id = None, va_started_at = started, va_finished_at = None,
                               va_timeout_ms = timeout, va_status = PaRunning, va_commands = [],
                               va_exit_code = None, va_bounded_log = [], va_log_truncated = False,
                               va_resources = [], va_cleanup = None, va_harness_stopped_at = None,
                               va_input_version = input, va_verified_repository_commits = []\<rparr>]\<rparr>))))"

definition attach_attempt_conversation ::
  "string \<Rightarrow> string \<Rightarrow> parent_controller \<Rightarrow> unit outcome" where
  "attach_attempt_conversation i conversation s =
     try_step
       (case pc_conversation_id s of
          Some expected \<Rightarrow>
            (if expected \<noteq> conversation then Err (ConversationMismatch expected conversation) else Ok (), s)
        | None \<Rightarrow> (Ok (), s\<lparr>pc_conversation_id := Some conversation\<rparr>))
       (\<lambda>_ s.
         case attempt_named i s of
           Err e \<Rightarrow> (Err e, s)
         | Ok a \<Rightarrow>
             (case va_conversation_id a of
                Some expected \<Rightarrow>
                  (if expected \<noteq> conversation then Err (ConversationMismatch expected conversation) else Ok (), s)
              | None \<Rightarrow> (Ok (), set_attempt i (\<lambda>a. a\<lparr>va_conversation_id := Some conversation\<rparr>) s)))"

definition start_attempt ::
  "string \<Rightarrow> string \<Rightarrow> parent_attempt_root \<Rightarrow> string \<Rightarrow> u64 \<Rightarrow> string \<Rightarrow> timestamp_ms \<Rightarrow>
   parent_controller \<Rightarrow> string outcome" where
  "start_attempt name key root conversation timeout input started s =
     try_step (start_attempt_intent name key root timeout input started s)
       (\<lambda>i s. try_step (attach_attempt_conversation i conversation s) (\<lambda>_ s. (Ok i, s)))"

text \<open>The command a piece of evidence names: the latest finished one with its hash and root.\<close>

definition evidence_command ::
  "parent_verification_evidence \<Rightarrow> parent_attempt \<Rightarrow> parent_command_receipt option" where
  "evidence_command ev a =
     rfind (\<lambda>c. pv_command_hash ev \<noteq> [] \<and> cc_command_hash c = pv_command_hash ev \<and>
               (case cc_root c of
                  ParentRoot \<Rightarrow> pv_root ev = ''parent_root''
                | CheckoutHandle h \<Rightarrow> pv_root ev = h) \<and>
               cc_finished_at c \<noteq> None \<and> cc_exit_code c \<noteq> None) (va_commands a)"

definition record_verification_evidence ::
  "string \<Rightarrow> parent_verification_evidence \<Rightarrow> parent_controller \<Rightarrow> bool outcome" where
  "record_verification_evidence i ev s =
     (if pv_schema_version ev \<noteq> 1
      then (Err (InvalidVerificationEvidence ''unsupported schema version''), s)
      else if pv_repository_commits ev \<noteq> target_commits s
      then (Err (InvalidVerificationEvidence
             ''repository commits do not match the current target map''), s)
      else case attempt_named i s of
             Err e \<Rightarrow> (Err e, s)
           | Ok a \<Rightarrow>
               let exit_code = Option.bind (evidence_command ev a) cc_exit_code in
               if pv_command_hash ev = [] \<or> exit_code = None
               then (Err (InvalidVerificationEvidence
                      ''selected command does not match a completed runtime command''), s)
               else
                 (Ok (exit_code = Some 0 \<and> cleanup_succeeded a \<and> active_resource_keys a = []),
                  set_attempt i (\<lambda>a. a\<lparr>va_exit_code := exit_code,
                    va_verified_repository_commits := pv_repository_commits ev\<rparr>) s))"

section \<open>Resources and logs\<close>

definition resource_taken :: "string \<Rightarrow> string \<Rightarrow> parent_controller \<Rightarrow> bool" where
  "resource_taken kind identifier s \<longleftrightarrow>
     list_ex (\<lambda>a. (kind, identifier) \<in> set (active_resource_keys a)) (pc_attempts s)"

definition push_resource :: "parent_resource_receipt \<Rightarrow> parent_attempt \<Rightarrow> parent_attempt" where
  "push_resource r a = a\<lparr>va_resources := va_resources a @ [r]\<rparr>"

definition allocate_resource ::
  "string \<Rightarrow> string \<Rightarrow> string \<Rightarrow> timestamp_ms \<Rightarrow> parent_controller \<Rightarrow> unit outcome" where
  "allocate_resource i kind identifier t s =
     (if resource_taken kind identifier s
      then case attempt_named i s of
             Err e \<Rightarrow> (Err e, s)
           | Ok a \<Rightarrow>
               (Err (ResourceCollision kind identifier),
                if length (va_resources a) < max_resource_receipts - 1
                then set_attempt i (push_resource
                       \<lparr>rr_kind = kind, rr_identifier = identifier, rr_status = RsCollision,
                        rr_occurred_at = t,
                        rr_detail = Some ''resource is owned by another parent attempt''\<rparr>) s
                else s)
      else case attempt_named i s of
             Err e \<Rightarrow> (Err e, s)
           | Ok a \<Rightarrow>
               if max_resource_receipts - 1 \<le> length (va_resources a)
               then (Err (InvalidVerificationEvidence
                      ''attempt resource receipts cannot reserve a teardown receipt''), s)
               else (Ok (), set_attempt i (push_resource
                      \<lparr>rr_kind = kind, rr_identifier = identifier, rr_status = RsAllocated,
                       rr_occurred_at = t, rr_detail = None\<rparr>) s))"

definition release_resource ::
  "string \<Rightarrow> string \<Rightarrow> string \<Rightarrow> bool \<Rightarrow> string option \<Rightarrow> timestamp_ms \<Rightarrow> parent_controller \<Rightarrow> unit outcome" where
  "release_resource i kind identifier succeeded detail t s =
     (case attempt_named i s of
        Err e \<Rightarrow> (Err e, s)
      | Ok a \<Rightarrow>
          if max_resource_receipts \<le> length (va_resources a)
          then (Err (InvalidVerificationEvidence ''attempt resource receipts exceed their bound''), s)
          else (Ok (), set_attempt i (push_resource
                 \<lparr>rr_kind = kind, rr_identifier = identifier,
                  rr_status = (if succeeded then RsReleased else RsCleanupFailed),
                  rr_occurred_at = t, rr_detail = detail\<rparr>) s))"

definition is_char_boundary :: "string \<Rightarrow> nat \<Rightarrow> bool" where
  "is_char_boundary s n \<longleftrightarrow> n = 0 \<or> n = length s \<or>
     n < length s \<and> \<not> (128 \<le> byte (s ! n) \<and> byte (s ! n) < 192)"

text \<open>The loop that lowers a cut to a character boundary.\<close>

fun floor_boundary :: "string \<Rightarrow> nat \<Rightarrow> nat" where
  "floor_boundary s 0 = 0"
| "floor_boundary s (Suc n) = (if is_char_boundary s (Suc n) then Suc n else floor_boundary s n)"

definition append_to_log :: "string \<Rightarrow> parent_attempt \<Rightarrow> parent_attempt" where
  "append_to_log text a =
     (if va_log_truncated a \<or> text = [] then a
      else
        let log = (if va_bounded_log a = [] then [] else va_bounded_log a @ ''\<newline>'');
            remaining = max_log_bytes - length log
        in if length text \<le> remaining then a\<lparr>va_bounded_log := log @ text\<rparr>
           else a\<lparr>va_bounded_log := log @ take (floor_boundary text (min remaining (length text))) text,
                  va_log_truncated := True\<rparr>)"

definition append_log :: "string \<Rightarrow> string \<Rightarrow> parent_controller \<Rightarrow> unit outcome" where
  "append_log i text s =
     (case attempt_named i s of
        Err e \<Rightarrow> (Err e, s)
      | Ok _ \<Rightarrow> (Ok (), set_attempt i (append_to_log text) s))"

section \<open>Commands\<close>

definition attempt_deadline :: "parent_attempt \<Rightarrow> timestamp_ms" where
  "attempt_deadline a = saturating_add (va_started_at a) (va_timeout_ms a)"

definition observe_command_started ::
  "(string \<Rightarrow> string) \<Rightarrow> string \<Rightarrow> string \<Rightarrow> string \<Rightarrow> parent_attempt_root \<Rightarrow> timestamp_ms \<Rightarrow>
   parent_controller \<Rightarrow> unit outcome" where
  "observe_command_started sha256_hex i command_id command root t s =
     (if trim command_id = [] \<or> trim command = [] then (Ok (), s)
      else if max_command_id_bytes < length command_id \<or> max_command_bytes < length command
      then (Err (InvalidVerificationEvidence ''foreground command identity exceeds its evidence bound''), s)
      else case attempt_named i s of
        Err e \<Rightarrow> (Err e, s)
      | Ok a \<Rightarrow>
          if t < va_started_at a then (Ok (), s)
          else
            let hash = parent_command_identity sha256_hex command;
                shown = redact_runtime_diagnostic command
            in if va_status a \<noteq> PaRunning then (Err (AttemptAlreadyTerminal i), s)
            else case find (\<lambda>c. cc_command_id c = command_id) (va_commands a) of
              Some existing \<Rightarrow>
                (if cc_command_hash existing = hash \<and> cc_root existing = root then Ok ()
                 else Err (InvalidVerificationEvidence
                   ''a command id was replayed with different command text''), s)
            | None \<Rightarrow>
                if attempt_deadline a \<le> t
                then (Err (InvalidVerificationEvidence
                       ''foreground command started after the attempt deadline''), s)
                else case rfind (\<lambda>c. cc_finished_at c = None) (va_commands a) of
                  Some active \<Rightarrow> (Err (ResourceCollision ''foreground_process'' (cc_command_id active)), s)
                | None \<Rightarrow>
                    if (''foreground_process'', command_id) \<in> set (active_resource_keys a)
                    then (Err (ResourceCollision ''foreground_process'' command_id), s)
                    else if max_command_receipts \<le> length (va_commands a)
                    then (Err (InvalidVerificationEvidence ''attempt command receipts exceed their bound''), s)
                    else if max_resource_receipts - 1 \<le> length (va_resources a)
                    then (Err (InvalidVerificationEvidence
                           ''attempt resource receipts cannot reserve a teardown receipt''), s)
                    else allocate_resource i ''foreground_process'' command_id t
                           (set_attempt i (\<lambda>a. a\<lparr>
                              va_commands := va_commands a @
                                [\<lparr>cc_command_id = command_id, cc_command = shown, cc_command_hash = hash,
                                  cc_root = root, cc_started_at = t, cc_finished_at = None,
                                  cc_exit_code = None\<rparr>],
                              va_exit_code := None,
                              va_cleanup := Some \<lparr>cr_status = CsPending, cr_occurred_at = t,
                                cr_detail = Some ''foreground command is running''\<rparr>\<rparr>) s))"

definition process_completed :: string where
  "process_completed = ''harness reported foreground process completion''"

definition observe_command_finished ::
  "string \<Rightarrow> string \<Rightarrow> 32 word \<Rightarrow> string option \<Rightarrow> timestamp_ms \<Rightarrow> parent_controller \<Rightarrow> unit outcome" where
  "observe_command_finished i command_id exit_code output t s =
     (case attempt_named i s of
        Err e \<Rightarrow> (Err e, s)
      | Ok a \<Rightarrow>
          if t < va_started_at a then (Ok (), s)
          else case rfind (\<lambda>c. cc_command_id c = command_id) (va_commands a) of
            None \<Rightarrow> (Ok (), s)
          | Some c \<Rightarrow>
              if t < cc_started_at c then (Ok (), s)
              else case cc_finished_at c of
                Some finished \<Rightarrow>
                  (if cc_exit_code c = Some exit_code then Ok ()
                   else Err (InvalidVerificationEvidence
                     (''command '' @ command_id @ '' completion replay changed its exit code after TimestampMs('' @
                      show_u64 finished @ '')'')), s)
              | None \<Rightarrow>
                  if attempt_deadline a \<le> t
                  then (Err (InvalidVerificationEvidence
                         ''foreground command completed after the attempt deadline''), s)
                  else
                    let s = set_attempt i (\<lambda>a. a\<lparr>
                              va_commands := update_last (\<lambda>c. cc_command_id c = command_id)
                                (\<lambda>c. c\<lparr>cc_finished_at := Some t, cc_exit_code := Some exit_code\<rparr>) (va_commands a),
                              va_exit_code := Some exit_code,
                              va_cleanup := Some \<lparr>cr_status = CsSucceeded, cr_occurred_at = t,
                                cr_detail = Some process_completed\<rparr>\<rparr>) s
                    in try_step (case output of None \<Rightarrow> (Ok (), s) | Some text \<Rightarrow> append_log i text s)
                         (\<lambda>_ s. release_resource i ''foreground_process'' command_id True
                                  (Some process_completed) t s))"

fun release_processes ::
  "string \<Rightarrow> string list \<Rightarrow> string \<Rightarrow> timestamp_ms \<Rightarrow> parent_controller \<Rightarrow> unit outcome" where
  "release_processes i [] detail t s = (Ok (), s)"
| "release_processes i (p # ps) detail t s =
     try_step (release_resource i ''foreground_process'' p True (Some detail) t s)
       (\<lambda>_ s. release_processes i ps detail t s)"

definition observe_harness_stopped ::
  "string \<Rightarrow> string \<Rightarrow> timestamp_ms \<Rightarrow> parent_controller \<Rightarrow> unit outcome" where
  "observe_harness_stopped i detail t s =
     (case attempt_named i s of
        Err e \<Rightarrow> (Err e, s)
      | Ok a \<Rightarrow>
          try_step
            (release_processes i
               (map snd (filter (\<lambda>(k, _). k = ''foreground_process'') (active_resource_keys a))) detail t s)
            (\<lambda>_ s.
              case attempt_named i s of
                Err e \<Rightarrow> (Err e, s)
              | Ok a \<Rightarrow>
                  let remaining = active_resource_keys a
                  in (Ok (), set_attempt i (\<lambda>a. a\<lparr>va_harness_stopped_at := Some t,
                       va_cleanup := Some
                         \<lparr>cr_status = (if remaining = [] then CsSucceeded else CsPending), cr_occurred_at = t,
                          cr_detail = Some (if remaining = [] then detail
                            else detail @ ''; '' @ show_nat (length remaining) @
                                 '' non-process resource(s) still require cleanup'')\<rparr>\<rparr>) s)))"

section \<open>Finishing and retrying\<close>

definition finish_attempt ::
  "string \<Rightarrow> parent_attempt_status \<Rightarrow> 32 word option \<Rightarrow> parent_cleanup_receipt \<Rightarrow> timestamp_ms \<Rightarrow>
   parent_controller \<Rightarrow> unit outcome" where
  "finish_attempt i st exit_code cleanup t s =
     (if \<not> attempt_terminal st then (Err (AttemptAlreadyTerminal i), s)
      else case attempt_named i s of
             Err e \<Rightarrow> (Err e, s)
           | Ok a \<Rightarrow>
               if attempt_terminal (va_status a) then (Err (AttemptAlreadyTerminal i), s)
               else (Ok (), set_attempt i (\<lambda>a. a\<lparr>va_status := st, va_exit_code := exit_code,
                      va_finished_at := Some t, va_cleanup := Some cleanup\<rparr>) s))"

fun cleanup_status_name :: "parent_cleanup_status \<Rightarrow> string" where
  "cleanup_status_name CsSucceeded = ''succeeded''"
| "cleanup_status_name CsPending = ''pending''"
| "cleanup_status_name CsFailed = ''failed''"

definition prepare_retry :: "string \<Rightarrow> string \<Rightarrow> timestamp_ms \<Rightarrow> parent_controller \<Rightarrow> unit outcome" where
  "prepare_retry i reason t s =
     (case attempt_named i s of
        Err e \<Rightarrow> (Err e, s)
      | Ok a \<Rightarrow>
          let key = va_idempotency_key a @ '':retry''
          in done_with (transition PsRefreshingRepositories reason key (va_input_version a)
               (Some (intent ''cleanup_and_refresh'' key))
               (map_option (\<lambda>c. receipt (cleanup_status_name (cr_status c)) (cr_detail c)) (va_cleanup a))
               (if attempt_passed (va_status a) then PrRetryable else PrCleanupThenRetry) t s))"

definition repair_implementation_in_progress :: "parent_controller \<Rightarrow> bool" where
  "repair_implementation_in_progress s \<longleftrightarrow> is_fixing (pc_state s) \<and>
     list_ex (\<lambda>r. (rp_status r = RpImplementing \<or> rp_status r = RpChangesRequested) \<and>
                  \<not> rp_implementation_completed r) (pc_repair_attempts s)"

definition is_running :: "parent_attempt \<Rightarrow> bool" where "is_running a \<longleftrightarrow> va_status a = PaRunning"

text \<open>The running attempt, the last one of them, is given up by position: \<open>update_last\<close>.\<close>

definition abandon_running ::
  "(parent_attempt \<Rightarrow> parent_attempt) \<Rightarrow> string \<Rightarrow> timestamp_ms \<Rightarrow> parent_attempt \<Rightarrow> parent_controller \<Rightarrow>
   unit outcome" where
  "abandon_running f reason t a s =
     (let s = s\<lparr>pc_attempts := update_last is_running f (pc_attempts s)\<rparr>
      in if repair_implementation_in_progress s then (Ok (), s)
         else prepare_retry (va_id a) reason t s)"

definition reconcile_restart :: "bool \<Rightarrow> timestamp_ms \<Rightarrow> parent_controller \<Rightarrow> unit outcome" where
  "reconcile_restart harness_reconciled t s =
     (case rfind is_running (pc_attempts s) of
        None \<Rightarrow> (Ok (), s)
      | Some a \<Rightarrow>
          if harness_reconciled then (Ok (), s)
          else
            let never = va_conversation_id a = None \<and> va_commands a = [] \<and> active_resource_keys a = []
            in abandon_running
                 (\<lambda>a. a\<lparr>va_status := PaIndeterminate, va_finished_at := Some t,
                   va_cleanup := Some
                     \<lparr>cr_status = (if never then CsSucceeded else CsPending), cr_occurred_at = t,
                      cr_detail = Some (if never
                        then ''attempt intent persisted before worker launch; no conversation, command, or resource was attached''
                        else ''harness state and attempt-owned teardown were unavailable after restart'')\<rparr>\<rparr>)
                 ''nonterminal parent attempt became indeterminate after restart'' t a s)"

definition reconcile_terminal_run_after_restart ::
  "timestamp_ms \<Rightarrow> parent_controller \<Rightarrow> unit outcome" where
  "reconcile_terminal_run_after_restart t s =
     (case rfind is_running (pc_attempts s) of
        None \<Rightarrow> (Ok (), s)
      | Some a \<Rightarrow>
          let released = active_resource_keys a = []
          in abandon_running
               (\<lambda>a. a\<lparr>va_status := PaIndeterminate, va_finished_at := Some t,
                 va_harness_stopped_at := Some t,
                 va_cleanup := Some
                   \<lparr>cr_status = (if released then CsSucceeded else CsPending), cr_occurred_at = t,
                    cr_detail = Some (if released
                      then ''durable run manifest recorded a terminal harness state before controller outcome persistence''
                      else ''durable run manifest is terminal but named attempt resources still require cleanup'')\<rparr>\<rparr>)
               ''terminal harness outcome was not durably applied before restart'' t a s)"

section \<open>Repairs\<close>

text \<open>The parent's part of a repair branch name: one character for each character of the id.\<close>

definition branch_parent :: "issue_id \<Rightarrow> string" where
  "branch_parent i =
     (let cs = map (\<lambda>c. if is_ascii_alphanumeric c then ascii_lower c else CHR ''-'') (lead_bytes (issue_id_str i))
      in rev (dropWhile (\<lambda>c. c = CHR ''-'') (rev (dropWhile (\<lambda>c. c = CHR ''-'') cs))))"

definition first_operation_key :: "parent_repair_attempt \<Rightarrow> string option" where
  "first_operation_key r = (case rp_operations r of [] \<Rightarrow> None | op # _ \<Rightarrow> Some (op_idempotency_key op))"

definition begin_repair ::
  "string \<Rightarrow> canonical_repository_id \<Rightarrow> string \<Rightarrow> string \<Rightarrow> string \<Rightarrow> timestamp_ms \<Rightarrow>
   parent_controller \<Rightarrow> string outcome" where
  "begin_repair key repo handle commit input t s =
     (case find (\<lambda>r. first_operation_key r = Some key) (pc_repair_attempts s) of
        Some existing \<Rightarrow>
          (if rp_repository_id existing = repo \<and> rp_checkout_handle existing = handle \<and>
              rp_target_commit existing = commit
           then Ok (rp_id existing) else Err (IdempotencyConflict key), s)
      | None \<Rightarrow>
          if pc_state s \<noteq> PsIntegrating
          then (Err (PeInvalidTransition (pc_state s)
                 (PsFixing repo (saturating_add (pc_next_repair_sequence s) 1))), s)
          else case omap_get (pc_targets s) repo of
            None \<Rightarrow> (Err (UnknownRepairRepository (repository_id_str repo)), s)
          | Some target \<Rightarrow>
              if tg_checkout_handle target \<noteq> handle \<or> tg_target_commit target \<noteq> commit
              then (Err (RepairTargetMismatch (repository_id_str repo)), s)
              else
                let number = saturating_add (pc_next_repair_sequence s) 1;
                    i = ''parent-repair-'' @ show_u64 number;
                    branch = ''fix/'' @ branch_parent (pc_parent_id s) @ ''-g'' @
                      show_u64 (pc_hierarchy_generation s) @ ''-repair-'' @ show_u64 number;
                    lease = ''repair:'' @ issue_id_str (pc_parent_id s) @ '':'' @
                      show_u64 (pc_hierarchy_generation s) @ '':'' @ show_u64 number
                in try_step
                     (transition (PsFixing repo number) ''integration defect requires a repository repair''
                        key input (Some (intent ''acquire_repair_lease'' key)) None PrRetryable t
                        (s\<lparr>pc_next_repair_sequence := number\<rparr>))
                     (\<lambda>_ s. (Ok i, s\<lparr>pc_repair_attempts := pc_repair_attempts s @
                        [\<lparr>rp_id = i, rp_number = number, rp_repository_id = repo, rp_checkout_handle = handle,
                          rp_target_branch = tg_target_branch target, rp_target_commit = commit,
                          rp_instruction_path = tg_instruction_path target,
                          rp_instruction_hash = tg_instruction_hash target, rp_branch = branch,
                          rp_lease_id = lease, rp_policy = tg_repair_policy target,
                          rp_implementation_completed = False, rp_last_advancement_failure = None,
                          rp_status = RpPreparingBranch, rp_created_at = t, rp_pushed_commit = None,
                          rp_pull_request_id = None, rp_pull_request_url = None,
                          rp_merge_result_commit = None, rp_refreshed_target_commit = None,
                          rp_requested_change_count = 0, rp_review_feedback = [],
                          rp_operations =
                            [\<lparr>op_kind = ReconcileBranch, op_idempotency_key = key, op_input_version = input,
                              op_intended_at = t, op_receipt = None, op_completed_at = None\<rparr>]\<rparr>]\<rparr>)))"

definition record_repair_advancement_failure ::
  "string \<Rightarrow> string \<Rightarrow> timestamp_ms \<Rightarrow> parent_controller \<Rightarrow> unit outcome" where
  "record_repair_advancement_failure i detail t s =
     (case repair_named i s of
        Err e \<Rightarrow> (Err e, s)
      | Ok _ \<Rightarrow> (Ok (), set_repair i (\<lambda>r. r\<lparr>rp_last_advancement_failure := Some
          \<lparr>af_occurred_at = t,
           af_detail = take (floor_boundary detail (min (length detail) max_repair_failure_bytes)) detail\<rparr>\<rparr>) s))"

section \<open>The ledger of provider operations\<close>

definition begin_provider_operation ::
  "string \<Rightarrow> parent_operation_kind \<Rightarrow> string \<Rightarrow> timestamp_ms \<Rightarrow> parent_controller \<Rightarrow> string outcome" where
  "begin_provider_operation i kind input t s =
     (case repair_named i s of
        Err e \<Rightarrow> (Err e, s)
      | Ok r \<Rightarrow>
          (case find (\<lambda>p. \<not> list_ex (\<lambda>op. op_kind op = p \<and> op_receipt op \<noteq> None) (rp_operations r))
                  (opt_list (prerequisite kind)) of
             Some p \<Rightarrow> (Err (ProviderReconciliationRequired kind p), s)
           | None \<Rightarrow>
               (case rfind (\<lambda>op. op_kind op = kind \<and> op_receipt op = None) (rp_operations r) of
                  Some existing \<Rightarrow>
                    (if op_input_version existing = input then Ok (op_idempotency_key existing)
                     else Err (IdempotencyConflict (op_idempotency_key existing)), s)
                | None \<Rightarrow>
                    let n = length (filter (\<lambda>op. op_kind op = kind) (rp_operations r)) + 1;
                        key = to_ascii_lowercase
                          (rp_id r @ '':'' @ operation_kind_name kind @ '':'' @ show_nat n)
                    in (Ok key, set_repair i (\<lambda>r. r\<lparr>rp_operations := rp_operations r @
                         [\<lparr>op_kind = kind, op_idempotency_key = key, op_input_version = input,
                           op_intended_at = t, op_receipt = None, op_completed_at = None\<rparr>]\<rparr>) s))))"

definition record_provider_operation ::
  "string \<Rightarrow> string \<Rightarrow> string \<Rightarrow> string option \<Rightarrow> timestamp_ms \<Rightarrow> parent_controller \<Rightarrow> unit outcome" where
  "record_provider_operation i key st detail t s =
     (case repair_named i s of
        Err e \<Rightarrow> (Err e, s)
      | Ok r \<Rightarrow>
          (case find (\<lambda>op. op_idempotency_key op = key) (rp_operations r) of
             None \<Rightarrow> (Err (IdempotencyConflict key), s)
           | Some op \<Rightarrow>
               (case op_receipt op of
                  Some existing \<Rightarrow>
                    (if existing = receipt st detail then Ok () else Err (IdempotencyConflict key), s)
                | None \<Rightarrow>
                    (Ok (), set_repair i (\<lambda>r. r\<lparr>rp_operations :=
                       update_first (\<lambda>op. op_idempotency_key op = key)
                         (\<lambda>op. op\<lparr>op_receipt := Some (receipt st detail), op_completed_at := Some t\<rparr>)
                         (rp_operations r)\<rparr>) s))))"

section \<open>Progress of a repair\<close>

definition block_repair ::
  "string \<Rightarrow> string \<Rightarrow> string \<Rightarrow> timestamp_ms \<Rightarrow> parent_controller \<Rightarrow> unit outcome" where
  "block_repair i reason input t s =
     (let key = i @ '':blocked:'' @ reason
      in done_with (transition (PsBlocked reason) reason key input (Some (intent ''reconcile_provider'' key))
           (Some (receipt ''blocked'' (Some reason))) PrOperatorAction t s))"

definition record_repair_branch_ready :: "string \<Rightarrow> parent_controller \<Rightarrow> unit outcome" where
  "record_repair_branch_ready i s =
     (case repair_named i s of
        Err e \<Rightarrow> (Err e, s)
      | Ok _ \<Rightarrow> (Ok (), set_repair_status i RpImplementing s))"

definition record_repair_implementation_completed :: "string \<Rightarrow> parent_controller \<Rightarrow> unit outcome" where
  "record_repair_implementation_completed i s =
     (case repair_named i s of
        Err e \<Rightarrow> (Err e, s)
      | Ok r \<Rightarrow>
          if rp_status r \<noteq> RpImplementing \<and> rp_status r \<noteq> RpChangesRequested
          then (Err (RepairTargetMismatch i), s)
          else (Ok (), set_repair i (\<lambda>r. r\<lparr>rp_status := RpImplementing,
                 rp_implementation_completed := True\<rparr>) s))"

definition record_repair_implementation_required :: "string \<Rightarrow> parent_controller \<Rightarrow> unit outcome" where
  "record_repair_implementation_required i s =
     (case repair_named i s of
        Err e \<Rightarrow> (Err e, s)
      | Ok _ \<Rightarrow> (Ok (), set_repair i (\<lambda>r. r\<lparr>rp_status := RpImplementing,
                   rp_implementation_completed := False\<rparr>) s))"

definition record_repair_review_budget_exhausted ::
  "string \<Rightarrow> string \<Rightarrow> timestamp_ms \<Rightarrow> parent_controller \<Rightarrow> unit outcome" where
  "record_repair_review_budget_exhausted i input t s =
     (case repair_named i s of
        Err e \<Rightarrow> (Err e, s)
      | Ok _ \<Rightarrow>
          block_repair i
            ''configured automated review budget is exhausted; exact-commit local review and operator action are required''
            input t (set_repair_status i RpReviewBudgetExhausted s))"

text \<open>A new head supersedes the merge operations that are still open.\<close>

definition supersede_merge :: "timestamp_ms \<Rightarrow> parent_operation \<Rightarrow> parent_operation" where
  "supersede_merge t op =
     (if (op_kind op = ReconcileMerge \<or> op_kind op = Merge) \<and> op_receipt op = None
      then op\<lparr>op_receipt := Some (receipt ''superseded'' None), op_completed_at := Some t\<rparr> else op)"

definition push_repair :: "string \<Rightarrow> timestamp_ms \<Rightarrow> parent_repair_attempt \<Rightarrow> parent_repair_attempt" where
  "push_repair commit t r =
     (let unchanged = (rp_pushed_commit r = Some commit);
          r = (if unchanged then r else r\<lparr>rp_operations := map (supersede_merge t) (rp_operations r)\<rparr>);
          r = r\<lparr>rp_pushed_commit := Some commit\<rparr>;
          r = (if unchanged then r else r\<lparr>rp_review_feedback := []\<rparr>)
      in r\<lparr>rp_status := (if rp_pull_request_id r \<noteq> None then RpAwaitingReview else RpAwaitingPullRequest)\<rparr>)"

definition record_repair_push ::
  "string \<Rightarrow> string \<Rightarrow> string \<Rightarrow> timestamp_ms \<Rightarrow> parent_controller \<Rightarrow> unit outcome" where
  "record_repair_push i commit input t s =
     (let was_fixing = is_fixing (pc_state s) in
      case repair_named i s of
        Err e \<Rightarrow> (Err e, s)
      | Ok r \<Rightarrow>
          let s = set_repair i (push_repair commit t) s;
              key = i @ '':push:'' @ commit
          in case (if rp_pushed_commit r \<noteq> Some commit \<or> was_fixing then rp_pull_request_id r else None) of
               None \<Rightarrow> (Ok (), s)
             | Some pr \<Rightarrow>
                 done_with (transition (PsAwaitingFixReview (rp_repository_id r) (rp_number r) pr)
                   ''requested changes were pushed to the existing repair pull request'' key input
                   (Some (intent ''push_repair'' key)) (Some (receipt ''pushed'' None)) PrRetryable t s))"

definition record_repair_pull_request ::
  "string \<Rightarrow> string \<Rightarrow> string \<Rightarrow> string \<Rightarrow> timestamp_ms \<Rightarrow> parent_controller \<Rightarrow> unit outcome" where
  "record_repair_pull_request i pr url input t s =
     (case repair_named i s of
        Err e \<Rightarrow> (Err e, s)
      | Ok r \<Rightarrow>
          (case rp_pull_request_id r of
             Some existing \<Rightarrow>
               (if existing = pr \<and> rp_pull_request_url r = Some url then Ok ()
                else Err (RepairTargetMismatch i), s)
           | None \<Rightarrow>
               let key = i @ '':pull-request:'' @ pr
               in try_step
                    (transition (PsAwaitingFixReview (rp_repository_id r) (rp_number r) pr)
                       ''repair pull request is awaiting configured checks and review'' key input
                       (Some (intent ''reconcile_pull_request'' key))
                       (Some (receipt ''found_or_created'' None)) PrRetryable t s)
                    (\<lambda>_ s. (Ok (), set_repair i (\<lambda>r. r\<lparr>rp_pull_request_id := Some pr,
                       rp_pull_request_url := Some url, rp_status := RpAwaitingReview\<rparr>) s))))"

section \<open>Reconciling with the provider\<close>

definition block_with ::
  "parent_repair_status \<Rightarrow> string \<Rightarrow> string \<Rightarrow> string \<Rightarrow> timestamp_ms \<Rightarrow> parent_controller \<Rightarrow> unit outcome" where
  "block_with st i reason input t s = block_repair i reason input t (set_repair_status i st s)"

definition is_current :: "string option \<Rightarrow> parent_repair_attempt \<Rightarrow> bool" where
  "is_current head r \<longleftrightarrow> head = rp_pushed_commit r"

text \<open>The pull request was never created and the provider is back.\<close>

definition recover_pull_request ::
  "string \<Rightarrow> parent_repair_attempt \<Rightarrow> string \<Rightarrow> timestamp_ms \<Rightarrow> parent_controller \<Rightarrow> unit outcome" where
  "recover_pull_request i current input t s =
     (let s = set_repair_status i RpAwaitingPullRequest s;
          key = i @ '':pull-request-recovered:'' @ show_u64 (pc_state_version s)
      in done_with (transition (PsFixing (rp_repository_id current) (rp_number current))
           ''provider recovered before repair pull-request creation'' key input
           (Some (intent ''reconcile_pull_request'' key)) (Some (receipt ''missing'' None)) PrRetryable t s))"

definition merge_input_version :: "string \<Rightarrow> parent_repair_attempt \<Rightarrow> string" where
  "merge_input_version input r =
     input @ '';repair-head:'' @ unwrap_or (rp_pushed_commit r) ''missing''"

definition pending_merge :: "string \<Rightarrow> parent_repair_attempt \<Rightarrow> parent_operation option" where
  "pending_merge input r =
     rfind (\<lambda>op. op_kind op = Merge \<and> op_input_version op = merge_input_version input r \<and>
                op_receipt op = None) (rp_operations r)"

definition checks_satisfied :: "parent_provider_snapshot \<Rightarrow> parent_repair_attempt \<Rightarrow> bool" where
  "checks_satisfied sn r \<longleftrightarrow> \<not> po_required_checks (rp_policy r) \<or> sn_checks_passed sn"

definition merged_review_satisfied :: "parent_provider_snapshot \<Rightarrow> parent_repair_attempt \<Rightarrow> bool" where
  "merged_review_satisfied sn r \<longleftrightarrow> \<not> po_required_review (rp_policy r) \<or>
     sn_review_approved sn \<and> is_current (sn_review_head_commit sn) r \<and>
     \<not> sn_review_rejected sn \<and> \<not> sn_changes_requested sn"

definition reconcile_merged ::
  "string \<Rightarrow> parent_repair_attempt \<Rightarrow> parent_provider_snapshot \<Rightarrow> string \<Rightarrow> timestamp_ms \<Rightarrow>
   parent_controller \<Rightarrow> unit outcome" where
  "reconcile_merged i current sn input t s =
     (case find (\<lambda>c. trim c \<noteq> []) (opt_list (sn_merge_result_commit sn)) of
        None \<Rightarrow> (Err (RepairTargetMismatch i), s)
      | Some merge_commit \<Rightarrow>
          (case pending_merge input current of
             Some op \<Rightarrow>
               if \<not> is_current (sn_head_commit sn) current \<or> \<not> checks_satisfied sn current \<or>
                  \<not> merged_review_satisfied sn current
               then block_with RpExternallyClosed i
                 ''provider reports an externally merged repair without a current eligible orchestrator merge intent''
                 input t s
               else if \<not> sn_target_contains_merge_result sn
               then block_with RpForcePushed i ''provider merge result is not reachable from target'' input t s
               else
                 try_step (record_provider_operation i (op_idempotency_key op) ''merged'' (Some merge_commit) t s)
                   (\<lambda>_ s. done_with (transition PsRefreshingAfterFixes
                      ''provider reports a reachable repair merge result'' (i @ '':merged'') input
                      (Some (intent ''refresh_after_repair'' (i @ '':merged''))) (Some (receipt ''merged'' None))
                      PrRetryable t
                      (set_repair i (\<lambda>r. r\<lparr>rp_status := RpRefreshing,
                         rp_merge_result_commit := Some merge_commit\<rparr>) s)))
           | None \<Rightarrow> block_with RpExternallyClosed i
               ''provider reports an externally merged repair without a current eligible orchestrator merge intent''
               input t s))"

text \<open>The conditions that block an open repair, with the status each leaves.\<close>

definition blocked_by_provider ::
  "parent_provider_snapshot \<Rightarrow> parent_repair_attempt \<Rightarrow> (parent_repair_status \<times> string) option" where
  "blocked_by_provider sn r =
     (if \<not> sn_open sn \<and> sn_pull_request_id sn \<noteq> None
      then Some (RpExternallyClosed, ''repair pull request was closed externally'')
      else if (case (sn_head_commit sn, rp_pushed_commit r) of
                 (Some actual, Some expected) \<Rightarrow> actual \<noteq> expected | _ \<Rightarrow> False)
      then Some (RpForcePushed, ''repair branch was force-pushed outside the recorded attempt'')
      else if sn_merge_conflict sn then Some (RpMergeConflict, ''repair merge conflict'')
      else if po_required_checks (rp_policy r) \<and> sn_checks_failed sn
      then Some (RpFailedChecks, ''required checks failed'')
      else None)"

definition request_changes ::
  "string \<Rightarrow> parent_repair_attempt \<Rightarrow> string \<Rightarrow> timestamp_ms \<Rightarrow> parent_controller \<Rightarrow> unit outcome" where
  "request_changes i current input t s =
     (if rp_status current = RpChangesRequested then (Ok (), s)
      else
        let n = saturating_add (rp_requested_change_count current) 1;
            s = set_repair i (\<lambda>r. r\<lparr>rp_status := RpChangesRequested, rp_implementation_completed := False,
                                  rp_requested_change_count := n\<rparr>) s
        in done_with (transition (PsFixing (rp_repository_id current) (rp_number current))
             ''provider review requested changes in the existing repair attempt''
             (i @ '':changes-requested:'' @ show_nat (unat n)) input None
             (Some (receipt ''changes_requested'' None)) PrRetryable t s))"

text \<open>The requested changes were resolved on the unchanged head.\<close>

definition resolve_feedback ::
  "string \<Rightarrow> parent_repair_attempt \<Rightarrow> string \<Rightarrow> timestamp_ms \<Rightarrow> parent_controller \<Rightarrow> unit outcome" where
  "resolve_feedback i current input t s =
     (case rp_pull_request_id current of
        None \<Rightarrow> (Err (RepairTargetMismatch i), s)
      | Some pr \<Rightarrow>
          let s = set_repair_status i RpAwaitingReview s;
              key = i @ '':feedback-resolved:'' @ show_u64 (pc_state_version s)
          in done_with (transition (PsAwaitingFixReview (rp_repository_id current) (rp_number current) pr)
               ''provider feedback was resolved on the unchanged repair head'' key input
               (Some (intent ''reconcile_provider'' key)) (Some (receipt ''resolved'' None)) PrRetryable t s))"

definition advance_to_merge ::
  "string \<Rightarrow> parent_repair_attempt \<Rightarrow> parent_provider_snapshot \<Rightarrow> string \<Rightarrow> timestamp_ms \<Rightarrow>
   parent_controller \<Rightarrow> unit outcome" where
  "advance_to_merge i current sn input t s =
     (let review_satisfied = (\<not> po_required_review (rp_policy current) \<or>
            sn_review_approved sn \<and> is_current (sn_review_head_commit sn) current)
      in if checks_satisfied sn current \<and> review_satisfied \<and> sn_mergeable sn
         then (case rp_pull_request_id current of
                 None \<Rightarrow> (Err (RepairTargetMismatch i), s)
               | Some pr \<Rightarrow>
                   done_with (transition (PsAwaitingFixMerge (rp_repository_id current) (rp_number current) pr)
                     ''central repair review policy is satisfied'' (i @ '':merge-ready'') input
                     (Some (intent ''merge_repair'' (i @ '':merge-ready''))) (Some (receipt ''eligible'' None))
                     PrRetryable t (set_repair_status i RpAwaitingMerge s)))
         else if rp_status current \<noteq> RpReviewBudgetExhausted \<and>
                 (is_blocked (pc_state s) \<or> is_awaiting_merge (pc_state s)) \<and> sn_open sn
         then (case rp_pull_request_id current of
                 None \<Rightarrow> (Err (RepairTargetMismatch i), s)
               | Some pr \<Rightarrow>
                   let s = set_repair_status i RpAwaitingReview s;
                       key = i @ '':provider-recovered:'' @ show_u64 (pc_state_version s)
                   in done_with (transition (PsAwaitingFixReview (rp_repository_id current) (rp_number current) pr)
                        ''provider reconciliation requires a current eligible review snapshot'' key input
                        (Some (intent ''reconcile_provider'' key)) (Some (receipt ''recovered'' None))
                        PrRetryable t s))
         else (Ok (), s))"

definition reconcile_open_review ::
  "string \<Rightarrow> parent_repair_attempt \<Rightarrow> parent_provider_snapshot \<Rightarrow> string \<Rightarrow> timestamp_ms \<Rightarrow>
   parent_controller \<Rightarrow> unit outcome" where
  "reconcile_open_review i current sn input t s =
     (let current_review = is_current (sn_review_head_commit sn) current;
          required = po_required_review (rp_policy current);
          s = (if current_review
               then set_repair i (\<lambda>r. r\<lparr>rp_review_feedback := sn_review_feedback sn\<rparr>) s else s)
      in if required \<and> sn_changes_requested sn \<and> current_review then request_changes i current input t s
         else try_step
                (if required \<and> rp_status current = RpChangesRequested \<and> current_review
                 then resolve_feedback i current input t s else (Ok (), s))
                (\<lambda>_ s.
                  if required \<and> sn_review_rejected sn \<and> current_review
                  then block_with RpReviewRejected i ''repair review was rejected'' input t s
                  else advance_to_merge i current sn input t s))"

definition reconcile_repair_provider ::
  "string \<Rightarrow> parent_provider_snapshot \<Rightarrow> string \<Rightarrow> timestamp_ms \<Rightarrow> parent_controller \<Rightarrow> unit outcome" where
  "reconcile_repair_provider i sn input t s =
     (case repair_named i s of
        Err e \<Rightarrow> (Err e, s)
      | Ok current \<Rightarrow>
          if \<not> sn_provider_available sn
          then block_with RpProviderUnavailable i ''provider unavailable'' input t s
          else if sn_pull_request_id sn = None \<and> rp_pull_request_id current = None \<and>
                  rp_pushed_commit current \<noteq> None \<and> is_blocked (pc_state s)
          then recover_pull_request i current input t s
          else if sn_merged sn then reconcile_merged i current sn input t s
          else case blocked_by_provider sn current of
                 Some (st, reason) \<Rightarrow> block_with st i reason input t s
               | None \<Rightarrow> reconcile_open_review i current sn input t s)"

definition record_repair_refresh ::
  "string \<Rightarrow> string \<Rightarrow> path \<Rightarrow> string \<Rightarrow> string \<Rightarrow> timestamp_ms \<Rightarrow> parent_controller \<Rightarrow> unit outcome" where
  "record_repair_refresh i commit instruction_path instruction_hash input t s =
     (case repair_named i s of
        Err e \<Rightarrow> (Err e, s)
      | Ok r \<Rightarrow>
          if rp_merge_result_commit r = None \<or> trim commit = [] then (Err (RepairTargetMismatch i), s)
          else
            let s = set_repair i (\<lambda>r. r\<lparr>rp_status := RpCompleted,
                                      rp_refreshed_target_commit := Some commit\<rparr>) s;
                repo = rp_repository_id r;
                key = i @ '':refreshed:'' @ commit
            in case omap_get (pc_targets s) repo of
                 None \<Rightarrow> (Err (UnknownRepairRepository (repository_id_str repo)), s)
               | Some target \<Rightarrow>
                   done_with (transition PsIntegrating
                     ''affected integration checkout refreshed to the provider merge result'' key input
                     (Some (intent ''verify_refreshed_target'' key)) (Some (receipt ''reachable'' None))
                     PrRetryable t
                     (s\<lparr>pc_targets := omap_insert repo
                          (target\<lparr>tg_target_commit := commit, tg_instruction_path := instruction_path,
                                  tg_instruction_hash := instruction_hash\<rparr>) (pc_targets s)\<rparr>)))"

section \<open>Completion and cancellation\<close>

definition final_attempt :: "string \<Rightarrow> string \<Rightarrow> parent_controller \<Rightarrow> parent_attempt \<Rightarrow> bool" where
  "final_attempt i input s a \<longleftrightarrow>
     va_id a = i \<and> attempt_passed (va_status a) \<and> va_input_version a = input \<and>
     va_exit_code a = Some 0 \<and> cleanup_succeeded a \<and> va_verified_repository_commits a = target_commits s"

definition complete :: "string \<Rightarrow> string \<Rightarrow> timestamp_ms \<Rightarrow> parent_controller \<Rightarrow> unit outcome" where
  "complete i input t s =
     (let commits = target_commits s in
      if \<not> list_ex (final_attempt i input s) (pc_attempts s) then (Err FinalVerificationIncomplete, s)
      else
        let key = i @ '':final-verification'' in
        try_step (transition PsFinalVerification ''parent integration attempt passed'' key input
                    (Some (intent ''accept_harness_final_verification'' key)) (Some (receipt ''passed'' None))
                    PrRetryable t s)
          (\<lambda>_ s.
            let s = s\<lparr>pc_final_evidence := Some
                       \<lparr>fe_attempt_id = i, fe_conversation_id = unwrap_or (pc_conversation_id s) [],
                        fe_input_version = input, fe_repository_commits = commits, fe_recorded_at = t\<rparr>\<rparr>;
                key = i @ '':finalize'' in
            try_step (transition PsFinalizing ''final verification evidence was written durably'' key input
                        (Some (intent ''persist_final_evidence'' key)) (Some (receipt ''succeeded'' None))
                        PrRetryable t s)
              (\<lambda>_ s. done_with (transition PsCompleted
                 ''all recorded repository targets passed final verification'' (i @ '':complete'') input None
                 (Some (receipt ''succeeded'' None)) PrTerminal t s))))"

definition cancel :: "string \<Rightarrow> string \<Rightarrow> bool \<Rightarrow> timestamp_ms \<Rightarrow> parent_controller \<Rightarrow> unit outcome" where
  "cancel reason input acknowledged t s =
     done_with (transition (PsCanceled reason) reason (parent_key s ''cancel'') input
       (Some (intent ''interrupt_parent_harness'' (parent_key s ''cancel'')))
       (Some (receipt (if acknowledged then ''acknowledged'' else ''uncertain'') None)) PrTerminal t s)"

definition cancel_without_harness :: "string \<Rightarrow> string \<Rightarrow> timestamp_ms \<Rightarrow> parent_controller \<Rightarrow> unit outcome" where
  "cancel_without_harness reason input t s =
     done_with (transition (PsCanceled reason) reason (parent_key s ''cancel'') input None None PrTerminal t s)"

section \<open>Queries\<close>

definition current_attempt_id :: "parent_controller \<Rightarrow> string option" where
  "current_attempt_id s = map_option va_id (rfind is_running (pc_attempts s))"

definition has_unreconciled_provider_operation :: "parent_controller \<Rightarrow> bool" where
  "has_unreconciled_provider_operation s \<longleftrightarrow>
     list_ex (\<lambda>r. list_ex (\<lambda>op. op_receipt op = None \<or> op_completed_at op = None) (rp_operations r))
       (pc_repair_attempts s)"

definition can_cancel_without_harness :: "parent_controller \<Rightarrow> bool" where
  "can_cancel_without_harness s \<longleftrightarrow>
     current_attempt_id s = None \<and> \<not> has_unreconciled_provider_operation s \<and>
     list_all (\<lambda>a. cleanup_succeeded a \<and> active_resource_keys a = [] \<and>
       (case va_conversation_id a of
          Some _ \<Rightarrow> va_harness_stopped_at a \<noteq> None
        | None \<Rightarrow> va_status a \<noteq> PaIndeterminate \<or> va_commands a = [])) (pc_attempts s)"

definition has_unreconciled_harness :: "parent_controller \<Rightarrow> bool" where
  "has_unreconciled_harness s \<longleftrightarrow>
     list_ex (\<lambda>a. va_conversation_id a \<noteq> None \<and> va_harness_stopped_at a = None \<and>
       va_status a \<in> {PaRunning, PaFailed, PaTimedOut, PaIndeterminate}) (pc_attempts s)"

definition current_attempt_deadline :: "parent_controller \<Rightarrow> timestamp_ms option" where
  "current_attempt_deadline s = map_option attempt_deadline (rfind is_running (pc_attempts s))"

end
