(* ===== verification/Parent_Steps.thy ===== *)
theory Parent_Steps
  imports Parent_Integration
begin

text \<open>
  Every method of the parent integration controller is a sequence of small moves, whatever it
  returns: a recorded transition, an update of one attempt or one repair, the start of an
  attempt, the binding of the conversation, the begin of a repair. \<open>micro\<close> is the relation of
  these moves, and the lemmas \<open>micro_moves\<close> show that each method follows it. The invariants
  are then proved once for each kind of move, in the theory Parent_Safety.
\<close>

section \<open>What an update keeps\<close>

definition log_bounded :: "parent_attempt \<Rightarrow> bool" where
  "log_bounded a \<longleftrightarrow> length (va_bounded_log a) \<le> max_log_bytes + 1 \<and>
     (\<not> va_log_truncated a \<longrightarrow> length (va_bounded_log a) \<le> max_log_bytes)"

definition attempt_keeps :: "parent_attempt \<Rightarrow> parent_attempt \<Rightarrow> bool" where
  "attempt_keeps a b \<longleftrightarrow>
     va_id b = va_id a \<and> va_conversation_id b = va_conversation_id a \<and>
     va_idempotency_key b = va_idempotency_key a \<and> va_input_version b = va_input_version a \<and>
     (is_running b \<longrightarrow> is_running a) \<and>
     (log_bounded a \<longrightarrow> log_bounded b) \<and>
     length (va_commands b) \<le> max (length (va_commands a)) max_command_receipts \<and>
     length (va_resources b) \<le> max (length (va_resources a)) max_resource_receipts"

lemma attempt_keeps_trans: "attempt_keeps a b \<Longrightarrow> attempt_keeps b c \<Longrightarrow> attempt_keeps a c"
  by (auto simp: attempt_keeps_def)

text \<open>A provider operation that asks for a lookup first has one with a receipt; a receipt and
  its time go together; and at most one operation of a kind is open.\<close>

definition ledger_ok :: "parent_operation list \<Rightarrow> bool" where
  "ledger_ok ops \<longleftrightarrow>
     (\<forall>op \<in> set ops. \<forall>p. prerequisite (op_kind op) = Some p \<longrightarrow>
        (\<exists>op' \<in> set ops. op_kind op' = p \<and> op_receipt op' \<noteq> None)) \<and>
     (\<forall>op \<in> set ops. op_receipt op = None \<longleftrightarrow> op_completed_at op = None) \<and>
     (\<forall>k. length (filter (\<lambda>op. op_kind op = k \<and> op_receipt op = None) ops) \<le> 1)"

text \<open>Operations with a receipt are never changed or dropped.\<close>

definition receipts_kept :: "parent_operation list \<Rightarrow> parent_operation list \<Rightarrow> bool" where
  "receipts_kept ops ops' \<longleftrightarrow> (\<forall>op \<in> set ops. op_receipt op \<noteq> None \<longrightarrow> op \<in> set ops')"

definition repair_keeps :: "parent_repair_attempt \<Rightarrow> parent_repair_attempt \<Rightarrow> bool" where
  "repair_keeps r r' \<longleftrightarrow>
     rp_id r' = rp_id r \<and> rp_number r' = rp_number r \<and> rp_repository_id r' = rp_repository_id r \<and>
     rp_checkout_handle r' = rp_checkout_handle r \<and> rp_target_commit r' = rp_target_commit r \<and>
     rp_branch r' = rp_branch r \<and> rp_policy r' = rp_policy r \<and>
     receipts_kept (rp_operations r) (rp_operations r') \<and>
     (ledger_ok (rp_operations r) \<longrightarrow> ledger_ok (rp_operations r'))"

lemma repair_keeps_same_ledger:
  "rp_id r' = rp_id r \<Longrightarrow> rp_number r' = rp_number r \<Longrightarrow> rp_repository_id r' = rp_repository_id r \<Longrightarrow>
   rp_checkout_handle r' = rp_checkout_handle r \<Longrightarrow> rp_target_commit r' = rp_target_commit r \<Longrightarrow>
   rp_branch r' = rp_branch r \<Longrightarrow> rp_policy r' = rp_policy r \<Longrightarrow> rp_operations r' = rp_operations r \<Longrightarrow>
   repair_keeps r r'"
  by (simp add: repair_keeps_def receipts_kept_def)

lemma receipts_kept_trans: "receipts_kept a b \<Longrightarrow> receipts_kept b c \<Longrightarrow> receipts_kept a c"
  by (auto simp: receipts_kept_def)

section \<open>Moves\<close>

text \<open>Everything but the targets, the evidence and the counters.\<close>

definition core ::
  "parent_controller \<Rightarrow> (parent_state \<times> u64 \<times> parent_transition list) \<times> parent_attempt list \<times>
     string option \<times> parent_repair_attempt list" where
  "core s = ((pc_state s, pc_state_version s, pc_transitions s), pc_attempts s, pc_conversation_id s,
             pc_repair_attempts s)"

inductive micro :: "parent_controller \<Rightarrow> parent_controller \<Rightarrow> bool" where
  other: "core s' = core s \<Longrightarrow> micro s s'"
| moved: "transition next reason key input eff rcpt cls t s = (Ok True, s') \<Longrightarrow> micro s s'"
| attempt: "attempt_named i s = Ok a \<Longrightarrow> attempt_keeps a (f a) \<Longrightarrow> micro s (set_attempt i f s)"
| abandon: "rfind is_running (pc_attempts s) = Some a \<Longrightarrow> attempt_keeps a (f a) \<Longrightarrow> \<not> is_running (f a) \<Longrightarrow>
    micro s (s\<lparr>pc_attempts := update_last is_running f (pc_attempts s)\<rparr>)"
| started: "start_attempt_intent name key root timeout input t s = (Ok i, s') \<Longrightarrow> micro s s'"
| bound: "pc_conversation_id s = None \<Longrightarrow> micro s (s\<lparr>pc_conversation_id := Some c\<rparr>)"
| attached: "pc_conversation_id s = Some c \<Longrightarrow> attempt_named i s = Ok a \<Longrightarrow>
    micro s (set_attempt i (\<lambda>a. a\<lparr>va_conversation_id := Some c\<rparr>) s)"
| repair: "repair_named i s = Ok r \<Longrightarrow> repair_keeps r (g r) \<Longrightarrow> micro s (set_repair i g s)"
| begun: "ledger_ok (rp_operations r) \<Longrightarrow>
    micro s (s\<lparr>pc_repair_attempts := pc_repair_attempts s @ [r]\<rparr>)"

abbreviation micro_path :: "parent_controller \<Rightarrow> parent_controller \<Rightarrow> bool" where
  "micro_path \<equiv> micro\<^sup>*\<^sup>*"

named_theorems micro_moves \<open>each method is a sequence of moves\<close>

lemma micro_other: "core s' = core s \<Longrightarrow> micro_path s s'"
  by (blast intro: micro.other)

lemma micro_via: "micro_path s s1 \<Longrightarrow> micro_path s1 s2 \<Longrightarrow> micro_path s s2"
  by (rule rtranclp_trans)

lemma core_update [simp]:
  "core (s\<lparr>pc_targets := ts\<rparr>) = core s" "core (s\<lparr>pc_next_repair_sequence := n\<rparr>) = core s"
  "core (s\<lparr>pc_final_evidence := e\<rparr>) = core s" "core (s\<lparr>pc_admission_input_version := v\<rparr>) = core s"
  by (simp_all add: core_def)

lemma micro_transition: "micro_path s (snd (transition next reason key input eff rcpt cls t s))"
proof (cases "fst (transition next reason key input eff rcpt cls t s) = Ok True")
  case True
  then show ?thesis by (metis micro.moved prod.collapse r_into_rtranclp)
next
  case False
  then have "snd (transition next reason key input eff rcpt cls t s) = s"
    by (auto simp: transition_def Let_def split: option.splits)
  then show ?thesis by simp
qed

lemma micro_done: "micro_path s (snd r) \<Longrightarrow> micro_path s (snd (done_with r))"
  by (cases r; cases "fst r") auto

text \<open>The rule for \<open>?\<close>: both halves are moves.\<close>

lemma micro_try:
  assumes "micro_path s (snd r)" "\<And>x s'. r = (Ok x, s') \<Longrightarrow> micro_path s' (snd (k x s'))"
  shows "micro_path s (snd (try_step r k))"
proof (cases r)
  case (Pair e s')
  then show ?thesis using assms by (cases e) (auto intro: rtranclp_trans)
qed

lemma micro_attempt:
  "attempt_named i s = Ok a \<Longrightarrow> attempt_keeps a (f a) \<Longrightarrow> micro_path s (set_attempt i f s)"
  by (blast intro: micro.attempt)

lemma micro_repair:
  "repair_named i s = Ok r \<Longrightarrow> repair_keeps r (g r) \<Longrightarrow> micro_path s (set_repair i g s)"
  by (blast intro: micro.repair)

lemma micro_status: "repair_named i s = Ok r \<Longrightarrow> micro_path s (set_repair_status i st s)"
  unfolding set_repair_status_def by (rule micro_repair) (auto intro: repair_keeps_same_ledger)

lemma micro_done_transition:
  "micro_path s s1 \<Longrightarrow> micro_path s (snd (done_with (transition next reason key input eff rcpt cls t s1)))"
  by (blast intro: micro_via micro_done micro_transition)

section \<open>The methods on attempts\<close>

lemma floor_boundary_le: "floor_boundary s n \<le> n"
  by (induction s n rule: floor_boundary.induct) auto

lemma length_cut: "length (take (floor_boundary x (min r (length x))) x) \<le> r"
  using floor_boundary_le [of x "min r (length x)"] by simp

lemma append_to_log_bounded: "log_bounded a \<Longrightarrow> log_bounded (append_to_log x a)"
proof (cases "va_log_truncated a \<or> x = []")
  case True
  then show "log_bounded a \<Longrightarrow> log_bounded (append_to_log x a)" by (auto simp: append_to_log_def)
next
  case False
  define log where "log = (if va_bounded_log a = [] then [] else va_bounded_log a @ ''\<newline>'')"
  define r where "r = max_log_bytes - length log"
  assume "log_bounded a"
  then have len: "length log \<le> max_log_bytes + 1" using False by (auto simp: log_def log_bounded_def)
  have app: "append_to_log x a = (if length x \<le> r then a\<lparr>va_bounded_log := log @ x\<rparr>
      else a\<lparr>va_bounded_log := log @ take (floor_boundary x (min r (length x))) x, va_log_truncated := True\<rparr>)"
    using False by (simp add: append_to_log_def Let_def log_def r_def)
  show "log_bounded (append_to_log x a)"
  proof (cases "length x \<le> r")
    case True
    moreover have "0 < length x" using False by simp
    ultimately have "length log + length x \<le> max_log_bytes" unfolding r_def by linarith
    then show ?thesis using True app by (simp add: log_bounded_def)
  next
    case False
    have "length (log @ take (floor_boundary x (min r (length x))) x) \<le> max_log_bytes + 1"
      using length_cut [of x r] len by (simp add: r_def)
    then show ?thesis using False app by (simp add: log_bounded_def)
  qed
qed

lemma append_to_log_keeps: "attempt_keeps a (append_to_log x a)"
  using append_to_log_bounded [of a x]
  by (auto simp: attempt_keeps_def append_to_log_def Let_def is_running_def)

lemma micro_append_log [micro_moves]: "micro_path s (snd (append_log i x s))"
  by (auto simp: append_log_def split: sum.split intro: micro_attempt append_to_log_keeps)

lemma push_resource_keeps:
  "length (va_resources a) < max_resource_receipts \<Longrightarrow> attempt_keeps a (push_resource r a)"
  by (auto simp: attempt_keeps_def push_resource_def is_running_def log_bounded_def)

lemma micro_allocate_resource [micro_moves]: "micro_path s (snd (allocate_resource i kind ident t s))"
  by (auto simp: allocate_resource_def max_resource_receipts_def split: sum.split
      intro!: micro_attempt push_resource_keeps)

lemma micro_release_resource [micro_moves]: "micro_path s (snd (release_resource i kind ident ok d t s))"
  by (auto simp: release_resource_def split: sum.split intro!: micro_attempt push_resource_keeps)

lemma micro_release_processes [micro_moves]: "micro_path s (snd (release_processes i ps d t s))"
proof (induction ps arbitrary: s)
  case (Cons p ps)
  show ?case by (simp, rule micro_try [OF micro_release_resource Cons.IH])
qed simp

lemma micro_harness_stopped [micro_moves]: "micro_path s (snd (observe_harness_stopped i d t s))"
  unfolding observe_harness_stopped_def
  by (auto simp: Let_def attempt_keeps_def is_running_def log_bounded_def split: sum.split
      intro!: micro_try micro_release_processes micro_attempt)

lemma micro_attach [micro_moves]: "micro_path s (snd (attach_attempt_conversation i c s))"
proof -
  have attach: "pc_conversation_id s' = Some c \<Longrightarrow> micro_path s' (snd
      (case attempt_named i s' of
         Err e \<Rightarrow> (Err e, s')
       | Ok a \<Rightarrow>
           (case va_conversation_id a of
              Some expected \<Rightarrow> (if expected \<noteq> c then Err (ConversationMismatch expected c) else Ok (), s')
            | None \<Rightarrow> (Ok (), set_attempt i (\<lambda>a. a\<lparr>va_conversation_id := Some c\<rparr>) s'))))" for s'
    by (auto split: sum.split option.split intro: micro.attached)
  show ?thesis
    unfolding attach_attempt_conversation_def
    by (rule micro_try) (auto split: option.splits if_splits intro: micro.bound intro!: attach)
qed

lemma micro_start_attempt_intent [micro_moves]:
  "micro_path s (snd (start_attempt_intent name key root timeout input t s))"
proof (cases "fst (start_attempt_intent name key root timeout input t s)")
  case (Inl e)
  then have "snd (start_attempt_intent name key root timeout input t s) = s"
    by (auto simp: start_attempt_intent_def Let_def split: option.splits sum.splits)
  then show ?thesis by simp
next
  case (Inr i)
  then show ?thesis by (metis micro.started prod.collapse r_into_rtranclp)
qed

lemma micro_start_attempt [micro_moves]:
  "micro_path s (snd (start_attempt name key root c timeout input t s))"
  unfolding start_attempt_def
  by (intro micro_try micro_start_attempt_intent micro_attach) simp

lemma micro_evidence [micro_moves]: "micro_path s (snd (record_verification_evidence i ev s))"
  by (auto simp: record_verification_evidence_def Let_def attempt_keeps_def is_running_def log_bounded_def
      split: sum.split intro!: micro_attempt)

lemma micro_command_started [micro_moves]:
  "micro_path s (snd (observe_command_started sha i c cmd root t s))"
  unfolding observe_command_started_def Let_def
  by (auto simp: attempt_keeps_def is_running_def log_bounded_def split: sum.split option.split
      intro!: micro_via [OF micro_attempt micro_allocate_resource])

lemma length_update_first [simp]: "length (update_first p f xs) = length xs"
  by (induction xs) auto

lemma length_update_last [simp]: "length (update_last p f xs) = length xs"
  by (simp add: update_last_def)

lemma micro_command_finished [micro_moves]:
  "micro_path s (snd (observe_command_finished i c code out t s))"
  unfolding observe_command_finished_def Let_def
  by (auto simp: attempt_keeps_def is_running_def log_bounded_def split: sum.split option.split
      intro!: micro_via [OF micro_attempt micro_release_resource]
        micro_via [OF micro_attempt micro_try [OF micro_append_log micro_release_resource]])

lemma micro_finish_attempt [micro_moves]: "micro_path s (snd (finish_attempt i st code cl t s))"
  by (auto simp: finish_attempt_def attempt_keeps_def is_running_def log_bounded_def attempt_terminal_def
      split: sum.split intro!: micro_attempt)

lemma micro_prepare_retry [micro_moves]: "micro_path s (snd (prepare_retry i reason t s))"
  by (auto simp: prepare_retry_def Let_def split: sum.split intro: micro_done_transition)

lemma micro_abandon:
  assumes "rfind is_running (pc_attempts s) = Some a" "attempt_keeps a (f a)" "\<not> is_running (f a)"
  shows "micro_path s (snd (abandon_running f reason t a s))"
proof -
  have "micro_path s (s\<lparr>pc_attempts := update_last is_running f (pc_attempts s)\<rparr>)"
    by (rule r_into_rtranclp, rule micro.abandon [where f = f, OF assms])
  then show ?thesis
    unfolding abandon_running_def Let_def by (auto intro: micro_via micro_prepare_retry)
qed

lemma micro_reconcile_restart [micro_moves]: "micro_path s (snd (reconcile_restart h t s))"
  by (auto simp: reconcile_restart_def Let_def attempt_keeps_def is_running_def log_bounded_def
      split: option.split intro!: micro_abandon)

lemma micro_reconcile_terminal [micro_moves]:
  "micro_path s (snd (reconcile_terminal_run_after_restart t s))"
  by (auto simp: reconcile_terminal_run_after_restart_def Let_def attempt_keeps_def is_running_def
      log_bounded_def split: option.split intro!: micro_abandon)

section \<open>The ledger of provider operations\<close>

text \<open>Giving a receipt to operations that have none.\<close>

definition settles :: "parent_operation \<Rightarrow> parent_operation \<Rightarrow> bool" where
  "settles op op' \<longleftrightarrow> op' = op \<or>
     op_receipt op = None \<and> op_kind op' = op_kind op \<and> op_receipt op' \<noteq> None \<and> op_completed_at op' \<noteq> None"

lemma settles_refl [simp]: "settles op op"
  by (simp add: settles_def)

lemma settled_receipts: "list_all2 settles ops ops' \<Longrightarrow> receipts_kept ops ops'"
  unfolding receipts_kept_def
proof (induction rule: list_all2_induct)
  case (Cons x xs y ys)
  then show ?case by (auto simp: settles_def)
qed simp

lemma settled_open:
  "list_all2 settles ops ops' \<Longrightarrow>
     length (filter (\<lambda>op. op_kind op = k \<and> op_receipt op = None) ops') \<le>
     length (filter (\<lambda>op. op_kind op = k \<and> op_receipt op = None) ops)"
  by (induction rule: list_all2_induct) (auto simp: settles_def)

lemma settled_set: "list_all2 settles ops ops' \<Longrightarrow> op' \<in> set ops' \<Longrightarrow> \<exists>op \<in> set ops. settles op op'"
  by (induction rule: list_all2_induct) auto

lemma settled_ledger:
  assumes "list_all2 settles ops ops'" "ledger_ok ops"
  shows "ledger_ok ops'"
  unfolding ledger_ok_def
proof (intro conjI ballI allI impI)
  fix op' p
  assume op': "op' \<in> set ops'" "prerequisite (op_kind op') = Some p"
  obtain op where op: "op \<in> set ops" "settles op op'" using settled_set [OF assms(1) op'(1)] by blast
  then have "prerequisite (op_kind op) = Some p" using op'(2) by (auto simp: settles_def)
  then obtain q where "q \<in> set ops" "op_kind q = p" "op_receipt q \<noteq> None"
    using assms(2) op(1) by (fastforce simp: ledger_ok_def)
  then show "\<exists>q \<in> set ops'. op_kind q = p \<and> op_receipt q \<noteq> None"
    using settled_receipts [OF assms(1)] by (auto simp: receipts_kept_def)
next
  fix op'
  assume "op' \<in> set ops'"
  then obtain op where "op \<in> set ops" "settles op op'" using settled_set [OF assms(1)] by blast
  then show "(op_receipt op' = None) = (op_completed_at op' = None)"
    using assms(2) by (auto simp: settles_def ledger_ok_def)
next
  fix k
  show "length (filter (\<lambda>op. op_kind op = k \<and> op_receipt op = None) ops') \<le> 1"
    using settled_open [OF assms(1), of k] assms(2) by (auto simp: ledger_ok_def intro: order.trans)
qed

lemma settle_first:
  "find p ops = Some op \<Longrightarrow> settles op (f op) \<Longrightarrow> list_all2 settles ops (update_first p f ops)"
proof (induction ops)
  case (Cons x xs)
  then show ?case by (cases "p x") (auto simp: list_all2_refl)
qed simp

lemma supersede_settles: "list_all2 settles ops (map (supersede_merge t) ops)"
  by (induction ops) (auto simp: supersede_merge_def settles_def)

lemma ledger_append:
  assumes "ledger_ok ops" "op_receipt op = None" "op_completed_at op = None"
    and "\<forall>p. prerequisite (op_kind op) = Some p \<longrightarrow> (\<exists>op' \<in> set ops. op_kind op' = p \<and> op_receipt op' \<noteq> None)"
    and "\<forall>op' \<in> set ops. op_kind op' = op_kind op \<longrightarrow> op_receipt op' \<noteq> None"
  shows "ledger_ok (ops @ [op])"
proof -
  have open_none: "filter (\<lambda>op'. op_kind op' = op_kind op \<and> op_receipt op' = None) ops = []"
    using assms(5) by (auto simp: filter_empty_conv)
  have "\<exists>op'' \<in> set (ops @ [op]). op_kind op'' = p \<and> op_receipt op'' \<noteq> None"
    if "op' \<in> set (ops @ [op])" "prerequisite (op_kind op') = Some p" for op' p
  proof -
    have "\<exists>op'' \<in> set ops. op_kind op'' = p \<and> op_receipt op'' \<noteq> None"
    proof (cases "op' = op")
      case True
      then show ?thesis using assms(4) that(2) by simp
    next
      case False
      then have "op' \<in> set ops" using that(1) by simp
      then show ?thesis using assms(1) that(2) unfolding ledger_ok_def by blast
    qed
    then show ?thesis by auto
  qed
  moreover have "(op_receipt op' = None) = (op_completed_at op' = None)" if "op' \<in> set (ops @ [op])" for op'
    using assms(1-3) that by (auto simp: ledger_ok_def)
  moreover have "length (filter (\<lambda>op. op_kind op = k \<and> op_receipt op = None) (ops @ [op])) \<le> 1" for k
    using assms(1) open_none by (cases "k = op_kind op") (auto simp: ledger_ok_def)
  ultimately show ?thesis unfolding ledger_ok_def by blast
qed

lemma rfind_None: "rfind p xs = None \<longleftrightarrow> (\<forall>x \<in> set xs. \<not> p x)"
  by (auto simp: rfind_def find_None_iff)

lemma micro_begin_provider_operation [micro_moves]:
  "micro_path s (snd (begin_provider_operation i kind input t s))"
  unfolding begin_provider_operation_def Let_def
  by (auto split: sum.split option.split simp: rfind_None find_None_iff list_ex_iff receipts_kept_def
      repair_keeps_def intro!: micro_repair ledger_append)

lemma micro_record_provider_operation [micro_moves]:
  "micro_path s (snd (record_provider_operation i key st d t s))"
proof -
  have "repair_keeps r (r\<lparr>rp_operations := update_first (\<lambda>op. op_idempotency_key op = key)
          (\<lambda>op. op\<lparr>op_receipt := Some rc, op_completed_at := Some t\<rparr>) (rp_operations r)\<rparr>)"
    if "find (\<lambda>op. op_idempotency_key op = key) (rp_operations r) = Some op" "op_receipt op = None"
    for r op rc
    using settle_first [OF that(1), of "\<lambda>op. op\<lparr>op_receipt := Some rc, op_completed_at := Some t\<rparr>"] that(2)
    by (auto simp: repair_keeps_def settles_def intro: settled_receipts settled_ledger)
  then show ?thesis
    unfolding record_provider_operation_def
    by (auto split: sum.split option.split intro!: micro_repair)
qed

lemma push_repair_keeps: "repair_keeps r (push_repair commit t r)"
  using settled_receipts [OF supersede_settles, of "rp_operations r" t]
    settled_ledger [OF supersede_settles, of "rp_operations r" t]
  by (auto simp: repair_keeps_def push_repair_def Let_def receipts_kept_def)

section \<open>The other methods\<close>

lemma micro_block_repair [micro_moves]: "micro_path s (snd (block_repair i reason input t s))"
  unfolding block_repair_def Let_def by (intro micro_done micro_transition)

lemma micro_block_with: "repair_named i s = Ok r \<Longrightarrow> micro_path s (snd (block_with st i reason input t s))"
  unfolding block_with_def by (rule micro_via [OF micro_status micro_block_repair])

lemma micro_admit [micro_moves]: "micro_path s (snd (admit input t s))"
proof -
  have "micro_path s (snd (admit_transitions input t s))"
    unfolding admit_transitions_def by (intro micro_try micro_transition)
  moreover obtain r s' where r: "admit_transitions input t s = (r, s')" by (metis surj_pair)
  ultimately have "micro_path s s'" by simp
  then have "micro_path s (s'\<lparr>pc_admission_input_version := Some input\<rparr>)"
    by (rule micro_via) (rule micro_other, simp)
  then show ?thesis
    by (cases r; cases "pc_admission_input_version s") (simp_all add: admit_def r)
qed

lemma micro_record_baseline [micro_moves]: "micro_path s (snd (record_baseline_verified input t s))"
  by (auto simp: record_baseline_verified_def Let_def intro: micro_done_transition)

lemma micro_record_workspace_prepared [micro_moves]:
  "micro_path s (snd (record_workspace_prepared targets input t s))"
proof -
  let ?s = "s\<lparr>pc_targets := foldl (\<lambda>m x. omap_insert (tg_repository_id x) x m) [] targets\<rparr>"
  have "micro_path ?s (snd (record_workspace_prepared targets input t s))"
    unfolding record_workspace_prepared_def Let_def
    by (simp add: micro_record_baseline micro_try [OF micro_transition])
  then show ?thesis by (rule micro_via [rotated]) (rule micro_other, simp)
qed

lemma micro_migrate [micro_moves]: "micro_path s (snd (migrate_legacy_repair_target current s))"
  by (rule micro_other) (simp add: migrate_legacy_repair_target_def Let_def split: option.split)

lemma transition_moved:
  "transition next reason key input eff rcpt cls t s = (Ok b, s') \<Longrightarrow> b \<Longrightarrow> pc_state s' = next"
  by (auto simp: transition_def Let_def split: option.splits if_splits)

lemma micro_begin_repair [micro_moves]:
  "micro_path s (snd (begin_repair key repo handle commit input t s))"
proof -
  have step: "micro_path s (snd (try_step (transition nx reason k inp eff rc cls t (s\<lparr>pc_next_repair_sequence := n\<rparr>))
      (\<lambda>_ s. (Ok i, s\<lparr>pc_repair_attempts := pc_repair_attempts s @ [r]\<rparr>))))"
    if "ledger_ok (rp_operations r)" for nx reason k inp eff rc cls n i r
  proof (rule micro_via)
    show "micro_path s (s\<lparr>pc_next_repair_sequence := n\<rparr>)" by (rule micro_other) simp
    show "micro_path (s\<lparr>pc_next_repair_sequence := n\<rparr>) (snd (try_step (transition nx reason k inp eff rc cls t
        (s\<lparr>pc_next_repair_sequence := n\<rparr>)) (\<lambda>_ s. (Ok i, s\<lparr>pc_repair_attempts := pc_repair_attempts s @ [r]\<rparr>))))"
      by (rule micro_try [OF micro_transition]) (auto intro: micro.begun that)
  qed
  show ?thesis
    unfolding begin_repair_def Let_def
    by (auto split: option.split simp: ledger_ok_def intro!: step)
qed

lemma micro_same_ledger:
  "repair_named i s = Ok r \<Longrightarrow> rp_operations (g r) = rp_operations r \<Longrightarrow> rp_id (g r) = rp_id r \<Longrightarrow>
   rp_number (g r) = rp_number r \<Longrightarrow> rp_repository_id (g r) = rp_repository_id r \<Longrightarrow>
   rp_checkout_handle (g r) = rp_checkout_handle r \<Longrightarrow> rp_target_commit (g r) = rp_target_commit r \<Longrightarrow>
   rp_branch (g r) = rp_branch r \<Longrightarrow> rp_policy (g r) = rp_policy r \<Longrightarrow> micro_path s (set_repair i g s)"
  by (rule micro_repair) (auto intro: repair_keeps_same_ledger)

lemma micro_advancement_failure [micro_moves]:
  "micro_path s (snd (record_repair_advancement_failure i d t s))"
  by (auto simp: record_repair_advancement_failure_def split: sum.split intro: micro_same_ledger)

lemma micro_simple_repair [micro_moves]:
  "micro_path s (snd (record_repair_branch_ready i s))"
  "micro_path s (snd (record_repair_implementation_completed i s))"
  "micro_path s (snd (record_repair_implementation_required i s))"
  by (auto simp: record_repair_branch_ready_def record_repair_implementation_completed_def
      record_repair_implementation_required_def split: sum.split intro: micro_status micro_same_ledger)

lemma micro_budget_exhausted [micro_moves]:
  "micro_path s (snd (record_repair_review_budget_exhausted i input t s))"
  by (auto simp: record_repair_review_budget_exhausted_def split: sum.split
      intro: micro_via [OF micro_status micro_block_repair])

lemma micro_record_repair_push [micro_moves]: "micro_path s (snd (record_repair_push i commit input t s))"
  unfolding record_repair_push_def Let_def
  by (auto split: sum.split option.split
      intro!: micro_done_transition micro_repair [OF _ push_repair_keeps])

lemma repair_named_core: "core s' = core s \<Longrightarrow> repair_named i s' = repair_named i s"
  by (simp add: core_def repair_named_def)

lemma transition_parts:
  assumes "transition next reason key input eff rcpt cls t s = (r, s')"
  shows "pc_attempts s' = pc_attempts s \<and> pc_repair_attempts s' = pc_repair_attempts s \<and>
         pc_conversation_id s' = pc_conversation_id s \<and> pc_targets s' = pc_targets s"
  using assms by (auto simp: transition_def Let_def split: option.splits if_splits)

lemma repair_named_after_transition:
  "transition next reason key input eff rcpt cls t s = (r, s') \<Longrightarrow> repair_named i s' = repair_named i s"
  using transition_parts by (fastforce simp: repair_named_def)

lemma micro_after_transition:
  assumes "transition nx reason key input eff rcpt cls t s = (x, s')" "repair_named i s = Ok r"
    and "repair_keeps r (g r)"
  shows "micro_path s' (set_repair i g s')"
proof (rule micro_repair [where r = r])
  show "repair_named i s' = Ok r" using repair_named_after_transition [OF assms(1), of i] assms(2) by simp
qed (rule assms(3))

lemma micro_pull_request:
  assumes "repair_named i s = Ok r" "\<And>r. repair_keeps r (g r)"
  shows "micro_path s (snd (try_step (transition nx reason key input eff rcpt cls t s) (\<lambda>_ s. (Ok (), set_repair i g s))))"
  by (rule micro_try [OF micro_transition]) (use micro_after_transition [OF _ assms(1), of _ _ _ _ _ _ _ _ _ _ g] assms(2) in auto)

lemma micro_record_repair_pull_request [micro_moves]:
  "micro_path s (snd (record_repair_pull_request i pr url input t s))"
  unfolding record_repair_pull_request_def Let_def
  by (auto split: sum.split option.split intro!: micro_pull_request repair_keeps_same_ledger)

lemma find_update_first:
  "find p xs = Some x \<Longrightarrow> p (f x) \<Longrightarrow> find p (update_first p f xs) = Some (f x)"
  by (induction xs) auto

lemma repair_named_Ok:
  "repair_named i s = Ok r \<longleftrightarrow> find (\<lambda>r. rp_id r = i) (pc_repair_attempts s) = Some r"
  by (auto simp: repair_named_def split: option.splits)

lemma repair_named_set:
  assumes "repair_named i s = Ok r" "rp_id (g r) = rp_id r"
  shows "repair_named i (set_repair i g s) = Ok (g r)"
proof -
  have "find (\<lambda>r. rp_id r = i) (pc_repair_attempts s) = Some r" using assms(1) by (simp add: repair_named_Ok)
  moreover from this have "rp_id r = i" by (auto simp: find_Some_iff)
  ultimately show ?thesis
    using assms(2) by (simp add: repair_named_Ok set_repair_def find_update_first)
qed

lemma micro_recover_pull_request:
  "repair_named i s = Ok r \<Longrightarrow> micro_path s (snd (recover_pull_request i r input t s))"
  unfolding recover_pull_request_def Let_def by (intro micro_done_transition micro_status)

lemma micro_request_changes:
  "repair_named i s = Ok r \<Longrightarrow> micro_path s (snd (request_changes i r' input t s))"
  unfolding request_changes_def Let_def by (auto intro!: micro_done_transition intro: micro_same_ledger)

lemma micro_resolve_feedback:
  "repair_named i s = Ok r \<Longrightarrow> micro_path s (snd (resolve_feedback i r' input t s))"
  unfolding resolve_feedback_def Let_def
  by (auto split: option.split intro!: micro_done_transition intro: micro_status)

lemma micro_advance_to_merge:
  "repair_named i s = Ok r \<Longrightarrow> micro_path s (snd (advance_to_merge i r' sn input t s))"
  unfolding advance_to_merge_def Let_def
  by (auto split: option.split intro!: micro_done_transition intro: micro_status)

lemma micro_reconcile_merged:
  assumes "repair_named i s = Ok r"
  shows "micro_path s (snd (reconcile_merged i r sn input t s))"
proof -
  have settle: "micro_path s (snd (try_step (record_provider_operation i key st d t s)
      (\<lambda>_ s. done_with (transition nx reason k inp eff rcpt cls t (set_repair i g s)))))"
    if "\<And>r. repair_keeps r (g r)" for key st d nx reason k inp eff rcpt cls g
  proof (rule micro_try [OF micro_record_provider_operation])
    fix x s'
    assume rec: "record_provider_operation i key st d t s = (Ok x, s')"
    then have "repair_named i s' \<noteq> Err e" for e
      using assms repair_named_set [OF assms]
      by (auto simp: record_provider_operation_def split: option.splits if_splits)
    then obtain r' where "repair_named i s' = Ok r'" by (cases "repair_named i s'") auto
    then show "micro_path s' (snd (done_with (transition nx reason k inp eff rcpt cls t (set_repair i g s'))))"
      by (intro micro_done_transition) (rule micro_repair [OF _ that])
  qed
  show ?thesis
    unfolding reconcile_merged_def
    by (auto split: option.split intro!: settle repair_keeps_same_ledger intro: micro_block_with [OF assms])
qed

lemma snd_done_with [simp]: "snd (done_with r) = snd r"
  by (cases r; cases "fst r") auto

lemma repair_named_transition [simp]:
  "repair_named i (snd (transition nx reason key input eff rcpt cls t s)) = repair_named i s"
  using repair_named_after_transition [of nx reason key input eff rcpt cls t s] by (metis surj_pair snd_conv)

lemma resolve_feedback_named:
  "repair_named i s = Ok r1 \<Longrightarrow> \<exists>r2. repair_named i (snd (resolve_feedback i r input t s)) = Ok r2"
  using repair_named_set [of i s r1 "\<lambda>r. r\<lparr>rp_status := RpAwaitingReview\<rparr>"]
  by (auto simp: resolve_feedback_def Let_def set_repair_status_def split: option.split)

lemma micro_reconcile_open_review:
  assumes "repair_named i s = Ok r"
  shows "micro_path s (snd (reconcile_open_review i r sn input t s))"
proof -
  define s1 where "s1 = (if is_current (sn_review_head_commit sn) r
      then set_repair i (\<lambda>r. r\<lparr>rp_review_feedback := sn_review_feedback sn\<rparr>) s else s)"
  have s1: "micro_path s s1" "\<exists>r1. repair_named i s1 = Ok r1"
    using assms repair_named_set [OF assms, of "\<lambda>r. r\<lparr>rp_review_feedback := sn_review_feedback sn\<rparr>"]
    by (auto simp: s1_def intro: micro_same_ledger)
  then obtain r1 where r1: "repair_named i s1 = Ok r1" by blast
  have rest: "\<exists>r2. repair_named i s2 = Ok r2" if "resolve_feedback i r input t s1 = (Ok x, s2)" for x s2
    using resolve_feedback_named [OF r1, of r input t] that by simp
  have "micro_path s1 (snd (reconcile_open_review i r sn input t s))"
    unfolding reconcile_open_review_def Let_def s1_def [symmetric]
    by (auto intro!: micro_try micro_request_changes [OF r1] micro_resolve_feedback [OF r1]
        micro_block_with [OF r1] micro_advance_to_merge [OF r1]
        dest!: rest intro: micro_block_with micro_advance_to_merge)
  then show ?thesis by (rule micro_via [OF s1(1)])
qed

lemma micro_reconcile_repair_provider [micro_moves]:
  "micro_path s (snd (reconcile_repair_provider i sn input t s))"
  unfolding reconcile_repair_provider_def
  by (auto split: sum.split option.split intro: micro_block_with micro_recover_pull_request
      micro_reconcile_merged micro_reconcile_open_review)

lemma micro_record_repair_refresh [micro_moves]:
  "micro_path s (snd (record_repair_refresh i commit path hash input t s))"
proof -
  have refreshed: "micro_path s (set_repair i g s\<lparr>pc_targets := ts\<rparr>)"
    if "micro_path s (set_repair i g s)" for g ts
    by (rule micro_via [OF that]) (rule micro_other, simp)
  show ?thesis
    unfolding record_repair_refresh_def Let_def
    by (auto simp del: snd_done_with split: sum.split option.split
        intro!: micro_done_transition refreshed intro: micro_same_ledger)
qed

lemma micro_complete [micro_moves]: "micro_path s (snd (complete i input t s))"
proof (cases "list_ex (final_attempt i input s) (pc_attempts s)")
  case True
  have ev: "micro_path s (s\<lparr>pc_final_evidence := e\<rparr>)" for s e by (rule micro_other) simp
  show ?thesis
    unfolding complete_def Let_def
    by (simp only: True not_True_eq_False if_False)
       (rule micro_try [OF micro_transition], rule micro_via [OF ev],
        rule micro_try [OF micro_transition], rule micro_done [OF micro_transition])
qed (simp add: complete_def)

lemma micro_cancel [micro_moves]:
  "micro_path s (snd (cancel reason input ack t s))"
  "micro_path s (snd (cancel_without_harness reason input t s))"
  unfolding cancel_def cancel_without_harness_def by (intro micro_done micro_transition)+

end
