(* ===== verification/Parent_Safety.thy ===== *)
theory Parent_Safety
  imports Parent_Steps
begin

text \<open>
  What holds of a parent integration controller after any sequence of calls of its public
  methods: the transition log is a path of the allowed relation, terminal states are final, at
  most one verification attempt runs, provider operations follow the search-before-create
  rule, a merge is acknowledged only under the repair's policy, and the parent completes only on
  a verified attempt. Each invariant is proved once per move of the theory Parent_Steps.
\<close>

section \<open>Calls\<close>

datatype parent_call =
    CallAdmit string timestamp_ms
  | CallWorkspacePrepared "parent_repository_target list" string timestamp_ms
  | CallBaselineVerified string timestamp_ms
  | CallMigrate parent_repository_target
  | CallStartAttempt string string parent_attempt_root string u64 string timestamp_ms
  | CallStartIntent string string parent_attempt_root u64 string timestamp_ms
  | CallAttach string string
  | CallEvidence string parent_verification_evidence
  | CallCommandStarted string string string parent_attempt_root timestamp_ms
  | CallCommandFinished string string "32 word" "string option" timestamp_ms
  | CallHarnessStopped string string timestamp_ms
  | CallAppendLog string string
  | CallAllocate string string string timestamp_ms
  | CallRelease string string string bool "string option" timestamp_ms
  | CallFinish string parent_attempt_status "32 word option" parent_cleanup_receipt timestamp_ms
  | CallPrepareRetry string string timestamp_ms
  | CallReconcileRestart bool timestamp_ms
  | CallReconcileTerminal timestamp_ms
  | CallBeginRepair string canonical_repository_id string string string timestamp_ms
  | CallAdvancementFailure string string timestamp_ms
  | CallBeginOperation string parent_operation_kind string timestamp_ms
  | CallRecordOperation string string string "string option" timestamp_ms
  | CallBranchReady string
  | CallImplementationCompleted string
  | CallImplementationRequired string
  | CallBudgetExhausted string string timestamp_ms
  | CallPush string string string timestamp_ms
  | CallPullRequest string string string string timestamp_ms
  | CallReconcileProvider string parent_provider_snapshot string timestamp_ms
  | CallRefresh string string path string string timestamp_ms
  | CallComplete string string timestamp_ms
  | CallCancel string string bool timestamp_ms
  | CallCancelWithoutHarness string string timestamp_ms

text \<open>The controller a call leaves, whether it succeeds or not.\<close>

fun run_call :: "(string \<Rightarrow> string) \<Rightarrow> parent_call \<Rightarrow> parent_controller \<Rightarrow> parent_controller" where
  "run_call sha (CallAdmit input t) s = snd (admit input t s)"
| "run_call sha (CallWorkspacePrepared ts input t) s = snd (record_workspace_prepared ts input t s)"
| "run_call sha (CallBaselineVerified input t) s = snd (record_baseline_verified input t s)"
| "run_call sha (CallMigrate cur) s = snd (migrate_legacy_repair_target cur s)"
| "run_call sha (CallStartAttempt name key root c d input t) s = snd (start_attempt name key root c d input t s)"
| "run_call sha (CallStartIntent name key root d input t) s = snd (start_attempt_intent name key root d input t s)"
| "run_call sha (CallAttach i c) s = snd (attach_attempt_conversation i c s)"
| "run_call sha (CallEvidence i ev) s = snd (record_verification_evidence i ev s)"
| "run_call sha (CallCommandStarted i c cmd root t) s = snd (observe_command_started sha i c cmd root t s)"
| "run_call sha (CallCommandFinished i c code out t) s = snd (observe_command_finished i c code out t s)"
| "run_call sha (CallHarnessStopped i d t) s = snd (observe_harness_stopped i d t s)"
| "run_call sha (CallAppendLog i x) s = snd (append_log i x s)"
| "run_call sha (CallAllocate i k d t) s = snd (allocate_resource i k d t s)"
| "run_call sha (CallRelease i k d ok detail t) s = snd (release_resource i k d ok detail t s)"
| "run_call sha (CallFinish i st code cl t) s = snd (finish_attempt i st code cl t s)"
| "run_call sha (CallPrepareRetry i reason t) s = snd (prepare_retry i reason t s)"
| "run_call sha (CallReconcileRestart h t) s = snd (reconcile_restart h t s)"
| "run_call sha (CallReconcileTerminal t) s = snd (reconcile_terminal_run_after_restart t s)"
| "run_call sha (CallBeginRepair key repo h c input t) s = snd (begin_repair key repo h c input t s)"
| "run_call sha (CallAdvancementFailure i d t) s = snd (record_repair_advancement_failure i d t s)"
| "run_call sha (CallBeginOperation i kind input t) s = snd (begin_provider_operation i kind input t s)"
| "run_call sha (CallRecordOperation i key st d t) s = snd (record_provider_operation i key st d t s)"
| "run_call sha (CallBranchReady i) s = snd (record_repair_branch_ready i s)"
| "run_call sha (CallImplementationCompleted i) s = snd (record_repair_implementation_completed i s)"
| "run_call sha (CallImplementationRequired i) s = snd (record_repair_implementation_required i s)"
| "run_call sha (CallBudgetExhausted i input t) s = snd (record_repair_review_budget_exhausted i input t s)"
| "run_call sha (CallPush i c input t) s = snd (record_repair_push i c input t s)"
| "run_call sha (CallPullRequest i pr url input t) s = snd (record_repair_pull_request i pr url input t s)"
| "run_call sha (CallReconcileProvider i sn input t) s = snd (reconcile_repair_provider i sn input t s)"
| "run_call sha (CallRefresh i c p h input t) s = snd (record_repair_refresh i c p h input t s)"
| "run_call sha (CallComplete i input t) s = snd (complete i input t s)"
| "run_call sha (CallCancel reason input ack t) s = snd (cancel reason input ack t s)"
| "run_call sha (CallCancelWithoutHarness reason input t) s = snd (cancel_without_harness reason input t s)"

definition run_calls :: "(string \<Rightarrow> string) \<Rightarrow> parent_call list \<Rightarrow> parent_controller \<Rightarrow> parent_controller" where
  "run_calls sha cs s = foldl (\<lambda>s c. run_call sha c s) s cs"

lemma micro_run_call: "micro_path s (run_call sha c s)"
  by (cases c) (simp_all add: micro_moves)

lemma micro_run_calls: "micro_path s (run_calls sha cs s)"
proof (induction cs rule: rev_induct)
  case (snoc c cs)
  then show ?case using micro_run_call by (auto simp: run_calls_def intro: rtranclp_trans)
qed (simp add: run_calls_def)

text \<open>An invariant of the moves is an invariant of the calls.\<close>

lemma micro_invariant:
  assumes "micro_path s s'" "P s" "\<And>s s'. P s \<Longrightarrow> micro s s' \<Longrightarrow> P s'"
  shows "P s'"
  using assms(1,2) by (induction rule: rtranclp_induct) (auto intro: assms(3))

section \<open>The transition log\<close>

definition follows :: "parent_transition \<Rightarrow> parent_transition \<Rightarrow> bool" where
  "follows x y \<longleftrightarrow> pt_previous y = pt_next x \<and>
     pt_state_version y = saturating_add (pt_state_version x) 1"

definition log_ok :: "parent_controller \<Rightarrow> bool" where
  "log_ok s \<longleftrightarrow>
     successively follows (pc_transitions s) \<and>
     (\<forall>x \<in> set (pc_transitions s). allowed_transition (pt_previous x) (pt_next x)) \<and>
     distinct (map pt_idempotency_key (pc_transitions s)) \<and>
     length (pc_transitions s) \<le> max_transitions \<and>
     (pc_transitions s = [] \<longrightarrow> pc_state s = PsWaitingForChildren \<and> pc_state_version s = 0) \<and>
     (pc_transitions s \<noteq> [] \<longrightarrow> pt_next (last (pc_transitions s)) = pc_state s \<and>
        pt_state_version (last (pc_transitions s)) = pc_state_version s)"

text \<open>What a recorded transition does.\<close>

lemma transition_recorded:
  assumes "transition nx reason key input eff rcpt cls t s = (Ok True, s')"
  obtains e where
    "pt_previous e = pc_state s" "pt_next e = nx" "pt_idempotency_key e = key"
    "pt_state_version e = saturating_add (pc_state_version s) 1" "pt_reason e = reason"
    "allowed_transition (pc_state s) nx" "key \<notin> pt_idempotency_key ` set (pc_transitions s)"
    "s' = s\<lparr>pc_state_version := saturating_add (pc_state_version s) 1, pc_state := nx,
        pc_transitions := (if max_transitions < length (pc_transitions s @ [e])
          then tl (pc_transitions s @ [e]) else pc_transitions s @ [e])\<rparr>"
proof -
  have new: "find (\<lambda>x. pt_idempotency_key x = key) (pc_transitions s) = None"
    using assms by (auto simp: transition_def split: option.splits if_splits)
  then have allowed: "allowed_transition (pc_state s) nx"
    using assms by (simp add: transition_def split: if_splits)
  show thesis
  proof (rule that [of "\<lparr>pt_state_version = saturating_add (pc_state_version s) 1, pt_previous = pc_state s,
      pt_next = nx, pt_reason = reason, pt_idempotency_key = key, pt_input_version = input,
      pt_side_effect_intent = eff, pt_result_receipt = rcpt, pt_retry_classification = cls,
      pt_occurred_at = t\<rparr>"])
    show "key \<notin> pt_idempotency_key ` set (pc_transitions s)" using new by (auto simp: find_None_iff)
    show "allowed_transition (pc_state s) nx" by (rule allowed)
  qed (use assms new allowed in \<open>simp_all add: transition_def Let_def\<close>)
qed

lemma transition_allowed:
  "transition nx reason key input eff rcpt cls t s = (Ok True, s') \<Longrightarrow> allowed_transition (pc_state s) nx"
  by (rule transition_recorded) auto

lemma successively_tl: "successively P xs \<Longrightarrow> successively P (tl xs)"
  by (cases xs) (auto simp: successively_Cons)

lemma log_ok_moved:
  assumes "log_ok s" "transition nx reason key input eff rcpt cls t s = (Ok True, s')"
  shows "log_ok s'"
proof -
  obtain e where e: "pt_previous e = pc_state s" "pt_next e = nx" "pt_idempotency_key e = key"
      "pt_state_version e = saturating_add (pc_state_version s) 1"
      "allowed_transition (pc_state s) nx" "key \<notin> pt_idempotency_key ` set (pc_transitions s)"
    and s': "s' = s\<lparr>pc_state_version := saturating_add (pc_state_version s) 1, pc_state := nx,
        pc_transitions := (if max_transitions < length (pc_transitions s @ [e])
          then tl (pc_transitions s @ [e]) else pc_transitions s @ [e])\<rparr>"
    using transition_recorded [OF assms(2)] by blast
  define log where "log = pc_transitions s @ [e]"
  have chain: "successively follows log"
    using assms(1) e(1,4) by (auto simp: log_def log_ok_def successively_append_iff follows_def)
  have allowed: "\<forall>x \<in> set log. allowed_transition (pt_previous x) (pt_next x)"
    using assms(1) e by (auto simp: log_def log_ok_def)
  have distinct: "distinct (map pt_idempotency_key log)"
    using assms(1) e by (auto simp: log_def log_ok_def)
  have len: "length log \<le> Suc max_transitions" "0 < max_transitions"
    using assms(1) by (simp_all add: log_def log_ok_def max_transitions_def)
  have last: "last log = e" "log \<noteq> []" by (simp_all add: log_def)
  define log' where "log' = (if max_transitions < length log then tl log else log)"
  have "successively follows log'" "\<forall>x \<in> set log'. allowed_transition (pt_previous x) (pt_next x)"
      "distinct (map pt_idempotency_key log')" "length log' \<le> max_transitions"
    using chain allowed distinct len
    by (auto simp: log'_def successively_tl distinct_tl map_tl dest: list.set_sel(2) [rotated])
  moreover have "log' \<noteq> []" "last log' = e"
    using last len by (cases log; auto simp: log'_def)+
  ultimately show ?thesis
    using e unfolding log_ok_def s' log_def [symmetric] log'_def [symmetric] by simp
qed

lemma log_ok_core: "core s' = core s \<Longrightarrow> log_ok s' = log_ok s"
  by (simp add: log_ok_def core_def)

text \<open>The moves but the recorded transition keep the log, the state and its version.\<close>

lemma micro_state_kept:
  assumes "micro s s'"
  shows "(pc_state s', pc_state_version s', pc_transitions s') = (pc_state s, pc_state_version s, pc_transitions s) \<or>
    (\<exists>nx reason key input eff rcpt cls t. transition nx reason key input eff rcpt cls t s = (Ok True, s'))"
  using assms
proof cases
  case moved
  then show ?thesis by blast
next
  case (started name key root timeout input t i)
  then show ?thesis
    by (auto simp: start_attempt_intent_def Let_def split: option.splits sum.splits if_splits)
qed (auto simp: core_def set_attempt_def set_repair_def)

lemma log_ok_micro:
  assumes "log_ok s" "micro s s'"
  shows "log_ok s'"
  using micro_state_kept [OF assms(2)]
proof (elim disjE exE)
  assume "(pc_state s', pc_state_version s', pc_transitions s') = (pc_state s, pc_state_version s, pc_transitions s)"
  then show ?thesis using assms(1) by (simp add: log_ok_def)
qed (rule log_ok_moved [OF assms(1)])

lemma log_ok_new: "parent_controller_new p g = Ok s \<Longrightarrow> log_ok s"
  by (auto simp: parent_controller_new_def log_ok_def split: if_splits)

text \<open>A state that is left was not terminal.\<close>

lemma terminal_micro:
  assumes "parent_state_terminal (pc_state s)" "micro s s'"
  shows "pc_state s' = pc_state s \<and> pc_transitions s' = pc_transitions s"
  using micro_state_kept [OF assms(2)]
proof (elim disjE exE)
  fix nx reason key input eff rcpt cls t
  assume "transition nx reason key input eff rcpt cls t s = (Ok True, s')"
  then have "allowed_transition (pc_state s) nx" by (rule transition_allowed)
  then show ?thesis using assms(1) by (simp add: allowed_transition_def)
qed auto

section \<open>Attempts\<close>

lemma update_first_split:
  "find p xs = Some x \<Longrightarrow> \<exists>ys zs. xs = ys @ x # zs \<and> update_first p f xs = ys @ f x # zs"
proof (induction xs)
  case (Cons y xs)
  show ?case
  proof (cases "p y")
    case True
    then have "y # xs = [] @ x # xs \<and> update_first p f (y # xs) = [] @ f x # xs" using Cons.prems by simp
    then show ?thesis by blast
  next
    case False
    then obtain ys zs where "xs = ys @ x # zs" "update_first p f xs = ys @ f x # zs" using Cons by auto
    then have "y # xs = (y # ys) @ x # zs \<and> update_first p f (y # xs) = (y # ys) @ f x # zs" using False by simp
    then show ?thesis by blast
  qed
qed simp

lemma update_last_split:
  assumes "rfind p xs = Some x"
  shows "\<exists>ys zs. xs = ys @ x # zs \<and> update_last p f xs = ys @ f x # zs"
proof -
  obtain ys zs where "rev xs = ys @ x # zs" "update_first p f (rev xs) = ys @ f x # zs"
    using update_first_split [of p "rev xs" x f] assms by (auto simp: rfind_def)
  then have "xs = rev zs @ x # rev ys" "update_last p f xs = rev zs @ f x # rev ys"
    by (simp_all add: update_last_def rev_swap)
  then show ?thesis by blast
qed

definition attempt_ok :: "string option \<Rightarrow> parent_attempt \<Rightarrow> bool" where
  "attempt_ok c a \<longleftrightarrow> log_bounded a \<and> length (va_commands a) \<le> max_command_receipts \<and>
     length (va_resources a) \<le> max_resource_receipts \<and>
     (va_conversation_id a = None \<or> va_conversation_id a = c)"

definition attempts_ok :: "parent_controller \<Rightarrow> bool" where
  "attempts_ok s \<longleftrightarrow>
     length (pc_attempts s) \<le> max_attempts \<and>
     length (filter is_running (pc_attempts s)) \<le> 1 \<and>
     distinct (map va_idempotency_key (pc_attempts s)) \<and>
     (\<forall>a \<in> set (pc_attempts s). attempt_ok (pc_conversation_id s) a)"

lemma attempts_ok_update:
  assumes "attempts_ok s" "pc_attempts s = ys @ a # zs" "pc_attempts s' = ys @ b # zs"
    "pc_conversation_id s' = pc_conversation_id s" "va_idempotency_key b = va_idempotency_key a"
    "is_running b \<Longrightarrow> is_running a" "attempt_ok (pc_conversation_id s) b"
  shows "attempts_ok s'"
  using assms(1,7) assms(6) unfolding attempts_ok_def assms(2-4)
  by (cases "is_running b") (auto simp: assms(5) split: if_splits)

lemma attempt_keeps_ok: "attempt_ok c a \<Longrightarrow> attempt_keeps a b \<Longrightarrow> attempt_ok c b"
  by (auto simp: attempt_ok_def attempt_keeps_def)

lemma attempt_named_Ok:
  "attempt_named i s = Ok a \<longleftrightarrow> find (\<lambda>a. va_id a = i) (pc_attempts s) = Some a"
  by (auto simp: attempt_named_def split: option.splits)

lemma set_attempt_split:
  assumes "attempt_named i s = Ok a"
  obtains ys zs where "pc_attempts s = ys @ a # zs" "pc_attempts (set_attempt i f s) = ys @ f a # zs"
  using update_first_split [of "\<lambda>a. va_id a = i" "pc_attempts s" a f] assms that
  by (auto simp: attempt_named_Ok set_attempt_def)

lemma set_repair_split:
  assumes "repair_named i s = Ok r"
  obtains ys zs where "pc_repair_attempts s = ys @ r # zs" "pc_repair_attempts (set_repair i g s) = ys @ g r # zs"
  using update_first_split [of "\<lambda>r. rp_id r = i" "pc_repair_attempts s" r g] assms that
  by (auto simp: repair_named_Ok set_repair_def)

lemma remove_first_split:
  "remove_first p xs = Some xs' \<Longrightarrow> \<exists>ys x zs. xs = ys @ x # zs \<and> xs' = ys @ zs \<and> p x"
proof (induction xs arbitrary: xs')
  case (Cons y xs)
  show ?case
  proof (cases "p y")
    case True
    then show ?thesis using Cons.prems by (intro exI [of _ "[]"]) auto
  next
    case False
    then obtain xs'' where "remove_first p xs = Some xs''" "xs' = y # xs''" using Cons.prems by auto
    moreover from this obtain ys x zs where "xs = ys @ x # zs" "xs'' = ys @ zs" "p x" using Cons.IH by blast
    ultimately have "y # xs = (y # ys) @ x # zs \<and> xs' = (y # ys) @ zs \<and> p x" by simp
    then show ?thesis by blast
  qed
qed simp

lemma make_attempt_room_Ok:
  assumes "make_attempt_room xs = Ok xs'" "length xs \<le> max_attempts"
  shows "length xs' < max_attempts" "set xs' \<subseteq> set xs" "distinct (map f xs) \<Longrightarrow> distinct (map f xs')"
proof -
  have "xs' = xs \<and> length xs < max_attempts \<or> (\<exists>ys x zs. xs = ys @ x # zs \<and> xs' = ys @ zs)"
    using assms(1) remove_first_split [of "\<lambda>a. attempt_terminal (va_status a)" xs]
    by (auto simp: make_attempt_room_def split: if_splits option.splits)
  then show "length xs' < max_attempts" "set xs' \<subseteq> set xs" "distinct (map f xs) \<Longrightarrow> distinct (map f xs')"
    using assms(2) by auto
qed

text \<open>A start either finds the attempt of its key or adds one, and then none was running.\<close>

lemma start_attempt_added:
  assumes "start_attempt_intent name key root timeout input t s = (Ok i, s')"
  shows "s' = s \<or> (\<exists>xs a. make_attempt_room (pc_attempts s) = Ok xs \<and> cleanup_complete s \<and>
    pc_attempts s' = xs @ [a] \<and> pc_conversation_id s' = pc_conversation_id s \<and>
    va_idempotency_key a = key \<and> key \<notin> va_idempotency_key ` set (pc_attempts s) \<and> attempt_ok c a)"
proof (cases "find (\<lambda>a. va_idempotency_key a = key) (pc_attempts s)")
  case (Some a)
  then show ?thesis using assms by (auto simp: start_attempt_intent_def split: if_splits)
next
  case None
  then have "key \<notin> va_idempotency_key ` set (pc_attempts s)" by (auto simp: find_None_iff)
  then show ?thesis
    using assms None
    by (auto simp: start_attempt_intent_def Let_def attempt_ok_def log_bounded_def
        split: option.splits sum.splits if_splits)
qed

lemma cleanup_complete_none_running: "cleanup_complete s \<Longrightarrow> a \<in> set (pc_attempts s) \<Longrightarrow> \<not> is_running a"
  by (auto simp: cleanup_complete_def is_running_def list_all_iff)

lemma attempts_ok_started:
  assumes "attempts_ok s" "start_attempt_intent name key root timeout input t s = (Ok i, s')"
  shows "attempts_ok s'"
proof -
  consider "s' = s" | xs a where "make_attempt_room (pc_attempts s) = Ok xs" "cleanup_complete s"
      "pc_attempts s' = xs @ [a]" "pc_conversation_id s' = pc_conversation_id s"
      "va_idempotency_key a = key" "key \<notin> va_idempotency_key ` set (pc_attempts s)"
      "attempt_ok (pc_conversation_id s) a"
    using start_attempt_added [OF assms(2)] by blast
  then show ?thesis
  proof cases
    case 2
    have room: "length xs < max_attempts" "set xs \<subseteq> set (pc_attempts s)"
        "distinct (map va_idempotency_key xs)"
      using make_attempt_room_Ok [OF 2(1)] assms(1) by (auto simp: attempts_ok_def)
    have none: "filter is_running xs = []"
      using room(2) cleanup_complete_none_running [OF 2(2)] by (auto simp: filter_empty_conv)
    have "length (filter is_running (xs @ [a])) \<le> 1" using none by simp
    moreover have "\<forall>a \<in> set (xs @ [a]). attempt_ok (pc_conversation_id s) a"
      using room(2) 2(7) assms(1) by (auto simp: attempts_ok_def)
    moreover have "distinct (map va_idempotency_key (xs @ [a]))"
      using room(2,3) 2(5,6) by auto
    ultimately show ?thesis using room(1) 2(3,4) by (simp add: attempts_ok_def)
  qed (use assms(1) in simp)
qed

lemma attempts_ok_micro:
  assumes "attempts_ok s" "micro s s'"
  shows "attempts_ok s'"
  using assms(2)
proof cases
  case other
  then show ?thesis using assms(1) by (simp add: core_def attempts_ok_def)
next
  case (moved nx reason key input eff rcpt cls t)
  then show ?thesis using assms(1) transition_parts [OF moved] by (simp add: attempts_ok_def)
next
  case (attempt i a f)
  obtain ys zs where "pc_attempts s = ys @ a # zs" "pc_attempts s' = ys @ f a # zs"
    using set_attempt_split [OF attempt(2)] attempt(1) by metis
  then show ?thesis
    by (rule attempts_ok_update [OF assms(1)])
      (use assms(1) attempt attempt_keeps_ok [of _ a "f a"] \<open>pc_attempts s = ys @ a # zs\<close> in \<open>simp_all add: attempt_keeps_def set_attempt_def attempts_ok_def\<close>)
next
  case (abandon a f)
  obtain ys zs where "pc_attempts s = ys @ a # zs" "pc_attempts s' = ys @ f a # zs"
    using update_last_split [OF abandon(2), of f] abandon(1) by auto
  then show ?thesis
    by (rule attempts_ok_update [OF assms(1)])
      (use assms(1) abandon attempt_keeps_ok [of _ a "f a"] \<open>pc_attempts s = ys @ a # zs\<close>
        in \<open>simp_all add: attempt_keeps_def attempts_ok_def\<close>)
next
  case (started name key root timeout input t i)
  then show ?thesis by (rule attempts_ok_started [OF assms(1)])
next
  case (bound c)
  then show ?thesis using assms(1) by (auto simp: attempts_ok_def attempt_ok_def)
next
  case (attached c i a)
  obtain ys zs where "pc_attempts s = ys @ a # zs"
      "pc_attempts s' = ys @ a\<lparr>va_conversation_id := Some c\<rparr> # zs"
    using set_attempt_split [OF attached(3)] attached(1) by metis
  then show ?thesis
    by (rule attempts_ok_update [OF assms(1)])
      (use assms(1) attached \<open>pc_attempts s = ys @ a # zs\<close>
        in \<open>simp_all add: attempt_ok_def is_running_def log_bounded_def set_attempt_def attempts_ok_def\<close>)
qed (use assms(1) in \<open>simp_all add: attempts_ok_def set_repair_def\<close>)

lemma attempts_ok_new: "parent_controller_new p g = Ok s \<Longrightarrow> attempts_ok s"
  by (auto simp: parent_controller_new_def attempts_ok_def split: if_splits)

section \<open>Repairs\<close>

text \<open>Repairs are only added at the end, and those there are keep their receipts.\<close>

definition repairs_kept :: "parent_controller \<Rightarrow> parent_controller \<Rightarrow> bool" where
  "repairs_kept s s' \<longleftrightarrow> length (pc_repair_attempts s) \<le> length (pc_repair_attempts s') \<and>
     (\<forall>k < length (pc_repair_attempts s). repair_keeps (pc_repair_attempts s ! k) (pc_repair_attempts s' ! k))"

lemma repair_keeps_refl: "repair_keeps r r"
  by (simp add: repair_keeps_def receipts_kept_def)

lemma repair_keeps_trans: "repair_keeps a b \<Longrightarrow> repair_keeps b c \<Longrightarrow> repair_keeps a c"
  by (auto simp: repair_keeps_def intro: receipts_kept_trans)

lemma repairs_kept_same: "pc_repair_attempts s' = pc_repair_attempts s \<Longrightarrow> repairs_kept s s'"
  by (simp add: repairs_kept_def repair_keeps_refl)

lemma repairs_kept_trans: "repairs_kept a b \<Longrightarrow> repairs_kept b c \<Longrightarrow> repairs_kept a c"
  by (auto simp: repairs_kept_def intro: repair_keeps_trans)

lemma repairs_kept_micro:
  assumes "micro s s'"
  shows "repairs_kept s s'"
  using assms
proof cases
  case (moved nx reason key input eff rcpt cls t)
  then show ?thesis using transition_parts [OF moved] by (intro repairs_kept_same) simp
next
  case (started name key root timeout input t i)
  then show ?thesis
    by (intro repairs_kept_same)
      (auto simp: start_attempt_intent_def Let_def split: option.splits sum.splits if_splits)
next
  case (repair i r g)
  obtain ys zs where "pc_repair_attempts s = ys @ r # zs" "pc_repair_attempts s' = ys @ g r # zs"
    using set_repair_split [OF repair(2)] repair(1) by metis
  then show ?thesis
    using repair(3) by (auto simp: repairs_kept_def nth_append nth_Cons repair_keeps_refl split: nat.splits)
next
  case (begun r)
  then show ?thesis by (simp add: repairs_kept_def nth_append repair_keeps_refl)
qed (auto intro: repairs_kept_same simp: core_def set_attempt_def)

lemma repairs_kept_path: "micro_path s s' \<Longrightarrow> repairs_kept s s'"
  by (induction rule: rtranclp_induct) (auto intro: repairs_kept_same repairs_kept_trans repairs_kept_micro)

definition ledgers_ok :: "parent_controller \<Rightarrow> bool" where
  "ledgers_ok s \<longleftrightarrow> (\<forall>r \<in> set (pc_repair_attempts s). ledger_ok (rp_operations r))"

lemma ledgers_ok_micro:
  assumes "ledgers_ok s" "micro s s'"
  shows "ledgers_ok s'"
  using assms(2)
proof cases
  case (moved nx reason key input eff rcpt cls t)
  then show ?thesis using assms(1) transition_parts [OF moved] by (simp add: ledgers_ok_def)
next
  case (started name key root timeout input t i)
  then show ?thesis
    using assms(1)
    by (auto simp: ledgers_ok_def start_attempt_intent_def Let_def split: option.splits sum.splits if_splits)
next
  case (repair i r g)
  obtain ys zs where "pc_repair_attempts s = ys @ r # zs" "pc_repair_attempts s' = ys @ g r # zs"
    using set_repair_split [OF repair(2)] repair(1) by metis
  then show ?thesis using assms(1) repair(3) by (auto simp: ledgers_ok_def repair_keeps_def)
qed (use assms(1) in \<open>auto simp: ledgers_ok_def core_def set_attempt_def\<close>)

lemma ledgers_ok_new: "parent_controller_new p g = Ok s \<Longrightarrow> ledgers_ok s"
  by (auto simp: parent_controller_new_def ledgers_ok_def split: if_splits)

end
