(* ===== verification/Parent_Entry.thy ===== *)
theory Parent_Entry
  imports Parent_Safety
begin

text \<open>
  Which states each method of the parent integration controller can enter, and under what
  conditions it enters the two that matter most: the refresh after an acknowledged merge and
  the completion of the parent.
\<close>

section \<open>The states a call may enter\<close>

fun may_enter :: "parent_call \<Rightarrow> parent_state \<Rightarrow> bool" where
  "may_enter (CallAdmit _ _) x \<longleftrightarrow>
     x = PsWaitingForChildMerges \<or> x = PsAcquiringChildLeases \<or> x = PsPreparingIntegrationWorkspace"
| "may_enter (CallWorkspacePrepared _ _ _) x \<longleftrightarrow> x = PsRefreshingRepositories \<or> x = PsIntegrating"
| "may_enter (CallBaselineVerified _ _) x \<longleftrightarrow> x = PsIntegrating"
| "may_enter (CallPrepareRetry _ _ _) x \<longleftrightarrow> x = PsRefreshingRepositories"
| "may_enter (CallReconcileRestart _ _) x \<longleftrightarrow> x = PsRefreshingRepositories"
| "may_enter (CallReconcileTerminal _) x \<longleftrightarrow> x = PsRefreshingRepositories"
| "may_enter (CallBeginRepair _ _ _ _ _ _) x \<longleftrightarrow> is_fixing x"
| "may_enter (CallBudgetExhausted _ _ _) x \<longleftrightarrow> is_blocked x"
| "may_enter (CallPush _ _ _ _) x \<longleftrightarrow> is_awaiting_review x"
| "may_enter (CallPullRequest _ _ _ _ _) x \<longleftrightarrow> is_awaiting_review x"
| "may_enter (CallReconcileProvider _ _ _ _) x \<longleftrightarrow>
     is_blocked x \<or> is_fixing x \<or> is_awaiting_review x \<or> is_awaiting_merge x \<or> x = PsRefreshingAfterFixes"
| "may_enter (CallRefresh _ _ _ _ _ _) x \<longleftrightarrow> x = PsIntegrating"
| "may_enter (CallComplete _ _ _) x \<longleftrightarrow> x = PsFinalVerification \<or> x = PsFinalizing \<or> x = PsCompleted"
| "may_enter (CallCancel r _ _ _) x \<longleftrightarrow> x = PsCanceled r"
| "may_enter (CallCancelWithoutHarness r _ _) x \<longleftrightarrow> x = PsCanceled r"
| "may_enter _ x \<longleftrightarrow> False"

definition enters :: "(parent_state \<Rightarrow> bool) \<Rightarrow> parent_controller \<Rightarrow> parent_controller \<Rightarrow> bool" where
  "enters N s s' \<longleftrightarrow> pc_state s' = pc_state s \<or> N (pc_state s')"

lemma enters_same: "pc_state s' = pc_state s \<Longrightarrow> enters N s s'"
  by (simp add: enters_def)

lemma enters_trans: "enters N s s1 \<Longrightarrow> enters N s1 s2 \<Longrightarrow> enters N s s2"
  by (auto simp: enters_def)

lemma enters_transition:
  "N nx \<Longrightarrow> enters N s (snd (transition nx reason key input eff rcpt cls t s))"
  by (auto simp: enters_def transition_def Let_def split: option.splits)

lemma enters_done: "enters N s (snd r) \<Longrightarrow> enters N s (snd (done_with r))"
  by simp

lemma enters_via: "pc_state s1 = pc_state s \<Longrightarrow> enters N s1 s' \<Longrightarrow> enters N s s'"
  by (simp add: enters_def)

lemma enters_try:
  assumes "enters N s (snd r)" "\<And>x s'. r = (Ok x, s') \<Longrightarrow> enters N s' (snd (k x s'))"
  shows "enters N s (snd (try_step r k))"
proof (cases r)
  case (Pair e s')
  then show ?thesis using assms by (cases e) (auto intro: enters_trans)
qed

lemma enters_done_transition:
  "N nx \<Longrightarrow> pc_state s1 = pc_state s \<Longrightarrow>
   enters N s (snd (done_with (transition nx reason key input eff rcpt cls t s1)))"
  by (blast intro: enters_via enters_done enters_transition)

lemma state_set [simp]:
  "pc_state (set_attempt i f s) = pc_state s" "pc_state (set_repair i g s) = pc_state s"
  "pc_state (set_repair_status i st s) = pc_state s"
  by (simp_all add: set_attempt_def set_repair_def set_repair_status_def)

named_theorems enter_rules \<open>which states each method enters\<close>

subsection \<open>Methods that keep the state\<close>

lemma enters_attach [enter_rules]: "enters N s (snd (attach_attempt_conversation i c s))"
  unfolding attach_attempt_conversation_def
  by (rule enters_try; force intro: enters_same split: option.split sum.split)

lemma enters_start_intent [enter_rules]:
  "enters N s (snd (start_attempt_intent name key root d input t s))"
  by (auto simp: start_attempt_intent_def Let_def intro!: enters_same split: option.split sum.split)

lemma enters_start [enter_rules]: "enters N s (snd (start_attempt name key root c d input t s))"
  unfolding start_attempt_def
  by (intro enters_try enters_start_intent enters_attach) (simp add: enters_same)

lemma enters_evidence [enter_rules]: "enters N s (snd (record_verification_evidence i ev s))"
  by (auto simp: record_verification_evidence_def Let_def intro!: enters_same split: sum.split)

lemma enters_append_log [enter_rules]: "enters N s (snd (append_log i x s))"
  by (auto simp: append_log_def intro!: enters_same split: sum.split)

lemma enters_allocate [enter_rules]: "enters N s (snd (allocate_resource i k d t s))"
  by (auto simp: allocate_resource_def intro!: enters_same split: sum.split)

lemma enters_release [enter_rules]: "enters N s (snd (release_resource i k d ok detail t s))"
  by (auto simp: release_resource_def intro!: enters_same split: sum.split)

lemma enters_command_started [enter_rules]:
  "enters N s (snd (observe_command_started sha i c cmd root t s))"
  unfolding observe_command_started_def Let_def
  by (auto split: sum.split option.split intro: enters_same enters_via [OF _ enters_allocate])

lemma enters_command_finished [enter_rules]:
  "enters N s (snd (observe_command_finished i c code out t s))"
  unfolding observe_command_finished_def Let_def
  by (auto split: sum.split option.split intro: enters_same enters_via [OF _ enters_release]
      enters_via [OF _ enters_try [OF enters_append_log enters_release]])

lemma enters_release_processes: "enters N s (snd (release_processes i ps d t s))"
proof (induction ps arbitrary: s)
  case (Cons p ps)
  show ?case by (simp, rule enters_try [OF enters_release Cons.IH])
qed (simp add: enters_same)

lemma enters_harness_stopped [enter_rules]: "enters N s (snd (observe_harness_stopped i d t s))"
  unfolding observe_harness_stopped_def
  by (auto simp: Let_def split: sum.split intro!: enters_try enters_release_processes intro: enters_same)

lemma enters_finish [enter_rules]: "enters N s (snd (finish_attempt i st code cl t s))"
  by (auto simp: finish_attempt_def intro!: enters_same split: sum.split)

lemma enters_migrate [enter_rules]: "enters N s (snd (migrate_legacy_repair_target cur s))"
  by (auto simp: migrate_legacy_repair_target_def Let_def intro!: enters_same split: option.split)

lemma enters_operations [enter_rules]:
  "enters N s (snd (begin_provider_operation i kind input t s))"
  "enters N s (snd (record_provider_operation i key st d t s))"
  "enters N s (snd (record_repair_advancement_failure i dt t s))"
  "enters N s (snd (record_repair_branch_ready i s))"
  "enters N s (snd (record_repair_implementation_completed i s))"
  "enters N s (snd (record_repair_implementation_required i s))"
  by (auto simp: begin_provider_operation_def record_provider_operation_def Let_def
      record_repair_advancement_failure_def record_repair_branch_ready_def
      record_repair_implementation_completed_def record_repair_implementation_required_def
      intro!: enters_same split: sum.split option.split)

subsection \<open>Methods that move\<close>

lemma enters_admit [enter_rules]: "enters (may_enter (CallAdmit input t)) s (snd (admit input t s))"
proof -
  have "enters (may_enter (CallAdmit input t)) s (snd (admit_transitions input t s))"
    unfolding admit_transitions_def by (intro enters_try enters_transition; simp)
  moreover obtain r s' where "admit_transitions input t s = (r, s')" by (metis surj_pair)
  ultimately show ?thesis
    by (cases r; cases "pc_admission_input_version s") (simp_all add: admit_def enters_def)
qed

lemma enters_baseline:
  "N PsIntegrating \<Longrightarrow> enters N s (snd (record_baseline_verified input t s))"
  unfolding record_baseline_verified_def Let_def
  by (cases "cleanup_complete s") (simp_all only: not_True_eq_False not_False_eq_True if_True if_False
      enters_done_transition snd_conv enters_same)

lemma enters_workspace:
  assumes "N PsRefreshingRepositories" "N PsIntegrating"
  shows "enters N s (snd (record_workspace_prepared ts input t s))"
proof -
  define s1 where "s1 = s\<lparr>pc_targets := foldl (\<lambda>m x. omap_insert (tg_repository_id x) x m) [] ts\<rparr>"
  have "enters N s1 (snd (record_workspace_prepared ts input t s))"
    unfolding record_workspace_prepared_def Let_def s1_def [symmetric]
    using assms by (auto intro!: enters_try enters_transition enters_baseline)
  then show ?thesis by (rule enters_via [rotated]) (simp add: s1_def)
qed

lemma enters_prepare_retry:
  "N PsRefreshingRepositories \<Longrightarrow> enters N s (snd (prepare_retry i reason t s))"
  unfolding prepare_retry_def Let_def
  by (cases "attempt_named i s") (simp_all only: sum.case snd_conv enters_same enters_done_transition)

lemma enters_abandon:
  "N PsRefreshingRepositories \<Longrightarrow> enters N s (snd (abandon_running f reason t a s))"
  unfolding abandon_running_def Let_def
  by (auto intro: enters_same enters_via [OF _ enters_prepare_retry])

lemma enters_reconcile_attempts:
  assumes "N PsRefreshingRepositories"
  shows "enters N s (snd (reconcile_restart h t s))"
    and "enters N s (snd (reconcile_terminal_run_after_restart t s))"
  unfolding reconcile_restart_def reconcile_terminal_run_after_restart_def Let_def
  by (cases "rfind is_running (pc_attempts s)";
      simp only: option.case snd_conv enters_same enters_abandon [of N, OF assms] split: if_split; simp)+

lemma enters_begin_repair:
  assumes "\<And>r n. N (PsFixing r n)"
  shows "enters N s (snd (begin_repair key repo h c input t s))"
proof -
  have step: "enters N s (snd (try_step (transition (PsFixing repo n) reason k inp eff rc cls t
      (s\<lparr>pc_next_repair_sequence := n\<rparr>)) (\<lambda>_ s. (Ok i, s\<lparr>pc_repair_attempts := pc_repair_attempts s @ [r]\<rparr>))))"
    for n reason k inp eff rc cls i r
    by (rule enters_via [of "s\<lparr>pc_next_repair_sequence := n\<rparr>"], simp,
        rule enters_try [OF enters_transition [where N = N, OF assms]]) (simp add: enters_same)
  show ?thesis
    unfolding begin_repair_def Let_def
    by (auto split: option.split intro!: step intro: enters_same)
qed

lemma enters_block: "N (PsBlocked reason) \<Longrightarrow> enters N s (snd (block_repair i reason input t s))"
  unfolding block_repair_def Let_def by (intro enters_done enters_transition)

lemma enters_block_with: "N (PsBlocked reason) \<Longrightarrow> enters N s (snd (block_with st i reason input t s))"
  unfolding block_with_def by (rule enters_via [OF _ enters_block]) simp

lemma enters_budget:
  "(\<And>r. N (PsBlocked r)) \<Longrightarrow> enters N s (snd (record_repair_review_budget_exhausted i input t s))"
  unfolding record_repair_review_budget_exhausted_def
  by (auto split: sum.split intro: enters_same enters_via [OF _ enters_block])

lemma enters_push:
  assumes "\<And>r n p. N (PsAwaitingFixReview r n p)"
  shows "enters N s (snd (record_repair_push i c input t s))"
  unfolding record_repair_push_def Let_def
  by (auto simp del: snd_done_with split: sum.split option.split
      intro!: enters_done_transition assms intro: enters_same)

lemma enters_pull_request:
  assumes "\<And>r n p. N (PsAwaitingFixReview r n p)"
  shows "enters N s (snd (record_repair_pull_request i pr url input t s))"
  unfolding record_repair_pull_request_def Let_def
  by (auto split: sum.split option.split intro!: enters_try enters_transition assms intro: enters_same)

lemma enters_refresh:
  "N PsIntegrating \<Longrightarrow> enters N s (snd (record_repair_refresh i c p h input t s))"
  unfolding record_repair_refresh_def Let_def
  by (auto simp del: snd_done_with split: sum.split option.split
      intro!: enters_done_transition intro: enters_same)

lemma enters_complete:
  assumes "N PsFinalVerification" "N PsFinalizing" "N PsCompleted"
  shows "enters N s (snd (complete i input t s))"
proof (cases "list_ex (final_attempt i input s) (pc_attempts s)")
  case True
  have ev: "pc_state s = pc_state (s\<lparr>pc_final_evidence := e\<rparr>)" for s e by simp
  show ?thesis
    unfolding complete_def Let_def
    by (simp only: True not_True_eq_False if_False)
       (rule enters_try [OF enters_transition], rule assms, rule enters_via [OF ev [symmetric]],
        rule enters_try [OF enters_transition], rule assms, rule enters_done [OF enters_transition], rule assms)
qed (simp add: complete_def enters_same)

lemma enters_cancel:
  "N (PsCanceled reason) \<Longrightarrow> enters N s (snd (cancel reason input ack t s))"
  "N (PsCanceled reason) \<Longrightarrow> enters N s (snd (cancel_without_harness reason input t s))"
  unfolding cancel_def cancel_without_harness_def by (intro enters_done enters_transition; assumption)+

subsection \<open>Reconciling with the provider\<close>

text \<open>What an acknowledged merge rests on: an open merge intent of this very head, the head
  the provider shows, its checks and its review as the policy requires them, and a merge commit
  that the target contains.\<close>

definition merge_authorized :: "string \<Rightarrow> parent_provider_snapshot \<Rightarrow> parent_repair_attempt \<Rightarrow> bool" where
  "merge_authorized input sn r \<longleftrightarrow>
     sn_provider_available sn \<and> sn_merged sn \<and> sn_target_contains_merge_result sn \<and>
     is_current (sn_head_commit sn) r \<and> checks_satisfied sn r \<and> merged_review_satisfied sn r \<and>
     (\<exists>c. sn_merge_result_commit sn = Some c \<and> trim c \<noteq> []) \<and>
     (\<exists>op \<in> set (rp_operations r). op_kind op = Merge \<and> op_receipt op = None \<and>
        op_input_version op = merge_input_version input r)"

lemma rfind_Some:
  assumes "rfind p xs = Some x"
  shows "x \<in> set xs \<and> p x"
proof -
  obtain i where "i < length (rev xs)" "p (rev xs ! i)" "x = rev xs ! i"
    using assms unfolding rfind_def find_Some_iff by blast
  then show ?thesis using nth_mem [of i "rev xs"] by (simp only: set_rev)
qed

lemma pending_merge_Some:
  "pending_merge input r = Some op \<Longrightarrow> op \<in> set (rp_operations r) \<and> op_kind op = Merge \<and>
     op_receipt op = None \<and> op_input_version op = merge_input_version input r"
  unfolding pending_merge_def by (drule rfind_Some) blast

text \<open>The states of a repair, all of which a reconciliation may enter.\<close>

definition repair_state :: "parent_state \<Rightarrow> bool" where
  "repair_state x \<longleftrightarrow> is_blocked x \<or> is_fixing x \<or> is_awaiting_review x \<or> is_awaiting_merge x"

lemma repair_stateD:
  "repair_state \<le> N \<Longrightarrow> N (PsBlocked reason)" "repair_state \<le> N \<Longrightarrow> N (PsFixing repo n)"
  "repair_state \<le> N \<Longrightarrow> N (PsAwaitingFixReview repo n pr)"
  "repair_state \<le> N \<Longrightarrow> N (PsAwaitingFixMerge repo n pr)"
  by (auto simp: repair_state_def dest!: predicate1D)

lemma enters_recover: "repair_state \<le> N \<Longrightarrow> enters N s (snd (recover_pull_request i r input t s))"
  unfolding recover_pull_request_def Let_def by (rule enters_done_transition [where N = N]) (auto intro: repair_stateD)

lemma enters_request_changes:
  "repair_state \<le> N \<Longrightarrow> enters N s (snd (request_changes i r input t s))"
  unfolding request_changes_def Let_def
  by (auto simp del: snd_done_with intro!: enters_done_transition [where N = N] intro: enters_same repair_stateD)

lemma enters_resolve_feedback:
  "repair_state \<le> N \<Longrightarrow> enters N s (snd (resolve_feedback i r input t s))"
  unfolding resolve_feedback_def Let_def
  by (auto simp del: snd_done_with split: option.split
      intro!: enters_done_transition [where N = N] intro: enters_same repair_stateD)

lemma enters_advance:
  "repair_state \<le> N \<Longrightarrow> enters N s (snd (advance_to_merge i r sn input t s))"
  unfolding advance_to_merge_def Let_def
  by (auto simp del: snd_done_with split: option.split
      intro!: enters_done_transition [where N = N] intro: enters_same repair_stateD)

lemma enters_open_review:
  assumes "repair_state \<le> N"
  shows "enters N s (snd (reconcile_open_review i r sn input t s))"
proof -
  define s1 where "s1 = (if is_current (sn_review_head_commit sn) r
      then set_repair i (\<lambda>r. r\<lparr>rp_review_feedback := sn_review_feedback sn\<rparr>) s else s)"
  have "enters N s1 (snd (reconcile_open_review i r sn input t s))"
    unfolding reconcile_open_review_def Let_def s1_def [symmetric]
    by (auto intro!: enters_try enters_request_changes enters_resolve_feedback enters_advance
        enters_block_with [where N = N] assms intro: enters_same repair_stateD [OF assms])
  then show ?thesis by (rule enters_via [rotated]) (simp add: s1_def)
qed

lemma enters_merged:
  assumes "repair_state \<le> N" "sn_provider_available sn" "sn_merged sn"
    and "merge_authorized input sn r \<Longrightarrow> N PsRefreshingAfterFixes"
  shows "enters N s (snd (reconcile_merged i r sn input t s))"
proof -
  have merged: "N PsRefreshingAfterFixes"
    if "find (\<lambda>c. trim c \<noteq> []) (opt_list (sn_merge_result_commit sn)) = Some c"
      "pending_merge input r = Some op" "is_current (sn_head_commit sn) r" "checks_satisfied sn r"
      "merged_review_satisfied sn r" "sn_target_contains_merge_result sn" for c op
    using that pending_merge_Some [OF that(2)] assms(2,3)
    by (intro assms(4)) (auto simp: merge_authorized_def opt_list_def split: option.splits if_splits)
  show ?thesis
    unfolding reconcile_merged_def
    by (auto simp del: snd_done_with split: option.split
        intro!: enters_block_with [where N = N] enters_try enters_operations
          enters_done_transition [where N = N]
        intro: enters_same merged repair_stateD [OF assms(1)])
qed

lemma enters_reconcile_provider:
  assumes "repair_state \<le> N"
    and "\<And>r. repair_named i s = Ok r \<Longrightarrow> merge_authorized input sn r \<Longrightarrow> N PsRefreshingAfterFixes"
  shows "enters N s (snd (reconcile_repair_provider i sn input t s))"
  unfolding reconcile_repair_provider_def
  by (auto split: sum.split option.split intro!: enters_block_with [where N = N] enters_recover
      enters_merged enters_open_review assms(1) intro: enters_same assms(2) repair_stateD [OF assms(1)])

text \<open>Every call enters only the states listed for it.\<close>

lemma run_call_enters: "enters (may_enter c) s (run_call sha c s)"
  by (cases c) (simp_all add: enter_rules enters_baseline enters_workspace enters_prepare_retry
      enters_reconcile_attempts enters_begin_repair enters_budget enters_push enters_pull_request
      enters_refresh enters_complete enters_cancel enters_reconcile_provider le_fun_def repair_state_def)

section \<open>The merge\<close>

lemma merge_entry:
  assumes "pc_state (run_call sha c s) = PsRefreshingAfterFixes" "pc_state s \<noteq> PsRefreshingAfterFixes"
  obtains i sn input t r where "c = CallReconcileProvider i sn input t" "repair_named i s = Ok r"
    "merge_authorized input sn r"
proof -
  have "may_enter c PsRefreshingAfterFixes" using run_call_enters [of c s sha] assms by (simp add: enters_def)
  then obtain i sn input t where c: "c = CallReconcileProvider i sn input t" by (cases c) auto
  have "\<exists>r. repair_named i s = Ok r \<and> merge_authorized input sn r"
  proof (rule ccontr)
    assume "\<nexists>r. repair_named i s = Ok r \<and> merge_authorized input sn r"
    then have "enters (\<lambda>x. x \<noteq> PsRefreshingAfterFixes) s (snd (reconcile_repair_provider i sn input t s))"
      by (intro enters_reconcile_provider) (auto simp: repair_state_def)
    then show False using assms c by (simp add: enters_def)
  qed
  with c that show thesis by blast
qed

section \<open>Completion\<close>

lemma completion_entry:
  assumes "pc_state (run_call sha c s) = PsCompleted" "pc_state s \<noteq> PsCompleted"
  obtains i input t a where "c = CallComplete i input t" "a \<in> set (pc_attempts s)" "final_attempt i input s a"
proof -
  have "may_enter c PsCompleted" using run_call_enters [of c s sha] assms by (simp add: enters_def)
  then obtain i input t where c: "c = CallComplete i input t" by (cases c) auto
  have "list_ex (final_attempt i input s) (pc_attempts s)"
    using assms c by (auto simp: complete_def split: if_splits)
  with c that show thesis by (auto simp: list_ex_iff)
qed

text \<open>The first call of a run after which a property holds.\<close>

lemma run_calls_snoc [simp]: "run_calls sha (cs @ [c]) s = run_call sha c (run_calls sha cs s)"
  by (simp add: run_calls_def)

lemma run_calls_first:
  assumes "P (run_calls sha cs s)" "\<not> P s"
  obtains ds c es where "cs = ds @ c # es" "\<not> P (run_calls sha ds s)" "P (run_call sha c (run_calls sha ds s))"
  using assms
proof (induction cs arbitrary: thesis rule: rev_induct)
  case Nil
  then show ?case by (simp add: run_calls_def)
next
  case (snoc c cs)
  show ?case
  proof (cases "P (run_calls sha cs s)")
    case True
    obtain ds d es where "cs = ds @ d # es" "\<not> P (run_calls sha ds s)" "P (run_call sha d (run_calls sha ds s))"
      using snoc.IH [OF _ True snoc.prems(3)] by blast
    then show ?thesis using snoc.prems(1) [of ds d "es @ [c]"] by simp
  next
    case False
    then show ?thesis using snoc.prems(1) [of cs c "[]"] snoc.prems(2) by simp
  qed
qed

end
