(* ===== verification/Parent_Properties.thy ===== *)
theory Parent_Properties
  imports Parent_Entry
begin

text \<open>
  The properties of the parent integration controller over whole runs, with the run that takes a
  parent from its creation to its completion, and the two places where the controller does not
  do what its constants and its callers expect.
\<close>

section \<open>A run to completion\<close>

definition log_keys :: "parent_controller \<Rightarrow> string set" where
  "log_keys s = pt_idempotency_key ` set (pc_transitions s)"

text \<open>What a transition leaves alone.\<close>

definition frame where
  "frame s = (pc_parent_id s, pc_hierarchy_generation s, pc_targets s, pc_attempts s, pc_conversation_id s,
     pc_repair_attempts s, pc_next_attempt_sequence s, pc_final_evidence s)"

definition moved_to :: "parent_state \<Rightarrow> string \<Rightarrow> parent_controller \<Rightarrow> parent_controller \<Rightarrow> bool" where
  "moved_to nx key s s' \<longleftrightarrow> pc_state s' = nx \<and> log_keys s' \<subseteq> insert key (log_keys s) \<and> frame s' = frame s"

lemma set_tl: "set (tl xs) \<subseteq> set xs"
  by (cases xs) auto

lemma transition_fresh:
  assumes "key \<notin> log_keys s" "allowed_transition (pc_state s) nx"
  obtains s' where "transition nx reason key input eff rcpt cls t s = (Ok True, s')" "moved_to nx key s s'"
proof -
  have none: "find (\<lambda>x. pt_idempotency_key x = key) (pc_transitions s) = None"
    using assms(1) by (auto simp: log_keys_def find_None_iff)
  obtain s' where step: "transition nx reason key input eff rcpt cls t s = (Ok True, s')"
    using none assms(2) by (simp add: transition_def Let_def)
  obtain e where "pt_idempotency_key e = key" "s' = s\<lparr>pc_state_version := saturating_add (pc_state_version s) 1,
      pc_state := nx, pc_transitions := (if max_transitions < length (pc_transitions s @ [e])
          then tl (pc_transitions s @ [e]) else pc_transitions s @ [e])\<rparr>"
    using transition_recorded [OF step] by blast
  then have "moved_to nx key s s'"
    using set_tl [of "pc_transitions s @ [e]"] by (auto simp: moved_to_def frame_def log_keys_def)
  with step that show thesis by blast
qed

text \<open>A verified attempt on an integrating parent is accepted.\<close>

lemma complete_accepts:
  assumes "pc_state s = PsIntegrating" "a \<in> set (pc_attempts s)" "final_attempt i input s a"
    and "\<And>step. step \<in> {'':final-verification'', '':finalize'', '':complete''} \<Longrightarrow> i @ step \<notin> log_keys s"
  shows "\<exists>s'. complete i input t s = (Ok (), s') \<and> pc_state s' = PsCompleted \<and>
    pc_final_evidence s' = Some \<lparr>fe_attempt_id = i, fe_conversation_id = unwrap_or (pc_conversation_id s) [],
      fe_input_version = input, fe_repository_commits = target_commits s, fe_recorded_at = t\<rparr> \<and>
    pc_targets s' = pc_targets s"
proof -
  let ?ev = "\<lparr>fe_attempt_id = i, fe_conversation_id = unwrap_or (pc_conversation_id s) [],
      fe_input_version = input, fe_repository_commits = target_commits s, fe_recorded_at = t\<rparr>"
  have ex: "list_ex (final_attempt i input s) (pc_attempts s)" using assms(2,3) by (auto simp: list_ex_iff)
  obtain s1 where s1: "transition PsFinalVerification ''parent integration attempt passed''
        (i @ '':final-verification'') input
        (Some (intent ''accept_harness_final_verification'' (i @ '':final-verification'')))
        (Some (receipt ''passed'' None)) PrRetryable t s = (Ok True, s1)"
      "moved_to PsFinalVerification (i @ '':final-verification'') s s1"
    using assms(1,4)
    by (rule_tac transition_fresh [of "i @ '':final-verification''" s PsFinalVerification]) (auto simp: allowed_transition_def)
  define s1' where "s1' = s1\<lparr>pc_final_evidence := Some ?ev\<rparr>"
  have s1': "pc_state s1' = PsFinalVerification" "log_keys s1' \<subseteq> insert (i @ '':final-verification'') (log_keys s)"
      "pc_conversation_id s1 = pc_conversation_id s"
    using s1(2) by (auto simp: s1'_def moved_to_def log_keys_def frame_def)
  obtain s2 where s2: "transition PsFinalizing ''final verification evidence was written durably''
        (i @ '':finalize'') input (Some (intent ''persist_final_evidence'' (i @ '':finalize'')))
        (Some (receipt ''succeeded'' None)) PrRetryable t s1' = (Ok True, s2)"
      "moved_to PsFinalizing (i @ '':finalize'') s1' s2"
    using assms(4) s1' by (rule_tac transition_fresh [of "i @ '':finalize''" s1' PsFinalizing]) (auto simp: allowed_transition_def)
  have "log_keys s2 \<subseteq> {i @ '':finalize'', i @ '':final-verification''} \<union> log_keys s" "pc_state s2 = PsFinalizing"
    using s2(2) s1'(2) by (auto simp: moved_to_def)
  then obtain s3 where s3: "transition PsCompleted
        ''all recorded repository targets passed final verification'' (i @ '':complete'') input None
        (Some (receipt ''succeeded'' None)) PrTerminal t s2 = (Ok True, s3)"
      "moved_to PsCompleted (i @ '':complete'') s2 s3"
    using assms(4) by (rule_tac transition_fresh [of "i @ '':complete''" s2 PsCompleted]) (auto simp: allowed_transition_def)
  have "complete i input t s = (Ok (), s3)"
    unfolding complete_def Let_def
    by (simp only: ex not_True_eq_False if_False s1(1) try_step_simps s1'(3) s1'_def [symmetric] s2(1) s3(1)
        done_with_simps)
  moreover have "pc_final_evidence s3 = Some ?ev"
    using s2(2) s3(2) by (simp add: moved_to_def frame_def s1'_def)
  moreover have "pc_state s3 = PsCompleted" "pc_targets s3 = pc_targets s"
    using s1(2) s2(2) s3(2) by (simp_all add: moved_to_def frame_def s1'_def)
  ultimately show ?thesis by blast
qed

text \<open>The first admission of a parent and the preparation of its workspace.\<close>

lemma parent_keys_differ: "a \<noteq> b \<Longrightarrow> parent_key s a \<noteq> parent_key s b"
  by (simp add: parent_key_def)

lemma parent_key_frame: "frame s' = frame s \<Longrightarrow> parent_key s' x = parent_key s x"
  by (simp add: frame_def parent_key_def)

lemma admission_accepts:
  assumes "pc_state s = PsWaitingForChildren" "pc_transitions s = []" "pc_admission_input_version s = None"
  shows "\<exists>s'. admit input t s = (Ok (), s') \<and> pc_state s' = PsPreparingIntegrationWorkspace \<and>
    log_keys s' \<subseteq> {parent_key s ''children'', parent_key s ''merges'', parent_key s ''leases''} \<and>
    frame s' = frame s \<and> pc_admission_input_version s' = Some input"
proof -
  have empty: "log_keys s = {}" using assms(2) by (simp add: log_keys_def)
  obtain s1 where s1: "transition PsWaitingForChildMerges
      ''required children reached terminal orchestrator outcomes'' (parent_key s ''children'') input None
      (Some (receipt ''verified'' None)) PrRetryable t s = (Ok True, s1)"
      "moved_to PsWaitingForChildMerges (parent_key s ''children'') s s1"
    using empty assms(1)
    by (rule_tac transition_fresh [of "parent_key s ''children''" s PsWaitingForChildMerges]) (auto simp: allowed_transition_def)
  have f1: "frame s1 = frame s" "pc_state s1 = PsWaitingForChildMerges" "log_keys s1 \<subseteq> {parent_key s ''children''}"
    using s1(2) empty by (simp_all add: moved_to_def)
  have k1: "parent_key s ''merges'' \<notin> log_keys s1" using f1(3) by (auto simp: parent_key_def)
  obtain s2 where s2: "transition PsAcquiringChildLeases ''provider merge evidence is complete''
      (parent_key s ''merges'') input None (Some (receipt ''verified'' None)) PrRetryable t s1 = (Ok True, s2)"
      "moved_to PsAcquiringChildLeases (parent_key s ''merges'') s1 s2"
    using f1(2) k1
    by (rule_tac transition_fresh [of "parent_key s ''merges''" s1 PsAcquiringChildLeases]) (auto simp: allowed_transition_def)
  have f2: "frame s2 = frame s" "pc_state s2 = PsAcquiringChildLeases"
      "log_keys s2 \<subseteq> {parent_key s ''children'', parent_key s ''merges''}"
    using s2(2) f1(1,3) by (auto simp: moved_to_def)
  have k2: "parent_key s ''leases'' \<notin> log_keys s2" using f2(3) by (auto simp: parent_key_def)
  obtain s3 where s3: "transition PsPreparingIntegrationWorkspace
      ''generation-bound descendant leases were acquired'' (parent_key s ''leases'') input
      (Some (intent ''acquire_descendant_leases'' (parent_key s ''leases'')))
      (Some (receipt ''succeeded'' None)) PrRetryable t s2 = (Ok True, s3)"
      "moved_to PsPreparingIntegrationWorkspace (parent_key s ''leases'') s2 s3"
    using f2(2) k2
    by (rule_tac transition_fresh [of "parent_key s ''leases''" s2 PsPreparingIntegrationWorkspace]) (auto simp: allowed_transition_def)
  have "admit_transitions input t s = (Ok True, s3)"
    unfolding admit_transitions_def
    by (simp only: s1(1) s2(1) s3(1) try_step_simps parent_key_frame [OF f1(1)] parent_key_frame [OF f2(1)])
  moreover have "frame s3 = frame s" "pc_state s3 = PsPreparingIntegrationWorkspace"
      "log_keys s3 \<subseteq> {parent_key s ''children'', parent_key s ''merges'', parent_key s ''leases''}"
    using s3(2) f2(1,3) by (auto simp: moved_to_def)
  ultimately show ?thesis
    using assms(3) by (simp add: admit_def frame_def log_keys_def)
qed

lemma workspace_accepts:
  assumes "pc_state s = PsPreparingIntegrationWorkspace" "pc_attempts s = []"
    and "parent_key s ''workspace'' \<notin> log_keys s"
    and "parent_key s (''refresh:initial:'' @ input) \<notin> log_keys s"
  shows "\<exists>s'. record_workspace_prepared ts input t s = (Ok (), s') \<and> pc_state s' = PsIntegrating \<and>
    log_keys s' \<subseteq> {parent_key s ''workspace'', parent_key s (''refresh:initial:'' @ input)} \<union> log_keys s \<and>
    frame s' = frame (s\<lparr>pc_targets := foldl (\<lambda>m x. omap_insert (tg_repository_id x) x m) [] ts\<rparr>)"
proof -
  define s0 where "s0 = s\<lparr>pc_targets := foldl (\<lambda>m x. omap_insert (tg_repository_id x) x m) [] ts\<rparr>"
  have s0: "pc_state s0 = PsPreparingIntegrationWorkspace" "pc_attempts s0 = []" "log_keys s0 = log_keys s"
      "parent_key s0 = parent_key s"
    using assms(1,2) by (simp_all add: s0_def log_keys_def parent_key_def fun_eq_iff)
  obtain s1 where s1: "transition PsRefreshingRepositories
      ''parent integration root and checkout map were verified'' (parent_key s ''workspace'') input
      (Some (intent ''prepare_parent_workspace'' (parent_key s ''workspace'')))
      (Some (receipt ''succeeded'' None)) PrRetryable t s0 = (Ok True, s1)"
      "moved_to PsRefreshingRepositories (parent_key s ''workspace'') s0 s1"
    using s0 assms(3)
    by (rule_tac transition_fresh [of "parent_key s ''workspace''" s0 PsRefreshingRepositories]) (auto simp: allowed_transition_def)
  have f1: "frame s1 = frame s0" "pc_state s1 = PsRefreshingRepositories"
      "log_keys s1 \<subseteq> insert (parent_key s ''workspace'') (log_keys s)"
    using s1(2) s0(3) by (simp_all add: moved_to_def)
  have a1: "pc_attempts s1 = []" "parent_key s1 = parent_key s"
    using f1(1) s0(2,4) parent_key_frame [OF f1(1)] by (simp_all add: frame_def fun_eq_iff)
  define key where "key = parent_key s (''refresh:initial:'' @ input)"
  have key: "parent_key s1 (''refresh:'' @ (if pc_attempts s1 = [] then ''initial'' else va_id (last (pc_attempts s1))) @
      '':'' @ input) = key"
    by (simp add: key_def a1)
  have k1: "key \<notin> log_keys s1" using f1(3) assms(4) by (auto simp: parent_key_def key_def)
  obtain s2 where s2: "transition PsIntegrating
      ''all parent integration checkouts retain their recorded target commits as verified baselines''
      key input (Some (intent ''refresh_verified_baseline'' key)) (Some (receipt ''succeeded'' None))
      PrRetryable t s1 = (Ok True, s2)" "moved_to PsIntegrating key s1 s2"
    using f1(2) k1 by (rule_tac transition_fresh [of key s1 PsIntegrating]) (auto simp: allowed_transition_def)
  have clean: "cleanup_complete s1" by (simp add: cleanup_complete_def a1(1))
  have "record_baseline_verified input t s1 = (Ok (), s2)"
    unfolding record_baseline_verified_def Let_def
    by (simp only: clean not_True_eq_False if_False key s2(1) done_with_simps)
  then have "record_workspace_prepared ts input t s = (Ok (), s2)"
    unfolding record_workspace_prepared_def Let_def s0_def [symmetric]
    by (simp only: s0(1,4) refl if_True s1(1) try_step_simps)
  moreover have "pc_state s2 = PsIntegrating" "frame s2 = frame s0"
      "log_keys s2 \<subseteq> {parent_key s ''workspace'', key} \<union> log_keys s"
    using s2(2) f1(1,3) by (auto simp: moved_to_def)
  ultimately show ?thesis by (auto simp: s0_def key_def)
qed

text \<open>The calls of one attempt that runs a command and passes.\<close>

definition attempt_id_1 :: string where "attempt_id_1 = ''parent-attempt-'' @ show_u64 1"

definition evidence_for :: "(string \<Rightarrow> string) \<Rightarrow> (canonical_repository_id, string) omap \<Rightarrow> parent_verification_evidence" where
  "evidence_for sha commits = \<lparr>pv_schema_version = 1, pv_run_id = [], pv_attempt = 1, pv_hierarchy_generation = 1,
     pv_repository_commits = commits, pv_command = ''make'',
     pv_command_hash = parent_command_identity sha ''make'', pv_root = ''parent_root'',
     pv_repair_repository_id = None\<rparr>"

definition passing_calls ::
  "(string \<Rightarrow> string) \<Rightarrow> (canonical_repository_id, string) omap \<Rightarrow> parent_call list" where
  "passing_calls sha commits =
     [CallStartAttempt ''verify'' ''k'' ParentRoot ''conv'' 1 [] 0,
      CallCommandStarted attempt_id_1 ''c'' ''make'' ParentRoot 0,
      CallCommandFinished attempt_id_1 ''c'' 0 None 0,
      CallEvidence attempt_id_1 (evidence_for sha commits),
      CallFinish attempt_id_1 PaPassed (Some 0) \<lparr>cr_status = CsSucceeded, cr_occurred_at = 0, cr_detail = None\<rparr> 0]"

lemmas attempt_eval = attempt_named_def set_attempt_def Let_def active_resource_keys_def rfind_def

lemma step_start:
  assumes "pc_state s = PsIntegrating" "pc_attempts s = []" "pc_next_attempt_sequence s = 0"
    "pc_conversation_id s = None"
  shows "\<exists>a. pc_attempts (run_call sha (CallStartAttempt ''verify'' ''k'' ParentRoot ''conv'' 1 [] 0) s) = [a] \<and>
    va_id a = attempt_id_1 \<and> va_status a = PaRunning \<and> va_started_at a = 0 \<and> va_timeout_ms a = 1 \<and>
    va_commands a = [] \<and> va_resources a = [] \<and> va_input_version a = []"
  using assms
  by (simp add: start_attempt_def start_attempt_intent_def attach_attempt_conversation_def attempt_eval
      cleanup_complete_def make_attempt_room_def max_attempts_def saturating_add_def attempt_id_1_def)

lemma trim_words: "trim ''c'' = ''c''" "trim ''make'' = ''make''"
  by code_simp+

lemma step_command:
  assumes "pc_attempts s = [a]" "va_id a = i" "va_status a = PaRunning" "va_started_at a = 0"
    "va_timeout_ms a = 1" "va_commands a = []" "va_resources a = []" "va_input_version a = []"
  shows "\<exists>b. pc_attempts (run_call sha (CallCommandStarted i ''c'' ''make'' ParentRoot 0) s) = [b] \<and>
    va_id b = i \<and> va_status b = PaRunning \<and> va_started_at b = 0 \<and> va_timeout_ms b = 1 \<and>
    va_commands b = [\<lparr>cc_command_id = ''c'', cc_command = redact_runtime_diagnostic ''make'',
      cc_command_hash = parent_command_identity sha ''make'', cc_root = ParentRoot, cc_started_at = 0,
      cc_finished_at = None, cc_exit_code = None\<rparr>] \<and>
    length (va_resources b) = 1 \<and> va_input_version b = []"
  using assms
  by (simp add: observe_command_started_def attempt_eval max_command_id_bytes_def max_command_bytes_def
      max_command_receipts_def max_resource_receipts_def attempt_deadline_def saturating_add_def
      allocate_resource_def resource_taken_def push_resource_def trim_words omap_keys_def)

lemma step_finished:
  assumes "pc_attempts s = [a]" "va_id a = i" "va_status a = PaRunning" "va_started_at a = 0"
    "va_timeout_ms a = 1" "va_input_version a = []" "length (va_resources a) = 1"
    "va_commands a = [c]" "cc_command_id c = ''c''" "cc_started_at c = 0" "cc_finished_at c = None"
  shows "\<exists>b. pc_attempts (run_call sha (CallCommandFinished i ''c'' 0 None 0) s) = [b] \<and>
    va_id b = i \<and> va_status b = PaRunning \<and> va_input_version b = [] \<and>
    va_commands b = [c\<lparr>cc_finished_at := Some 0, cc_exit_code := Some 0\<rparr>]"
  using assms
  by (simp add: observe_command_finished_def attempt_eval max_resource_receipts_def attempt_deadline_def
      saturating_add_def release_resource_def push_resource_def update_last_def)

lemma step_evidence:
  assumes "pc_attempts s = [a]" "va_id a = i" "va_status a = PaRunning" "va_input_version a = []"
    "va_commands a = [c]" "cc_command_hash c = parent_command_identity sha ''make''" "cc_root c = ParentRoot"
    "cc_finished_at c = Some 0" "cc_exit_code c = Some 0"
  shows "\<exists>b. pc_attempts (run_call sha (CallEvidence i (evidence_for sha (target_commits s))) s) = [b] \<and>
    va_id b = i \<and> va_status b = PaRunning \<and> va_input_version b = [] \<and>
    va_verified_repository_commits b = target_commits s"
  using assms
  by (simp add: record_verification_evidence_def evidence_for_def attempt_eval evidence_command_def
      parent_command_identity_def)

lemma step_finish:
  assumes "pc_attempts s = [a]" "va_id a = i" "va_status a = PaRunning" "va_input_version a = []"
    "va_verified_repository_commits a = target_commits s"
  shows "\<exists>b. pc_attempts (run_call sha (CallFinish i PaPassed (Some 0)
      \<lparr>cr_status = CsSucceeded, cr_occurred_at = 0, cr_detail = None\<rparr> 0) s) = [b] \<and> final_attempt i [] s b"
  using assms
  by (simp add: finish_attempt_def attempt_eval attempt_terminal_def final_attempt_def attempt_passed_def
      cleanup_succeeded_def)

text \<open>Calls on attempts touch neither the log nor the targets.\<close>

definition outer where "outer s = (pc_state s, pc_transitions s, pc_targets s)"

lemma outer_attempt [simp]:
  "outer (set_attempt i f s) = outer s"
  "outer (s\<lparr>pc_attempts := as\<rparr>) = outer s" "outer (s\<lparr>pc_conversation_id := c\<rparr>) = outer s"
  "outer (s\<lparr>pc_next_attempt_sequence := n\<rparr>) = outer s"
  by (simp_all add: outer_def set_attempt_def)

lemma outer_try:
  "outer (snd r) = outer s \<Longrightarrow> (\<And>x s'. r = (Ok x, s') \<Longrightarrow> outer (snd (k x s')) = outer s') \<Longrightarrow>
   outer (snd (try_step r k)) = outer s"
  by (cases r; cases "fst r") auto

lemma outer_allocate: "outer (snd (allocate_resource i k d t s)) = outer s"
  by (auto simp: allocate_resource_def split: sum.split)

lemma outer_release: "outer (snd (release_resource i k d ok detail t s)) = outer s"
  by (auto simp: release_resource_def split: sum.split)

lemma outer_append_log: "outer (snd (append_log i x s)) = outer s"
  by (auto simp: append_log_def split: sum.split)

lemma outer_passing:
  assumes "c \<in> set (passing_calls sha m)"
  shows "outer (run_call sha c s) = outer s"
proof -
  have attach: "outer (snd (attach_attempt_conversation i c s)) = outer s" for i c s
    unfolding attach_attempt_conversation_def by (rule outer_try) (auto split: option.split sum.split)
  have start: "outer (snd (start_attempt name key root c d input t s)) = outer s" for name key root c d input t
    unfolding start_attempt_def
    by (intro outer_try attach)
      (auto simp: start_attempt_intent_def Let_def split: option.split sum.split)
  have started: "outer (snd (observe_command_started sha i c cmd root t s)) = outer s" for i c cmd root t
    unfolding observe_command_started_def Let_def by (auto split: sum.split option.split simp: outer_allocate)
  have finished: "outer (snd (observe_command_finished i c code None t s)) = outer s" for i c code t
    unfolding observe_command_finished_def Let_def
    by (auto split: sum.split option.split simp: outer_release)
  show ?thesis
    using assms start started finished
    by (auto simp: passing_calls_def record_verification_evidence_def finish_attempt_def Let_def split: sum.split)
qed

lemma outer_passing_run:
  "set cs \<subseteq> set (passing_calls sha m) \<Longrightarrow> outer (run_calls sha cs s) = outer s"
proof (induction cs rule: rev_induct)
  case (snoc c cs)
  then show ?case by (simp add: outer_passing [of c sha m])
qed (simp add: run_calls_def)

lemma attempt_passes:
  assumes "pc_state s = PsIntegrating" "pc_attempts s = []" "pc_next_attempt_sequence s = 0"
    "pc_conversation_id s = None"
  shows "\<exists>a. pc_attempts (run_calls sha (passing_calls sha (target_commits s)) s) = [a] \<and>
    final_attempt attempt_id_1 [] (run_calls sha (passing_calls sha (target_commits s)) s) a"
proof -
  let ?cs = "passing_calls sha (target_commits s)"
  define s1 where "s1 = run_call sha (CallStartAttempt ''verify'' ''k'' ParentRoot ''conv'' 1 [] 0) s"
  define s2 where "s2 = run_call sha (CallCommandStarted attempt_id_1 ''c'' ''make'' ParentRoot 0) s1"
  define s3 where "s3 = run_call sha (CallCommandFinished attempt_id_1 ''c'' 0 None 0) s2"
  define s4 where "s4 = run_call sha (CallEvidence attempt_id_1 (evidence_for sha (target_commits s))) s3"
  have run: "run_calls sha ?cs s = run_call sha (CallFinish attempt_id_1 PaPassed (Some 0)
      \<lparr>cr_status = CsSucceeded, cr_occurred_at = 0, cr_detail = None\<rparr> 0) s4"
    by (simp only: run_calls_def passing_calls_def foldl.simps s1_def s2_def s3_def s4_def)
  have member: "CallStartAttempt ''verify'' ''k'' ParentRoot ''conv'' 1 [] 0 \<in> set ?cs"
      "CallCommandStarted attempt_id_1 ''c'' ''make'' ParentRoot 0 \<in> set ?cs"
      "CallCommandFinished attempt_id_1 ''c'' 0 None 0 \<in> set ?cs"
      "CallEvidence attempt_id_1 (evidence_for sha (target_commits s)) \<in> set ?cs"
    unfolding passing_calls_def by simp_all
  have "outer s3 = outer s" "outer s4 = outer s"
    unfolding s1_def s2_def s3_def s4_def by (simp_all only: member [THEN outer_passing])
  moreover have "outer (run_calls sha ?cs s) = outer s" by (rule outer_passing_run [OF order.refl])
  ultimately have "outer s3 = outer s" "outer s4 = outer s" "outer (run_calls sha ?cs s) = outer s" by simp_all
  then have commits: "target_commits s3 = target_commits s" "target_commits s4 = target_commits s"
      "target_commits (run_calls sha ?cs s) = target_commits s"
    by (simp_all add: outer_def target_commits_def)
  obtain a1 where a1: "pc_attempts s1 = [a1]" "va_id a1 = attempt_id_1" "va_status a1 = PaRunning" "va_started_at a1 = 0"
      "va_timeout_ms a1 = 1" "va_commands a1 = []" "va_resources a1 = []" "va_input_version a1 = []"
    using step_start [OF assms] unfolding s1_def by blast
  obtain a2 where a2: "pc_attempts s2 = [a2]" "va_id a2 = attempt_id_1" "va_status a2 = PaRunning"
      "va_started_at a2 = 0" "va_timeout_ms a2 = 1" "va_commands a2 = [\<lparr>cc_command_id = ''c'',
        cc_command = redact_runtime_diagnostic ''make'', cc_command_hash = parent_command_identity sha ''make'',
        cc_root = ParentRoot, cc_started_at = 0, cc_finished_at = None, cc_exit_code = None\<rparr>]"
      "length (va_resources a2) = 1" "va_input_version a2 = []"
    using step_command [OF a1] unfolding s2_def by blast
  obtain a3 where a3: "pc_attempts s3 = [a3]" "va_id a3 = attempt_id_1" "va_status a3 = PaRunning"
      "va_input_version a3 = []" "va_commands a3 = [\<lparr>cc_command_id = ''c'',
        cc_command = redact_runtime_diagnostic ''make'', cc_command_hash = parent_command_identity sha ''make'',
        cc_root = ParentRoot, cc_started_at = 0, cc_finished_at = Some 0, cc_exit_code = Some 0\<rparr>]"
    using step_finished [OF a2(1-5,8,7,6)] unfolding s3_def by auto
  obtain a4 where a4: "pc_attempts s4 = [a4]" "va_id a4 = attempt_id_1" "va_status a4 = PaRunning"
      "va_input_version a4 = []" "va_verified_repository_commits a4 = target_commits s4"
    using step_evidence [OF a3, of sha] commits unfolding s4_def by auto
  show ?thesis
    using step_finish [OF a4, of sha] commits unfolding run [symmetric] by (auto simp: final_attempt_def)
qed

lemma run_calls_append: "run_calls sha (cs @ ds) s = run_calls sha ds (run_calls sha cs s)"
  by (simp add: run_calls_def)

lemma run_calls_two: "run_calls sha [c, d] s = run_call sha d (run_call sha c s)"
  by (simp add: run_calls_def)

lemma run_to_completion:
  assumes "parent_controller_new p g = Ok s"
  shows "\<exists>cs. let s' = run_calls sha (cs @ [CallComplete attempt_id_1 [] 0]) s
    in pc_state (run_calls sha cs s) = PsIntegrating \<and> pc_state s' = PsCompleted \<and>
       is_some_and (\<lambda>e. fe_repository_commits e = target_commits s') (pc_final_evidence s') \<and>
       pc_targets s' = foldl (\<lambda>m x. omap_insert (tg_repository_id x) x m) [] ts"
proof -
  let ?ts = "foldl (\<lambda>m x. omap_insert (tg_repository_id x) x m) [] ts"
  have new: "pc_state s = PsWaitingForChildren" "pc_transitions s = []" "pc_admission_input_version s = None"
      "pc_attempts s = []" "pc_next_attempt_sequence s = 0" "pc_conversation_id s = None" "log_keys s = {}"
    using assms by (auto simp: parent_controller_new_def log_keys_def split: if_splits)
  obtain s1 where s1: "admit [] 0 s = (Ok (), s1)" "pc_state s1 = PsPreparingIntegrationWorkspace"
      "log_keys s1 \<subseteq> {parent_key s ''children'', parent_key s ''merges'', parent_key s ''leases''}"
      "frame s1 = frame s"
    using admission_accepts [OF new(1-3)] by blast
  have k1: "parent_key s1 = parent_key s" "pc_attempts s1 = []"
    using parent_key_frame [OF s1(4)] s1(4) new(4) by (auto simp: frame_def)
  have fresh: "parent_key s ''workspace'' \<notin> log_keys s1" "parent_key s ''refresh:initial:'' \<notin> log_keys s1"
    using s1(3) by (auto simp: parent_key_def)
  obtain s2 where s2: "record_workspace_prepared ts [] 0 s1 = (Ok (), s2)" "pc_state s2 = PsIntegrating"
      "log_keys s2 \<subseteq> {parent_key s ''workspace'', parent_key s ''refresh:initial:''} \<union> log_keys s1"
      "frame s2 = frame (s1\<lparr>pc_targets := ?ts\<rparr>)"
    using workspace_accepts [OF s1(2) k1(2), of "[]" ts 0] fresh k1(1) by auto
  have run2: "run_calls sha [CallAdmit [] 0, CallWorkspacePrepared ts [] 0] s = s2"
    by (simp only: run_calls_two run_call.simps s1(1) s2(1) snd_conv)
  define cs where "cs = passing_calls sha (target_commits s2)"
  define s3 where "s3 = run_calls sha cs s2"
  have s2': "pc_attempts s2 = []" "pc_next_attempt_sequence s2 = 0" "pc_conversation_id s2 = None" "pc_targets s2 = ?ts"
    using s2(4) s1(4) new by (simp_all add: frame_def)
  obtain a where a: "pc_attempts s3 = [a]" "final_attempt attempt_id_1 [] s3 a"
    using attempt_passes [OF s2(2) s2'(1-3), of sha] unfolding s3_def cs_def by blast
  have "outer s3 = outer s2" unfolding s3_def cs_def by (rule outer_passing_run [OF order.refl])
  then have s3: "pc_state s3 = PsIntegrating" "log_keys s3 = log_keys s2" "pc_targets s3 = ?ts"
    using s2(2) s2'(4) by (simp_all add: outer_def log_keys_def)
  have "attempt_id_1 @ x \<notin> log_keys s3" for x
    using s3(2) s2(3) s1(3) by (auto simp: attempt_id_1_def parent_key_def)
  then obtain s4 where s4: "complete attempt_id_1 [] 0 s3 = (Ok (), s4)" "pc_state s4 = PsCompleted"
      "is_some_and (\<lambda>e. fe_repository_commits e = target_commits s3) (pc_final_evidence s4)"
      "pc_targets s4 = pc_targets s3"
    using complete_accepts [OF s3(1) _ a(2), of 0] a(1) by (auto simp: is_some_and_def)
  then have "target_commits s4 = target_commits s3" "pc_targets s4 = ?ts" using s3(3) s4(4) by (simp_all add: target_commits_def)
  moreover define ds where "ds = [CallAdmit [] 0, CallWorkspacePrepared ts [] 0] @ cs"
  moreover have "run_calls sha ds s = s3" by (simp only: ds_def run_calls_append run2 s3_def)
  moreover have "run_calls sha (ds @ [CallComplete attempt_id_1 [] 0]) s = s4"
    using \<open>run_calls sha ds s = s3\<close> s4(1) by simp
  ultimately show ?thesis using s3(1) s4(2,3) by (intro exI [of _ ds]) (simp add: Let_def)
qed

definition sample_parent :: parent_controller where
  "sample_parent = (case parent_controller_new (IssueId ''p'') 1 of Ok s \<Rightarrow> s)"

lemma sample_parent: "parent_controller_new (IssueId ''p'') 1 = Ok sample_parent"
  by (simp add: sample_parent_def parent_controller_new_def)

text \<open>A parent whose repair waits for its merge, and the provider's report of the merge.\<close>

definition merging_repair :: "u64 \<Rightarrow> parent_repair_attempt" where
  "merging_repair n = \<lparr>rp_id = ''r'', rp_number = n, rp_repository_id = CanonicalRepositoryId ''o/r'', rp_checkout_handle = ''h'',
     rp_target_branch = ''main'', rp_target_commit = ''c0'', rp_instruction_path = [], rp_instruction_hash = [],
     rp_branch = ''fix/p'', rp_lease_id = ''l'', rp_policy = repair_policy_default,
     rp_implementation_completed = True, rp_last_advancement_failure = None, rp_status = RpAwaitingMerge,
     rp_created_at = 0, rp_pushed_commit = Some ''c1'', rp_pull_request_id = Some ''7'',
     rp_pull_request_url = None, rp_merge_result_commit = None, rp_refreshed_target_commit = None,
     rp_requested_change_count = 0, rp_review_feedback = [],
     rp_operations =
       [\<lparr>op_kind = ReconcileMerge, op_idempotency_key = ''a'', op_input_version = '';repair-head:c1'',
         op_intended_at = 0, op_receipt = Some (receipt ''missing'' None), op_completed_at = Some 0\<rparr>,
        \<lparr>op_kind = Merge, op_idempotency_key = ''b'', op_input_version = '';repair-head:c1'',
         op_intended_at = 0, op_receipt = None, op_completed_at = None\<rparr>]\<rparr>"

definition merging_parent :: parent_controller where
  "merging_parent = sample_parent\<lparr>pc_state := PsAwaitingFixMerge (CanonicalRepositoryId ''o/r'') 1 ''7'',
     pc_repair_attempts := [merging_repair 1]\<rparr>"

definition merged_snapshot :: parent_provider_snapshot where
  "merged_snapshot = \<lparr>sn_pull_request_id = Some ''7'', sn_pull_request_url = None, sn_head_commit = Some ''c1'',
     sn_review_head_commit = Some ''c1'', sn_review_request_cursor = None, sn_open = False,
     sn_checks_passed = True, sn_checks_failed = False, sn_review_approved = True, sn_review_rejected = False,
     sn_changes_requested = False, sn_review_feedback = [], sn_mergeable = False, sn_merge_conflict = False,
     sn_merged = True, sn_merge_result_commit = Some ''m'', sn_target_contains_merge_result = True,
     sn_provider_available = True\<rparr>"

lemma trim_m: "trim ''m'' = ''m''" by code_simp

lemma merging_parent_refreshes:
  "pc_state (run_calls (\<lambda>x. x) [CallReconcileProvider ''r'' merged_snapshot [] 1] merging_parent) = PsRefreshingAfterFixes"
  by (simp add: run_calls_def merging_parent_def sample_parent_def parent_controller_new_def merging_repair_def
      merged_snapshot_def reconcile_repair_provider_def repair_named_def reconcile_merged_def opt_list_def trim_m
      pending_merge_def rfind_def merge_input_version_def unwrap_or_def is_current_def checks_satisfied_def
      merged_review_satisfied_def record_provider_operation_def set_repair_def transition_def Let_def
      allowed_transition_def repair_policy_default_def)

section \<open>The properties\<close>

text \<open>C29: From its creation on, after any calls in any order, the transition log of a controller
  is a path of allowed transitions with consecutive versions and distinct keys, of at most 256
  entries, and it ends in the current state and version.\<close>

theorem transition_log_is_a_path:
  assumes "parent_controller_new p g = Ok s"
  shows "log_ok (run_calls sha cs s)"
  by (rule micro_invariant [where P = log_ok, OF micro_run_calls log_ok_new [OF assms] log_ok_micro])

theorem transition_log_is_a_path_witness:
  "\<exists>cs. pc_state (run_calls (\<lambda>x. x) cs sample_parent) = PsCompleted \<and> log_ok (run_calls (\<lambda>x. x) cs sample_parent)"
  using run_to_completion [OF sample_parent, of "\<lambda>x. x" "[]"]
    transition_log_is_a_path [OF sample_parent, of "\<lambda>x. x"]
  by (auto simp: Let_def simp del: run_calls_snoc)

text \<open>A parent that completed, failed or was canceled keeps its state and its transition log
  whatever is called afterwards.\<close>

theorem terminal_parent_is_final:
  assumes "parent_state_terminal (pc_state s)"
  shows "pc_state (run_calls sha cs s) = pc_state s \<and> pc_transitions (run_calls sha cs s) = pc_transitions s"
proof -
  have "parent_state_terminal (pc_state s') \<and> pc_state s' = pc_state s \<and> pc_transitions s' = pc_transitions s"
    if "micro_path s s'" for s'
    using that
  proof (induction rule: rtranclp_induct)
    case (step s1 s2)
    then show ?case using terminal_micro [of s1 s2] assms by auto
  qed (use assms in simp)
  then show ?thesis using micro_run_calls by blast
qed

theorem terminal_parent_is_final_witness:
  "pc_state (run_calls (\<lambda>x. x) [CallAdmit [] 1] (sample_parent\<lparr>pc_state := PsCompleted\<rparr>)) = PsCompleted"
  using terminal_parent_is_final [of "sample_parent\<lparr>pc_state := PsCompleted\<rparr>" "\<lambda>x. x" "[CallAdmit [] 1]"] by simp

text \<open>C30: At any time at most one verification attempt runs, at most 64 are kept, their
  idempotency keys differ, each attempt's conversation is the controller's, and each attempt's
  log, commands and resource receipts stay within their bounds (the log one byte above its
  constant).\<close>

theorem one_attempt_runs:
  assumes "parent_controller_new p g = Ok s"
  shows "attempts_ok (run_calls sha cs s)"
  by (rule micro_invariant [where P = attempts_ok, OF micro_run_calls attempts_ok_new [OF assms] attempts_ok_micro])

theorem one_attempt_runs_witness:
  "\<exists>cs. pc_state (run_calls (\<lambda>x. x) cs sample_parent) = PsCompleted \<and> attempts_ok (run_calls (\<lambda>x. x) cs sample_parent)"
  using run_to_completion [OF sample_parent, of "\<lambda>x. x" "[]"] one_attempt_runs [OF sample_parent, of "\<lambda>x. x"]
  by (auto simp: Let_def simp del: run_calls_snoc)

text \<open>C31: In every repair a creating provider operation is preceded by the completed lookup it
  requires, at most one operation of a kind is open, a receipt comes with its time; and no later
  call changes or drops an operation that has its receipt.\<close>

theorem provider_ledger_is_search_before_create:
  assumes "parent_controller_new p g = Ok s"
  shows "ledgers_ok (run_calls sha (cs @ ds) s) \<and> repairs_kept (run_calls sha cs s) (run_calls sha (cs @ ds) s)"
proof
  show "ledgers_ok (run_calls sha (cs @ ds) s)"
    by (rule micro_invariant [where P = ledgers_ok, OF micro_run_calls ledgers_ok_new [OF assms] ledgers_ok_micro])
  show "repairs_kept (run_calls sha cs s) (run_calls sha (cs @ ds) s)"
    unfolding run_calls_append by (rule repairs_kept_path [OF micro_run_calls])
qed

theorem provider_ledger_is_search_before_create_witness:
  "ledgers_ok (run_calls (\<lambda>x. x) ([CallAdmit [] 0] @ [CallBranchReady ''r'']) sample_parent)"
  using provider_ledger_is_search_before_create [OF sample_parent, of "\<lambda>x. x" "[CallAdmit [] 0]" "[CallBranchReady ''r'']"]
  by blast

text \<open>C32: A parent reaches the refresh after a repair only through a reconciliation that found the
  pull request merged under an open merge intent of the very head that was pushed, with the
  checks and the review its policy requires, and a merge result the target contains.\<close>

theorem merge_needs_authority:
  assumes "pc_state s \<noteq> PsRefreshingAfterFixes" "pc_state (run_calls sha cs s) = PsRefreshingAfterFixes"
  shows "\<exists>ds i sn input t es r. cs = ds @ CallReconcileProvider i sn input t # es \<and>
    repair_named i (run_calls sha ds s) = Ok r \<and> merge_authorized input sn r"
proof -
  obtain ds c es where cs: "cs = ds @ c # es" "pc_state (run_calls sha ds s) \<noteq> PsRefreshingAfterFixes"
      "pc_state (run_call sha c (run_calls sha ds s)) = PsRefreshingAfterFixes"
    using run_calls_first [of "\<lambda>s. pc_state s = PsRefreshingAfterFixes", OF assms(2,1)] by blast
  from cs(3,2) obtain i sn input t r where "c = CallReconcileProvider i sn input t"
      "repair_named i (run_calls sha ds s) = Ok r" "merge_authorized input sn r"
    by (rule merge_entry)
  with cs(1) show ?thesis by blast
qed

theorem merge_needs_authority_witness:
  "pc_state (run_calls (\<lambda>x. x) [CallReconcileProvider ''r'' merged_snapshot [] 1] merging_parent) = PsRefreshingAfterFixes \<and>
   merge_authorized [] merged_snapshot (merging_repair 1)"
proof -
  have reached: "pc_state (run_calls (\<lambda>x. x) [CallReconcileProvider ''r'' merged_snapshot [] 1] merging_parent) =
      PsRefreshingAfterFixes"
    by (rule merging_parent_refreshes)
  have start: "pc_state merging_parent \<noteq> PsRefreshingAfterFixes" by (simp add: merging_parent_def)
  obtain ds i sn input t es r where "[CallReconcileProvider ''r'' merged_snapshot [] 1] =
      ds @ CallReconcileProvider i sn input t # es" "repair_named i (run_calls (\<lambda>x. x) ds merging_parent) = Ok r"
      "merge_authorized input sn r"
    using merge_needs_authority [OF start reached] by blast
  then have "merge_authorized [] merged_snapshot (merging_repair 1)"
    by (cases ds) (auto simp: run_calls_def merging_parent_def repair_named_def merging_repair_def)
  with reached show ?thesis by blast
qed

text \<open>C33: A parent completes only through a completion that named an attempt which passed with exit
  code 0, was cleaned up, and verified exactly the recorded target commits.\<close>

theorem completion_needs_verification:
  assumes "parent_controller_new p g = Ok s" "pc_state (run_calls sha cs s) = PsCompleted"
  shows "\<exists>ds i input t es a. cs = ds @ CallComplete i input t # es \<and>
    a \<in> set (pc_attempts (run_calls sha ds s)) \<and> final_attempt i input (run_calls sha ds s) a"
proof -
  have new: "pc_state s \<noteq> PsCompleted"
    using assms(1) by (auto simp: parent_controller_new_def split: if_splits)
  obtain ds c es where cs: "cs = ds @ c # es" "pc_state (run_calls sha ds s) \<noteq> PsCompleted"
      "pc_state (run_call sha c (run_calls sha ds s)) = PsCompleted"
    using run_calls_first [of "\<lambda>s. pc_state s = PsCompleted", OF assms(2) new] by blast
  from cs(3,2) obtain i input t a where "c = CallComplete i input t"
      "a \<in> set (pc_attempts (run_calls sha ds s))" "final_attempt i input (run_calls sha ds s) a"
    by (rule completion_entry)
  with cs(1) show ?thesis by blast
qed

theorem completion_needs_verification_witness:
  "\<exists>cs ds i input t es a. pc_state (run_calls (\<lambda>x. x) cs sample_parent) = PsCompleted \<and>
     cs = ds @ CallComplete i input t # es \<and> final_attempt i input (run_calls (\<lambda>x. x) ds sample_parent) a"
proof -
  obtain cs where "pc_state (run_calls (\<lambda>x. x) cs sample_parent) = PsCompleted"
    using run_to_completion [OF sample_parent, of "\<lambda>x. x" "[]"] by (auto simp: Let_def simp del: run_calls_snoc)
  from this completion_needs_verification [OF sample_parent this] show ?thesis by blast
qed

text \<open>C34: A new parent can complete: whatever repositories it integrates, there is a run of calls
  that prepares them, verifies them with a command and completes, with the evidence of exactly
  the target commits.\<close>

theorem parent_can_complete:
  assumes "g \<noteq> 0"
  shows "\<exists>s cs. parent_controller_new p g = Ok s \<and> pc_state (run_calls sha cs s) = PsCompleted \<and>
    pc_targets (run_calls sha cs s) = foldl (\<lambda>m x. omap_insert (tg_repository_id x) x m) [] ts \<and>
    is_some_and (\<lambda>e. fe_repository_commits e = target_commits (run_calls sha cs s))
      (pc_final_evidence (run_calls sha cs s))"
proof -
  obtain s where s: "parent_controller_new p g = Ok s" using assms by (simp add: parent_controller_new_def)
  then show ?thesis using run_to_completion [OF s, of sha ts] by (auto simp: Let_def simp del: run_calls_snoc)
qed

theorem parent_can_complete_witness:
  "\<exists>s cs. parent_controller_new (IssueId ''p'') 1 = Ok s \<and> pc_state (run_calls (\<lambda>x. x) cs s) = PsCompleted"
  using parent_can_complete [of 1 "IssueId ''p''" "\<lambda>x. x" "[]"] by auto

text \<open>C35: An admission is all or nothing: on an error the controller is as before, and after a
  success a repeated admission with the same input changes nothing while another input is
  rejected as a conflict.\<close>

theorem admission_is_atomic:
  "case admit input t s of
     (Err e, s') \<Rightarrow> s' = s
   | (Ok _, s') \<Rightarrow> pc_admission_input_version s' = Some input \<and>
       (\<forall>input' t'. admit input' t' s' =
          (if input' = input then Ok () else Err (IdempotencyConflict (parent_key s' ''admission'')), s'))"
proof (cases "pc_admission_input_version s")
  case None
  obtain r s' where "admit_transitions input t s = (r, s')" by (metis surj_pair)
  then show ?thesis using None by (cases r) (auto simp: admit_def parent_key_def)
qed (auto simp: admit_def)

section \<open>Where the controller does not do what is expected of it\<close>

text \<open>An accepted transition is in the log, and as long as it is there a repetition changes
  nothing, whatever the state has become.\<close>

definition records ::
  "parent_controller \<Rightarrow> parent_state \<Rightarrow> string \<Rightarrow> string \<Rightarrow> string \<Rightarrow> parent_side_effect_intent option \<Rightarrow>
   parent_side_effect_receipt option \<Rightarrow> parent_retry_classification \<Rightarrow> parent_transition \<Rightarrow> bool" where
  "records s nx reason key input eff rcpt cls e \<longleftrightarrow> e \<in> set (pc_transitions s) \<and> pt_next e = nx \<and>
     pt_reason e = reason \<and> pt_idempotency_key e = key \<and> pt_input_version e = input \<and>
     pt_side_effect_intent e = eff \<and> pt_result_receipt e = rcpt \<and> pt_retry_classification e = cls"

lemma transition_records:
  assumes "transition nx reason key input eff rcpt cls t s = (Ok b, s')"
  shows "\<exists>e. records s' nx reason key input eff rcpt cls e"
proof (cases "find (\<lambda>x. pt_idempotency_key x = key) (pc_transitions s)")
  case (Some e)
  then have "e \<in> set (pc_transitions s)" "pt_idempotency_key e = key" by (auto simp: find_Some_iff)
  then show ?thesis
    using assms Some by (intro exI [of _ e]) (auto simp: transition_def records_def split: if_splits)
next
  case None
  then show ?thesis
    using assms last_in_set [of "tl (pc_transitions s @ [_])"]
    by (auto simp: transition_def Let_def records_def max_transitions_def tl_append split: if_splits list.splits)
qed

lemma transition_repeats:
  assumes "records s nx reason key input eff rcpt cls e" "distinct (map pt_idempotency_key (pc_transitions s))"
  shows "transition nx reason key input eff rcpt cls t s = (Ok False, s)"
proof -
  have e: "e \<in> set (pc_transitions s)" "pt_idempotency_key e = key" using assms(1) by (simp_all add: records_def)
  then obtain x where x: "find (\<lambda>x. pt_idempotency_key x = key) (pc_transitions s) = Some x"
    by (cases "find (\<lambda>x. pt_idempotency_key x = key) (pc_transitions s)") (auto simp: find_None_iff)
  then have "x \<in> set (pc_transitions s)" "pt_idempotency_key x = key" by (auto simp: find_Some_iff)
  with e assms(2) have "x = e" by (auto simp: distinct_map dest: inj_onD)
  with x assms(1) show ?thesis by (simp add: transition_def records_def)
qed

text \<open>A second outage of the provider in the same repair is not recorded: the call succeeds and
  marks the repair unavailable, but the state of the parent, which the first outage had moved to
  blocked and the recovery away from it, stays where it is.\<close>

theorem second_outage_leaves_state:
  assumes "reconcile_repair_provider i sn input t s = (Ok (), s1)" "\<not> sn_provider_available sn"
    and "distinct (map pt_idempotency_key (pc_transitions s2))" "set (pc_transitions s1) \<subseteq> set (pc_transitions s2)" "repair_named i s2 = Ok r"
  shows "reconcile_repair_provider i sn input t' s2 = (Ok (), set_repair_status i RpProviderUnavailable s2)"
proof -
  define key where "key = i @ '':blocked:'' @ ''provider unavailable''"
  define moved where "moved = transition (PsBlocked ''provider unavailable'') ''provider unavailable'' key input
    (Some (intent ''reconcile_provider'' key)) (Some (receipt ''blocked'' (Some ''provider unavailable''))) PrOperatorAction"
  have step: "reconcile_repair_provider i sn input u s' =
      done_with (moved u (set_repair_status i RpProviderUnavailable s'))"
    if "repair_named i s' = Ok r'" for s' r' u
    using assms(2) that
    by (simp add: reconcile_repair_provider_def block_with_def block_repair_def Let_def key_def moved_def)
  obtain r' where "repair_named i s = Ok r'"
    using assms(1) by (cases "repair_named i s") (auto simp: reconcile_repair_provider_def)
  from step [OF this, of t] assms(1)
  have blocked: "done_with (moved t (set_repair_status i RpProviderUnavailable s)) = (Ok (), s1)" by simp
  obtain b where b: "moved t (set_repair_status i RpProviderUnavailable s) = (Ok b, s1)"
  proof (cases "moved t (set_repair_status i RpProviderUnavailable s)")
    case (Pair x s')
    then show thesis using blocked that by (cases x) auto
  qed
  obtain e where e: "records s1 (PsBlocked ''provider unavailable'') ''provider unavailable'' key input
      (Some (intent ''reconcile_provider'' key)) (Some (receipt ''blocked'' (Some ''provider unavailable'')))
      PrOperatorAction e"
    using transition_records [OF b [unfolded moved_def]] by blast
  let ?s = "set_repair_status i RpProviderUnavailable s2"
  have log: "pc_transitions ?s = pc_transitions s2" by (simp add: set_repair_status_def set_repair_def)
  have "moved t' ?s = (Ok False, ?s)"
    unfolding moved_def
    by (rule transition_repeats [where e = e])
      (use e assms(3,4) in \<open>auto simp: records_def log\<close>)
  then show ?thesis using step [OF assms(5)] by simp
qed

definition outage_snapshot :: parent_provider_snapshot where
  "outage_snapshot = merged_snapshot\<lparr>sn_provider_available := False\<rparr>"

definition open_snapshot :: parent_provider_snapshot where
  "open_snapshot = merged_snapshot\<lparr>sn_merged := False, sn_open := True, sn_checks_passed := False\<rparr>"

lemmas provider_eval = merging_parent_def sample_parent_def parent_controller_new_def merging_repair_def
  merged_snapshot_def outage_snapshot_def open_snapshot_def reconcile_repair_provider_def repair_named_def
  block_with_def block_repair_def set_repair_status_def set_repair_def transition_def Let_def
  allowed_transition_def repair_policy_default_def max_transitions_def

definition blocked_parent :: parent_controller where
  "blocked_parent = snd (reconcile_repair_provider ''r'' outage_snapshot [] 1 merging_parent)"

lemma blocked_parent:
  "fst (reconcile_repair_provider ''r'' outage_snapshot [] 1 merging_parent) = Ok ()"
  "pc_state blocked_parent = PsBlocked ''provider unavailable''"
  "map pt_idempotency_key (pc_transitions blocked_parent) = [''r:blocked:provider unavailable'']"
  "pc_repair_attempts blocked_parent = [merging_repair 1\<lparr>rp_status := RpProviderUnavailable\<rparr>]"
  "pc_state_version blocked_parent = 1"
  by (simp_all add: blocked_parent_def provider_eval saturating_add_def)

definition recovered_parent :: parent_controller where
  "recovered_parent = snd (reconcile_repair_provider ''r'' open_snapshot [] 2 blocked_parent)"

lemma recovered_parent:
  "pc_state recovered_parent = PsAwaitingFixReview (CanonicalRepositoryId ''o/r'') 1 ''7''"
  "distinct (map pt_idempotency_key (pc_transitions recovered_parent))"
  "set (pc_transitions blocked_parent) \<subseteq> set (pc_transitions recovered_parent)"
  "\<exists>r. repair_named ''r'' recovered_parent = Ok r"
  using blocked_parent(2-5)
  by (auto simp: recovered_parent_def open_snapshot_def merged_snapshot_def reconcile_repair_provider_def
      repair_named_def blocked_by_provider_def reconcile_open_review_def advance_to_merge_def is_current_def
      set_repair_status_def set_repair_def transition_def Let_def allowed_transition_def merging_repair_def
      repair_policy_default_def checks_satisfied_def max_transitions_def split: option.splits)

text \<open>The log of an attempt can exceed its bound of 16 KiB by one byte: the newline before an
  appended text is written before the room is checked.\<close>

theorem log_exceeds_its_bound:
  assumes "attempt_named i s = Ok a" "\<not> va_log_truncated a" "length (va_bounded_log a) = max_log_bytes" "x \<noteq> []"
  shows "\<exists>b \<in> set (pc_attempts (snd (append_log i x s))). length (va_bounded_log b) = max_log_bytes + 1"
proof -
  have log: "length (va_bounded_log (append_to_log x a)) = max_log_bytes + 1"
    using assms(2-4) by (auto simp: append_to_log_def Let_def max_log_bytes_def)
  obtain ys zs where "pc_attempts (set_attempt i (append_to_log x) s) = ys @ append_to_log x a # zs"
    using set_attempt_split [OF assms(1)] by metis
  with assms(1) log show ?thesis by (auto simp: append_log_def)
qed

theorem second_outage_leaves_state_witness:
  "pc_state blocked_parent = PsBlocked ''provider unavailable'' \<and>
   pc_state recovered_parent = PsAwaitingFixReview (CanonicalRepositoryId ''o/r'') 1 ''7'' \<and>
   pc_state (snd (reconcile_repair_provider ''r'' outage_snapshot [] 3 recovered_parent)) =
     PsAwaitingFixReview (CanonicalRepositoryId ''o/r'') 1 ''7''"
proof -
  have first: "reconcile_repair_provider ''r'' outage_snapshot [] 1 merging_parent = (Ok (), blocked_parent)"
    using blocked_parent(1) by (simp add: blocked_parent_def prod_eq_iff)
  obtain r where r: "repair_named ''r'' recovered_parent = Ok r" using recovered_parent(4) by blast
  have "\<not> sn_provider_available outage_snapshot" by (simp add: outage_snapshot_def)
  from second_outage_leaves_state [OF first this recovered_parent(2,3) r, of 3]
  show ?thesis using blocked_parent(2) recovered_parent(1) by simp
qed

definition full_log_parent :: parent_controller where
  "full_log_parent = sample_parent\<lparr>pc_attempts := [\<lparr>va_id = ''a'', va_name = ''n'', va_idempotency_key = ''k'',
     va_root = ParentRoot, va_conversation_id = None, va_started_at = 0, va_finished_at = None,
     va_timeout_ms = 1, va_status = PaRunning, va_commands = [], va_exit_code = None,
     va_bounded_log = replicate max_log_bytes CHR ''x'', va_log_truncated = False, va_resources = [],
     va_cleanup = None, va_harness_stopped_at = None, va_input_version = [],
     va_verified_repository_commits = []\<rparr>]\<rparr>"

theorem log_exceeds_its_bound_witness:
  "\<exists>b \<in> set (pc_attempts (snd (append_log ''a'' ''y'' full_log_parent))). length (va_bounded_log b) = 16385"
proof -
  obtain a where a: "attempt_named ''a'' full_log_parent = Ok a" "\<not> va_log_truncated a"
      "length (va_bounded_log a) = max_log_bytes"
    by (simp add: full_log_parent_def attempt_named_def)
  show ?thesis using log_exceeds_its_bound [OF a, of "''y''"] by (simp add: max_log_bytes_def)
qed

end
