(* ===== verification/Workflow_Model.thy ===== *)
theory Workflow_Model
  imports Results Workspace_Path Ordered_Map Issues
begin

text \<open>
  \<open>opensymphony-workflow/src/model.rs\<close>, \<open>error.rs\<close>, \<open>acp.rs\<close>, \<open>loader.rs\<close>, \<open>template.rs\<close>
  and the methods of \<open>WorkflowDefinition\<close> in \<open>lib.rs\<close>: the front matter of a \<open>WORKFLOW.md\<close>
  file as it is decoded, the configuration it resolves to, the launch profiles of ACP agents
  and the split of the file into front matter and prompt.

  The crates \<open>serde_yaml\<close> and \<open>liquid\<close> are parameters of the definitions that call them: a
  decoder from text to YAML values, one from YAML values to the front matter, and the three
  operations of the template engine. Errors of those crates are their messages.
\<close>

section \<open>Values\<close>

datatype yaml =
    YNull
  | YBool bool
  | YNumber string
  | YString string
  | YSequence "yaml list"
  | YMapping "(yaml \<times> yaml) list"
  | YTagged string yaml

text \<open>\<open>IntegerLike\<close>: a YAML integer (an \<open>i64\<close>, a word read by \<^const>\<open>sint\<close>) or its text.\<close>

type_synonym i64 = "64 word"

datatype integer_like = ILInteger i64 | ILString string

datatype tracker_kind = Linear

datatype acp_permission_policy = Operator | Deny | AllowOnce

type_synonym u16 = "16 word"

type_synonym environment = "string \<Rightarrow> string option"

section \<open>Errors\<close>

datatype workflow_load_error =
    MissingWorkflowFile path
  | ReadWorkflowFile path string
  | MissingFrontMatterTerminator
  | WorkflowParseError string
  | WorkflowFrontMatterNotAMap
  | UnknownTopLevelNamespace string

datatype workflow_config_error =
    MissingRequiredField string
  | MissingEnvironmentVariable string string
  | UnsupportedTrackerKind string
  | InvalidInteger string string
  | InvalidField string string
  | RemovedField string string

fun config_error_display :: "workflow_config_error \<Rightarrow> string" where
  "config_error_display (MissingRequiredField f) =
     ''missing required config field `'' @ f @ ''`''"
| "config_error_display (MissingEnvironmentVariable f v) =
     ''missing required environment variable `'' @ v @ ''` for `'' @ f @ ''`''"
| "config_error_display (UnsupportedTrackerKind k) = ''unsupported tracker kind `'' @ k @ ''`''"
| "config_error_display (InvalidInteger f v) =
     ''invalid integer for `'' @ f @ ''`: `'' @ v @ ''`''"
| "config_error_display (InvalidField f m) = ''invalid config for `'' @ f @ ''`: '' @ m"
| "config_error_display (RemovedField f m) = ''removed config field `'' @ f @ ''`: '' @ m"

datatype prompt_template_error = PContext string | PParse string | PRender string

section \<open>ACP profiles\<close>

record acp_auth =
  apa_method_id :: string

record acp_session_config =
  aps_model :: "string option"
  aps_mode :: "string option"
  aps_options :: "(string, string) omap"

record acp_permission_config =
  app_mode :: acp_permission_policy

record acp_profile =
  ap_command :: string
  ap_args :: "string list"
  ap_transport :: string
  ap_protocol_versions :: "u16 list"
  ap_env_refs :: "(string, string) omap"
  ap_auth :: "acp_auth option"
  ap_required_capabilities :: "string list"
  ap_extensions :: "string list"
  ap_session :: acp_session_config
  ap_permissions :: acp_permission_config

record acp_config =
  acp_profiles :: "(string, acp_profile) omap"

text \<open>\<open>char::is_control\<close> on the UTF-8 text: the bytes below 32 and 127, and the two-byte
  sequences of U+0080 to U+009F.\<close>

fun has_control :: "string \<Rightarrow> bool" where
  "has_control [] = False"
| "has_control (c # s) =
     (byte c < 32 \<or> byte c = 127 \<or>
      (byte c = 194 \<and> (case s of [] \<Rightarrow> False | d # _ \<Rightarrow> 128 \<le> byte d \<and> byte d < 160)) \<or>
      has_control s)"

definition is_ascii_alphabetic :: "char \<Rightarrow> bool" where
  "is_ascii_alphabetic c \<longleftrightarrow> is_ascii_alphanumeric c \<and> \<not> is_ascii_digit c"

definition valid_env_name :: "string \<Rightarrow> bool" where
  "valid_env_name value =
     (case value of [] \<Rightarrow> False
      | c # s \<Rightarrow> (is_ascii_alphabetic c \<or> c = CHR ''_'') \<and>
                 list_all (\<lambda>c. is_ascii_alphanumeric c \<or> c = CHR ''_'') s)"

definition valid_id :: "string \<Rightarrow> bool" where
  "valid_id value \<longleftrightarrow> value \<noteq> [] \<and> length value \<le> 128 \<and>
     list_all (\<lambda>c. is_ascii_alphanumeric c \<or> c \<in> set ''-_.'') value"

definition invalid_acp :: "string \<Rightarrow> workflow_config_error" where
  "invalid_acp message = InvalidField ''acp'' message"

text \<open>\<open>contains(['\0', '\n', '\r', '$'])\<close>.\<close>

definition contains_forbidden :: "string \<Rightarrow> bool" where
  "contains_forbidden s \<longleftrightarrow>
     list_ex (\<lambda>c. c \<in> {CHR 0x00, CHR 0x0A, CHR 0x0D, CHR ''$''}) s"

definition credential_flags :: "string list" where
  "credential_flags = [''--api-key'', ''--access-token'', ''--oauth2-bearer'', ''--client-secret'',
     ''--password'', ''--secret'', ''--pat'', ''--token'']"

definition argument_name :: "string \<Rightarrow> string" where
  "argument_name a = takeWhile (\<lambda>c. c \<noteq> CHR ''='') a"

definition argument_rejected :: "string \<Rightarrow> bool" where
  "argument_rejected a \<longleftrightarrow> 8192 < length a \<or> contains_forbidden a \<or>
     list_ex (\<lambda>flag. eq_ignore_ascii_case (argument_name a) flag) credential_flags"

definition bad_selection :: "string \<Rightarrow> bool" where
  "bad_selection v \<longleftrightarrow> v = [] \<or> 1024 < length v \<or> has_control v"

definition session_values :: "acp_session_config \<Rightarrow> string list" where
  "session_values s = opt_list (aps_model s) @ opt_list (aps_mode s) @
     omap_keys (aps_options s) @ omap_values (aps_options s)"

definition acp_profile_validate :: "acp_profile \<Rightarrow> workflow_config_error + unit" where
  "acp_profile_validate p =
     (if trim (ap_command p) = [] \<or> contains_forbidden (ap_command p) then
        Err (invalid_acp ''command must be a nonempty executable, without environment interpolation'')
      else if 128 < length (ap_args p) \<or> list_ex argument_rejected (ap_args p) then
        Err (invalid_acp ''args must be bounded literal argv entries; credentials belong in env_refs'')
      else if ap_transport p \<noteq> ''stdio'' \<or> ap_protocol_versions p \<noteq> [1] then
        Err (invalid_acp ''only ACP protocol_versions: [1] with transport: stdio is implemented'')
      else if 128 < length (ap_env_refs p) \<or>
              list_ex (\<lambda>(k, v). \<not> valid_env_name k \<or> \<not> valid_env_name v) (ap_env_refs p) then
        Err (invalid_acp ''env_refs must map environment variable names to variable names'')
      else if is_some_and (\<lambda>a. apa_method_id a = [] \<or> 1024 < length (apa_method_id a) \<or>
                              has_control (apa_method_id a)) (ap_auth p) then
        Err (invalid_acp ''auth.method_id must be a nonempty bounded opaque identifier without control characters'')
      else if 32 < length (aps_options (ap_session p)) \<or>
              list_ex bad_selection (session_values (ap_session p)) then
        Err (invalid_acp ''session selections must be bounded nonempty opaque identifiers'')
      else if 8 < length (ap_extensions p) \<or>
              list_ex (\<lambda>i. i \<notin> {''cursor@2026.09.08-6caf4ff'', ''fixture_echo@1''}) (ap_extensions p) \<or>
              card (set (ap_extensions p)) \<noteq> length (ap_extensions p) then
        Err (invalid_acp ''extensions must name distinct supported contract versions'')
      else if list_ex (\<lambda>c. c \<notin> {''prompt.image'', ''prompt.audio'', ''prompt.embedded_context''})
                (ap_required_capabilities p) then
        Err (invalid_acp ''unknown required capability; supported names: prompt.image, prompt.audio, prompt.embedded_context'')
      else Ok ())"

definition validate_profile_entry :: "string \<times> acp_profile \<Rightarrow> workflow_config_error + unit" where
  "validate_profile_entry e =
     (case e of (i, profile) \<Rightarrow>
        and_then (require (valid_id i) (invalid_acp ''profile IDs must be nonempty stable identifiers''))
          (\<lambda>_. map_err
             (\<lambda>error. invalid_acp (''profile `'' @ i @ ''`: '' @ config_error_display error))
             (acp_profile_validate profile)))"

definition validate_profiles :: "acp_config \<Rightarrow> workflow_config_error + unit" where
  "validate_profiles acp = try_each validate_profile_entry (acp_profiles acp)"

definition validate_selection ::
  "acp_config \<Rightarrow> string \<Rightarrow> string option \<Rightarrow> bool \<Rightarrow> workflow_config_error + unit" where
  "validate_selection acp harness profile openhands_model_profile =
     and_then (validate_profiles acp) (\<lambda>_.
     and_then
       (if harness = ''acp'' then
          require (is_some_and (\<lambda>i. omap_get (acp_profiles acp) i \<noteq> None) profile)
            (invalid_acp ''routing.harness_profile must name a configured ACP profile'')
        else require (profile = None)
            (invalid_acp ''routing.harness_profile requires routing.harness: acp'')) (\<lambda>_.
     require (\<not> (harness = ''acp'' \<and> openhands_model_profile))
       (invalid_acp ''routing.model_profile is not supported for ACP; select an ACP session model with routing.model'')))"

section \<open>Front matter\<close>

record tracker_front_matter =
  tfm_kind :: "string option"
  tfm_endpoint :: "string option"
  tfm_api_key :: "string option"
  tfm_project_id :: "string option"
  tfm_project_slug :: "string option"
  tfm_project_ids :: "string list option"
  tfm_project_slugs :: "string list option"
  tfm_project_id_slug_fallbacks :: "bool list option"
  tfm_active_states :: "string list option"
  tfm_terminal_states :: "string list option"

record polling_front_matter =
  pfm_interval_ms :: "integer_like option"

record workspace_front_matter =
  wsfm_root :: "string option"

record hooks_front_matter =
  hkfm_after_create :: "string option"
  hkfm_before_run :: "string option"
  hkfm_after_run :: "string option"
  hkfm_before_remove :: "string option"
  hkfm_timeout_ms :: "integer_like option"

record agent_front_matter =
  agfm_max_concurrent_agents :: "integer_like option"
  agfm_max_turns :: "integer_like option"
  agfm_max_retry_backoff_ms :: "integer_like option"
  agfm_stall_timeout_ms :: "integer_like option"
  agfm_max_concurrent_agents_by_state :: "(string, integer_like) omap option"

record routing_front_matter =
  rtfm_harness :: "string option"
  rtfm_harness_profile :: "string option"
  rtfm_model :: "string option"
  rtfm_model_profile :: "string option"
  rtfm_harness_env :: "string option"
  rtfm_model_env :: "string option"
  rtfm_model_profile_env :: "string option"

record openhands_transport_front_matter =
  otfm_base_url :: "string option"
  otfm_session_api_key_env :: "string option"

record openhands_local_server_front_matter =
  olfm_enabled :: "bool option"
  olfm_command :: "string list option"
  olfm_startup_timeout_ms :: "integer_like option"
  olfm_readiness_probe_path :: "string option"
  olfm_env :: "(string, string) omap"

record openhands_confirmation_policy_front_matter =
  opfm_kind :: "string option"
  opfm_options :: "(string, yaml) omap"

record openhands_conversation_tool_front_matter =
  okfm_name :: string
  okfm_params :: "(string, json) omap"

record openhands_conversation_condenser_front_matter =
  odfm_enabled :: "bool option"
  odfm_max_size :: "integer_like option"
  odfm_keep_first :: "integer_like option"

record openhands_subscription_credential_front_matter =
  osfm_vendor :: "string option"
  osfm_access_token_env :: "string option"
  osfm_account_id_env :: "string option"
  osfm_auth_directory_env :: "string option"
  osfm_auth_method :: "string option"
  osfm_open_browser :: "bool option"
  osfm_force_login :: "bool option"

record openhands_llm_front_matter =
  omfm_model :: "string option"
  omfm_api_key_env :: "string option"
  omfm_base_url_env :: "string option"
  omfm_credential_mode :: "string option"
  omfm_subscription :: "openhands_subscription_credential_front_matter option"
  omfm_options :: "(string, yaml) omap"

record openhands_conversation_agent_front_matter =
  oafm_kind :: "string option"
  oafm_llm :: "openhands_llm_front_matter option"
  oafm_condenser :: "openhands_conversation_condenser_front_matter option"
  oafm_tools :: "openhands_conversation_tool_front_matter list option"
  oafm_include_default_tools :: "string list option"
  oafm_log_completions :: "bool option"
  oafm_options :: "(string, yaml) omap"

record openhands_conversation_front_matter =
  ocfm_reuse_policy :: "string option"
  ocfm_persistence_dir_relative :: "string option"
  ocfm_max_iterations :: "integer_like option"
  ocfm_stuck_detection :: "bool option"
  ocfm_confirmation_policy :: "openhands_confirmation_policy_front_matter option"
  ocfm_agent :: "openhands_conversation_agent_front_matter option"

record openhands_websocket_front_matter =
  owfm_enabled :: "bool option"
  owfm_ready_timeout_ms :: "integer_like option"
  owfm_reconnect_initial_ms :: "integer_like option"
  owfm_reconnect_max_ms :: "integer_like option"
  owfm_auth_mode :: "string option"
  owfm_query_param_name :: "string option"

record openhands_front_matter =
  ohfm_transport :: openhands_transport_front_matter
  ohfm_local_server :: openhands_local_server_front_matter
  ohfm_conversation :: openhands_conversation_front_matter
  ohfm_websocket :: openhands_websocket_front_matter
  ohfm_legacy_linear_bridge :: "yaml option"

record workflow_front_matter =
  wfm_tracker :: tracker_front_matter
  wfm_polling :: polling_front_matter
  wfm_workspace :: workspace_front_matter
  wfm_hooks :: hooks_front_matter
  wfm_agent :: agent_front_matter
  wfm_openhands :: openhands_front_matter
  wfm_routing :: routing_front_matter
  wfm_acp :: acp_config
  wfm_codex :: "(string, yaml) omap option"
  wfm_logging :: "(string, yaml) omap option"
  wfm_extensions :: "(string, yaml) omap"

record workflow_definition =
  wd_front_matter :: workflow_front_matter
  wd_prompt_template :: string

section \<open>Resolved configuration\<close>

record tracker_config =
  tc_kind :: tracker_kind
  tc_endpoint :: string
  tc_api_key :: string
  tc_project_id :: "string option"
  tc_project_slug :: string
  tc_project_ids :: "string list"
  tc_project_slugs :: "string list"
  tc_project_id_slug_fallbacks :: "bool list"
  tc_active_states :: "string list"
  tc_terminal_states :: "string list"

record polling_config =
  pc_interval_ms :: u64

record workspace_config =
  wsc_root :: path

record hooks_config =
  hkc_after_create :: "string option"
  hkc_before_run :: "string option"
  hkc_after_run :: "string option"
  hkc_before_remove :: "string option"
  hkc_timeout_ms :: u64

record agent_config =
  agc_max_concurrent_agents :: u64
  agc_max_turns :: u64
  agc_max_retry_backoff_ms :: u64
  agc_stall_timeout_ms :: "u64 option"
  agc_max_concurrent_agents_by_state :: "(string, u64) omap"

record routing_config =
  rc_harness :: string
  rc_harness_profile :: "string option"
  rc_model :: "string option"
  rc_model_profile :: "string option"
  rc_harness_env :: string
  rc_model_env :: string
  rc_model_profile_env :: string
  rc_harness_from_env :: bool
  rc_model_from_env :: bool
  rc_model_profile_from_env :: bool
  rc_dry_run :: bool

record openhands_transport_config =
  oht_base_url :: string
  oht_session_api_key_env :: "string option"

record openhands_local_server_config =
  ohl_enabled :: bool
  ohl_command :: "string list option"
  ohl_startup_timeout_ms :: u64
  ohl_readiness_probe_path :: string
  ohl_env :: "(string, string) omap"

record openhands_confirmation_policy =
  ohp_kind :: string

record openhands_conversation_tool_config =
  ohk_name :: string
  ohk_params :: "(string, json) omap"

record openhands_conversation_condenser_config =
  ohd_max_size :: u64
  ohd_keep_first :: u64

record openhands_subscription_credential_config =
  ohs_vendor :: string
  ohs_access_token_env :: string
  ohs_account_id_env :: "string option"
  ohs_auth_directory_env :: "string option"
  ohs_auth_method :: string
  ohs_open_browser :: bool
  ohs_force_login :: bool

record openhands_llm_config =
  ohm_model :: "string option"
  ohm_api_key_env :: "string option"
  ohm_base_url_env :: "string option"
  ohm_credential_mode :: string
  ohm_subscription :: "openhands_subscription_credential_config option"
  ohm_options :: "(string, yaml) omap"

record openhands_conversation_agent_config =
  oha_kind :: string
  oha_llm :: "openhands_llm_config option"
  oha_condenser :: "openhands_conversation_condenser_config option"
  oha_tools :: "openhands_conversation_tool_config list option"
  oha_include_default_tools :: "string list option"
  oha_log_completions :: bool
  oha_options :: "(string, yaml) omap"

record openhands_conversation_config =
  ohv_reuse_policy :: string
  ohv_persistence_dir_relative :: path
  ohv_max_iterations :: u64
  ohv_stuck_detection :: bool
  ohv_confirmation_policy :: openhands_confirmation_policy
  ohv_agent :: openhands_conversation_agent_config

record openhands_websocket_config =
  ohw_enabled :: bool
  ohw_ready_timeout_ms :: u64
  ohw_reconnect_initial_ms :: u64
  ohw_reconnect_max_ms :: u64
  ohw_auth_mode :: string
  ohw_query_param_name :: string

record openhands_config =
  ohc_transport :: openhands_transport_config
  ohc_local_server :: openhands_local_server_config
  ohc_conversation :: openhands_conversation_config
  ohc_websocket :: openhands_websocket_config

record workflow_config =
  wc_tracker :: tracker_config
  wc_polling :: polling_config
  wc_workspace :: workspace_config
  wc_hooks :: hooks_config
  wc_agent :: agent_config
  wc_routing :: routing_config

record workflow_extensions =
  we_acp :: acp_config
  we_openhands :: openhands_config

record resolved_workflow =
  rw_config :: workflow_config
  rw_extensions :: workflow_extensions
  rw_prompt_template :: string

definition validate_route :: "acp_config \<Rightarrow> routing_config \<Rightarrow> workflow_config_error + unit" where
  "validate_route acp routing =
     validate_selection acp (rc_harness routing) (rc_harness_profile routing)
       (rc_model_profile routing \<noteq> None)"

section \<open>Reading a workflow file\<close>

definition openhands_front_matter_default :: openhands_front_matter where
  "openhands_front_matter_default =
     \<lparr>ohfm_transport = \<lparr>otfm_base_url = None, otfm_session_api_key_env = None\<rparr>,
      ohfm_local_server = \<lparr>olfm_enabled = None, olfm_command = None,
        olfm_startup_timeout_ms = None, olfm_readiness_probe_path = None, olfm_env = []\<rparr>,
      ohfm_conversation = \<lparr>ocfm_reuse_policy = None, ocfm_persistence_dir_relative = None,
        ocfm_max_iterations = None, ocfm_stuck_detection = None, ocfm_confirmation_policy = None,
        ocfm_agent = None\<rparr>,
      ohfm_websocket = \<lparr>owfm_enabled = None, owfm_ready_timeout_ms = None,
        owfm_reconnect_initial_ms = None, owfm_reconnect_max_ms = None, owfm_auth_mode = None,
        owfm_query_param_name = None\<rparr>,
      ohfm_legacy_linear_bridge = None\<rparr>"

definition workflow_front_matter_default :: workflow_front_matter where
  "workflow_front_matter_default =
     \<lparr>wfm_tracker = \<lparr>tfm_kind = None, tfm_endpoint = None, tfm_api_key = None,
        tfm_project_id = None, tfm_project_slug = None, tfm_project_ids = None,
        tfm_project_slugs = None, tfm_project_id_slug_fallbacks = None, tfm_active_states = None,
        tfm_terminal_states = None\<rparr>,
      wfm_polling = \<lparr>pfm_interval_ms = None\<rparr>,
      wfm_workspace = \<lparr>wsfm_root = None\<rparr>,
      wfm_hooks = \<lparr>hkfm_after_create = None, hkfm_before_run = None, hkfm_after_run = None,
        hkfm_before_remove = None, hkfm_timeout_ms = None\<rparr>,
      wfm_agent = \<lparr>agfm_max_concurrent_agents = None, agfm_max_turns = None,
        agfm_max_retry_backoff_ms = None, agfm_stall_timeout_ms = None,
        agfm_max_concurrent_agents_by_state = None\<rparr>,
      wfm_openhands = openhands_front_matter_default,
      wfm_routing = \<lparr>rtfm_harness = None, rtfm_harness_profile = None, rtfm_model = None,
        rtfm_model_profile = None, rtfm_harness_env = None, rtfm_model_env = None,
        rtfm_model_profile_env = None\<rparr>,
      wfm_acp = \<lparr>acp_profiles = []\<rparr>,
      wfm_codex = None, wfm_logging = None, wfm_extensions = []\<rparr>"

text \<open>\<open>split_inclusive('\n')\<close>: every line keeps its line feed; no line after the last one.\<close>

fun split_inclusive :: "string \<Rightarrow> string list" where
  "split_inclusive [] = []"
| "split_inclusive (c # s) =
     (if c = CHR 0x0A then [c] # split_inclusive s
      else case split_inclusive s of [] \<Rightarrow> [[c]] | l # ls \<Rightarrow> (c # l) # ls)"

definition trim_line :: "string \<Rightarrow> string" where
  "trim_line line = rev (dropWhile (\<lambda>c. c = CHR 0x0D \<or> c = CHR 0x0A) (rev line))"

definition delimiter :: string where "delimiter = ''---''"

fun find_closing :: "string \<Rightarrow> nat \<Rightarrow> string list \<Rightarrow> nat \<Rightarrow> (string \<times> string) option" where
  "find_closing source first_len [] offset = None"
| "find_closing source first_len (line # lines) offset =
     (if trim_line line = delimiter
      then Some (drop first_len (take offset source), drop (offset + length line) source)
      else find_closing source first_len lines (offset + length line))"

definition split_front_matter :: "string \<Rightarrow> (string \<times> string) option" where
  "split_front_matter source =
     (case split_inclusive source of
        [] \<Rightarrow> None
      | first_line # lines \<Rightarrow>
          if trim_line first_line \<noteq> delimiter then None
          else find_closing source (length first_line) lines (length first_line))"

definition parse_front_matter ::
  "(string \<Rightarrow> string + yaml) \<Rightarrow> (yaml \<Rightarrow> string + workflow_front_matter) \<Rightarrow> string
     \<Rightarrow> workflow_load_error + workflow_front_matter option" where
  "parse_front_matter yaml_parse decode front_matter =
     and_then (map_err WorkflowParseError (yaml_parse front_matter)) (\<lambda>parsed.
       case parsed of
         YNull \<Rightarrow> if trim front_matter = [] then Ok (Some workflow_front_matter_default) else Ok None
       | YMapping _ \<Rightarrow>
           and_then (map_err WorkflowParseError (decode parsed)) (\<lambda>fm.
             case omap_keys (wfm_extensions fm) of
               namespace # _ \<Rightarrow> Err (UnknownTopLevelNamespace namespace)
             | [] \<Rightarrow> Ok (Some fm))
       | _ \<Rightarrow> Ok None)"

definition parse_workflow ::
  "(string \<Rightarrow> string + yaml) \<Rightarrow> (yaml \<Rightarrow> string + workflow_front_matter) \<Rightarrow> string
     \<Rightarrow> workflow_load_error + workflow_definition" where
  "parse_workflow yaml_parse decode source =
     (case split_front_matter source of
        None \<Rightarrow> Ok \<lparr>wd_front_matter = workflow_front_matter_default, wd_prompt_template = source\<rparr>
      | Some (front_matter_source, prompt_source) \<Rightarrow>
          and_then (parse_front_matter yaml_parse decode front_matter_source) (\<lambda>fm.
            case fm of
              None \<Rightarrow> Ok \<lparr>wd_front_matter = workflow_front_matter_default, wd_prompt_template = source\<rparr>
            | Some front_matter \<Rightarrow>
                Ok \<lparr>wd_front_matter = front_matter, wd_prompt_template = prompt_source\<rparr>))"

text \<open>\<open>std::fs::read_to_string\<close> is the parameter \<open>read_file\<close>; its error says whether the file
  was not found.\<close>

datatype io_error = NotFound | OtherIo string

definition load_workflow_from_path ::
  "(path \<Rightarrow> io_error + string) \<Rightarrow> (string \<Rightarrow> string + yaml)
     \<Rightarrow> (yaml \<Rightarrow> string + workflow_front_matter) \<Rightarrow> path
     \<Rightarrow> workflow_load_error + workflow_definition" where
  "load_workflow_from_path read_file yaml_parse decode p =
     and_then
       (map_err (\<lambda>source. case source of
            NotFound \<Rightarrow> MissingWorkflowFile p | OtherIo e \<Rightarrow> ReadWorkflowFile p e)
          (read_file p))
       (parse_workflow yaml_parse decode)"

section \<open>Prompts\<close>

definition DEFAULT_PROMPT_TEMPLATE :: string where
  "DEFAULT_PROMPT_TEMPLATE = ''You are working on an issue from Linear.''"

definition effective_prompt_template :: "workflow_definition \<Rightarrow> string" where
  "effective_prompt_template w =
     (if trim (wd_prompt_template w) = [] then DEFAULT_PROMPT_TEMPLATE else wd_prompt_template w)"

definition resolved_prompt_template :: "resolved_workflow \<Rightarrow> string" where
  "resolved_prompt_template w =
     (if trim (rw_prompt_template w) = [] then DEFAULT_PROMPT_TEMPLATE else rw_prompt_template w)"

text \<open>The template engine: building the parser and parsing the template, turning the context
  (the issue and the attempt) into template values, and rendering.\<close>

definition render_prompt ::
  "(string \<Rightarrow> string + 'template) \<Rightarrow> ('issue \<times> u32 option \<Rightarrow> string + 'globals)
     \<Rightarrow> ('template \<Rightarrow> 'globals \<Rightarrow> string + string) \<Rightarrow> string \<Rightarrow> 'issue \<Rightarrow> u32 option
     \<Rightarrow> prompt_template_error + string" where
  "render_prompt liquid_parse to_object liquid_render template_source issue attempt =
     and_then (map_err PParse (liquid_parse template_source)) (\<lambda>template.
     and_then (map_err PContext (to_object (issue, attempt))) (\<lambda>globals.
     map_err PRender (liquid_render template globals)))"

end
