(* ===== verification/Harness_Kinds.thy ===== *)
theory Harness_Kinds
  imports Prelude
begin

text \<open>
  \<open>opensymphony-gateway-schema/src/capability.rs\<close>: the harnesses an issue can be routed to
  and the capability record each of them advertises to clients, as plain strings and flags.
\<close>

section \<open>Capability records\<close>

record harness_action_capability =
  ha_start_run :: bool
  ha_send_user_message :: bool
  ha_retry :: bool
  ha_cancel :: bool
  ha_pause :: bool
  ha_resume :: bool
  ha_approve :: bool
  ha_reject :: bool
  ha_comment :: bool

record harness_event_stream_capability =
  hes_runtime_events :: bool
  hes_terminal_frames :: bool
  hes_replay_from_cursor :: bool
  hes_raw_payload_refs :: bool
  hes_delivery_modes :: "string list"

record harness_approval_capability =
  hp_tool_approval :: bool
  hp_human_decision :: bool
  hp_policy_metadata :: bool

record harness_model_settings_capability =
  hm_api_compatible_settings :: bool
  hm_subscription_credentials :: bool
  hm_per_run_overrides :: bool
  hm_credential_reference_kinds :: "string list"

record harness_transport_capability =
  ht_protocol :: string
  ht_modes :: "string list"
  ht_local :: bool
  ht_remote :: bool

record harness_cancellation_capability =
  hx_cancel_run :: bool
  hx_force_stop :: bool
  hx_acknowledges_cancel :: bool

record harness_pause_resume_capability =
  hr_pause :: bool
  hr_resume :: bool

record harness_history_capability =
  hh_fetch_history :: bool
  hh_reconcile_after_ready :: bool
  hh_reconnect_and_replay :: bool
  hh_preserve_unknown_events :: bool

record harness_capability =
  hcap_kind :: string
  hcap_display_name :: string
  hcap_available :: bool
  hcap_adapter_contract_version :: string
  hcap_runtime_contract_version :: "string option"
  hcap_actions :: harness_action_capability
  hcap_event_streams :: harness_event_stream_capability
  hcap_approvals :: harness_approval_capability
  hcap_model_settings :: harness_model_settings_capability
  hcap_transport :: harness_transport_capability
  hcap_cancellation :: harness_cancellation_capability
  hcap_pause_resume :: harness_pause_resume_capability
  hcap_history :: harness_history_capability
  hcap_notes :: "string list"
  hcap_feature_gaps :: "string list"

section \<open>The capabilities of each harness\<close>

definition openhands_agent_server :: harness_capability where
  "openhands_agent_server = \<lparr>hcap_kind = ''openhands_agent_server'', hcap_display_name =
     ''OpenHands agent-server'', hcap_available = True, hcap_adapter_contract_version =
     ''harness-adapter-v1'', hcap_runtime_contract_version = (Some ''openhands-sdk-agent-server-v1''),
     hcap_actions = \<lparr>ha_start_run = True, ha_send_user_message = True, ha_retry = True,
     ha_cancel = True, ha_pause = False, ha_resume = False, ha_approve = False, ha_reject = False,
     ha_comment = True\<rparr>, hcap_event_streams = \<lparr>hes_runtime_events = True,
     hes_terminal_frames = True, hes_replay_from_cursor = True, hes_raw_payload_refs = True,
     hes_delivery_modes = [''http_history'', ''websocket'']\<rparr>, hcap_approvals =
     \<lparr>hp_tool_approval = False, hp_human_decision = False, hp_policy_metadata =
     False\<rparr>, hcap_model_settings = \<lparr>hm_api_compatible_settings = True,
     hm_subscription_credentials = False, hm_per_run_overrides = True, hm_credential_reference_kinds
     = [''env'']\<rparr>, hcap_transport = \<lparr>ht_protocol = ''http_websocket'', ht_modes =
     [''rest'', ''websocket''], ht_local = True, ht_remote = True\<rparr>, hcap_cancellation =
     \<lparr>hx_cancel_run = True, hx_force_stop = True, hx_acknowledges_cancel = True\<rparr>,
     hcap_pause_resume = \<lparr>hr_pause = False, hr_resume = False\<rparr>, hcap_history =
     \<lparr>hh_fetch_history = True, hh_reconcile_after_ready = True, hh_reconnect_and_replay =
     True, hh_preserve_unknown_events = True\<rparr>, hcap_notes =
     [''Initial production adapter; reuses one conversation per issue by default.''],
     hcap_feature_gaps =
     [''OpenHands pause/resume is not exposed by the current agent-server contract.'',
     ''Approval center normalization is reserved for a follow-up harness phase.'']\<rparr>"

definition codex_app_server_local :: harness_capability where
  "codex_app_server_local = \<lparr>hcap_kind = ''codex_app_server'', hcap_display_name =
     ''Codex app-server'', hcap_available = True, hcap_adapter_contract_version =
     ''harness-adapter-v1'', hcap_runtime_contract_version = (Some ''codex-app-server-json-rpc-v2''),
     hcap_actions = \<lparr>ha_start_run = True, ha_send_user_message = True, ha_retry = True,
     ha_cancel = True, ha_pause = False, ha_resume = False, ha_approve = False, ha_reject = False,
     ha_comment = False\<rparr>, hcap_event_streams = \<lparr>hes_runtime_events = True,
     hes_terminal_frames = True, hes_replay_from_cursor = False, hes_raw_payload_refs = True,
     hes_delivery_modes = [''json_rpc_notifications'']\<rparr>, hcap_approvals =
     \<lparr>hp_tool_approval = True, hp_human_decision = True, hp_policy_metadata = True\<rparr>,
     hcap_model_settings = \<lparr>hm_api_compatible_settings = True, hm_subscription_credentials =
     True, hm_per_run_overrides = True, hm_credential_reference_kinds = [''model_settings_ref'',
     ''inherited_subscription_login'', ''codex_cli_login'', ''capability_token'',
     ''signed_bearer'']\<rparr>, hcap_transport = \<lparr>ht_protocol = ''json_rpc_2_0'', ht_modes =
     [''stdio''], ht_local = True, ht_remote = False\<rparr>, hcap_cancellation =
     \<lparr>hx_cancel_run = True, hx_force_stop = False, hx_acknowledges_cancel = True\<rparr>,
     hcap_pause_resume = \<lparr>hr_pause = False, hr_resume = False\<rparr>, hcap_history =
     \<lparr>hh_fetch_history = False, hh_reconcile_after_ready = False, hh_reconnect_and_replay =
     False, hh_preserve_unknown_events = True\<rparr>, hcap_notes =
     [''Supported local adapter path using `codex --dangerously-bypass-hook-trust app-server --stdio` with installed-schema validation.'',
     ''Requires a compatible Codex CLI with ChatGPT login available to the operator-owned Codex home.''],
     hcap_feature_gaps =
     [''Codex issue execution remains local-stdio alpha and requires explicit harness selection.'',
     ''Approval decision forwarding to Codex is not wired for the local stdio adapter yet.'',
     ''Codex history fetch and reconnect replay cursors are not implemented for the local stdio adapter.'',
     ''Codex stdio reconciliation after readiness is not implemented; events are consumed from the live JSON-RPC stream.'',
     ''Harness-native comments are not implemented; tracker comments remain orchestrator-owned.'',
     ''Pause/resume semantics need protocol confirmation before being advertised as available.'',
     ''Hosted Codex worker pools and remote transport remain out of scope for the local adapter.'',
     ''Loopback WebSocket mode remains benchmark-only until exposure and auth policy are hardened.'']\<rparr>"

definition acp_stdio :: harness_capability where
  "acp_stdio = \<lparr>hcap_kind = ''acp'', hcap_display_name = ''ACP agent'', hcap_available = True,
     hcap_adapter_contract_version = ''harness-adapter-v1'', hcap_runtime_contract_version = (Some
     ''acp-v1''), hcap_actions = \<lparr>ha_start_run = True, ha_send_user_message = False, ha_retry =
     True, ha_cancel = True, ha_pause = False, ha_resume = False, ha_approve = True, ha_reject =
     True, ha_comment = False\<rparr>, hcap_event_streams = \<lparr>hes_runtime_events = True,
     hes_terminal_frames = False, hes_replay_from_cursor = False, hes_raw_payload_refs = True,
     hes_delivery_modes = [''json_rpc_notifications'']\<rparr>, hcap_approvals =
     \<lparr>hp_tool_approval = True, hp_human_decision = True, hp_policy_metadata = False\<rparr>,
     hcap_model_settings = \<lparr>hm_api_compatible_settings = False, hm_subscription_credentials =
     False, hm_per_run_overrides = True, hm_credential_reference_kinds = [''env'']\<rparr>,
     hcap_transport = \<lparr>ht_protocol = ''json_rpc_2_0'', ht_modes = [''stdio''], ht_local = True,
     ht_remote = False\<rparr>, hcap_cancellation = \<lparr>hx_cancel_run = True, hx_force_stop =
     True, hx_acknowledges_cancel = True\<rparr>, hcap_pause_resume = \<lparr>hr_pause = False,
     hr_resume = False\<rparr>, hcap_history = \<lparr>hh_fetch_history = False,
     hh_reconcile_after_ready = False, hh_reconnect_and_replay = False, hh_preserve_unknown_events =
     True\<rparr>, hcap_notes =
     [''ACP v1 host-owned stdio sessions; profile preflight and negotiated run support are separate from adapter availability.'',
     ''Operator responses support offered permission options and bounded required choice forms (string and string-array enums).''],
     hcap_feature_gaps =
     [''Free-text, numeric, optional, constrained, request-scoped and URL elicitation are unavailable; unsupported requests are cancelled.'',
     ''Cursor vendor methods require version-tested registration in COE-613.'',
     ''Context restoration requires negotiated session/load or session/resume support; uncertain prompt delivery remains fenced.'']\<rparr>"

definition codex_app_server_future :: harness_capability where
  "codex_app_server_future = \<lparr>hcap_kind = ''codex_app_server'', hcap_display_name =
     ''Codex app-server'', hcap_available = False, hcap_adapter_contract_version =
     ''harness-adapter-v1'', hcap_runtime_contract_version = None, hcap_actions = \<lparr>ha_start_run =
     True, ha_send_user_message = True, ha_retry = True, ha_cancel = True, ha_pause = False,
     ha_resume = False, ha_approve = True, ha_reject = True, ha_comment = True\<rparr>,
     hcap_event_streams = \<lparr>hes_runtime_events = True, hes_terminal_frames = True,
     hes_replay_from_cursor = False, hes_raw_payload_refs = True, hes_delivery_modes =
     [''json_rpc_notifications'', ''websocket_experimental'']\<rparr>, hcap_approvals =
     \<lparr>hp_tool_approval = True, hp_human_decision = True, hp_policy_metadata = True\<rparr>,
     hcap_model_settings = \<lparr>hm_api_compatible_settings = True, hm_subscription_credentials =
     True, hm_per_run_overrides = True, hm_credential_reference_kinds = [''model_settings_ref'',
     ''inherited_subscription_login'', ''codex_cli_login'', ''capability_token'',
     ''signed_bearer'']\<rparr>, hcap_transport = \<lparr>ht_protocol = ''json_rpc_2_0'', ht_modes =
     [''stdio'', ''websocket_experimental''], ht_local = True, ht_remote = True\<rparr>,
     hcap_cancellation = \<lparr>hx_cancel_run = True, hx_force_stop = False, hx_acknowledges_cancel =
     True\<rparr>, hcap_pause_resume = \<lparr>hr_pause = False, hr_resume = False\<rparr>, hcap_history
     = \<lparr>hh_fetch_history = False, hh_reconcile_after_ready = False, hh_reconnect_and_replay =
     False, hh_preserve_unknown_events = True\<rparr>, hcap_notes =
     [''Future hosted/remote adapter shape for Codex app-server.''], hcap_feature_gaps =
     [''Production hosted or remote Codex routing is not implemented.'',
     ''Codex history fetch and reconnect replay cursors are not implemented.'',
     ''Pause/resume semantics need protocol confirmation before being advertised as available.'']\<rparr>"

definition rust_native_future :: harness_capability where
  "rust_native_future = \<lparr>hcap_kind = ''rust_native'', hcap_display_name =
     ''Rust-native harness'', hcap_available = False, hcap_adapter_contract_version =
     ''harness-adapter-v1'', hcap_runtime_contract_version = None, hcap_actions = \<lparr>ha_start_run =
     True, ha_send_user_message = True, ha_retry = True, ha_cancel = True, ha_pause = True,
     ha_resume = True, ha_approve = True, ha_reject = True, ha_comment = True\<rparr>,
     hcap_event_streams = \<lparr>hes_runtime_events = True, hes_terminal_frames = True,
     hes_replay_from_cursor = True, hes_raw_payload_refs = True, hes_delivery_modes = [''in_process'',
     ''subprocess_rpc'']\<rparr>, hcap_approvals = \<lparr>hp_tool_approval = True, hp_human_decision
     = True, hp_policy_metadata = True\<rparr>, hcap_model_settings =
     \<lparr>hm_api_compatible_settings = True, hm_subscription_credentials = True,
     hm_per_run_overrides = True, hm_credential_reference_kinds = [''model_settings_ref'']\<rparr>,
     hcap_transport = \<lparr>ht_protocol = ''in_process_or_rpc'', ht_modes = [''in_process'',
     ''subprocess_rpc''], ht_local = True, ht_remote = False\<rparr>, hcap_cancellation =
     \<lparr>hx_cancel_run = True, hx_force_stop = True, hx_acknowledges_cancel = True\<rparr>,
     hcap_pause_resume = \<lparr>hr_pause = True, hr_resume = True\<rparr>, hcap_history =
     \<lparr>hh_fetch_history = True, hh_reconcile_after_ready = True, hh_reconnect_and_replay =
     True, hh_preserve_unknown_events = True\<rparr>, hcap_notes =
     [''Future high-performance local adapter for stable Rust execution APIs.''], hcap_feature_gaps =
     [''Concrete SDK/runtime selection is not implemented yet.'']\<rparr>"

section \<open>Harness kinds\<close>

datatype harness_kind = OpenHandsAgentServer | CodexAppServer | RustNative | Acp

definition harness_kind_ALL :: "harness_kind list" where
  "harness_kind_ALL = [OpenHandsAgentServer, CodexAppServer, RustNative, Acp]"

definition harness_kind_parse :: "string \<Rightarrow> harness_kind option" where
  "harness_kind_parse value =
     (if value = ''openhands_agent_server'' then Some OpenHandsAgentServer
      else if value = ''codex_app_server'' then Some CodexAppServer
      else if value = ''rust_native'' then Some RustNative
      else if value = ''acp'' then Some Acp
      else None)"

fun harness_kind_as_str :: "harness_kind \<Rightarrow> string" where
  "harness_kind_as_str OpenHandsAgentServer = ''openhands_agent_server''"
| "harness_kind_as_str CodexAppServer = ''codex_app_server''"
| "harness_kind_as_str RustNative = ''rust_native''"
| "harness_kind_as_str Acp = ''acp''"

definition supported_names :: "string list" where
  "supported_names = map harness_kind_as_str harness_kind_ALL"

fun harness_kind_capability :: "harness_kind \<Rightarrow> harness_capability" where
  "harness_kind_capability OpenHandsAgentServer = openhands_agent_server"
| "harness_kind_capability CodexAppServer = codex_app_server_local"
| "harness_kind_capability RustNative = rust_native_future"
| "harness_kind_capability Acp = acp_stdio"

section \<open>Lemmas\<close>

lemmas capability_defs =
  openhands_agent_server_def codex_app_server_local_def rust_native_future_def acp_stdio_def

lemma parse_as_str [simp]: "harness_kind_parse (harness_kind_as_str k) = Some k"
  by (cases k) (simp_all add: harness_kind_parse_def)

lemma parse_SomeD: "harness_kind_parse s = Some k \<Longrightarrow> s = harness_kind_as_str k"
  unfolding harness_kind_parse_def
  by (cases k) (simp_all only: harness_kind_as_str.simps option.inject option.distinct
      harness_kind.distinct if_False if_True simp_thms split: if_split_asm)

lemma parse_eq_Some: "harness_kind_parse s = Some k \<longleftrightarrow> s = harness_kind_as_str k"
  using parse_SomeD by (metis parse_as_str)

lemma parse_supported: "harness_kind_parse s \<noteq> None \<longleftrightarrow> s \<in> set supported_names"
proof -
  have "s \<in> set supported_names \<longleftrightarrow> (\<exists>k. s = harness_kind_as_str k)"
  proof
    assume "\<exists>k. s = harness_kind_as_str k"
    then obtain k where "s = harness_kind_as_str k" ..
    then show "s \<in> set supported_names"
      by (cases k) (simp_all add: supported_names_def harness_kind_ALL_def)
  qed (auto simp: supported_names_def)
  then show ?thesis by (simp only: not_None_eq parse_eq_Some)
qed

lemma capability_available [simp]:
  "hcap_available (harness_kind_capability k) \<longleftrightarrow> k \<noteq> RustNative"
  by (cases k) (simp_all add: capability_defs)

lemma capability_start_run [simp]: "ha_start_run (hcap_actions (harness_kind_capability k))"
  by (cases k) (simp_all add: capability_defs)

lemma capability_kind [simp]: "hcap_kind (harness_kind_capability k) = harness_kind_as_str k"
  by (cases k) (simp_all add: capability_defs)

end
