(* ===== verification/Workflow_Resolve.thy ===== *)
theory Workflow_Resolve
  imports Workflow_Model Harness_Kinds
begin

text \<open>
  \<open>opensymphony-workflow/src/resolve.rs\<close>, the sections of a workflow other than
  \<open>openhands\<close>: the resolution of tracker, polling, workspace, hooks, agent and routing.

  The process environment is a function; \<open>str::to_lowercase\<close>, which follows the Unicode case
  tables, is the parameter \<open>lower\<close>; the current working directory is the parameter \<open>cwd\<close>,
  an error message where the call fails. An \<open>i64\<close> is a 64-bit word whose
  value is its \<^const>\<open>sint\<close>, so that the cast \<open>as u64\<close> keeps the word.
\<close>

section \<open>Constants\<close>

definition DEFAULT_LINEAR_ENDPOINT :: string where
  "DEFAULT_LINEAR_ENDPOINT = ''https://api.linear.app/graphql''"
definition DEFAULT_POLL_INTERVAL_MS :: u64 where "DEFAULT_POLL_INTERVAL_MS = 30000"
definition DEFAULT_WORKSPACE_ROOT :: string where
  "DEFAULT_WORKSPACE_ROOT = ''/symphony_workspaces''"
definition DEFAULT_HOOK_TIMEOUT_MS :: u64 where "DEFAULT_HOOK_TIMEOUT_MS = 60000"
definition DEFAULT_MAX_CONCURRENT_AGENTS :: u64 where "DEFAULT_MAX_CONCURRENT_AGENTS = 10"
definition DEFAULT_MAX_TURNS :: u64 where "DEFAULT_MAX_TURNS = 20"
definition DEFAULT_MAX_RETRY_BACKOFF_MS :: u64 where "DEFAULT_MAX_RETRY_BACKOFF_MS = 300000"
definition DEFAULT_STALL_TIMEOUT_MS :: u64 where "DEFAULT_STALL_TIMEOUT_MS = 300000"
definition DEFAULT_ROUTING_HARNESS :: string where
  "DEFAULT_ROUTING_HARNESS = ''openhands_agent_server''"
definition DEFAULT_ROUTING_HARNESS_ENV :: string where
  "DEFAULT_ROUTING_HARNESS_ENV = ''OPENSYMPHONY_HARNESS''"
definition DEFAULT_ROUTING_MODEL_ENV :: string where
  "DEFAULT_ROUTING_MODEL_ENV = ''OPENSYMPHONY_MODEL''"
definition DEFAULT_ROUTING_MODEL_PROFILE_ENV :: string where
  "DEFAULT_ROUTING_MODEL_PROFILE_ENV = ''OPENSYMPHONY_MODEL_PROFILE''"

section \<open>Strings and environment tokens\<close>

definition normalize_optional :: "string \<Rightarrow> string option" where
  "normalize_optional value = (if trim value = [] then None else Some (trim value))"

definition normalize_optional_literal :: "string option \<Rightarrow> string option" where
  "normalize_optional_literal value = Option.bind value normalize_optional"

definition is_env_name :: "string \<Rightarrow> bool" where
  "is_env_name value \<longleftrightarrow>
     value \<noteq> [] \<and> list_all (\<lambda>c. c = CHR ''_'' \<or> is_ascii_alphanumeric c) value"

definition parse_env_token :: "string \<Rightarrow> string option" where
  "parse_env_token value =
     (case Option.bind (strip_prefix ''${'' value) (strip_suffix ''}'') of
        Some variable \<Rightarrow> (if is_env_name variable then Some variable else None)
      | None \<Rightarrow>
          (case strip_prefix ''$'' value of
             None \<Rightarrow> None
           | Some variable \<Rightarrow> if is_env_name variable then Some variable else None))"

definition env_value :: "environment \<Rightarrow> string \<Rightarrow> string option" where
  "env_value env name = Option.bind (env name) normalize_optional"

definition resolve_string :: "string \<Rightarrow> environment \<Rightarrow> string \<Rightarrow> workflow_config_error + string" where
  "resolve_string value env field =
     (case parse_env_token value of
        Some variable \<Rightarrow> ok_or (MissingEnvironmentVariable field variable) (env_value env variable)
      | None \<Rightarrow> Ok value)"

definition resolve_string_or_default ::
  "string option \<Rightarrow> environment \<Rightarrow> string \<Rightarrow> string \<Rightarrow> workflow_config_error + string" where
  "resolve_string_or_default configured env field dflt =
     (case Option.bind configured normalize_optional of
        Some value \<Rightarrow> resolve_string value env field
      | None \<Rightarrow> Ok dflt)"

definition require_literal :: "string option \<Rightarrow> string \<Rightarrow> workflow_config_error + string" where
  "require_literal value field =
     ok_or (MissingRequiredField field) (Option.bind value normalize_optional)"

section \<open>Integers\<close>

text \<open>\<open>str::parse::<i64>\<close>: an optional sign, at least one digit, a value within range.\<close>

definition parse_i64_str :: "string \<Rightarrow> i64 option" where
  "parse_i64_str s =
     (let negative = (case s of c # _ \<Rightarrow> c = CHR ''-'' | [] \<Rightarrow> False);
          ds = (case s of c # r \<Rightarrow> if c = CHR ''-'' \<or> c = CHR ''+'' then r else s | [] \<Rightarrow> []);
          n = (if negative then - int (digits_value ds) else int (digits_value ds))
      in if ds \<noteq> [] \<and> list_all is_ascii_digit ds \<and> - (2 ^ 63) \<le> n \<and> n < 2 ^ 63
         then Some (of_int n) else None)"

definition parse_i64 :: "integer_like \<Rightarrow> string \<Rightarrow> workflow_config_error + i64" where
  "parse_i64 value field =
     (case value of
        ILInteger n \<Rightarrow> Ok n
      | ILString s \<Rightarrow> ok_or (InvalidInteger field s) (parse_i64_str (trim s)))"

definition resolve_positive_u64 ::
  "integer_like option \<Rightarrow> string \<Rightarrow> u64 \<Rightarrow> workflow_config_error + u64" where
  "resolve_positive_u64 value field dflt =
     (case value of
        None \<Rightarrow> Ok dflt
      | Some v \<Rightarrow>
          and_then (parse_i64 v field) (\<lambda>parsed.
            if sint parsed \<le> 0 then Err (InvalidField field ''must be greater than zero'')
            else Ok parsed))"

definition resolve_non_positive_to_default ::
  "integer_like option \<Rightarrow> string \<Rightarrow> u64 \<Rightarrow> workflow_config_error + u64" where
  "resolve_non_positive_to_default value field dflt =
     (case value of
        None \<Rightarrow> Ok dflt
      | Some v \<Rightarrow>
          and_then (parse_i64 v field) (\<lambda>parsed.
            if sint parsed \<le> 0 then Ok dflt else Ok parsed))"

section \<open>Tracker\<close>

fun reject_duplicates :: "string \<Rightarrow> bool \<Rightarrow> string set \<Rightarrow> string list \<Rightarrow> workflow_config_error + unit" where
  "reject_duplicates field ci seen [] = Ok ()"
| "reject_duplicates field ci seen (value # values) =
     (let key = (if ci then to_ascii_lowercase value else value)
      in if key \<in> seen then Err (InvalidField field ''must not contain duplicate values'')
         else reject_duplicates field ci (insert key seen) values)"

definition reject_duplicate_tracker_values ::
  "string \<Rightarrow> string list \<Rightarrow> bool \<Rightarrow> workflow_config_error + unit" where
  "reject_duplicate_tracker_values field values case_insensitive =
     reject_duplicates field case_insensitive {} values"

definition resolve_tracker_api_key ::
  "tracker_front_matter \<Rightarrow> environment \<Rightarrow> workflow_config_error + string" where
  "resolve_tracker_api_key tracker env =
     (case tfm_api_key tracker of
        Some configured \<Rightarrow>
          and_then (require_literal (Some configured) ''tracker.api_key'') (\<lambda>c.
            resolve_string c env ''tracker.api_key'')
      | None \<Rightarrow> ok_or (MissingRequiredField ''tracker.api_key'') (env_value env ''LINEAR_API_KEY''))"

definition resolve_state_list :: "string list option \<Rightarrow> string \<Rightarrow> workflow_config_error + string list" where
  "resolve_state_list raw field =
     and_then (ok_or (MissingRequiredField field) raw) (\<lambda>states.
       if states = [] then Err (InvalidField field ''must contain at least one state'')
       else collect_results
              (\<lambda>state. ok_or (InvalidField field ''state names must not be empty'') (normalize_optional state))
              states)"

definition resolve_tracker_kind :: "string option \<Rightarrow> workflow_config_error + tracker_kind" where
  "resolve_tracker_kind kind =
     (case normalize_optional_literal kind of
        Some k \<Rightarrow> if eq_ignore_ascii_case k ''linear'' then Ok Linear else Err (UnsupportedTrackerKind k)
      | None \<Rightarrow> Err (MissingRequiredField ''tracker.kind''))"

definition literal_list :: "string list \<Rightarrow> string \<Rightarrow> workflow_config_error + string list" where
  "literal_list values field = collect_results (\<lambda>v. require_literal (Some v) field) values"

definition resolve_project_ids :: "tracker_front_matter \<Rightarrow> workflow_config_error + string list" where
  "resolve_project_ids tracker =
     (case tfm_project_ids tracker of
        Some [] \<Rightarrow> Err (MissingRequiredField ''tracker.project_ids'')
      | Some ids \<Rightarrow> literal_list ids ''tracker.project_ids''
      | None \<Rightarrow> Ok (case tfm_project_id tracker of None \<Rightarrow> [] | Some i \<Rightarrow> [trim i]))"

definition check_first_project_id ::
  "tracker_front_matter \<Rightarrow> string list \<Rightarrow> workflow_config_error + unit" where
  "check_first_project_id tracker project_ids =
     (case (tfm_project_id tracker, project_ids) of
        (Some project_id, first_project_id # _) \<Rightarrow>
          and_then (require_literal (Some project_id) ''tracker.project_id'') (\<lambda>i.
            require (i = first_project_id)
              (InvalidField ''tracker.project_id'' ''must match the first entry in tracker.project_ids''))
      | _ \<Rightarrow> Ok ())"

definition resolve_project_slugs ::
  "tracker_front_matter \<Rightarrow> string \<Rightarrow> workflow_config_error + string list" where
  "resolve_project_slugs tracker project_slug =
     (case tfm_project_slugs tracker of
        Some [] \<Rightarrow> Err (MissingRequiredField ''tracker.project_slugs'')
      | Some slugs \<Rightarrow> literal_list slugs ''tracker.project_slugs''
      | None \<Rightarrow> Ok [project_slug])"

definition resolve_tracker ::
  "tracker_front_matter \<Rightarrow> environment \<Rightarrow> workflow_config_error + tracker_config" where
  "resolve_tracker tracker env =
     and_then (resolve_tracker_kind (tfm_kind tracker)) (\<lambda>kind.
     and_then (resolve_string_or_default (tfm_endpoint tracker) env ''tracker.endpoint''
                 DEFAULT_LINEAR_ENDPOINT) (\<lambda>endpoint.
     and_then (require_literal (tfm_project_slug tracker) ''tracker.project_slug'') (\<lambda>project_slug.
     and_then (resolve_project_ids tracker) (\<lambda>project_ids.
     and_then (check_first_project_id tracker project_ids) (\<lambda>_.
     and_then (resolve_project_slugs tracker project_slug) (\<lambda>project_slugs.
     and_then (reject_duplicate_tracker_values ''tracker.project_ids'' project_ids False) (\<lambda>_.
     and_then (reject_duplicate_tracker_values ''tracker.project_slugs'' project_slugs True) (\<lambda>_.
     and_then (require (project_ids = [] \<or> length project_ids = length project_slugs)
                 (InvalidField ''tracker.project_slugs'' ''must have the same length as project_ids'')) (\<lambda>_.
     let fallbacks = unwrap_or (tfm_project_id_slug_fallbacks tracker)
                       (replicate (length project_ids) False)
     in
     and_then (require (length fallbacks = length project_ids)
                 (InvalidField ''tracker.project_id_slug_fallbacks'' ''must have the same length as project_ids'')) (\<lambda>_.
     and_then (resolve_tracker_api_key tracker env) (\<lambda>api_key.
     and_then (resolve_state_list (tfm_active_states tracker) ''tracker.active_states'') (\<lambda>active.
     and_then (resolve_state_list (tfm_terminal_states tracker) ''tracker.terminal_states'') (\<lambda>terminal.
     Ok \<lparr>tc_kind = kind, tc_endpoint = endpoint, tc_api_key = api_key,
         tc_project_id = Option.bind (tfm_project_id tracker) normalize_optional,
         tc_project_slug = project_slug, tc_project_ids = project_ids,
         tc_project_slugs = project_slugs, tc_project_id_slug_fallbacks = fallbacks,
         tc_active_states = active, tc_terminal_states = terminal\<rparr>)))))))))))))"

section \<open>Polling, hooks and agent\<close>

definition resolve_polling :: "polling_front_matter \<Rightarrow> workflow_config_error + polling_config" where
  "resolve_polling polling =
     and_then (resolve_positive_u64 (pfm_interval_ms polling) ''polling.interval_ms''
                 DEFAULT_POLL_INTERVAL_MS) (\<lambda>interval. Ok \<lparr>pc_interval_ms = interval\<rparr>)"

definition resolve_hooks :: "hooks_front_matter \<Rightarrow> workflow_config_error + hooks_config" where
  "resolve_hooks hooks =
     and_then (resolve_non_positive_to_default (hkfm_timeout_ms hooks) ''hooks.timeout_ms''
                 DEFAULT_HOOK_TIMEOUT_MS) (\<lambda>timeout.
     Ok \<lparr>hkc_after_create = hkfm_after_create hooks, hkc_before_run = hkfm_before_run hooks,
         hkc_after_run = hkfm_after_run hooks, hkc_before_remove = hkfm_before_remove hooks,
         hkc_timeout_ms = timeout\<rparr>)"

definition resolve_stall_timeout :: "integer_like option \<Rightarrow> workflow_config_error + u64 option" where
  "resolve_stall_timeout stall_timeout_ms =
     (case stall_timeout_ms of
        None \<Rightarrow> Ok (Some DEFAULT_STALL_TIMEOUT_MS)
      | Some v \<Rightarrow>
          and_then (parse_i64 v ''agent.stall_timeout_ms'') (\<lambda>parsed.
            if sint parsed \<le> 0 then Ok None else Ok (Some parsed)))"

definition state_limits_field :: string where
  "state_limits_field = ''agent.max_concurrent_agents_by_state''"

fun resolve_state_limits_from ::
  "(string \<Rightarrow> string) \<Rightarrow> (string, u64) omap \<Rightarrow> (string, integer_like) omap
     \<Rightarrow> workflow_config_error + (string, u64) omap" where
  "resolve_state_limits_from lower resolved [] = Ok resolved"
| "resolve_state_limits_from lower resolved ((state, value) # raw) =
     and_then (ok_or (InvalidField state_limits_field ''state names must not be empty'')
                 (normalize_optional state)) (\<lambda>state.
     and_then (parse_i64 value state_limits_field) (\<lambda>parsed.
     if sint parsed \<le> 0 then Err (InvalidField state_limits_field ''state limits must be greater than zero'')
     else resolve_state_limits_from lower (omap_insert (lower state) parsed resolved) raw))"

definition resolve_state_limits ::
  "(string \<Rightarrow> string) \<Rightarrow> (string, integer_like) omap option
     \<Rightarrow> workflow_config_error + (string, u64) omap" where
  "resolve_state_limits lower raw =
     (case raw of None \<Rightarrow> Ok [] | Some m \<Rightarrow> resolve_state_limits_from lower [] m)"

definition resolve_agent ::
  "(string \<Rightarrow> string) \<Rightarrow> agent_front_matter \<Rightarrow> workflow_config_error + agent_config" where
  "resolve_agent lower agent =
     and_then (resolve_positive_u64 (agfm_max_concurrent_agents agent)
                 ''agent.max_concurrent_agents'' DEFAULT_MAX_CONCURRENT_AGENTS) (\<lambda>agents.
     and_then (resolve_positive_u64 (agfm_max_turns agent) ''agent.max_turns''
                 DEFAULT_MAX_TURNS) (\<lambda>turns.
     and_then (resolve_positive_u64 (agfm_max_retry_backoff_ms agent)
                 ''agent.max_retry_backoff_ms'' DEFAULT_MAX_RETRY_BACKOFF_MS) (\<lambda>backoff.
     and_then (resolve_stall_timeout (agfm_stall_timeout_ms agent)) (\<lambda>stall.
     and_then (resolve_state_limits lower (agfm_max_concurrent_agents_by_state agent)) (\<lambda>limits.
     Ok \<lparr>agc_max_concurrent_agents = agents, agc_max_turns = turns,
         agc_max_retry_backoff_ms = backoff, agc_stall_timeout_ms = stall,
         agc_max_concurrent_agents_by_state = limits\<rparr>)))))"

section \<open>Routing\<close>

fun join_with :: "string \<Rightarrow> string list \<Rightarrow> string" where
  "join_with sep [] = []"
| "join_with sep [x] = x"
| "join_with sep (x # y # xs) = x @ sep @ join_with sep (y # xs)"

definition validate_harness_kind :: "string \<Rightarrow> string \<Rightarrow> workflow_config_error + unit" where
  "validate_harness_kind value field =
     require (harness_kind_parse value \<noteq> None)
       (InvalidField field (''must be one of `'' @ join_with ''`, `'' supported_names @ ''`''))"

definition is_env_name_char :: "char \<Rightarrow> bool" where
  "is_env_name_char c \<longleftrightarrow> is_ascii_upper c \<or> is_ascii_digit c \<or> c = CHR ''_''"

definition validate_env_name :: "string \<Rightarrow> string \<Rightarrow> workflow_config_error + unit" where
  "validate_env_name value field =
     require (value \<noteq> [] \<and> list_all is_env_name_char value \<and>
              (is_ascii_upper (hd value) \<or> hd value = CHR ''_''))
       (InvalidField field ''must be an environment variable name such as OPENSYMPHONY_HARNESS'')"

definition resolve_routing ::
  "routing_front_matter \<Rightarrow> environment \<Rightarrow> workflow_config_error + routing_config" where
  "resolve_routing routing env =
     and_then (resolve_string_or_default (rtfm_harness_env routing) env ''routing.harness_env''
                 DEFAULT_ROUTING_HARNESS_ENV) (\<lambda>harness_env.
     and_then (validate_env_name harness_env ''routing.harness_env'') (\<lambda>_.
     and_then (resolve_string_or_default (rtfm_model_env routing) env ''routing.model_env''
                 DEFAULT_ROUTING_MODEL_ENV) (\<lambda>model_env.
     and_then (validate_env_name model_env ''routing.model_env'') (\<lambda>_.
     and_then (resolve_string_or_default (rtfm_model_profile_env routing) env
                 ''routing.model_profile_env'' DEFAULT_ROUTING_MODEL_PROFILE_ENV) (\<lambda>model_profile_env.
     and_then (validate_env_name model_profile_env ''routing.model_profile_env'') (\<lambda>_.
     and_then (resolve_string_or_default (rtfm_harness routing) env ''routing.harness''
                 DEFAULT_ROUTING_HARNESS) (\<lambda>configured_harness.
     let harness_override = env_value env harness_env;
         harness = unwrap_or harness_override configured_harness
     in
     and_then (validate_harness_kind harness ''routing.harness'') (\<lambda>_.
     and_then (transpose_map (\<lambda>v. resolve_string v env ''routing.model'') (rtfm_model routing)) (\<lambda>m.
     let configured_model = normalize_optional_literal m;
         model_override = env_value env model_env
     in
     and_then (transpose_map (\<lambda>v. resolve_string v env ''routing.model_profile'')
                 (rtfm_model_profile routing)) (\<lambda>mp.
     let configured_model_profile = normalize_optional_literal mp;
         model_profile_override = env_value env model_profile_env
     in
     Ok \<lparr>rc_harness = harness,
         rc_harness_profile =
           (if harness_override \<noteq> None \<and> harness \<noteq> ''acp'' then None
            else rtfm_harness_profile routing),
         rc_model = or_else model_override configured_model,
         rc_model_profile = or_else model_profile_override configured_model_profile,
         rc_harness_env = harness_env, rc_model_env = model_env,
         rc_model_profile_env = model_profile_env,
         rc_harness_from_env = harness_override \<noteq> None,
         rc_model_from_env = model_override \<noteq> None,
         rc_model_profile_from_env = model_profile_override \<noteq> None,
         rc_dry_run = False\<rparr>))))))))))"

section \<open>Paths and the workspace root\<close>

text \<open>\<open>Path::join\<close> (and \<open>PathBuf::push\<close>) on component sequences.\<close>

definition path_join :: "path \<Rightarrow> path \<Rightarrow> path" where
  "path_join a b =
     (if is_absolute b then b
      else if a = [] then b
      else a @ (case b of CurDir # r \<Rightarrow> r | _ \<Rightarrow> b))"

text \<open>One component of \<open>normalize_path\<close>; \<open>pop\<close> fails on the root and on the empty path only.\<close>

fun normalize_path_step :: "path \<times> bool \<Rightarrow> path_component \<Rightarrow> path \<times> bool" where
  "normalize_path_step (normalized, saw_root) RootDir = ([RootDir], True)"
| "normalize_path_step (normalized, saw_root) CurDir = (normalized, saw_root)"
| "normalize_path_step (normalized, saw_root) ParentDir =
     (case path_parent normalized of
        Some p \<Rightarrow> (p, saw_root)
      | None \<Rightarrow> (if saw_root then (normalized, saw_root) else (normalized @ [ParentDir], saw_root)))"
| "normalize_path_step (normalized, saw_root) (Normal part) = (normalized @ [Normal part], saw_root)"

definition normalize_path :: "path \<Rightarrow> path" where
  "normalize_path p =
     (let (normalized, saw_root) = foldl normalize_path_step ([], False) p
      in if normalized = [] then (if saw_root then [RootDir] else [CurDir]) else normalized)"

fun depth_within :: "nat \<Rightarrow> path \<Rightarrow> bool" where
  "depth_within depth [] = True"
| "depth_within depth (RootDir # p) = False"
| "depth_within depth (CurDir # p) = depth_within depth p"
| "depth_within depth (ParentDir # p) = (depth \<noteq> 0 \<and> depth_within (depth - 1) p)"
| "depth_within depth (Normal part # p) = depth_within (depth + 1) p"

definition stays_within_relative_root :: "path \<Rightarrow> bool" where
  "stays_within_relative_root p = depth_within 0 p"

definition home_directory :: "environment \<Rightarrow> workflow_config_error + path" where
  "home_directory env =
     map_sum id path_from
       (ok_or (MissingEnvironmentVariable ''workspace.root'' ''HOME'')
          (Option.bind (or_else (env ''HOME'') (env ''USERPROFILE'')) normalize_optional))"

definition expand_home_directory :: "string \<Rightarrow> environment \<Rightarrow> workflow_config_error + path" where
  "expand_home_directory value env =
     (if value = ''~'' then home_directory env
      else case strip_prefix ''~/'' value of
             Some rest \<Rightarrow> and_then (home_directory env) (\<lambda>home. Ok (path_join home (path_from rest)))
           | None \<Rightarrow> Ok (path_from value))"

definition normalize_workflow_base_dir ::
  "(string + path) \<Rightarrow> path \<Rightarrow> workflow_config_error + path" where
  "normalize_workflow_base_dir cwd base_dir =
     (if is_absolute base_dir then Ok (normalize_path base_dir)
      else and_then
        (map_err (\<lambda>error. InvalidField ''workspace.root''
            (''cannot resolve a relative workflow directory without the current working directory: '' @ error))
          cwd)
        (\<lambda>dir. Ok (normalize_path (path_join dir base_dir))))"

definition resolve_workspace_root ::
  "(string + path) \<Rightarrow> string \<Rightarrow> path \<Rightarrow> environment \<Rightarrow> workflow_config_error + path" where
  "resolve_workspace_root cwd value base_dir env =
     and_then (resolve_string value env ''workspace.root'') (\<lambda>resolved.
     if trim resolved = [] then Err (InvalidField ''workspace.root'' ''must not be empty'')
     else and_then (expand_home_directory resolved env) (\<lambda>expanded.
       if is_absolute expanded then Ok (normalize_path expanded)
       else and_then (normalize_workflow_base_dir cwd base_dir) (\<lambda>base.
         Ok (normalize_path (path_join base expanded)))))"

definition resolve_workspace ::
  "(string + path) \<Rightarrow> workspace_front_matter \<Rightarrow> path \<Rightarrow> environment
     \<Rightarrow> workflow_config_error + workspace_config" where
  "resolve_workspace cwd workspace base_dir env =
     and_then (resolve_workspace_root cwd (unwrap_or (wsfm_root workspace) DEFAULT_WORKSPACE_ROOT)
                 base_dir env) (\<lambda>root. Ok \<lparr>wsc_root = root\<rparr>)"

definition resolve_relative_path ::
  "string option \<Rightarrow> environment \<Rightarrow> string \<Rightarrow> string \<Rightarrow> workflow_config_error + path" where
  "resolve_relative_path configured env field dflt =
     and_then (resolve_string (unwrap_or configured dflt) env field) (\<lambda>resolved.
     let p = path_from resolved in
     if trim resolved = [] then Err (InvalidField field ''must not be empty'')
     else if is_absolute p \<or> strip_prefix ''~'' resolved \<noteq> None then
       Err (InvalidField field ''must stay relative to the issue workspace'')
     else if \<not> stays_within_relative_root p then
       Err (InvalidField field ''must not escape the issue workspace'')
     else Ok (normalize_path p))"

end
