(* ===== verification/Workflow_Openhands.thy ===== *)
theory Workflow_Openhands
  imports Workflow_Resolve
begin

text \<open>
  \<open>opensymphony-workflow/src/resolve.rs\<close>, the \<open>openhands\<close> section and \<open>resolve_workflow\<close>,
  which puts the sections together. The \<open>url\<close> crate is the parameter \<open>url_parse\<close>; the cargo
  feature \<open>openhands-subscription-credentials\<close> is the parameter \<open>subscriptions\<close>.
\<close>

section \<open>Constants\<close>

definition DEFAULT_OPENHANDS_BASE_URL :: string where
  "DEFAULT_OPENHANDS_BASE_URL = ''http://127.0.0.1:8000''"
definition DEFAULT_OPENHANDS_STARTUP_TIMEOUT_MS :: u64 where
  "DEFAULT_OPENHANDS_STARTUP_TIMEOUT_MS = 180000"
definition DEFAULT_OPENHANDS_READINESS_PROBE_PATH :: string where
  "DEFAULT_OPENHANDS_READINESS_PROBE_PATH = ''/openapi.json''"
definition DEFAULT_OPENHANDS_PERSISTENCE_DIR :: string where
  "DEFAULT_OPENHANDS_PERSISTENCE_DIR = ''.opensymphony/openhands''"
definition DEFAULT_OPENHANDS_MAX_ITERATIONS :: u64 where "DEFAULT_OPENHANDS_MAX_ITERATIONS = 500"
definition DEFAULT_OPENHANDS_CONFIRMATION_POLICY_KIND :: string where
  "DEFAULT_OPENHANDS_CONFIRMATION_POLICY_KIND = ''NeverConfirm''"
definition DEFAULT_OPENHANDS_AGENT_KIND :: string where "DEFAULT_OPENHANDS_AGENT_KIND = ''Agent''"
definition DEFAULT_OPENHANDS_AGENT_TOOLS :: "string list" where
  "DEFAULT_OPENHANDS_AGENT_TOOLS = [''terminal'', ''file_editor'']"
definition DEFAULT_OPENHANDS_READY_TIMEOUT_MS :: u64 where
  "DEFAULT_OPENHANDS_READY_TIMEOUT_MS = 30000"
definition DEFAULT_OPENHANDS_RECONNECT_INITIAL_MS :: u64 where
  "DEFAULT_OPENHANDS_RECONNECT_INITIAL_MS = 1000"
definition DEFAULT_OPENHANDS_RECONNECT_MAX_MS :: u64 where
  "DEFAULT_OPENHANDS_RECONNECT_MAX_MS = 30000"
definition DEFAULT_OPENHANDS_AUTH_MODE :: string where "DEFAULT_OPENHANDS_AUTH_MODE = ''auto''"
definition DEFAULT_OPENHANDS_QUERY_PARAM_NAME :: string where
  "DEFAULT_OPENHANDS_QUERY_PARAM_NAME = ''session_api_key''"
definition DEFAULT_OPENHANDS_LLM_MODEL :: string where
  "DEFAULT_OPENHANDS_LLM_MODEL = ''openai/gpt-5.4''"
definition CREDENTIAL_MODE_API_KEY :: string where "CREDENTIAL_MODE_API_KEY = ''api_key''"
definition CREDENTIAL_MODE_OPENAI_SUBSCRIPTION :: string where
  "CREDENTIAL_MODE_OPENAI_SUBSCRIPTION = ''openai_subscription''"
definition DEFAULT_OPENHANDS_CONDENSER_MAX_SIZE :: u64 where
  "DEFAULT_OPENHANDS_CONDENSER_MAX_SIZE = 240"
definition DEFAULT_OPENHANDS_CONDENSER_KEEP_FIRST :: u64 where
  "DEFAULT_OPENHANDS_CONDENSER_KEEP_FIRST = 2"

section \<open>Parsed URLs\<close>

datatype url_host = HDomain string | HIpv4 u32 | HIpv6 "128 word"

record url =
  url_scheme :: string
  url_host_of :: "url_host option"
  url_username :: string
  url_password :: "string option"
  url_query :: "string option"
  url_fragment :: "string option"

text \<open>\<open>is_loopback\<close> of the standard library: 127.0.0.0/8 and \<open>::1\<close>.\<close>

fun loopback_host :: "url_host option \<Rightarrow> bool" where
  "loopback_host (Some (HIpv4 a)) = (drop_bit 24 a = 127)"
| "loopback_host (Some (HIpv6 a)) = (a = 1)"
| "loopback_host (Some (HDomain d)) = eq_ignore_ascii_case d ''localhost''"
| "loopback_host None = False"

definition base_url_field :: string where "base_url_field = ''openhands.transport.base_url''"

definition parse_base_url ::
  "(string \<Rightarrow> string + url) \<Rightarrow> string \<Rightarrow> workflow_config_error + url" where
  "parse_base_url url_parse base_url =
     map_err (\<lambda>error. InvalidField base_url_field (''must be an absolute http or https URL: '' @ error))
       (url_parse base_url)"

definition validate_openhands_base_url ::
  "(string \<Rightarrow> string + url) \<Rightarrow> string \<Rightarrow> workflow_config_error + unit" where
  "validate_openhands_base_url url_parse base_url =
     and_then (parse_base_url url_parse base_url) (\<lambda>parsed.
     if url_scheme parsed \<noteq> ''http'' \<and> url_scheme parsed \<noteq> ''https'' then
       Err (InvalidField base_url_field ''must use the http or https scheme'')
     else case url_host_of parsed of
       Some (HIpv6 _) \<Rightarrow> Err (InvalidField base_url_field
         ''must not use bracketed IPv6 hosts until supervisor readiness probes support them'')
     | None \<Rightarrow> Err (InvalidField base_url_field ''must include a host'')
     | Some _ \<Rightarrow>
         if url_username parsed \<noteq> [] \<or> url_password parsed \<noteq> None then
           Err (InvalidField base_url_field ''must not embed credentials'')
         else if url_query parsed \<noteq> None \<or> url_fragment parsed \<noteq> None then
           Err (InvalidField base_url_field ''must not include query or fragment suffixes'')
         else Ok ())"

definition resolve_openhands_base_url ::
  "(string \<Rightarrow> string + url) \<Rightarrow> string option \<Rightarrow> environment \<Rightarrow> workflow_config_error + string" where
  "resolve_openhands_base_url url_parse configured env =
     and_then (resolve_string_or_default configured env base_url_field DEFAULT_OPENHANDS_BASE_URL)
       (\<lambda>base_url. and_then (validate_openhands_base_url url_parse base_url) (\<lambda>_. Ok base_url))"

definition validate_openhands_websocket_auth_mode :: "string \<Rightarrow> workflow_config_error + unit" where
  "validate_openhands_websocket_auth_mode auth_mode =
     require (to_ascii_lowercase (trim auth_mode) \<in> {''auto'', ''header'', ''query_param''})
       (InvalidField ''openhands.websocket.auth_mode'' ''must be one of `auto`, `header`, or `query_param`'')"

definition validate_remote_transport ::
  "(string \<Rightarrow> string + url) \<Rightarrow> string \<Rightarrow> string option \<Rightarrow> openhands_websocket_config
     \<Rightarrow> workflow_config_error + unit" where
  "validate_remote_transport url_parse base_url session_api_key_env websocket =
     and_then (parse_base_url url_parse base_url) (\<lambda>parsed.
     let loopback_target = loopback_host (url_host_of parsed) in
     if \<not> loopback_target \<and> url_scheme parsed \<noteq> ''https'' then
       Err (InvalidField base_url_field ''must use https for non-loopback remote agent-server targets'')
     else if \<not> loopback_target \<and> session_api_key_env = None then
       Err (InvalidField ''openhands.transport.session_api_key_env''
         ''is required for non-loopback remote agent-server targets'')
     else if session_api_key_env = None \<and> ohw_auth_mode websocket \<noteq> DEFAULT_OPENHANDS_AUTH_MODE then
       Err (InvalidField ''openhands.websocket.auth_mode''
         ''requires `openhands.transport.session_api_key_env`'')
     else Ok ())"

section \<open>Rejected settings\<close>

definition reject_removed_legacy_linear_bridge_config ::
  "yaml option \<Rightarrow> workflow_config_error + unit" where
  "reject_removed_legacy_linear_bridge_config legacy =
     require (legacy = None)
       (RemovedField ''openhands.mcp'' ''Legacy Linear bridge configuration at `openhands.mcp` was removed in OpenSymphony 1.0.0. Use GraphQL-only Linear access through `LINEAR_API_KEY` and the repo-local `linear` skill assets instead.'')"

definition reject_unsupported_local_server_overrides ::
  "openhands_local_server_front_matter \<Rightarrow> workflow_config_error + unit" where
  "reject_unsupported_local_server_overrides s =
     (if olfm_enabled s = Some False then
        Err (InvalidField ''openhands.local_server.enabled'' ''is not supported until the runtime supervisor can honor workflow-owned local-server disablement'')
      else if olfm_startup_timeout_ms s \<noteq> None then
        Err (InvalidField ''openhands.local_server.startup_timeout_ms'' ''is not supported until the runtime supervisor creation path consumes workflow-owned startup timeouts'')
      else if olfm_readiness_probe_path s \<noteq> None then
        Err (InvalidField ''openhands.local_server.readiness_probe_path'' ''is not supported until the runtime supervisor launch path consumes workflow-owned readiness probe settings'')
      else if olfm_env s \<noteq> [] then
        Err (InvalidField ''openhands.local_server.env'' ''is not supported until the runtime supervisor creation path forwards workflow-owned launcher environment overrides'')
      else Ok ())"

definition reject_unsupported_websocket_overrides ::
  "openhands_websocket_front_matter \<Rightarrow> workflow_config_error + unit" where
  "reject_unsupported_websocket_overrides w =
     require (owfm_enabled w = None)
       (InvalidField ''openhands.websocket.enabled'' ''is not supported until the runtime readiness path can honor workflow-owned websocket enablement'')"

definition reject_unsupported_llm_options ::
  "openhands_llm_front_matter \<Rightarrow> workflow_config_error + unit" where
  "reject_unsupported_llm_options llm =
     require (omfm_options llm = [])
       (InvalidField ''openhands.conversation.agent.llm''
         (''unsupported options cannot be forwarded to the current OpenHands llm request subset: '' @
          join_with '', '' (omap_keys (omfm_options llm))))"

definition reject_unsupported_agent_options ::
  "openhands_conversation_agent_front_matter \<Rightarrow> workflow_config_error + unit" where
  "reject_unsupported_agent_options agent =
     (if oafm_log_completions agent \<noteq> None then
        Err (InvalidField ''openhands.conversation.agent.log_completions'' ''is not supported until the runtime conversation-create adapter can forward agent logging options'')
      else if oafm_options agent \<noteq> [] then
        Err (InvalidField ''openhands.conversation.agent''
          (''unsupported options cannot be forwarded to the current OpenHands agent request subset: '' @
           join_with '', '' (omap_keys (oafm_options agent))))
      else Ok ())"

section \<open>Conversation\<close>

definition default_openhands_agent_tools :: "openhands_conversation_tool_config list" where
  "default_openhands_agent_tools =
     map (\<lambda>name. \<lparr>ohk_name = name, ohk_params = []\<rparr>) DEFAULT_OPENHANDS_AGENT_TOOLS"

definition default_openhands_llm_config :: openhands_llm_config where
  "default_openhands_llm_config =
     \<lparr>ohm_model = Some DEFAULT_OPENHANDS_LLM_MODEL, ohm_api_key_env = None,
      ohm_base_url_env = None, ohm_credential_mode = CREDENTIAL_MODE_API_KEY,
      ohm_subscription = None, ohm_options = []\<rparr>"

definition default_condenser :: openhands_conversation_condenser_config where
  "default_condenser = \<lparr>ohd_max_size = DEFAULT_OPENHANDS_CONDENSER_MAX_SIZE,
     ohd_keep_first = DEFAULT_OPENHANDS_CONDENSER_KEEP_FIRST\<rparr>"

definition default_openhands_agent :: openhands_conversation_agent_config where
  "default_openhands_agent =
     \<lparr>oha_kind = DEFAULT_OPENHANDS_AGENT_KIND, oha_llm = Some default_openhands_llm_config,
      oha_condenser = Some default_condenser, oha_tools = Some default_openhands_agent_tools,
      oha_include_default_tools = None, oha_log_completions = False, oha_options = []\<rparr>"

definition resolve_openhands_condenser ::
  "openhands_conversation_condenser_front_matter option
     \<Rightarrow> workflow_config_error + openhands_conversation_condenser_config option" where
  "resolve_openhands_condenser condenser =
     (case condenser of
        None \<Rightarrow> Ok (Some default_condenser)
      | Some c \<Rightarrow>
          if odfm_enabled c = Some False then Ok None
          else and_then (resolve_positive_u64 (odfm_max_size c)
                   ''openhands.conversation.agent.condenser.max_size''
                   DEFAULT_OPENHANDS_CONDENSER_MAX_SIZE) (\<lambda>max_size.
               and_then (resolve_positive_u64 (odfm_keep_first c)
                   ''openhands.conversation.agent.condenser.keep_first''
                   DEFAULT_OPENHANDS_CONDENSER_KEEP_FIRST) (\<lambda>keep_first.
               Ok (Some \<lparr>ohd_max_size = max_size, ohd_keep_first = keep_first\<rparr>))))"

definition resolve_openhands_reuse_policy ::
  "string option \<Rightarrow> environment \<Rightarrow> workflow_config_error + string" where
  "resolve_openhands_reuse_policy configured env =
     and_then (resolve_string_or_default configured env ''openhands.conversation.reuse_policy''
                 ''per_issue'') (\<lambda>reuse_policy.
     and_then (ok_or (InvalidField ''openhands.conversation.reuse_policy'' ''must not be empty'')
                 (normalize_optional reuse_policy)) (\<lambda>normalized.
     Ok (to_ascii_lowercase normalized)))"

definition resolve_confirmation_policy ::
  "openhands_confirmation_policy_front_matter
     \<Rightarrow> workflow_config_error + openhands_confirmation_policy" where
  "resolve_confirmation_policy policy =
     (if opfm_options policy \<noteq> [] then
        Err (InvalidField ''openhands.conversation.confirmation_policy''
          (''unsupported options cannot be forwarded to the current OpenHands request subset: '' @
           join_with '', '' (omap_keys (opfm_options policy))))
      else
        and_then
          (case opfm_kind policy of
             Some kind \<Rightarrow> ok_or (InvalidField ''openhands.conversation.confirmation_policy.kind''
                            ''must not be empty'') (normalize_optional kind)
           | None \<Rightarrow> Ok DEFAULT_OPENHANDS_CONFIRMATION_POLICY_KIND)
          (\<lambda>kind. Ok \<lparr>ohp_kind = kind\<rparr>))"

definition empty_entry :: "nat \<Rightarrow> string" where
  "empty_entry index = ''entry '' @ show_nat index @ '' must not be empty''"

definition resolve_openhands_agent_tools ::
  "openhands_conversation_tool_front_matter list \<Rightarrow> environment
     \<Rightarrow> workflow_config_error + openhands_conversation_tool_config list" where
  "resolve_openhands_agent_tools tools env =
     collect_results (\<lambda>(index, tool).
       and_then (resolve_string (okfm_name tool) env ''openhands.conversation.agent.tools[].name'') (\<lambda>name.
       and_then (ok_or (InvalidField ''openhands.conversation.agent.tools[].name'' (empty_entry index))
                   (normalize_optional name)) (\<lambda>name.
       Ok \<lparr>ohk_name = name, ohk_params = okfm_params tool\<rparr>)))
       (enumerate 0 tools)"

definition resolve_openhands_default_tools ::
  "string list \<Rightarrow> environment \<Rightarrow> workflow_config_error + string list" where
  "resolve_openhands_default_tools tools env =
     collect_results (\<lambda>(index, tool).
       and_then (resolve_string tool env ''openhands.conversation.agent.include_default_tools[]'') (\<lambda>resolved.
       ok_or (InvalidField ''openhands.conversation.agent.include_default_tools[]'' (empty_entry index))
         (normalize_optional resolved)))
       (enumerate 0 tools)"

definition credential_mode_field :: string where
  "credential_mode_field = ''openhands.conversation.agent.llm.credential_mode''"

definition normalize_credential_mode :: "bool \<Rightarrow> string \<Rightarrow> workflow_config_error + string" where
  "normalize_credential_mode subscriptions value =
     and_then (ok_or (InvalidField credential_mode_field ''must not be empty'')
                 (normalize_optional value)) (\<lambda>v.
     let normalized = to_ascii_lowercase v in
     if normalized = CREDENTIAL_MODE_API_KEY then Ok CREDENTIAL_MODE_API_KEY
     else if normalized \<in> {''subscription'', ''openai'', CREDENTIAL_MODE_OPENAI_SUBSCRIPTION} then
       (if subscriptions then Ok CREDENTIAL_MODE_OPENAI_SUBSCRIPTION
        else Err (InvalidField credential_mode_field
               ''`openai_subscription` requires the `openhands-subscription-credentials` feature''))
     else Err (InvalidField credential_mode_field
            (''unsupported credential mode `'' @ normalized @
             ''`; supported values are `api_key` and `openai_subscription`'')))"

definition validate_environment_name :: "string \<Rightarrow> string \<Rightarrow> workflow_config_error + unit" where
  "validate_environment_name value field =
     require (is_env_name value) (InvalidField field ''must be an environment variable name'')"

definition validate_optional_environment_name ::
  "string option \<Rightarrow> string \<Rightarrow> workflow_config_error + unit" where
  "validate_optional_environment_name value field =
     (case value of None \<Rightarrow> Ok () | Some name \<Rightarrow> validate_environment_name name field)"

definition subscription_field :: "string \<Rightarrow> string" where
  "subscription_field name = ''openhands.conversation.agent.llm.subscription.'' @ name"

definition nonempty_lowercase :: "string \<Rightarrow> string \<Rightarrow> workflow_config_error + string" where
  "nonempty_lowercase value field =
     and_then (ok_or (InvalidField field ''must not be empty'') (normalize_optional value))
       (\<lambda>v. Ok (to_ascii_lowercase v))"

definition resolve_subscription_credential ::
  "bool \<Rightarrow> openhands_subscription_credential_front_matter option \<Rightarrow> environment
     \<Rightarrow> workflow_config_error + openhands_subscription_credential_config" where
  "resolve_subscription_credential subscriptions subscription env =
     (if \<not> subscriptions then Err (InvalidField credential_mode_field
        ''`openai_subscription` requires the `openhands-subscription-credentials` feature'')
      else
     and_then (ok_or (MissingRequiredField ''openhands.conversation.agent.llm.subscription'')
                 subscription) (\<lambda>s.
     and_then (resolve_string_or_default (osfm_vendor s) env (subscription_field ''vendor'')
                 ''openai'') (\<lambda>vendor.
     and_then (nonempty_lowercase vendor (subscription_field ''vendor'')) (\<lambda>vendor.
     and_then (require (vendor = ''openai'') (InvalidField (subscription_field ''vendor'')
                 ''only `openai` subscription credentials are supported'')) (\<lambda>_.
     and_then (ok_or (MissingRequiredField (subscription_field ''access_token_env''))
                 (normalize_optional_literal (osfm_access_token_env s))) (\<lambda>access_token_env.
     and_then (validate_environment_name access_token_env (subscription_field ''access_token_env'')) (\<lambda>_.
     let account_id_env = normalize_optional_literal (osfm_account_id_env s) in
     and_then (validate_optional_environment_name account_id_env (subscription_field ''account_id_env'')) (\<lambda>_.
     let auth_directory_env = normalize_optional_literal (osfm_auth_directory_env s) in
     and_then (validate_optional_environment_name auth_directory_env
                 (subscription_field ''auth_directory_env'')) (\<lambda>_.
     and_then (resolve_string_or_default (osfm_auth_method s) env (subscription_field ''auth_method'')
                 ''browser'') (\<lambda>auth_method.
     and_then (nonempty_lowercase auth_method (subscription_field ''auth_method'')) (\<lambda>auth_method.
     and_then (require (auth_method \<in> {''browser'', ''device_code'', ''cached''})
                 (InvalidField (subscription_field ''auth_method'')
                    ''must be `browser`, `device_code`, or `cached`'')) (\<lambda>_.
     Ok \<lparr>ohs_vendor = vendor, ohs_access_token_env = access_token_env,
         ohs_account_id_env = account_id_env, ohs_auth_directory_env = auth_directory_env,
         ohs_auth_method = auth_method, ohs_open_browser = unwrap_or (osfm_open_browser s) True,
         ohs_force_login = unwrap_or (osfm_force_login s) False\<rparr>))))))))))))"

text \<open>The match on the credential mode has two arms; the third is \<open>unreachable!\<close>, as the mode
  has been normalised to one of the two.\<close>

definition resolve_openhands_llm ::
  "bool \<Rightarrow> openhands_llm_front_matter \<Rightarrow> environment \<Rightarrow> workflow_config_error + openhands_llm_config" where
  "resolve_openhands_llm subscriptions llm env =
     and_then (reject_unsupported_llm_options llm) (\<lambda>_.
     and_then (ok_or (MissingRequiredField ''openhands.conversation.agent.llm.model'')
                 (omfm_model llm)) (\<lambda>model.
     and_then (resolve_string model env ''openhands.conversation.agent.llm.model'') (\<lambda>model.
     and_then (require (trim model \<noteq> [])
                 (InvalidField ''openhands.conversation.agent.llm.model'' ''must not be empty'')) (\<lambda>_.
     and_then (resolve_string_or_default (omfm_credential_mode llm) env credential_mode_field
                 CREDENTIAL_MODE_API_KEY) (\<lambda>mode.
     and_then (normalize_credential_mode subscriptions mode) (\<lambda>credential_mode.
     and_then
       (if credential_mode = CREDENTIAL_MODE_API_KEY then
          (if omfm_subscription llm \<noteq> None then
             Err (InvalidField ''openhands.conversation.agent.llm.subscription''
               ''is only valid when credential_mode is `openai_subscription`'')
           else Ok None)
        else map_sum id Some
               (resolve_subscription_credential subscriptions (omfm_subscription llm) env)) (\<lambda>subscription.
     if subscription \<noteq> None \<and> (omfm_api_key_env llm \<noteq> None \<or> omfm_base_url_env llm \<noteq> None) then
       Err (InvalidField ''openhands.conversation.agent.llm'' ''`api_key_env` and `base_url_env` are API-key settings; use `subscription.access_token_env` for subscription credentials'')
     else
       Ok \<lparr>ohm_model = Some model,
           ohm_api_key_env = normalize_optional_literal (omfm_api_key_env llm),
           ohm_base_url_env = normalize_optional_literal (omfm_base_url_env llm),
           ohm_credential_mode = credential_mode, ohm_subscription = subscription,
           ohm_options = omfm_options llm\<rparr>)))))))"

definition resolve_openhands_agent ::
  "bool \<Rightarrow> openhands_conversation_agent_front_matter \<Rightarrow> environment
     \<Rightarrow> workflow_config_error + openhands_conversation_agent_config" where
  "resolve_openhands_agent subscriptions agent env =
     and_then (reject_unsupported_agent_options agent) (\<lambda>_.
     and_then
       (case oafm_kind agent of
          Some kind \<Rightarrow> ok_or (InvalidField ''openhands.conversation.agent.kind'' ''must not be empty'')
                         (normalize_optional kind)
        | None \<Rightarrow> Ok DEFAULT_OPENHANDS_AGENT_KIND) (\<lambda>kind.
     and_then
       (case oafm_llm agent of
          Some llm \<Rightarrow> resolve_openhands_llm subscriptions llm env
        | None \<Rightarrow> Ok default_openhands_llm_config) (\<lambda>llm.
     and_then (resolve_openhands_condenser (oafm_condenser agent)) (\<lambda>condenser.
     and_then
       (case oafm_tools agent of
          Some tools \<Rightarrow> resolve_openhands_agent_tools tools env
        | None \<Rightarrow> Ok default_openhands_agent_tools) (\<lambda>tools.
     and_then (transpose_map (\<lambda>tools. resolve_openhands_default_tools tools env)
                 (oafm_include_default_tools agent)) (\<lambda>include_default_tools.
     Ok \<lparr>oha_kind = kind, oha_llm = Some llm, oha_condenser = condenser, oha_tools = Some tools,
         oha_include_default_tools = include_default_tools, oha_log_completions = False,
         oha_options = []\<rparr>))))))"

definition resolve_openhands_max_iterations ::
  "integer_like option \<Rightarrow> workflow_config_error + u64" where
  "resolve_openhands_max_iterations value =
     and_then (resolve_positive_u64 value ''openhands.conversation.max_iterations''
                 DEFAULT_OPENHANDS_MAX_ITERATIONS) (\<lambda>max_iterations.
     if 2 ^ 32 - 1 < unat max_iterations then
       Err (InvalidField ''openhands.conversation.max_iterations''
         (''must be less than or equal to '' @ show_nat (2 ^ 32 - 1)))
     else Ok max_iterations)"

definition resolve_openhands_conversation ::
  "bool \<Rightarrow> openhands_conversation_front_matter \<Rightarrow> environment
     \<Rightarrow> workflow_config_error + openhands_conversation_config" where
  "resolve_openhands_conversation subscriptions conversation env =
     and_then (resolve_openhands_reuse_policy (ocfm_reuse_policy conversation) env) (\<lambda>reuse_policy.
     and_then
       (case ocfm_confirmation_policy conversation of
          Some policy \<Rightarrow> resolve_confirmation_policy policy
        | None \<Rightarrow> Ok \<lparr>ohp_kind = DEFAULT_OPENHANDS_CONFIRMATION_POLICY_KIND\<rparr>) (\<lambda>confirmation_policy.
     and_then
       (case ocfm_agent conversation of
          Some agent \<Rightarrow> resolve_openhands_agent subscriptions agent env
        | None \<Rightarrow> Ok default_openhands_agent) (\<lambda>agent.
     if trim (oha_kind agent) = [] then
       Err (InvalidField ''openhands.conversation.agent.kind'' ''must not be empty'')
     else
     and_then (resolve_relative_path (ocfm_persistence_dir_relative conversation) env
                 ''openhands.conversation.persistence_dir_relative''
                 DEFAULT_OPENHANDS_PERSISTENCE_DIR) (\<lambda>persistence_dir.
     and_then (resolve_openhands_max_iterations (ocfm_max_iterations conversation)) (\<lambda>max_iterations.
     Ok \<lparr>ohv_reuse_policy = reuse_policy, ohv_persistence_dir_relative = persistence_dir,
         ohv_max_iterations = max_iterations,
         ohv_stuck_detection = unwrap_or (ocfm_stuck_detection conversation) True,
         ohv_confirmation_policy = confirmation_policy, ohv_agent = agent\<rparr>)))))"

section \<open>The section\<close>

definition resolve_command ::
  "string list option \<Rightarrow> string \<Rightarrow> string list \<Rightarrow> workflow_config_error + string list" where
  "resolve_command configured field dflt =
     (let command = unwrap_or configured dflt in
      if command = [] then Err (InvalidField field ''must contain at least one argument'')
      else if list_ex (\<lambda>part. trim part = []) command then
        Err (InvalidField field ''must not contain empty arguments'')
      else Ok command)"

definition resolve_string_map ::
  "(string, string) omap \<Rightarrow> environment \<Rightarrow> string \<Rightarrow> workflow_config_error + (string, string) omap" where
  "resolve_string_map raw env field =
     collect_results (\<lambda>(key, value).
       and_then (resolve_string value env field) (\<lambda>v. Ok (key, v))) raw"

definition resolve_openhands ::
  "(string \<Rightarrow> string + url) \<Rightarrow> bool \<Rightarrow> openhands_front_matter \<Rightarrow> environment
     \<Rightarrow> workflow_config_error + openhands_config" where
  "resolve_openhands url_parse subscriptions openhands env =
     (let server = ohfm_local_server openhands; ws = ohfm_websocket openhands;
          transport = ohfm_transport openhands
      in
     and_then (reject_removed_legacy_linear_bridge_config (ohfm_legacy_linear_bridge openhands)) (\<lambda>_.
     and_then (reject_unsupported_local_server_overrides server) (\<lambda>_.
     and_then (reject_unsupported_websocket_overrides ws) (\<lambda>_.
     and_then (resolve_openhands_base_url url_parse (otfm_base_url transport) env) (\<lambda>base_url.
     let session_api_key_env = normalize_optional_literal (otfm_session_api_key_env transport) in
     and_then (resolve_string_or_default (owfm_auth_mode ws) env ''openhands.websocket.auth_mode''
                 DEFAULT_OPENHANDS_AUTH_MODE) (\<lambda>auth_mode.
     and_then (validate_openhands_websocket_auth_mode auth_mode) (\<lambda>_.
     and_then (resolve_string_or_default (owfm_query_param_name ws) env
                 ''openhands.websocket.query_param_name'' DEFAULT_OPENHANDS_QUERY_PARAM_NAME) (\<lambda>query_param_name.
     and_then (resolve_positive_u64 (owfm_ready_timeout_ms ws)
                 ''openhands.websocket.ready_timeout_ms'' DEFAULT_OPENHANDS_READY_TIMEOUT_MS) (\<lambda>ready.
     and_then (resolve_positive_u64 (owfm_reconnect_initial_ms ws)
                 ''openhands.websocket.reconnect_initial_ms''
                 DEFAULT_OPENHANDS_RECONNECT_INITIAL_MS) (\<lambda>initial.
     and_then (resolve_positive_u64 (owfm_reconnect_max_ms ws)
                 ''openhands.websocket.reconnect_max_ms'' DEFAULT_OPENHANDS_RECONNECT_MAX_MS) (\<lambda>maximum.
     let websocket = \<lparr>ohw_enabled = unwrap_or (owfm_enabled ws) True, ohw_ready_timeout_ms = ready,
           ohw_reconnect_initial_ms = initial, ohw_reconnect_max_ms = maximum,
           ohw_auth_mode = auth_mode, ohw_query_param_name = query_param_name\<rparr>
     in
     and_then (validate_remote_transport url_parse base_url session_api_key_env websocket) (\<lambda>_.
     and_then (transpose_map (\<lambda>configured.
                 resolve_command (Some configured) ''openhands.local_server.command'' [])
                 (olfm_command server)) (\<lambda>command.
     and_then (resolve_positive_u64 (olfm_startup_timeout_ms server)
                 ''openhands.local_server.startup_timeout_ms''
                 DEFAULT_OPENHANDS_STARTUP_TIMEOUT_MS) (\<lambda>startup.
     and_then (resolve_string_or_default (olfm_readiness_probe_path server) env
                 ''openhands.local_server.readiness_probe_path''
                 DEFAULT_OPENHANDS_READINESS_PROBE_PATH) (\<lambda>probe_path.
     and_then (resolve_string_map (olfm_env server) env ''openhands.local_server.env'') (\<lambda>server_env.
     and_then (resolve_openhands_conversation subscriptions (ohfm_conversation openhands) env) (\<lambda>conversation.
     Ok \<lparr>ohc_transport = \<lparr>oht_base_url = base_url, oht_session_api_key_env = session_api_key_env\<rparr>,
         ohc_local_server = \<lparr>ohl_enabled = unwrap_or (olfm_enabled server) True,
           ohl_command = command, ohl_startup_timeout_ms = startup,
           ohl_readiness_probe_path = probe_path, ohl_env = server_env\<rparr>,
         ohc_conversation = conversation, ohc_websocket = websocket\<rparr>)))))))))))))))))"

definition default_inactive_openhands_config :: openhands_config where
  "default_inactive_openhands_config =
     \<lparr>ohc_transport = \<lparr>oht_base_url = DEFAULT_OPENHANDS_BASE_URL, oht_session_api_key_env = None\<rparr>,
      ohc_local_server = \<lparr>ohl_enabled = False, ohl_command = None,
        ohl_startup_timeout_ms = DEFAULT_OPENHANDS_STARTUP_TIMEOUT_MS,
        ohl_readiness_probe_path = DEFAULT_OPENHANDS_READINESS_PROBE_PATH, ohl_env = []\<rparr>,
      ohc_conversation = \<lparr>ohv_reuse_policy = ''per_issue'',
        ohv_persistence_dir_relative = path_from DEFAULT_OPENHANDS_PERSISTENCE_DIR,
        ohv_max_iterations = DEFAULT_OPENHANDS_MAX_ITERATIONS, ohv_stuck_detection = True,
        ohv_confirmation_policy = \<lparr>ohp_kind = DEFAULT_OPENHANDS_CONFIRMATION_POLICY_KIND\<rparr>,
        ohv_agent = default_openhands_agent\<rparr>,
      ohc_websocket = \<lparr>ohw_enabled = True, ohw_ready_timeout_ms = DEFAULT_OPENHANDS_READY_TIMEOUT_MS,
        ohw_reconnect_initial_ms = DEFAULT_OPENHANDS_RECONNECT_INITIAL_MS,
        ohw_reconnect_max_ms = DEFAULT_OPENHANDS_RECONNECT_MAX_MS,
        ohw_auth_mode = DEFAULT_OPENHANDS_AUTH_MODE,
        ohw_query_param_name = DEFAULT_OPENHANDS_QUERY_PARAM_NAME\<rparr>\<rparr>"

section \<open>The workflow\<close>

definition apply_selected_model_to_openhands :: "routing_config \<Rightarrow> openhands_config \<Rightarrow> openhands_config" where
  "apply_selected_model_to_openhands routing openhands =
     (if rc_harness routing \<noteq> DEFAULT_ROUTING_HARNESS then openhands
      else case rc_model routing of
        None \<Rightarrow> openhands
      | Some model \<Rightarrow>
          let conversation = ohc_conversation openhands; agent = ohv_agent conversation in
          openhands\<lparr>ohc_conversation := conversation\<lparr>ohv_agent :=
            agent\<lparr>oha_llm := map_option (\<lambda>llm. llm\<lparr>ohm_model := Some model\<rparr>) (oha_llm agent)\<rparr>\<rparr>\<rparr>)"

text \<open>What resolution takes from its surroundings: the environment, the working directory,
  the Unicode lower-casing, the URL parser and the compiled features.\<close>

record resolve_host =
  rh_env :: environment
  rh_current_dir :: "string + path"
  rh_lowercase :: "string \<Rightarrow> string"
  rh_url_parse :: "string \<Rightarrow> string + url"
  rh_subscriptions :: bool

definition resolve_workflow ::
  "resolve_host \<Rightarrow> workflow_definition \<Rightarrow> path \<Rightarrow> workflow_config_error + resolved_workflow" where
  "resolve_workflow host workflow base_dir =
     (let fm = wd_front_matter workflow; env = rh_env host in
     and_then (resolve_routing (wfm_routing fm) env) (\<lambda>routing.
     and_then (validate_route (wfm_acp fm) routing) (\<lambda>_.
     and_then (resolve_tracker (wfm_tracker fm) env) (\<lambda>tracker.
     and_then (resolve_polling (wfm_polling fm)) (\<lambda>polling.
     and_then (resolve_workspace (rh_current_dir host) (wfm_workspace fm) base_dir env) (\<lambda>workspace.
     and_then (resolve_hooks (wfm_hooks fm)) (\<lambda>hooks.
     and_then (resolve_agent (rh_lowercase host) (wfm_agent fm)) (\<lambda>agent.
     and_then
       (if rc_harness routing = DEFAULT_ROUTING_HARNESS
        then resolve_openhands (rh_url_parse host) (rh_subscriptions host) (wfm_openhands fm) env
        else Ok default_inactive_openhands_config) (\<lambda>openhands.
     Ok \<lparr>rw_config = \<lparr>wc_tracker = tracker, wc_polling = polling, wc_workspace = workspace,
           wc_hooks = hooks, wc_agent = agent, wc_routing = routing\<rparr>,
         rw_extensions = \<lparr>we_acp = wfm_acp fm,
           we_openhands = apply_selected_model_to_openhands routing openhands\<rparr>,
         rw_prompt_template = wd_prompt_template workflow\<rparr>)))))))))"

end
