(* ===== verification/Scheduler_Config.thy ===== *)
theory Scheduler_Config
  imports Workflow_Openhands Durable Parent_Records State_Machine
begin

text \<open>
  The configuration of the scheduler and the choice of a harness, from
  \<open>opensymphony-orchestrator/src/scheduler.rs\<close>: \<open>SchedulerConfig::from_workflow\<close>, the names and
  limits of tracker states, the refresh cadences, \<open>decide_issue_route\<close> and the route of a
  recovered run. An \<open>enum\<close> of errors carries the rendered detail, as in the code.
\<close>

section \<open>Errors and constants\<close>

datatype scheduler_error =
    InvalidConfiguration string
  | TrackerError string
  | WorkspaceError string
  | WorkerError string
  | StateTransitionError state_transition_error
  | RetryCalculationError retry_calculation_error
  | SchedulerIdentifierError identifier_error
  | ParentIntegrationError parent_error
  | ParentRepairUnavailable string

definition DISABLED_STALL_TIMEOUT_MS :: u64 where "DISABLED_STALL_TIMEOUT_MS = (- 1) div 4"
definition ROUTING_TASK_ISSUE_EXECUTION :: string where
  "ROUTING_TASK_ISSUE_EXECUTION = ''issue_execution''"
definition TERMINAL_REFRESH_INTERVAL_MS :: u64 where "TERMINAL_REFRESH_INTERVAL_MS = 300000"
definition FULL_DETAIL_REFRESH_INTERVAL_MS :: u64 where
  "FULL_DETAIL_REFRESH_INTERVAL_MS = 3600000"
definition HUMAN_REVIEW_STATE :: string where "HUMAN_REVIEW_STATE = ''human review''"
definition MERGING_STATE :: string where "MERGING_STATE = ''merging''"

text \<open>Durations of whole seconds; 30 seconds times a \<open>u32\<close> stays below \<open>Duration::MAX\<close>, where
  \<open>saturating_mul\<close> would stop.\<close>

definition PARENT_ELIGIBILITY_TIMEOUT :: u64 where "PARENT_ELIGIBILITY_TIMEOUT = 30"
definition PARENT_ELIGIBILITY_PROVIDER_CONCURRENCY :: u64 where
  "PARENT_ELIGIBILITY_PROVIDER_CONCURRENCY = 8"

section \<open>Configuration\<close>

record scheduler_config =
  sc_poll_interval_ms :: u64
  sc_max_concurrent_agents :: u32
  sc_max_turns :: u32
  sc_max_concurrent_agents_by_state :: "(string, u32) omap"
  sc_retry_policy :: retry_policy
  sc_max_retry_attempts :: "u32 option"
  sc_stall_timeout_ms :: "u64 option"
  sc_active_states :: "string list"
  sc_terminal_states :: "string list"
  sc_tracker_project_id :: "string option"
  sc_tracker_project_slug :: "string option"
  sc_tracker_project_ids :: "string list"
  sc_tracker_project_id_slug_fallbacks :: "bool list"
  sc_tracker_project_slugs :: "string list"
  sc_routing :: routing_config
  sc_repository_routing :: "repository_routing option"

definition normalized_state_name :: "string \<Rightarrow> string" where
  "normalized_state_name name = to_ascii_lowercase (trim name)"

definition u32_try_from :: "u64 \<Rightarrow> u32 option" where
  "u32_try_from n = (if unat n \<le> 2 ^ 32 - 1 then Some (ucast n) else None)"

definition exceeds_u32 :: "string \<Rightarrow> u64 \<Rightarrow> scheduler_error" where
  "exceeds_u32 what n = InvalidConfiguration
     (''workflow '' @ what @ '' '' @ show_nat (unat n) @ '' exceeds u32::MAX ('' @ show_nat (2 ^ 32 - 1) @ '')'')"

fun state_limits_u32 ::
  "(string, u32) omap \<Rightarrow> (string, u64) omap \<Rightarrow> scheduler_error + (string, u32) omap" where
  "state_limits_u32 acc [] = Ok acc"
| "state_limits_u32 acc ((state, limit) # rest) =
     and_then (ok_or (exceeds_u32 (''max_concurrent_agents_by_state['' @ state @ '']'') limit)
                 (u32_try_from limit)) (\<lambda>l.
       state_limits_u32 (omap_insert (normalized_state_name state) l acc) rest)"

definition config_from_workflow :: "resolved_workflow \<Rightarrow> scheduler_error + scheduler_config" where
  "config_from_workflow workflow =
     (let c = rw_config workflow; agent = wc_agent c; tracker = wc_tracker c in
     and_then (ok_or (exceeds_u32 ''max_concurrent_agents'' (agc_max_concurrent_agents agent))
                 (u32_try_from (agc_max_concurrent_agents agent))) (\<lambda>agents.
     and_then (ok_or (exceeds_u32 ''max_turns'' (agc_max_turns agent))
                 (u32_try_from (agc_max_turns agent))) (\<lambda>turns.
     and_then (state_limits_u32 [] (agc_max_concurrent_agents_by_state agent)) (\<lambda>limits.
     Ok \<lparr>sc_poll_interval_ms = pc_interval_ms (wc_polling c),
         sc_max_concurrent_agents = agents, sc_max_turns = turns,
         sc_max_concurrent_agents_by_state = limits,
         sc_retry_policy = retry_policy_default\<lparr>rp_max_backoff_ms := agc_max_retry_backoff_ms agent\<rparr>,
         sc_max_retry_attempts = None, sc_stall_timeout_ms = agc_stall_timeout_ms agent,
         sc_active_states = tc_active_states tracker,
         sc_terminal_states = tc_terminal_states tracker,
         sc_tracker_project_id = tc_project_id tracker,
         sc_tracker_project_slug = Some (tc_project_slug tracker),
         sc_tracker_project_ids = tc_project_ids tracker,
         sc_tracker_project_id_slug_fallbacks = tc_project_id_slug_fallbacks tracker,
         sc_tracker_project_slugs = tc_project_slugs tracker,
         sc_routing = wc_routing c, sc_repository_routing = None\<rparr>))))"

definition normalized_state_set :: "string list \<Rightarrow> string list" where
  "normalized_state_set states = map normalized_state_name states"

definition terminal_state_set :: "scheduler_config \<Rightarrow> string list" where
  "terminal_state_set config = normalized_state_set (sc_terminal_states config)"

definition matches_state_name :: "string \<Rightarrow> string list \<Rightarrow> bool" where
  "matches_state_name name states =
     list_ex (\<lambda>state. normalized_state_name state = normalized_state_name name) states"

definition state_category_from_name :: "string \<Rightarrow> scheduler_config \<Rightarrow> issue_state_category" where
  "state_category_from_name name config =
     (if matches_state_name name (sc_terminal_states config) then Terminal
      else if matches_state_name name (sc_active_states config) then Active
      else NonActive)"

definition state_limit_for :: "(string, u32) omap \<Rightarrow> string \<Rightarrow> u32 option" where
  "state_limit_for limits state_key =
     or_else (omap_get limits state_key)
       (find_map (\<lambda>(configured_state, limit).
          if normalized_state_name configured_state = state_key then Some limit else None) limits)"

definition effective_stall_timeout :: "u64 option \<Rightarrow> duration_ms" where
  "effective_stall_timeout stall_timeout_ms = unwrap_or stall_timeout_ms DISABLED_STALL_TIMEOUT_MS"

section \<open>Cadences\<close>

definition due :: "timestamp_ms option \<Rightarrow> u64 \<Rightarrow> timestamp_ms \<Rightarrow> bool" where
  "due last_observed_at interval_ms observed_at =
     is_none_or (\<lambda>l. saturating_add l interval_ms \<le> observed_at) last_observed_at"

definition parent_eligibility_timeout :: "u64 \<Rightarrow> u64" where
  "parent_eligibility_timeout provider_work_units =
     (let batches = saturating_add (max provider_work_units 1)
                      (PARENT_ELIGIBILITY_PROVIDER_CONCURRENCY - 1)
                    div PARENT_ELIGIBILITY_PROVIDER_CONCURRENCY;
          multiplier = unwrap_or (u32_try_from batches) (- 1)
      in saturating_mul PARENT_ELIGIBILITY_TIMEOUT (ucast multiplier))"

definition full_detail_refresh_interval_ms :: "parent_controller durable_state \<Rightarrow> u64" where
  "full_detail_refresh_interval_ms state =
     (let parent_waiting_for_refresh =
            list_ex (\<lambda>c. pc_state c = PsRefreshingRepositories)
              (omap_values (ds_parent_integrations state));
          parent_ready_for_fan_in =
            list_ex (\<lambda>(parent_id, snapshot).
              is_some_and (\<lambda>c. pc_state c = PsWaitingForChildren)
                (omap_get (ds_parent_integrations state) parent_id) \<and>
              list_ex he_required (hs_required_child_edges snapshot) \<and>
              list_all (\<lambda>edge. he_child_id edge \<in> set (ds_terminal_orchestrator_issues state))
                (filter he_required (hs_required_child_edges snapshot)))
              (ds_hierarchy state)
      in if parent_ready_for_fan_in \<or> parent_waiting_for_refresh
         then TERMINAL_REFRESH_INTERVAL_MS else FULL_DETAIL_REFRESH_INTERVAL_MS)"

section \<open>Harness routes\<close>

record harness_route_decision =
  hd_task_type :: string
  hd_harness_kind :: string
  hd_harness_profile :: "string option"
  hd_model :: "string option"
  hd_model_profile :: "string option"
  hd_reason :: string
  hd_dry_run :: bool
  hd_user_override :: bool

definition route_summary :: "harness_route_decision \<Rightarrow> string" where
  "route_summary d =
     (let profile = unwrap_or (hd_model_profile d) ''<default model profile>'';
          model = unwrap_or (hd_model d) ''<harness default model>'';
          mode = (if hd_dry_run d then ''dry-run '' else []);
          harness_profile = unwrap_or
            (map_option (\<lambda>p. '' profile `'' @ p @ ''`'') (hd_harness_profile d)) []
      in mode @ ''selected harness `'' @ hd_harness_kind d @ ''`'' @ harness_profile @
         '' with model `'' @ model @ ''` and profile `'' @ profile @ ''`: '' @ hd_reason d)"

definition scheduler_harness_capability :: "string \<Rightarrow> scheduler_error + harness_capability" where
  "scheduler_harness_capability kind =
     ok_or (InvalidConfiguration (''unknown routing harness `'' @ kind @ ''`''))
       (map_option harness_kind_capability (harness_kind_parse kind))"

definition routing_reason :: "routing_config \<Rightarrow> string" where
  "routing_reason routing =
     join_with ''; ''
       ([if rc_harness_from_env routing then ''harness selected by '' @ rc_harness_env routing
         else ''harness selected by workflow routing.harness''] @
        (if rc_model routing \<noteq> None then
           [if rc_model_from_env routing then ''model selected by '' @ rc_model_env routing
            else ''model selected by workflow routing.model'']
         else []) @
        (if rc_model_profile routing \<noteq> None then
           [if rc_model_profile_from_env routing
            then ''model profile selected by '' @ rc_model_profile_env routing
            else ''model profile selected by workflow routing.model_profile'']
         else []))"

definition can_start :: "harness_capability \<Rightarrow> bool" where
  "can_start c \<longleftrightarrow> hcap_available c \<and> ha_start_run (hcap_actions c)"

definition decide_issue_route ::
  "normalized_issue \<Rightarrow> scheduler_config \<Rightarrow> scheduler_error + harness_route_decision" where
  "decide_issue_route issue config =
     (let r = sc_routing config in
      and_then (scheduler_harness_capability (rc_harness r)) (\<lambda>capability.
      if \<not> can_start capability then
        Err (InvalidConfiguration
          (''selected harness `'' @ rc_harness r @ ''` cannot start issue execution''))
      else Ok \<lparr>hd_task_type = ROUTING_TASK_ISSUE_EXECUTION, hd_harness_kind = rc_harness r,
               hd_harness_profile = rc_harness_profile r, hd_model = rc_model r,
               hd_model_profile = rc_model_profile r, hd_reason = routing_reason r,
               hd_dry_run = rc_dry_run r,
               hd_user_override = rc_harness_from_env r \<or> rc_model_from_env r \<or>
                 rc_model_profile_from_env r\<rparr>))"

definition recovered_route ::
  "harness_route_decision \<Rightarrow> string option \<Rightarrow> scheduler_error + harness_route_decision" where
  "recovered_route route persisted_harness_kind =
     and_then (ok_or (InvalidConfiguration ''recovered run is missing its persisted harness kind'')
                 (Option.bind persisted_harness_kind
                    (\<lambda>kind. if trim kind \<noteq> [] then Some kind else None))) (\<lambda>kind.
     if hd_harness_kind route = kind then Ok route
     else and_then (scheduler_harness_capability kind) (\<lambda>capability.
       if \<not> can_start capability then
         Err (InvalidConfiguration
           (''persisted recovery harness `'' @ kind @ ''` cannot start issue execution''))
       else Ok (route\<lparr>hd_harness_kind := kind,
                      hd_reason := ''recovered persisted harness `'' @ kind @ ''`; '' @ hd_reason route,
                      hd_user_override := False\<rparr>)))"

definition worker_id_prefix :: string where "worker_id_prefix = ''scheduler-worker-''"

definition recovered_worker_ordinal :: "worker_id \<Rightarrow> u64 option" where
  "recovered_worker_ordinal w =
     Option.bind (strip_prefix worker_id_prefix (worker_id_str w)) parse_u64"

section \<open>Lemmas\<close>

text \<open>No white space character contains an ASCII letter, so trimming and lower-casing commute.\<close>

lemma ascii_lower_nonletter:
  "c \<in> set (concat white_space) \<Longrightarrow> ascii_lower d = c \<longleftrightarrow> d = c"
proof -
  assume "c \<in> set (concat white_space)"
  then have c: "\<not> is_ascii_upper c \<and> \<not> (97 \<le> byte c \<and> byte c \<le> 122)"
    by (auto simp: white_space_def is_ascii_upper_def byte_def)
  show ?thesis
  proof
    assume d: "ascii_lower d = c"
    show "d = c"
    proof (rule ccontr)
      assume "d \<noteq> c"
      with d have u: "is_ascii_upper d" and l: "c = char_of (byte d + 32)"
        by (auto simp: ascii_lower_def split: if_splits)
      then have "byte c = byte d + 32" by (simp add: byte_def is_ascii_upper_def)
      with u c show False by (simp add: is_ascii_upper_def)
    qed
  qed (use c in \<open>auto simp: ascii_lower_def\<close>)
qed

lemma prefix_lower:
  "set w \<subseteq> set (concat white_space) \<Longrightarrow> prefix w (to_ascii_lowercase s) \<longleftrightarrow> prefix w s"
proof (induction w arbitrary: s)
  case (Cons c w)
  show ?case
  proof (cases s)
    case (Cons d t)
    have "ascii_lower d = c \<longleftrightarrow> d = c"
      using Cons.prems by (intro ascii_lower_nonletter) simp
    moreover have "prefix w (to_ascii_lowercase t) \<longleftrightarrow> prefix w t"
      using Cons.prems by (intro Cons.IH) simp
    ultimately show ?thesis
      using \<open>s = d # t\<close> by (auto simp: to_ascii_lowercase_def)
  qed (simp add: to_ascii_lowercase_def)
qed simp

lemma leading_lower:
  "set (concat ws) \<subseteq> set (concat white_space) \<Longrightarrow> leading ws (to_ascii_lowercase s) = leading ws s"
  by (induction ws) (auto simp: prefix_lower)

lemma strip_leading_lower:
  "set (concat ws) \<subseteq> set (concat white_space) \<Longrightarrow>
     strip_leading ws (to_ascii_lowercase s) = to_ascii_lowercase (strip_leading ws s)"
proof (induction ws s rule: strip_leading.induct)
  case (1 ws s)
  have n: "to_ascii_lowercase s = [] \<longleftrightarrow> s = []" by (simp add: to_ascii_lowercase_def)
  have d: "drop k (to_ascii_lowercase s) = to_ascii_lowercase (drop k s)" for k
    by (simp add: to_ascii_lowercase_def drop_map)
  show ?case
    using 1 by (subst (1 2) strip_leading.simps) (simp add: leading_lower n d)
qed

lemma trim_lower [simp]: "trim (to_ascii_lowercase s) = to_ascii_lowercase (trim s)"
proof -
  have r: "rev (to_ascii_lowercase t) = to_ascii_lowercase (rev t)" for t
    by (simp add: to_ascii_lowercase_def rev_map)
  have "set (concat (map rev white_space)) \<subseteq> set (concat white_space)"
    by auto
  then show ?thesis
    by (simp add: trim_def trim_start_def trim_end_def strip_leading_lower r)
qed

lemma lower_idem [simp]: "to_ascii_lowercase (to_ascii_lowercase s) = to_ascii_lowercase s"
  by (auto simp: to_ascii_lowercase_def ascii_lower_def is_ascii_upper_def byte_def)

lemma normalized_idem [simp]: "normalized_state_name (normalized_state_name s) = normalized_state_name s"
  by (simp add: normalized_state_name_def)

lemma normalized_trim [simp]: "normalized_state_name (trim s) = normalized_state_name s"
  by (simp add: normalized_state_name_def)

lemma state_limits_u32_keys:
  "state_limits_u32 acc m = Ok r \<Longrightarrow>
     fst ` set r = fst ` set acc \<union> normalized_state_name ` fst ` set m"
proof (induction acc m arbitrary: r rule: state_limits_u32.induct)
  case (2 acc state limit rest)
  from 2(2) show ?case
    unfolding state_limits_u32.simps
  proof (elim and_thenE, goal_cases)
    case (1 l)
    from 2(1) [OF 1] show ?case by (auto simp: keys_omap_insert)
  qed
qed simp

lemma resolve_state_limits_from_keys:
  "resolve_state_limits_from lower acc raw = Ok r \<Longrightarrow>
     fst ` set r = fst ` set acc \<union> (\<lambda>k. lower (trim k)) ` fst ` set raw"
proof (induction lower acc raw rule: resolve_state_limits_from.induct)
  case (2 lower acc state v raw)
  from 2(2) show ?case
    unfolding resolve_state_limits_from.simps
  proof (elim and_thenE, goal_cases)
    case (1 name n)
    then have pos: "\<not> sint n \<le> 0"
      and r: "resolve_state_limits_from lower (omap_insert (lower name) n acc) raw = Ok r"
      and name: "name = trim state"
      by (auto simp: ok_or_Ok normalize_optional_def split: if_splits)
    from 2(1) [OF 1(1,2) pos r] name show ?case by (auto simp: keys_omap_insert)
  qed
qed simp

lemma state_limit_for_normalized:
  assumes "\<forall>k \<in> fst ` set limits. normalized_state_name k = k"
  shows "state_limit_for limits key \<noteq> None \<longleftrightarrow> key \<in> fst ` set limits"
proof -
  have "find_map (\<lambda>(configured_state, limit).
      if normalized_state_name configured_state = key then Some limit else None) limits = None
    \<longleftrightarrow> key \<notin> fst ` set limits"
    using assms by (fastforce simp: image_iff)
  moreover have "omap_get limits key = None \<longleftrightarrow> key \<notin> fst ` set limits"
    by (rule omap_get_None_iff)
  ultimately show ?thesis
    unfolding state_limit_for_def by (cases "omap_get limits key") (simp_all del: find_map_None_iff)
qed

lemma scheduler_harness_capability_Ok:
  "scheduler_harness_capability k = Ok c \<longleftrightarrow>
     (\<exists>h. harness_kind_parse k = Some h \<and> c = harness_kind_capability h)"
  by (auto simp: scheduler_harness_capability_def ok_or_Ok)

lemma can_start_capability [simp]: "can_start (harness_kind_capability h) \<longleftrightarrow> h \<noteq> RustNative"
  by (simp add: can_start_def)

end
