(* ===== verification/Scheduler_Issues.thy ===== *)
theory Scheduler_Issues
  imports Scheduler_Config Selection
begin

text \<open>
  How the scheduler reads tracker issues, from
  \<open>opensymphony-orchestrator/src/scheduler.rs\<close>: the normalisation of a tracker issue, the
  issue it rebuilds from a normalised one, the membership of the configured project, the
  summaries used for discovery, and the guards over executions that look at states and outcomes.

  An instant of \<open>chrono\<close> counts nanoseconds since the epoch.
  \<open>DateTime::from_timestamp_millis\<close>, which fails outside chrono's range, is the parameter
  \<open>from_millis\<close>, and the current time is the parameter \<open>now\<close>.
\<close>

section \<open>Time\<close>

definition timestamp_millis :: "date_time \<Rightarrow> int" where
  "timestamp_millis datetime = datetime div 1000000"

definition datetime_to_timestamp :: "date_time \<Rightarrow> timestamp_ms" where
  "datetime_to_timestamp datetime =
     (if timestamp_millis datetime \<le> 0 then 0 else of_int (timestamp_millis datetime))"

definition timestamp_to_datetime ::
  "(int \<Rightarrow> date_time option) \<Rightarrow> date_time \<Rightarrow> timestamp_ms option \<Rightarrow> date_time" where
  "timestamp_to_datetime from_millis now timestamp =
     (let millis = min (int (unat (unwrap_or timestamp 0))) (2 ^ 63 - 1)
      in unwrap_or (from_millis millis) now)"

section \<open>Projects\<close>

definition eq_trimmed_ci :: "string \<Rightarrow> string \<Rightarrow> bool" where
  "eq_trimmed_ci a b = eq_ignore_ascii_case (trim a) (trim b)"

definition project_belongs_to_configured_project ::
  "scheduler_config \<Rightarrow> string option \<Rightarrow> string option \<Rightarrow> bool \<Rightarrow> bool" where
  "project_belongs_to_configured_project config project_id project_slug project_identity_known \<longleftrightarrow>
     (if sc_tracker_project_id config = None \<and> sc_tracker_project_slug config = None \<and>
         sc_tracker_project_ids config = [] \<and> sc_tracker_project_slugs config = [] then True
      else if \<not> project_identity_known \<and> project_id = None \<and> project_slug = None then True
      else if is_some_and (\<lambda>config_project_id.
                is_some_and (\<lambda>i. trim i = trim config_project_id) project_id)
                (sc_tracker_project_id config) then True
      else if is_some_and (\<lambda>issue_project_id.
                list_ex (\<lambda>(index, p).
                  \<not> (if index < length (sc_tracker_project_id_slug_fallbacks config)
                     then sc_tracker_project_id_slug_fallbacks config ! index else False) \<and>
                  trim issue_project_id = trim p)
                  (enumerate 0 (sc_tracker_project_ids config)))
                project_id then True
      else
        is_some_and (\<lambda>config_project_slug.
          is_none_or (\<lambda>first_slug. eq_trimmed_ci first_slug config_project_slug)
            (case sc_tracker_project_slugs config of [] \<Rightarrow> None | s # _ \<Rightarrow> Some s) \<and>
          is_some_and (\<lambda>s. eq_trimmed_ci s config_project_slug) project_slug)
          (sc_tracker_project_slug config) \<or>
        is_some_and (\<lambda>s. list_ex (\<lambda>p. eq_trimmed_ci s p) (sc_tracker_project_slugs config))
          project_slug)"

definition tracker_issue_belongs_to_configured_project ::
  "tracker_issue \<Rightarrow> scheduler_config \<Rightarrow> bool" where
  "tracker_issue_belongs_to_configured_project issue config =
     project_belongs_to_configured_project config (ti_project_id issue) (ti_project_slug issue) True"

definition project_identity_changed :: "normalized_issue \<Rightarrow> normalized_issue \<Rightarrow> bool" where
  "project_identity_changed previous current =
     (case (ni_project_id previous, ni_project_id current) of
        (Some previous_id, Some current_id) \<Rightarrow> trim previous_id \<noteq> trim current_id
      | (Some _, None) \<Rightarrow> True
      | (None, Some _) \<Rightarrow> True
      | (None, None) \<Rightarrow>
          (case (ni_project_slug previous, ni_project_slug current) of
             (Some p, Some c) \<Rightarrow> \<not> eq_ignore_ascii_case p c
           | _ \<Rightarrow> False))"

section \<open>Normalisation\<close>

definition resolve_repository_binding ::
  "scheduler_config \<Rightarrow> string list \<Rightarrow> string option \<Rightarrow> string option \<Rightarrow> bool
     \<Rightarrow> repository_binding_outcome option" where
  "resolve_repository_binding config labels project_id project_slug is_parent =
     Option.bind (sc_repository_routing config) (\<lambda>routing.
       if is_parent \<and> managed_repository_aliases labels = [] then None
       else Some (resolve routing labels project_id project_slug is_parent))"

definition issue_state_from_name :: "string \<Rightarrow> scheduler_config \<Rightarrow> issue_state" where
  "issue_state_from_name name config =
     \<lparr>is_id = (case tracker_state_id_new
                  (map (\<lambda>c. if c = CHR '' '' then CHR ''-'' else c) (to_ascii_lowercase name)) of
                 Ok i \<Rightarrow> Some i | Err _ \<Rightarrow> None),
      is_name = name, is_category = state_category_from_name name config\<rparr>"

abbreviation ident :: "identifier_error + 'a \<Rightarrow> scheduler_error + 'a" where
  "ident r \<equiv> map_err SchedulerIdentifierError r"

definition normalize_blocker :: "tracker_issue_blocker \<Rightarrow> scheduler_error + blocker_ref" where
  "normalize_blocker b =
     and_then (ident (issue_id_new (tb_id b))) (\<lambda>i.
     and_then (ident (issue_identifier_new (tb_identifier b))) (\<lambda>n.
     Ok \<lparr>br_id = Some i, br_identifier = Some n, br_state = Some (ts_name (tb_state b)),
         br_created_at = None, br_updated_at = None\<rparr>))"

definition normalize_sub_issue :: "tracker_issue_ref \<Rightarrow> scheduler_error + issue_ref" where
  "normalize_sub_issue c =
     and_then (ident (issue_id_new (tr_id c))) (\<lambda>i.
     and_then (ident (issue_identifier_new (tr_identifier c))) (\<lambda>n.
     Ok \<lparr>ir_id = i, ir_identifier = n, ir_state = tr_state c\<rparr>))"

definition normalize_tracker_issue ::
  "tracker_issue \<Rightarrow> scheduler_config \<Rightarrow> scheduler_error + normalized_issue" where
  "normalize_tracker_issue issue config =
     and_then (ident (issue_id_new (ti_id issue))) (\<lambda>i.
     and_then (ident (issue_identifier_new (ti_identifier issue))) (\<lambda>n.
     and_then (case ti_parent_id issue of
                 Some p \<Rightarrow> map_sum id Some (ident (issue_id_new p))
               | None \<Rightarrow> Ok None) (\<lambda>parent.
     and_then (collect_results normalize_blocker (ti_blocked_by issue)) (\<lambda>blockers.
     and_then (collect_results normalize_sub_issue (ti_sub_issues issue)) (\<lambda>subs.
     Ok \<lparr>ni_id = i, ni_identifier = n, ni_title = ti_title issue,
         ni_description = ti_description issue, ni_priority = ti_priority issue,
         ni_state = issue_state_from_name (ti_state issue) config,
         ni_branch_name = ti_branch_name issue, ni_pr_url = ti_pr_url issue,
         ni_pr_urls = ti_pr_urls issue, ni_url = Some (ti_url issue),
         ni_labels = ti_labels issue, ni_project_id = ti_project_id issue,
         ni_project_slug = ti_project_slug issue, ni_project_name = ti_project_name issue,
         ni_parent_id = parent,
         ni_repository_binding = resolve_repository_binding config (ti_labels issue)
           (ti_project_id issue) (ti_project_slug issue) (ti_sub_issues issue \<noteq> []),
         ni_blocked_by = blockers, ni_sub_issues = subs,
         ni_created_at = Some (datetime_to_timestamp (ti_created_at issue)),
         ni_updated_at = Some (datetime_to_timestamp (ti_updated_at issue))\<rparr>)))))"

record tracker_issue_state_snapshot =
  tss_id :: string
  tss_identifier :: string
  tss_state :: tracker_issue_state
  tss_project_id :: "string option"
  tss_project_slug :: "string option"
  tss_project_identity_known :: bool
  tss_labels :: "string list"
  tss_is_parent :: bool
  tss_updated_at :: date_time

definition minimal_issue_from_state_snapshot ::
  "tracker_issue_state_snapshot \<Rightarrow> scheduler_config \<Rightarrow> scheduler_error + normalized_issue" where
  "minimal_issue_from_state_snapshot snapshot config =
     and_then (ident (issue_id_new (tss_id snapshot))) (\<lambda>i.
     and_then (ident (issue_identifier_new (tss_identifier snapshot))) (\<lambda>n.
     Ok \<lparr>ni_id = i, ni_identifier = n, ni_title = tss_identifier snapshot,
         ni_description = None, ni_priority = None,
         ni_state = issue_state_from_name (ts_name (tss_state snapshot)) config,
         ni_branch_name = None, ni_pr_url = None, ni_pr_urls = [], ni_url = None,
         ni_labels = tss_labels snapshot, ni_project_id = tss_project_id snapshot,
         ni_project_slug = tss_project_slug snapshot, ni_project_name = None, ni_parent_id = None,
         ni_repository_binding = resolve_repository_binding config (tss_labels snapshot)
           (tss_project_id snapshot) (tss_project_slug snapshot) (tss_is_parent snapshot),
         ni_blocked_by = [], ni_sub_issues = [], ni_created_at = None,
         ni_updated_at = Some (datetime_to_timestamp (tss_updated_at snapshot))\<rparr>))"

section \<open>Rebuilding tracker issues\<close>

definition tracker_state_kind_from_name :: "string \<Rightarrow> tracker_issue_state_kind" where
  "tracker_state_kind_from_name name =
     (let v = normalized_state_name name
      in if v = ''backlog'' then KBacklog
         else if v = ''todo'' then KUnstarted
         else if v \<in> {''done'', ''completed'', ''closed''} then KCompleted
         else if v \<in> {''canceled'', ''cancelled''} then KCanceled
         else if v \<in> {''triage'', ''triaged''} then KTriage
         else if v \<in> {''in progress'', ''review'', ''human review''} then KStarted
         else KUnknown v)"

fun tracker_type_for_state_kind :: "tracker_issue_state_kind \<Rightarrow> string" where
  "tracker_type_for_state_kind KBacklog = ''backlog''"
| "tracker_type_for_state_kind KUnstarted = ''unstarted''"
| "tracker_type_for_state_kind KStarted = ''started''"
| "tracker_type_for_state_kind KCompleted = ''completed''"
| "tracker_type_for_state_kind KCanceled = ''canceled''"
| "tracker_type_for_state_kind KTriage = ''triage''"
| "tracker_type_for_state_kind (KUnknown _) = ''unknown''"

definition tracker_state_kind_from_issue_state :: "issue_state \<Rightarrow> tracker_issue_state_kind" where
  "tracker_state_kind_from_issue_state state =
     (case is_category state of
        Active \<Rightarrow> KStarted
      | Terminal \<Rightarrow> tracker_state_kind_from_name (is_name state)
      | NonActive \<Rightarrow> tracker_state_kind_from_name (is_name state))"

definition tracker_issue_state_from_name :: "string \<Rightarrow> tracker_issue_state" where
  "tracker_issue_state_from_name name =
     (let kind = tracker_state_kind_from_name name
      in \<lparr>ts_id = normalized_state_name name, ts_name = name,
          ts_tracker_type = tracker_type_for_state_kind kind, ts_kind = kind\<rparr>)"

definition rebuild_blocker :: "blocker_ref \<Rightarrow> tracker_issue_blocker option" where
  "rebuild_blocker b =
     Option.bind (br_id b) (\<lambda>i.
     Option.bind (br_identifier b) (\<lambda>n.
     Some \<lparr>tb_id = issue_id_str i, tb_identifier = issue_identifier_str n,
           tb_title = issue_identifier_str n,
           tb_state = tracker_issue_state_from_name (unwrap_or (br_state b) [])\<rparr>))"

definition rebuild_sub_issue :: "issue_ref \<Rightarrow> tracker_issue_ref" where
  "rebuild_sub_issue c =
     \<lparr>tr_id = issue_id_str (ir_id c), tr_identifier = issue_identifier_str (ir_identifier c),
      tr_title = None, tr_url = None, tr_state = ir_state c,
      tr_state_kind = tracker_state_kind_from_name (ir_state c)\<rparr>"

definition tracker_issue_from_normalized ::
  "(int \<Rightarrow> date_time option) \<Rightarrow> date_time \<Rightarrow> normalized_issue \<Rightarrow> tracker_issue" where
  "tracker_issue_from_normalized from_millis now issue =
     \<lparr>ti_id = issue_id_str (ni_id issue), ti_identifier = issue_identifier_str (ni_identifier issue),
      ti_url = unwrap_or (ni_url issue) [], ti_title = ni_title issue,
      ti_description = ni_description issue, ti_priority = ni_priority issue,
      ti_state = is_name (ni_state issue),
      ti_state_kind = tracker_state_kind_from_issue_state (ni_state issue),
      ti_branch_name = ni_branch_name issue, ti_pr_url = ni_pr_url issue,
      ti_pr_urls = ni_pr_urls issue, ti_labels = ni_labels issue,
      ti_project_id = ni_project_id issue, ti_project_slug = ni_project_slug issue,
      ti_project_name = ni_project_name issue,
      ti_parent_id = map_option issue_id_str (ni_parent_id issue),
      ti_parent = None, ti_project_milestone = None,
      ti_blocked_by = List.map_filter rebuild_blocker (ni_blocked_by issue),
      ti_sub_issues = map rebuild_sub_issue (ni_sub_issues issue),
      ti_created_at = timestamp_to_datetime from_millis now (ni_created_at issue),
      ti_updated_at = timestamp_to_datetime from_millis now (ni_updated_at issue)\<rparr>"

section \<open>Summaries\<close>

record tracker_issue_summary =
  tis_id :: string
  tis_identifier :: string
  tis_url :: string
  tis_title :: string
  tis_priority :: "u8 option"
  tis_state :: string
  tis_state_kind :: tracker_issue_state_kind
  tis_blocked_by :: "tracker_issue_blocker list"
  tis_sub_issues :: "tracker_issue_ref list"
  tis_created_at :: date_time
  tis_updated_at :: date_time

definition tracker_issue_summary_from_issue :: "tracker_issue \<Rightarrow> tracker_issue_summary" where
  "tracker_issue_summary_from_issue issue =
     \<lparr>tis_id = ti_id issue, tis_identifier = ti_identifier issue, tis_url = ti_url issue,
      tis_title = ti_title issue, tis_priority = ti_priority issue, tis_state = ti_state issue,
      tis_state_kind = ti_state_kind issue, tis_blocked_by = ti_blocked_by issue,
      tis_sub_issues = ti_sub_issues issue, tis_created_at = ti_created_at issue,
      tis_updated_at = ti_updated_at issue\<rparr>"

definition should_dispatch_issue_summary :: "tracker_issue_summary \<Rightarrow> string list \<Rightarrow> bool" where
  "should_dispatch_issue_summary issue terminal_states \<longleftrightarrow>
     \<not> list_ex (\<lambda>b. \<not> blocker_is_terminal b) (tis_blocked_by issue) \<and>
     (tis_sub_issues issue = [] \<or>
      list_all (\<lambda>s. ref_is_terminal s terminal_states) (tis_sub_issues issue))"

definition summary_priority_rank :: "tracker_issue_summary \<Rightarrow> u8" where
  "summary_priority_rank issue = unwrap_or (tis_priority issue) (- 1)"

definition summary_key :: "tracker_issue_summary \<Rightarrow> u8 \<times> nat \<times> date_time \<times> string" where
  "summary_key i = (summary_priority_rank i, length (tis_sub_issues i), tis_created_at i,
     tis_identifier i)"

definition filter_issue_summaries_for_dispatch ::
  "tracker_issue_summary list \<Rightarrow> string list \<Rightarrow> tracker_issue_summary list" where
  "filter_issue_summaries_for_dispatch summaries terminal_states =
     sort_key summary_key
       (filter (\<lambda>i. should_dispatch_issue_summary i terminal_states) summaries)"

section \<open>Guards over executions\<close>

fun non_active_release_reason :: "issue_state_category \<Rightarrow> release_reason option" where
  "non_active_release_reason Terminal = Some ReleaseTrackerTerminal"
| "non_active_release_reason NonActive = Some ReleaseTrackerInactive"
| "non_active_release_reason Active = None"

fun retry_reason_for_outcome :: "worker_outcome_kind \<Rightarrow> retry_reason option" where
  "retry_reason_for_outcome OutSucceeded = None"
| "retry_reason_for_outcome OutFailed = Some RetryFailure"
| "retry_reason_for_outcome OutTimedOut = Some RetryFailure"
| "retry_reason_for_outcome OutStalled = Some RetryStalled"
| "retry_reason_for_outcome OutCancelled = Some RetryCancelled"
| "retry_reason_for_outcome OutDetached = None"
| "retry_reason_for_outcome OutCancelFailed = None"

definition acknowledged_operator_cancel_terminal :: "issue_execution \<Rightarrow> worker_outcome_record \<Rightarrow> bool" where
  "acknowledged_operator_cancel_terminal execution out \<longleftrightarrow>
     wo_outcome out \<in> {OutSucceeded, OutCancelled} \<and>
     is_some_and (\<lambda>i.
       hi_status i \<in> {InterruptRequested, InterruptAcknowledged, InterruptFailed, InterruptTimedOut} \<and>
       hc_reason (hi_command i) = OperatorCancel \<and>
       hc_expected_next_state (hi_command i) = ExpectPaused)
       (ie_interrupt execution)"

fun released_as :: "scheduler_state \<Rightarrow> release_reason option" where
  "released_as (SReleased _ reason) = Some reason"
| "released_as _ = None"

definition retry_exhausted_release :: "issue_execution \<Rightarrow> bool" where
  "retry_exhausted_release execution \<longleftrightarrow> released_as (ie_state execution) = Some ReleaseRetryExhausted"

definition terminal_worker_outcome_prevents_reopen :: "issue_execution \<Rightarrow> bool" where
  "terminal_worker_outcome_prevents_reopen execution \<longleftrightarrow>
     retry_exhausted_release execution \<or>
     released_as (ie_state execution) \<in> {Some ReleaseCompleted, Some ReleaseCancelled} \<or>
     is_some_and (\<lambda>out. wo_outcome out \<in> {OutDetached, OutCancelFailed})
       (ie_last_worker_outcome execution) \<or>
     is_some_and (acknowledged_operator_cancel_terminal execution)
       (ie_last_worker_outcome execution)"

definition tracker_merging_interrupt_cancelled :: "issue_execution \<Rightarrow> worker_outcome_record \<Rightarrow> bool" where
  "tracker_merging_interrupt_cancelled execution out \<longleftrightarrow>
     wo_outcome out = OutCancelled \<and>
     is_some_and (\<lambda>i. hc_reason (hi_command i) = TrackerMergingSupersedesHumanReview)
       (ie_interrupt execution)"

definition is_canceled_tracker_issue :: "tracker_issue \<Rightarrow> string list \<Rightarrow> bool" where
  "is_canceled_tracker_issue issue canceled_states \<longleftrightarrow>
     ti_state_kind issue = KCanceled \<or>
     list_ex (\<lambda>configured_state.
       str_contains (to_ascii_lowercase configured_state) ''cancel'' \<and>
       eq_trimmed_ci configured_state (ti_state issue)) canceled_states"

definition running_state_key_for_execution :: "issue_execution \<Rightarrow> string option" where
  "running_state_key_for_execution execution =
     (if status execution = Running
      then Some (normalized_state_name (is_name (ni_state (ie_issue execution)))) else None)"

definition is_human_review_to_merging :: "normalized_issue \<Rightarrow> normalized_issue \<Rightarrow> bool" where
  "is_human_review_to_merging previous current \<longleftrightarrow>
     normalized_state_name (is_name (ni_state previous)) = HUMAN_REVIEW_STATE \<and>
     normalized_state_name (is_name (ni_state current)) = MERGING_STATE"

end
