(* ===== verification/Workflow_Properties.thy ===== *)
theory Workflow_Properties
  imports Workflow_Openhands "HOL-Library.Code_Target_Numeral"
begin

text \<open>
  What a workflow file that was read and resolved is known to satisfy: the split of the file
  into front matter and prompt, the well-formedness of the resolved configuration, the source
  of the model an agent runs with, the transport to the agent server, and the containment of
  the conversation directory in the issue workspace.
\<close>

section \<open>Splitting lines\<close>

lemma concat_split_inclusive [simp]: "concat (split_inclusive s) = s"
  by (induction s) (auto split: list.splits)

lemma split_inclusive_Nil_iff [simp]: "split_inclusive s = [] \<longleftrightarrow> s = []"
  by (cases s) (auto split: list.splits)

lemma split_inclusive_append:
  "s = [] \<or> last s = CHR 0x0A \<Longrightarrow> split_inclusive (s @ t) = split_inclusive s @ split_inclusive t"
proof (induction s)
  case (Cons c s)
  show ?case
  proof (cases "s = []")
    case False
    with Cons have "split_inclusive (s @ t) = split_inclusive s @ split_inclusive t" by simp
    with False show ?thesis by (cases "split_inclusive s") auto
  qed (use Cons in simp)
qed simp

text \<open>A line that closes or opens a block: \<open>---\<close>, any carriage returns, one line feed.\<close>

definition delimiter_line :: "string \<Rightarrow> bool" where
  "delimiter_line l \<longleftrightarrow> trim_line l = delimiter \<and> CHR 0x0A \<notin> set (butlast l) \<and> last l = CHR 0x0A"

definition no_delimiter :: "string \<Rightarrow> bool" where
  "no_delimiter s \<longleftrightarrow> (\<forall>l \<in> set (split_inclusive s). trim_line l \<noteq> delimiter)"

lemma split_one_line:
  "l \<noteq> [] \<Longrightarrow> CHR 0x0A \<notin> set (butlast l) \<Longrightarrow> split_inclusive l = [l]"
proof (induction l)
  case (Cons c l)
  then show ?case by (cases l) auto
qed simp

lemma delimiter_line_nonempty: "delimiter_line l \<Longrightarrow> l \<noteq> []"
  by (auto simp: delimiter_line_def trim_line_def delimiter_def)

lemma split_delimiter_line:
  "delimiter_line l \<Longrightarrow> split_inclusive (l @ s) = l # split_inclusive s"
  using split_one_line [of l] delimiter_line_nonempty [of l]
  by (simp add: split_inclusive_append delimiter_line_def)

lemma find_closing_first:
  assumes "\<forall>l \<in> set ls. trim_line l \<noteq> delimiter" and "trim_line cl = delimiter"
  shows "find_closing source n (ls @ cl # rest) offset =
    Some (drop n (take (offset + length (concat ls)) source),
          drop (offset + length (concat ls) + length cl) source)"
  using assms by (induction ls arbitrary: offset) (simp_all add: add.assoc)

lemma find_closing_Some:
  "find_closing source n lines offset = Some (fm, body) \<Longrightarrow>
     \<exists>ls cl rest. lines = ls @ cl # rest \<and> (\<forall>l \<in> set ls. trim_line l \<noteq> delimiter) \<and>
       trim_line cl = delimiter"
proof (induction source n lines offset rule: find_closing.induct)
  case (2 source n line lines offset)
  show ?case
  proof (cases "trim_line line = delimiter")
    case True
    then show ?thesis by (intro exI [of _ "[]"] exI [of _ line] exI [of _ lines]) simp
  next
    case False
    with 2 obtain ls cl rest where "lines = ls @ cl # rest"
      "\<forall>l \<in> set ls. trim_line l \<noteq> delimiter" "trim_line cl = delimiter" by auto
    with False show ?thesis
      by (intro exI [of _ "line # ls"] exI [of _ cl] exI [of _ rest]) simp
  qed
qed simp

text \<open>Lines stay lines when a prefix of them is put together again.\<close>

lemma split_inclusive_lines:
  "split_inclusive s = ls @ r # rest \<Longrightarrow> split_inclusive (concat ls) = ls"
proof (induction s arbitrary: ls)
  case (Cons c s)
  show ?case
  proof (cases ls)
    case (Cons l ls')
    note ls = this
    show ?thesis
    proof (cases "c = CHR 0x0A")
      case True
      with Cons.prems ls have "l = [c]" "split_inclusive s = ls' @ r # rest" by auto
      with Cons.IH [of ls'] True ls show ?thesis by simp
    next
      case False
      with Cons.prems ls obtain m where m: "l = c # m" "split_inclusive s = m # ls' @ r # rest"
        by (auto split: list.splits)
      with Cons.IH [of "m # ls'"] have s: "split_inclusive (m @ concat ls') = m # ls'" by simp
      then have "m @ concat ls' \<noteq> []" by (metis list.distinct(1) split_inclusive_Nil_iff)
      with s False ls m show ?thesis by simp
    qed
  qed simp
qed simp

lemma split_inclusive_tail:
  "split_inclusive s = l # ls \<Longrightarrow> split_inclusive (concat ls) = ls"
proof (induction s arbitrary: l)
  case (Cons c s)
  then show ?case
    by (cases "c = CHR 0x0A"; cases "split_inclusive s") auto
qed simp

lemma split_front_matter_print:
  assumes "delimiter_line first" "delimiter_line close"
    and fm: "fm = [] \<or> last fm = CHR 0x0A" "no_delimiter fm"
  shows "split_front_matter (first @ fm @ close @ body) = Some (fm, body)"
proof -
  let ?s = "first @ fm @ close @ body"
  have lines: "split_inclusive ?s = first # split_inclusive fm @ close # split_inclusive body"
    using assms by (simp add: split_delimiter_line split_inclusive_append)
  have "trim_line first = delimiter" "trim_line close = delimiter"
    using assms by (simp_all add: delimiter_line_def)
  with fm show ?thesis
    unfolding split_front_matter_def lines
    by (simp add: find_closing_first no_delimiter_def)
qed

lemma split_front_matter_parts:
  assumes "split_front_matter source = Some (fm, body)"
  shows "\<exists>first close. source = first @ fm @ close @ body \<and>
    trim_line first = delimiter \<and> trim_line close = delimiter \<and> no_delimiter fm"
proof -
  obtain first lines where l: "split_inclusive source = first # lines"
    and o: "trim_line first = delimiter"
    and f: "find_closing source (length first) lines (length first) = Some (fm, body)"
    using assms by (auto simp: split_front_matter_def split: list.splits if_splits)
  from find_closing_Some [OF f] obtain ls close rest where ls: "lines = ls @ close # rest"
    "\<forall>l \<in> set ls. trim_line l \<noteq> delimiter" and c: "trim_line close = delimiter" by blast
  have src: "source = first @ concat ls @ close @ concat rest"
    using concat_split_inclusive [of source] by (simp add: l ls(1))
  from f ls c have fm: "fm = concat ls" "body = concat rest"
    by (simp_all add: find_closing_first src)
  have "split_inclusive (concat lines) = ls @ close # rest"
    using split_inclusive_tail [OF l] ls(1) by simp
  then have "no_delimiter fm"
    using split_inclusive_lines ls(2) fm(1) by (simp add: no_delimiter_def)
  with src o c fm show ?thesis by blast
qed

section \<open>Paths\<close>

text \<open>A path from a string is well-formed.\<close>

lemma split_slash_no_slash: "seg \<in> set (split_slash s) \<Longrightarrow> CHR ''/'' \<notin> set seg"
proof (induction s arbitrary: seg)
  case (Cons c s)
  then show ?case
    by (cases "split_slash s") (auto split: if_splits)
qed simp

lemma segment_components_wf:
  "\<forall>seg \<in> set segs. CHR ''/'' \<notin> set seg \<Longrightarrow> list_all component_wf (segment_components segs)"
  by (induction segs rule: segment_components.induct) auto

lemma path_from_wf: "path_wf (path_from s)"
proof (cases s)
  case (Cons c r)
  have segs: "list_all component_wf (segment_components (split_slash t))" for t
    by (rule segment_components_wf) (auto dest: split_slash_no_slash)
  have wf: "path_wf cs" if "list_all component_wf cs" for cs
    using that by (cases cs rule: path_wf.cases) auto
  show ?thesis
  proof (cases "c = CHR ''/''")
    case True
    then show ?thesis using segs [of "c # r"] Cons by (simp add: path_from_def)
  next
    case False
    have "path_wf ((if seg = ''.'' then [CurDir] else []) @ segment_components (seg # rest))"
      if "split_slash (c # r) = seg # rest" for seg rest
      using segs [of "c # r"] wf [of "segment_components rest"] wf [of "segment_components (seg # rest)"]
      unfolding that by (cases "seg = ''.''") simp_all
    with False Cons show ?thesis
      by (cases "split_slash (c # r)") (simp_all add: path_from_def)
  qed
qed (simp add: path_from_def)

text \<open>The two normalisations of the code base agree on the paths that reach this one: rooted
  paths, and relative paths that do not leave their starting point.\<close>

definition repr_path :: "bool \<Rightarrow> string list \<Rightarrow> path" where
  "repr_path r parts = (if r then [RootDir] else []) @ map Normal parts"

lemma pop_repr [simp]:
  "parts \<noteq> [] \<Longrightarrow> path_parent (repr_path r parts) = Some (repr_path r (butlast parts))"
  by (auto simp: path_parent_def repr_path_def butlast_append last_map map_butlast)

lemma pop_root [simp]: "path_parent (repr_path True []) = None"
  by (simp add: path_parent_def repr_path_def)

lemma step_agree:
  assumes "component_wf c" and "''..'' \<notin> set parts" and "c = ParentDir \<Longrightarrow> parts \<noteq> [] \<or> r"
  shows "\<exists>parts'. normalize_step (r, parts) c = (r, parts') \<and> ''..'' \<notin> set parts' \<and>
           normalize_path_step (repr_path r parts, r) c = (repr_path r parts', r)"
proof (cases c)
  case ParentDir
  show ?thesis
  proof (cases "parts = []")
    case True
    with assms(3) [OF ParentDir] ParentDir show ?thesis by simp
  next
    case False
    with assms(2) have "last parts \<noteq> ''..''" by (metis last_in_set)
    with False assms(2) ParentDir show ?thesis by (auto dest: in_set_butlastD)
  qed
qed (use assms in \<open>auto simp: repr_path_def\<close>)

lemma fold_agree_rooted:
  "list_all component_wf cs \<Longrightarrow> ''..'' \<notin> set parts \<Longrightarrow>
     \<exists>parts'. foldl normalize_step (True, parts) cs = (True, parts') \<and> ''..'' \<notin> set parts' \<and>
       foldl normalize_path_step (repr_path True parts, True) cs = (repr_path True parts', True)"
proof (induction cs arbitrary: parts)
  case (Cons c cs)
  then show ?case using step_agree [of c parts True] by auto
qed simp

lemma fold_agree_relative:
  "list_all component_wf cs \<Longrightarrow> ''..'' \<notin> set parts \<Longrightarrow> depth_within (length parts) cs \<Longrightarrow>
     \<exists>parts'. foldl normalize_step (False, parts) cs = (False, parts') \<and> ''..'' \<notin> set parts' \<and>
       foldl normalize_path_step (repr_path False parts, False) cs = (repr_path False parts', False)"
proof (induction cs arbitrary: parts)
  case (Cons c cs)
  have *: "c = ParentDir \<Longrightarrow> parts \<noteq> []" using Cons.prems(3) by auto
  obtain parts' where st: "normalize_step (False, parts) c = (False, parts')" "''..'' \<notin> set parts'"
    "normalize_path_step (repr_path False parts, False) c = (repr_path False parts', False)"
    using step_agree [of c parts False] Cons.prems * by auto
  have "depth_within (length parts') cs"
    using Cons.prems st(1,2) by (cases c) (auto split: if_splits)
  with Cons.IH [of parts'] Cons.prems st show ?case by auto
qed simp

lemma component_names: "''..'' \<notin> set parts \<Longrightarrow> map part_component parts = map Normal parts"
  by (auto simp: part_component_def)

lemma normal_forms:
  assumes "path_wf p" and "is_absolute p \<or> stays_within_relative_root p"
  obtains names where "''..'' \<notin> set names"
    "foldl normalize_step (False, []) p = (is_absolute p, names)"
    "normalize_path p = (if is_absolute p \<or> names \<noteq> [] then repr_path (is_absolute p) names else [CurDir])"
proof (cases "is_absolute p")
  case True
  then obtain cs where p: "p = RootDir # cs" by (cases p rule: is_absolute.cases) auto
  with assms(1) have "list_all component_wf cs" by simp
  from fold_agree_rooted [OF this, of "[]"] obtain names where
    "foldl normalize_step (True, []) cs = (True, names)" "''..'' \<notin> set names"
    "foldl normalize_path_step ([RootDir], True) cs = (repr_path True names, True)"
    by (auto simp: repr_path_def)
  with that [of names] p show ?thesis by (simp add: normalize_path_def repr_path_def)
next
  case False
  then have "\<exists>cs. list_all component_wf cs \<and> (p = cs \<or> p = CurDir # cs)"
    using assms(1) by (cases p rule: path_wf.cases) auto
  then obtain cs where cs: "list_all component_wf cs" "p = cs \<or> p = CurDir # cs" by blast
  with False assms(2) have "depth_within 0 cs" by (auto simp: stays_within_relative_root_def)
  with fold_agree_relative [OF cs(1), of "[]"] obtain names where
    "foldl normalize_step (False, []) cs = (False, names)" "''..'' \<notin> set names"
    "foldl normalize_path_step ([], False) cs = (repr_path False names, False)"
    by (auto simp: repr_path_def)
  with that [of names] cs(2) False show ?thesis
    by (auto simp: normalize_path_def repr_path_def)
qed

lemma normalize_path_agrees:
  assumes "path_wf p" and "is_absolute p \<or> stays_within_relative_root p"
  shows "normalize_path p = normalize_workspace_path p"
proof -
  obtain names where n: "''..'' \<notin> set names"
    "foldl normalize_step (False, []) p = (is_absolute p, names)"
    "normalize_path p = (if is_absolute p \<or> names \<noteq> [] then repr_path (is_absolute p) names else [CurDir])"
    by (rule normal_forms [OF assms])
  show ?thesis
    unfolding n(3) normalize_eq [OF n(2)] component_names [OF n(1)]
    by (simp add: repr_path_def)
qed

lemma fold_names_only:
  "''..'' \<notin> set names \<Longrightarrow>
     foldl normalize_step (r, parts) (map Normal names) = (r, parts @ names)"
  using fold_names [of names r parts] by (simp add: component_names)

lemma joined_below_root:
  assumes root: "path_wf root" "is_absolute root"
    and p: "path_wf p" "stays_within_relative_root p"
  shows "\<exists>names. ''..'' \<notin> set names \<and>
    normalize_workspace_path (path_join root (normalize_path p)) =
      normalize_workspace_path root @ map Normal names"
proof -
  have rel: "\<not> is_absolute p"
    using p(2) by (cases p rule: is_absolute.cases) (auto simp: stays_within_relative_root_def)
  obtain names where n1: "''..'' \<notin> set names"
    and "normalize_path p = (if is_absolute p \<or> names \<noteq> [] then repr_path (is_absolute p) names else [CurDir])"
    by (rule normal_forms [OF p(1) disjI2 [OF p(2)]])
  then have n2: "normalize_path p = (if names \<noteq> [] then map Normal names else [CurDir])"
    using rel by (simp add: repr_path_def)
  have "root \<noteq> []" using root(2) by auto
  with n2 have j: "path_join root (normalize_path p) = root @ map Normal names"
    by (cases names) (auto simp: path_join_def)
  obtain r parts where "foldl normalize_step (False, []) root = (r, parts)" "r \<longleftrightarrow> is_absolute root"
    using normalize_parts [OF root(1)] by blast
  with root(2) have f: "foldl normalize_step (False, []) root = (True, parts)" by simp
  have "foldl normalize_step (False, []) (root @ map Normal names) = (True, parts @ names)"
    using f n1 by (simp add: fold_names_only)
  then have "normalize_workspace_path (root @ map Normal names) =
      normalize_workspace_path root @ map Normal names"
    using f n1 by (simp add: normalize_eq component_names)
  with n1 j show ?thesis by auto
qed

section \<open>Well-formed configurations\<close>

definition trimmed :: "string \<Rightarrow> bool" where
  "trimmed s \<longleftrightarrow> s \<noteq> [] \<and> trim s = s"

lemma normalize_optional_Some [simp]:
  "normalize_optional s = Some t \<longleftrightarrow> trim s \<noteq> [] \<and> t = trim s"
  by (auto simp: normalize_optional_def)

lemma trimmed_trim [simp]: "trimmed (trim s) \<longleftrightarrow> trim s \<noteq> []"
  by (simp add: trimmed_def)

lemma env_value_trimmed: "env_value env name = Some v \<Longrightarrow> trimmed v"
  by (auto simp: env_value_def bind_eq_Some_conv)

lemma resolve_string_trimmed: "resolve_string v env f = Ok r \<Longrightarrow> trimmed v \<Longrightarrow> trimmed r"
  by (auto simp: resolve_string_def ok_or_Ok split: option.splits dest: env_value_trimmed)

lemma resolve_default_trimmed:
  "resolve_string_or_default c env f d = Ok r \<Longrightarrow> trimmed d \<Longrightarrow> trimmed r"
  by (auto simp: resolve_string_or_default_def bind_eq_Some_conv split: option.splits
      dest: resolve_string_trimmed)

lemma require_literal_Ok:
  "require_literal v f = Ok r \<longleftrightarrow> (\<exists>s. v = Some s \<and> trim s \<noteq> [] \<and> r = trim s)"
  by (auto simp: require_literal_def ok_or_Ok bind_eq_Some_conv)

lemma literal_list_trimmed: "literal_list vs f = Ok rs \<Longrightarrow> r \<in> set rs \<Longrightarrow> trimmed r"
  by (auto simp: literal_list_def require_literal_Ok dest!: collect_results_set)

lemma literal_list_nonempty: "literal_list vs f = Ok rs \<Longrightarrow> vs \<noteq> [] \<Longrightarrow> rs \<noteq> []"
  by (auto simp: literal_list_def dest: collect_results_length)

lemma reject_duplicates_Ok:
  "reject_duplicates f ci seen vs = Ok u \<longleftrightarrow>
     distinct (map (\<lambda>v. if ci then to_ascii_lowercase v else v) vs) \<and>
     (\<lambda>v. if ci then to_ascii_lowercase v else v) ` set vs \<inter> seen = {}"
  by (induction vs arbitrary: seen) (auto simp: Let_def)

lemma resolve_state_list_wf:
  "resolve_state_list raw f = Ok states \<Longrightarrow> states \<noteq> [] \<and> (\<forall>s \<in> set states. trimmed s)"
  unfolding resolve_state_list_def
proof (elim and_thenE, goal_cases)
  case (1 raw_states)
  then have "raw_states \<noteq> []"
    and r: "collect_results
      (\<lambda>state. ok_or (InvalidField f ''state names must not be empty'') (normalize_optional state))
      raw_states = Ok states"
    by (simp_all split: if_splits)
  with collect_results_length [OF r] collect_results_set [OF r] show ?case
    by (fastforce simp: ok_or_Ok)
qed

definition tracker_wf :: "tracker_config \<Rightarrow> bool" where
  "tracker_wf t \<longleftrightarrow>
     trimmed (tc_endpoint t) \<and> trimmed (tc_api_key t) \<and> trimmed (tc_project_slug t) \<and>
     (\<forall>s \<in> set (tc_project_ids t) \<union> set (tc_project_slugs t). trimmed s) \<and>
     tc_project_slugs t \<noteq> [] \<and>
     distinct (tc_project_ids t) \<and> distinct (map to_ascii_lowercase (tc_project_slugs t)) \<and>
     (tc_project_ids t = [] \<or> length (tc_project_ids t) = length (tc_project_slugs t)) \<and>
     length (tc_project_id_slug_fallbacks t) = length (tc_project_ids t) \<and>
     (\<forall>i. tc_project_id t = Some i \<longrightarrow> tc_project_ids t \<noteq> [] \<and> hd (tc_project_ids t) = i) \<and>
     tc_active_states t \<noteq> [] \<and> tc_terminal_states t \<noteq> [] \<and>
     (\<forall>s \<in> set (tc_active_states t) \<union> set (tc_terminal_states t). trimmed s)"

definition agent_wf :: "agent_config \<Rightarrow> bool" where
  "agent_wf a \<longleftrightarrow>
     0 < agc_max_concurrent_agents a \<and> 0 < agc_max_turns a \<and> 0 < agc_max_retry_backoff_ms a \<and>
     (\<forall>t. agc_stall_timeout_ms a = Some t \<longrightarrow> 0 < t) \<and>
     omap_wf (agc_max_concurrent_agents_by_state a) \<and>
     (\<forall>(k, n) \<in> set (agc_max_concurrent_agents_by_state a). 0 < n)"

definition env_name_ok :: "string \<Rightarrow> bool" where
  "env_name_ok s \<longleftrightarrow> s \<noteq> [] \<and> list_all is_env_name_char s \<and> \<not> is_ascii_digit (hd s)"

definition routing_wf :: "acp_config \<Rightarrow> routing_config \<Rightarrow> bool" where
  "routing_wf acp r \<longleftrightarrow>
     rc_harness r \<in> set supported_names \<and>
     env_name_ok (rc_harness_env r) \<and> env_name_ok (rc_model_env r) \<and> env_name_ok (rc_model_profile_env r) \<and>
     (\<forall>m. rc_model r = Some m \<longrightarrow> trimmed m) \<and>
     (if rc_harness r = ''acp''
      then rc_model_profile r = None \<and>
           (\<exists>i p. rc_harness_profile r = Some i \<and> omap_get (acp_profiles acp) i = Some p)
      else rc_harness_profile r = None) \<and>
     (\<forall>(i, p) \<in> set (acp_profiles acp). valid_id i \<and> acp_profile_validate p = Ok ())"

definition names_only :: "path \<Rightarrow> bool" where
  "names_only p \<longleftrightarrow> p = [CurDir] \<or> (\<exists>names. ''..'' \<notin> set names \<and> p = map Normal names)"

definition llm_wf :: "openhands_llm_config \<Rightarrow> bool" where
  "llm_wf llm \<longleftrightarrow> (\<exists>m. ohm_model llm = Some m \<and> trim m \<noteq> [])"

definition conversation_wf :: "openhands_conversation_config \<Rightarrow> bool" where
  "conversation_wf v \<longleftrightarrow>
     names_only (ohv_persistence_dir_relative v) \<and>
     0 < ohv_max_iterations v \<and> unat (ohv_max_iterations v) < 2 ^ 32 \<and>
     ohv_reuse_policy v \<noteq> [] \<and> trimmed (oha_kind (ohv_agent v)) \<and>
     (\<exists>llm. oha_llm (ohv_agent v) = Some llm \<and> llm_wf llm)"

definition workflow_wf :: "resolved_workflow \<Rightarrow> bool" where
  "workflow_wf w \<longleftrightarrow>
     tracker_wf (wc_tracker (rw_config w)) \<and>
     0 < pc_interval_ms (wc_polling (rw_config w)) \<and>
     is_absolute (wsc_root (wc_workspace (rw_config w))) \<and>
     0 < hkc_timeout_ms (wc_hooks (rw_config w)) \<and>
     agent_wf (wc_agent (rw_config w)) \<and>
     routing_wf (we_acp (rw_extensions w)) (wc_routing (rw_config w)) \<and>
     conversation_wf (ohc_conversation (we_openhands (rw_extensions w)))"

lemma sint_pos: "0 < sint (n :: i64) \<Longrightarrow> 0 < n"
  by (cases "n = 0") (auto simp: word_gt_0)

lemma positive_u64: "resolve_positive_u64 v f d = Ok n \<Longrightarrow> 0 < d \<Longrightarrow> 0 < n"
  by (auto simp: resolve_positive_u64_def result_ok sint_pos not_le split: option.splits if_splits)

lemma default_u64: "resolve_non_positive_to_default v f d = Ok n \<Longrightarrow> 0 < d \<Longrightarrow> 0 < n"
  by (auto simp: resolve_non_positive_to_default_def result_ok sint_pos not_le split: option.splits if_splits)

lemma trimmed_constants:
  "trimmed DEFAULT_LINEAR_ENDPOINT" "trimmed ''per_issue''" "trimmed DEFAULT_OPENHANDS_AGENT_KIND"
  "trimmed DEFAULT_OPENHANDS_LLM_MODEL"
  unfolding trimmed_def DEFAULT_LINEAR_ENDPOINT_def DEFAULT_OPENHANDS_AGENT_KIND_def
    DEFAULT_OPENHANDS_LLM_MODEL_def
  by code_simp+

lemma project_ids_wf:
  assumes ids: "resolve_project_ids t = Ok ids" and c: "check_first_project_id t ids = Ok u"
  shows "(\<forall>s \<in> set ids. trimmed s) \<and>
    (\<forall>i. Option.bind (tfm_project_id t) normalize_optional = Some i \<longrightarrow> ids \<noteq> [] \<and> hd ids = i)"
proof (cases "tfm_project_ids t")
  case None
  then show ?thesis
    using ids c by (auto simp: resolve_project_ids_def check_first_project_id_def result_ok
        require_literal_Ok split: option.splits)
next
  case (Some l)
  with ids have l: "l \<noteq> []" "literal_list l ''tracker.project_ids'' = Ok ids"
    by (auto simp: resolve_project_ids_def split: list.splits)
  then have "ids \<noteq> []" using literal_list_nonempty by blast
  with c show ?thesis
    using literal_list_trimmed [OF l(2)]
    by (cases ids) (auto simp: check_first_project_id_def result_ok require_literal_Ok split: option.splits)
qed

lemma resolve_tracker_wf: "resolve_tracker t env = Ok c \<Longrightarrow> tracker_wf c"
  unfolding resolve_tracker_def Let_def
proof (elim and_thenE, goal_cases)
  case (1 kind e slug ids u slugs u1 u2 u3 u4 api active terminal)
  have slug: "trimmed slug" using 1(3) by (auto simp: require_literal_Ok)
  have "slugs \<noteq> [] \<and> (\<forall>s \<in> set slugs. trimmed s)"
    using 1(6) slug literal_list_trimmed literal_list_nonempty
    by (auto simp: resolve_project_slugs_def split: option.splits list.splits)
  moreover have "trimmed api"
    using 1(11) by (auto simp: resolve_tracker_api_key_def result_ok require_literal_Ok
        split: option.splits dest: env_value_trimmed resolve_string_trimmed)
  moreover have "trimmed e" using 1(2) trimmed_constants(1) by (rule resolve_default_trimmed)
  moreover note project_ids_wf [OF 1(4,5)] resolve_state_list_wf [OF 1(12)]
    resolve_state_list_wf [OF 1(13)]
  moreover have "distinct ids" "distinct (map to_ascii_lowercase slugs)"
    using 1(7,8) by (simp_all add: reject_duplicate_tracker_values_def reject_duplicates_Ok)
  moreover have "ids = [] \<or> length ids = length slugs"
    using 1(9) by (simp add: require_Ok)
  moreover have "length (unwrap_or (tfm_project_id_slug_fallbacks t) (replicate (length ids) False)) = length ids"
    using 1(10) by (simp add: require_Ok)
  ultimately show ?case using slug 1(14) by (auto simp: tracker_wf_def)
qed

lemma resolve_state_limits_from_wf:
  "resolve_state_limits_from lower m raw = Ok r \<Longrightarrow> omap_wf m \<Longrightarrow> (\<forall>(k, n) \<in> set m. 0 < n) \<Longrightarrow>
     omap_wf r \<and> (\<forall>(k, n) \<in> set r. 0 < n)"
proof (induction lower m raw rule: resolve_state_limits_from.induct)
  case (2 lower m state v raw)
  from 2(2) show ?case
    unfolding resolve_state_limits_from.simps
  proof (elim and_thenE, goal_cases)
    case (1 name n)
    then have pos: "0 < sint n"
      and r: "resolve_state_limits_from lower (omap_insert (lower name) n m) raw = Ok r"
      by (simp_all split: if_splits)
    have wf: "omap_wf (omap_insert (lower name) n m)" using 2(3) by (rule omap_wf_insert)
    moreover have "\<forall>(k, v) \<in> set (omap_insert (lower name) n m). 0 < v"
    proof clarify
      fix k v assume "(k, v) \<in> set (omap_insert (lower name) n m)"
      then have "omap_get (omap_insert (lower name) n m) k = Some v"
        using wf by (simp add: omap_get_Some_iff)
      then have "k = lower name \<and> v = n \<or> (k, v) \<in> set m"
        using 2(3) by (auto simp: omap_get_insert omap_get_Some_iff split: if_splits)
      then show "0 < v" using 2(4) pos sint_pos by auto
    qed
    moreover note 2(1) [OF 1(1,2) _ r]
    ultimately show ?case using pos by simp
  qed
qed simp

lemma resolve_agent_wf: "resolve_agent lower a = Ok c \<Longrightarrow> agent_wf c"
  unfolding resolve_agent_def
proof (elim and_thenE, goal_cases)
  case (1 agents turns backoff stall limits)
  have "0 < DEFAULT_MAX_CONCURRENT_AGENTS" "0 < DEFAULT_MAX_TURNS" "0 < DEFAULT_MAX_RETRY_BACKOFF_MS"
    by (simp_all add: DEFAULT_MAX_CONCURRENT_AGENTS_def DEFAULT_MAX_TURNS_def
        DEFAULT_MAX_RETRY_BACKOFF_MS_def)
  then have "0 < agents" "0 < turns" "0 < backoff"
    using 1(1-3) positive_u64 by blast+
  moreover have "\<forall>t. stall = Some t \<longrightarrow> 0 < t"
    using 1(4) by (auto simp: resolve_stall_timeout_def result_ok sint_pos not_le
        DEFAULT_STALL_TIMEOUT_MS_def split: option.splits if_splits)
  moreover have "omap_wf limits \<and> (\<forall>(k, n) \<in> set limits. 0 < n)"
    using 1(5) resolve_state_limits_from_wf
    by (fastforce simp: resolve_state_limits_def split: option.splits)
  ultimately show ?case using 1(6) by (auto simp: agent_wf_def)
qed

lemma validate_env_name_Ok: "validate_env_name v f = Ok u \<longleftrightarrow> env_name_ok v"
  by (cases v) (auto simp: validate_env_name_def require_Ok env_name_ok_def is_env_name_char_def
      is_ascii_digit_def is_ascii_upper_def byte_def)

lemma validate_route_Ok:
  "validate_route acp r = Ok u \<longleftrightarrow>
     (\<forall>(i, p) \<in> set (acp_profiles acp). valid_id i \<and> acp_profile_validate p = Ok ()) \<and>
     (if rc_harness r = ''acp''
      then rc_model_profile r = None \<and>
           (\<exists>i p. rc_harness_profile r = Some i \<and> omap_get (acp_profiles acp) i = Some p)
      else rc_harness_profile r = None)"
  by (cases "rc_harness_profile r")
    (auto simp: validate_route_def validate_selection_def validate_profiles_def
      validate_profile_entry_def result_ok)

lemma resolve_routing_wf:
  assumes "resolve_routing fm env = Ok r" and "validate_route acp r = Ok u"
  shows "routing_wf acp r"
  using assms(1) unfolding resolve_routing_def Let_def
proof (elim and_thenE, goal_cases)
  case (1 he u1 me u2 pe u3 ch u4 m mp)
  let ?h = "unwrap_or (env_value env he) ch"
  have "?h \<in> set supported_names"
    using 1(8) by (simp add: validate_harness_kind_def require_Ok flip: parse_supported)
  moreover have "env_name_ok he" "env_name_ok me" "env_name_ok pe"
    using 1(2,4,6) by (simp_all add: validate_env_name_Ok)
  moreover have "\<forall>x. or_else (env_value env me) (normalize_optional_literal m) = Some x \<longrightarrow> trimmed x"
    by (auto simp: or_else_eq_Some normalize_optional_literal_def bind_eq_Some_conv
        dest: env_value_trimmed)
  moreover note assms(2) [unfolded validate_route_Ok]
  ultimately show ?case
    using 1(11) by (cases "rc_harness r = ''acp''") (auto simp: routing_wf_def)
qed

text \<open>Normalising keeps a path rooted, whatever follows the root.\<close>

lemma normalize_path_step_rooted:
  "is_absolute p \<Longrightarrow> is_absolute (fst (normalize_path_step (p, True) c)) \<and>
     snd (normalize_path_step (p, True) c)"
  by (cases p rule: is_absolute.cases; cases c)
    (auto simp: path_parent_def split: option.splits)

lemma normalize_path_absolute: "is_absolute p \<Longrightarrow> is_absolute (normalize_path p)"
proof -
  have fold: "is_absolute q \<Longrightarrow>
    is_absolute (fst (foldl normalize_path_step (q, True) cs)) \<and>
    snd (foldl normalize_path_step (q, True) cs)" for q cs
  proof (induction cs arbitrary: q)
    case (Cons c cs)
    obtain q' b where s: "normalize_path_step (q, True) c = (q', b)" by fastforce
    with normalize_path_step_rooted [OF Cons.prems, of c] Cons.IH [of q'] show ?case by simp
  qed simp
  assume "is_absolute p"
  then obtain cs where p: "p = RootDir # cs" by (cases p rule: is_absolute.cases) auto
  show ?thesis
    using fold [of "[RootDir]" cs] by (auto simp: normalize_path_def p split: prod.splits)
qed

lemma path_join_absolute: "is_absolute a \<Longrightarrow> is_absolute (path_join a b)"
  by (cases a rule: is_absolute.cases) (auto simp: path_join_def)

lemma resolve_workspace_absolute:
  assumes "resolve_workspace cwd w base env = Ok c" and "\<And>d. cwd = Ok d \<Longrightarrow> is_absolute d"
  shows "is_absolute (wsc_root c)"
  using assms(1) unfolding resolve_workspace_def resolve_workspace_root_def
proof (elim and_thenE, goal_cases)
  case (1 root resolved)
  then have "(\<exists>e. is_absolute e \<and> root = normalize_path e) \<or>
      (\<exists>e b. normalize_workflow_base_dir cwd base = Ok b \<and> root = normalize_path (path_join b e))"
    by (auto simp: result_ok split: if_splits)
  moreover have "is_absolute b" if "normalize_workflow_base_dir cwd base = Ok b" for b
    using that assms(2)
    by (auto simp: normalize_workflow_base_dir_def result_ok normalize_path_absolute
        path_join_absolute split: if_splits)
  ultimately have "is_absolute root"
    by (auto simp: normalize_path_absolute path_join_absolute split: if_splits)
  with 1 show ?case by auto
qed

lemma names_only_normalize:
  assumes "path_wf p" "stays_within_relative_root p" shows "names_only (normalize_path p)"
proof -
  have "\<not> is_absolute p"
    using assms(2) by (cases p rule: is_absolute.cases) (auto simp: stays_within_relative_root_def)
  moreover obtain names where "''..'' \<notin> set names"
    "normalize_path p = (if is_absolute p \<or> names \<noteq> [] then repr_path (is_absolute p) names else [CurDir])"
    by (rule normal_forms [OF assms(1) disjI2 [OF assms(2)]])
  ultimately show ?thesis by (auto simp: names_only_def repr_path_def)
qed

lemma resolve_relative_path_Ok:
  "resolve_relative_path c env f d = Ok p \<Longrightarrow>
     \<exists>s. p = normalize_path (path_from s) \<and> stays_within_relative_root (path_from s)"
  unfolding resolve_relative_path_def Let_def
  by (elim and_thenE) (auto split: if_splits)

lemma max_iterations_wf:
  assumes "resolve_openhands_max_iterations v = Ok n"
  shows "0 < n \<and> unat n < 2 ^ 32"
proof -
  have "0 < DEFAULT_OPENHANDS_MAX_ITERATIONS" by (simp add: DEFAULT_OPENHANDS_MAX_ITERATIONS_def)
  with assms positive_u64 show ?thesis
    by (fastforce simp: resolve_openhands_max_iterations_def result_ok split: if_splits)
qed

lemma resolve_llm_wf: "resolve_openhands_llm b llm env = Ok c \<Longrightarrow> llm_wf c"
  unfolding resolve_openhands_llm_def
proof (elim and_thenE, goal_cases)
  case (1 u1 m0 m u2 mode cmode sub)
  then have "trim m \<noteq> []" "ohm_model c = Some m"
    by (auto simp: require_Ok split: if_splits)
  then show ?case by (simp add: llm_wf_def)
qed

lemma default_agent_wf:
  "trimmed (oha_kind default_openhands_agent)"
  "oha_llm default_openhands_agent = Some default_openhands_llm_config"
  "llm_wf default_openhands_llm_config"
  using trimmed_constants(3,4)
  by (simp_all add: default_openhands_agent_def default_openhands_llm_config_def llm_wf_def trimmed_def)

lemma resolve_openhands_agent_wf:
  "resolve_openhands_agent b a env = Ok c \<Longrightarrow> trimmed (oha_kind c) \<and> (\<exists>llm. oha_llm c = Some llm \<and> llm_wf llm)"
  unfolding resolve_openhands_agent_def
proof (elim and_thenE, goal_cases)
  case (1 u kind llm condenser tools defaults)
  have "trimmed kind"
    using 1(2) trimmed_constants(3) by (auto simp: ok_or_Ok split: option.splits)
  moreover have "llm_wf llm"
    using 1(3) resolve_llm_wf default_agent_wf(3) by (auto split: option.splits)
  ultimately show ?case using 1(7) by auto
qed

lemma resolve_reuse_policy_trimmed:
  assumes "resolve_openhands_reuse_policy c env = Ok r" shows "r \<noteq> []"
  using assms by (auto simp: resolve_openhands_reuse_policy_def result_ok to_ascii_lowercase_def)

lemma resolve_conversation_wf:
  "resolve_openhands_conversation b v env = Ok c \<Longrightarrow> conversation_wf c"
  unfolding resolve_openhands_conversation_def
proof (elim and_thenE, goal_cases)
  case (1 reuse policy agent)
  have agent: "trimmed (oha_kind agent) \<and> (\<exists>llm. oha_llm agent = Some llm \<and> llm_wf llm)"
    using 1(3) resolve_openhands_agent_wf default_agent_wf by (auto split: option.splits)
  from 1(4) obtain dir n where
    dir: "resolve_relative_path (ocfm_persistence_dir_relative v) env
      ''openhands.conversation.persistence_dir_relative'' DEFAULT_OPENHANDS_PERSISTENCE_DIR = Ok dir"
    and n: "resolve_openhands_max_iterations (ocfm_max_iterations v) = Ok n"
    and c: "c = \<lparr>ohv_reuse_policy = reuse, ohv_persistence_dir_relative = dir,
         ohv_max_iterations = n, ohv_stuck_detection = unwrap_or (ocfm_stuck_detection v) True,
         ohv_confirmation_policy = policy, ohv_agent = agent\<rparr>"
    by (auto elim!: and_thenE split: if_splits)
  have "names_only dir"
    using resolve_relative_path_Ok [OF dir] path_from_wf names_only_normalize by blast
  with agent max_iterations_wf [OF n] resolve_reuse_policy_trimmed [OF 1(1)] show ?case
    by (simp add: conversation_wf_def c)
qed

lemma default_inactive_wf: "conversation_wf (ohc_conversation default_inactive_openhands_config)"
proof -
  have "path_from DEFAULT_OPENHANDS_PERSISTENCE_DIR = map Normal [''.opensymphony'', ''openhands'']"
    unfolding DEFAULT_OPENHANDS_PERSISTENCE_DIR_def by code_simp
  then have "names_only (path_from DEFAULT_OPENHANDS_PERSISTENCE_DIR)"
    unfolding names_only_def by (intro disjI2 exI [of _ "[''.opensymphony'', ''openhands'']"]) simp
  with default_agent_wf show ?thesis
    by (simp add: default_inactive_openhands_config_def conversation_wf_def
        DEFAULT_OPENHANDS_MAX_ITERATIONS_def)
qed

lemma resolve_openhands_wf:
  "resolve_openhands up b oh env = Ok c \<Longrightarrow> conversation_wf (ohc_conversation c)"
  unfolding resolve_openhands_def Let_def
  by (elim and_thenE) (auto dest: resolve_conversation_wf)

lemma apply_model_wf:
  assumes "conversation_wf (ohc_conversation c)" and "\<And>m. rc_model r = Some m \<Longrightarrow> trimmed m"
  shows "conversation_wf (ohc_conversation (apply_selected_model_to_openhands r c))"
  using assms
  by (auto simp: apply_selected_model_to_openhands_def conversation_wf_def llm_wf_def trimmed_def
      Let_def split: option.splits)

section \<open>A concrete workflow\<close>

definition demo_env :: environment where
  "demo_env name =
     (if name = ''LINEAR_API_KEY'' then Some '' lin_key ''
      else if name = ''OPENSYMPHONY_MODEL'' then Some ''gpt'' else None)"

definition demo_url :: url where
  "demo_url = \<lparr>url_scheme = ''http'', url_host_of = Some (HDomain ''localhost''), url_username = [],
     url_password = None, url_query = None, url_fragment = None\<rparr>"

definition demo_host :: resolve_host where
  "demo_host = \<lparr>rh_env = demo_env, rh_current_dir = Ok [RootDir, Normal ''srv''],
     rh_lowercase = to_ascii_lowercase, rh_url_parse = (\<lambda>_. Ok demo_url), rh_subscriptions = False\<rparr>"

definition demo_front_matter :: workflow_front_matter where
  "demo_front_matter = workflow_front_matter_default
     \<lparr>wfm_tracker := \<lparr>tfm_kind = Some ''Linear'', tfm_endpoint = None, tfm_api_key = None,
        tfm_project_id = None, tfm_project_slug = Some ''proj'', tfm_project_ids = None,
        tfm_project_slugs = None, tfm_project_id_slug_fallbacks = None,
        tfm_active_states = Some [''Todo''], tfm_terminal_states = Some ['' Done '']\<rparr>\<rparr>"

definition demo_workflow :: workflow_definition where
  "demo_workflow = \<lparr>wd_front_matter = demo_front_matter, wd_prompt_template = ''Fix it''\<rparr>"

lemma is_ok_iff: "is_ok r \<longleftrightarrow> (\<exists>x. r = Ok x)"
  by (cases r) simp_all

lemma demo_sections:
  "is_ok (resolve_tracker (wfm_tracker demo_front_matter) demo_env)"
  "is_ok (resolve_polling (wfm_polling demo_front_matter))"
  "is_ok (resolve_workspace (rh_current_dir demo_host) (wfm_workspace demo_front_matter) [CurDir] demo_env)"
  "is_ok (resolve_hooks (wfm_hooks demo_front_matter))"
  "is_ok (resolve_agent (rh_lowercase demo_host) (wfm_agent demo_front_matter))"
  "is_ok (resolve_openhands (rh_url_parse demo_host) (rh_subscriptions demo_host)
     (wfm_openhands demo_front_matter) demo_env)"
  by code_simp+

lemma demo_routing:
  "map_sum id (\<lambda>r. (rc_harness r, rc_model r, rc_harness_profile r, rc_model_profile r))
     (resolve_routing (wfm_routing demo_front_matter) demo_env) =
   Ok (''openhands_agent_server'', Some ''gpt'', None, None)"
  by code_simp

lemma demo_resolves:
  obtains r where "resolve_workflow demo_host demo_workflow [CurDir] = Ok r"
    and "rc_harness (wc_routing (rw_config r)) = DEFAULT_ROUTING_HARNESS"
    and "rc_model (wc_routing (rw_config r)) = Some ''gpt''"
proof -
  obtain routing where r: "resolve_routing (wfm_routing demo_front_matter) demo_env = Ok routing"
    "rc_harness routing = ''openhands_agent_server''" "rc_model routing = Some ''gpt''"
    "rc_harness_profile routing = None"
    using demo_routing by (cases "resolve_routing (wfm_routing demo_front_matter) demo_env") auto
  have route: "validate_route (wfm_acp demo_front_matter) routing = Ok ()"
    using r by (simp add: validate_route_Ok demo_front_matter_def workflow_front_matter_default_def)
  have "is_ok (resolve_workflow demo_host demo_workflow [CurDir])"
    using demo_sections r route
    by (auto simp: resolve_workflow_def demo_workflow_def is_ok_iff Let_def
        demo_host_def DEFAULT_ROUTING_HARNESS_def)
  then obtain w where w: "resolve_workflow demo_host demo_workflow [CurDir] = Ok w"
    by (auto simp: is_ok_iff)
  then have "wc_routing (rw_config w) = routing"
    unfolding resolve_workflow_def Let_def
    by (elim and_thenE) (auto simp: demo_workflow_def demo_host_def r(1))
  with that [OF w] r show ?thesis by (simp add: DEFAULT_ROUTING_HARNESS_def)
qed

section \<open>Where the model comes from\<close>

text \<open>The text a front matter value stands for: the variable's value for a token, else itself.\<close>

definition token_value :: "environment \<Rightarrow> string \<Rightarrow> string option" where
  "token_value env v = (case parse_env_token v of Some name \<Rightarrow> env_value env name | None \<Rightarrow> Some v)"

lemma resolve_string_value: "resolve_string v env f = Ok r \<longleftrightarrow> token_value env v = Some r"
  by (auto simp: resolve_string_def token_value_def ok_or_Ok split: option.splits)

lemma llm_model:
  "resolve_openhands_llm b llm env = Ok c \<Longrightarrow> ohm_model c = Option.bind (omfm_model llm) (token_value env)"
  unfolding resolve_openhands_llm_def
  by (elim and_thenE) (auto simp: ok_or_Ok resolve_string_value split: if_splits)

definition configured_llm_model :: "environment \<Rightarrow> openhands_front_matter \<Rightarrow> string option" where
  "configured_llm_model env oh =
     (case Option.bind (ocfm_agent (ohfm_conversation oh)) oafm_llm of
        Some llm \<Rightarrow> Option.bind (omfm_model llm) (token_value env)
      | None \<Rightarrow> Some DEFAULT_OPENHANDS_LLM_MODEL)"

definition agent_model :: "openhands_config \<Rightarrow> string option" where
  "agent_model c = Option.bind (oha_llm (ohv_agent (ohc_conversation c))) ohm_model"

lemma conversation_model:
  assumes "resolve_openhands_conversation b v env = Ok c"
  shows "Option.bind (oha_llm (ohv_agent c)) ohm_model =
    (case Option.bind (ocfm_agent v) oafm_llm of
       Some llm \<Rightarrow> Option.bind (omfm_model llm) (token_value env)
     | None \<Rightarrow> Some DEFAULT_OPENHANDS_LLM_MODEL)"
proof -
  have agent: "oha_llm a = Some l \<Longrightarrow> Option.bind (oha_llm a) ohm_model = ohm_model l" for a l
    by simp
  show ?thesis
    using assms unfolding resolve_openhands_conversation_def
  proof (elim and_thenE, goal_cases)
    case (1 reuse policy ag)
    have "Option.bind (oha_llm ag) ohm_model =
      (case Option.bind (ocfm_agent v) oafm_llm of
         Some llm \<Rightarrow> Option.bind (omfm_model llm) (token_value env)
       | None \<Rightarrow> Some DEFAULT_OPENHANDS_LLM_MODEL)"
    proof (cases "ocfm_agent v")
      case None
      with 1(3) show ?thesis by (auto simp: default_openhands_agent_def default_openhands_llm_config_def)
    next
      case (Some a)
      with 1(3) have "resolve_openhands_agent b a env = Ok ag" by simp
      then show ?thesis
        unfolding resolve_openhands_agent_def
        by (elim and_thenE)
          (auto simp: Some default_openhands_llm_config_def llm_model split: option.splits)
    qed
    moreover have "ohv_agent c = ag"
      using 1(4) by (auto elim!: and_thenE split: if_splits)
    ultimately show ?case by simp
  qed
qed

lemma openhands_model:
  "resolve_openhands up b oh env = Ok c \<Longrightarrow> agent_model c = configured_llm_model env oh"
  unfolding resolve_openhands_def Let_def
  by (elim and_thenE) (auto simp: agent_model_def configured_llm_model_def dest: conversation_model)

lemma applied_model:
  assumes "rc_harness r = DEFAULT_ROUTING_HARNESS" and "agent_model c \<noteq> None"
  shows "agent_model (apply_selected_model_to_openhands r c) = or_else (rc_model r) (agent_model c)"
  using assms
  by (cases "rc_model r"; cases "oha_llm (ohv_agent (ohc_conversation c))")
    (auto simp: apply_selected_model_to_openhands_def agent_model_def Let_def)

lemma routing_model:
  "resolve_routing rt env = Ok r \<Longrightarrow>
     rc_model r = or_else (env_value env (rc_model_env r))
       (Option.bind (Option.bind (rtfm_model rt) (token_value env)) normalize_optional)"
  unfolding resolve_routing_def Let_def
  by (elim and_thenE)
    (auto simp: transpose_map_Ok resolve_string_value normalize_optional_literal_def)

section \<open>Properties\<close>

text \<open>C36: whatever a workflow file resolves to is well-formed: project identifiers are
  distinct and paired with as many slugs, state lists are nonempty lists of trimmed names, all
  intervals and limits are positive, the workspace root is absolute, the harness is a known one
  and has a profile exactly when it is ACP, every ACP profile is valid, and the agent has a
  model and a conversation directory without \<open>..\<close>.\<close>

theorem resolved_workflow_well_formed:
  assumes "resolve_workflow host w base = Ok r"
    and "\<And>d. rh_current_dir host = Ok d \<Longrightarrow> is_absolute d"
  shows "workflow_wf r"
  using assms(1) unfolding resolve_workflow_def Let_def
proof (elim and_thenE, goal_cases)
  case (1 routing u tracker polling workspace hooks agent oh)
  have routing: "routing_wf (wfm_acp (wd_front_matter w)) routing"
    using 1(1,2) by (rule resolve_routing_wf)
  have "conversation_wf (ohc_conversation oh)"
    using 1(8) resolve_openhands_wf default_inactive_wf by (auto split: if_splits)
  then have "conversation_wf (ohc_conversation (apply_selected_model_to_openhands routing oh))"
    by (rule apply_model_wf) (use routing in \<open>auto simp: routing_wf_def\<close>)
  moreover have "0 < pc_interval_ms polling"
    using 1(4) positive_u64
    by (fastforce simp: resolve_polling_def result_ok DEFAULT_POLL_INTERVAL_MS_def)
  moreover have "0 < hkc_timeout_ms hooks"
    using 1(6) default_u64
    by (fastforce simp: resolve_hooks_def result_ok DEFAULT_HOOK_TIMEOUT_MS_def)
  moreover have "is_absolute (wsc_root workspace)"
    using 1(5) assms(2) by (rule resolve_workspace_absolute)
  ultimately show ?case
    using resolve_tracker_wf [OF 1(3)] resolve_agent_wf [OF 1(7)] routing 1(9)
    by (auto simp: workflow_wf_def)
qed

theorem resolved_workflow_well_formed_witness:
  "\<exists>r. resolve_workflow demo_host demo_workflow [CurDir] = Ok r \<and> workflow_wf r"
proof -
  obtain r where r: "resolve_workflow demo_host demo_workflow [CurDir] = Ok r"
    by (rule demo_resolves)
  moreover have "workflow_wf r"
    using r by (rule resolved_workflow_well_formed) (auto simp: demo_host_def)
  ultimately show ?thesis by blast
qed

text \<open>C37: when the selected harness is the OpenHands agent server, the server's URL parses
  as http or https, carries no credentials, query or fragment, and either points at the
  loopback interface or uses https together with a session key.\<close>

theorem agent_server_transport_protected:
  assumes "resolve_workflow host w base = Ok r"
    and "rc_harness (wc_routing (rw_config r)) = DEFAULT_ROUTING_HARNESS"
  shows "\<exists>u. rh_url_parse host (oht_base_url (ohc_transport (we_openhands (rw_extensions r)))) = Ok u \<and>
    url_scheme u \<in> {''http'', ''https''} \<and> url_username u = [] \<and> url_password u = None \<and>
    url_query u = None \<and> url_fragment u = None \<and>
    (loopback_host (url_host_of u) \<or>
     url_scheme u = ''https'' \<and>
       oht_session_api_key_env (ohc_transport (we_openhands (rw_extensions r))) \<noteq> None)"
  using assms(1) unfolding resolve_workflow_def Let_def
proof (elim and_thenE, goal_cases)
  case (1 routing u tracker polling workspace hooks agent oh)
  then have "routing = wc_routing (rw_config r)" by auto
  with assms(2) 1 have oh: "resolve_openhands (rh_url_parse host) (rh_subscriptions host)
      (wfm_openhands (wd_front_matter w)) (rh_env host) = Ok oh"
    by simp
  have tr: "ohc_transport (we_openhands (rw_extensions r)) = ohc_transport oh"
    using 1(9) by (auto simp: apply_selected_model_to_openhands_def Let_def split: option.splits)
  show ?case
    using oh unfolding resolve_openhands_def Let_def tr
  proof (elim and_thenE, goal_cases)
    case (1 u1 u2 u3 url auth u4 query ready initial maximum u5 command startup probe senv conv)
    from 1(4) have "validate_openhands_base_url (rh_url_parse host) url = Ok ()"
      by (auto simp: resolve_openhands_base_url_def result_ok)
    with 1(11,17) show ?case
      by (auto simp: validate_openhands_base_url_def validate_remote_transport_def parse_base_url_def
          result_ok Let_def split: if_splits option.splits url_host.splits)
  qed
qed

theorem agent_server_transport_protected_witness:
  "\<exists>r u. resolve_workflow demo_host demo_workflow [CurDir] = Ok r \<and>
     rh_url_parse demo_host (oht_base_url (ohc_transport (we_openhands (rw_extensions r)))) = Ok u \<and>
     loopback_host (url_host_of u)"
proof -
  obtain r where r: "resolve_workflow demo_host demo_workflow [CurDir] = Ok r"
    "rc_harness (wc_routing (rw_config r)) = DEFAULT_ROUTING_HARNESS"
    by (rule demo_resolves)
  from agent_server_transport_protected [OF r] obtain u where
    u: "rh_url_parse demo_host (oht_base_url (ohc_transport (we_openhands (rw_extensions r)))) = Ok u"
    and l: "loopback_host (url_host_of u) \<or> url_scheme u = ''https''" by blast
  from u have "u = demo_url" by (simp add: demo_host_def)
  with l have "loopback_host (url_host_of u)" by (simp add: demo_url_def)
  with r(1) u show ?thesis by blast
qed

text \<open>The model an OpenHands agent runs with is the value of the routing environment
  variable if it is set, else \<open>routing.model\<close>, else the model of the agent's \<open>llm\<close> section,
  else the built-in default; a value written as an environment token stands for that variable.\<close>

theorem agent_model_precedence:
  assumes "resolve_workflow host w base = Ok r"
    and "rc_harness (wc_routing (rw_config r)) = DEFAULT_ROUTING_HARNESS"
  shows "agent_model (we_openhands (rw_extensions r)) =
    or_else (env_value (rh_env host) (rc_model_env (wc_routing (rw_config r))))
      (or_else (Option.bind (Option.bind (rtfm_model (wfm_routing (wd_front_matter w)))
                 (token_value (rh_env host))) normalize_optional)
        (configured_llm_model (rh_env host) (wfm_openhands (wd_front_matter w))))"
  using assms(1) unfolding resolve_workflow_def Let_def
proof (elim and_thenE, goal_cases)
  case (1 routing u tracker polling workspace hooks agent oh)
  then have routing: "routing = wc_routing (rw_config r)" by auto
  with assms(2) 1 have oh: "resolve_openhands (rh_url_parse host) (rh_subscriptions host)
      (wfm_openhands (wd_front_matter w)) (rh_env host) = Ok oh"
    by simp
  from resolve_openhands_wf [OF oh] have "agent_model oh \<noteq> None"
    by (auto simp: conversation_wf_def llm_wf_def agent_model_def)
  with assms(2) routing have "agent_model (apply_selected_model_to_openhands routing oh) =
      or_else (rc_model routing) (agent_model oh)"
    by (simp add: applied_model)
  moreover have "we_openhands (rw_extensions r) = apply_selected_model_to_openhands routing oh"
    using 1(9) by auto
  moreover have "rc_model_env routing = rc_model_env (wc_routing (rw_config r))"
    by (simp add: routing)
  moreover note routing_model [OF 1(1)] openhands_model [OF oh]
  ultimately show ?case by (simp add: or_else_def split: option.splits)
qed

theorem agent_model_precedence_witness:
  "\<exists>r. resolve_workflow demo_host demo_workflow [CurDir] = Ok r \<and>
     agent_model (we_openhands (rw_extensions r)) = Some ''gpt''"
proof -
  obtain r where r: "resolve_workflow demo_host demo_workflow [CurDir] = Ok r"
    "rc_harness (wc_routing (rw_config r)) = DEFAULT_ROUTING_HARNESS"
    and m: "rc_model (wc_routing (rw_config r)) = Some ''gpt''"
    by (rule demo_resolves)
  have "resolve_routing (wfm_routing demo_front_matter) demo_env = Ok (wc_routing (rw_config r))"
    using r(1) unfolding resolve_workflow_def Let_def
    by (elim and_thenE) (auto simp: demo_workflow_def demo_host_def)
  with m have "or_else (env_value demo_env (rc_model_env (wc_routing (rw_config r)))) None = Some ''gpt''"
    using routing_model [of "wfm_routing demo_front_matter" demo_env]
    by (simp add: demo_front_matter_def workflow_front_matter_default_def)
  then have "env_value demo_env (rc_model_env (wc_routing (rw_config r))) = Some ''gpt''"
    by (simp add: or_else_def split: option.splits)
  then have "agent_model (we_openhands (rw_extensions r)) = Some ''gpt''"
    using agent_model_precedence [OF r] by (simp add: demo_host_def)
  with r(1) show ?thesis by blast
qed

text \<open>C38: joined to any absolute workspace root and normalised as the scheduler normalises
  workspace paths, the conversation directory is the normalised root followed by plain names,
  so it never leaves the workspace.\<close>

theorem conversation_dir_contained:
  assumes "resolve_workflow host w base = Ok r" and "path_wf root" and "is_absolute root"
  shows "\<exists>names. ''..'' \<notin> set names \<and>
    normalize_workspace_path (path_join root
      (ohv_persistence_dir_relative (ohc_conversation (we_openhands (rw_extensions r))))) =
    normalize_workspace_path root @ map Normal names"
proof -
  have same: "ohv_persistence_dir_relative (ohc_conversation (apply_selected_model_to_openhands rt c)) =
      ohv_persistence_dir_relative (ohc_conversation c)" for rt c
    by (auto simp: apply_selected_model_to_openhands_def Let_def split: option.splits)
  have "\<exists>s. ohv_persistence_dir_relative (ohc_conversation (we_openhands (rw_extensions r))) =
      normalize_path (path_from s) \<and> stays_within_relative_root (path_from s)"
    using assms(1) unfolding resolve_workflow_def Let_def
  proof (elim and_thenE, goal_cases)
    case (1 routing u tracker polling workspace hooks agent oh)
    show ?case
    proof (cases "rc_harness routing = DEFAULT_ROUTING_HARNESS")
      case True
      with 1(8) have "resolve_openhands (rh_url_parse host) (rh_subscriptions host)
          (wfm_openhands (wd_front_matter w)) (rh_env host) = Ok oh" by simp
      then obtain v where v: "resolve_openhands_conversation (rh_subscriptions host)
          (ohfm_conversation (wfm_openhands (wd_front_matter w))) (rh_env host) = Ok v"
        "ohc_conversation oh = v"
        unfolding resolve_openhands_def Let_def by (elim and_thenE) auto
      from v(1) obtain d where d: "resolve_relative_path
          (ocfm_persistence_dir_relative (ohfm_conversation (wfm_openhands (wd_front_matter w))))
          (rh_env host) ''openhands.conversation.persistence_dir_relative''
          DEFAULT_OPENHANDS_PERSISTENCE_DIR = Ok d" "ohv_persistence_dir_relative v = d"
        unfolding resolve_openhands_conversation_def by (auto elim!: and_thenE split: if_splits)
      with resolve_relative_path_Ok [OF d(1)] v(2) 1(9) same show ?thesis by auto
    next
      case False
      have "normalize_path (path_from DEFAULT_OPENHANDS_PERSISTENCE_DIR) =
          path_from DEFAULT_OPENHANDS_PERSISTENCE_DIR"
        "stays_within_relative_root (path_from DEFAULT_OPENHANDS_PERSISTENCE_DIR)"
        unfolding DEFAULT_OPENHANDS_PERSISTENCE_DIR_def by code_simp+
      then show ?thesis using 1(8,9) False same
        by (intro exI [of _ DEFAULT_OPENHANDS_PERSISTENCE_DIR])
          (auto simp: default_inactive_openhands_config_def)
    qed
  qed
  then obtain s where s: "ohv_persistence_dir_relative (ohc_conversation (we_openhands (rw_extensions r))) =
      normalize_path (path_from s)" "stays_within_relative_root (path_from s)" by blast
  show ?thesis
    unfolding s(1) using assms(2,3) path_from_wf s(2) by (rule joined_below_root)
qed

theorem conversation_dir_contained_witness:
  "\<exists>r names. resolve_workflow demo_host demo_workflow [CurDir] = Ok r \<and> ''..'' \<notin> set names \<and>
    normalize_workspace_path (path_join (path_from ''/ws/COE-1'')
      (ohv_persistence_dir_relative (ohc_conversation (we_openhands (rw_extensions r))))) =
    normalize_workspace_path (path_from ''/ws/COE-1'') @ map Normal names"
proof -
  obtain r where r: "resolve_workflow demo_host demo_workflow [CurDir] = Ok r"
    by (rule demo_resolves)
  have "is_absolute (path_from ''/ws/COE-1'')" by code_simp
  from conversation_dir_contained [OF r path_from_wf this] r show ?thesis by blast
qed

text \<open>An ACP harness is launched from a configured profile whose command and arguments
  contain no environment interpolation and no credential flag, and whose environment is given by
  variable names only.\<close>

theorem acp_launch_is_secret_free:
  assumes "resolve_workflow host w base = Ok r"
    and "rc_harness (wc_routing (rw_config r)) = ''acp''"
  shows "\<exists>i p. rc_harness_profile (wc_routing (rw_config r)) = Some i \<and>
    omap_get (acp_profiles (we_acp (rw_extensions r))) i = Some p \<and>
    trim (ap_command p) \<noteq> [] \<and> CHR ''$'' \<notin> set (ap_command p) \<and>
    (\<forall>a \<in> set (ap_args p). CHR ''$'' \<notin> set a \<and>
       (\<forall>flag \<in> set credential_flags. \<not> eq_ignore_ascii_case (argument_name a) flag)) \<and>
    (\<forall>(k, v) \<in> set (ap_env_refs p). valid_env_name k \<and> valid_env_name v)"
proof -
  have "routing_wf (we_acp (rw_extensions r)) (wc_routing (rw_config r))"
    using assms(1) unfolding resolve_workflow_def Let_def
    by (elim and_thenE) (auto intro: resolve_routing_wf)
  with assms(2) obtain i p where p: "rc_harness_profile (wc_routing (rw_config r)) = Some i"
    "omap_get (acp_profiles (we_acp (rw_extensions r))) i = Some p"
    and all: "\<forall>e \<in> set (acp_profiles (we_acp (rw_extensions r))). acp_profile_validate (snd e) = Ok ()"
    by (fastforce simp: routing_wf_def)
  from p(2) have "(i, p) \<in> set (acp_profiles (we_acp (rw_extensions r)))"
    by (simp add: omap_get_def map_of_SomeD)
  with all have valid: "acp_profile_validate p = Ok ()" by fastforce
  have "trim (ap_command p) \<noteq> [] \<and> \<not> contains_forbidden (ap_command p) \<and>
      \<not> list_ex argument_rejected (ap_args p) \<and>
      \<not> list_ex (\<lambda>(k, v). \<not> valid_env_name k \<or> \<not> valid_env_name v) (ap_env_refs p)"
    using valid unfolding acp_profile_validate_def if_Err_Ok de_Morgan_disj by blast
  then have c: "trim (ap_command p) \<noteq> []" "\<not> contains_forbidden (ap_command p)"
    and a: "\<And>a. a \<in> set (ap_args p) \<Longrightarrow> \<not> argument_rejected a"
    and e: "\<And>x. x \<in> set (ap_env_refs p) \<Longrightarrow> (case x of (k, v) \<Rightarrow> valid_env_name k \<and> valid_env_name v)"
    by (auto simp only: list_ex_iff split: prod.splits)
  have dollar: "\<not> contains_forbidden s \<Longrightarrow> CHR ''$'' \<notin> set s" for s
    unfolding contains_forbidden_def list_ex_iff by blast
  have "CHR ''$'' \<notin> set x \<and> (\<forall>flag \<in> set credential_flags. \<not> eq_ignore_ascii_case (argument_name x) flag)"
    if "x \<in> set (ap_args p)" for x
    using a [OF that] dollar [of x] unfolding argument_rejected_def list_ex_iff by blast
  with p c(1) dollar [OF c(2)] e show ?thesis by blast
qed

definition demo_profile :: acp_profile where
  "demo_profile = \<lparr>ap_command = ''cursor-agent'', ap_args = [''acp'', ''--verbose=1''],
     ap_transport = ''stdio'', ap_protocol_versions = [1],
     ap_env_refs = [(''CURSOR_API_KEY'', ''CURSOR_KEY'')], ap_auth = None,
     ap_required_capabilities = [], ap_extensions = [],
     ap_session = \<lparr>aps_model = None, aps_mode = None, aps_options = []\<rparr>,
     ap_permissions = \<lparr>app_mode = Deny\<rparr>\<rparr>"

definition demo_acp_routing :: routing_front_matter where
  "demo_acp_routing = \<lparr>rtfm_harness = Some ''acp'', rtfm_harness_profile = Some ''cursor'',
     rtfm_model = None, rtfm_model_profile = None, rtfm_harness_env = None, rtfm_model_env = None,
     rtfm_model_profile_env = None\<rparr>"

definition demo_acp_workflow :: workflow_definition where
  "demo_acp_workflow = \<lparr>wd_front_matter = demo_front_matter
     \<lparr>wfm_routing := demo_acp_routing, wfm_acp := \<lparr>acp_profiles = [(''cursor'', demo_profile)]\<rparr>\<rparr>,
     wd_prompt_template = ''Fix it''\<rparr>"

lemma demo_acp_valid: "valid_id ''cursor'' \<and> acp_profile_validate demo_profile = Ok ()"
  by code_simp

lemma demo_acp_routing_ok:
  "map_sum id (\<lambda>r. (rc_harness r, rc_harness_profile r, rc_model_profile r))
     (resolve_routing demo_acp_routing demo_env) = Ok (''acp'', Some ''cursor'', None)"
  by code_simp

theorem acp_launch_is_secret_free_witness:
  "\<exists>r p. resolve_workflow demo_host demo_acp_workflow [CurDir] = Ok r \<and>
     omap_get (acp_profiles (we_acp (rw_extensions r))) ''cursor'' = Some p \<and>
     (\<forall>a \<in> set (ap_args p). CHR ''$'' \<notin> set a)"
proof -
  obtain routing where r: "resolve_routing demo_acp_routing demo_env = Ok routing"
    "rc_harness routing = ''acp''" "rc_harness_profile routing = Some ''cursor''"
    "rc_model_profile routing = None"
    using demo_acp_routing_ok by (cases "resolve_routing demo_acp_routing demo_env") auto
  have route: "validate_route \<lparr>acp_profiles = [(''cursor'', demo_profile)]\<rparr> routing = Ok ()"
    using r demo_acp_valid by (simp add: validate_route_Ok omap_get_def)
  have "is_ok (resolve_workflow demo_host demo_acp_workflow [CurDir])"
    using demo_sections(1-5) r route
    by (auto simp: resolve_workflow_def demo_acp_workflow_def is_ok_iff Let_def
        demo_host_def DEFAULT_ROUTING_HARNESS_def)
  then obtain w where w: "resolve_workflow demo_host demo_acp_workflow [CurDir] = Ok w"
    by (auto simp: is_ok_iff)
  then have "wc_routing (rw_config w) = routing"
    unfolding resolve_workflow_def Let_def
    by (elim and_thenE) (auto simp: demo_acp_workflow_def demo_host_def r(1))
  with acp_launch_is_secret_free [OF w] w r(2,3) show ?thesis by auto
qed

text \<open>C39: a workflow file is split without loss. Printing a front matter block between two
  delimiter lines in front of a prompt and reading it back gives that front matter and that
  prompt, byte for byte; and whatever a file is read as, the prompt is either the whole file or
  its exact remainder after the first closing delimiter line.\<close>

theorem workflow_file_roundtrip:
  assumes "delimiter_line first" "delimiter_line close"
    and "fm = [] \<or> last fm = CHR 0x0A" "no_delimiter fm"
    and "yaml_parse fm = Ok (YMapping entries)" "decode (YMapping entries) = Ok front_matter"
    and "wfm_extensions front_matter = []"
  shows "parse_workflow yaml_parse decode (first @ fm @ close @ prompt) =
      Ok \<lparr>wd_front_matter = front_matter, wd_prompt_template = prompt\<rparr> \<and>
    (parse_workflow yaml_parse decode source = Ok w \<longrightarrow>
      w = \<lparr>wd_front_matter = workflow_front_matter_default, wd_prompt_template = source\<rparr> \<or>
      (\<exists>first' fm' close'. source = first' @ fm' @ close' @ wd_prompt_template w \<and>
         trim_line first' = delimiter \<and> trim_line close' = delimiter \<and> no_delimiter fm' \<and>
         parse_front_matter yaml_parse decode fm' = Ok (Some (wd_front_matter w))))"
proof (intro conjI impI)
  show "parse_workflow yaml_parse decode (first @ fm @ close @ prompt) =
      Ok \<lparr>wd_front_matter = front_matter, wd_prompt_template = prompt\<rparr>"
    using assms split_front_matter_print [OF assms(1-4), of prompt]
    by (simp add: parse_workflow_def parse_front_matter_def omap_keys_def)
  assume w: "parse_workflow yaml_parse decode source = Ok w"
  show "w = \<lparr>wd_front_matter = workflow_front_matter_default, wd_prompt_template = source\<rparr> \<or>
      (\<exists>first' fm' close'. source = first' @ fm' @ close' @ wd_prompt_template w \<and>
         trim_line first' = delimiter \<and> trim_line close' = delimiter \<and> no_delimiter fm' \<and>
         parse_front_matter yaml_parse decode fm' = Ok (Some (wd_front_matter w)))"
  proof (cases "split_front_matter source")
    case None
    with w show ?thesis by (simp add: parse_workflow_def)
  next
    case (Some parts)
    then obtain fm' body where s: "split_front_matter source = Some (fm', body)"
      by (cases parts) auto
    from w s consider
        "parse_front_matter yaml_parse decode fm' = Ok None"
        "w = \<lparr>wd_front_matter = workflow_front_matter_default, wd_prompt_template = source\<rparr>"
      | f where "parse_front_matter yaml_parse decode fm' = Ok (Some f)"
        "w = \<lparr>wd_front_matter = f, wd_prompt_template = body\<rparr>"
      unfolding parse_workflow_def by (auto elim!: and_thenE split: option.splits)
    then show ?thesis
    proof cases
      case 2
      with split_front_matter_parts [OF s] show ?thesis by fastforce
    qed simp
  qed
qed

text \<open>A toy YAML decoder: any nonempty block is the empty mapping.\<close>

definition demo_yaml :: "string \<Rightarrow> string + yaml" where
  "demo_yaml s = (if s = [] then Ok YNull else Ok (YMapping []))"

definition demo_header :: string where "demo_header = ''---'' @ [CHR 0x0D, CHR 0x0A]"
definition demo_block :: string where "demo_block = ''tracker: ---'' @ [CHR 0x0A]"

theorem workflow_file_roundtrip_witness:
  "parse_workflow demo_yaml (\<lambda>_. Ok demo_front_matter)
     (demo_header @ demo_block @ demo_header @ ''Fix it'') =
   Ok \<lparr>wd_front_matter = demo_front_matter, wd_prompt_template = ''Fix it''\<rparr>"
proof -
  have "delimiter_line demo_header" "no_delimiter demo_block"
    unfolding demo_header_def demo_block_def by code_simp+
  then show ?thesis
    using workflow_file_roundtrip [of demo_header demo_header demo_block demo_yaml "[]"
        "\<lambda>_. Ok demo_front_matter" demo_front_matter "''Fix it''"]
    by (simp add: demo_yaml_def demo_block_def demo_front_matter_def workflow_front_matter_default_def)
qed

end
