(* ===== verification/Scheduler_Issue_Properties.thy ===== *)
theory Scheduler_Issue_Properties
  imports Scheduler_Issues Workflow_Properties
begin

text \<open>
  What holds of the scheduler's reading of a workflow and of tracker issues: the harness and the
  limits a resolved workflow leads to, the issue rebuilt from a normalised one, and the agreement
  of the two dispatch filters.
\<close>

section \<open>Lemmas\<close>

lemma insort_key_map: "insort_key f (g x) (map g ys) = map g (insort_key (\<lambda>y. f (g y)) x ys)"
  by (induction ys) simp_all

lemma sort_key_map: "sort_key f (map g xs) = map g (sort_key (\<lambda>x. f (g x)) xs)"
  by (induction xs) (simp_all add: insort_key_map)

lemma ident_Ok [simp]: "map_err SchedulerIdentifierError r = Ok x \<longleftrightarrow> r = Ok x"
  by (rule map_err_Ok)

lemma issue_id_accepted [simp]: "issue_id_new v = Ok x \<longleftrightarrow> trim v \<noteq> [] \<and> x = IssueId v"
  by (simp add: issue_id_new_def)

lemma issue_identifier_accepted [simp]:
  "issue_identifier_new v = Ok x \<longleftrightarrow> trim v \<noteq> [] \<and> x = IssueIdentifier v"
  by (simp add: issue_identifier_new_def)

lemma normalize_blocker_Ok:
  "normalize_blocker b = Ok r \<longleftrightarrow> trim (tb_id b) \<noteq> [] \<and> trim (tb_identifier b) \<noteq> [] \<and>
     r = \<lparr>br_id = Some (IssueId (tb_id b)), br_identifier = Some (IssueIdentifier (tb_identifier b)),
          br_state = Some (ts_name (tb_state b)), br_created_at = None, br_updated_at = None\<rparr>"
  by (auto simp: normalize_blocker_def and_then_Ok)

lemma normalize_sub_issue_Ok:
  "normalize_sub_issue c = Ok r \<longleftrightarrow> trim (tr_id c) \<noteq> [] \<and> trim (tr_identifier c) \<noteq> [] \<and>
     r = \<lparr>ir_id = IssueId (tr_id c), ir_identifier = IssueIdentifier (tr_identifier c),
          ir_state = tr_state c\<rparr>"
  by (auto simp: normalize_sub_issue_def and_then_Ok)

lemma optional_id_Ok [simp]:
  "map_sum id Some (ident (issue_id_new p)) = Ok x \<longleftrightarrow> trim p \<noteq> [] \<and> x = Some (IssueId p)"
  by (cases "trim p = []") (simp_all add: issue_id_new_def string_identifier_new_def eq_commute)

lemma blockers_again:
  "collect_results normalize_blocker bs = Ok rs \<Longrightarrow>
     collect_results normalize_blocker (List.map_filter rebuild_blocker rs) = Ok rs"
proof (induction bs arbitrary: rs)
  case (Cons b bs)
  then obtain r rs' where r: "normalize_blocker b = Ok r" "collect_results normalize_blocker bs = Ok rs'"
    "rs = r # rs'" by (auto simp: and_then_Ok)
  have "\<exists>b'. rebuild_blocker r = Some b' \<and> normalize_blocker b' = Ok r"
    using r(1) by (auto simp: normalize_blocker_Ok rebuild_blocker_def tracker_issue_state_from_name_def Let_def)
  with Cons.IH [OF r(2)] r(3) show ?case by (auto simp: List.map_filter_simps)
qed (simp add: List.map_filter_simps)

lemma sub_issues_again:
  "collect_results normalize_sub_issue cs = Ok rs \<Longrightarrow>
     collect_results normalize_sub_issue (map rebuild_sub_issue rs) = Ok rs"
proof (induction cs arbitrary: rs)
  case (Cons c cs)
  then show ?case
    by (auto simp: and_then_Ok normalize_sub_issue_Ok rebuild_sub_issue_def)
qed simp

lemma datetime_again:
  assumes "timestamp_millis d < 2 ^ 63"
    and "\<And>m. 0 \<le> m \<Longrightarrow> m \<le> max 0 (timestamp_millis d) \<Longrightarrow> from_millis m = Some (m * 1000000)"
  shows "datetime_to_timestamp (timestamp_to_datetime from_millis now (Some (datetime_to_timestamp d))) =
    datetime_to_timestamp d"
proof (cases "timestamp_millis d \<le> 0")
  case True
  then have "timestamp_to_datetime from_millis now (Some (datetime_to_timestamp d)) = 0"
    using assms(2) [of 0] by (simp add: timestamp_to_datetime_def datetime_to_timestamp_def)
  with True show ?thesis by (simp add: datetime_to_timestamp_def timestamp_millis_def)
next
  case False
  let ?m = "timestamp_millis d"
  have "int (unat (of_int ?m :: u64)) = ?m"
    using False assms(1) by (simp add: unsigned_of_int take_bit_int_eq_self)
  then have "timestamp_to_datetime from_millis now (Some (datetime_to_timestamp d)) = ?m * 1000000"
    using False assms by (simp add: timestamp_to_datetime_def datetime_to_timestamp_def)
  then show ?thesis using False by (simp add: datetime_to_timestamp_def timestamp_millis_def)
qed

lemma rebuilt_blockers:
  assumes "collect_results normalize_blocker bs = Ok rs"
  shows "(\<forall>b \<in> set (List.map_filter rebuild_blocker rs). blocker_is_terminal b) \<longleftrightarrow>
    (\<forall>b \<in> set bs. kind_is_terminal (tracker_state_kind_from_name (ts_name (tb_state b))))"
  using assms
proof (induction bs arbitrary: rs)
  case (Cons b bs)
  then obtain r rs' where r: "normalize_blocker b = Ok r" "collect_results normalize_blocker bs = Ok rs'"
    "rs = r # rs'" by (auto simp: and_then_Ok)
  have "\<exists>b'. rebuild_blocker r = Some b' \<and>
      blocker_is_terminal b' = kind_is_terminal (tracker_state_kind_from_name (ts_name (tb_state b)))"
    using r(1) by (auto simp: normalize_blocker_Ok rebuild_blocker_def tracker_issue_state_from_name_def
        blocker_is_terminal_def state_is_terminal_def Let_def)
  with Cons.IH [OF r(2)] r(3) show ?case by (auto simp: List.map_filter_simps)
qed (simp add: List.map_filter_simps)

lemma rebuilt_sub_issues:
  assumes "collect_results normalize_sub_issue cs = Ok rs"
  shows "(\<forall>s \<in> set (map rebuild_sub_issue rs). ref_is_terminal s ts) \<longleftrightarrow>
    (\<forall>s \<in> set cs. ref_is_terminal s ts)"
  using assms
  by (induction cs arbitrary: rs)
    (auto simp: and_then_Ok normalize_sub_issue_Ok rebuild_sub_issue_def ref_is_terminal_def)

lemma normalize_parts_Ok:
  assumes "normalize_tracker_issue t c = Ok n"
  shows "collect_results normalize_blocker (ti_blocked_by t) = Ok (ni_blocked_by n) \<and>
    collect_results normalize_sub_issue (ti_sub_issues t) = Ok (ni_sub_issues n)"
  using assms unfolding normalize_tracker_issue_def by (elim and_thenE) auto

lemma names_nonblank: "k \<in> set supported_names \<Longrightarrow> trim k \<noteq> []"
proof -
  have "list_all (\<lambda>k. trim k \<noteq> []) supported_names" by code_simp
  then show "k \<in> set supported_names \<Longrightarrow> trim k \<noteq> []" by (simp add: list_all_iff)
qed

lemma recovered_route_Ok:
  assumes "hd_harness_kind d \<in> set supported_names - {''rust_native''}"
  shows "(\<forall>kind. is_ok (recovered_route d (Some kind)) \<longleftrightarrow> kind \<in> set supported_names - {''rust_native''}) \<and>
    (\<forall>kind d'. recovered_route d (Some kind) = Ok d' \<longrightarrow> hd_harness_kind d' = kind \<and> hd_model d' = hd_model d)"
proof (intro conjI allI impI)
  fix kind
  show "is_ok (recovered_route d (Some kind)) \<longleftrightarrow> kind \<in> set supported_names - {''rust_native''}"
  proof (cases "kind \<in> set supported_names")
    case True
    then obtain h where h: "kind = harness_kind_as_str h"
      using parse_supported parse_SomeD by (metis not_None_eq)
    moreover have "kind = ''rust_native'' \<longleftrightarrow> h = RustNative" unfolding h by (cases h) simp_all
    ultimately show ?thesis
      using assms names_nonblank [OF True] True
      by (auto simp: recovered_route_def scheduler_harness_capability_def)
  next
    case False
    then have "harness_kind_parse kind = None" using parse_supported by blast
    with False assms show ?thesis
      by (auto simp: recovered_route_def scheduler_harness_capability_def)
  qed
next
  fix kind d' assume "recovered_route d (Some kind) = Ok d'"
  then show "hd_harness_kind d' = kind" "hd_model d' = hd_model d"
    unfolding recovered_route_def by (elim and_thenE; force split: if_splits elim: and_thenE)+
qed

section \<open>Properties\<close>

text \<open>C40: a tracker issue rebuilt from its normalised form, as the scheduler does to retry known
  work between tracker scans, normalises to the same issue again: identity, labels, repository
  binding, blockers, sub-issues and millisecond times are kept.\<close>

theorem rebuilt_issue_roundtrip:
  assumes n: "normalize_tracker_issue t c = Ok n"
    and range: "timestamp_millis (ti_created_at t) < 2 ^ 63" "timestamp_millis (ti_updated_at t) < 2 ^ 63"
    and chrono: "\<And>m. 0 \<le> m \<Longrightarrow>
      m \<le> max 0 (max (timestamp_millis (ti_created_at t)) (timestamp_millis (ti_updated_at t))) \<Longrightarrow>
      from_millis m = Some (m * 1000000)"
  shows "normalize_tracker_issue (tracker_issue_from_normalized from_millis now n) c = Ok n"
proof -
  note parts = normalize_parts_Ok [OF n]
  have sub: "ti_sub_issues t \<noteq> [] \<longleftrightarrow> ni_sub_issues n \<noteq> []"
    using collect_results_length [OF parts [THEN conjunct2]] by (metis length_0_conv)
  have times: "datetime_to_timestamp (timestamp_to_datetime from_millis now
        (Some (datetime_to_timestamp (ti_created_at t)))) = datetime_to_timestamp (ti_created_at t)"
      "datetime_to_timestamp (timestamp_to_datetime from_millis now
        (Some (datetime_to_timestamp (ti_updated_at t)))) = datetime_to_timestamp (ti_updated_at t)"
    using range chrono by (intro datetime_again; simp)+
  have again: "collect_results normalize_blocker (List.map_filter rebuild_blocker (ni_blocked_by n)) = Ok (ni_blocked_by n)"
    "collect_results normalize_sub_issue (map rebuild_sub_issue (ni_sub_issues n)) = Ok (ni_sub_issues n)"
    using parts blockers_again sub_issues_again by blast+
  show ?thesis
    using n times sub unfolding normalize_tracker_issue_def
    by (elim and_thenE)
      (auto simp: tracker_issue_from_normalized_def again and_then_Ok issue_state_from_name_def
        split: option.splits)
qed

definition demo_blocker :: tracker_issue_blocker where
  "demo_blocker = \<lparr>tb_id = ''id-9'', tb_identifier = ''COE-9'', tb_title = ''Schema'',
     tb_state = \<lparr>ts_id = ''s'', ts_name = ''Shipped'', ts_tracker_type = ''completed'', ts_kind = KCompleted\<rparr>\<rparr>"

definition demo_tracker_issue :: tracker_issue where
  "demo_tracker_issue = (demo_issue ''COE-1'' (Some 1) [])
     \<lparr>ti_blocked_by := [demo_blocker], ti_created_at := 1500000000, ti_updated_at := 1700000000\<rparr>"

definition demo_config :: scheduler_config where
  "demo_config = \<lparr>sc_poll_interval_ms = 30000, sc_max_concurrent_agents = 2, sc_max_turns = 20,
     sc_max_concurrent_agents_by_state = [], sc_retry_policy = retry_policy_default,
     sc_max_retry_attempts = None, sc_stall_timeout_ms = None, sc_active_states = [''In Progress''],
     sc_terminal_states = [''Shipped''], sc_tracker_project_id = None, sc_tracker_project_slug = None,
     sc_tracker_project_ids = [], sc_tracker_project_id_slug_fallbacks = [],
     sc_tracker_project_slugs = [],
     sc_routing = \<lparr>rc_harness = ''acp'', rc_harness_profile = Some ''cursor'', rc_model = None,
       rc_model_profile = None, rc_harness_env = ''H'', rc_model_env = ''M'',
       rc_model_profile_env = ''P'', rc_harness_from_env = False, rc_model_from_env = False,
       rc_model_profile_from_env = False, rc_dry_run = False\<rparr>,
     sc_repository_routing = None\<rparr>"

lemma demo_normalizes: "is_ok (normalize_tracker_issue demo_tracker_issue demo_config)"
proof -
  have "trim ''id-9'' \<noteq> []" "trim ''COE-9'' \<noteq> []" "trim (''id-'' @ ''COE-1'') \<noteq> []" "trim ''COE-1'' \<noteq> []"
    by code_simp+
  then show ?thesis
    by (auto simp: is_ok_iff normalize_tracker_issue_def and_then_Ok demo_tracker_issue_def
        demo_issue_def demo_blocker_def normalize_blocker_Ok)
qed

theorem rebuilt_issue_roundtrip_witness:
  "\<exists>n. normalize_tracker_issue demo_tracker_issue demo_config = Ok n \<and>
     normalize_tracker_issue (tracker_issue_from_normalized (\<lambda>m. Some (m * 1000000)) 0 n) demo_config = Ok n"
proof -
  obtain n where n: "normalize_tracker_issue demo_tracker_issue demo_config = Ok n"
    using demo_normalizes by (auto simp: is_ok_iff)
  have "normalize_tracker_issue (tracker_issue_from_normalized (\<lambda>m. Some (m * 1000000)) 0 n) demo_config = Ok n"
    by (rule rebuilt_issue_roundtrip [OF n]) (simp_all add: demo_tracker_issue_def timestamp_millis_def)
  with n show ?thesis by blast
qed

text \<open>The rebuilt issue takes the kind of a blocker's state from the state's name. It is
  dispatchable exactly when every blocker's name is one of the built-in names of finished
  states, so a blocker that the tracker reports as completed under a name of the team's own
  blocks the rebuilt issue, which as reported could be dispatched.\<close>

theorem rebuilt_blocker_judged_by_name:
  assumes n: "normalize_tracker_issue t c = Ok n"
  shows "should_dispatch_issue (tracker_issue_from_normalized from_millis now n) ts \<longleftrightarrow>
      (\<forall>b \<in> set (ti_blocked_by t). kind_is_terminal (tracker_state_kind_from_name (ts_name (tb_state b)))) \<and>
      (\<forall>s \<in> set (ti_sub_issues t). ref_is_terminal s ts)"
  using rebuilt_blockers [OF normalize_parts_Ok [OF n, THEN conjunct1]]
    rebuilt_sub_issues [OF normalize_parts_Ok [OF n, THEN conjunct2], of ts]
  by (simp add: dispatchable_iff tracker_issue_from_normalized_def)

theorem rebuilt_blocker_judged_by_name_witness:
  "\<exists>n. normalize_tracker_issue demo_tracker_issue demo_config = Ok n \<and>
     should_dispatch_issue demo_tracker_issue [''shipped''] \<and>
     \<not> should_dispatch_issue (tracker_issue_from_normalized (\<lambda>m. Some (m * 1000000)) 0 n) [''shipped'']"
proof -
  obtain n where n: "normalize_tracker_issue demo_tracker_issue demo_config = Ok n"
    using demo_normalizes by (auto simp: is_ok_iff)
  have "\<not> kind_is_terminal (tracker_state_kind_from_name ''Shipped'')" by code_simp
  then have "\<not> should_dispatch_issue (tracker_issue_from_normalized (\<lambda>m. Some (m * 1000000)) 0 n) [''shipped'']"
    using rebuilt_blocker_judged_by_name [OF n, of "\<lambda>m. Some (m * 1000000)" 0 "[''shipped'']"]
    by (simp add: demo_tracker_issue_def demo_issue_def demo_blocker_def)
  moreover have "should_dispatch_issue demo_tracker_issue [''shipped'']"
    by (simp add: dispatchable_iff demo_tracker_issue_def demo_issue_def demo_blocker_def
        blocker_is_terminal_def state_is_terminal_def)
  ultimately show ?thesis using n by blast
qed

text \<open>Discovery by summaries and dispatch from full details agree: filtering and ordering
  the summaries of a list of issues gives the summaries of the filtered and ordered list.\<close>

theorem summary_dispatch_agrees:
  "filter_issue_summaries_for_dispatch (map tracker_issue_summary_from_issue issues) ts =
     map tracker_issue_summary_from_issue (filter_issues_for_dispatch issues ts)"
proof -
  have key: "summary_key (tracker_issue_summary_from_issue i) = dispatch_key i" for i
    by (simp add: summary_key_def dispatch_key_def summary_priority_rank_def priority_rank_def
        tracker_issue_summary_from_issue_def)
  have keep: "should_dispatch_issue_summary (tracker_issue_summary_from_issue i) ts =
      should_dispatch_issue i ts" for i
    by (auto simp: should_dispatch_issue_summary_def dispatchable_iff list_ex_iff list_all_iff
        tracker_issue_summary_from_issue_def)
  show ?thesis
    by (simp add: filter_issue_summaries_for_dispatch_def filter_issues_for_dispatch_def
        sort_issues_for_dispatch_def filter_map o_def sort_key_map key keep)
qed

text \<open>A per-state limit of the workflow file applies to an issue exactly when the state
  name, lower-cased as Unicode when the file is read and as ASCII when it is looked up, comes out
  the same; for a name whose Unicode lower case differs from its ASCII one the limit is lost.\<close>

theorem state_limit_applies:
  assumes r: "resolve_workflow host w base = Ok r" and c: "config_from_workflow r = Ok c"
  shows "(state_limit_for (sc_max_concurrent_agents_by_state c) (normalized_state_name s) \<noteq> None \<longleftrightarrow>
      (\<exists>k \<in> fst ` set (unwrap_or (agfm_max_concurrent_agents_by_state (wfm_agent (wd_front_matter w))) []).
         normalized_state_name (rh_lowercase host (trim k)) = normalized_state_name s)) \<and>
    ((\<forall>x. rh_lowercase host x = to_ascii_lowercase x) \<longrightarrow>
      (state_limit_for (sc_max_concurrent_agents_by_state c) (normalized_state_name s) \<noteq> None \<longleftrightarrow>
       (\<exists>k \<in> fst ` set (unwrap_or (agfm_max_concurrent_agents_by_state (wfm_agent (wd_front_matter w))) []).
         normalized_state_name k = normalized_state_name s)))"
proof -
  let ?raw = "agfm_max_concurrent_agents_by_state (wfm_agent (wd_front_matter w))"
  let ?limits = "agc_max_concurrent_agents_by_state (wc_agent (rw_config r))"
  have "resolve_agent (rh_lowercase host) (wfm_agent (wd_front_matter w)) = Ok (wc_agent (rw_config r))"
    using r unfolding resolve_workflow_def Let_def by (elim and_thenE) auto
  then have "resolve_state_limits (rh_lowercase host) ?raw = Ok ?limits"
    unfolding resolve_agent_def
    by (elim and_thenE) (auto dest!: arg_cong [where f = agc_max_concurrent_agents_by_state])
  then have keys: "fst ` set ?limits = (\<lambda>k. rh_lowercase host (trim k)) ` fst ` set (unwrap_or ?raw [])"
  proof (cases ?raw)
    case (Some m)
    with \<open>resolve_state_limits _ _ = _\<close>
    have "resolve_state_limits_from (rh_lowercase host) [] m = Ok ?limits"
      by (simp add: resolve_state_limits_def)
    from resolve_state_limits_from_keys [OF this] Some show ?thesis by (simp add: image_image)
  qed (use \<open>resolve_state_limits _ _ = _\<close> in \<open>simp add: resolve_state_limits_def\<close>)
  have "state_limits_u32 [] ?limits = Ok (sc_max_concurrent_agents_by_state c)"
    using c unfolding config_from_workflow_def Let_def by (elim and_thenE) auto
  from state_limits_u32_keys [OF this] keys
  have final: "fst ` set (sc_max_concurrent_agents_by_state c) =
      (\<lambda>k. normalized_state_name (rh_lowercase host (trim k))) ` fst ` set (unwrap_or ?raw [])"
    by (simp add: image_image)
  have "state_limit_for (sc_max_concurrent_agents_by_state c) (normalized_state_name s) \<noteq> None \<longleftrightarrow>
      normalized_state_name s \<in> fst ` set (sc_max_concurrent_agents_by_state c)"
    by (rule state_limit_for_normalized) (auto simp: final)
  then have iff: "state_limit_for (sc_max_concurrent_agents_by_state c) (normalized_state_name s) \<noteq> None \<longleftrightarrow>
      (\<exists>k \<in> fst ` set (unwrap_or ?raw []).
         normalized_state_name (rh_lowercase host (trim k)) = normalized_state_name s)"
    unfolding final by (metis (no_types, lifting) image_iff)
  have "normalized_state_name (to_ascii_lowercase (trim k)) = normalized_state_name k" for k
    by (simp add: normalized_state_name_def)
  with iff show ?thesis by simp
qed

definition capital_ue :: string where "capital_ue = [CHR 0xC3, CHR 0x9C]"
definition small_ue :: string where "small_ue = [CHR 0xC3, CHR 0xBC]"

definition demo_lowercase :: "string \<Rightarrow> string" where
  "demo_lowercase s = (if s = capital_ue then small_ue else to_ascii_lowercase s)"

definition limited_front_matter :: workflow_front_matter where
  "limited_front_matter = demo_front_matter\<lparr>wfm_agent := (wfm_agent demo_front_matter)
     \<lparr>agfm_max_concurrent_agents_by_state := Some [(capital_ue, ILInteger 1)]\<rparr>\<rparr>"

definition limited_workflow :: workflow_definition where
  "limited_workflow = demo_workflow\<lparr>wd_front_matter := limited_front_matter\<rparr>"

definition limited_host :: resolve_host where
  "limited_host = demo_host\<lparr>rh_lowercase := demo_lowercase\<rparr>"

lemma limited_resolves:
  obtains r c where "resolve_workflow limited_host limited_workflow [CurDir] = Ok r"
    and "config_from_workflow r = Ok c"
proof -
  obtain routing where r: "resolve_routing (wfm_routing demo_front_matter) demo_env = Ok routing"
    "rc_harness routing = ''openhands_agent_server''" "rc_harness_profile routing = None"
    using demo_routing by (cases "resolve_routing (wfm_routing demo_front_matter) demo_env") auto
  have route: "validate_route (wfm_acp demo_front_matter) routing = Ok ()"
    using r by (simp add: validate_route_Ok demo_front_matter_def workflow_front_matter_default_def)
  have agent: "map_sum id (\<lambda>a. (agc_max_concurrent_agents a, agc_max_turns a,
        agc_max_concurrent_agents_by_state a))
      (resolve_agent demo_lowercase (wfm_agent limited_front_matter)) =
    Ok (DEFAULT_MAX_CONCURRENT_AGENTS, DEFAULT_MAX_TURNS, [(small_ue, 1)])"
    by code_simp
  then obtain ag where ag: "resolve_agent demo_lowercase (wfm_agent limited_front_matter) = Ok ag"
    "agc_max_concurrent_agents ag = DEFAULT_MAX_CONCURRENT_AGENTS"
    "agc_max_turns ag = DEFAULT_MAX_TURNS" "agc_max_concurrent_agents_by_state ag = [(small_ue, 1)]"
    by (cases "resolve_agent demo_lowercase (wfm_agent limited_front_matter)") auto
  have "is_ok (resolve_workflow limited_host limited_workflow [CurDir])"
    using demo_sections r route ag
    by (auto simp: resolve_workflow_def limited_workflow_def demo_workflow_def is_ok_iff Let_def
        demo_host_def DEFAULT_ROUTING_HARNESS_def limited_front_matter_def limited_host_def)
  then obtain w where w: "resolve_workflow limited_host limited_workflow [CurDir] = Ok w"
    by (auto simp: is_ok_iff)
  then have "wc_agent (rw_config w) = ag"
    unfolding resolve_workflow_def Let_def
    by (elim and_thenE) (auto simp: limited_workflow_def limited_host_def ag(1))
  with ag have "is_ok (config_from_workflow w)"
    by (simp add: config_from_workflow_def Let_def u32_try_from_def DEFAULT_MAX_CONCURRENT_AGENTS_def
        DEFAULT_MAX_TURNS_def)
  with that [OF w] show ?thesis by (auto simp: is_ok_iff)
qed

theorem state_limit_applies_witness:
  "\<exists>r c. resolve_workflow limited_host limited_workflow [CurDir] = Ok r \<and>
     config_from_workflow r = Ok c \<and>
     state_limit_for (sc_max_concurrent_agents_by_state c) (normalized_state_name capital_ue) = None"
proof -
  obtain r c where r: "resolve_workflow limited_host limited_workflow [CurDir] = Ok r"
    and c: "config_from_workflow r = Ok c" by (rule limited_resolves)
  have "normalized_state_name (demo_lowercase (trim capital_ue)) \<noteq> normalized_state_name capital_ue"
    by code_simp
  then have "state_limit_for (sc_max_concurrent_agents_by_state c) (normalized_state_name capital_ue) = None"
    using state_limit_applies [OF r c, THEN conjunct1, of capital_ue]
    by (simp add: limited_workflow_def limited_front_matter_def limited_host_def)
  with r c show ?thesis by blast
qed

text \<open>An issue runs on the harness, profile and model its workflow selects, or not at all:
  the one harness the loader accepts and the scheduler refuses is \<open>rust_native\<close>. A recovered run
  keeps the harness it was started on, whatever the workflow selects now, together with the
  current model.\<close>

theorem issue_route_follows_workflow:
  assumes r: "resolve_workflow host w base = Ok r" and c: "config_from_workflow r = Ok c"
  shows "(is_ok (decide_issue_route issue c) \<longleftrightarrow> rc_harness (wc_routing (rw_config r)) \<noteq> ''rust_native'') \<and>
    (\<forall>d. decide_issue_route issue c = Ok d \<longrightarrow>
       hd_harness_kind d = rc_harness (wc_routing (rw_config r)) \<and>
       hd_harness_profile d = rc_harness_profile (wc_routing (rw_config r)) \<and>
       hd_model d = rc_model (wc_routing (rw_config r)) \<and>
       (\<forall>kind. is_ok (recovered_route d (Some kind)) \<longleftrightarrow> kind \<in> set supported_names - {''rust_native''}) \<and>
       (\<forall>kind d'. recovered_route d (Some kind) = Ok d' \<longrightarrow>
          hd_harness_kind d' = kind \<and> hd_model d' = hd_model d))"
proof -
  let ?h = "rc_harness (wc_routing (rw_config r))"
  have "?h \<in> set supported_names"
    using r resolve_routing_wf unfolding resolve_workflow_def Let_def
    by (elim and_thenE) (fastforce simp: routing_wf_def)
  then obtain h where h: "?h = harness_kind_as_str h"
    using parse_supported parse_SomeD by (metis not_None_eq)
  have routing: "sc_routing c = wc_routing (rw_config r)"
    using c unfolding config_from_workflow_def Let_def
    by (elim and_thenE) (auto dest!: arg_cong [where f = sc_routing])
  have refused: "harness_kind_as_str k = ''rust_native'' \<longleftrightarrow> k = RustNative" for k
    by (cases k) simp_all
  have startable: "is_ok (decide_issue_route issue c) \<longleftrightarrow> h \<noteq> RustNative"
    by (simp add: decide_issue_route_def Let_def routing h scheduler_harness_capability_def)
  {
    fix d assume d: "decide_issue_route issue c = Ok d"
    with startable have "h \<noteq> RustNative" by (auto simp: is_ok_iff)
    moreover have fields: "hd_harness_kind d = ?h \<and>
        hd_harness_profile d = rc_harness_profile (wc_routing (rw_config r)) \<and>
        hd_model d = rc_model (wc_routing (rw_config r))"
      using d routing unfolding decide_issue_route_def Let_def
      by (elim and_thenE) (auto split: if_splits)
    ultimately have "hd_harness_kind d \<in> set supported_names - {''rust_native''}"
      using \<open>?h \<in> set supported_names\<close> refused h by simp
    note recovered_route_Ok [OF this] fields
  }
  moreover have "is_ok (decide_issue_route issue c) \<longleftrightarrow> ?h \<noteq> ''rust_native''"
    unfolding startable h refused by (rule refl)
  ultimately show ?thesis by blast
qed

theorem issue_route_follows_workflow_witness:
  "\<forall>issue. \<exists>r c. resolve_workflow limited_host limited_workflow [CurDir] = Ok r \<and>
     config_from_workflow r = Ok c \<and>
     (is_ok (decide_issue_route issue c) \<longleftrightarrow> rc_harness (wc_routing (rw_config r)) \<noteq> ''rust_native'')"
proof
  fix issue
  obtain r c where r: "resolve_workflow limited_host limited_workflow [CurDir] = Ok r"
    and c: "config_from_workflow r = Ok c" by (rule limited_resolves)
  then show "\<exists>r c. resolve_workflow limited_host limited_workflow [CurDir] = Ok r \<and>
     config_from_workflow r = Ok c \<and>
     (is_ok (decide_issue_route issue c) \<longleftrightarrow> rc_harness (wc_routing (rw_config r)) \<noteq> ''rust_native'')"
    using issue_route_follows_workflow [OF r c, of issue] by blast
qed

end
