(* ===== verification/Planning_Model.thy ===== *)
theory Planning_Model
  imports Results Issues Repository
begin

text \<open>
  The data of \<open>opensymphony-planning\<close>: \<open>generator/domain.rs\<close> (task ids, planned milestones, issues
  and sub-issues, the manifest, the artifacts of a plan and the scope of a regeneration). A
  \<open>BTreeSet\<close> is the ascending list of its elements, a \<open>BTreeMap\<close> an ordered map.
\<close>

section \<open>Maps and sets\<close>

text \<open>\<open>map.entry(k).or_insert(d)\<close> followed by an update of the entry, and \<open>set.extend(xs)\<close>.\<close>

definition omap_update :: "'k::linorder \<Rightarrow> 'v \<Rightarrow> ('v \<Rightarrow> 'v) \<Rightarrow> ('k, 'v) omap \<Rightarrow> ('k, 'v) omap" where
  "omap_update k d f m = omap_insert k (f (unwrap_or (omap_get m k) d)) m"

definition set_extend :: "'a::linorder list \<Rightarrow> 'a list \<Rightarrow> 'a list" where
  "set_extend xs s = fold insort_insert xs s"

definition set_of_list :: "'a::linorder list \<Rightarrow> 'a list" where
  "set_of_list xs = set_extend xs []"

lemma set_set_extend [simp]: "set (set_extend xs s) = set xs \<union> set s"
  by (induction xs arbitrary: s) (auto simp: set_extend_def set_insort_insert)

lemma set_set_of_list [simp]: "set (set_of_list xs) = set xs"
  by (simp add: set_of_list_def)

lemma sorted_set_extend: "sorted s \<Longrightarrow> sorted (set_extend xs s)"
  by (induction xs arbitrary: s) (auto simp: set_extend_def sorted_insort_insert)

lemma distinct_set_extend: "distinct s \<Longrightarrow> distinct (set_extend xs s)"
  by (induction xs arbitrary: s) (auto simp: set_extend_def distinct_insort_insert)

lemma sorted_set_of_list [simp]: "sorted (set_of_list xs)"
  by (simp add: set_of_list_def sorted_set_extend)

lemma distinct_set_of_list [simp]: "distinct (set_of_list xs)"
  by (simp add: set_of_list_def distinct_set_extend)

lemma omap_get_update:
  "omap_get (omap_update k d f m) = (omap_get m)(k \<mapsto> f (unwrap_or (omap_get m k) d))"
  by (simp add: omap_update_def omap_get_insert)

lemma omap_wf_update: "omap_wf m \<Longrightarrow> omap_wf (omap_update k d f m)"
  by (simp add: omap_update_def omap_wf_insert)

lemma sort_key_Nil_iff [simp]: "sort_key f xs = [] \<longleftrightarrow> xs = []"
  by (metis length_0_conv length_sort)

section \<open>Tasks\<close>

datatype task_id = TaskId (task_id_str: string)

instantiation task_id :: linorder
begin

definition less_eq_task_id :: "task_id \<Rightarrow> task_id \<Rightarrow> bool" where
  "less_eq_task_id x y \<longleftrightarrow> task_id_str x \<le> task_id_str y"

definition less_task_id :: "task_id \<Rightarrow> task_id \<Rightarrow> bool" where
  "less_task_id x y \<longleftrightarrow> task_id_str x < task_id_str y"

instance
  by standard (auto simp: less_eq_task_id_def less_task_id_def task_id.expand)

end

record acceptance_criterion =
  ac_description :: string
  ac_verification_command :: "string option"

datatype task_priority = Urgent | High | Normal | Low

definition task_priority_default :: task_priority where "task_priority_default = Normal"

fun as_linear_priority :: "task_priority \<Rightarrow> u8" where
  "as_linear_priority Urgent = 1"
| "as_linear_priority High = 2"
| "as_linear_priority Normal = 3"
| "as_linear_priority Low = 4"

record planned_sub_issue =
  psi_id :: task_id
  psi_title :: string
  psi_summary :: string
  psi_scope_in :: "string list"
  psi_scope_out :: "string list"
  psi_deliverables :: "string list"
  psi_acceptance_criteria :: "acceptance_criterion list"
  psi_verification_steps :: "string list"
  psi_context :: "string list"
  psi_definition_of_ready :: "string list"
  psi_notes :: "string option"
  psi_priority :: task_priority
  psi_estimate :: "u8 option"
  psi_blocked_by :: "task_id list"
  psi_blocks :: "task_id list"
  psi_task_file :: "string option"
  psi_repository :: "string option"

record planned_issue =
  pli_id :: task_id
  pli_title :: string
  pli_summary :: string
  pli_scope_in :: "string list"
  pli_scope_out :: "string list"
  pli_deliverables :: "string list"
  pli_acceptance_criteria :: "acceptance_criterion list"
  pli_verification_steps :: "string list"
  pli_context :: "string list"
  pli_definition_of_ready :: "string list"
  pli_notes :: "string option"
  pli_priority :: task_priority
  pli_estimate :: "u8 option"
  pli_blocked_by :: "task_id list"
  pli_blocks :: "task_id list"
  pli_sub_issues :: "planned_sub_issue list"
  pli_task_file :: "string option"
  pli_repository :: "string option"

record planned_milestone =
  plm_id :: task_id
  plm_name :: string
  plm_goal :: string
  plm_issues :: "planned_issue list"
  plm_acceptance_criteria :: "acceptance_criterion list"
  plm_verification_steps :: "string list"
  plm_notes :: "string option"

section \<open>The manifest and the artifacts\<close>

record manifest_task =
  mft_id :: task_id
  mft_file :: string

record task_package_manifest =
  tpm_planning_wave :: string
  tpm_tasks_dir :: string
  tpm_milestones :: "string list"
  tpm_tasks :: "manifest_task list"
  tpm_routing_mode :: repository_routing_mode
  tpm_repository_aliases :: "string list"

record plan_artifacts =
  pa_generated_at :: date_time
  pa_planning_wave :: string
  pa_milestones :: "planned_milestone list"
  pa_manifest :: task_package_manifest
  pa_milestone_index :: string
  pa_task_files :: "(task_id, string) omap"

section \<open>Scopes\<close>

datatype regeneration_scope =
    FullScope
  | MilestonesScope
  | IssuesScope "task_id list option"
  | SubIssuesScope "task_id list option"
  | ManifestScope
  | MilestoneIndexScope

definition includes_milestones :: "regeneration_scope \<Rightarrow> bool" where
  "includes_milestones s \<longleftrightarrow> s \<in> {FullScope, MilestonesScope}"

fun is_issues_scope :: "regeneration_scope \<Rightarrow> bool" where
  "is_issues_scope (IssuesScope _) = True"
| "is_issues_scope _ = False"

fun is_sub_issues_scope :: "regeneration_scope \<Rightarrow> bool" where
  "is_sub_issues_scope (SubIssuesScope _) = True"
| "is_sub_issues_scope _ = False"

definition includes_issues :: "regeneration_scope \<Rightarrow> bool" where
  "includes_issues s \<longleftrightarrow> s \<in> {FullScope, MilestonesScope} \<or> is_issues_scope s"

definition includes_sub_issues :: "regeneration_scope \<Rightarrow> bool" where
  "includes_sub_issues s \<longleftrightarrow> s \<in> {FullScope, MilestonesScope} \<or> is_sub_issues_scope s"

definition includes_manifest :: "regeneration_scope \<Rightarrow> bool" where
  "includes_manifest s \<longleftrightarrow> s \<in> {FullScope, ManifestScope} \<or> includes_milestones s \<or>
     includes_issues s \<or> includes_sub_issues s"

definition includes_milestone_index :: "regeneration_scope \<Rightarrow> bool" where
  "includes_milestone_index s \<longleftrightarrow> s \<in> {FullScope, MilestoneIndexScope} \<or> includes_milestones s \<or>
     includes_issues s \<or> includes_sub_issues s"

definition includes_task_files :: "regeneration_scope \<Rightarrow> bool" where
  "includes_task_files s \<longleftrightarrow> s \<in> {FullScope, MilestonesScope} \<or> includes_issues s \<or>
     includes_sub_issues s"

section \<open>Views of a plan\<close>

text \<open>The trait \<open>BlockingTask\<close>: id, blockers and blocked tasks of an issue or a sub-issue.\<close>

record blocking_task =
  bt_id :: task_id
  bt_blocked_by :: "task_id list"
  bt_blocks :: "task_id list"

definition issue_task :: "planned_issue \<Rightarrow> blocking_task" where
  "issue_task i = \<lparr>bt_id = pli_id i, bt_blocked_by = pli_blocked_by i, bt_blocks = pli_blocks i\<rparr>"

definition sub_issue_task :: "planned_sub_issue \<Rightarrow> blocking_task" where
  "sub_issue_task s = \<lparr>bt_id = psi_id s, bt_blocked_by = psi_blocked_by s, bt_blocks = psi_blocks s\<rparr>"

text \<open>The tasks in the order in which every walk over a plan visits them: an issue, then its
  sub-issues.\<close>

definition issue_tasks :: "planned_issue \<Rightarrow> blocking_task list" where
  "issue_tasks i = issue_task i # map sub_issue_task (pli_sub_issues i)"

definition plan_tasks :: "planned_milestone list \<Rightarrow> blocking_task list" where
  "plan_tasks ms = concat (map (\<lambda>m. concat (map issue_tasks (plm_issues m))) ms)"

end
