(* ===== verification/Planning_Dependencies.thy ===== *)
theory Planning_Dependencies
  imports Planning_Model
begin

text \<open>
  The dependency graph of a plan: \<open>validate_dependency_graph\<close> of \<open>generator/generator.rs\<close>, a
  depth-first search that fails on a task it meets while still visiting it, and the creation-order
  waves and the inverse blocker map of \<open>graph_validate/checks.rs\<close>.
\<close>

datatype generation_error = IncompleteSession string | CircularDependency string

fun generation_error_display :: "generation_error \<Rightarrow> string" where
  "generation_error_display (IncompleteSession s) = ''planning session is incomplete: missing '' @ s"
| "generation_error_display (CircularDependency s) = ''circular dependency detected: '' @ s"

section \<open>The dependency map\<close>

definition add_dependency_edges ::
  "(task_id, task_id list) omap \<Rightarrow> blocking_task \<Rightarrow> (task_id, task_id list) omap" where
  "add_dependency_edges m task =
     fold (\<lambda>blocked. omap_update blocked [] (insort_insert (bt_id task))) (bt_blocks task)
       (omap_update (bt_id task) [] (set_extend (bt_blocked_by task)) m)"

definition build_dependency_map :: "plan_artifacts \<Rightarrow> (task_id, task_id list) omap" where
  "build_dependency_map artifacts =
     foldl add_dependency_edges [] (plan_tasks (pa_milestones artifacts))"

definition dependencies :: "(task_id, task_id list) omap \<Rightarrow> task_id \<Rightarrow> task_id list" where
  "dependencies dep_map t = unwrap_or (omap_get dep_map t) []"

section \<open>The search\<close>

text \<open>A visited task is marked \<open>True\<close> while its dependencies are being visited, \<open>False\<close> after.
  The search returns the marks; the recursion ends because every call marks a new task.\<close>

definition dep_nodes :: "(task_id, task_id list) omap \<Rightarrow> task_id set" where
  "dep_nodes dep_map = (\<Union>(t, ds) \<in> set dep_map. set ds)"

lemma finite_dep_nodes [simp]: "finite (dep_nodes dep_map)"
  by (auto simp: dep_nodes_def)

lemma dependencies_nodes: "set (dependencies dep_map t) \<subseteq> dep_nodes dep_map"
  by (cases "omap_get dep_map t")
    (auto simp: dependencies_def dep_nodes_def omap_get_def dest!: map_of_SomeD)

definition cycle_error :: "task_id \<Rightarrow> generation_error" where
  "cycle_error t = CircularDependency (''Cycle detected involving task '' @ task_id_str t)"

type_synonym marks = "task_id \<Rightarrow> bool option"

lemma marking_shrinks:
  assumes "visited t = None"
  shows "card (set (dependencies dep_map t) \<union> dep_nodes dep_map - dom (visited(t \<mapsto> True))) <
    card (insert t (dep_nodes dep_map) - dom visited)"
proof (rule psubset_card_mono)
  show "set (dependencies dep_map t) \<union> dep_nodes dep_map - dom (visited(t \<mapsto> True)) \<subset>
      insert t (dep_nodes dep_map) - dom visited"
    using assms dependencies_nodes [of dep_map t] by auto
qed simp

function
  visit_task :: "(task_id, task_id list) omap \<Rightarrow> marks \<Rightarrow> task_id \<Rightarrow> generation_error + marks" and
  visit_all :: "(task_id, task_id list) omap \<Rightarrow> marks \<Rightarrow> task_id list \<Rightarrow> generation_error + marks"
where
  "visit_task dep_map visited t =
     (case visited t of
        Some in_progress \<Rightarrow> if in_progress then Err (cycle_error t) else Ok visited
      | None \<Rightarrow> and_then (visit_all dep_map (visited(t \<mapsto> True)) (dependencies dep_map t))
                  (\<lambda>visited'. Ok (visited'(t \<mapsto> False))))"
| "visit_all dep_map visited [] = Ok visited"
| "visit_all dep_map visited (t # ts) =
     and_then (visit_task dep_map visited t) (\<lambda>visited'. visit_all dep_map visited' ts)"
  by pat_completeness auto

termination
proof (relation "inv_image (less_than <*lex*> less_than)
    (case_sum (\<lambda>(m, v, t). (card (insert t (dep_nodes m) - dom v), 0))
      (\<lambda>(m, v, ts). (card (set ts \<union> dep_nodes m - dom v), Suc (length ts))))")
  fix dep_map t and visited :: marks
  assume "visited t = None"
  then have "card (set (dependencies dep_map t) \<union> dep_nodes dep_map - dom (visited(t \<mapsto> True))) <
      card (insert t (dep_nodes dep_map) - dom visited)"
    by (rule marking_shrinks)
  then
  show "(Inr (dep_map, visited(t \<mapsto> True), dependencies dep_map t), Inl (dep_map, visited, t)) \<in>
      inv_image (less_than <*lex*> less_than)
        (case_sum (\<lambda>(m, v, t). (card (insert t (dep_nodes m) - dom v), 0))
          (\<lambda>(m, v, ts). (card (set ts \<union> dep_nodes m - dom v), Suc (length ts))))"
    by simp
next
  fix dep_map t and visited :: marks and ts :: "task_id list"
  have "card (insert t (dep_nodes dep_map) - dom visited) \<le>
      card (set (t # ts) \<union> dep_nodes dep_map - dom visited)"
    by (rule card_mono) auto
  then show "(Inl (dep_map, visited, t), Inr (dep_map, visited, t # ts)) \<in>
      inv_image (less_than <*lex*> less_than)
        (case_sum (\<lambda>(m, v, t). (card (insert t (dep_nodes m) - dom v), 0))
          (\<lambda>(m, v, ts). (card (set ts \<union> dep_nodes m - dom v), Suc (length ts))))"
    by auto
next
  have visit_grows:
    "visit_task_visit_all_dom (Inl (dep_map, visited, t)) \<Longrightarrow>
       (\<And>visited'. visit_task dep_map visited t = Ok visited' \<Longrightarrow> dom visited \<subseteq> dom visited')"
    "visit_task_visit_all_dom (Inr (dep_map, visited, ts)) \<Longrightarrow>
       (\<And>visited'. visit_all dep_map visited ts = Ok visited' \<Longrightarrow> dom visited \<subseteq> dom visited')"
    for dep_map visited t ts
  proof (induction rule: visit_task_visit_all.pinduct)
    case (1 dep_map visited t)
    show ?case
    proof (cases "visited t")
      case None
      with 1(3) obtain v where "visit_all dep_map (visited(t \<mapsto> True)) (dependencies dep_map t) = Ok v"
        and v: "visited' = v(t \<mapsto> False)"
        unfolding visit_task.psimps [OF 1(1)] by (auto elim: and_thenE)
      with 1(2) [OF None] have "dom (visited(t \<mapsto> True)) \<subseteq> dom v" by blast
      then show ?thesis unfolding v dom_fun_upd by (simp only: option.distinct if_False) blast
    next
      case (Some b)
      with 1(3) show ?thesis unfolding visit_task.psimps [OF 1(1)] by (auto split: if_splits)
    qed
  next
    case (3 dep_map visited t ts)
    from 3(4) obtain v where "visit_task dep_map visited t = Ok v" "visit_all dep_map v ts = Ok visited'"
      unfolding visit_all.psimps(2) [OF 3(1)] by (rule and_thenE)
    with 3(2,3) show ?case by blast
  qed (simp add: visit_all.psimps)
  fix dep_map visited t ts visited'
  assume "visit_task_visit_all_dom (Inl (dep_map, visited, t))"
    and "visit_task dep_map visited t = Ok visited'"
  then have "dom visited \<subseteq> dom visited'" by (rule visit_grows(1))
  then have "card (set ts \<union> dep_nodes dep_map - dom visited') \<le>
      card (set (t # ts) \<union> dep_nodes dep_map - dom visited)"
    by (intro card_mono) auto
  then show "(Inr (dep_map, visited', ts), Inr (dep_map, visited, t # ts)) \<in>
      inv_image (less_than <*lex*> less_than)
        (case_sum (\<lambda>(m, v, t). (card (insert t (dep_nodes m) - dom v), 0))
          (\<lambda>(m, v, ts). (card (set ts \<union> dep_nodes m - dom v), Suc (length ts))))"
    by auto
qed (intro wf_inv_image wf_lex_prod wf_less_than)

declare visit_task.simps [simp del]

definition validate_dependency_graph :: "plan_artifacts \<Rightarrow> generation_error + unit" where
  "validate_dependency_graph artifacts =
     and_then (visit_all (build_dependency_map artifacts) (\<lambda>_. None)
       (map bt_id (plan_tasks (pa_milestones artifacts)))) (\<lambda>_. Ok ())"

section \<open>Creation-order waves\<close>

definition ready_tasks :: "(task_id, task_id list) omap \<Rightarrow> task_id list" where
  "ready_tasks remaining = map fst (filter (\<lambda>(t, deps). deps = []) remaining)"

definition finish_wave ::
  "task_id list \<Rightarrow> (task_id, task_id list) omap \<Rightarrow> (task_id, task_id list) omap" where
  "finish_wave current remaining =
     map (\<lambda>(t, deps). (t, filter (\<lambda>d. d \<notin> set current) deps))
       (filter (\<lambda>(t, deps). t \<notin> set current) remaining)"

lemma finish_wave_shrinks:
  assumes "ready_tasks remaining \<noteq> []"
  shows "length (finish_wave (ready_tasks remaining) remaining) < length remaining"
proof -
  obtain t where t: "(t, []) \<in> set remaining"
    using assms by (auto simp: ready_tasks_def filter_empty_conv)
  then have "t \<in> set (ready_tasks remaining)" by (force simp: ready_tasks_def)
  then have "\<exists>x \<in> set remaining. \<not> (\<lambda>(t, deps). t \<notin> set (ready_tasks remaining)) x" using t by blast
  then show ?thesis
    using length_filter_less [of _ remaining] by (fastforce simp: finish_wave_def)
qed

function topo_waves :: "(task_id, task_id list) omap \<Rightarrow> task_id list list" where
  "topo_waves remaining =
     (if remaining = [] \<or> ready_tasks remaining = [] then []
      else ready_tasks remaining # topo_waves (finish_wave (ready_tasks remaining) remaining))"
  by pat_completeness auto
termination
  by (relation "measure length") (auto simp: finish_wave_shrinks)

declare topo_waves.simps [simp del]

definition blocker_map :: "plan_artifacts \<Rightarrow> (task_id, task_id list) omap" where
  "blocker_map artifacts =
     foldl (\<lambda>m task. omap_update (bt_id task) [] (set_extend (bt_blocked_by task)) m) []
       (plan_tasks (pa_milestones artifacts))"

definition creation_order_waves :: "plan_artifacts \<Rightarrow> task_id list list" where
  "creation_order_waves artifacts = topo_waves (blocker_map artifacts)"

section \<open>The inverse blocker map\<close>

definition collect_inverse ::
  "(task_id, task_id list) omap \<Rightarrow> blocking_task \<Rightarrow> (task_id, task_id list) omap" where
  "collect_inverse inv_map task =
     fold (\<lambda>blocker. omap_update blocker [] (insort_insert (bt_id task))) (bt_blocked_by task) inv_map"

definition build_blocker_inverse :: "plan_artifacts \<Rightarrow> (task_id, task_id list) omap" where
  "build_blocker_inverse artifacts = foldl collect_inverse [] (plan_tasks (pa_milestones artifacts))"

end
