(* ===== verification/Planning_Cycles.thy ===== *)
theory Planning_Cycles
  imports Planning_Dependencies
begin

text \<open>
  What the dependency search and the creation-order waves compute: the search succeeds exactly on
  acyclic plans, and the waves are a topological layering of the tasks whose blockers can all be
  scheduled.
\<close>

section \<open>The dependency relation\<close>

text \<open>A task depends on its blockers, and on every task that names it as blocked.\<close>

definition depends :: "blocking_task list \<Rightarrow> (task_id \<times> task_id) set" where
  "depends tasks = {(t, d). \<exists>k \<in> set tasks.
     t = bt_id k \<and> d \<in> set (bt_blocked_by k) \<or> d = bt_id k \<and> t \<in> set (bt_blocks k)}"

definition map_edges :: "(task_id, task_id list) omap \<Rightarrow> (task_id \<times> task_id) set" where
  "map_edges m = {(t, d). d \<in> set (dependencies m t)}"

lemma dependencies_update:
  "set (dependencies (omap_update k [] f m) t) =
     (if t = k then set (f (dependencies m k)) else set (dependencies m t))"
  by (simp add: dependencies_def omap_get_update)

lemma fold_blocked_edges:
  "map_edges (fold (\<lambda>b. omap_update b [] (insort_insert k)) bs m) = map_edges m \<union> set bs \<times> {k}"
  by (induction bs arbitrary: m)
    (auto simp: map_edges_def dependencies_update set_insort_insert split: if_splits)

lemma add_edges:
  "map_edges (add_dependency_edges m k) = map_edges m \<union> depends [k]"
  unfolding add_dependency_edges_def fold_blocked_edges
  by (auto simp: map_edges_def dependencies_update depends_def split: if_splits)

lemma depends_Cons: "depends (k # ks) = depends [k] \<union> depends ks"
  by (auto simp: depends_def)

lemma foldl_edges: "map_edges (foldl add_dependency_edges m ks) = map_edges m \<union> depends ks"
proof (induction ks arbitrary: m)
  case (Cons k ks)
  then show ?case using depends_Cons [of k ks] by (auto simp: add_edges)
qed (simp add: depends_def)

lemma dependency_map_edges:
  "map_edges (build_dependency_map a) = depends (plan_tasks (pa_milestones a))"
  by (simp add: build_dependency_map_def foldl_edges)
    (simp add: map_edges_def dependencies_def)

section \<open>The search\<close>

definition finished :: "marks \<Rightarrow> task_id set" where "finished v = {t. v t = Some False}"
definition in_progress :: "marks \<Rightarrow> task_id set" where "in_progress v = {t. v t = Some True}"

text \<open>Finished tasks depend on finished tasks only, and lie on no cycle.\<close>

definition closed_acyclic :: "('a \<times> 'a) set \<Rightarrow> 'a set \<Rightarrow> bool" where
  "closed_acyclic E A \<longleftrightarrow> E `` A \<subseteq> A \<and> (\<forall>t \<in> A. (t, t) \<notin> E\<^sup>+)"

definition search_inv :: "(task_id \<times> task_id) set \<Rightarrow> marks \<Rightarrow> bool" where
  "search_inv E v \<longleftrightarrow> closed_acyclic E (finished v)"

lemma closed_trancl: "(x, y) \<in> E\<^sup>+ \<Longrightarrow> E `` A \<subseteq> A \<Longrightarrow> x \<in> A \<Longrightarrow> y \<in> A"
  by (induction rule: trancl_induct) auto

lemma closed_acyclic_insert:
  assumes inv: "closed_acyclic E A" and t: "t \<notin> A" and deps: "E `` {t} \<subseteq> A"
  shows "closed_acyclic E (insert t A)"
proof -
  have "(t, t) \<notin> E\<^sup>+"
  proof
    assume "(t, t) \<in> E\<^sup>+"
    then obtain d where "(t, d) \<in> E" "(d, t) \<in> E\<^sup>*" by (meson tranclD)
    with deps have "d \<in> A" by auto
    with \<open>(d, t) \<in> E\<^sup>*\<close> inv have "t \<in> A"
      by (metis closed_trancl rtrancl_eq_or_trancl closed_acyclic_def)
    with t show False ..
  qed
  with inv deps show ?thesis by (auto simp: closed_acyclic_def)
qed

lemma finish_task:
  assumes "search_inv E v" and "t \<notin> finished v" and "E `` {t} \<subseteq> finished v"
  shows "search_inv E (v(t \<mapsto> False))"
proof -
  have f: "finished (v(t \<mapsto> False)) = insert t (finished v)" by (auto simp: finished_def)
  show ?thesis
    unfolding search_inv_def f
    by (rule closed_acyclic_insert [OF assms(1) [unfolded search_inv_def] assms(2,3)])
qed

lemma search_sound:
  "visit_task m v t = Ok v' \<Longrightarrow> search_inv (map_edges m) v \<Longrightarrow>
     search_inv (map_edges m) v' \<and> in_progress v' = in_progress v \<and>
     finished v \<subseteq> finished v' \<and> t \<in> finished v'"
  "visit_all m v ts = Ok v' \<Longrightarrow> search_inv (map_edges m) v \<Longrightarrow>
     search_inv (map_edges m) v' \<and> in_progress v' = in_progress v \<and>
     finished v \<subseteq> finished v' \<and> set ts \<subseteq> finished v'"
proof (induction m v t and m v ts arbitrary: v' and v' rule: visit_task_visit_all.induct)
  case (1 m v t)
  show ?case
  proof (cases "v t")
    case None
    with 1(2) obtain w where w: "visit_all m (v(t \<mapsto> True)) (dependencies m t) = Ok w"
      and v': "v' = w(t \<mapsto> False)"
      by (subst (asm) visit_task.simps) (auto elim: and_thenE)
    have same: "finished (v(t \<mapsto> True)) = finished v" "in_progress (v(t \<mapsto> True)) = insert t (in_progress v)"
      using None by (auto simp: finished_def in_progress_def)
    have "search_inv (map_edges m) (v(t \<mapsto> True))" using 1(3) by (simp add: search_inv_def same)
    from 1(1) [OF None w this] have inv: "search_inv (map_edges m) w"
      and p: "in_progress w = insert t (in_progress v)" and f: "finished v \<subseteq> finished w"
      and d: "set (dependencies m t) \<subseteq> finished w"
      unfolding same by blast+
    have "w t = Some True" using p unfolding in_progress_def by blast
    then have t: "t \<notin> finished w" by (simp add: finished_def)
    have "map_edges m `` {t} \<subseteq> finished w" using d by (auto simp: map_edges_def)
    from finish_task [OF inv t this] have "search_inv (map_edges m) v'" unfolding v' .
    moreover have "finished v' = insert t (finished w)" "in_progress v' = in_progress w - {t}"
      unfolding v' by (auto simp: finished_def in_progress_def)
    moreover have "t \<notin> in_progress v" using None by (simp add: in_progress_def)
    ultimately show ?thesis using f p by auto
  next
    case (Some b)
    with 1(2) have "\<not> b" "v' = v" by (subst (asm) visit_task.simps; simp split: if_splits)+
    with Some 1(3) show ?thesis by (simp add: finished_def)
  qed
next
  case (3 m v t ts)
  from 3(3) obtain w where w: "visit_task m v t = Ok w" "visit_all m w ts = Ok v'"
    by (auto elim: and_thenE)
  from 3(1) [OF w(1) 3(4)] 3(2) [OF w(1,2)] show ?case by auto
qed simp

lemma search_complete:
  "visit_task m v t = Err e \<Longrightarrow> (\<forall>g \<in> in_progress v. (g, t) \<in> (map_edges m)\<^sup>+) \<Longrightarrow>
     search_inv (map_edges m) v \<Longrightarrow> \<exists>x. (x, x) \<in> (map_edges m)\<^sup>+"
  "visit_all m v ts = Err e \<Longrightarrow> (\<forall>g \<in> in_progress v. \<forall>t \<in> set ts. (g, t) \<in> (map_edges m)\<^sup>+) \<Longrightarrow>
     search_inv (map_edges m) v \<Longrightarrow> \<exists>x. (x, x) \<in> (map_edges m)\<^sup>+"
proof (induction m v t and m v ts rule: visit_task_visit_all.induct)
  case (1 m v t)
  show ?case
  proof (cases "v t")
    case None
    with 1(2) have e: "visit_all m (v(t \<mapsto> True)) (dependencies m t) = Err e"
      by (subst (asm) visit_task.simps) (auto simp: and_then_Err)
    have "\<forall>g \<in> in_progress (v(t \<mapsto> True)). \<forall>d \<in> set (dependencies m t). (g, d) \<in> (map_edges m)\<^sup>+"
    proof (intro ballI)
      fix g d assume g: "g \<in> in_progress (v(t \<mapsto> True))" and "d \<in> set (dependencies m t)"
      then have edge: "(t, d) \<in> map_edges m" by (simp add: map_edges_def)
      show "(g, d) \<in> (map_edges m)\<^sup>+"
      proof (cases "g = t")
        case False
        with g have "g \<in> in_progress v" by (simp add: in_progress_def)
        with 1(3) edge show ?thesis by (auto intro: trancl_into_trancl)
      qed (use edge in auto)
    qed
    moreover have "search_inv (map_edges m) (v(t \<mapsto> True))"
    proof -
      have "finished (v(t \<mapsto> True)) = finished v" using None by (auto simp: finished_def)
      with 1(4) show ?thesis by (simp add: search_inv_def)
    qed
    ultimately show ?thesis using 1(1) [OF None e] by blast
  next
    case (Some b)
    with 1(2) have b by (subst (asm) visit_task.simps) (simp split: if_splits)
    with Some 1(3) show ?thesis by (auto simp: in_progress_def)
  qed
next
  case (3 m v t ts)
  show ?case
  proof (cases "visit_task m v t")
    case (Inl e')
    with 3 show ?thesis by simp
  next
    case (Inr w)
    from search_sound(1) [OF Inr 3(5)] 3(2) [OF Inr] 3(3,4) Inr show ?thesis by simp
  qed
qed simp

lemma depends_declared:
  "(x, y) \<in> depends ks \<Longrightarrow> x \<in> bt_id ` set ks \<or> y \<in> bt_id ` set ks"
  by (auto simp: depends_def)

lemma cycle_declared:
  assumes "(x, x) \<in> (depends ks)\<^sup>+"
  shows "\<exists>t \<in> bt_id ` set ks. (t, t) \<in> (depends ks)\<^sup>+"
proof -
  obtain y where y: "(x, y) \<in> depends ks" "(y, x) \<in> (depends ks)\<^sup>*" using assms by (meson tranclD)
  then have "(y, y) \<in> (depends ks)\<^sup>+" by (meson rtrancl_into_trancl1)
  with assms y(1) show ?thesis using depends_declared by blast
qed

lemma validate_iff_acyclic:
  "validate_dependency_graph a = Ok () \<longleftrightarrow> acyclic (depends (plan_tasks (pa_milestones a)))"
proof -
  let ?ks = "plan_tasks (pa_milestones a)" and ?m = "build_dependency_map a"
  have start: "search_inv (map_edges ?m) (\<lambda>_. None)" "in_progress (\<lambda>_. None) = {}"
    by (auto simp: search_inv_def closed_acyclic_def finished_def in_progress_def)
  show ?thesis
  proof (cases "visit_all ?m (\<lambda>_. None) (map bt_id ?ks)")
    case (Inl e)
    with search_complete(2) [OF Inl] start show ?thesis
      by (auto simp: validate_dependency_graph_def acyclic_def dependency_map_edges)
  next
    case (Inr v)
    from search_sound(2) [OF Inr start(1)]
    have "\<forall>t \<in> bt_id ` set ?ks. (t, t) \<notin> (depends ?ks)\<^sup>+"
      by (auto simp: search_inv_def closed_acyclic_def dependency_map_edges)
    then have "acyclic (depends ?ks)" using cycle_declared unfolding acyclic_def by blast
    with Inr show ?thesis by (simp add: validate_dependency_graph_def)
  qed
qed

section \<open>The waves\<close>

definition blockers :: "blocking_task list \<Rightarrow> task_id \<Rightarrow> task_id set" where
  "blockers tasks t = {d. \<exists>k \<in> set tasks. bt_id k = t \<and> d \<in> set (bt_blocked_by k)}"

text \<open>A task can be scheduled when it is declared and each of its blockers can be scheduled.\<close>

inductive schedulable :: "blocking_task list \<Rightarrow> task_id \<Rightarrow> bool" for tasks where
  "t \<in> bt_id ` set tasks \<Longrightarrow> (\<And>d. d \<in> blockers tasks t \<Longrightarrow> schedulable tasks d) \<Longrightarrow>
     schedulable tasks t"

inductive in_waves :: "(task_id, task_id list) omap \<Rightarrow> task_id \<Rightarrow> bool" for m where
  "t \<in> fst ` set m \<Longrightarrow> (\<And>d. d \<in> set (dependencies m t) \<Longrightarrow> in_waves m d) \<Longrightarrow> in_waves m t"

lemma ready_iff:
  assumes wf: "omap_wf m"
  shows "t \<in> set (ready_tasks m) \<longleftrightarrow> t \<in> fst ` set m \<and> dependencies m t = []"
proof -
  have "t \<in> set (ready_tasks m) \<longleftrightarrow> (t, []) \<in> set m" by (force simp: ready_tasks_def)
  then have "t \<in> set (ready_tasks m) \<longleftrightarrow> omap_get m t = Some []" by (simp add: omap_get_Some_iff [OF wf])
  moreover have "t \<in> fst ` set m \<longleftrightarrow> omap_get m t \<noteq> None" by (simp add: omap_get_None_iff)
  ultimately show ?thesis
    by (cases "omap_get m t") (simp_all add: dependencies_def unwrap_or_def)
qed

lemma finish_wave_keys: "fst ` set (finish_wave c m) = fst ` set m - set c"
  by (force simp: finish_wave_def)

lemma finish_wave_Cons:
  "finish_wave c ((t, deps) # m) =
     (if t \<in> set c then finish_wave c m
      else (t, filter (\<lambda>d. d \<notin> set c) deps) # finish_wave c m)"
  by (simp add: finish_wave_def)

lemma finish_wave_wf: "omap_wf m \<Longrightarrow> omap_wf (finish_wave c m)"
proof (induction m)
  case (Cons e m)
  then show ?case by (cases e) (auto simp: finish_wave_Cons finish_wave_keys)
qed (simp add: finish_wave_def)

lemma finish_wave_dependencies:
  "t \<notin> set c \<Longrightarrow> dependencies (finish_wave c m) t = filter (\<lambda>d. d \<notin> set c) (dependencies m t)"
proof (induction m)
  case (Cons e m)
  then show ?case
    by (cases e) (auto simp: finish_wave_Cons dependencies_def omap_get_def)
qed (simp add: finish_wave_def dependencies_def)

lemma in_waves_step:
  assumes wf: "omap_wf m"
  shows "in_waves m t \<longleftrightarrow> t \<in> set (ready_tasks m) \<or> in_waves (finish_wave (ready_tasks m) m) t"
proof
  assume "in_waves m t"
  then show "t \<in> set (ready_tasks m) \<or> in_waves (finish_wave (ready_tasks m) m) t"
  proof induction
    case (1 t)
    show ?case
    proof (cases "t \<in> set (ready_tasks m)")
      case False
      have "in_waves (finish_wave (ready_tasks m) m) t"
      proof (rule in_waves.intros)
        show "t \<in> fst ` set (finish_wave (ready_tasks m) m)"
          using 1(1) False by (simp add: finish_wave_keys)
        show "in_waves (finish_wave (ready_tasks m) m) d"
          if "d \<in> set (dependencies (finish_wave (ready_tasks m) m) t)" for d
          using that 1(3) False by (auto simp: finish_wave_dependencies)
      qed
      then show ?thesis ..
    qed simp
  qed
next
  have ready: "in_waves m d" if "d \<in> set (ready_tasks m)" for d
  proof (rule in_waves.intros)
    show "d \<in> fst ` set m" using that by (simp add: ready_iff [OF wf])
    show "in_waves m x" if "x \<in> set (dependencies m d)" for x
      using that \<open>d \<in> set (ready_tasks m)\<close> by (simp add: ready_iff [OF wf])
  qed
  have "in_waves m t" if "in_waves (finish_wave (ready_tasks m) m) t" for t
    using that
  proof induction
    case (1 t)
    then have "t \<in> fst ` set m" "t \<notin> set (ready_tasks m)" by (simp_all add: finish_wave_keys)
    then show ?case
    proof (rule_tac in_waves.intros)
      show "in_waves m d" if "d \<in> set (dependencies m t)" for d
        using that 1(3) ready \<open>t \<notin> set (ready_tasks m)\<close> by (cases "d \<in> set (ready_tasks m)")
          (simp_all add: finish_wave_dependencies)
    qed
  qed
  with ready show "t \<in> set (ready_tasks m) \<or> in_waves (finish_wave (ready_tasks m) m) t \<Longrightarrow> in_waves m t"
    by blast
qed

lemma waves_in: "set (concat (topo_waves m)) \<subseteq> fst ` set m"
proof (induction m rule: topo_waves.induct)
  case (1 m)
  have "set (ready_tasks m) \<subseteq> fst ` set m" by (auto simp: ready_tasks_def)
  with 1 show ?case
    by (subst topo_waves.simps) (auto simp: finish_wave_keys)
qed

lemma waves_iff: "omap_wf m \<Longrightarrow> t \<in> set (concat (topo_waves m)) \<longleftrightarrow> in_waves m t"
proof (induction m rule: topo_waves.induct)
  case (1 m)
  show ?case
  proof (cases "m = [] \<or> ready_tasks m = []")
    case True
    have "\<not> in_waves m t"
    proof
      assume "in_waves m t"
      then show False
      proof induction
        case (1 t)
        with True ready_iff [OF \<open>omap_wf m\<close>, of t] show False by (cases "dependencies m t") auto
      qed
    qed
    with True show ?thesis by (subst topo_waves.simps) simp
  next
    case False
    with 1 finish_wave_wf in_waves_step [of m t] show ?thesis
      by (subst topo_waves.simps) simp
  qed
qed

lemma waves_distinct: "omap_wf m \<Longrightarrow> distinct (concat (topo_waves m))"
proof (induction m rule: topo_waves.induct)
  case (1 m)
  have "distinct (ready_tasks m)"
    using omap_wf_distinct [OF 1(2)] by (auto simp: ready_tasks_def omap_keys_def distinct_map inj_on_def)
  moreover have "set (ready_tasks m) \<inter> set (concat (topo_waves (finish_wave (ready_tasks m) m))) = {}"
    using waves_in [of "finish_wave (ready_tasks m) m"] by (auto simp: finish_wave_keys)
  ultimately show ?case
    using 1 finish_wave_wf by (subst topo_waves.simps) simp
qed

lemma waves_nonempty: "[] \<notin> set (topo_waves m)"
  by (induction m rule: topo_waves.induct) (subst topo_waves.simps, auto)

lemma waves_ordered:
  "omap_wf m \<Longrightarrow> i < length (topo_waves m) \<Longrightarrow> t \<in> set (topo_waves m ! i) \<Longrightarrow>
     d \<in> set (dependencies m t) \<Longrightarrow> \<exists>j < i. d \<in> set (topo_waves m ! j)"
proof (induction m arbitrary: i rule: topo_waves.induct)
  case (1 m)
  let ?r = "ready_tasks m"
  from 1(3) have go: "\<not> (m = [] \<or> ?r = [])" by (subst (asm) topo_waves.simps) (auto split: if_splits)
  then have w: "topo_waves m = ?r # topo_waves (finish_wave ?r m)" by (subst topo_waves.simps) simp
  show ?case
  proof (cases i)
    case 0
    with 1(4,5) w show ?thesis by (simp add: ready_iff [OF 1(2)])
  next
    case (Suc k)
    with 1(3,4) w have k: "k < length (topo_waves (finish_wave ?r m))"
      "t \<in> set (topo_waves (finish_wave ?r m) ! k)" by auto
    then have "t \<in> set (concat (topo_waves (finish_wave ?r m)))" by auto
    with waves_in [of "finish_wave ?r m"] have t: "t \<notin> set ?r" by (auto simp: finish_wave_keys)
    show ?thesis
    proof (cases "d \<in> set ?r")
      case True
      with Suc w show ?thesis by (intro exI [of _ 0]) simp
    next
      case False
      with 1(5) t have "d \<in> set (dependencies (finish_wave ?r m) t)"
        by (simp add: finish_wave_dependencies)
      with 1(1) [OF go finish_wave_wf [OF 1(2)] k] obtain j where
        "j < k" "d \<in> set (topo_waves (finish_wave ?r m) ! j)" by blast
      with Suc w show ?thesis by (intro exI [of _ "Suc j"]) simp
    qed
  qed
qed

lemma blocker_map_step:
  "dependencies (omap_update k [] (set_extend ds) m) t = (if t = k then set_extend ds (dependencies m k) else dependencies m t)"
  by (simp add: dependencies_def omap_get_update)

lemma foldl_blocker_map:
  fixes m :: "(task_id, task_id list) omap"
  defines "f \<equiv> \<lambda>m k. omap_update (bt_id k) [] (set_extend (bt_blocked_by k)) m"
  assumes "omap_wf m"
  shows "omap_wf (foldl f m ks) \<and> fst ` set (foldl f m ks) = fst ` set m \<union> bt_id ` set ks \<and>
    set (dependencies (foldl f m ks) t) = set (dependencies m t) \<union> blockers ks t"
  using assms(2)
proof (induction ks arbitrary: m)
  case (Cons k ks)
  have "omap_wf (f m k)" using Cons(2) by (simp add: f_def omap_wf_update)
  moreover have "fst ` set (f m k) = insert (bt_id k) (fst ` set m)"
    by (simp add: f_def omap_update_def keys_omap_insert)
  moreover have "set (dependencies (f m k) t) = set (dependencies m t) \<union> blockers [k] t"
    by (auto simp: f_def blocker_map_step blockers_def)
  moreover have "blockers (k # ks) t = blockers [k] t \<union> blockers ks t" by (auto simp: blockers_def)
  ultimately show ?case using Cons(1) [of "f m k"] by auto
qed (simp add: blockers_def)

lemma blocker_map_facts:
  "omap_wf (blocker_map a)" "fst ` set (blocker_map a) = bt_id ` set (plan_tasks (pa_milestones a))"
  "set (dependencies (blocker_map a) t) = blockers (plan_tasks (pa_milestones a)) t"
  using foldl_blocker_map [of "[]" "plan_tasks (pa_milestones a)" t]
  by (simp_all add: blocker_map_def) (simp add: dependencies_def)

lemma in_waves_schedulable:
  "in_waves (blocker_map a) t \<longleftrightarrow> schedulable (plan_tasks (pa_milestones a)) t"
proof
  show "in_waves (blocker_map a) t \<Longrightarrow> schedulable (plan_tasks (pa_milestones a)) t"
    by (induction rule: in_waves.induct) (auto intro: schedulable.intros simp: blocker_map_facts)
  show "schedulable (plan_tasks (pa_milestones a)) t \<Longrightarrow> in_waves (blocker_map a) t"
    by (induction rule: schedulable.induct) (auto intro: in_waves.intros simp: blocker_map_facts)
qed

lemma depends_of_blockers: "d \<in> blockers ks t \<Longrightarrow> (t, d) \<in> depends ks"
  by (fastforce simp: depends_def blockers_def)

lemma finite_depends: "finite (depends ks)"
proof (rule finite_subset)
  let ?A = "\<Union>k \<in> set ks. insert (bt_id k) (set (bt_blocked_by k) \<union> set (bt_blocks k))"
  show "depends ks \<subseteq> ?A \<times> ?A" by (auto simp: depends_def)
qed simp

text \<open>On an acyclic plan, only an undeclared blocker can keep a task from being scheduled.\<close>

lemma acyclic_schedulable:
  assumes "acyclic (depends ks)" and "\<And>t. blockers ks t \<subseteq> bt_id ` set ks" and "t \<in> bt_id ` set ks"
  shows "schedulable ks t"
proof -
  have "wf ((depends ks)\<inverse>)" using assms(1) finite_depends by (rule_tac finite_acyclic_wf_converse)
  then show ?thesis using assms(3)
  proof (induction t)
    case (less t)
    show ?case
    proof (rule schedulable.intros)
      show "schedulable ks d" if "d \<in> blockers ks t" for d
        using less.IH [of d] depends_of_blockers [OF that] assms(2) [of t] that by blast
    qed (rule less.prems)
  qed
qed

lemma waves_schedulable:
  "set (concat (creation_order_waves a)) = {t. schedulable (plan_tasks (pa_milestones a)) t}"
  using waves_iff [OF blocker_map_facts(1) [of a]] in_waves_schedulable [of a]
  by (auto simp: creation_order_waves_def)

section \<open>Properties\<close>

text \<open>C12: the dependency check of a generated plan passes exactly when no task depends on itself,
  directly or through others; blockers and declared blocked tasks both count.\<close>

theorem dependency_check_decides_cycles:
  "validate_dependency_graph artifacts = Ok () \<longleftrightarrow>
     acyclic (depends (plan_tasks (pa_milestones artifacts)))"
  by (rule validate_iff_acyclic)

text \<open>C13: the creation-order waves name each task once, hold exactly the tasks whose blockers can all
  be created before them, and put every blocker of a task into an earlier wave.\<close>

theorem waves_layer_the_plan:
  "distinct (concat (creation_order_waves artifacts)) \<and>
     set (concat (creation_order_waves artifacts)) = {t. schedulable (plan_tasks (pa_milestones artifacts)) t} \<and>
     (\<forall>i < length (creation_order_waves artifacts). \<forall>t \<in> set (creation_order_waves artifacts ! i).
        \<forall>d \<in> blockers (plan_tasks (pa_milestones artifacts)) t. \<exists>j < i. d \<in> set (creation_order_waves artifacts ! j))"
proof (intro conjI allI impI ballI)
  show "distinct (concat (creation_order_waves artifacts))"
    unfolding creation_order_waves_def by (rule waves_distinct [OF blocker_map_facts(1)])
  fix i t d assume "i < length (creation_order_waves artifacts)" "t \<in> set (creation_order_waves artifacts ! i)"
    "d \<in> blockers (plan_tasks (pa_milestones artifacts)) t"
  then show "\<exists>j < i. d \<in> set (creation_order_waves artifacts ! j)"
    unfolding creation_order_waves_def by (rule_tac waves_ordered [OF blocker_map_facts(1)]) (simp_all add: blocker_map_facts)
qed (rule waves_schedulable)

text \<open>On a plan that passes the dependency check, the creation-order waves hold every task exactly
  when every blocker is a task of the plan; a blocker the plan does not declare silently removes the
  tasks behind it.\<close>

theorem checked_plan_scheduled_iff_blockers_declared:
  assumes "validate_dependency_graph artifacts = Ok ()"
  shows "set (concat (creation_order_waves artifacts)) = bt_id ` set (plan_tasks (pa_milestones artifacts)) \<longleftrightarrow>
    (\<forall>t. blockers (plan_tasks (pa_milestones artifacts)) t \<subseteq> bt_id ` set (plan_tasks (pa_milestones artifacts)))"
    (is "?all \<longleftrightarrow> (\<forall>t. ?declared t)")
proof
  assume all: ?all
  let ?ks = "plan_tasks (pa_milestones artifacts)"
  show "\<forall>t. ?declared t"
  proof (intro allI subsetI)
    fix t d assume d: "d \<in> blockers ?ks t"
    then have "t \<in> bt_id ` set ?ks" by (auto simp: blockers_def)
    then have "schedulable ?ks t" using all unfolding waves_schedulable by blast
    then have "schedulable ?ks d" using d by (cases rule: schedulable.cases) blast
    then show "d \<in> bt_id ` set ?ks" by (cases rule: schedulable.cases) blast
  qed
next
  assume "\<forall>t. ?declared t"
  then have "schedulable (plan_tasks (pa_milestones artifacts)) t \<longleftrightarrow>
      t \<in> bt_id ` set (plan_tasks (pa_milestones artifacts))" for t
    using acyclic_schedulable assms unfolding validate_iff_acyclic by (blast elim: schedulable.cases)
  then show ?all unfolding waves_schedulable by blast
qed

section \<open>Witnesses\<close>

text \<open>A plan of two issues, the second blocked by the first, the first by an undeclared task or by
  none.\<close>

definition example_plan_issue :: "string \<Rightarrow> string list \<Rightarrow> planned_issue" where
  "example_plan_issue i bs = \<lparr>pli_id = TaskId i, pli_title = [], pli_summary = [], pli_scope_in = [],
     pli_scope_out = [], pli_deliverables = [], pli_acceptance_criteria = [], pli_verification_steps = [],
     pli_context = [], pli_definition_of_ready = [], pli_notes = None, pli_priority = Normal,
     pli_estimate = None, pli_blocked_by = map TaskId bs, pli_blocks = [], pli_sub_issues = [],
     pli_task_file = None, pli_repository = None\<rparr>"

definition example_plan :: "string list \<Rightarrow> plan_artifacts" where
  "example_plan bs = \<lparr>pa_generated_at = 0, pa_planning_wave = [],
     pa_milestones = [\<lparr>plm_id = TaskId ''M'', plm_name = [], plm_goal = [],
       plm_issues = [example_plan_issue ''a'' bs, example_plan_issue ''b'' [''a'']],
       plm_acceptance_criteria = [], plm_verification_steps = [], plm_notes = None\<rparr>],
     pa_manifest = \<lparr>tpm_planning_wave = [], tpm_tasks_dir = [], tpm_milestones = [], tpm_tasks = [],
       tpm_routing_mode = LegacySingle, tpm_repository_aliases = []\<rparr>,
     pa_milestone_index = [], pa_task_files = []\<rparr>"

lemma waves_layer_the_plan_witness:
  "creation_order_waves (example_plan []) = [[TaskId ''a''], [TaskId ''b'']] \<and>
     (\<exists>j < 1. TaskId ''a'' \<in> set (creation_order_waves (example_plan []) ! j))"
proof -
  have waves: "creation_order_waves (example_plan []) = [[TaskId ''a''], [TaskId ''b'']]" by code_simp
  moreover have "TaskId ''a'' \<in> blockers (plan_tasks (pa_milestones (example_plan []))) (TaskId ''b'')"
    by (simp add: blockers_def example_plan_def example_plan_issue_def plan_tasks_def issue_tasks_def issue_task_def)
  ultimately show ?thesis
    using waves_layer_the_plan [of "example_plan []"] by force
qed

lemma checked_plan_scheduled_iff_blockers_declared_witness:
  "validate_dependency_graph (example_plan [''gone'']) = Ok () \<and>
     set (concat (creation_order_waves (example_plan [''gone'']))) \<noteq>
       bt_id ` set (plan_tasks (pa_milestones (example_plan [''gone''])))"
proof -
  have ok: "validate_dependency_graph (example_plan [''gone'']) = Ok ()" by code_simp
  have "\<not> blockers (plan_tasks (pa_milestones (example_plan [''gone'']))) (TaskId ''a'') \<subseteq>
      bt_id ` set (plan_tasks (pa_milestones (example_plan [''gone''])))"
    by (simp add: blockers_def example_plan_def example_plan_issue_def plan_tasks_def issue_tasks_def issue_task_def)
  with ok checked_plan_scheduled_iff_blockers_declared [OF ok] show ?thesis by blast
qed

end
