(* ===== verification/Planning_Manifest.thy ===== *)
theory Planning_Manifest
  imports Planning_Model Workflow_Model "HOL-Library.Option_ord" "HOL-Library.Product_Lexorder"
begin

text \<open>
  \<open>graph_validate/frontmatter.rs\<close> and \<open>graph_validate/manifest.rs\<close> of \<open>opensymphony-planning\<close>: the
  front matter of a task file and the validation of a task package, with the depth-first search for
  cycles of blockers. Reading a file and decoding YAML are parameters.
\<close>

section \<open>Task files\<close>

datatype repository_frontmatter = RepositoryString string | RepositoryList "string list"

record task_frontmatter =
  tfm_id :: "string option"
  tfm_title :: "string option"
  tfm_milestone :: "string option"
  tfm_priority :: "i64 option"
  tfm_estimate :: "i64 option"
  tfm_blocked_by :: "string list"
  tfm_blocks :: "string list"
  tfm_parent :: "string option"
  tfm_areas :: "string list"
  tfm_repository :: "repository_frontmatter option"
  tfm_extra :: "(string, yaml) omap"

definition task_frontmatter_default :: task_frontmatter where
  "task_frontmatter_default = \<lparr>tfm_id = None, tfm_title = None, tfm_milestone = None,
     tfm_priority = None, tfm_estimate = None, tfm_blocked_by = [], tfm_blocks = [],
     tfm_parent = None, tfm_areas = [], tfm_repository = None, tfm_extra = []\<rparr>"

record parsed_task_file =
  ptf_frontmatter :: task_frontmatter
  ptf_body :: string

datatype task_frontmatter_error =
    TaskFileIo string io_error
  | TaskFileMissingFrontmatter string
  | TaskFileYaml string string

fun io_error_display :: "io_error \<Rightarrow> string" where
  "io_error_display NotFound = ''No such file or directory (os error 2)''"
| "io_error_display (OtherIo s) = s"

fun task_frontmatter_error_display :: "task_frontmatter_error \<Rightarrow> string" where
  "task_frontmatter_error_display (TaskFileIo path e) =
     ''failed to read task file '' @ path @ '': '' @ io_error_display e"
| "task_frontmatter_error_display (TaskFileMissingFrontmatter path) =
     ''task file '' @ path @ '' is missing YAML frontmatter''"
| "task_frontmatter_error_display (TaskFileYaml path e) =
     ''failed to parse YAML frontmatter in '' @ path @ '': '' @ e"

text \<open>\<open>split('\n')\<close> and \<open>join("\n")\<close>.\<close>

fun split_newline :: "string \<Rightarrow> string list" where
  "split_newline [] = [[]]"
| "split_newline (c # s) =
     (if c = CHR 0x0A then [] # split_newline s
      else case split_newline s of [] \<Rightarrow> [[c]] | l # ls \<Rightarrow> (c # l) # ls)"

fun join_newline :: "string list \<Rightarrow> string" where
  "join_newline [] = []"
| "join_newline [l] = l"
| "join_newline (l # ls) = l @ [CHR 0x0A] @ join_newline ls"

definition byte_order_mark :: string where
  "byte_order_mark = [CHR 0xEF, CHR 0xBB, CHR 0xBF]"

definition opening_line :: "string \<Rightarrow> bool" where
  "opening_line l \<longleftrightarrow> trim_end l = ''---''"

definition closing_line :: "string \<Rightarrow> bool" where
  "closing_line l \<longleftrightarrow> trim_end l = ''---'' \<or> trim_end l = ''...''"

text \<open>The lines before the closing line, and those after it.\<close>

fun split_at_closing :: "string list \<Rightarrow> (string list \<times> string list) option" where
  "split_at_closing [] = None"
| "split_at_closing (l # ls) =
     (if closing_line l then Some ([], ls)
      else map_option (\<lambda>(yaml_lines, body). (l # yaml_lines, body)) (split_at_closing ls))"

definition parse_task_text ::
  "(string \<Rightarrow> string + task_frontmatter) \<Rightarrow> string \<Rightarrow> string
     \<Rightarrow> task_frontmatter_error + parsed_task_file" where
  "parse_task_text yaml_parse raw path =
     (let trimmed = unwrap_or (strip_prefix byte_order_mark raw) raw;
          lines = split_newline trimmed;
          first = (case lines of [] \<Rightarrow> [] | l # _ \<Rightarrow> l)
      in if \<not> opening_line first then Err (TaskFileMissingFrontmatter path)
         else and_then (ok_or (TaskFileMissingFrontmatter path) (split_at_closing (tl lines)))
           (\<lambda>(yaml_lines, rest).
            and_then (map_err (TaskFileYaml path) (yaml_parse (join_newline yaml_lines)))
              (\<lambda>frontmatter. Ok \<lparr>ptf_frontmatter = frontmatter, ptf_body = join_newline rest\<rparr>)))"

definition parse_task_file ::
  "(string \<Rightarrow> io_error + string) \<Rightarrow> (string \<Rightarrow> string + task_frontmatter) \<Rightarrow> string
     \<Rightarrow> task_frontmatter_error + parsed_task_file" where
  "parse_task_file read_file yaml_parse path =
     and_then (map_err (TaskFileIo path) (read_file path)) (\<lambda>raw. parse_task_text yaml_parse raw path)"

definition read_task_frontmatter_or_default ::
  "(string \<Rightarrow> io_error + string) \<Rightarrow> (string \<Rightarrow> string + task_frontmatter) \<Rightarrow> string
     \<Rightarrow> task_frontmatter_error + task_frontmatter" where
  "read_task_frontmatter_or_default read_file yaml_parse path =
     (case parse_task_file read_file yaml_parse path of
        Ok parsed \<Rightarrow> Ok (ptf_frontmatter parsed)
      | Err (TaskFileIo _ NotFound) \<Rightarrow> Ok task_frontmatter_default
      | Err e \<Rightarrow> Err e)"

definition task_id_from :: "task_frontmatter \<Rightarrow> task_id option" where
  "task_id_from f = (case tfm_id f of Some raw \<Rightarrow> if raw \<noteq> [] then Some (TaskId raw) else None | None \<Rightarrow> None)"

section \<open>The manifest file\<close>

record manifest_task_entry =
  mte_id :: string
  mte_file :: string

record task_package_manifest_file =
  mf_planning_wave :: string
  mf_tasks_dir :: string
  mf_milestones :: "string list"
  mf_routing_mode :: string
  mf_repository_aliases :: "string list"
  mf_tasks :: "manifest_task_entry list"

datatype manifest_validator_error = ManifestIo string io_error | ManifestYaml string string

definition load_manifest ::
  "(string \<Rightarrow> io_error + string) \<Rightarrow> (string \<Rightarrow> string + task_package_manifest_file) \<Rightarrow> string
     \<Rightarrow> manifest_validator_error + task_package_manifest_file" where
  "load_manifest read_file manifest_parse path =
     and_then (map_err (ManifestIo path) (read_file path)) (\<lambda>raw.
       map_err (ManifestYaml path) (manifest_parse raw))"

section \<open>Findings\<close>

record missing_task_file =
  mtf_task_id :: task_id
  mtf_file_path :: string

record invalid_task_file =
  itf_task_id :: task_id
  itf_file_path :: string
  itf_reason :: string

record unknown_milestone =
  um_task_id :: task_id
  um_declared_milestone :: string

record unknown_dependency =
  ud_from_task_id :: task_id
  ud_unknown_dependency :: task_id

record invalid_repository_binding =
  irb_task_id :: "task_id option"
  irb_reason :: string

record manifest_validation_result =
  mv_planning_wave :: string
  mv_declared_task_ids :: "task_id list"
  mv_missing_task_files :: "missing_task_file list"
  mv_invalid_task_files :: "invalid_task_file list"
  mv_unknown_milestones :: "unknown_milestone list"
  mv_unknown_dependencies :: "unknown_dependency list"
  mv_creation_order_cycles :: "task_id list list"
  mv_self_blocks :: "task_id list"
  mv_duplicate_task_ids :: "task_id list"
  mv_invalid_repository_bindings :: "invalid_repository_binding list"

definition manifest_result_is_ok :: "manifest_validation_result \<Rightarrow> bool" where
  "manifest_result_is_ok r \<longleftrightarrow> mv_missing_task_files r = [] \<and> mv_invalid_task_files r = [] \<and>
     mv_unknown_milestones r = [] \<and> mv_unknown_dependencies r = [] \<and>
     mv_creation_order_cycles r = [] \<and> mv_self_blocks r = [] \<and> mv_duplicate_task_ids r = [] \<and>
     mv_invalid_repository_bindings r = []"

definition manifest_error_count :: "manifest_validation_result \<Rightarrow> nat" where
  "manifest_error_count r = length (mv_missing_task_files r) + length (mv_invalid_task_files r) +
     length (mv_unknown_milestones r) + length (mv_unknown_dependencies r) +
     sum_list (map length (mv_creation_order_cycles r)) + length (mv_self_blocks r) +
     length (mv_duplicate_task_ids r) + length (mv_invalid_repository_bindings r)"

section \<open>Cycles of blockers\<close>

text \<open>The bookkeeping of the search. A \<open>BTreeSet\<close> that is only asked for its members is a set.\<close>

record dfs_state =
  dfs_visited :: "task_id set"
  dfs_on_stack :: "task_id set"
  dfs_stack :: "task_id list"
  dfs_seen_cycles :: "task_id list set"
  dfs_collected :: "task_id list list"

fun position :: "('a \<Rightarrow> bool) \<Rightarrow> 'a list \<Rightarrow> nat option" where
  "position p [] = None"
| "position p (x # xs) = (if p x then Some 0 else map_option Suc (position p xs))"

definition enter_node :: "task_id \<Rightarrow> dfs_state \<Rightarrow> dfs_state" where
  "enter_node node st = st\<lparr>dfs_visited := insert node (dfs_visited st),
     dfs_on_stack := insert node (dfs_on_stack st), dfs_stack := dfs_stack st @ [node]\<rparr>"

definition leave_node :: "task_id \<Rightarrow> dfs_state \<Rightarrow> dfs_state" where
  "leave_node node st = st\<lparr>dfs_on_stack := dfs_on_stack st - {node},
     dfs_stack := butlast (dfs_stack st)\<rparr>"

definition record_cycle :: "task_id \<Rightarrow> dfs_state \<Rightarrow> dfs_state" where
  "record_cycle dep st =
     (case position (\<lambda>n. n = dep) (dfs_stack st) of
        None \<Rightarrow> st
      | Some start_idx \<Rightarrow>
          let cycle = sort (drop start_idx (dfs_stack st)) in
          if cycle \<in> dfs_seen_cycles st then st
          else st\<lparr>dfs_seen_cycles := insert cycle (dfs_seen_cycles st),
                  dfs_collected := dfs_collected st @ [cycle]\<rparr>)"

definition adjacent :: "(task_id, task_id list) omap \<Rightarrow> task_id \<Rightarrow> task_id list" where
  "adjacent adjacency node = unwrap_or (omap_get adjacency node) []"

definition adjacent_nodes :: "(task_id, task_id list) omap \<Rightarrow> task_id set" where
  "adjacent_nodes adjacency = (\<Union>(t, ds) \<in> set adjacency. set ds)"

lemma finite_adjacent_nodes [simp]: "finite (adjacent_nodes adjacency)"
  by (auto simp: adjacent_nodes_def)

lemma adjacent_subset: "set (adjacent adjacency t) \<subseteq> adjacent_nodes adjacency"
  by (cases "omap_get adjacency t")
    (auto simp: adjacent_def adjacent_nodes_def omap_get_def dest!: map_of_SomeD)

lemma visited_simps [simp]:
  "dfs_visited (enter_node n st) = insert n (dfs_visited st)"
  "dfs_visited (leave_node n st) = dfs_visited st"
  "dfs_visited (record_cycle d st) = dfs_visited st"
  by (simp_all add: enter_node_def leave_node_def record_cycle_def Let_def split: option.split)

text \<open>The caller asks for a node only when it is unvisited.\<close>

function
  dfs_cycle :: "(task_id, task_id list) omap \<Rightarrow> task_id \<Rightarrow> dfs_state \<Rightarrow> dfs_state" and
  dfs_deps :: "(task_id, task_id list) omap \<Rightarrow> task_id list \<Rightarrow> dfs_state \<Rightarrow> dfs_state"
where
  "dfs_cycle adjacency node st =
     leave_node node (dfs_deps adjacency (adjacent adjacency node) (enter_node node st))"
| "dfs_deps adjacency [] st = st"
| "dfs_deps adjacency (dep # deps) st =
     dfs_deps adjacency deps
       (if dep \<notin> dfs_visited st then dfs_cycle adjacency dep st
        else if dep \<in> dfs_on_stack st then record_cycle dep st
        else st)"
  by pat_completeness auto

termination
proof (relation "inv_image (less_than <*lex*> less_than)
    (case_sum (\<lambda>(a, n, st). (card (adjacent_nodes a - insert n (dfs_visited st)), Suc (length (adjacent a n))))
      (\<lambda>(a, ds, st). (card (set ds \<union> adjacent_nodes a - dfs_visited st), length ds)))", goal_cases)
  case 1
  show ?case by (intro wf_inv_image wf_lex_prod wf_less_than)
next
  case (2 a n st)
  have "set (adjacent a n) \<union> adjacent_nodes a = adjacent_nodes a" using adjacent_subset by blast
  then show ?case by simp
next
  case (3 a d ds st)
  have "card (adjacent_nodes a - insert d (dfs_visited st)) <
      card (set (d # ds) \<union> adjacent_nodes a - dfs_visited st)"
    using 3 by (intro psubset_card_mono) auto
  then show ?case by simp
next
  have dfs_grows:
    "dfs_cycle_dfs_deps_dom (Inl (adjacency, node, st)) \<Longrightarrow>
       insert node (dfs_visited st) \<subseteq> dfs_visited (dfs_cycle adjacency node st)"
    "dfs_cycle_dfs_deps_dom (Inr (adjacency, deps, st)) \<Longrightarrow>
       dfs_visited st \<subseteq> dfs_visited (dfs_deps adjacency deps st)"
    for adjacency node st deps
  proof (induction rule: dfs_cycle_dfs_deps.pinduct)
    case (1 adjacency node st)
    then show ?case by (simp add: dfs_cycle.psimps)
  next
    case (2 adjacency st)
    then show ?case by (simp add: dfs_deps.psimps)
  next
    case (3 adjacency dep deps st)
    let ?st = "if dep \<notin> dfs_visited st then dfs_cycle adjacency dep st
      else if dep \<in> dfs_on_stack st then record_cycle dep st else st"
    have "dfs_visited st \<subseteq> dfs_visited ?st" using 3(2) by auto
    with 3(3) show ?case unfolding dfs_deps.psimps(2) [OF 3(1)] by (rule_tac subset_trans)
  qed
  case (4 a d ds st)
  let ?st = "if d \<notin> dfs_visited st then dfs_cycle a d st
    else if d \<in> dfs_on_stack st then record_cycle d st else st"
  have "dfs_visited st \<subseteq> dfs_visited ?st" using 4 dfs_grows(1) [of a d st] by auto
  then have "card (set ds \<union> adjacent_nodes a - dfs_visited ?st) \<le>
      card (set (d # ds) \<union> adjacent_nodes a - dfs_visited st)"
    by (intro card_mono) auto
  then show ?case by auto
qed

declare dfs_cycle.simps [simp del]

definition dfs_start :: dfs_state where
  "dfs_start = \<lparr>dfs_visited = {}, dfs_on_stack = {}, dfs_stack = [], dfs_seen_cycles = {},
     dfs_collected = []\<rparr>"

definition dfs_root :: "(task_id, task_id list) omap \<Rightarrow> dfs_state \<Rightarrow> task_id \<Rightarrow> dfs_state" where
  "dfs_root adjacency st entry =
     (if entry \<notin> dfs_visited st then dfs_cycle adjacency entry st else st)"

definition creation_order_cycles ::
  "(task_id, task_id list) omap \<Rightarrow> task_id list \<Rightarrow> task_id list list" where
  "creation_order_cycles adjacency nodes = dfs_collected (foldl (dfs_root adjacency) dfs_start nodes)"

section \<open>Repository bindings\<close>

definition task_binding_finding :: "task_id \<Rightarrow> string \<Rightarrow> invalid_repository_binding" where
  "task_binding_finding t reason = \<lparr>irb_task_id = Some t, irb_reason = reason\<rparr>"

definition package_finding :: "string \<Rightarrow> invalid_repository_binding" where
  "package_finding reason = \<lparr>irb_task_id = None, irb_reason = reason\<rparr>"

definition repository_aliases :: "task_frontmatter \<Rightarrow> string list" where
  "repository_aliases f =
     (case tfm_repository f of
        None \<Rightarrow> []
      | Some (RepositoryString a) \<Rightarrow> [trim a]
      | Some (RepositoryList as) \<Rightarrow> map trim as)"

fun join_comma :: "string list \<Rightarrow> string" where
  "join_comma [] = []"
| "join_comma [x] = x"
| "join_comma (x # xs) = x @ '', '' @ join_comma xs"

definition is_project_set :: "task_package_manifest_file \<Rightarrow> bool" where
  "is_project_set manifest \<longleftrightarrow> trim (mf_routing_mode manifest) = ''project_set''"

definition configured_aliases :: "task_package_manifest_file \<Rightarrow> string list" where
  "configured_aliases manifest =
     filter (\<lambda>a. a \<noteq> []) (map trim (mf_repository_aliases manifest))"

definition package_findings :: "task_package_manifest_file \<Rightarrow> invalid_repository_binding list" where
  "package_findings manifest =
     (let routing_mode = trim (mf_routing_mode manifest) in
      (if routing_mode \<notin> {''legacy_single'', ''project_set''}
       then [package_finding (''manifest routingMode must be legacy_single or project_set, got `'' @
               routing_mode @ ''`'')] else []) @
      concat (map (\<lambda>a. if trim a = []
        then [package_finding ''manifest repositoryAliases entries must be non-empty after trimming'']
        else []) (mf_repository_aliases manifest)) @
      (if is_project_set manifest \<and> configured_aliases manifest = []
       then [package_finding ''project_set packages must declare a non-empty repositoryAliases inventory'']
       else []))"

definition parent_ids :: "(task_id \<times> task_frontmatter) list \<Rightarrow> task_id set" where
  "parent_ids entries =
     set (List.map_filter (\<lambda>(_, f). map_option (\<lambda>p. TaskId (trim p)) (tfm_parent f)) entries)"

definition task_findings ::
  "task_package_manifest_file \<Rightarrow> task_id set \<Rightarrow> task_id \<times> task_frontmatter
     \<Rightarrow> invalid_repository_binding list" where
  "task_findings manifest parents = (\<lambda>(t, f).
     let aliases = repository_aliases f in
     (if list_ex (\<lambda>a. a = []) aliases
      then [task_binding_finding t ''repository alias must be non-empty after trimming''] else []) @
     (if 1 < length aliases
      then [task_binding_finding t
              (''task declares multiple managed repository bindings: '' @ join_comma aliases)] else []) @
     (if t \<in> parents \<and> aliases \<noteq> []
      then [task_binding_finding t ''parent task must not declare a repository binding''] else []) @
     (if is_project_set manifest \<and> t \<notin> parents \<and> length aliases \<noteq> 1
      then [task_binding_finding t ''terminal task must declare exactly one repository binding'']
      else []) @
     concat (map (\<lambda>a.
       if (is_project_set manifest \<or> configured_aliases manifest \<noteq> []) \<and>
          a \<notin> set (configured_aliases manifest)
       then [task_binding_finding t (''unknown repository alias `'' @ a @ ''`'')] else [])
       (filter (\<lambda>a. a \<noteq> []) aliases)))"

definition validate_repository_bindings ::
  "task_package_manifest_file \<Rightarrow> (task_id \<times> task_frontmatter) list \<Rightarrow> invalid_repository_binding list"
where
  "validate_repository_bindings manifest entries =
     package_findings manifest @ concat (map (task_findings manifest (parent_ids entries)) entries)"

section \<open>The validator\<close>

text \<open>\<open>Path::join\<close> of a root and an entry, as strings.\<close>

definition join_path :: "string \<Rightarrow> string \<Rightarrow> string" where
  "join_path root file =
     (if strip_prefix ''/'' file \<noteq> None then file
      else if root = [] \<or> last root = CHR ''/'' then root @ file
      else root @ ''/'' @ file)"

text \<open>The loop over the manifest's tasks: the ids seen, the entries loaded, the result.\<close>

record load_state =
  ld_entries :: "(task_id \<times> task_frontmatter) list"
  ld_result :: manifest_validation_result

definition load_entry ::
  "(string \<Rightarrow> io_error + string) \<Rightarrow> (string \<Rightarrow> string + task_frontmatter) \<Rightarrow> string
     \<Rightarrow> load_state \<Rightarrow> manifest_task_entry \<Rightarrow> load_state" where
  "load_entry read_file yaml_parse repo_root st e =
     (let i = TaskId (mte_id e); r = ld_result st in
      if i \<in> set (mv_declared_task_ids r) then
        st\<lparr>ld_result := r\<lparr>mv_duplicate_task_ids := mv_duplicate_task_ids r @ [i]\<rparr>\<rparr>
      else
        let r = r\<lparr>mv_declared_task_ids := mv_declared_task_ids r @ [i]\<rparr> in
        case parse_task_file read_file yaml_parse (join_path repo_root (mte_file e)) of
          Ok parsed \<Rightarrow> \<lparr>ld_entries = ld_entries st @ [(i, ptf_frontmatter parsed)], ld_result = r\<rparr>
        | Err (TaskFileIo _ NotFound) \<Rightarrow>
            st\<lparr>ld_result := r\<lparr>mv_missing_task_files := mv_missing_task_files r @
              [\<lparr>mtf_task_id = i, mtf_file_path = mte_file e\<rparr>]\<rparr>\<rparr>
        | Err err \<Rightarrow>
            st\<lparr>ld_result := r\<lparr>mv_invalid_task_files := mv_invalid_task_files r @
              [\<lparr>itf_task_id = i, itf_file_path = mte_file e,
                itf_reason = task_frontmatter_error_display err\<rparr>]\<rparr>\<rparr>)"

text \<open>The three ways a declared blocker can be read.\<close>

definition self_blocked :: "task_id \<times> task_frontmatter \<Rightarrow> task_id list" where
  "self_blocked = (\<lambda>(t, f). map (\<lambda>_. t) (filter (\<lambda>d. TaskId d = t) (tfm_blocked_by f)))"

definition unknown_blockers :: "task_id set \<Rightarrow> task_id \<times> task_frontmatter \<Rightarrow> unknown_dependency list" where
  "unknown_blockers ids = (\<lambda>(t, f).
     map (\<lambda>d. \<lparr>ud_from_task_id = t, ud_unknown_dependency = TaskId d\<rparr>)
       (filter (\<lambda>d. TaskId d \<noteq> t \<and> TaskId d \<notin> ids) (tfm_blocked_by f)))"

definition known_blockers :: "task_id set \<Rightarrow> task_id \<times> task_frontmatter \<Rightarrow> (task_id \<times> task_id) list" where
  "known_blockers ids = (\<lambda>(t, f).
     map (\<lambda>d. (t, TaskId d)) (filter (\<lambda>d. TaskId d \<noteq> t \<and> TaskId d \<in> ids) (tfm_blocked_by f)))"

definition build_adjacency :: "(task_id \<times> task_id) list \<Rightarrow> (task_id, task_id list) omap" where
  "build_adjacency edges = foldl (\<lambda>m (t, d). omap_update t [] (insort_insert d) m) [] edges"

definition milestone_finding :: "string list \<Rightarrow> task_id \<times> task_frontmatter \<Rightarrow> unknown_milestone list" where
  "milestone_finding milestones = (\<lambda>(t, f).
     if unwrap_or (tfm_milestone f) [] \<in> set milestones then []
     else (case tfm_milestone f of None \<Rightarrow> []
           | Some declared \<Rightarrow> [\<lparr>um_task_id = t, um_declared_milestone = declared\<rparr>]))"

definition empty_result :: "string \<Rightarrow> manifest_validation_result" where
  "empty_result planning_wave = \<lparr>mv_planning_wave = planning_wave, mv_declared_task_ids = [],
     mv_missing_task_files = [], mv_invalid_task_files = [], mv_unknown_milestones = [],
     mv_unknown_dependencies = [], mv_creation_order_cycles = [], mv_self_blocks = [],
     mv_duplicate_task_ids = [], mv_invalid_repository_bindings = []\<rparr>"

definition validate_against_repo_root ::
  "(string \<Rightarrow> io_error + string) \<Rightarrow> (string \<Rightarrow> string + task_frontmatter)
     \<Rightarrow> task_package_manifest_file \<Rightarrow> string \<Rightarrow> manifest_validation_result" where
  "validate_against_repo_root read_file yaml_parse manifest repo_root =
     (let loaded = foldl (load_entry read_file yaml_parse repo_root)
            \<lparr>ld_entries = [], ld_result = empty_result (mf_planning_wave manifest)\<rparr> (mf_tasks manifest);
          r = ld_result loaded; entries = ld_entries loaded;
          ids = mv_declared_task_ids r
      in r\<lparr>mv_missing_task_files := sort_key mtf_task_id (mv_missing_task_files r),
           mv_invalid_task_files := sort_key itf_task_id (mv_invalid_task_files r),
           mv_unknown_milestones := sort_key um_task_id
             (concat (map (milestone_finding (mf_milestones manifest)) entries)),
           mv_unknown_dependencies := sort_key ud_from_task_id
             (concat (map (unknown_blockers (set ids)) entries)),
           mv_creation_order_cycles := creation_order_cycles
             (build_adjacency (concat (map (known_blockers (set ids)) entries))) (set_of_list ids),
           mv_self_blocks := sort (concat (map self_blocked entries)),
           mv_invalid_repository_bindings :=
             sort_key (\<lambda>b. (irb_task_id b, irb_reason b)) (validate_repository_bindings manifest entries)\<rparr>)"

definition manifest_validate ::
  "(string \<Rightarrow> io_error + string) \<Rightarrow> (string \<Rightarrow> string + task_frontmatter)
     \<Rightarrow> (string \<Rightarrow> string + task_package_manifest_file) \<Rightarrow> string \<Rightarrow> string
     \<Rightarrow> manifest_validator_error + manifest_validation_result" where
  "manifest_validate read_file yaml_parse manifest_parse manifest_path repo_root =
     and_then (load_manifest read_file manifest_parse manifest_path) (\<lambda>manifest.
       Ok (validate_against_repo_root read_file yaml_parse manifest repo_root))"

end
