(* ===== verification/Planning_Package.thy ===== *)
theory Planning_Package
  imports Planning_Cycles Planning_Manifest
begin

text \<open>
  The validation of a task package against a reference: the search for cycles of blockers finds
  one exactly when there is one, and the validator accepts exactly the well-formed packages.
\<close>

section \<open>The search for cycles\<close>

definition adjacency_edges :: "(task_id, task_id list) omap \<Rightarrow> (task_id \<times> task_id) set" where
  "adjacency_edges adjacency = {(t, d). d \<in> set (adjacent adjacency t)}"

text \<open>The nodes of a cycle, sorted.\<close>

definition cycle_nodes :: "('a::linorder \<times> 'a) set \<Rightarrow> 'a list \<Rightarrow> bool" where
  "cycle_nodes E c \<longleftrightarrow> (\<exists>p. p \<noteq> [] \<and> distinct p \<and> c = sort p \<and>
     successively (\<lambda>x y. (x, y) \<in> E) p \<and> (last p, hd p) \<in> E)"

definition settled :: "dfs_state \<Rightarrow> task_id set" where
  "settled st = dfs_visited st - dfs_on_stack st"

definition dfs_inv :: "(task_id \<times> task_id) set \<Rightarrow> dfs_state \<Rightarrow> bool" where
  "dfs_inv E st \<longleftrightarrow>
     dfs_on_stack st = set (dfs_stack st) \<and> distinct (dfs_stack st) \<and>
     dfs_on_stack st \<subseteq> dfs_visited st \<and> successively (\<lambda>x y. (x, y) \<in> E) (dfs_stack st) \<and>
     dfs_seen_cycles st = set (dfs_collected st) \<and> (\<forall>c \<in> set (dfs_collected st). cycle_nodes E c) \<and>
     (dfs_collected st = [] \<longrightarrow> closed_acyclic E (settled st))"

definition dfs_kept :: "dfs_state \<Rightarrow> dfs_state \<Rightarrow> bool" where
  "dfs_kept st st' \<longleftrightarrow> dfs_stack st' = dfs_stack st \<and> dfs_on_stack st' = dfs_on_stack st \<and>
     dfs_visited st \<subseteq> dfs_visited st' \<and> (dfs_collected st' = [] \<longrightarrow> dfs_collected st = [])"

lemma dfs_kept_refl [simp]: "dfs_kept st st"
  by (simp add: dfs_kept_def)

lemma dfs_kept_trans: "dfs_kept st st' \<Longrightarrow> dfs_kept st' st'' \<Longrightarrow> dfs_kept st st''"
  by (auto simp: dfs_kept_def)

lemma position_Some:
  "position (\<lambda>n. n = d) xs = Some i \<Longrightarrow> i < length xs \<and> xs ! i = d"
  by (induction xs arbitrary: i) (auto split: if_splits)

lemma position_None: "position (\<lambda>n. n = d) xs = None \<longleftrightarrow> d \<notin> set xs"
  by (induction xs) auto

lemma successively_drop: "successively P xs \<Longrightarrow> successively P (drop n xs)"
  using successively_append_iff [of P "take n xs" "drop n xs"] by simp

lemma record_cycle_inv:
  assumes inv: "dfs_inv E st" and d: "d \<in> dfs_on_stack st" and edge: "(last (dfs_stack st), d) \<in> E"
  shows "dfs_inv E (record_cycle d st) \<and> dfs_kept st (record_cycle d st) \<and>
    dfs_collected (record_cycle d st) \<noteq> []"
proof -
  obtain i where i: "position (\<lambda>n. n = d) (dfs_stack st) = Some i"
    using d inv position_None [of d "dfs_stack st"] by (auto simp: dfs_inv_def)
  let ?p = "drop i (dfs_stack st)"
  have len: "i < length (dfs_stack st)" and nth: "dfs_stack st ! i = d" using position_Some [OF i] by auto
  have "cycle_nodes E (sort ?p)"
    unfolding cycle_nodes_def
  proof (intro exI [of _ ?p] conjI)
    show "distinct ?p" using inv by (simp add: dfs_inv_def)
    show "successively (\<lambda>x y. (x, y) \<in> E) ?p" using inv by (simp add: dfs_inv_def successively_drop)
    show "(last ?p, hd ?p) \<in> E" using edge len nth by (simp add: last_drop hd_drop_conv_nth)
  qed (use len in auto)
  then show ?thesis
    using inv i by (auto simp: record_cycle_def Let_def dfs_inv_def dfs_kept_def)
qed

lemma enter_inv:
  assumes inv: "dfs_inv E st" and n: "n \<notin> dfs_visited st"
    and edge: "dfs_stack st = [] \<or> (last (dfs_stack st), n) \<in> E"
  shows "dfs_inv E (enter_node n st)"
proof -
  have "settled (enter_node n st) = settled st"
    using n by (auto simp: settled_def enter_node_def)
  with inv n edge show ?thesis
    by (auto simp: dfs_inv_def enter_node_def successively_append_iff)
qed

lemma leave_inv:
  assumes inv: "dfs_inv E w" and stack: "dfs_stack w = s @ [n]"
    and deps: "dfs_collected w = [] \<Longrightarrow> E `` {n} \<subseteq> settled w"
  shows "dfs_inv E (leave_node n w)"
proof -
  have n: "n \<in> dfs_on_stack w" "n \<in> dfs_visited w" "n \<notin> set s" "dfs_on_stack w = insert n (set s)"
    using inv stack by (auto simp: dfs_inv_def)
  then have settled: "settled (leave_node n w) = insert n (settled w)" and "n \<notin> settled w"
    by (auto simp: settled_def leave_node_def)
  then have "dfs_collected w = [] \<Longrightarrow> closed_acyclic E (settled (leave_node n w))"
    using closed_acyclic_insert [of E "settled w" n] deps inv by (simp add: dfs_inv_def)
  with inv stack n show ?thesis
    by (auto simp: dfs_inv_def leave_node_def successively_append_iff)
qed

lemma dfs_search:
  "dfs_inv (adjacency_edges a) st \<Longrightarrow> n \<notin> dfs_visited st \<Longrightarrow>
     dfs_stack st = [] \<or> (last (dfs_stack st), n) \<in> adjacency_edges a \<Longrightarrow>
     dfs_inv (adjacency_edges a) (dfs_cycle a n st) \<and> dfs_kept st (dfs_cycle a n st) \<and>
     n \<in> settled (dfs_cycle a n st)"
  "dfs_inv (adjacency_edges a) st \<Longrightarrow>
     dfs_stack st \<noteq> [] \<Longrightarrow> (\<forall>d \<in> set ds. (last (dfs_stack st), d) \<in> adjacency_edges a) \<Longrightarrow>
     dfs_inv (adjacency_edges a) (dfs_deps a ds st) \<and> dfs_kept st (dfs_deps a ds st) \<and>
     (dfs_collected (dfs_deps a ds st) = [] \<longrightarrow> set ds \<subseteq> settled (dfs_deps a ds st))"
proof (induction a n st and a ds st rule: dfs_cycle_dfs_deps.induct)
  case (1 a n st)
  let ?E = "adjacency_edges a" and ?w = "dfs_deps a (adjacent a n) (enter_node n st)"
  have stack: "dfs_stack (enter_node n st) = dfs_stack st @ [n]"
    "dfs_on_stack (enter_node n st) = insert n (dfs_on_stack st)"
    "dfs_collected (enter_node n st) = dfs_collected st" by (simp_all add: enter_node_def)
  have "dfs_inv ?E (enter_node n st)" using 1(2-4) by (rule enter_inv)
  then have w: "dfs_inv ?E ?w" "dfs_kept (enter_node n st) ?w"
    "dfs_collected ?w = [] \<longrightarrow> set (adjacent a n) \<subseteq> settled ?w"
    using 1(1) by (simp_all add: stack adjacency_edges_def)
  have n: "n \<notin> dfs_on_stack st" using 1(2,3) by (auto simp: dfs_inv_def)
  have "dfs_inv ?E (leave_node n ?w)"
    using w by (intro leave_inv) (auto simp: dfs_kept_def stack adjacency_edges_def)
  moreover have "dfs_kept st (leave_node n ?w)" "n \<in> settled (leave_node n ?w)"
    using w(2) n by (auto simp: dfs_kept_def stack leave_node_def settled_def)
  ultimately show ?case by (simp add: dfs_cycle.simps)
next
  case (3 a d ds st)
  let ?E = "adjacency_edges a"
  define w where "w = (if d \<notin> dfs_visited st then dfs_cycle a d st
    else if d \<in> dfs_on_stack st then record_cycle d st else st)"
  have step: "dfs_inv ?E w" "dfs_kept st w" "dfs_collected w = [] \<Longrightarrow> d \<in> settled w"
  proof -
    have "dfs_inv ?E w \<and> dfs_kept st w \<and> (dfs_collected w = [] \<longrightarrow> d \<in> settled w)"
    proof (cases "d \<in> dfs_visited st")
      case True
      with 3(3,5) record_cycle_inv [of ?E st d] show ?thesis by (auto simp: settled_def w_def)
    qed (use 3(1,3-5) in \<open>auto simp: w_def\<close>)
    then show "dfs_inv ?E w" "dfs_kept st w" "dfs_collected w = [] \<Longrightarrow> d \<in> settled w" by simp_all
  qed
  have "dfs_stack w = dfs_stack st" using step(2) by (simp add: dfs_kept_def)
  then have rest: "dfs_inv ?E (dfs_deps a ds w) \<and> dfs_kept w (dfs_deps a ds w) \<and>
    (dfs_collected (dfs_deps a ds w) = [] \<longrightarrow> set ds \<subseteq> settled (dfs_deps a ds w))"
    using 3(2) [folded w_def] step(1) 3(4,5) by simp
  then have "dfs_collected (dfs_deps a ds w) = [] \<longrightarrow> d \<in> settled (dfs_deps a ds w)"
    using step(3) by (auto simp: dfs_kept_def settled_def)
  moreover have "dfs_deps a (d # ds) st = dfs_deps a ds w" by (simp add: w_def)
  moreover have "dfs_kept st (dfs_deps a ds w)" using step(2) rest dfs_kept_trans by blast
  ultimately show ?case using rest by (simp del: dfs_deps.simps)
qed simp

lemma dfs_roots:
  assumes "dfs_inv (adjacency_edges a) st" and "dfs_stack st = []"
  shows "dfs_inv (adjacency_edges a) (foldl (dfs_root a) st ns) \<and>
    dfs_kept st (foldl (dfs_root a) st ns) \<and> set ns \<subseteq> dfs_visited (foldl (dfs_root a) st ns)"
  using assms
proof (induction ns arbitrary: st)
  case (Cons n ns)
  have step: "dfs_inv (adjacency_edges a) (dfs_root a st n)" "dfs_kept st (dfs_root a st n)"
    "n \<in> dfs_visited (dfs_root a st n)"
    using dfs_search(1) [of a st n] Cons(2,3) by (auto simp: dfs_root_def settled_def)
  moreover have "dfs_stack (dfs_root a st n) = []" using step(2) Cons(3) by (simp add: dfs_kept_def)
  ultimately have "dfs_inv (adjacency_edges a) (foldl (dfs_root a) (dfs_root a st n) ns)"
    "dfs_kept (dfs_root a st n) (foldl (dfs_root a) (dfs_root a st n) ns)"
    "set ns \<subseteq> dfs_visited (foldl (dfs_root a) (dfs_root a st n) ns)"
    using Cons(1) by blast+
  moreover from this(2) step(2) have "dfs_kept st (foldl (dfs_root a) (dfs_root a st n) ns)"
    by (rule_tac dfs_kept_trans)
  ultimately show ?case using step(3) by (auto simp: dfs_kept_def)
qed simp

lemma path_trancl:
  "successively (\<lambda>x y. (x, y) \<in> E) p \<Longrightarrow> x \<in> set p \<Longrightarrow> p \<noteq> [] \<Longrightarrow> (x, last p) \<in> E\<^sup>*"
proof (induction p arbitrary: x)
  case (Cons y p)
  show ?case
  proof (cases p)
    case (Cons z zs)
    with Cons.prems have edge: "(y, z) \<in> E" and path: "successively (\<lambda>x y. (x, y) \<in> E) p" by simp_all
    have below: "(v, last p) \<in> E\<^sup>*" if "v \<in> set p" for v
      using Cons.IH [OF path that] Cons by simp
    then have "(y, last p) \<in> E\<^sup>*"
      using edge Cons by (auto intro: converse_rtrancl_into_rtrancl)
    with below Cons.prems(2) Cons show ?thesis by auto
  qed (use Cons.prems in simp)
qed simp

lemma cycle_nodes_cyclic:
  assumes "cycle_nodes E c" shows "\<exists>x. (x, x) \<in> E\<^sup>+"
proof -
  obtain p where p: "p \<noteq> []" "successively (\<lambda>x y. (x, y) \<in> E) p" "(last p, hd p) \<in> E"
    using assms by (auto simp: cycle_nodes_def)
  then have "(hd p, last p) \<in> E\<^sup>*" by (intro path_trancl) auto
  with p(3) show ?thesis by (meson rtrancl_into_trancl2)
qed

lemma creation_order_cycles_exact:
  assumes "fst ` set a \<subseteq> set ns"
  shows "creation_order_cycles a ns = [] \<longleftrightarrow> acyclic (adjacency_edges a)"
    and "\<forall>c \<in> set (creation_order_cycles a ns). cycle_nodes (adjacency_edges a) c"
proof -
  let ?E = "adjacency_edges a" and ?st = "foldl (dfs_root a) dfs_start ns"
  have "dfs_inv ?E dfs_start" by (simp add: dfs_inv_def dfs_start_def settled_def closed_acyclic_def)
  then have inv: "dfs_inv ?E ?st" "dfs_kept dfs_start ?st" "set ns \<subseteq> dfs_visited ?st"
    using dfs_roots [of a dfs_start ns] by (simp_all add: dfs_start_def)
  then show cycles: "\<forall>c \<in> set (creation_order_cycles a ns). cycle_nodes ?E c"
    by (simp add: dfs_inv_def creation_order_cycles_def)
  have sources: "t \<in> set ns" if "(t, d) \<in> ?E" for t d
  proof -
    from that have "omap_get a t \<noteq> None" by (cases "omap_get a t") (auto simp: adjacency_edges_def adjacent_def)
    with assms show ?thesis by (auto simp: omap_get_None_iff)
  qed
  have "dfs_on_stack ?st = {}" using inv(2) by (simp add: dfs_kept_def dfs_start_def)
  then have settled: "settled ?st = dfs_visited ?st" by (simp add: settled_def)
  show "creation_order_cycles a ns = [] \<longleftrightarrow> acyclic ?E"
  proof
    assume "creation_order_cycles a ns = []"
    then have "closed_acyclic ?E (dfs_visited ?st)"
      using inv(1) settled by (simp add: dfs_inv_def creation_order_cycles_def)
    moreover have "t \<in> set ns" if "(t, t) \<in> ?E\<^sup>+" for t using tranclD [OF that] sources by blast
    ultimately show "acyclic ?E" using inv(3) unfolding acyclic_def closed_acyclic_def by blast
  next
    assume "acyclic ?E"
    then show "creation_order_cycles a ns = []"
      using cycles cycle_nodes_cyclic unfolding acyclic_def by (metis list.set_intros(1) neq_Nil_conv)
  qed
qed

section \<open>Well-formed packages\<close>

definition package_entry ::
  "(string \<Rightarrow> io_error + string) \<Rightarrow> (string \<Rightarrow> string + task_frontmatter) \<Rightarrow> string
     \<Rightarrow> manifest_task_entry \<Rightarrow> task_frontmatter_error + task_id \<times> task_frontmatter" where
  "package_entry read_file yaml_parse repo_root e =
     map_sum id (\<lambda>p. (TaskId (mte_id e), ptf_frontmatter p))
       (parse_task_file read_file yaml_parse (join_path repo_root (mte_file e)))"

definition package_blockers :: "(task_id \<times> task_frontmatter) list \<Rightarrow> (task_id \<times> task_id) set" where
  "package_blockers entries = {(t, d). \<exists>f. (t, f) \<in> set entries \<and> d \<in> TaskId ` set (tfm_blocked_by f)}"

definition aliases_wf :: "task_package_manifest_file \<Rightarrow> string list \<Rightarrow> bool \<Rightarrow> string list \<Rightarrow> bool" where
  "aliases_wf manifest inventory is_parent aliases \<longleftrightarrow>
     (\<forall>a \<in> set aliases. a \<noteq> []) \<and>
     (if is_parent then aliases = []
      else if is_project_set manifest then length aliases = 1 else length aliases \<le> 1) \<and>
     (is_project_set manifest \<or> inventory \<noteq> [] \<longrightarrow> set aliases \<subseteq> set inventory)"

definition bindings_wf ::
  "task_package_manifest_file \<Rightarrow> (task_id \<times> task_frontmatter) list \<Rightarrow> bool" where
  "bindings_wf manifest entries \<longleftrightarrow>
     trim (mf_routing_mode manifest) \<in> {''legacy_single'', ''project_set''} \<and>
     (\<forall>a \<in> set (mf_repository_aliases manifest). trim a \<noteq> []) \<and>
     (is_project_set manifest \<longrightarrow> mf_repository_aliases manifest \<noteq> []) \<and>
     (\<forall>(t, f) \<in> set entries. aliases_wf manifest (map trim (mf_repository_aliases manifest))
        (t \<in> parent_ids entries) (repository_aliases f))"

definition package_wf ::
  "task_package_manifest_file \<Rightarrow> (task_id \<times> task_frontmatter) list \<Rightarrow> bool" where
  "package_wf manifest entries \<longleftrightarrow>
     distinct (map fst entries) \<and>
     (\<forall>(t, f) \<in> set entries. set_option (tfm_milestone f) \<subseteq> set (mf_milestones manifest)) \<and>
     snd ` package_blockers entries \<subseteq> fst ` set entries \<and>
     acyclic (package_blockers entries) \<and> bindings_wf manifest entries"

definition load_clean :: "manifest_validation_result \<Rightarrow> bool" where
  "load_clean r \<longleftrightarrow> mv_duplicate_task_ids r = [] \<and> mv_missing_task_files r = [] \<and>
     mv_invalid_task_files r = []"

lemma load_entry_clean:
  "load_clean (ld_result (load_entry rd yp root st e)) \<longleftrightarrow>
     load_clean (ld_result st) \<and> TaskId (mte_id e) \<notin> set (mv_declared_task_ids (ld_result st)) \<and>
     is_ok (package_entry rd yp root e)"
  by (cases "parse_task_file rd yp (join_path root (mte_file e))")
    (auto simp: load_entry_def Let_def load_clean_def package_entry_def
      split: task_frontmatter_error.split io_error.split)

lemma load_entry_loaded:
  assumes "load_clean (ld_result (load_entry rd yp root st e))" and "package_entry rd yp root e = Ok x"
  shows "load_entry rd yp root st e = \<lparr>ld_entries = ld_entries st @ [x],
    ld_result = (ld_result st)\<lparr>mv_declared_task_ids := mv_declared_task_ids (ld_result st) @ [fst x]\<rparr>\<rparr>"
  using assms load_entry_clean [of rd yp root st e]
  by (cases "parse_task_file rd yp (join_path root (mte_file e))")
    (auto simp: load_entry_def Let_def package_entry_def)

lemma package_entry_fst: "package_entry rd yp root e = Ok x \<Longrightarrow> fst x = TaskId (mte_id e)"
  by (cases "parse_task_file rd yp (join_path root (mte_file e))") (auto simp: package_entry_def)

lemma loaded_entries:
  assumes "collect_results (package_entry rd yp root) es = Ok xs" and "load_clean (ld_result st)"
    and "distinct (mv_declared_task_ids (ld_result st) @ map fst xs)"
  shows "foldl (load_entry rd yp root) st es = \<lparr>ld_entries = ld_entries st @ xs,
    ld_result = (ld_result st)\<lparr>mv_declared_task_ids := mv_declared_task_ids (ld_result st) @ map fst xs\<rparr>\<rparr>"
  using assms
proof (induction es arbitrary: st xs)
  case (Cons e es)
  then obtain x ys where x: "package_entry rd yp root e = Ok x"
    and ys: "collect_results (package_entry rd yp root) es = Ok ys" and xs: "xs = x # ys"
    by (auto simp: and_then_Ok)
  let ?st = "load_entry rd yp root st e"
  have clean: "load_clean (ld_result ?st)"
    using Cons(3,4) x package_entry_fst [OF x] by (simp add: load_entry_clean xs)
  have st: "?st = \<lparr>ld_entries = ld_entries st @ [x],
      ld_result = (ld_result st)\<lparr>mv_declared_task_ids := mv_declared_task_ids (ld_result st) @ [fst x]\<rparr>\<rparr>"
    by (rule load_entry_loaded [OF clean x])
  have "distinct (mv_declared_task_ids (ld_result ?st) @ map fst ys)"
    using Cons(4) by (simp add: st xs)
  from Cons(1) [OF ys clean this] show ?case by (simp add: st xs)
qed simp

lemma loaded_clean:
  "load_clean (ld_result (foldl (load_entry rd yp root) st es)) \<Longrightarrow>
     distinct (mv_declared_task_ids (ld_result st)) \<Longrightarrow>
     load_clean (ld_result st) \<and> (\<exists>xs. collect_results (package_entry rd yp root) es = Ok xs \<and>
       distinct (mv_declared_task_ids (ld_result st) @ map fst xs))"
proof (induction es arbitrary: st)
  case (Cons e es)
  let ?st = "load_entry rd yp root st e"
  have later: "load_clean (ld_result (foldl (load_entry rd yp root) ?st es)) \<Longrightarrow> load_clean (ld_result ?st)"
  proof (induction es arbitrary: e st)
    case (Cons e' es)
    then show ?case using load_entry_clean [of rd yp root "load_entry rd yp root st e" e'] by auto
  qed simp
  then have clean: "load_clean (ld_result ?st)" using Cons(2) by simp
  then obtain x where x: "package_entry rd yp root e = Ok x"
    and fresh: "TaskId (mte_id e) \<notin> set (mv_declared_task_ids (ld_result st))"
    and "load_clean (ld_result st)"
    by (cases "package_entry rd yp root e") (auto simp: load_entry_clean)
  have ids: "mv_declared_task_ids (ld_result ?st) = mv_declared_task_ids (ld_result st) @ [fst x]"
    by (simp add: load_entry_loaded [OF clean x])
  have "distinct (mv_declared_task_ids (ld_result ?st))"
    using Cons(3) fresh package_entry_fst [OF x] by (simp add: ids)
  with Cons(1) [of ?st] Cons(2) obtain ys where "collect_results (package_entry rd yp root) es = Ok ys"
    "distinct (mv_declared_task_ids (ld_result ?st) @ map fst ys)" by auto
  with x ids \<open>load_clean (ld_result st)\<close> show ?case by (intro conjI exI [of _ "x # ys"]) simp_all
qed simp

lemma task_findings_Nil:
  "task_findings manifest P e = [] \<longleftrightarrow>
     aliases_wf manifest (configured_aliases manifest) (fst e \<in> P) (repository_aliases (snd e))"
proof (cases e)
  case (Pair t f)
  show ?thesis
    unfolding Pair task_findings_def aliases_wf_def Let_def prod.case prod.sel append_is_Nil_conv concat_eq_Nil_conv
    by (cases "t \<in> P"; cases "is_project_set manifest") (auto simp: list_ex_iff split: if_splits)
qed

lemma configured_nonblank:
  "(\<forall>a \<in> set (mf_repository_aliases manifest). trim a \<noteq> []) \<Longrightarrow>
     configured_aliases manifest = map trim (mf_repository_aliases manifest)"
  by (simp add: configured_aliases_def filter_id_conv)

lemma package_findings_Nil:
  "package_findings manifest = [] \<longleftrightarrow>
     trim (mf_routing_mode manifest) \<in> {''legacy_single'', ''project_set''} \<and>
     (\<forall>a \<in> set (mf_repository_aliases manifest). trim a \<noteq> []) \<and>
     (is_project_set manifest \<longrightarrow> configured_aliases manifest \<noteq> [])"
  by (auto simp: package_findings_def Let_def)

lemma binding_findings:
  "validate_repository_bindings manifest entries = [] \<longleftrightarrow> bindings_wf manifest entries"
  using configured_nonblank [of manifest]
  by (auto simp: validate_repository_bindings_def bindings_wf_def package_findings_Nil
      task_findings_Nil split_beta)

lemma adjacency_of_edges: "adjacency_edges (build_adjacency es) = set es \<and> fst ` set (build_adjacency es) = fst ` set es"
proof -
  have "adjacency_edges (foldl (\<lambda>m (t, d). omap_update t [] (insort_insert d) m) m es) =
        adjacency_edges m \<union> set es \<and>
      fst ` set (foldl (\<lambda>m (t, d). omap_update t [] (insort_insert d) m) m es) =
        fst ` set m \<union> fst ` set es" for m
  proof (induction es arbitrary: m)
    case (Cons e es)
    obtain t d where e: "e = (t, d)" by (cases e)
    have "adjacency_edges (omap_update t [] (insort_insert d) m) = insert (t, d) (adjacency_edges m)"
      by (auto simp: adjacency_edges_def adjacent_def omap_get_update set_insort_insert split: if_splits)
    moreover have "fst ` set (omap_update t [] (insort_insert d) m) = insert t (fst ` set m)"
      by (simp add: omap_update_def keys_omap_insert)
    ultimately show ?case using Cons [of "omap_update t [] (insort_insert d) m"] by (auto simp: e)
  qed simp
  from this [of "[]"] show ?thesis
    by (simp add: build_adjacency_def) (simp add: adjacency_edges_def adjacent_def)
qed

lemma known_blockers_all:
  "set (concat (map (known_blockers ids) entries)) = {(t, d) \<in> package_blockers entries. d \<noteq> t \<and> d \<in> ids}"
proof -
  have "set (known_blockers ids e) = {(t, d). t = fst e \<and> d \<in> TaskId ` set (tfm_blocked_by (snd e)) \<and> d \<noteq> t \<and> d \<in> ids}" for e
    by (cases e) (auto simp: known_blockers_def)
  then have "x \<in> set (concat (map (known_blockers ids) entries)) \<longleftrightarrow>
      (\<exists>e \<in> set entries. fst x = fst e \<and> snd x \<in> TaskId ` set (tfm_blocked_by (snd e)) \<and>
        snd x \<noteq> fst x \<and> snd x \<in> ids)" for x
    by (cases x) (simp only: set_concat set_map UN_iff image_iff mem_Collect_eq split, auto)
  moreover have "x \<in> {(t, d) \<in> package_blockers entries. d \<noteq> t \<and> d \<in> ids} \<longleftrightarrow>
      (\<exists>e \<in> set entries. fst x = fst e \<and> snd x \<in> TaskId ` set (tfm_blocked_by (snd e)) \<and>
        snd x \<noteq> fst x \<and> snd x \<in> ids)" for x
    by (cases x) (force simp: package_blockers_def)
  ultimately show ?thesis by (intro set_eqI) simp
qed

lemma known_blockers_edges:
  assumes "snd ` package_blockers entries \<subseteq> ids" and "\<forall>t. (t, t) \<notin> package_blockers entries"
  shows "set (concat (map (known_blockers ids) entries)) = package_blockers entries"
proof -
  have "d \<noteq> t \<and> d \<in> ids" if "(t, d) \<in> package_blockers entries" for t d
    using assms that by (metis image_eqI snd_conv subsetD)
  then show ?thesis unfolding known_blockers_all by blast
qed

lemma self_blocked_Nil: "concat (map self_blocked entries) = [] \<longleftrightarrow> (\<forall>t. (t, t) \<notin> package_blockers entries)"
  by (fastforce simp: self_blocked_def package_blockers_def filter_empty_conv)

lemma unknown_blockers_Nil:
  assumes "\<forall>t. (t, t) \<notin> package_blockers entries"
  shows "concat (map (unknown_blockers ids) entries) = [] \<longleftrightarrow> snd ` package_blockers entries \<subseteq> ids"
  using assms by (fastforce simp: unknown_blockers_def package_blockers_def filter_empty_conv)

lemma milestone_Nil:
  "concat (map (milestone_finding ms) entries) = [] \<longleftrightarrow>
     (\<forall>(t, f) \<in> set entries. set_option (tfm_milestone f) \<subseteq> set ms)"
proof -
  have "milestone_finding ms (t, f) = [] \<longleftrightarrow> set_option (tfm_milestone f) \<subseteq> set ms" for t and f :: task_frontmatter
    by (cases "tfm_milestone f") (simp_all add: milestone_finding_def)
  then show ?thesis by (auto simp: concat_eq_Nil_conv)
qed

text \<open>C11: the validator accepts a task package exactly when its task ids are distinct, every task
  file loads, every milestone is listed, every blocker is another declared task, no chain of
  blockers returns to its start, and every repository binding fits the routing mode.\<close>

theorem package_accepted_iff_well_formed:
  "manifest_result_is_ok (validate_against_repo_root read_file yaml_parse manifest repo_root) \<longleftrightarrow>
     (\<exists>entries. collect_results (package_entry read_file yaml_parse repo_root) (mf_tasks manifest) = Ok entries \<and>
        package_wf manifest entries)"
proof -
  let ?start = "\<lparr>ld_entries = [], ld_result = empty_result (mf_planning_wave manifest)\<rparr>"
  let ?st = "foldl (load_entry read_file yaml_parse repo_root) ?start (mf_tasks manifest)"
  let ?r = "validate_against_repo_root read_file yaml_parse manifest repo_root"
  have start: "load_clean (ld_result ?start)" "mv_declared_task_ids (ld_result ?start) = []"
    by (simp_all add: load_clean_def empty_result_def)
  have clean: "manifest_result_is_ok ?r \<Longrightarrow> load_clean (ld_result ?st)"
    by (simp add: manifest_result_is_ok_def validate_against_repo_root_def Let_def load_clean_def)
  have accepted: "manifest_result_is_ok ?r \<longleftrightarrow> package_wf manifest entries"
    if entries: "collect_results (package_entry read_file yaml_parse repo_root) (mf_tasks manifest) = Ok entries"
      and distinct: "distinct (map fst entries)" for entries
  proof -
    have st: "?st = \<lparr>ld_entries = entries, ld_result =
        (empty_result (mf_planning_wave manifest))\<lparr>mv_declared_task_ids := map fst entries\<rparr>\<rparr>"
      using loaded_entries [OF entries start(1)] distinct by (simp add: start(2)) (simp add: empty_result_def)
    let ?adj = "build_adjacency (concat (map (known_blockers (set (map fst entries))) entries))"
    have cycles: "creation_order_cycles ?adj (set_of_list (map fst entries)) = [] \<longleftrightarrow> acyclic (adjacency_edges ?adj)"
    proof (rule creation_order_cycles_exact)
      have "fst ` set (concat (map (known_blockers (set (map fst entries))) entries)) \<subseteq> set (map fst entries)"
        by (force simp: known_blockers_def)
      then show "fst ` set ?adj \<subseteq> set (set_of_list (map fst entries))" by (simp add: adjacency_of_edges)
    qed
    have "acyclic (package_blockers entries) \<Longrightarrow> \<forall>t. (t, t) \<notin> package_blockers entries"
      unfolding acyclic_def by blast
    moreover have "acyclic (adjacency_edges ?adj) \<longleftrightarrow> acyclic (package_blockers entries)"
      if "snd ` package_blockers entries \<subseteq> set (map fst entries)" "\<forall>t. (t, t) \<notin> package_blockers entries"
      using known_blockers_edges [OF that] by (simp add: adjacency_of_edges del: set_concat)
    ultimately have sound: "(\<forall>t. (t, t) \<notin> package_blockers entries) \<and>
        snd ` package_blockers entries \<subseteq> set (map fst entries) \<and>
        creation_order_cycles ?adj (set_of_list (map fst entries)) = [] \<longleftrightarrow>
      snd ` package_blockers entries \<subseteq> set (map fst entries) \<and> acyclic (package_blockers entries)"
      unfolding cycles by blast
    have "manifest_result_is_ok ?r \<longleftrightarrow>
        concat (map (milestone_finding (mf_milestones manifest)) entries) = [] \<and>
        concat (map (unknown_blockers (set (map fst entries))) entries) = [] \<and>
        creation_order_cycles ?adj (set_of_list (map fst entries)) = [] \<and>
        concat (map self_blocked entries) = [] \<and> validate_repository_bindings manifest entries = []"
      unfolding manifest_result_is_ok_def validate_against_repo_root_def st Let_def
      by (simp add: empty_result_def del: concat_eq_Nil_conv set_map)
    also have "\<dots> \<longleftrightarrow> package_wf manifest entries"
      unfolding milestone_Nil self_blocked_Nil binding_findings package_wf_def set_map [symmetric]
      using unknown_blockers_Nil [of entries "set (map fst entries)"] sound distinct by satx
    finally show ?thesis .
  qed
  show ?thesis
  proof
    assume ok: "manifest_result_is_ok ?r"
    from loaded_clean [OF clean [OF ok]] obtain entries where
      "collect_results (package_entry read_file yaml_parse repo_root) (mf_tasks manifest) = Ok entries"
      "distinct (map fst entries)" by (auto simp: start(2) empty_result_def)
    with accepted ok show "\<exists>entries. collect_results (package_entry read_file yaml_parse repo_root)
        (mf_tasks manifest) = Ok entries \<and> package_wf manifest entries" by blast
  next
    assume "\<exists>entries. collect_results (package_entry read_file yaml_parse repo_root)
        (mf_tasks manifest) = Ok entries \<and> package_wf manifest entries"
    with accepted show "manifest_result_is_ok ?r" by (auto simp: package_wf_def)
  qed
qed

end
