(* ===== verification/Planning_Checks.thy ===== *)
theory Planning_Checks
  imports Planning_Cycles Planning_Manifest
begin

text \<open>
  The rest of \<open>graph_validate\<close>: the findings and the report of \<open>domain.rs\<close>, the quality checker of
  \<open>checks.rs\<close>, the dependency graph of \<open>graph.rs\<close> and the report of \<open>mod.rs\<close>. A check appends its
  findings to a list; here it returns what it appends. A \<open>usize\<close> that counts the elements of a
  vector is a natural number.
\<close>

section \<open>The dependency graph\<close>

datatype graph_node_kind = MilestoneNode | IssueNode | SubIssueNode

record graph_node =
  gn_id :: task_id
  gn_kind :: graph_node_kind
  gn_title :: string
  gn_milestone :: string
  gn_acceptance_criteria_count :: nat
  gn_verification_count :: nat
  gn_source_artifact_ref :: "string option"

datatype graph_edge_reason = ParentOf | BlockedBy | BlocksInvariant | MissingInverse | UnknownTarget

record graph_edge =
  ge_from :: task_id
  ge_to :: task_id
  ge_relation :: graph_edge_reason
  ge_milestone :: string
  ge_source_artifact_ref :: "string option"

record dependency_graph =
  dg_planning_wave :: string
  dg_generated_at :: date_time
  dg_nodes :: "graph_node list"
  dg_edges :: "graph_edge list"
  dg_parallelizable_waves :: "task_id list list"

fun kind_rank :: "graph_node_kind \<Rightarrow> nat" where
  "kind_rank MilestoneNode = 0"
| "kind_rank IssueNode = 1"
| "kind_rank SubIssueNode = 2"

fun relation_rank :: "graph_edge_reason \<Rightarrow> nat" where
  "relation_rank ParentOf = 0"
| "relation_rank BlockedBy = 1"
| "relation_rank BlocksInvariant = 2"
| "relation_rank MissingInverse = 3"
| "relation_rank UnknownTarget = 4"

definition sub_issue_node :: "planned_milestone \<Rightarrow> planned_sub_issue \<Rightarrow> graph_node" where
  "sub_issue_node m sub = \<lparr>gn_id = psi_id sub, gn_kind = SubIssueNode, gn_title = psi_title sub,
     gn_milestone = plm_name m, gn_acceptance_criteria_count = length (psi_acceptance_criteria sub),
     gn_verification_count = length (psi_verification_steps sub),
     gn_source_artifact_ref = psi_task_file sub\<rparr>"

definition issue_node :: "planned_milestone \<Rightarrow> planned_issue \<Rightarrow> graph_node" where
  "issue_node m issue = \<lparr>gn_id = pli_id issue, gn_kind = IssueNode, gn_title = pli_title issue,
     gn_milestone = plm_name m, gn_acceptance_criteria_count = length (pli_acceptance_criteria issue),
     gn_verification_count = length (pli_verification_steps issue),
     gn_source_artifact_ref = pli_task_file issue\<rparr>"

definition collect_milestone_nodes :: "planned_milestone \<Rightarrow> graph_node list" where
  "collect_milestone_nodes m =
     \<lparr>gn_id = plm_id m, gn_kind = MilestoneNode, gn_title = plm_name m, gn_milestone = plm_name m,
      gn_acceptance_criteria_count = length (plm_acceptance_criteria m),
      gn_verification_count = length (plm_verification_steps m), gn_source_artifact_ref = None\<rparr> #
     concat (map (\<lambda>issue. issue_node m issue # map (sub_issue_node m) (pli_sub_issues issue)) (plm_issues m))"

definition push_parent_edge :: "task_id \<Rightarrow> task_id \<Rightarrow> planned_milestone \<Rightarrow> graph_edge" where
  "push_parent_edge child parent m = \<lparr>ge_from = parent, ge_to = child, ge_relation = ParentOf,
     ge_milestone = plm_name m, ge_source_artifact_ref = None\<rparr>"

definition push_blocker_edges ::
  "blocking_task \<Rightarrow> planned_milestone \<Rightarrow> task_id set \<Rightarrow> (task_id, string option) omap \<Rightarrow> graph_edge list"
where
  "push_blocker_edges task m declared_ids source_for =
     map (\<lambda>blocker. \<lparr>ge_from = blocker, ge_to = bt_id task,
         ge_relation = (if blocker \<notin> declared_ids then UnknownTarget else BlockedBy),
         ge_milestone = plm_name m,
         ge_source_artifact_ref = Option.bind (omap_get source_for blocker) id\<rparr>) (bt_blocked_by task) @
     map (\<lambda>(source, target). \<lparr>ge_from = source, ge_to = target,
         ge_relation = (if target \<notin> declared_ids then UnknownTarget else BlocksInvariant),
         ge_milestone = plm_name m,
         ge_source_artifact_ref = Option.bind (omap_get source_for source) id\<rparr>)
       (sort (map (\<lambda>blocked. (bt_id task, blocked)) (bt_blocks task)))"

definition collect_all_task_ids :: "planned_milestone \<Rightarrow> task_id set" where
  "collect_all_task_ids m = insert (plm_id m)
     (set (concat (map (\<lambda>issue. pli_id issue # map psi_id (pli_sub_issues issue)) (plm_issues m))))"

definition build_task_file_lookup :: "planned_milestone \<Rightarrow> (task_id, string option) omap" where
  "build_task_file_lookup m =
     foldl (\<lambda>lookup issue. foldl (\<lambda>lookup sub. omap_insert (psi_id sub) (psi_task_file sub) lookup)
         (omap_insert (pli_id issue) (pli_task_file issue) lookup) (pli_sub_issues issue)) [] (plm_issues m)"

definition collect_milestone_edges :: "planned_milestone \<Rightarrow> graph_edge list" where
  "collect_milestone_edges m =
     (let declared_ids = collect_all_task_ids m; source_for = build_task_file_lookup m in
      concat (map (\<lambda>issue.
        concat (map (\<lambda>sub. push_parent_edge (psi_id sub) (pli_id issue) m #
            push_blocker_edges (sub_issue_task sub) m declared_ids source_for) (pli_sub_issues issue)) @
        push_blocker_edges (issue_task issue) m declared_ids source_for) (plm_issues m)))"

definition parallelizable_waves_deterministic :: "plan_artifacts \<Rightarrow> task_id list list" where
  "parallelizable_waves_deterministic artifacts = map sort (creation_order_waves artifacts)"

definition build_dependency_graph :: "date_time \<Rightarrow> plan_artifacts \<Rightarrow> dependency_graph" where
  "build_dependency_graph now artifacts =
     \<lparr>dg_planning_wave = pa_planning_wave artifacts, dg_generated_at = now,
      dg_nodes = sort_key (\<lambda>n. (gn_milestone n, kind_rank (gn_kind n), gn_id n))
        (concat (map collect_milestone_nodes (pa_milestones artifacts))),
      dg_edges = sort_key (\<lambda>e. (ge_milestone e, ge_from e, relation_rank (ge_relation e), ge_to e))
        (concat (map collect_milestone_edges (pa_milestones artifacts))),
      dg_parallelizable_waves = parallelizable_waves_deterministic artifacts\<rparr>"

section \<open>Findings\<close>

datatype plan_check_severity = CheckError | CheckWarning

datatype plan_check_category =
    ScopeClarity
  | ResearchCoverage
  | CodebaseAnalysis
  | Dependencies
  | AcceptanceCriteria
  | VerificationExpectations

text \<open>The derived order of the categories.\<close>

fun category_rank :: "plan_check_category \<Rightarrow> nat" where
  "category_rank ScopeClarity = 0"
| "category_rank ResearchCoverage = 1"
| "category_rank CodebaseAnalysis = 2"
| "category_rank Dependencies = 3"
| "category_rank AcceptanceCriteria = 4"
| "category_rank VerificationExpectations = 5"

lemma category_rank_inject: "category_rank x = category_rank y \<longleftrightarrow> x = y"
  by (cases x; cases y) simp_all

instantiation plan_check_category :: linorder
begin

definition less_eq_plan_check_category :: "plan_check_category \<Rightarrow> plan_check_category \<Rightarrow> bool" where
  "less_eq_plan_check_category x y \<longleftrightarrow> category_rank x \<le> category_rank y"

definition less_plan_check_category :: "plan_check_category \<Rightarrow> plan_check_category \<Rightarrow> bool" where
  "less_plan_check_category x y \<longleftrightarrow> category_rank x < category_rank y"

instance
  by standard (auto simp: less_eq_plan_check_category_def less_plan_check_category_def
      category_rank_inject [symmetric])

end

record plan_check_finding =
  pcf_severity :: plan_check_severity
  pcf_category :: plan_check_category
  pcf_task_id :: "task_id option"
  pcf_field :: string
  pcf_message :: string

definition finding_error ::
  "plan_check_category \<Rightarrow> task_id option \<Rightarrow> string \<Rightarrow> string \<Rightarrow> plan_check_finding" where
  "finding_error category t field message = \<lparr>pcf_severity = CheckError, pcf_category = category,
     pcf_task_id = t, pcf_field = field, pcf_message = message\<rparr>"

definition finding_warning ::
  "plan_check_category \<Rightarrow> task_id option \<Rightarrow> string \<Rightarrow> string \<Rightarrow> plan_check_finding" where
  "finding_warning category t field message = \<lparr>pcf_severity = CheckWarning, pcf_category = category,
     pcf_task_id = t, pcf_field = field, pcf_message = message\<rparr>"

lemma finding_sel [simp]:
  "pcf_severity (finding_error c t f m) = CheckError" "pcf_severity (finding_warning c t f m) = CheckWarning"
  "pcf_task_id (finding_warning c t f m) = t" "pcf_field (finding_warning c t f m) = f"
  by (simp_all add: finding_error_def finding_warning_def)

record plan_validation_report =
  pvr_planning_wave :: string
  pvr_generated_at :: date_time
  pvr_dependency_graph :: "dependency_graph option"
  pvr_plan_checks :: "plan_check_finding list"
  pvr_manifest_validation :: "manifest_validation_result option"

definition report_has_errors :: "(plan_check_severity \<Rightarrow> bool) \<Rightarrow> plan_validation_report \<Rightarrow> bool" where
  "report_has_errors severity_filter report \<longleftrightarrow>
     list_ex (\<lambda>c. severity_filter (pcf_severity c)) (pvr_plan_checks report) \<or>
     (case pvr_manifest_validation report of None \<Rightarrow> False | Some m \<Rightarrow> \<not> manifest_result_is_ok m)"

definition category_counts :: "plan_validation_report \<Rightarrow> (plan_check_category, nat) omap" where
  "category_counts report =
     foldl (\<lambda>counts f. omap_update (pcf_category f) 0 Suc counts) [] (pvr_plan_checks report)"

section \<open>The checker\<close>

record plan_quality_checker =
  pqc_artifacts :: plan_artifacts
  pqc_research_finding_count :: "nat option"
  pqc_codebase_risk_count :: "nat option"

definition checker_new :: "plan_artifacts \<Rightarrow> plan_quality_checker" where
  "checker_new artifacts = \<lparr>pqc_artifacts = artifacts, pqc_research_finding_count = None,
     pqc_codebase_risk_count = None\<rparr>"

definition with_research :: "nat \<Rightarrow> plan_quality_checker \<Rightarrow> plan_quality_checker" where
  "with_research finding_count c = c\<lparr>pqc_research_finding_count := Some finding_count\<rparr>"

definition with_codebase :: "nat \<Rightarrow> plan_quality_checker \<Rightarrow> plan_quality_checker" where
  "with_codebase risk_count c = c\<lparr>pqc_codebase_risk_count := Some risk_count\<rparr>"

definition quoted :: "string \<Rightarrow> string" where
  "quoted s = [CHR 0x27] @ s @ [CHR 0x27]"

definition check_milestone_scope :: "planned_milestone \<Rightarrow> plan_check_finding list" where
  "check_milestone_scope m =
     (if trim (plm_name m) = []
      then [finding_error ScopeClarity (Some (plm_id m)) ''milestones''
              (''milestone '' @ task_id_str (plm_id m) @ '' has an empty name'')] else []) @
     (if plm_issues m = []
      then [finding_warning ScopeClarity (Some (plm_id m)) ''issues''
              (''milestone '' @ quoted (plm_name m) @ '' has no issues; expected at least one issue'')] else []) @
     concat (map (\<lambda>issue.
       if pli_scope_in issue = []
       then [finding_warning ScopeClarity (Some (pli_id issue)) ''scope.in''
               (''issue '' @ quoted (pli_title issue) @ '' has no in-scope items; expected at least one bullet'')]
       else []) (plm_issues m))"

definition check_scope_clarity :: "plan_quality_checker \<Rightarrow> plan_check_finding list" where
  "check_scope_clarity c =
     (if pa_milestones (pqc_artifacts c) = []
      then [finding_error ScopeClarity None ''milestones''
              ''Plan contains no milestones; expected at least one milestone''] else []) @
     concat (map check_milestone_scope (pa_milestones (pqc_artifacts c)))"

definition check_research_coverage :: "plan_quality_checker \<Rightarrow> plan_check_finding list" where
  "check_research_coverage c =
     (if pqc_research_finding_count c = Some 0
      then [finding_warning ResearchCoverage None ''research.findings''
              ''Planning session reports zero research findings; downstream consumers may not be able to trace plan decisions back to research citations'']
      else [])"

definition check_codebase_analysis :: "plan_quality_checker \<Rightarrow> plan_check_finding list" where
  "check_codebase_analysis c =
     (if pqc_codebase_risk_count c = Some 0
      then [finding_warning CodebaseAnalysis None ''codebase.risks''
              ''Planning session loaded a CodebaseAnalysis with zero risks; rerun the analyzer to confirm the repository has no ownership or integration risks'']
      else [])"

definition check_dependency_cycle :: "plan_quality_checker \<Rightarrow> plan_check_finding list" where
  "check_dependency_cycle c =
     (case validate_dependency_graph (pqc_artifacts c) of
        Ok _ \<Rightarrow> []
      | Err cycle_msg \<Rightarrow>
          [finding_error Dependencies None ''dependencies'' (generation_error_display cycle_msg)])"

definition check_task_blocker_inverse ::
  "blocking_task \<Rightarrow> planned_milestone \<Rightarrow> (task_id, task_id list) omap \<Rightarrow> plan_check_finding list" where
  "check_task_blocker_inverse task m inv_map = concat (map (\<lambda>target.
     let reciprocal = unwrap_or (omap_get inv_map target) [] in
     if bt_id task \<notin> set reciprocal
     then [finding_warning Dependencies (Some (bt_id task)) ''blocks''
             (''task '' @ quoted (task_id_str (bt_id task)) @ '' in milestone '' @ quoted (plm_name m) @
              '' claims to block '' @ quoted (task_id_str target) @ '' but the inverse '' @
              quoted ''blockedBy'' @ '' arrow is missing on '' @ quoted (task_id_str target))]
     else []) (bt_blocks task))"

definition check_missing_inverse_blockers :: "plan_quality_checker \<Rightarrow> plan_check_finding list" where
  "check_missing_inverse_blockers c =
     (let inv_map = build_blocker_inverse (pqc_artifacts c) in
      concat (map (\<lambda>m. concat (map (\<lambda>task. check_task_blocker_inverse task m inv_map)
        (concat (map issue_tasks (plm_issues m))))) (pa_milestones (pqc_artifacts c))))"

definition check_issue_criteria :: "planned_issue \<Rightarrow> plan_check_finding list" where
  "check_issue_criteria issue =
     (if pli_acceptance_criteria issue = []
      then [finding_error AcceptanceCriteria (Some (pli_id issue)) ''acceptance_criteria''
              (''issue '' @ quoted (pli_title issue) @ '' has no acceptance criteria; expected at least one'')]
      else []) @
     concat (map (\<lambda>sub.
       if psi_acceptance_criteria sub = []
       then [finding_warning AcceptanceCriteria (Some (psi_id sub)) ''acceptance_criteria''
               (''sub-issue '' @ quoted (psi_title sub) @ '' has no acceptance criteria; expected at least one'')]
       else []) (pli_sub_issues issue))"

definition check_acceptance_criteria :: "plan_quality_checker \<Rightarrow> plan_check_finding list" where
  "check_acceptance_criteria c = concat (map (\<lambda>m. concat (map check_issue_criteria (plm_issues m)))
     (pa_milestones (pqc_artifacts c)))"

definition check_issue_verification :: "planned_issue \<Rightarrow> plan_check_finding list" where
  "check_issue_verification issue = concat (map (\<lambda>sub.
     if psi_verification_steps sub = []
     then [finding_error VerificationExpectations (Some (psi_id sub)) ''verification_steps''
             (''sub-issue '' @ quoted (psi_title sub) @
              '' has no verification expectations; expected at least one'')]
     else []) (pli_sub_issues issue))"

definition check_verification_expectations :: "plan_quality_checker \<Rightarrow> plan_check_finding list" where
  "check_verification_expectations c = concat (map (\<lambda>m.
     concat (map check_issue_verification (plm_issues m))) (pa_milestones (pqc_artifacts c)))"

fun severity_rank :: "plan_check_severity \<Rightarrow> nat" where
  "severity_rank CheckError = 0"
| "severity_rank CheckWarning = 1"

definition run_checks :: "plan_quality_checker \<Rightarrow> plan_check_finding list" where
  "run_checks c = sort_key (\<lambda>f. (pcf_category f, severity_rank (pcf_severity f), pcf_task_id f, pcf_field f))
     (check_scope_clarity c @ check_research_coverage c @ check_codebase_analysis c @
      check_dependency_cycle c @ check_missing_inverse_blockers c @ check_acceptance_criteria c @
      check_verification_expectations c)"

section \<open>The report\<close>

text \<open>\<open>research\<close> and \<open>codebase\<close> are the findings of a brief and the risks of an analysis; only their
  number is used.\<close>

definition build_in_memory_report ::
  "date_time \<Rightarrow> date_time \<Rightarrow> plan_artifacts \<Rightarrow> 'f list option \<Rightarrow> 'r list option \<Rightarrow> plan_validation_report" where
  "build_in_memory_report graph_now now artifacts research codebase =
     (let graph = build_dependency_graph graph_now artifacts;
          c = checker_new artifacts;
          c = (case research of None \<Rightarrow> c | Some findings \<Rightarrow> with_research (length findings) c);
          c = (case codebase of None \<Rightarrow> c | Some risks \<Rightarrow> with_codebase (length risks) c)
      in \<lparr>pvr_planning_wave = pa_planning_wave artifacts, pvr_generated_at = now,
          pvr_dependency_graph = Some graph, pvr_plan_checks = run_checks c,
          pvr_manifest_validation = None\<rparr>)"

definition attach_manifest_validation ::
  "manifest_validation_result \<Rightarrow> plan_validation_report \<Rightarrow> plan_validation_report" where
  "attach_manifest_validation result report = report\<lparr>pvr_manifest_validation := Some result\<rparr>"

end
