(* ===== verification/Planning_Report.thy ===== *)
theory Planning_Report
  imports Planning_Checks
begin

text \<open>
  What a validation report says: which plans the checker reports errors for, which edges the
  dependency graph has, and what the check of inverse blockers reports.
\<close>

section \<open>Errors\<close>

definition issue_acceptable :: "planned_issue \<Rightarrow> bool" where
  "issue_acceptable i \<longleftrightarrow> pli_acceptance_criteria i \<noteq> [] \<and>
     (\<forall>s \<in> set (pli_sub_issues i). psi_verification_steps s \<noteq> [])"

definition plan_acceptable :: "plan_artifacts \<Rightarrow> bool" where
  "plan_acceptable a \<longleftrightarrow> pa_milestones a \<noteq> [] \<and>
     (\<forall>m \<in> set (pa_milestones a). trim (plm_name m) \<noteq> [] \<and> (\<forall>i \<in> set (plm_issues m). issue_acceptable i)) \<and>
     acyclic (depends (plan_tasks (pa_milestones a)))"

definition error_free :: "plan_check_finding list \<Rightarrow> bool" where
  "error_free fs \<longleftrightarrow> (\<forall>f \<in> set fs. pcf_severity f \<noteq> CheckError)"

lemma error_free_simps [simp]:
  "error_free []" "error_free (f # fs) \<longleftrightarrow> pcf_severity f \<noteq> CheckError \<and> error_free fs"
  "error_free (fs @ gs) \<longleftrightarrow> error_free fs \<and> error_free gs"
  "error_free (concat (map g xs)) \<longleftrightarrow> (\<forall>x \<in> set xs. error_free (g x))"
  "error_free (sort_key k fs) \<longleftrightarrow> error_free fs"
  by (auto simp: error_free_def)

lemma error_free_if [simp]:
  "error_free (if b then fs else gs) \<longleftrightarrow> (if b then error_free fs else error_free gs)"
  by simp

lemma scope_errors:
  "error_free (check_scope_clarity c) \<longleftrightarrow> pa_milestones (pqc_artifacts c) \<noteq> [] \<and>
     (\<forall>m \<in> set (pa_milestones (pqc_artifacts c)). trim (plm_name m) \<noteq> [])"
  by (simp add: check_scope_clarity_def check_milestone_scope_def)

lemma cycle_errors:
  "error_free (check_dependency_cycle c) \<longleftrightarrow>
     acyclic (depends (plan_tasks (pa_milestones (pqc_artifacts c))))"
  using validate_iff_acyclic [of "pqc_artifacts c"]
  by (auto simp: check_dependency_cycle_def split: sum.split)

lemma inverse_errors: "error_free (check_missing_inverse_blockers c)"
  by (simp add: check_missing_inverse_blockers_def check_task_blocker_inverse_def Let_def)

lemma criteria_errors:
  "error_free (check_acceptance_criteria c) \<and> error_free (check_verification_expectations c) \<longleftrightarrow>
     (\<forall>m \<in> set (pa_milestones (pqc_artifacts c)). \<forall>i \<in> set (plm_issues m). issue_acceptable i)"
  by (auto simp: check_acceptance_criteria_def check_issue_criteria_def issue_acceptable_def
      check_verification_expectations_def check_issue_verification_def)

lemma run_checks_errors: "error_free (run_checks c) \<longleftrightarrow> plan_acceptable (pqc_artifacts c)"
proof -
  have "error_free (check_research_coverage c)" "error_free (check_codebase_analysis c)"
    by (simp_all add: check_research_coverage_def check_codebase_analysis_def)
  then show ?thesis
    using criteria_errors [of c]
    by (simp add: run_checks_def plan_acceptable_def scope_errors cycle_errors inverse_errors) blast
qed

section \<open>Inverse blockers\<close>

lemma collect_inverse_get:
  "t \<in> set (unwrap_or (omap_get (collect_inverse m k) d) []) \<longleftrightarrow>
     t \<in> set (unwrap_or (omap_get m d) []) \<or> t = bt_id k \<and> d \<in> set (bt_blocked_by k)"
proof -
  have "t \<in> set (unwrap_or (omap_get (fold (\<lambda>b. omap_update b [] (insort_insert (bt_id k))) bs m) d) []) \<longleftrightarrow>
      t \<in> set (unwrap_or (omap_get m d) []) \<or> t = bt_id k \<and> d \<in> set bs" for bs
    by (induction bs arbitrary: m) (auto simp: omap_get_update set_insort_insert)
  then show ?thesis by (simp add: collect_inverse_def)
qed

lemma blocker_inverse_get:
  "t \<in> set (unwrap_or (omap_get (build_blocker_inverse a) d) []) \<longleftrightarrow>
     d \<in> blockers (plan_tasks (pa_milestones a)) t"
proof -
  have "t \<in> set (unwrap_or (omap_get (foldl collect_inverse m ks) d) []) \<longleftrightarrow>
      t \<in> set (unwrap_or (omap_get m d) []) \<or> d \<in> blockers ks t" for m ks
    by (induction ks arbitrary: m) (auto simp: collect_inverse_get blockers_def)
  from this [of "[]"] show ?thesis by (simp add: build_blocker_inverse_def)
qed

lemma run_checks_inverse:
  assumes "k \<in> set (plan_tasks (pa_milestones (pqc_artifacts c)))" and "d \<in> set (bt_blocks k)"
    and "d \<notin> blockers (plan_tasks (pa_milestones (pqc_artifacts c))) (bt_id k)"
  shows "\<exists>f \<in> set (run_checks c). pcf_severity f = CheckWarning \<and> pcf_task_id f = Some (bt_id k) \<and>
    pcf_field f = ''blocks''"
proof -
  obtain m where m: "m \<in> set (pa_milestones (pqc_artifacts c))"
    "k \<in> set (concat (map issue_tasks (plm_issues m)))" using assms(1) by (auto simp: plan_tasks_def)
  let ?inv = "build_blocker_inverse (pqc_artifacts c)"
  have "bt_id k \<notin> set (unwrap_or (omap_get ?inv d) [])" using assms(3) by (simp add: blocker_inverse_get)
  with assms(2) have "\<exists>f \<in> set (check_task_blocker_inverse k m ?inv). pcf_severity f = CheckWarning \<and>
      pcf_task_id f = Some (bt_id k) \<and> pcf_field f = ''blocks''"
    by (force simp: check_task_blocker_inverse_def Let_def)
  with m show ?thesis
    by (simp add: run_checks_def check_missing_inverse_blockers_def Let_def) blast
qed

section \<open>Edges\<close>

text \<open>The edges a plan has between two tasks.\<close>

definition plan_edge :: "planned_milestone list \<Rightarrow> task_id \<Rightarrow> task_id \<Rightarrow> graph_edge_reason \<Rightarrow> bool" where
  "plan_edge ms x y r \<longleftrightarrow> (\<exists>m \<in> set ms.
     (\<exists>i \<in> set (plm_issues m). r = ParentOf \<and> x = pli_id i \<and> y \<in> psi_id ` set (pli_sub_issues i)) \<or>
     (\<exists>k \<in> set (plan_tasks [m]).
        y = bt_id k \<and> x \<in> set (bt_blocked_by k) \<and>
          r = (if x \<in> collect_all_task_ids m then BlockedBy else UnknownTarget) \<or>
        x = bt_id k \<and> y \<in> set (bt_blocks k) \<and>
          r = (if y \<in> collect_all_task_ids m then BlocksInvariant else UnknownTarget)))"

definition edge_view :: "graph_edge \<Rightarrow> task_id \<times> task_id \<times> graph_edge_reason" where
  "edge_view e = (ge_from e, ge_to e, ge_relation e)"

lemma blocker_edges_view:
  "edge_view ` set (push_blocker_edges k m ids lookup) =
     {(x, bt_id k, if x \<in> ids then BlockedBy else UnknownTarget) | x. x \<in> set (bt_blocked_by k)} \<union>
     {(bt_id k, y, if y \<in> ids then BlocksInvariant else UnknownTarget) | y. y \<in> set (bt_blocks k)}"
  by (auto simp: push_blocker_edges_def edge_view_def image_Un image_image split_beta)

lemma UN_parts:
  "(\<Union>i \<in> I. (\<Union>s \<in> S i. insert (p i s) (F (g s))) \<union> F (h i)) =
     (\<Union>i \<in> I. p i ` S i) \<union> (\<Union>k \<in> (\<Union>i \<in> I. insert (h i) (g ` S i)). F k)"
  by blast

lemma milestone_edges_view:
  "edge_view ` set (collect_milestone_edges m) =
     (\<Union>i \<in> set (plm_issues m). (\<lambda>s. (pli_id i, psi_id s, ParentOf)) ` set (pli_sub_issues i)) \<union>
     (\<Union>k \<in> set (plan_tasks [m]). edge_view ` set (push_blocker_edges k m (collect_all_task_ids m)
        (build_task_file_lookup m)))"
proof -
  define F where "F k = edge_view ` set (push_blocker_edges k m (collect_all_task_ids m)
    (build_task_file_lookup m))" for k
  have tasks: "set (plan_tasks [m]) =
      (\<Union>i \<in> set (plm_issues m). insert (issue_task i) (sub_issue_task ` set (pli_sub_issues i)))"
    by (simp add: plan_tasks_def issue_tasks_def)
  have "edge_view ` set (collect_milestone_edges m) =
      (\<Union>i \<in> set (plm_issues m). (\<Union>s \<in> set (pli_sub_issues i).
        insert (pli_id i, psi_id s, ParentOf) (F (sub_issue_task s))) \<union> F (issue_task i))"
    by (simp add: collect_milestone_edges_def Let_def image_Un image_UN F_def push_parent_edge_def)
      (simp add: edge_view_def)
  also have "\<dots> = (\<Union>i \<in> set (plm_issues m). (\<lambda>s. (pli_id i, psi_id s, ParentOf)) ` set (pli_sub_issues i)) \<union>
      (\<Union>k \<in> set (plan_tasks [m]). F k)"
    unfolding tasks by (rule UN_parts)
  finally show ?thesis by (simp only: F_def)
qed

lemma blocker_edge:
  "(x, y, r) \<in> edge_view ` set (push_blocker_edges k m ids lookup) \<longleftrightarrow>
     y = bt_id k \<and> x \<in> set (bt_blocked_by k) \<and> r = (if x \<in> ids then BlockedBy else UnknownTarget) \<or>
     x = bt_id k \<and> y \<in> set (bt_blocks k) \<and> r = (if y \<in> ids then BlocksInvariant else UnknownTarget)"
  unfolding blocker_edges_view by auto

lemma milestone_edge:
  "(x, y, r) \<in> edge_view ` set (collect_milestone_edges m) \<longleftrightarrow>
     (\<exists>i \<in> set (plm_issues m). r = ParentOf \<and> x = pli_id i \<and> y \<in> psi_id ` set (pli_sub_issues i)) \<or>
     (\<exists>k \<in> set (plan_tasks [m]).
        y = bt_id k \<and> x \<in> set (bt_blocked_by k) \<and>
          r = (if x \<in> collect_all_task_ids m then BlockedBy else UnknownTarget) \<or>
        x = bt_id k \<and> y \<in> set (bt_blocks k) \<and>
          r = (if y \<in> collect_all_task_ids m then BlocksInvariant else UnknownTarget))"
proof -
  have "(x, y, r) \<in> (\<lambda>s. (pli_id i, psi_id s, ParentOf)) ` set (pli_sub_issues i) \<longleftrightarrow>
      r = ParentOf \<and> x = pli_id i \<and> y \<in> psi_id ` set (pli_sub_issues i)" for i :: planned_issue
    by auto
  then show ?thesis
    by (simp only: milestone_edges_view Un_iff UN_iff blocker_edge)
qed

section \<open>Properties\<close>

text \<open>C18: the report on a plan has an error exactly when the plan has no milestone, a milestone
  without a name, an issue without acceptance criteria, a sub-issue without verification steps, or a
  cycle of dependencies; no research brief or code analysis changes that.\<close>

theorem report_errors_exact:
  "report_has_errors (\<lambda>s. s = CheckError) (build_in_memory_report graph_now now artifacts research codebase)
     \<longleftrightarrow> \<not> plan_acceptable artifacts"
proof -
  define c where "c = (case codebase of None \<Rightarrow> (\<lambda>c. c) | Some risks \<Rightarrow> with_codebase (length risks))
    ((case research of None \<Rightarrow> (\<lambda>c. c) | Some fs \<Rightarrow> with_research (length fs)) (checker_new artifacts))"
  have "pvr_plan_checks (build_in_memory_report graph_now now artifacts research codebase) = run_checks c"
    "pvr_manifest_validation (build_in_memory_report graph_now now artifacts research codebase) = None"
    by (auto simp: build_in_memory_report_def Let_def c_def split: option.split)
  moreover have "pqc_artifacts c = artifacts"
    by (simp add: c_def checker_new_def with_research_def with_codebase_def split: option.split)
  ultimately show ?thesis
    using run_checks_errors [of c] by (auto simp: report_has_errors_def error_free_def list_ex_iff)
qed

text \<open>On a plan without cycles, every declared \<open>blocks\<close> arrow is reported as missing its inverse,
  also when the blocked task does list the blocker.\<close>

theorem declared_blocks_always_reported:
  assumes "validate_dependency_graph (pqc_artifacts c) = Ok ()"
    and "k \<in> set (plan_tasks (pa_milestones (pqc_artifacts c)))" and "d \<in> set (bt_blocks k)"
  shows "\<exists>f \<in> set (run_checks c). pcf_severity f = CheckWarning \<and> pcf_task_id f = Some (bt_id k) \<and>
    pcf_field f = ''blocks''"
proof (rule run_checks_inverse [OF assms(2,3)])
  let ?E = "depends (plan_tasks (pa_milestones (pqc_artifacts c)))"
  show "d \<notin> blockers (plan_tasks (pa_milestones (pqc_artifacts c))) (bt_id k)"
  proof
    assume "d \<in> blockers (plan_tasks (pa_milestones (pqc_artifacts c))) (bt_id k)"
    then have "(bt_id k, d) \<in> ?E" by (rule depends_of_blockers)
    moreover have "(d, bt_id k) \<in> ?E" using assms(2,3) by (auto simp: depends_def)
    ultimately have "(d, d) \<in> ?E\<^sup>+" by auto
    with assms(1) show False by (auto simp: validate_iff_acyclic acyclic_def)
  qed
qed

text \<open>The dependency graph has the edges of the plan and no others: an edge from every issue to
  each of its sub-issues, one for every declared blocker and one for every declared blocked task; a
  task outside the milestone is an unknown target even when another milestone declares it.\<close>

theorem graph_edges_exact:
  "(x, y, r) \<in> edge_view ` set (dg_edges (build_dependency_graph now artifacts)) \<longleftrightarrow>
     plan_edge (pa_milestones artifacts) x y r"
proof -
  have "edge_view ` set (dg_edges (build_dependency_graph now artifacts)) =
      (\<Union>m \<in> set (pa_milestones artifacts). edge_view ` set (collect_milestone_edges m))"
    by (simp add: build_dependency_graph_def image_UN)
  then show ?thesis by (simp only: UN_iff milestone_edge plan_edge_def)
qed

section \<open>Witnesses\<close>

text \<open>Task \<open>a\<close> declares that it blocks \<open>b\<close>, and \<open>b\<close> that it is blocked by \<open>a\<close>.\<close>

definition example_blocks_plan :: plan_artifacts where
  "example_blocks_plan = (example_plan [])\<lparr>pa_milestones := map (\<lambda>m. m\<lparr>plm_issues := map (\<lambda>i.
     if pli_id i = TaskId ''a'' then i\<lparr>pli_blocks := [TaskId ''b'']\<rparr> else i) (plm_issues m)\<rparr>)
     (pa_milestones (example_plan []))\<rparr>"

lemma declared_blocks_always_reported_witness:
  "TaskId ''a'' \<in> blockers (plan_tasks (pa_milestones example_blocks_plan)) (TaskId ''b'') \<and>
     (\<exists>f \<in> set (run_checks (checker_new example_blocks_plan)). pcf_severity f = CheckWarning \<and>
        pcf_task_id f = Some (TaskId ''a'') \<and> pcf_field f = ''blocks'')"
proof
  let ?k = "\<lparr>bt_id = TaskId ''a'', bt_blocked_by = [], bt_blocks = [TaskId ''b'']\<rparr>"
  have tasks: "plan_tasks (pa_milestones example_blocks_plan) =
      [?k, \<lparr>bt_id = TaskId ''b'', bt_blocked_by = [TaskId ''a''], bt_blocks = []\<rparr>]"
    by (simp add: example_blocks_plan_def example_plan_def example_plan_issue_def plan_tasks_def
        issue_tasks_def issue_task_def)
  then show "TaskId ''a'' \<in> blockers (plan_tasks (pa_milestones example_blocks_plan)) (TaskId ''b'')"
    by (simp add: blockers_def)
  have ok: "validate_dependency_graph (pqc_artifacts (checker_new example_blocks_plan)) = Ok ()" by code_simp
  have k: "?k \<in> set (plan_tasks (pa_milestones (pqc_artifacts (checker_new example_blocks_plan))))"
    by (simp add: checker_new_def tasks)
  from declared_blocks_always_reported [OF ok k] show "\<exists>f \<in> set (run_checks (checker_new example_blocks_plan)).
      pcf_severity f = CheckWarning \<and> pcf_task_id f = Some (TaskId ''a'') \<and> pcf_field f = ''blocks''" by simp
qed

end
