(* ===== verification/Planning_Linear.thy ===== *)
theory Planning_Linear
  imports Planning_Model Redaction "HOL-Library.Option_ord" "HOL-Library.Multiset"
begin

text \<open>
  \<open>domain.rs\<close> and \<open>linear_graph.rs\<close> of \<open>opensymphony-planning\<close>: the tracker issues a planning
  session looks at and the analysis of their graph. The state kinds are those of \<open>Issues\<close>, which
  \<open>domain.rs\<close> repeats. Counts of issues are natural numbers.
\<close>

section \<open>Tracker issues of a planning session\<close>

record graph_issue_ref =
  gir_id :: string
  gir_identifier :: string
  gir_title :: "string option"
  gir_url :: "string option"
  gir_state :: string

record graph_project_milestone =
  gpm_id :: string
  gpm_name :: string

record graph_issue_blocker =
  gib_id :: string
  gib_identifier :: string
  gib_title :: string
  gib_state :: string
  gib_state_kind :: "tracker_issue_state_kind option"

definition graph_blocker_is_terminal :: "graph_issue_blocker \<Rightarrow> bool" where
  "graph_blocker_is_terminal b =
     (case gib_state_kind b of
        Some kind \<Rightarrow> kind_is_terminal kind
      | None \<Rightarrow> kind_is_terminal (kind_from_tracker_type (gib_state b)))"

record graph_issue =
  gi_id :: string
  gi_identifier :: string
  gi_url :: string
  gi_title :: string
  gi_description :: "string option"
  gi_priority :: "u8 option"
  gi_state :: string
  gi_labels :: "string list"
  gi_parent_id :: "string option"
  gi_parent :: "graph_issue_ref option"
  gi_project_milestone :: "graph_project_milestone option"
  gi_blocked_by :: "graph_issue_blocker list"
  gi_sub_issues :: "graph_issue_ref list"
  gi_created_at :: date_time
  gi_updated_at :: date_time

section \<open>The analysis\<close>

record milestone_summary =
  mis_milestone_id :: string
  mis_milestone_name :: string
  mis_issue_count :: nat
  mis_active_issue_count :: nat
  mis_completed_issue_count :: nat
  mis_canceled_issue_count :: nat

record blocker_snapshot =
  bs_blocker_id :: string
  bs_blocker_identifier :: string
  bs_blocker_title :: string
  bs_blocker_state :: string
  bs_is_terminal :: bool

record blocker_chain =
  bc_issue_id :: string
  bc_issue_identifier :: string
  bc_issue_title :: string
  bc_blockers :: "blocker_snapshot list"
  bc_is_resolved :: bool

record issue_snapshot =
  isn_id :: string
  isn_identifier :: string
  isn_title :: string
  isn_state :: string
  isn_priority :: "u8 option"

record child_ref =
  chr_id :: string
  chr_identifier :: string
  chr_state :: string

record parent_child_relationship =
  pcr_parent_id :: string
  pcr_parent_identifier :: string
  pcr_children :: "child_ref list"

record linear_graph_analysis =
  lga_project_name :: string
  lga_project_id :: string
  lga_analyzed_at :: date_time
  lga_total_issues :: nat
  lga_issues_by_state :: "(string, nat) omap"
  lga_issues_by_priority :: "(u8 option, nat) omap"
  lga_milestones :: "milestone_summary list"
  lga_blocker_chains :: "blocker_chain list"
  lga_unblocked_issues :: "issue_snapshot list"
  lga_blocked_issues :: "issue_snapshot list"
  lga_terminal_issues :: "issue_snapshot list"
  lga_active_issues :: "issue_snapshot list"
  lga_label_distribution :: "(string, nat) omap"
  lga_parent_child_relationships :: "parent_child_relationship list"
  lga_constraints_summary :: string

text \<open>What the loop over the issues collects.\<close>

record graph_tally =
  gt_by_state :: "(string, nat) omap"
  gt_by_priority :: "(u8 option, nat) omap"
  gt_labels :: "(string, nat) omap"
  gt_milestones :: "(string, milestone_summary) omap"
  gt_unblocked :: "issue_snapshot list"
  gt_blocked :: "issue_snapshot list"
  gt_terminal :: "issue_snapshot list"
  gt_active :: "issue_snapshot list"
  gt_parents :: "(string, parent_child_relationship) omap"

definition snapshot_of :: "graph_issue \<Rightarrow> issue_snapshot" where
  "snapshot_of i = \<lparr>isn_id = gi_id i, isn_identifier = gi_identifier i, isn_title = gi_title i,
     isn_state = gi_state i, isn_priority = gi_priority i\<rparr>"

definition empty_summary :: "graph_project_milestone \<Rightarrow> milestone_summary" where
  "empty_summary m = \<lparr>mis_milestone_id = gpm_id m, mis_milestone_name = gpm_name m, mis_issue_count = 0,
     mis_active_issue_count = 0, mis_completed_issue_count = 0, mis_canceled_issue_count = 0\<rparr>"

definition count_in_milestone :: "tracker_issue_state_kind \<Rightarrow> milestone_summary \<Rightarrow> milestone_summary" where
  "count_in_milestone kind ms =
     (let ms = ms\<lparr>mis_issue_count := mis_issue_count ms + 1\<rparr> in
      if kind_is_terminal kind then
        (case kind of
           KCompleted \<Rightarrow> ms\<lparr>mis_completed_issue_count := mis_completed_issue_count ms + 1\<rparr>
         | KCanceled \<Rightarrow> ms\<lparr>mis_canceled_issue_count := mis_canceled_issue_count ms + 1\<rparr>
         | _ \<Rightarrow> ms)
      else ms\<lparr>mis_active_issue_count := mis_active_issue_count ms + 1\<rparr>)"

definition add_child :: "graph_issue \<Rightarrow> parent_child_relationship \<Rightarrow> parent_child_relationship" where
  "add_child i r = r\<lparr>pcr_children := pcr_children r @
     [\<lparr>chr_id = gi_id i, chr_identifier = gi_identifier i, chr_state = gi_state i\<rparr>]\<rparr>"

definition tally_issue :: "graph_tally \<Rightarrow> graph_issue \<Rightarrow> graph_tally" where
  "tally_issue t i =
     (let snapshot = snapshot_of i; kind = kind_from_tracker_type (gi_state i);
          has_active_blockers = list_ex (\<lambda>b. \<not> graph_blocker_is_terminal b) (gi_blocked_by i)
      in \<lparr>gt_by_state = omap_update (gi_state i) 0 Suc (gt_by_state t),
          gt_by_priority = omap_update (gi_priority i) 0 Suc (gt_by_priority t),
          gt_labels = foldl (\<lambda>m label. omap_update label 0 Suc m) (gt_labels t) (gi_labels i),
          gt_milestones = (case gi_project_milestone i of
              None \<Rightarrow> gt_milestones t
            | Some m \<Rightarrow> omap_update (gpm_id m) (empty_summary m) (count_in_milestone kind) (gt_milestones t)),
          gt_unblocked = (if has_active_blockers then gt_unblocked t else gt_unblocked t @ [snapshot]),
          gt_blocked = (if has_active_blockers then gt_blocked t @ [snapshot] else gt_blocked t),
          gt_terminal = (if kind_is_terminal kind then gt_terminal t @ [snapshot] else gt_terminal t),
          gt_active = (if kind_is_terminal kind then gt_active t else gt_active t @ [snapshot]),
          gt_parents = (case gi_parent i of
              None \<Rightarrow> gt_parents t
            | Some parent \<Rightarrow> omap_update (gir_id parent)
                \<lparr>pcr_parent_id = gir_id parent, pcr_parent_identifier = gir_identifier parent,
                 pcr_children = []\<rparr> (add_child i) (gt_parents t))\<rparr>)"

definition tally_start :: graph_tally where
  "tally_start = \<lparr>gt_by_state = [], gt_by_priority = [], gt_labels = [], gt_milestones = [],
     gt_unblocked = [], gt_blocked = [], gt_terminal = [], gt_active = [], gt_parents = []\<rparr>"

definition blocker_chain_of :: "graph_issue \<Rightarrow> blocker_chain" where
  "blocker_chain_of i = \<lparr>bc_issue_id = gi_id i, bc_issue_identifier = gi_identifier i,
     bc_issue_title = gi_title i,
     bc_blockers = map (\<lambda>b. \<lparr>bs_blocker_id = gib_id b, bs_blocker_identifier = gib_identifier b,
       bs_blocker_title = gib_title b, bs_blocker_state = gib_state b,
       bs_is_terminal = graph_blocker_is_terminal b\<rparr>) (gi_blocked_by i),
     bc_is_resolved = list_all graph_blocker_is_terminal (gi_blocked_by i)\<rparr>"

definition blocker_chains :: "graph_issue list \<Rightarrow> blocker_chain list" where
  "blocker_chains issues = map blocker_chain_of (filter (\<lambda>i. gi_blocked_by i \<noteq> []) issues)"

definition build_constraints_summary ::
  "(string, nat) omap \<Rightarrow> blocker_chain list \<Rightarrow> (string, milestone_summary) omap \<Rightarrow> string" where
  "build_constraints_summary by_state bchains milestones =
     (let active_blockers = length (filter (\<lambda>c. \<not> bc_is_resolved c) bchains);
          terminal_count = sum_list (map snd
            (filter (\<lambda>(state, _). kind_is_terminal (kind_from_tracker_type state)) by_state));
          summary =
            (if active_blockers > 0
             then [show_nat active_blockers @ '' issue(s) have unresolved blockers''] else []) @
            (if terminal_count > 0 then [show_nat terminal_count @ '' terminal issue(s)''] else []) @
            (if length milestones > 0 then [show_nat (length milestones) @ '' milestone(s) defined''] else [])
      in if summary = [] then ''No active constraints detected'' else join_words ''; '' summary)"

definition analyze_graph ::
  "string \<Rightarrow> string \<Rightarrow> date_time \<Rightarrow> graph_issue list \<Rightarrow> linear_graph_analysis" where
  "analyze_graph project_name project_id analyzed_at issues =
     (let t = foldl tally_issue tally_start issues; bchains = blocker_chains issues
      in \<lparr>lga_project_name = project_name, lga_project_id = project_id, lga_analyzed_at = analyzed_at,
          lga_total_issues = length issues, lga_issues_by_state = gt_by_state t,
          lga_issues_by_priority = gt_by_priority t, lga_milestones = map snd (gt_milestones t),
          lga_blocker_chains = bchains, lga_unblocked_issues = gt_unblocked t,
          lga_blocked_issues = gt_blocked t, lga_terminal_issues = gt_terminal t,
          lga_active_issues = gt_active t, lga_label_distribution = gt_labels t,
          lga_parent_child_relationships = map snd (gt_parents t),
          lga_constraints_summary = build_constraints_summary (gt_by_state t) bchains (gt_milestones t)\<rparr>)"

section \<open>What the analysis accounts for\<close>

definition summary_adds_up :: "milestone_summary \<Rightarrow> bool" where
  "summary_adds_up ms \<longleftrightarrow> mis_issue_count ms =
     mis_active_issue_count ms + mis_completed_issue_count ms + mis_canceled_issue_count ms"

lemma count_in_milestone_adds_up: "summary_adds_up ms \<Longrightarrow> summary_adds_up (count_in_milestone kind ms)"
  by (cases kind) (auto simp: summary_adds_up_def count_in_milestone_def Let_def)

lemma count_in_milestone_count [simp]: "mis_issue_count (count_in_milestone kind ms) = Suc (mis_issue_count ms)"
  by (cases kind) (auto simp: count_in_milestone_def Let_def)

lemma sum_omap_insert:
  "omap_wf m \<Longrightarrow> sum_list (map (\<lambda>e. f (snd e)) (omap_insert k v m)) + (case omap_get m k of None \<Rightarrow> 0 | Some w \<Rightarrow> f w) =
     sum_list (map (\<lambda>e. f (snd e)) m) + (f v :: nat)"
proof (induction m)
  case (Cons e m)
  obtain k' v' where e: "e = (k', v')" by (cases e)
  have "omap_get m k = None" if "k \<le> k'"
    using Cons.prems that by (force simp: e omap_get_None_iff)
  then show ?case using Cons by (auto simp: e omap_get_def split: option.splits)
qed (simp add: omap_get_def)

lemma sum_count_update:
  assumes "omap_wf m"
  shows "sum_list (map snd (omap_update k 0 Suc m)) = Suc (sum_list (map snd m))"
  using sum_omap_insert [OF assms, of "\<lambda>v. v" k "Suc (unwrap_or (omap_get m k) 0)"]
  by (auto simp: omap_update_def split: option.splits)

lemma set_omap_insert: "set (omap_insert k v m) \<subseteq> insert (k, v) (set m)"
  by (induction k v m rule: omap_insert.induct) auto

definition tally_accounts :: "graph_tally \<Rightarrow> graph_issue list \<Rightarrow> bool" where
  "tally_accounts t issues \<longleftrightarrow>
     mset (gt_unblocked t) + mset (gt_blocked t) = mset (map snapshot_of issues) \<and>
     mset (gt_terminal t) + mset (gt_active t) = mset (map snapshot_of issues) \<and>
     omap_wf (gt_by_state t) \<and> sum_list (map snd (gt_by_state t)) = length issues \<and>
     omap_wf (gt_by_priority t) \<and> sum_list (map snd (gt_by_priority t)) = length issues \<and>
     omap_wf (gt_milestones t) \<and> list_all summary_adds_up (map snd (gt_milestones t)) \<and>
     sum_list (map mis_issue_count (map snd (gt_milestones t))) =
       length (filter (\<lambda>i. gi_project_milestone i \<noteq> None) issues)"

lemma milestone_update_accounts:
  assumes "omap_wf m" and "list_all summary_adds_up (map snd m)"
  shows "list_all summary_adds_up (map snd (omap_update k (empty_summary p) (count_in_milestone kind) m)) \<and>
    sum_list (map mis_issue_count (map snd (omap_update k (empty_summary p) (count_in_milestone kind) m))) =
      Suc (sum_list (map mis_issue_count (map snd m)))"
proof
  let ?old = "unwrap_or (omap_get m k) (empty_summary p)"
  have "summary_adds_up ?old"
  proof (cases "omap_get m k")
    case (Some ms)
    then have "(k, ms) \<in> set m" using assms(1) by (simp add: omap_get_Some_iff)
    with Some assms(2) show ?thesis by (auto simp: list_all_iff)
  qed (simp add: summary_adds_up_def empty_summary_def)
  then show "list_all summary_adds_up (map snd (omap_update k (empty_summary p) (count_in_milestone kind) m))"
    using assms(2) set_omap_insert [of k "count_in_milestone kind ?old" m] count_in_milestone_adds_up
    by (fastforce simp: omap_update_def list_all_iff)
  show "sum_list (map mis_issue_count (map snd (omap_update k (empty_summary p) (count_in_milestone kind) m))) =
      Suc (sum_list (map mis_issue_count (map snd m)))"
    using sum_omap_insert [OF assms(1), of mis_issue_count k "count_in_milestone kind ?old"]
    by (cases "omap_get m k") (auto simp: omap_update_def empty_summary_def comp_def)
qed

lemma tally_issue_accounts:
  assumes "tally_accounts t issues" shows "tally_accounts (tally_issue t i) (issues @ [i])"
proof -
  have "omap_wf (gt_milestones (tally_issue t i)) \<and>
      list_all summary_adds_up (map snd (gt_milestones (tally_issue t i))) \<and>
      sum_list (map mis_issue_count (map snd (gt_milestones (tally_issue t i)))) =
        length (filter (\<lambda>i. gi_project_milestone i \<noteq> None) (issues @ [i]))"
    using assms milestone_update_accounts [of "gt_milestones t"]
    by (cases "gi_project_milestone i") (simp_all add: tally_accounts_def tally_issue_def Let_def omap_wf_update)
  then show ?thesis
    using assms by (simp add: tally_accounts_def tally_issue_def Let_def sum_count_update omap_wf_update)
qed

lemma tally_all: "tally_accounts (foldl tally_issue tally_start issues) issues"
proof (induction issues rule: rev_induct)
  case (snoc i issues)
  then show ?case by (simp add: tally_issue_accounts)
qed (simp add: tally_accounts_def tally_start_def)


end
