(* ===== verification/Planning_Research.thy ===== *)
theory Planning_Research
  imports Planning_Linear
begin

text \<open>
  \<open>research.rs\<close> and \<open>generator/session.rs\<close> of \<open>opensymphony-planning\<close>: research briefs, the store
  a session keeps them in, and the session itself. Formatting an instant is a parameter; the code
  analysis a session carries is only asked whether it is there, so its type is a parameter.
\<close>

section \<open>Research briefs\<close>

datatype confidence_level = HighConfidence | MediumConfidence | LowConfidence

record research_finding =
  rf_summary :: string
  rf_source_url :: "string option"
  rf_source_title :: "string option"
  rf_confidence :: confidence_level
  rf_tags :: "string list"

record research_brief =
  rb_topic :: string
  rb_research_context :: string
  rb_findings :: "research_finding list"
  rb_generated_at :: date_time

datatype research_error = MissingField string

record research_brief_builder =
  rbb_topic :: string
  rbb_research_context :: string
  rbb_findings :: "research_finding list"

definition brief_builder_new :: "string \<Rightarrow> research_brief_builder" where
  "brief_builder_new topic = \<lparr>rbb_topic = topic, rbb_research_context = [], rbb_findings = []\<rparr>"

definition brief_context :: "string \<Rightarrow> research_brief_builder \<Rightarrow> research_brief_builder" where
  "brief_context ctx b = b\<lparr>rbb_research_context := ctx\<rparr>"

definition brief_add_finding ::
  "string \<Rightarrow> string option \<Rightarrow> confidence_level \<Rightarrow> research_brief_builder \<Rightarrow> research_brief_builder" where
  "brief_add_finding summary source_url confidence b =
     b\<lparr>rbb_findings := rbb_findings b @ [\<lparr>rf_summary = summary, rf_source_url = source_url,
       rf_source_title = None, rf_confidence = confidence, rf_tags = []\<rparr>]\<rparr>"

definition brief_add_finding_with_title ::
  "string \<Rightarrow> string option \<Rightarrow> string \<Rightarrow> confidence_level \<Rightarrow> string list \<Rightarrow> research_brief_builder
     \<Rightarrow> research_brief_builder" where
  "brief_add_finding_with_title summary source_url source_title confidence tags b =
     b\<lparr>rbb_findings := rbb_findings b @ [\<lparr>rf_summary = summary, rf_source_url = source_url,
       rf_source_title = Some source_title, rf_confidence = confidence, rf_tags = tags\<rparr>]\<rparr>"

definition brief_build :: "date_time \<Rightarrow> research_brief_builder \<Rightarrow> research_error + research_brief" where
  "brief_build now b =
     (if rbb_topic b = [] then Err (MissingField ''topic'')
      else Ok \<lparr>rb_topic = rbb_topic b, rb_research_context = rbb_research_context b,
        rb_findings = rbb_findings b, rb_generated_at = now\<rparr>)"

fun confidence_rank :: "confidence_level \<Rightarrow> nat" where
  "confidence_rank HighConfidence = 3"
| "confidence_rank MediumConfidence = 2"
| "confidence_rank LowConfidence = 1"

text \<open>The labels start with a coloured circle, four bytes of UTF-8.\<close>

fun confidence_label :: "confidence_level \<Rightarrow> string" where
  "confidence_label HighConfidence = [CHR 0xF0, CHR 0x9F, CHR 0x9F, CHR 0xA2] @ '' High''"
| "confidence_label MediumConfidence = [CHR 0xF0, CHR 0x9F, CHR 0x9F, CHR 0xA1] @ '' Medium''"
| "confidence_label LowConfidence = [CHR 0xF0, CHR 0x9F, CHR 0x94, CHR 0xB4] @ '' Low''"

definition findings_above :: "research_brief \<Rightarrow> confidence_level \<Rightarrow> research_finding list" where
  "findings_above b min_confidence =
     filter (\<lambda>f. confidence_rank min_confidence \<le> confidence_rank (rf_confidence f)) (rb_findings b)"

abbreviation newline :: string where "newline \<equiv> [CHR 0x0A]"

definition render_finding :: "nat \<Rightarrow> research_finding \<Rightarrow> string" where
  "render_finding i f =
     ''### '' @ show_nat (i + 1) @ '' '' @ confidence_label (rf_confidence f) @ newline @ newline @
     rf_summary f @ newline @
     (case rf_source_url f of
        None \<Rightarrow> []
      | Some url \<Rightarrow> ''- **Source:** ['' @ unwrap_or (rf_source_title f) url @ '']('' @ url @ '')'' @ newline) @
     (if rf_tags f \<noteq> [] then ''- **Tags:** '' @ join_words '', '' (rf_tags f) @ newline else []) @
     newline"

definition brief_render_markdown :: "(date_time \<Rightarrow> string) \<Rightarrow> research_brief \<Rightarrow> string" where
  "brief_render_markdown format_time b =
     ''# Research Brief: '' @ rb_topic b @ newline @ newline @
     (if rb_research_context b \<noteq> [] then ''**Context:** '' @ rb_research_context b @ newline @ newline else []) @
     ''**Generated:** '' @ format_time (rb_generated_at b) @ newline @ newline @
     ''## Findings'' @ newline @ newline @
     concat (map (\<lambda>(i, f). render_finding i f) (enumerate 0 (rb_findings b)))"

section \<open>The store\<close>

type_synonym research_artifact_store = "(string, research_brief) omap"

definition store_new :: research_artifact_store where "store_new = []"

definition store_insert :: "research_brief \<Rightarrow> research_artifact_store \<Rightarrow> research_artifact_store" where
  "store_insert b s = omap_insert (rb_topic b) b s"

definition store_get :: "research_artifact_store \<Rightarrow> string \<Rightarrow> research_brief option" where
  "store_get s topic = omap_get s topic"

definition store_topics :: "research_artifact_store \<Rightarrow> string list" where
  "store_topics s = map fst s"

definition store_is_empty :: "research_artifact_store \<Rightarrow> bool" where
  "store_is_empty s \<longleftrightarrow> s = []"

definition store_len :: "research_artifact_store \<Rightarrow> nat" where
  "store_len s = length s"

definition store_render_all :: "(date_time \<Rightarrow> string) \<Rightarrow> research_artifact_store \<Rightarrow> string" where
  "store_render_all format_time s =
     ''# Research Artifacts'' @ newline @ newline @
     concat (map (\<lambda>(i, _, b). (if i > 0 then newline @ ''---'' @ newline @ newline else []) @
       brief_render_markdown format_time b) (enumerate 0 s))"

section \<open>The session\<close>

record intake_context =
  ic_planning_wave :: string
  ic_project_description :: string
  ic_success_criteria :: "string list"
  ic_requirements :: "string list"
  ic_constraints :: "string list"
  ic_open_questions :: "string list"
  ic_reference_docs :: "string list"

record 'c planning_session =
  ps_intake :: intake_context
  ps_codebase_analysis :: "'c option"
  ps_linear_graph_analysis :: "linear_graph_analysis option"
  ps_research :: "research_artifact_store option"
  ps_tasks_dir :: string
  ps_routing_mode :: repository_routing_mode
  ps_repository_aliases :: "string list"

definition planning_session_new :: "intake_context \<Rightarrow> string \<Rightarrow> 'c planning_session" where
  "planning_session_new intake tasks_dir = \<lparr>ps_intake = intake, ps_codebase_analysis = None,
     ps_linear_graph_analysis = None, ps_research = None, ps_tasks_dir = tasks_dir,
     ps_routing_mode = LegacySingle, ps_repository_aliases = []\<rparr>"

definition with_repository_routing ::
  "repository_routing_mode \<Rightarrow> string list \<Rightarrow> 'c planning_session \<Rightarrow> 'c planning_session" where
  "with_repository_routing mode aliases s = s\<lparr>ps_routing_mode := mode, ps_repository_aliases := aliases\<rparr>"

definition with_codebase_analysis :: "'c \<Rightarrow> 'c planning_session \<Rightarrow> 'c planning_session" where
  "with_codebase_analysis analysis s = s\<lparr>ps_codebase_analysis := Some analysis\<rparr>"

definition with_linear_graph_analysis ::
  "linear_graph_analysis \<Rightarrow> 'c planning_session \<Rightarrow> 'c planning_session" where
  "with_linear_graph_analysis analysis s = s\<lparr>ps_linear_graph_analysis := Some analysis\<rparr>"

definition with_research_store :: "research_artifact_store \<Rightarrow> 'c planning_session \<Rightarrow> 'c planning_session" where
  "with_research_store store s = s\<lparr>ps_research := Some store\<rparr>"

definition session_is_complete :: "'c planning_session \<Rightarrow> bool" where
  "session_is_complete s \<longleftrightarrow> ps_codebase_analysis s \<noteq> None \<and> ps_linear_graph_analysis s \<noteq> None \<and>
     ps_research s \<noteq> None"

definition availability :: "'a option \<Rightarrow> string" where
  "availability x = (if x = None then ''missing'' else ''available'')"

definition context_summary :: "'c planning_session \<Rightarrow> string" where
  "context_summary s =
     ''Planning wave: '' @ ic_planning_wave (ps_intake s) @ newline @
     ''Requirements: '' @ show_nat (length (ic_requirements (ps_intake s))) @ '' items'' @ newline @
     ''Constraints: '' @ show_nat (length (ic_constraints (ps_intake s))) @ '' items'' @ newline @
     ''Codebase analysis: '' @ availability (ps_codebase_analysis s) @ newline @
     ''Linear graph analysis: '' @ availability (ps_linear_graph_analysis s) @ newline @
     ''Research artifacts: '' @ show_nat (case ps_research s of None \<Rightarrow> 0 | Some r \<Rightarrow> store_len r) @ newline"

end
