(* ===== verification/Planning_Generator.thy ===== *)
theory Planning_Generator
  imports Planning_Research Planning_Dependencies
begin

text \<open>
  \<open>generator/generator.rs\<close> of \<open>opensymphony-planning\<close>: the generator of plans. The task counter, a
  \<open>usize\<close>, is a 64-bit word that is passed along; an operation of the generator returns what it
  produces and the counter it leaves. A log line is dropped.
\<close>

section \<open>Text\<close>

definition hex_digit :: "nat \<Rightarrow> char" where
  "hex_digit n = (if n < 10 then char_of (48 + n) else char_of (87 + n))"

text \<open>\<open>\u\<close> and four hexadecimal digits, for a byte below 256.\<close>

definition unicode_escape :: "char \<Rightarrow> string" where
  "unicode_escape c = [CHR 0x5C, CHR ''u'', CHR ''0'', CHR ''0'', hex_digit (byte c div 16), hex_digit (byte c mod 16)]"

definition escape_char :: "char \<Rightarrow> string" where
  "escape_char c =
     (if c = CHR 0x5C then [CHR 0x5C, CHR 0x5C]
      else if c = CHR 0x22 then [CHR 0x5C, CHR 0x22]
      else if c = CHR 0x0A then [CHR 0x5C, CHR ''n'']
      else if c = CHR 0x0D then [CHR 0x5C, CHR ''r'']
      else if c = CHR 0x09 then [CHR 0x5C, CHR ''t'']
      else if c = CHR ''*'' \<or> c = CHR 0x26 \<or> byte c < 32 then unicode_escape c
      else [c])"

text \<open>A question mark is escaped where it would start a complex key.\<close>

definition yaml_escape :: "string \<Rightarrow> string" where
  "yaml_escape s =
     (if prefix ''? '' s then unicode_escape (CHR ''?'') @ concat (map escape_char (tl s))
      else concat (map escape_char s))"

definition yaml_quoted :: "string \<Rightarrow> string" where
  "yaml_quoted s = [CHR 0x22] @ yaml_escape s @ [CHR 0x22]"

definition yaml_optional_string :: "string option \<Rightarrow> string" where
  "yaml_optional_string v = (case v of None \<Rightarrow> ''null'' | Some s \<Rightarrow> yaml_quoted s)"

definition collapse_markdown_line :: "string \<Rightarrow> string" where
  "collapse_markdown_line s =
     filter (\<lambda>c. c \<noteq> CHR 0x0D) (concat (map (\<lambda>c. if c = CHR 0x0A then [CHR 0x5C, CHR ''n''] else [c]) s))"

definition render_id_list :: "task_id list \<Rightarrow> string" where
  "render_id_list ids = join_words '', '' (map task_id_str ids)"

definition render_bullets :: "string list \<Rightarrow> string" where
  "render_bullets items = join_words newline (map (\<lambda>i. ''- '' @ collapse_markdown_line i) items)"

definition render_optional_bullets :: "string list \<Rightarrow> string" where
  "render_optional_bullets items = (if items = [] then ''- None'' else render_bullets items)"

definition render_acceptance_criteria :: "acceptance_criterion list \<Rightarrow> string" where
  "render_acceptance_criteria criteria =
     join_words newline (map (\<lambda>c. ''- [ ] '' @ collapse_markdown_line (ac_description c)) criteria)"

definition render_checklist :: "string list \<Rightarrow> string" where
  "render_checklist items = join_words newline (map (\<lambda>i. ''- [ ] '' @ collapse_markdown_line i) items)"

definition render_notes :: "string option \<Rightarrow> string" where
  "render_notes notes = (case notes of None \<Rightarrow> ''None'' | Some n \<Rightarrow> collapse_markdown_line n)"

section \<open>Task ids\<close>

definition pad_zeros :: "nat \<Rightarrow> string \<Rightarrow> string" where
  "pad_zeros width s = replicate (width - length s) (CHR ''0'') @ s"

definition numbered_task_id :: "u64 \<Rightarrow> task_id" where
  "numbered_task_id n = TaskId (''TASK-'' @ pad_zeros 3 (show_nat (unat n)))"

definition next_task_id :: "u64 \<Rightarrow> task_id \<times> u64" where
  "next_task_id counter = (numbered_task_id (counter + 1), counter + 1)"

definition observe_task_id :: "u64 \<Rightarrow> task_id \<Rightarrow> u64" where
  "observe_task_id counter t =
     (case Option.bind (strip_prefix ''TASK-'' (task_id_str t)) parse_u64 of
        None \<Rightarrow> counter
      | Some number \<Rightarrow> max counter number)"

definition plan_ids :: "planned_milestone list \<Rightarrow> task_id list" where
  "plan_ids ms = concat (map (\<lambda>m. plm_id m #
     concat (map (\<lambda>i. pli_id i # map psi_id (pli_sub_issues i)) (plm_issues m))) ms)"

definition seed_task_counter_from_existing :: "u64 \<Rightarrow> plan_artifacts \<Rightarrow> u64" where
  "seed_task_counter_from_existing counter existing =
     foldl observe_task_id counter (plan_ids (pa_milestones existing))"

section \<open>Sub-issues\<close>

record sub_issue_generation_context =
  sgc_issue_id :: task_id
  sgc_requirement :: string
  sgc_planning_wave :: string
  sgc_constraints :: "string list"
  sgc_success_criteria :: "string list"

definition context_from_intake :: "task_id \<Rightarrow> string \<Rightarrow> intake_context \<Rightarrow> sub_issue_generation_context" where
  "context_from_intake issue_id requirement intake = \<lparr>sgc_issue_id = issue_id,
     sgc_requirement = requirement, sgc_planning_wave = ic_planning_wave intake,
     sgc_constraints = ic_constraints intake, sgc_success_criteria = ic_success_criteria intake\<rparr>"

definition implementation_context :: "sub_issue_generation_context \<Rightarrow> string list" where
  "implementation_context g =
     [''Parent issue: '' @ task_id_str (sgc_issue_id g), ''Planning wave: '' @ sgc_planning_wave g] @
     (if sgc_constraints g \<noteq> []
      then [''Technical constraints: '' @ join_words '', '' (sgc_constraints g)] else [])"

definition validation_context :: "sub_issue_generation_context \<Rightarrow> string list" where
  "validation_context g =
     [''Validates implementation of '' @ sgc_requirement g] @
     (if sgc_success_criteria g \<noteq> []
      then [''Success criteria: '' @ join_words ''; '' (sgc_success_criteria g)] else [])"

definition task_file_path :: "'c planning_session \<Rightarrow> task_id \<Rightarrow> string" where
  "task_file_path session t = ps_tasks_dir session @ ''/'' @ task_id_str t @ ''.md''"

definition implementation_sub_issue ::
  "'c planning_session \<Rightarrow> sub_issue_generation_context \<Rightarrow> task_id \<Rightarrow> task_id \<Rightarrow> planned_sub_issue" where
  "implementation_sub_issue session g impl_id val_id =
     \<lparr>psi_id = impl_id, psi_title = ''Implement '' @ sgc_requirement g,
      psi_summary = ''Implementation unit for '' @ sgc_requirement g @ '' in the '' @ sgc_planning_wave g @ '' planning wave'',
      psi_scope_in = [''Core implementation of '' @ sgc_requirement g],
      psi_scope_out = [''Testing and validation of '' @ sgc_requirement g],
      psi_deliverables = [''Implementation code'', ''Unit tests''],
      psi_acceptance_criteria = [\<lparr>ac_description = ''Implementation of '' @ sgc_requirement g @ '' compiles and passes tests'',
        ac_verification_command = Some ''cargo test''\<rparr>],
      psi_verification_steps = [''Run unit tests'', ''Verify code style''],
      psi_context = implementation_context g,
      psi_definition_of_ready = [''Requirements are clear and understood.'', ''Dependencies are available.''],
      psi_notes = None, psi_priority = task_priority_default, psi_estimate = Some 3, psi_blocked_by = [],
      psi_blocks = [val_id], psi_task_file = Some (task_file_path session impl_id), psi_repository = None\<rparr>"

definition validation_sub_issue ::
  "'c planning_session \<Rightarrow> sub_issue_generation_context \<Rightarrow> task_id \<Rightarrow> task_id \<Rightarrow> planned_sub_issue" where
  "validation_sub_issue session g impl_id val_id =
     \<lparr>psi_id = val_id, psi_title = ''Validate '' @ sgc_requirement g,
      psi_summary = ''Validation and testing for '' @ sgc_requirement g,
      psi_scope_in = [''Integration testing'', ''Acceptance criteria verification''],
      psi_scope_out = [''Implementation changes''],
      psi_deliverables = [''Test report'', ''Validation evidence''],
      psi_acceptance_criteria = [\<lparr>ac_description = ''All acceptance criteria for '' @ sgc_requirement g @ '' are met'',
        ac_verification_command = Some ''cargo test --all''\<rparr>],
      psi_verification_steps = [''Run integration tests'', ''Verify acceptance criteria'', ''Generate validation report''],
      psi_context = validation_context g,
      psi_definition_of_ready = [''Implementation is complete.'', ''Test environment is configured.''],
      psi_notes = None, psi_priority = task_priority_default, psi_estimate = Some 2, psi_blocked_by = [impl_id],
      psi_blocks = [], psi_task_file = Some (task_file_path session val_id), psi_repository = None\<rparr>"

definition generate_sub_issues_for_issue ::
  "'c planning_session \<Rightarrow> u64 \<Rightarrow> sub_issue_generation_context \<Rightarrow> planned_sub_issue list \<times> u64" where
  "generate_sub_issues_for_issue session counter g =
     (let (impl_id, counter) = next_task_id counter;
          (val_id, counter) = next_task_id counter
      in ([implementation_sub_issue session g impl_id val_id, validation_sub_issue session g impl_id val_id],
          counter))"

section \<open>Issues\<close>

definition new_issue ::
  "'c planning_session \<Rightarrow> intake_context \<Rightarrow> nat \<Rightarrow> string \<Rightarrow> task_id \<Rightarrow> planned_sub_issue list \<Rightarrow> task_id list
     \<Rightarrow> planned_issue" where
  "new_issue session intake idx requirement issue_id sub_issues blocked_by =
     \<lparr>pli_id = issue_id, pli_title = requirement,
      pli_summary = ''Implement '' @ requirement @ '' as a vertical deliverable for the '' @
        ic_planning_wave intake @ '' planning wave.'',
      pli_scope_in = [requirement], pli_scope_out = [],
      pli_deliverables = [''Working '' @ requirement @ '' implementation''],
      pli_acceptance_criteria = [\<lparr>ac_description = requirement @ '' meets acceptance standards'',
        ac_verification_command = None\<rparr>],
      pli_verification_steps = [''Test '' @ requirement @ '' functionality''],
      pli_context = [''Planning wave: '' @ ic_planning_wave intake,
        ''Requirement '' @ show_nat (idx + 1) @ '' of '' @ show_nat (length (ic_requirements intake))],
      pli_definition_of_ready = [''Hidden assumptions from prior discussion are written down.'',
        ''Required files, docs, and dependencies are explicitly referenced.'',
        ''A coding agent could begin execution without additional planning context.''],
      pli_notes = None, pli_priority = task_priority_default, pli_estimate = None,
      pli_blocked_by = blocked_by, pli_blocks = [], pli_sub_issues = sub_issues,
      pli_task_file = Some (task_file_path session issue_id), pli_repository = None\<rparr>"

definition amend_last :: "('a \<Rightarrow> 'a) \<Rightarrow> 'a list \<Rightarrow> 'a list" where
  "amend_last f xs = (if xs = [] then [] else butlast xs @ [f (last xs)])"

definition generate_issue ::
  "'c planning_session \<Rightarrow> intake_context \<Rightarrow> planned_issue list \<times> u64 \<Rightarrow> nat \<times> string
     \<Rightarrow> planned_issue list \<times> u64" where
  "generate_issue session intake = (\<lambda>(issues, counter) (idx, requirement).
     let (issue_id, counter) = next_task_id counter;
         (sub_issues, counter) = generate_sub_issues_for_issue session counter
           (context_from_intake issue_id requirement intake);
         blocked_by = (if idx > 0 then (if issues = [] then [] else [pli_id (last issues)]) else []);
         issues = (if blocked_by \<noteq> []
           then amend_last (\<lambda>prev. prev\<lparr>pli_blocks := pli_blocks prev @ [issue_id]\<rparr>) issues else issues)
     in (issues @ [new_issue session intake idx requirement issue_id sub_issues blocked_by], counter))"

definition generate_issues_for_milestone ::
  "'c planning_session \<Rightarrow> u64 \<Rightarrow> intake_context \<Rightarrow> planned_issue list \<times> u64" where
  "generate_issues_for_milestone session counter intake =
     foldl (generate_issue session intake) ([], counter) (enumerate 0 (ic_requirements intake))"

section \<open>Milestones\<close>

text \<open>Round robin: requirement \<open>i\<close> goes to milestone \<open>i mod n\<close>.\<close>

definition requirements_by_milestone :: "'c planning_session \<Rightarrow> nat \<Rightarrow> string list list" where
  "requirements_by_milestone session milestone_count =
     (let effective_count = max milestone_count 1 in
      foldl (\<lambda>grouped (idx, requirement).
          grouped[idx mod effective_count := grouped ! (idx mod effective_count) @ [requirement]])
        (replicate effective_count []) (enumerate 0 (ic_requirements (ps_intake session))))"

definition single_milestone ::
  "'c planning_session \<Rightarrow> u64 \<Rightarrow> planned_milestone list \<times> u64" where
  "single_milestone session counter =
     (let intake = ps_intake session;
          (milestone_id, counter) = next_task_id counter;
          (issues, counter) = generate_issues_for_milestone session counter intake
      in ([\<lparr>plm_id = milestone_id,
            plm_name = ''M1: '' @ join_words '' '' (take 3 (split_whitespace (ic_project_description intake))),
            plm_goal = ic_project_description intake, plm_issues = issues,
            plm_acceptance_criteria = map (\<lambda>c. \<lparr>ac_description = c, ac_verification_command = None\<rparr>)
              (ic_success_criteria intake),
            plm_verification_steps = [], plm_notes = None\<rparr>], counter))"

text \<open>A milestone takes an id even when it is skipped.\<close>

definition generate_milestone ::
  "'c planning_session \<Rightarrow> planned_milestone list \<times> u64 \<Rightarrow> string \<times> string list
     \<Rightarrow> planned_milestone list \<times> u64" where
  "generate_milestone session = (\<lambda>(milestones, counter) (name, requirements).
     let (milestone_id, counter) = next_task_id counter in
     if requirements = [] then (milestones, counter)
     else
       let (issues, counter) = generate_issues_for_milestone session counter
             ((ps_intake session)\<lparr>ic_requirements := requirements\<rparr>)
       in (milestones @ [\<lparr>plm_id = milestone_id, plm_name = name,
             plm_goal = ''Deliver '' @ name @ '' capabilities'', plm_issues = issues,
             plm_acceptance_criteria = [], plm_verification_steps = [], plm_notes = None\<rparr>], counter))"

definition linear_milestone_names :: "'c planning_session \<Rightarrow> string list" where
  "linear_milestone_names session =
     (case ps_linear_graph_analysis session of
        None \<Rightarrow> []
      | Some a \<Rightarrow> map mis_milestone_name (lga_milestones a))"

definition generate_milestones :: "'c planning_session \<Rightarrow> u64 \<Rightarrow> planned_milestone list \<times> u64" where
  "generate_milestones session counter =
     (let linear_milestones = linear_milestone_names session in
      if linear_milestones = [] then single_milestone session counter
      else foldl (generate_milestone session) ([], counter)
        (zip linear_milestones (requirements_by_milestone session (length linear_milestones))))"

section \<open>The manifest and the index\<close>

definition manifest_tasks_of :: "planned_milestone list \<Rightarrow> manifest_task list" where
  "manifest_tasks_of ms =
     (let entry = (\<lambda>t file. case file of None \<Rightarrow> [] | Some f \<Rightarrow> [\<lparr>mft_id = t, mft_file = f\<rparr>]) in
      concat (map (\<lambda>m. concat (map (\<lambda>i. entry (pli_id i) (pli_task_file i) @
        concat (map (\<lambda>s. entry (psi_id s) (psi_task_file s)) (pli_sub_issues i))) (plm_issues m))) ms))"

definition generate_manifest ::
  "'c planning_session \<Rightarrow> planned_milestone list \<Rightarrow> task_package_manifest option \<Rightarrow> task_package_manifest" where
  "generate_manifest session ms existing =
     (let (mode, aliases) = (case existing of
            Some m \<Rightarrow> (tpm_routing_mode m, tpm_repository_aliases m)
          | None \<Rightarrow> (ps_routing_mode session, ps_repository_aliases session))
      in \<lparr>tpm_planning_wave = ic_planning_wave (ps_intake session), tpm_tasks_dir = ps_tasks_dir session,
          tpm_milestones = map plm_name ms, tpm_tasks = manifest_tasks_of ms,
          tpm_routing_mode = mode, tpm_repository_aliases = aliases\<rparr>)"

definition index_milestone :: "planned_milestone \<Rightarrow> string" where
  "index_milestone m =
     ''## '' @ plm_name m @ newline @ newline @ ''Goal: '' @ plm_goal m @ newline @ newline @
     (if plm_issues m \<noteq> []
      then ''Tasks:'' @ newline @ newline @ concat (map (\<lambda>i.
        ''- '' @ task_id_str (pli_id i) @ '' '' @ pli_title i @ newline @
        concat (map (\<lambda>s. ''  - '' @ task_id_str (psi_id s) @ '' '' @ psi_title s @ newline) (pli_sub_issues i)))
        (plm_issues m))
      else []) @ newline"

definition render_milestone_index :: "planned_milestone list \<Rightarrow> string" where
  "render_milestone_index ms = ''# Project Milestones'' @ newline @ newline @ concat (map index_milestone ms)"

section \<open>Task files\<close>

definition estimate_text :: "u8 option \<Rightarrow> string" where
  "estimate_text e = (case e of None \<Rightarrow> ''null'' | Some n \<Rightarrow> show_nat (unat n))"

definition front_matter_lines ::
  "task_id \<Rightarrow> string \<Rightarrow> string \<Rightarrow> task_priority \<Rightarrow> u8 option \<Rightarrow> task_id list \<Rightarrow> task_id list \<Rightarrow> string
     \<Rightarrow> string option \<Rightarrow> string list" where
  "front_matter_lines t title milestone priority estimate blocked_by blocks parent repository =
     [''id: '' @ task_id_str t, ''title: '' @ yaml_quoted title, ''milestone: '' @ yaml_quoted milestone,
      ''priority: '' @ show_nat (unat (as_linear_priority priority)), ''estimate: '' @ estimate_text estimate,
      ''blockedBy: ['' @ render_id_list blocked_by @ '']'', ''blocks: ['' @ render_id_list blocks @ '']'',
      ''parent: '' @ parent, ''repository: '' @ yaml_optional_string repository]"

definition body_lines ::
  "string \<Rightarrow> string list \<Rightarrow> string list \<Rightarrow> string list \<Rightarrow> acceptance_criterion list \<Rightarrow> string list
     \<Rightarrow> string list \<Rightarrow> string list \<Rightarrow> string option \<Rightarrow> string list" where
  "body_lines summary scope_in scope_out deliverables criteria steps context ready notes =
     [[], ''## Summary'', [], collapse_markdown_line summary, [], ''## Scope'', [], ''### In scope'', [],
      render_bullets scope_in, [], ''### Out of scope'', [], render_optional_bullets scope_out, [],
      ''## Deliverables'', [], render_bullets deliverables, [], ''## Acceptance Criteria'', [],
      render_acceptance_criteria criteria, [], ''## Test Plan'', [], render_bullets steps, [],
      ''## Context'', [], render_bullets context, [], ''## Definition of Ready'', [],
      render_checklist ready, [], ''## Notes'', [], render_notes notes]"

definition lines_text :: "string list \<Rightarrow> string" where
  "lines_text ls = concat (map (\<lambda>l. l @ newline) ls)"

definition render_issue_task_file :: "planned_issue \<Rightarrow> planned_milestone \<Rightarrow> string" where
  "render_issue_task_file i m =
     lines_text ([''---''] @
       front_matter_lines (pli_id i) (pli_title i) (plm_name m) (pli_priority i) (pli_estimate i)
         (pli_blocked_by i) (pli_blocks i) ''null'' (pli_repository i) @ [''---''] @
       body_lines (pli_summary i) (pli_scope_in i) (pli_scope_out i) (pli_deliverables i)
         (pli_acceptance_criteria i) (pli_verification_steps i) (pli_context i)
         (pli_definition_of_ready i) (pli_notes i)) @
     (if pli_sub_issues i \<noteq> []
      then newline @ ''## Sub-issues'' @ newline @ newline @
        concat (map (\<lambda>s. ''- '' @ task_id_str (psi_id s) @ '' '' @ psi_title s @ newline) (pli_sub_issues i))
      else [])"

definition render_sub_issue_task_file :: "planned_sub_issue \<Rightarrow> planned_issue \<Rightarrow> planned_milestone \<Rightarrow> string" where
  "render_sub_issue_task_file s parent m =
     lines_text ([''---''] @
       front_matter_lines (psi_id s) (psi_title s) (plm_name m) (psi_priority s) (psi_estimate s)
         (psi_blocked_by s) (psi_blocks s) (task_id_str (pli_id parent)) (psi_repository s) @ [''---''] @
       body_lines (psi_summary s) (psi_scope_in s) (psi_scope_out s) (psi_deliverables s)
         (psi_acceptance_criteria s) (psi_verification_steps s) (psi_context s)
         (psi_definition_of_ready s) (psi_notes s))"

definition generate_task_files :: "planned_milestone list \<Rightarrow> (task_id, string) omap" where
  "generate_task_files ms =
     foldl (\<lambda>files m. foldl (\<lambda>files i.
         foldl (\<lambda>files s. omap_insert (psi_id s) (render_sub_issue_task_file s i m) files)
           (omap_insert (pli_id i) (render_issue_task_file i m) files) (pli_sub_issues i))
       files (plm_issues m)) [] ms"

section \<open>Generation\<close>

definition validate_session :: "'c planning_session \<Rightarrow> generation_error + unit" where
  "validate_session session =
     (if ic_planning_wave (ps_intake session) = [] then Err (IncompleteSession ''planning_wave'')
      else if ic_requirements (ps_intake session) = [] then Err (IncompleteSession ''requirements'')
      else Ok ())"

definition generate ::
  "date_time \<Rightarrow> 'c planning_session \<Rightarrow> u64 \<Rightarrow> (generation_error + plan_artifacts) \<times> u64" where
  "generate now session counter =
     (case validate_session session of
        Err e \<Rightarrow> (Err e, counter)
      | Ok _ \<Rightarrow>
          let (ms, counter) = generate_milestones session counter
          in (Ok \<lparr>pa_generated_at = now, pa_planning_wave = ic_planning_wave (ps_intake session),
                pa_milestones = ms, pa_manifest = generate_manifest session ms None,
                pa_milestone_index = render_milestone_index ms, pa_task_files = generate_task_files ms\<rparr>,
              counter))"

section \<open>Regeneration\<close>

fun map_state :: "('s \<Rightarrow> 'a \<Rightarrow> 'b \<times> 's) \<Rightarrow> 's \<Rightarrow> 'a list \<Rightarrow> 'b list \<times> 's" where
  "map_state f st [] = ([], st)"
| "map_state f st (x # xs) =
     (let (y, st) = f st x; (ys, st) = map_state f st xs in (y # ys, st))"

definition get_index :: "'a list \<Rightarrow> nat \<Rightarrow> 'a option" where
  "get_index xs n = (if n < length xs then Some (xs ! n) else None)"

definition bind_repositories ::
  "string option \<Rightarrow> string option list \<Rightarrow> planned_sub_issue list \<Rightarrow> planned_sub_issue list" where
  "bind_repositories inherited existing subs =
     map (\<lambda>(index, s). s\<lparr>psi_repository := or_else inherited (Option.bind (get_index existing index) id)\<rparr>)
       (enumerate 0 subs)"

definition rebind_issue :: "planned_milestone \<Rightarrow> nat \<times> planned_issue \<Rightarrow> planned_issue" where
  "rebind_issue m = (\<lambda>(index, issue).
     let existing_issue = get_index (plm_issues m) index;
         inherited = Option.bind existing_issue pli_repository;
         existing_child = (case existing_issue of None \<Rightarrow> [] | Some i \<Rightarrow> map psi_repository (pli_sub_issues i))
     in issue\<lparr>pli_sub_issues := bind_repositories inherited existing_child (pli_sub_issues issue),
              pli_repository := None\<rparr>)"

definition targeted :: "task_id list option \<Rightarrow> task_id \<Rightarrow> bool" where
  "targeted target_ids t = is_none_or (\<lambda>ids. t \<in> set ids) target_ids"

definition regenerate_milestone_issues ::
  "'c planning_session \<Rightarrow> string list list \<Rightarrow> task_id list option \<Rightarrow> u64 \<Rightarrow> nat \<times> planned_milestone
     \<Rightarrow> planned_milestone \<times> u64" where
  "regenerate_milestone_issues session by_milestone target_ids counter = (\<lambda>(ms_idx, m).
     if targeted target_ids (plm_id m) then
       let (generated, counter) = generate_issues_for_milestone session counter
             ((ps_intake session)\<lparr>ic_requirements := unwrap_or (get_index by_milestone ms_idx) []\<rparr>)
       in (m\<lparr>plm_issues := map (rebind_issue m) (enumerate 0 generated)\<rparr>, counter)
     else (m, counter))"

definition regenerate_issues_for_milestones ::
  "'c planning_session \<Rightarrow> u64 \<Rightarrow> planned_milestone list \<Rightarrow> task_id list option
     \<Rightarrow> planned_milestone list \<times> u64" where
  "regenerate_issues_for_milestones session counter existing target_ids =
     map_state (regenerate_milestone_issues session
       (requirements_by_milestone session (length existing)) target_ids) counter (enumerate 0 existing)"

definition regenerate_issue_subs ::
  "'c planning_session \<Rightarrow> task_id list option \<Rightarrow> u64 \<Rightarrow> planned_issue \<Rightarrow> planned_issue \<times> u64" where
  "regenerate_issue_subs session target_ids counter issue =
     (if targeted target_ids (pli_id issue) then
        let intake = (ps_intake session)\<lparr>ic_requirements := [pli_title issue]\<rparr>;
            (subs, counter) = generate_sub_issues_for_issue session counter
              (context_from_intake (pli_id issue) (pli_title issue) intake)
        in (issue\<lparr>pli_sub_issues := bind_repositories (pli_repository issue)
              (map psi_repository (pli_sub_issues issue)) subs, pli_repository := None\<rparr>, counter)
      else (issue, counter))"

definition regenerate_sub_issues_for_issues ::
  "'c planning_session \<Rightarrow> u64 \<Rightarrow> planned_milestone list \<Rightarrow> task_id list option
     \<Rightarrow> planned_milestone list \<times> u64" where
  "regenerate_sub_issues_for_issues session counter existing target_ids =
     map_state (\<lambda>counter m.
       let (issues, counter) = map_state (regenerate_issue_subs session target_ids) counter (plm_issues m)
       in (m\<lparr>plm_issues := issues\<rparr>, counter)) counter existing"

definition regenerated_milestones ::
  "'c planning_session \<Rightarrow> u64 \<Rightarrow> planned_milestone list \<Rightarrow> regeneration_scope \<Rightarrow> planned_milestone list \<times> u64"
where
  "regenerated_milestones session counter existing scope =
     (case scope of
        IssuesScope target_ids \<Rightarrow> regenerate_issues_for_milestones session counter existing target_ids
      | SubIssuesScope target_ids \<Rightarrow> regenerate_sub_issues_for_issues session counter existing target_ids
      | _ \<Rightarrow> if includes_milestones scope then generate_milestones session counter else (existing, counter))"

definition regenerate ::
  "date_time \<Rightarrow> 'c planning_session \<Rightarrow> u64 \<Rightarrow> plan_artifacts \<Rightarrow> regeneration_scope
     \<Rightarrow> (generation_error + plan_artifacts) \<times> u64" where
  "regenerate now session counter existing scope =
     (case validate_session session of
        Err e \<Rightarrow> (Err e, counter)
      | Ok _ \<Rightarrow>
          let counter = seed_task_counter_from_existing counter existing;
              (ms, counter) = regenerated_milestones session counter (pa_milestones existing) scope
          in (Ok \<lparr>pa_generated_at = now, pa_planning_wave = ic_planning_wave (ps_intake session),
                pa_milestones = ms,
                pa_manifest = (if includes_manifest scope
                  then generate_manifest session ms (Some (pa_manifest existing)) else pa_manifest existing),
                pa_milestone_index = (if includes_milestone_index scope
                  then render_milestone_index ms else pa_milestone_index existing),
                pa_task_files = (if includes_task_files scope
                  then generate_task_files ms else pa_task_files existing)\<rparr>, counter))"

end
