(* ===== verification/Planning_Render.thy ===== *)
theory Planning_Render
  imports Planning_Generator Planning_Manifest Planning_Cycles
begin

text \<open>
  What the generator writes can be read back: the escaping of YAML strings and the front matter of
  the task files. \<open>yaml_unescape\<close> is the reading of a double-quoted scalar of YAML 1.2, restricted to
  the escapes of one byte.
\<close>

section \<open>Escaped strings\<close>

definition hex_value :: "char \<Rightarrow> nat" where
  "hex_value c = (if byte c < 58 then byte c - 48 else byte c - 87)"

fun yaml_unescape :: "string \<Rightarrow> string option" where
  "yaml_unescape [] = Some []"
| "yaml_unescape (c # s) =
     (if c = CHR 0x22 \<or> c = CHR 0x0A then None
      else if c \<noteq> CHR 0x5C then map_option ((#) c) (yaml_unescape s)
      else case s of
        [] \<Rightarrow> None
      | e # s' \<Rightarrow>
          if e \<in> {CHR 0x5C, CHR 0x22} then map_option ((#) e) (yaml_unescape s')
          else if e = CHR ''n'' then map_option ((#) (CHR 0x0A)) (yaml_unescape s')
          else if e = CHR ''r'' then map_option ((#) (CHR 0x0D)) (yaml_unescape s')
          else if e = CHR ''t'' then map_option ((#) (CHR 0x09)) (yaml_unescape s')
          else if e = CHR ''u'' then
            (case s' of
               z # y # h # l # s'' \<Rightarrow>
                 if z = CHR ''0'' \<and> y = CHR ''0''
                 then map_option ((#) (char_of (16 * hex_value h + hex_value l))) (yaml_unescape s'')
                 else None
             | _ \<Rightarrow> None)
          else None)"

lemma hex_value_digit: "n < 16 \<Longrightarrow> hex_value (hex_digit n) = n"
  by (auto simp: hex_value_def hex_digit_def byte_def)

lemma hex_char: "char_of (16 * hex_value (hex_digit (byte c div 16)) + hex_value (hex_digit (byte c mod 16))) = c"
proof -
  have "byte c < 256" by (simp add: byte_def of_char_of [symmetric] del: of_char_of)
  then have "byte c div 16 < 16" by simp
  then show ?thesis by (simp add: hex_value_digit byte_def)
qed

lemma unescape_unicode: "yaml_unescape (unicode_escape c @ s) = map_option ((#) c) (yaml_unescape s)"
  by (simp add: unicode_escape_def hex_char)

lemma escape_char_cases:
  obtains (unicode) "escape_char c = unicode_escape c"
  | (plain) "escape_char c = [c]" "c \<noteq> CHR 0x5C" "c \<noteq> CHR 0x22" "c \<noteq> CHR 0x0A"
  | (short) e where "escape_char c = [CHR 0x5C, e]"
      "(c, e) \<in> {(CHR 0x5C, CHR 0x5C), (CHR 0x22, CHR 0x22), (CHR 0x0A, CHR ''n''), (CHR 0x0D, CHR ''r''),
         (CHR 0x09, CHR ''t'')}"
  unfolding escape_char_def by (cases "c = CHR 0x5C"; cases "c = CHR 0x22"; cases "c = CHR 0x0A";
    cases "c = CHR 0x0D"; cases "c = CHR 0x09"; cases "c = CHR ''*'' \<or> c = CHR 0x26 \<or> byte c < 32") simp_all

lemma unescape_char: "yaml_unescape (escape_char c @ s) = map_option ((#) c) (yaml_unescape s)"
proof (cases c rule: escape_char_cases)
  case unicode
  then show ?thesis by (simp only: unescape_unicode)
next
  case (short e)
  then show ?thesis by auto
qed simp

lemma unescape_concat: "yaml_unescape (concat (map escape_char s)) = Some s"
  by (induction s) (simp_all add: unescape_char del: yaml_unescape.simps(2))

lemma unescape_escape: "yaml_unescape (yaml_escape s) = Some s"
proof (cases "prefix ''? '' s")
  case True
  then obtain r where s: "s = CHR ''?'' # r" by (auto simp: prefix_def)
  show ?thesis
    using True unescape_unicode [of "CHR ''?''" "concat (map escape_char r)"] unescape_concat [of r]
    by (simp add: yaml_escape_def s del: yaml_unescape.simps(2))
next
  case False
  then show ?thesis unfolding yaml_escape_def by (simp add: unescape_concat)
qed

lemma hex_digit_byte: "n < 16 \<Longrightarrow> 48 \<le> byte (hex_digit n)"
  by (auto simp: hex_digit_def byte_def)

lemma unicode_escape_clean: "CHR 0x0A \<notin> set (unicode_escape c)"
proof -
  have "byte c < 256" by (simp add: byte_def of_char_of [symmetric] del: of_char_of)
  then have "48 \<le> byte (hex_digit (byte c div 16))" "48 \<le> byte (hex_digit (byte c mod 16))"
    by (intro hex_digit_byte; simp)+
  moreover have "48 \<le> byte x \<Longrightarrow> CHR 0x0A \<noteq> x" for x by (auto simp: byte_def)
  ultimately have "CHR 0x0A \<noteq> hex_digit (byte c div 16)" "CHR 0x0A \<noteq> hex_digit (byte c mod 16)"
    by blast+
  then show ?thesis by (simp add: unicode_escape_def)
qed

lemma escape_char_clean: "CHR 0x0A \<notin> set (escape_char c)"
proof (cases c rule: escape_char_cases)
  case unicode
  then show ?thesis by (simp only: unicode_escape_clean not_False_eq_True)
next
  case (short e)
  then show ?thesis by auto
qed simp

lemma escape_no_newline: "CHR 0x0A \<notin> set (yaml_escape s)"
  using escape_char_clean unicode_escape_clean by (simp add: yaml_escape_def)

section \<open>Front matter\<close>

definition one_line :: "string \<Rightarrow> bool" where
  "one_line s \<longleftrightarrow> CHR 0x0A \<notin> set s"

lemma one_line_simps [simp]:
  "one_line []" "one_line (c # s) \<longleftrightarrow> c \<noteq> CHR 0x0A \<and> one_line s" "one_line (s @ t) \<longleftrightarrow> one_line s \<and> one_line t"
  by (auto simp: one_line_def)

lemma one_line_escape [simp]: "one_line (yaml_escape s)"
  by (simp add: one_line_def escape_no_newline)

lemma one_line_show_nat [simp]: "one_line (show_nat n)"
  using show_nat_digits [of n] by (auto simp: one_line_def is_ascii_digit_def byte_def list_all_iff)

lemma one_line_join: "\<forall>w \<in> set ws. one_line w \<Longrightarrow> one_line (join_words '', '' ws)"
  by (induction "'', ''" ws rule: join_words.induct) simp_all

lemma split_newline_line: "one_line l \<Longrightarrow> split_newline (l @ CHR 0x0A # s) = l # split_newline s"
  by (induction l) (simp_all split: list.split)

lemma split_newline_lines:
  "\<forall>l \<in> set ls. one_line l \<Longrightarrow> split_newline (lines_text ls @ s) = ls @ split_newline s"
  by (induction ls) (simp_all add: lines_text_def split_newline_line)

lemma split_newline_nonempty: "split_newline s \<noteq> []"
  by (cases s) (auto split: list.split)

lemma join_split_newline: "join_newline (split_newline s) = s"
proof (induction s)
  case (Cons c s)
  then show ?case
    using split_newline_nonempty [of s]
    by (cases "split_newline s"; cases "tl (split_newline s)") auto
qed simp

lemma split_at_closing_lines:
  "\<forall>l \<in> set ls. \<not> closing_line l \<Longrightarrow> closing_line c \<Longrightarrow> split_at_closing (ls @ c # rest) = Some (ls, rest)"
  by (induction ls) simp_all

lemma not_closing: "x \<noteq> CHR ''-'' \<Longrightarrow> x \<noteq> CHR ''.'' \<Longrightarrow> \<not> closing_line (x # s)"
  using trim_end_prefix [of "x # s"] by (auto simp: closing_line_def prefix_Cons)

lemma dashes: "trim_end ''---'' = ''---''"
  by (simp add: trim_end_def strip_leading_id white_space_def)

lemma parse_rendered:
  assumes "\<forall>l \<in> set fm. one_line l" and "\<forall>l \<in> set fm. \<not> closing_line l"
  shows "parse_task_text yaml_parse (lines_text ([''---''] @ fm @ [''---'']) @ body) path =
    and_then (map_err (TaskFileYaml path) (yaml_parse (join_newline fm)))
      (\<lambda>f. Ok \<lparr>ptf_frontmatter = f, ptf_body = body\<rparr>)"
proof -
  let ?raw = "lines_text ([''---''] @ fm @ [''---'']) @ body"
  have "strip_prefix byte_order_mark ?raw = None"
    by (simp add: lines_text_def strip_prefix_def byte_order_mark_def)
  moreover have "split_newline ?raw = ([''---''] @ fm @ [''---'']) @ split_newline body"
    using assms(1) by (intro split_newline_lines) simp
  moreover have "split_at_closing (fm @ ''---'' # split_newline body) = Some (fm, split_newline body)"
    using assms(2) by (intro split_at_closing_lines) (simp_all add: closing_line_def dashes)
  ultimately show ?thesis
    by (simp add: parse_task_text_def Let_def opening_line_def dashes join_split_newline)
qed

lemma front_matter_clean:
  assumes "one_line (task_id_str t)" "\<forall>b \<in> set bs. one_line (task_id_str b)" "\<forall>d \<in> set ds. one_line (task_id_str d)"
    and "one_line parent"
  shows "\<forall>l \<in> set (front_matter_lines t title ms p e bs ds parent repository). one_line l"
    and "\<forall>l \<in> set (front_matter_lines t title ms p e bs ds parent repository). \<not> closing_line l"
proof -
  have "one_line (render_id_list bs)" "one_line (render_id_list ds)"
    unfolding render_id_list_def using assms(2,3) by (intro one_line_join; simp)+
  with assms(1,4) show "\<forall>l \<in> set (front_matter_lines t title ms p e bs ds parent repository). one_line l"
    by (simp add: front_matter_lines_def yaml_quoted_def estimate_text_def yaml_optional_string_def
        split: option.split)
  show "\<forall>l \<in> set (front_matter_lines t title ms p e bs ds parent repository). \<not> closing_line l"
    by (simp add: front_matter_lines_def not_closing)
qed

definition issue_front_matter :: "planned_issue \<Rightarrow> planned_milestone \<Rightarrow> string list" where
  "issue_front_matter i m = front_matter_lines (pli_id i) (pli_title i) (plm_name m) (pli_priority i)
     (pli_estimate i) (pli_blocked_by i) (pli_blocks i) ''null'' (pli_repository i)"

section \<open>Properties\<close>


text \<open>C20: the reader of task files finds in the file of an issue exactly the front matter the generator
  wrote, with the title quoted so that it reads back, whatever title, milestone and repository are.\<close>

theorem issue_file_reads_back:
  assumes "\<forall>t \<in> set (pli_id i # pli_blocked_by i @ pli_blocks i). CHR 0x0A \<notin> set (task_id_str t)"
  shows "(\<exists>body. parse_task_text yaml_parse (render_issue_task_file i m) path =
      and_then (map_err (TaskFileYaml path) (yaml_parse (join_newline (issue_front_matter i m))))
        (\<lambda>f. Ok \<lparr>ptf_frontmatter = f, ptf_body = body\<rparr>)) \<and>
    (\<exists>e. ''title: '' @ [CHR 0x22] @ e @ [CHR 0x22] \<in> set (issue_front_matter i m) \<and>
       yaml_unescape e = Some (pli_title i))"
proof
  have layout: "\<exists>body. render_issue_task_file i m = lines_text ([''---''] @ issue_front_matter i m @ [''---'']) @ body"
    unfolding render_issue_task_file_def issue_front_matter_def lines_text_def
    by (simp only: map_append concat_append append.assoc) blast
  have "\<forall>l \<in> set (issue_front_matter i m). one_line l" "\<forall>l \<in> set (issue_front_matter i m). \<not> closing_line l"
    unfolding issue_front_matter_def
    using assms by (intro front_matter_clean; simp add: one_line_def)+
  with layout parse_rendered show "\<exists>body. parse_task_text yaml_parse (render_issue_task_file i m) path =
      and_then (map_err (TaskFileYaml path) (yaml_parse (join_newline (issue_front_matter i m))))
        (\<lambda>f. Ok \<lparr>ptf_frontmatter = f, ptf_body = body\<rparr>)" by metis
  show "\<exists>e. ''title: '' @ [CHR 0x22] @ e @ [CHR 0x22] \<in> set (issue_front_matter i m) \<and>
      yaml_unescape e = Some (pli_title i)"
    by (intro exI [of _ "yaml_escape (pli_title i)"])
      (simp add: issue_front_matter_def front_matter_lines_def yaml_quoted_def unescape_escape)
qed

text \<open>A title with a quote, a line break and a star.\<close>

definition example_title_issue :: planned_issue where
  "example_title_issue = (example_plan_issue ''TASK-001'' [])\<lparr>pli_title := [CHR 0x22, CHR 0x0A, CHR ''*'']\<rparr>"

lemma issue_file_reads_back_witness:
  "\<exists>body. parse_task_text (\<lambda>_. Ok task_frontmatter_default)
     (render_issue_task_file example_title_issue (hd (pa_milestones (example_plan [])))) ''a.md'' =
     Ok \<lparr>ptf_frontmatter = task_frontmatter_default, ptf_body = body\<rparr>"
proof -
  have "\<forall>t \<in> set (pli_id example_title_issue # pli_blocked_by example_title_issue @ pli_blocks example_title_issue).
      CHR 0x0A \<notin> set (task_id_str t)"
    by (simp add: example_title_issue_def example_plan_issue_def)
  from issue_file_reads_back [OF this, of "\<lambda>_. Ok task_frontmatter_default"] show ?thesis
    by (auto simp del: parse_rendered)
qed

end
