(* ===== verification/Planning_Compiler.thy ===== *)
theory Planning_Compiler
  imports Planning_Model "HOL-Library.Option_ord" "HOL-Library.Product_Lexorder"
begin

text \<open>
  \<open>compiler/domain.rs\<close> and \<open>compiler/compiler.rs\<close> of \<open>opensymphony-planning\<close>: the compiler that
  checks a plan against the tracker's taxonomy and projects it to the hierarchy, the dependency
  metadata, the manifest and the publish receipt. Writing YAML is a parameter. A validation step
  appends to the messages; here it returns what it appends.
\<close>

section \<open>Results\<close>

datatype task_kind = MilestoneKind | IssueKind | SubIssueKind

fun task_kind_rank :: "task_kind \<Rightarrow> nat" where
  "task_kind_rank MilestoneKind = 0"
| "task_kind_rank IssueKind = 1"
| "task_kind_rank SubIssueKind = 2"

definition kind_is_publishable :: "task_kind \<Rightarrow> bool" where
  "kind_is_publishable k \<longleftrightarrow> k \<in> {IssueKind, SubIssueKind}"

record taxonomy_violation =
  tv_task_id :: "task_id option"
  tv_task_kind :: "task_kind option"
  tv_reason :: string
  tv_actionable :: string

datatype validation_severity = ValidationError | ValidationWarning

fun validation_severity_rank :: "validation_severity \<Rightarrow> nat" where
  "validation_severity_rank ValidationError = 0"
| "validation_severity_rank ValidationWarning = 1"

record validation_message =
  vm_severity :: validation_severity
  vm_task_id :: "task_id option"
  vm_field :: string
  vm_message :: string

definition message_error :: "task_id option \<Rightarrow> string \<Rightarrow> string \<Rightarrow> validation_message" where
  "message_error t field message = \<lparr>vm_severity = ValidationError, vm_task_id = t, vm_field = field,
     vm_message = message\<rparr>"

definition message_warning :: "task_id option \<Rightarrow> string \<Rightarrow> string \<Rightarrow> validation_message" where
  "message_warning t field message = \<lparr>vm_severity = ValidationWarning, vm_task_id = t, vm_field = field,
     vm_message = message\<rparr>"

record underspecified_sub_issue =
  us_sub_issue_id :: task_id
  us_parent_issue_id :: task_id
  us_acceptance_criteria_count :: nat
  us_verification_steps_count :: nat
  us_deliverables_count :: nat
  us_scope_in_count :: nat
  us_reasons :: "string list"

record linear_publish_entity =
  lpe_source_task_id :: task_id
  lpe_source_file :: string
  lpe_linear_kind :: task_kind
  lpe_linear_milestone :: string
  lpe_parent_task_id :: "task_id option"
  lpe_repository :: "string option"
  lpe_blocked_by :: "task_id list"
  lpe_blocks :: "task_id list"
  lpe_review_comments :: "string list"
  lpe_issue :: "string option"
  lpe_issue_id :: "string option"
  lpe_url :: "string option"

record milestone_receipt =
  mr_name :: string
  mr_milestone_id :: "string option"
  mr_linked_issues :: "task_id list"

record linear_publish_receipt =
  lpr_planning_wave :: string
  lpr_linear_project :: "string option"
  lpr_published_at :: "date_time option"
  lpr_milestones :: "(string, milestone_receipt) omap"
  lpr_tasks :: "(task_id, linear_publish_entity) omap"

record compiled_sub_issue =
  csi_task_id :: task_id
  csi_title :: string
  csi_summary :: string
  csi_source_file :: string
  csi_parent_task_id :: task_id
  csi_milestones :: string
  csi_priority :: u8
  csi_estimate :: "u8 option"
  csi_repository :: "string option"
  csi_blocked_by :: "task_id list"
  csi_blocks :: "task_id list"
  csi_acceptance_criteria_count :: nat
  csi_verification_count :: nat
  csi_verification_steps :: "string list"
  csi_underspecified_reasons :: "string list"

record compiled_issue =
  coi_task_id :: task_id
  coi_title :: string
  coi_summary :: string
  coi_source_file :: string
  coi_milestones :: string
  coi_priority :: u8
  coi_estimate :: "u8 option"
  coi_repository :: "string option"
  coi_blocked_by :: "task_id list"
  coi_blocks :: "task_id list"
  coi_acceptance_criteria_count :: nat
  coi_acceptance_criteria_descriptions :: "string list"
  coi_verification_count :: nat
  coi_sub_issues :: "compiled_sub_issue list"

record compiled_milestone =
  com_name :: string
  com_goal :: string
  com_notes :: "string option"
  com_issues :: "compiled_issue list"

record applied_hierarchy =
  ah_planning_wave :: string
  ah_milestones :: "compiled_milestone list"

datatype dependency_relation = BlocksRelation | ParentOfRelation

fun dependency_relation_rank :: "dependency_relation \<Rightarrow> nat" where
  "dependency_relation_rank BlocksRelation = 0"
| "dependency_relation_rank ParentOfRelation = 1"

record dependency_edge =
  de_source :: task_id
  de_target :: task_id
  de_milestone :: string
  de_relation :: dependency_relation

record dependency_metadata =
  dm_planning_wave :: string
  dm_total_nodes :: nat
  dm_milestone_count :: nat
  dm_issue_count :: nat
  dm_sub_issue_count :: nat
  dm_edges :: "dependency_edge list"

record compilation_result =
  cr_planning_wave :: string
  cr_manifest_yaml :: string
  cr_publish_receipt_yaml :: string
  cr_applied_hierarchy :: applied_hierarchy
  cr_taxonomy_violations :: "taxonomy_violation list"
  cr_validation_messages :: "validation_message list"
  cr_underspecified_sub_issues :: "underspecified_sub_issue list"
  cr_dependency_metadata :: dependency_metadata

definition is_publishable :: "compilation_result \<Rightarrow> bool" where
  "is_publishable r \<longleftrightarrow> cr_taxonomy_violations r = [] \<and>
     list_all (\<lambda>m. vm_severity m \<noteq> ValidationError) (cr_validation_messages r)"

section \<open>Projections\<close>

definition classify_underspecified_sub_issue :: "planned_sub_issue \<Rightarrow> string list" where
  "classify_underspecified_sub_issue s =
     (if psi_acceptance_criteria s = [] then [''missing acceptance criteria''] else []) @
     (if psi_verification_steps s = [] then [''missing verification expectations''] else []) @
     (if psi_deliverables s = [] then [''missing deliverables''] else []) @
     (if psi_scope_in s = [] then [''missing in-scope items''] else [])"

definition sub_issue_to_compiled :: "planned_sub_issue \<Rightarrow> task_id \<Rightarrow> string \<Rightarrow> compiled_sub_issue" where
  "sub_issue_to_compiled s parent_task_id milestone_name =
     \<lparr>csi_task_id = psi_id s, csi_title = psi_title s, csi_summary = psi_summary s,
      csi_source_file = unwrap_or (psi_task_file s) [], csi_parent_task_id = parent_task_id,
      csi_milestones = milestone_name, csi_priority = as_linear_priority (psi_priority s),
      csi_estimate = psi_estimate s, csi_repository = psi_repository s,
      csi_blocked_by = psi_blocked_by s, csi_blocks = psi_blocks s,
      csi_acceptance_criteria_count = length (psi_acceptance_criteria s),
      csi_verification_count = length (psi_verification_steps s),
      csi_verification_steps = psi_verification_steps s,
      csi_underspecified_reasons = classify_underspecified_sub_issue s\<rparr>"

definition issue_to_compiled :: "planned_issue \<Rightarrow> string \<Rightarrow> compiled_issue" where
  "issue_to_compiled i milestone_name =
     \<lparr>coi_task_id = pli_id i, coi_title = pli_title i, coi_summary = pli_summary i,
      coi_source_file = unwrap_or (pli_task_file i) [], coi_milestones = milestone_name,
      coi_priority = as_linear_priority (pli_priority i), coi_estimate = pli_estimate i,
      coi_repository = pli_repository i, coi_blocked_by = pli_blocked_by i, coi_blocks = pli_blocks i,
      coi_acceptance_criteria_count = length (pli_acceptance_criteria i),
      coi_acceptance_criteria_descriptions = map ac_description (pli_acceptance_criteria i),
      coi_verification_count = length (pli_verification_steps i),
      coi_sub_issues = map (\<lambda>s. sub_issue_to_compiled s (pli_id i) milestone_name) (pli_sub_issues i)\<rparr>"

definition compile_milestone :: "planned_milestone \<Rightarrow> compiled_milestone" where
  "compile_milestone m = \<lparr>com_name = plm_name m, com_goal = plm_goal m, com_notes = plm_notes m,
     com_issues = map (\<lambda>i. issue_to_compiled i (plm_name m)) (plm_issues m)\<rparr>"

definition blocks_edge :: "string \<Rightarrow> task_id \<Rightarrow> task_id \<Rightarrow> dependency_edge" where
  "blocks_edge milestone_name source target = \<lparr>de_source = source, de_target = target,
     de_milestone = milestone_name, de_relation = BlocksRelation\<rparr>"

definition collect_issue_dependency_edges :: "planned_issue \<Rightarrow> string \<Rightarrow> dependency_edge list" where
  "collect_issue_dependency_edges i milestone_name =
     map (\<lambda>blocker. blocks_edge milestone_name blocker (pli_id i)) (pli_blocked_by i) @
     map (\<lambda>blocked. blocks_edge milestone_name (pli_id i) blocked) (pli_blocks i)"

definition collect_sub_issue_dependency_edges ::
  "planned_sub_issue \<Rightarrow> planned_issue \<Rightarrow> string \<Rightarrow> dependency_edge list" where
  "collect_sub_issue_dependency_edges s parent milestone_name =
     \<lparr>de_source = pli_id parent, de_target = psi_id s, de_milestone = milestone_name,
      de_relation = ParentOfRelation\<rparr> #
     map (\<lambda>blocker. blocks_edge milestone_name blocker (psi_id s)) (psi_blocked_by s) @
     map (\<lambda>blocked. blocks_edge milestone_name (psi_id s) blocked) (psi_blocks s)"

section \<open>Validation\<close>

definition taxonomy_violations :: "planned_milestone list \<Rightarrow> taxonomy_violation list" where
  "taxonomy_violations milestones =
     (if milestones = []
      then [\<lparr>tv_task_id = None, tv_task_kind = None, tv_reason = ''no milestones produced'',
             tv_actionable = ''Generator must produce at least one Linear milestone''\<rparr>]
      else concat (map (\<lambda>m.
        if trim (plm_name m) = []
        then [\<lparr>tv_task_id = Some (plm_id m), tv_task_kind = Some MilestoneKind,
               tv_reason = ''milestone has empty name'',
               tv_actionable = ''Provide a non-empty Linear milestone name for task '' @
                 task_id_str (plm_id m)\<rparr>]
        else []) milestones))"

definition taxonomy_messages :: "planned_milestone list \<Rightarrow> validation_message list" where
  "taxonomy_messages milestones =
     (if milestones = []
      then [message_error None ''milestones''
              ''Plan contains no milestones; expected at least one Linear milestone'']
      else concat (map (\<lambda>m.
        if trim (plm_name m) = []
        then [message_error (Some (plm_id m)) ''name'' ''Linear milestone name is required'']
        else []) milestones))"

definition validate_issue :: "planned_issue \<Rightarrow> validation_message list" where
  "validate_issue i =
     (let t = Some (pli_id i); name = task_id_str (pli_id i) in
      (if pli_acceptance_criteria i = []
       then [message_error t ''acceptanceCriteria'' ''Linear issue requires at least one acceptance criterion'']
       else []) @
      concat (map (\<lambda>(idx, criterion).
        if trim (ac_description criterion) = []
        then [message_error t ''acceptanceCriteria''
                (''Acceptance criterion '' @ show_nat (idx + 1) @ '' on issue '' @ name @
                 '' has empty description'')]
        else []) (enumerate 0 (pli_acceptance_criteria i))) @
      (if trim (pli_title i) = []
       then [message_error t ''title'' ''Linear issue requires a non-empty title''] else []) @
      (if pli_task_file i = None
       then [message_error t ''taskFile'' (''Linear issue '' @ name @
               '' is missing its task file reference; assign a relative path under tasksDir'')] else []))"

definition validate_sub_issue :: "planned_sub_issue \<Rightarrow> validation_message list" where
  "validate_sub_issue s =
     (let t = Some (psi_id s); name = task_id_str (psi_id s) in
      (if psi_verification_steps s = []
       then [message_error t ''verificationExpectations''
               (''Linear sub-issue '' @ name @ '' requires at least one verification expectation'')]
       else []) @
      concat (map (\<lambda>(idx, step).
        if trim step = []
        then [message_error t ''verificationExpectations''
                (''Verification step '' @ show_nat (idx + 1) @ '' on sub-issue '' @ name @ '' is empty'')]
        else []) (enumerate 0 (psi_verification_steps s))) @
      (if trim (psi_title s) = []
       then [message_error t ''title'' ''Linear sub-issue requires a non-empty title''] else []) @
      (if psi_task_file s = None
       then [message_error t ''taskFile'' (''Linear sub-issue '' @ name @
               '' is missing its task file reference; assign a relative path under tasksDir'')] else []) @
      (if classify_underspecified_sub_issue s \<noteq> []
       then [message_warning t ''readiness'' (''Sub-issue '' @ name @
               '' is underspecified: must add deliverables, scope, acceptance criteria, or verification expectations before publish'')]
       else []))"

definition underspecified_entry :: "planned_issue \<Rightarrow> planned_sub_issue \<Rightarrow> underspecified_sub_issue list" where
  "underspecified_entry parent s =
     (let reasons = classify_underspecified_sub_issue s in
      if reasons = [] then []
      else [\<lparr>us_sub_issue_id = psi_id s, us_parent_issue_id = pli_id parent,
             us_acceptance_criteria_count = length (psi_acceptance_criteria s),
             us_verification_steps_count = length (psi_verification_steps s),
             us_deliverables_count = length (psi_deliverables s),
             us_scope_in_count = length (psi_scope_in s), us_reasons = reasons\<rparr>])"

text \<open>The ids and files of the compiled tasks, in the order in which they are walked.\<close>

definition compiled_files :: "compiled_milestone list \<Rightarrow> (task_id \<times> string) list" where
  "compiled_files ms = concat (map (\<lambda>m. concat (map (\<lambda>i.
     (coi_task_id i, coi_source_file i) # map (\<lambda>s. (csi_task_id s, csi_source_file s)) (coi_sub_issues i))
     (com_issues m))) ms)"

definition compiled_task_ids :: "compiled_milestone list \<Rightarrow> (string, string) omap" where
  "compiled_task_ids ms = foldl (\<lambda>files (t, file).
     if file \<noteq> [] then omap_insert (task_id_str t) file files else files) [] (compiled_files ms)"

definition compiled_present_ids :: "compiled_milestone list \<Rightarrow> string list" where
  "compiled_present_ids ms = set_of_list (map (\<lambda>(t, _). task_id_str t) (compiled_files ms))"

definition quote_name :: "string \<Rightarrow> string" where
  "quote_name s = [CHR 0x27] @ s @ [CHR 0x27]"

definition manifest_task_message ::
  "(string, string) omap \<Rightarrow> string list \<Rightarrow> manifest_task \<Rightarrow> validation_message list" where
  "manifest_task_message files present task =
     (let id_key = task_id_str (mft_id task) in
      case omap_get files id_key of
        Some compiled_file \<Rightarrow>
          if compiled_file = mft_file task then []
          else [message_error (Some (mft_id task)) ''tasks''
                  (''Manifest task '' @ quote_name id_key @ '' file '' @ quote_name (mft_file task) @
                   '' disagrees with compiled hierarchy file '' @ quote_name compiled_file)]
      | None \<Rightarrow>
          if id_key \<in> set present then []
          else [message_error (Some (mft_id task)) ''tasks''
                  (''Manifest task '' @ quote_name id_key @ '' has no matching compiled hierarchy entry'')])"

definition mismatched_ids :: "(string, string) omap \<Rightarrow> manifest_task list \<Rightarrow> string set" where
  "mismatched_ids files tasks = {task_id_str (mft_id t) | t. t \<in> set tasks \<and>
     (case omap_get files (task_id_str (mft_id t)) of None \<Rightarrow> False | Some f \<Rightarrow> f \<noteq> mft_file t)}"

lemma mismatched_ids_code [code]:
  "mismatched_ids files tasks = set (map (\<lambda>t. task_id_str (mft_id t)) (filter (\<lambda>t.
     case omap_get files (task_id_str (mft_id t)) of None \<Rightarrow> False | Some f \<Rightarrow> f \<noteq> mft_file t) tasks))"
  by (auto simp: mismatched_ids_def)

definition compiled_task_message ::
  "(string, string) omap \<Rightarrow> manifest_task list \<Rightarrow> string \<Rightarrow> validation_message list" where
  "compiled_task_message files tasks id_key =
     (if id_key \<in> mismatched_ids files tasks then []
      else
        let compiled_file = unwrap_or (omap_get files id_key) [];
            in_manifest = list_ex (\<lambda>t.
              if compiled_file \<noteq> [] then task_id_str (mft_id t) = id_key \<and> mft_file t = compiled_file
              else task_id_str (mft_id t) = id_key) tasks
        in if in_manifest then []
           else [message_error (Some (TaskId id_key)) ''tasks''
                   (if compiled_file = []
                    then ''Compiled task '' @ quote_name id_key @
                      '' is missing from manifest tasks list (compiled source file is empty)''
                    else ''Compiled task '' @ quote_name id_key @ '' (file '' @ quote_name compiled_file @
                      '') is missing from manifest tasks list'')])"

definition validate_manifest_consistency ::
  "task_package_manifest \<Rightarrow> compiled_milestone list \<Rightarrow> validation_message list" where
  "validate_manifest_consistency manifest ms =
     (let files = compiled_task_ids ms; present = compiled_present_ids ms in
      concat (map (\<lambda>name.
        if name \<notin> com_name ` set ms
        then [message_error None ''milestones'' (''Manifest milestone '' @ quote_name name @
                '' is not present in compiled hierarchy'')] else []) (tpm_milestones manifest)) @
      concat (map (\<lambda>m.
        if com_name m \<notin> set (tpm_milestones manifest)
        then [message_error None ''milestones'' (''Compiled milestone '' @ quote_name (com_name m) @
                '' is missing from manifest milestone list'')] else []) ms) @
      concat (map (manifest_task_message files present) (tpm_tasks manifest)) @
      concat (map (compiled_task_message files (tpm_tasks manifest)) present))"

section \<open>The manifest and the receipt\<close>

record compiled_manifest_yaml =
  cmy_planning_wave :: string
  cmy_tasks_dir :: string
  cmy_routing_mode :: string
  cmy_repository_aliases :: "string list"
  cmy_milestones :: "string list"
  cmy_tasks :: "(string \<times> string) list"

fun routing_mode_name :: "repository_routing_mode \<Rightarrow> string" where
  "routing_mode_name LegacySingle = ''legacy_single''"
| "routing_mode_name ProjectSet = ''project_set''"

definition manifest_entry :: "task_id \<Rightarrow> string option \<Rightarrow> (string \<times> string) list" where
  "manifest_entry t file = (case file of None \<Rightarrow> [] | Some f \<Rightarrow> [(task_id_str t, f)])"

definition render_manifest_yaml ::
  "string \<Rightarrow> string \<Rightarrow> planned_milestone list \<Rightarrow> repository_routing_mode \<Rightarrow> string list
     \<Rightarrow> compiled_manifest_yaml" where
  "render_manifest_yaml planning_wave tasks_dir ms mode aliases =
     \<lparr>cmy_planning_wave = planning_wave, cmy_tasks_dir = tasks_dir,
      cmy_routing_mode = routing_mode_name mode, cmy_repository_aliases = aliases,
      cmy_milestones = map plm_name ms,
      cmy_tasks = concat (map (\<lambda>m. concat (map (\<lambda>i. manifest_entry (pli_id i) (pli_task_file i) @
        concat (map (\<lambda>s. manifest_entry (psi_id s) (psi_task_file s)) (pli_sub_issues i)))
        (plm_issues m))) ms)\<rparr>"

definition receipt_file :: "(string, string) omap \<Rightarrow> task_id \<Rightarrow> string \<Rightarrow> string" where
  "receipt_file lookup t source_file =
     (if source_file = [] then unwrap_or (omap_get lookup (task_id_str t)) [] else source_file)"

definition issue_entity :: "(string, string) omap \<Rightarrow> string \<Rightarrow> compiled_issue \<Rightarrow> linear_publish_entity" where
  "issue_entity lookup milestone_name i =
     \<lparr>lpe_source_task_id = coi_task_id i, lpe_source_file = receipt_file lookup (coi_task_id i) (coi_source_file i),
      lpe_linear_kind = IssueKind, lpe_linear_milestone = milestone_name, lpe_parent_task_id = None,
      lpe_repository = coi_repository i, lpe_blocked_by = coi_blocked_by i, lpe_blocks = coi_blocks i,
      lpe_review_comments = [], lpe_issue = None, lpe_issue_id = None, lpe_url = None\<rparr>"

definition sub_issue_entity ::
  "(string, string) omap \<Rightarrow> string \<Rightarrow> compiled_issue \<Rightarrow> compiled_sub_issue \<Rightarrow> linear_publish_entity" where
  "sub_issue_entity lookup milestone_name i s =
     \<lparr>lpe_source_task_id = csi_task_id s, lpe_source_file = receipt_file lookup (csi_task_id s) (csi_source_file s),
      lpe_linear_kind = SubIssueKind, lpe_linear_milestone = milestone_name,
      lpe_parent_task_id = Some (coi_task_id i), lpe_repository = csi_repository s,
      lpe_blocked_by = csi_blocked_by s, lpe_blocks = csi_blocks s, lpe_review_comments = [],
      lpe_issue = None, lpe_issue_id = None, lpe_url = None\<rparr>"

definition add_issue_entities ::
  "(string, string) omap \<Rightarrow> string \<Rightarrow> (task_id, linear_publish_entity) omap \<Rightarrow> compiled_issue
     \<Rightarrow> (task_id, linear_publish_entity) omap" where
  "add_issue_entities lookup milestone_name tasks i =
     foldl (\<lambda>tasks s. omap_insert (csi_task_id s) (sub_issue_entity lookup milestone_name i s) tasks)
       (omap_insert (coi_task_id i) (issue_entity lookup milestone_name i) tasks) (coi_sub_issues i)"

definition build_publish_receipt ::
  "string \<Rightarrow> compiled_milestone list \<Rightarrow> task_package_manifest \<Rightarrow> linear_publish_receipt" where
  "build_publish_receipt planning_wave ms manifest =
     (let lookup = foldl (\<lambda>l t. omap_insert (task_id_str (mft_id t)) (mft_file t) l) [] (tpm_tasks manifest)
      in \<lparr>lpr_planning_wave = planning_wave, lpr_linear_project = None, lpr_published_at = None,
          lpr_milestones = foldl (\<lambda>l m. omap_insert (com_name m) \<lparr>mr_name = com_name m,
            mr_milestone_id = None, mr_linked_issues = map coi_task_id (com_issues m)\<rparr> l) [] ms,
          lpr_tasks = foldl (\<lambda>tasks m. foldl (add_issue_entities lookup (com_name m)) tasks (com_issues m)) [] ms\<rparr>)"

section \<open>The compiler\<close>

definition optional_id :: "task_id option \<Rightarrow> string" where
  "optional_id t = (case t of None \<Rightarrow> [] | Some i \<Rightarrow> task_id_str i)"

definition sort_taxonomy :: "taxonomy_violation list \<Rightarrow> taxonomy_violation list" where
  "sort_taxonomy = sort_key (\<lambda>v. (map_option task_kind_rank (tv_task_kind v), optional_id (tv_task_id v), tv_reason v))"

definition sort_messages :: "validation_message list \<Rightarrow> validation_message list" where
  "sort_messages = sort_key (\<lambda>m. (validation_severity_rank (vm_severity m), optional_id (vm_task_id m), vm_field m))"

definition issue_messages :: "planned_issue \<Rightarrow> validation_message list" where
  "issue_messages i = validate_issue i @ concat (map validate_sub_issue (pli_sub_issues i))"

definition issue_edges :: "string \<Rightarrow> planned_issue \<Rightarrow> dependency_edge list" where
  "issue_edges milestone_name i = collect_issue_dependency_edges i milestone_name @
     concat (map (\<lambda>s. collect_sub_issue_dependency_edges s i milestone_name) (pli_sub_issues i))"

definition compile ::
  "(compiled_manifest_yaml \<Rightarrow> string) \<Rightarrow> (linear_publish_receipt \<Rightarrow> string) \<Rightarrow> plan_artifacts \<Rightarrow> compilation_result"
where
  "compile manifest_to_yaml receipt_to_yaml artifacts =
     (let ms = pa_milestones artifacts; manifest = pa_manifest artifacts;
          wave = pa_planning_wave artifacts; issues = concat (map plm_issues ms);
          compiled = map compile_milestone ms;
          edges = concat (map (\<lambda>m. concat (map (issue_edges (plm_name m)) (plm_issues m))) ms)
      in \<lparr>cr_planning_wave = wave,
          cr_manifest_yaml = manifest_to_yaml (render_manifest_yaml wave (tpm_tasks_dir manifest) ms
            (tpm_routing_mode manifest) (tpm_repository_aliases manifest)),
          cr_publish_receipt_yaml = receipt_to_yaml (build_publish_receipt wave compiled manifest),
          cr_applied_hierarchy = \<lparr>ah_planning_wave = wave, ah_milestones = compiled\<rparr>,
          cr_taxonomy_violations = sort_taxonomy (taxonomy_violations ms),
          cr_validation_messages = sort_messages (taxonomy_messages ms @
            concat (map issue_messages issues) @ validate_manifest_consistency manifest compiled),
          cr_underspecified_sub_issues = sort_key us_sub_issue_id
            (concat (map (\<lambda>i. concat (map (underspecified_entry i) (pli_sub_issues i))) issues)),
          cr_dependency_metadata = \<lparr>dm_planning_wave = wave,
            dm_total_nodes = length ms + length issues + sum_list (map (\<lambda>i. length (pli_sub_issues i)) issues),
            dm_milestone_count = length ms, dm_issue_count = length issues,
            dm_sub_issue_count = sum_list (map (\<lambda>i. length (pli_sub_issues i)) issues),
            dm_edges = sort_key (\<lambda>e. (de_milestone e, dependency_relation_rank (de_relation e), de_source e,
              de_target e)) edges\<rparr>\<rparr>)"

end
