(* ===== verification/Planning_Publish.thy ===== *)
theory Planning_Publish
  imports Planning_Compiler
begin

text \<open>
  What the plan compiler decides and what it hands to the publish step: the plans it calls
  publishable, and the tasks and milestones of the receipt.
\<close>

section \<open>Publishable plans\<close>

text \<open>The ids of a plan with their task files, and the file the manifest has to give for an id: the
  last one that is not empty.\<close>

definition plan_files :: "planned_milestone list \<Rightarrow> (task_id \<times> string) list" where
  "plan_files ms = concat (map (\<lambda>m. concat (map (\<lambda>i. (pli_id i, unwrap_or (pli_task_file i) []) #
     map (\<lambda>s. (psi_id s, unwrap_or (psi_task_file s) [])) (pli_sub_issues i)) (plm_issues m))) ms)"

definition declared_file :: "planned_milestone list \<Rightarrow> task_id \<Rightarrow> string option" where
  "declared_file ms = map_of (rev (filter (\<lambda>(t, file). file \<noteq> []) (plan_files ms)))"

definition sub_issue_ready :: "planned_sub_issue \<Rightarrow> bool" where
  "sub_issue_ready s \<longleftrightarrow> psi_verification_steps s \<noteq> [] \<and>
     (\<forall>step \<in> set (psi_verification_steps s). trim step \<noteq> []) \<and> trim (psi_title s) \<noteq> [] \<and>
     psi_task_file s \<noteq> None"

definition issue_ready :: "planned_issue \<Rightarrow> bool" where
  "issue_ready i \<longleftrightarrow> pli_acceptance_criteria i \<noteq> [] \<and>
     (\<forall>c \<in> set (pli_acceptance_criteria i). trim (ac_description c) \<noteq> []) \<and> trim (pli_title i) \<noteq> [] \<and>
     pli_task_file i \<noteq> None \<and> (\<forall>s \<in> set (pli_sub_issues i). sub_issue_ready s)"

definition publish_ready :: "plan_artifacts \<Rightarrow> bool" where
  "publish_ready a \<longleftrightarrow> pa_milestones a \<noteq> [] \<and>
     (\<forall>m \<in> set (pa_milestones a). trim (plm_name m) \<noteq> [] \<and> (\<forall>i \<in> set (plm_issues m). issue_ready i)) \<and>
     set (tpm_milestones (pa_manifest a)) = plm_name ` set (pa_milestones a) \<and>
     mft_id ` set (tpm_tasks (pa_manifest a)) = fst ` set (plan_files (pa_milestones a)) \<and>
     (\<forall>t \<in> set (tpm_tasks (pa_manifest a)).
        declared_file (pa_milestones a) (mft_id t) \<in> {None, Some (mft_file t)})"

definition no_errors :: "validation_message list \<Rightarrow> bool" where
  "no_errors ms \<longleftrightarrow> (\<forall>m \<in> set ms. vm_severity m \<noteq> ValidationError)"

lemma no_errors_simps [simp]:
  "no_errors []" "no_errors (m # ms) \<longleftrightarrow> vm_severity m \<noteq> ValidationError \<and> no_errors ms"
  "no_errors (ms @ ns) \<longleftrightarrow> no_errors ms \<and> no_errors ns"
  "no_errors (concat (map g xs)) \<longleftrightarrow> (\<forall>x \<in> set xs. no_errors (g x))"
  "no_errors (sort_key k ms) \<longleftrightarrow> no_errors ms"
  "no_errors (if b then ms else ns) \<longleftrightarrow> (if b then no_errors ms else no_errors ns)"
  by (auto simp: no_errors_def)

lemma message_severity [simp]:
  "vm_severity (message_error t f m) = ValidationError" "vm_severity (message_warning t f m) = ValidationWarning"
  by (simp_all add: message_error_def message_warning_def)

lemma enumerate_all: "(\<forall>(i, x) \<in> set (enumerate n xs). P x) \<longleftrightarrow> (\<forall>x \<in> set xs. P x)"
  by (force simp: in_set_enumerate_eq in_set_conv_nth enumerate_eq_zip dest: set_zip_rightD)

lemma validate_sub_issue_errors: "no_errors (validate_sub_issue s) \<longleftrightarrow> sub_issue_ready s"
  using enumerate_all [of 0 "psi_verification_steps s" "\<lambda>step. trim step \<noteq> []"]
  by (auto simp: validate_sub_issue_def sub_issue_ready_def Let_def split_beta)

lemma validate_issue_errors:
  "no_errors (issue_messages i) \<longleftrightarrow> issue_ready i"
  using enumerate_all [of 0 "pli_acceptance_criteria i" "\<lambda>c. trim (ac_description c) \<noteq> []"]
  by (auto simp: issue_messages_def validate_issue_def issue_ready_def Let_def split_beta validate_sub_issue_errors)

lemma compiled_files_plan: "compiled_files (map compile_milestone ms) = plan_files ms"
  by (simp add: compiled_files_def plan_files_def compile_milestone_def issue_to_compiled_def
      sub_issue_to_compiled_def comp_def)

lemma foldl_insert_get:
  "omap_get (foldl (\<lambda>m (k, v). omap_insert k v m) m kvs) = omap_get m ++ map_of (rev kvs)"
  by (induction kvs arbitrary: m) (auto simp: omap_get_insert map_add_def fun_eq_iff split: option.splits)

lemma foldl_insert_get_Nil: "omap_get (foldl (\<lambda>m (k, v). omap_insert k v m) [] kvs) = map_of (rev kvs)"
  by (simp add: foldl_insert_get fun_eq_iff map_add_def split: option.split)

lemma foldl_insert_keys:
  "fst ` set (foldl (\<lambda>m (k, v). omap_insert k v m) m kvs) = fst ` set m \<union> fst ` set kvs"
proof (induction kvs arbitrary: m)
  case (Cons e kvs)
  then show ?case by (cases e) (simp add: keys_omap_insert)
qed simp

lemma compiled_task_ids_get:
  "omap_get (compiled_task_ids (map compile_milestone ms)) (task_id_str t) = declared_file ms t"
proof -
  let ?kvs = "\<lambda>fs. map (\<lambda>(t, file). (task_id_str t, file)) (filter (\<lambda>(t, file). file \<noteq> []) fs)"
  have "foldl (\<lambda>files (t, file). if file \<noteq> [] then omap_insert (task_id_str t) file files else files) m fs =
      foldl (\<lambda>m (k, v). omap_insert k v m) m (?kvs fs)" for fs and m :: "(string, string) omap"
    by (induction fs arbitrary: m) auto
  then have "omap_get (compiled_task_ids (map compile_milestone ms)) = map_of (rev (?kvs (plan_files ms)))"
    by (simp only: compiled_task_ids_def compiled_files_plan foldl_insert_get_Nil)
  moreover have "map_of (map (\<lambda>(t, file). (task_id_str t, file)) xs) (task_id_str t) = map_of xs t"
    for xs :: "(task_id \<times> string) list"
    by (induction xs) (auto simp: task_id.expand)
  ultimately show ?thesis by (simp add: declared_file_def rev_map)
qed

lemma present_ids: "set (compiled_present_ids (map compile_milestone ms)) = task_id_str ` fst ` set (plan_files ms)"
  by (force simp: compiled_present_ids_def compiled_files_plan)

lemma declared_file_Some:
  assumes "declared_file ms t = Some f" shows "t \<in> fst ` set (plan_files ms) \<and> f \<noteq> []"
proof -
  have "(t, f) \<in> set (filter (\<lambda>(t, file). file \<noteq> []) (plan_files ms))"
    using assms map_of_SomeD unfolding declared_file_def by fastforce
  then show ?thesis using imageI [of "(t, f)" "set (plan_files ms)" fst] by simp
qed

lemma task_id_str_inject [simp]: "task_id_str s = task_id_str t \<longleftrightarrow> s = t"
  by (metis task_id.expand)

lemma manifest_agrees:
  fixes ms tasks
  defines "F \<equiv> compiled_task_ids (map compile_milestone ms)" and "P \<equiv> compiled_present_ids (map compile_milestone ms)"
  shows "(\<forall>t \<in> set tasks. no_errors (manifest_task_message F P t)) \<and>
      (\<forall>i \<in> set P. no_errors (compiled_task_message F tasks i)) \<longleftrightarrow>
    mft_id ` set tasks = fst ` set (plan_files ms) \<and>
      (\<forall>t \<in> set tasks. declared_file ms (mft_id t) \<in> {None, Some (mft_file t)})"
    (is "?forward \<and> ?backward \<longleftrightarrow> ?ids \<and> ?files")
proof -
  let ?ids_of = "fst ` set (plan_files ms)"
  have get: "omap_get F (task_id_str t) = declared_file ms t" for t
    by (simp add: F_def compiled_task_ids_get)
  have present: "task_id_str t \<in> set P \<longleftrightarrow> t \<in> ?ids_of" for t
    unfolding P_def present_ids by (rule inj_image_mem_iff) (rule injI, simp)
  have "no_errors (manifest_task_message F P t) \<longleftrightarrow>
      mft_id t \<in> ?ids_of \<and> declared_file ms (mft_id t) \<in> {None, Some (mft_file t)}" for t
    using declared_file_Some [of ms "mft_id t"]
    by (cases "declared_file ms (mft_id t)") (auto simp: manifest_task_message_def Let_def get present)
  then have forward: "?forward \<longleftrightarrow> (\<forall>t \<in> set tasks. mft_id t \<in> ?ids_of \<and>
      declared_file ms (mft_id t) \<in> {None, Some (mft_file t)})" by simp
  have backward: "?backward \<longleftrightarrow> ?ids_of \<subseteq> mft_id ` set tasks"
    if "\<forall>t \<in> set tasks. declared_file ms (mft_id t) \<in> {None, Some (mft_file t)}"
  proof -
    have "mismatched_ids F tasks = {}"
      using that by (auto simp: mismatched_ids_def get split: option.splits)
    moreover have "list_ex (\<lambda>k. if unwrap_or (declared_file ms t) [] \<noteq> []
        then task_id_str (mft_id k) = task_id_str t \<and> mft_file k = unwrap_or (declared_file ms t) []
        else task_id_str (mft_id k) = task_id_str t) tasks \<longleftrightarrow>
      t \<in> mft_id ` set tasks" for t
      using that declared_file_Some [of ms t] by (cases "declared_file ms t") (fastforce simp: list_ex_iff)+
    ultimately have "no_errors (compiled_task_message F tasks (task_id_str t)) \<longleftrightarrow> t \<in> mft_id ` set tasks" for t
      by (simp add: compiled_task_message_def Let_def get split del: if_split) simp
    then show ?thesis by (auto simp: P_def present_ids)
  qed
  show ?thesis unfolding forward using backward by blast
qed

lemma consistency_errors:
  "no_errors (validate_manifest_consistency manifest (map compile_milestone ms)) \<longleftrightarrow>
     set (tpm_milestones manifest) = plm_name ` set ms \<and>
     mft_id ` set (tpm_tasks manifest) = fst ` set (plan_files ms) \<and>
     (\<forall>t \<in> set (tpm_tasks manifest). declared_file ms (mft_id t) \<in> {None, Some (mft_file t)})"
proof -
  have names: "com_name ` compile_milestone ` set ms = plm_name ` set ms"
    by (simp add: image_image compile_milestone_def)
  have "(\<forall>m \<in> set (map compile_milestone ms). com_name m \<in> N) \<longleftrightarrow> plm_name ` set ms \<subseteq> N" for N
    by (auto simp: compile_milestone_def)
  then show ?thesis
    unfolding validate_manifest_consistency_def Let_def manifest_agrees [symmetric]
    by (auto simp: names)
qed

lemma taxonomy_errors:
  "no_errors (taxonomy_messages ms) \<longleftrightarrow> taxonomy_violations ms = []"
  "taxonomy_violations ms = [] \<longleftrightarrow> ms \<noteq> [] \<and> (\<forall>m \<in> set ms. trim (plm_name m) \<noteq> [])"
  by (auto simp: taxonomy_messages_def taxonomy_violations_def)

lemma publishable_ready:
  "is_publishable (compile manifest_to_yaml receipt_to_yaml artifacts) \<longleftrightarrow> publish_ready artifacts"
proof -
  let ?ms = "pa_milestones artifacts"
  let ?r = "compile manifest_to_yaml receipt_to_yaml artifacts"
  have violations: "cr_taxonomy_violations ?r = [] \<longleftrightarrow> taxonomy_violations ?ms = []"
    by (simp add: compile_def Let_def sort_taxonomy_def)
  have messages: "list_all (\<lambda>m. vm_severity m \<noteq> ValidationError) (cr_validation_messages ?r) \<longleftrightarrow>
      no_errors (taxonomy_messages ?ms @ concat (map issue_messages (concat (map plm_issues ?ms))) @
        validate_manifest_consistency (pa_manifest artifacts) (map compile_milestone ?ms))"
    by (simp add: compile_def Let_def sort_messages_def list_all_iff no_errors_def ball_Un)
  show ?thesis
    unfolding is_publishable_def violations messages publish_ready_def no_errors_simps(3) consistency_errors taxonomy_errors
    by (auto simp: validate_issue_errors)
qed

section \<open>The receipt\<close>

definition entity_list ::
  "(string, string) omap \<Rightarrow> compiled_milestone list \<Rightarrow> (task_id \<times> linear_publish_entity) list" where
  "entity_list lookup ms = concat (map (\<lambda>m. concat (map (\<lambda>i. (coi_task_id i, issue_entity lookup (com_name m) i) #
     map (\<lambda>s. (csi_task_id s, sub_issue_entity lookup (com_name m) i s)) (coi_sub_issues i)) (com_issues m))) ms)"

lemma foldl_concat: "foldl f a (concat xss) = foldl (foldl f) a xss"
  by (induction xss arbitrary: a) auto

lemma foldl_map: "foldl f a (map g xs) = foldl (\<lambda>a x. f a (g x)) a xs"
  by (induction xs arbitrary: a) auto

lemma receipt_tasks_list:
  "\<exists>lookup. lpr_tasks (build_publish_receipt wave ms manifest) =
     foldl (\<lambda>m (k, v). omap_insert k v m) [] (entity_list lookup ms)"
proof (rule exI)
  let ?lookup = "foldl (\<lambda>l t. omap_insert (task_id_str (mft_id t)) (mft_file t) l) [] (tpm_tasks manifest)"
  show "lpr_tasks (build_publish_receipt wave ms manifest) =
      foldl (\<lambda>m (k, v). omap_insert k v m) [] (entity_list ?lookup ms)"
    by (simp add: build_publish_receipt_def Let_def entity_list_def foldl_concat foldl_map
        add_issue_entities_def [abs_def])
qed

lemma receipt_milestones_list:
  "lpr_milestones (build_publish_receipt wave ms manifest) = foldl (\<lambda>m (k, v). omap_insert k v m) []
     (map (\<lambda>m. (com_name m, \<lparr>mr_name = com_name m, mr_milestone_id = None,
        mr_linked_issues = map coi_task_id (com_issues m)\<rparr>)) ms)"
  by (simp add: build_publish_receipt_def Let_def foldl_map)

lemma entity_list_ids: "map fst (entity_list lookup (map compile_milestone ms)) = map fst (plan_files ms)"
  by (simp add: entity_list_def plan_files_def compile_milestone_def issue_to_compiled_def
      sub_issue_to_compiled_def map_concat comp_def)

section \<open>Properties\<close>

text \<open>C17: the compiler calls a plan publishable exactly when it has named milestones, every issue and
  sub-issue is complete, and the manifest lists the same milestones and the same tasks with the files
  the plan gives them.\<close>

theorem publishable_iff_ready:
  "is_publishable (compile manifest_to_yaml receipt_to_yaml artifacts) \<longleftrightarrow> publish_ready artifacts"
  by (rule publishable_ready)

text \<open>The publish receipt has an entry for every task of the plan and no other; when the ids are
  distinct, the entry of a sub-issue names its issue as parent and the milestone it belongs to.\<close>

theorem receipt_covers_plan:
  assumes "distinct (map fst (plan_files ms))" and "m \<in> set ms" and "i \<in> set (plm_issues m)"
    and "s \<in> set (pli_sub_issues i)"
  shows "fst ` set (lpr_tasks (build_publish_receipt wave (map compile_milestone ms) manifest)) = fst ` set (plan_files ms) \<and>
    (\<exists>e. omap_get (lpr_tasks (build_publish_receipt wave (map compile_milestone ms) manifest)) (psi_id s) = Some e \<and>
       lpe_parent_task_id e = Some (pli_id i) \<and> lpe_linear_milestone e = plm_name m \<and>
       lpe_linear_kind e = SubIssueKind \<and> lpe_blocked_by e = psi_blocked_by s)"
proof -
  obtain lookup where tasks: "lpr_tasks (build_publish_receipt wave (map compile_milestone ms) manifest) =
      foldl (\<lambda>m (k, v). omap_insert k v m) [] (entity_list lookup (map compile_milestone ms))"
    using receipt_tasks_list by blast
  let ?es = "entity_list lookup (map compile_milestone ms)"
  have keys: "fst ` set ?es = fst ` set (plan_files ms)"
    using arg_cong [OF entity_list_ids, of set lookup ms] by simp
  let ?i = "issue_to_compiled i (plm_name m)" and ?s = "sub_issue_to_compiled s (pli_id i) (plm_name m)"
  have "(psi_id s, sub_issue_entity lookup (plm_name m) ?i ?s) \<in> set ?es"
    using assms(2-4)
    by (force simp: entity_list_def compile_milestone_def issue_to_compiled_def sub_issue_to_compiled_def)
  moreover have "distinct (map fst (rev ?es))" using assms(1) by (simp add: rev_map [symmetric] entity_list_ids)
  ultimately have "map_of (rev ?es) (psi_id s) = Some (sub_issue_entity lookup (plm_name m) ?i ?s)"
    by (intro map_of_is_SomeI) simp_all
  then show ?thesis
    unfolding tasks
    by (simp add: foldl_insert_get_Nil foldl_insert_keys keys)
      (simp add: sub_issue_entity_def issue_to_compiled_def sub_issue_to_compiled_def)
qed

text \<open>The receipt links to a milestone name the issues of the last milestone with that name; of
  two milestones that share a name the first loses its issues.\<close>

theorem receipt_links_last_milestone:
  "omap_get (lpr_milestones (build_publish_receipt wave (map compile_milestone ms) manifest)) name =
     map_option (\<lambda>m. \<lparr>mr_name = name, mr_milestone_id = None, mr_linked_issues = map pli_id (plm_issues m)\<rparr>)
       (find (\<lambda>m. plm_name m = name) (rev ms))"
proof -
  have "map_of (map (\<lambda>m. (plm_name m, \<lparr>mr_name = plm_name m, mr_milestone_id = None,
      mr_linked_issues = map pli_id (plm_issues m)\<rparr>)) xs) name =
    map_option (\<lambda>m. \<lparr>mr_name = name, mr_milestone_id = None, mr_linked_issues = map pli_id (plm_issues m)\<rparr>)
      (find (\<lambda>m. plm_name m = name) xs)" for xs :: "planned_milestone list"
    by (induction xs) auto
  then show ?thesis
    by (simp add: receipt_milestones_list foldl_insert_get_Nil rev_map compile_milestone_def
        issue_to_compiled_def comp_def)
qed

section \<open>Witnesses\<close>

definition example_sub_issue :: planned_sub_issue where
  "example_sub_issue = \<lparr>psi_id = TaskId ''s'', psi_title = [], psi_summary = [], psi_scope_in = [],
     psi_scope_out = [], psi_deliverables = [], psi_acceptance_criteria = [], psi_verification_steps = [],
     psi_context = [], psi_definition_of_ready = [], psi_notes = None, psi_priority = Normal,
     psi_estimate = None, psi_blocked_by = [], psi_blocks = [], psi_task_file = None, psi_repository = None\<rparr>"

definition example_receipt_issue :: planned_issue where
  "example_receipt_issue = \<lparr>pli_id = TaskId ''i'', pli_title = [], pli_summary = [], pli_scope_in = [],
     pli_scope_out = [], pli_deliverables = [], pli_acceptance_criteria = [], pli_verification_steps = [],
     pli_context = [], pli_definition_of_ready = [], pli_notes = None, pli_priority = Normal,
     pli_estimate = None, pli_blocked_by = [], pli_blocks = [], pli_sub_issues = [example_sub_issue],
     pli_task_file = None, pli_repository = None\<rparr>"

definition example_receipt_milestone :: planned_milestone where
  "example_receipt_milestone = \<lparr>plm_id = TaskId ''m'', plm_name = ''M'', plm_goal = [],
     plm_issues = [example_receipt_issue], plm_acceptance_criteria = [], plm_verification_steps = [],
     plm_notes = None\<rparr>"

definition example_receipt_manifest :: task_package_manifest where
  "example_receipt_manifest = \<lparr>tpm_planning_wave = [], tpm_tasks_dir = [], tpm_milestones = [],
     tpm_tasks = [], tpm_routing_mode = LegacySingle, tpm_repository_aliases = []\<rparr>"

lemma receipt_covers_plan_witness:
  "\<exists>e. omap_get (lpr_tasks (build_publish_receipt [] (map compile_milestone [example_receipt_milestone])
     example_receipt_manifest)) (TaskId ''s'') = Some e \<and> lpe_parent_task_id e = Some (TaskId ''i'')"
proof -
  have "distinct (map fst (plan_files [example_receipt_milestone]))"
    by (simp add: plan_files_def example_receipt_milestone_def example_receipt_issue_def example_sub_issue_def)
  moreover have "example_receipt_issue \<in> set (plm_issues example_receipt_milestone)"
    "example_sub_issue \<in> set (pli_sub_issues example_receipt_issue)"
    by (simp_all add: example_receipt_milestone_def example_receipt_issue_def)
  ultimately have "\<exists>e. omap_get (lpr_tasks (build_publish_receipt [] (map compile_milestone [example_receipt_milestone])
      example_receipt_manifest)) (psi_id example_sub_issue) = Some e \<and>
      lpe_parent_task_id e = Some (pli_id example_receipt_issue)"
    using receipt_covers_plan [of "[example_receipt_milestone]" example_receipt_milestone example_receipt_issue
      example_sub_issue "[]" example_receipt_manifest] by (simp del: list.map) blast
  then show ?thesis by (simp add: example_sub_issue_def example_receipt_issue_def)
qed

end
