(* ===== verification/Planning_Generated.thy ===== *)
theory Planning_Generated
  imports Planning_Generator Planning_Cycles Planning_Publish
begin

text \<open>
  What the generator of plans guarantees: fresh ids in ascending order, dependencies from later to
  earlier tasks only, an issue for every requirement, and a manifest the compiler accepts.
\<close>

section \<open>Numbered ids\<close>

definition task_number :: "task_id \<Rightarrow> nat" where
  "task_number t = (case Option.bind (strip_prefix ''TASK-'' (task_id_str t)) parse_u64 of
     None \<Rightarrow> 0 | Some n \<Rightarrow> unat n)"

lemma digits_value_zeros: "digits_value (replicate m (CHR ''0'') @ s) = digits_value s"
proof -
  have "foldl (\<lambda>n c. 10 * n + (byte c - 48)) 0 (replicate m (CHR ''0'')) = 0"
    by (induction m) (simp_all add: byte_def)
  then show ?thesis by (simp add: digits_value_def)
qed

lemma parse_pad_zeros: "parse_u64 (pad_zeros w (show_nat (unat (n :: u64)))) = Some n"
proof (cases "w - length (show_nat (unat n))")
  case (Suc m)
  have "unat n < 2 ^ 64" using unsigned_less [of n] by simp
  moreover have "list_all is_ascii_digit (replicate (Suc m) (CHR ''0'') @ show_nat (unat n))"
    using show_nat_digits [of "unat n"] by (auto simp: list_all_iff is_ascii_digit_def byte_def)
  moreover have "digits_value (replicate (Suc m) (CHR ''0'') @ show_nat (unat n)) = unat n"
    by (simp only: digits_value_zeros digits_value_show_nat)
  moreover have "byte (CHR ''0'') \<noteq> 43" by (simp add: byte_def)
  ultimately show ?thesis by (simp add: pad_zeros_def Suc parse_u64_def)
qed (simp add: pad_zeros_def parse_show_u64)

lemma task_number_numbered [simp]: "task_number (numbered_task_id n) = unat n"
  using strip_prefix_append [of "''TASK-''" "pad_zeros 3 (show_nat (unat n))"]
  by (simp add: task_number_def numbered_task_id_def parse_pad_zeros)

lemma numbered_task_id_inject [simp]: "numbered_task_id m = numbered_task_id n \<longleftrightarrow> m = n"
  by (metis task_number_numbered unsigned_word_eqI)

definition ids_ok :: "nat \<Rightarrow> nat \<Rightarrow> task_id list \<Rightarrow> bool" where
  "ids_ok lo hi ids \<longleftrightarrow> sorted_wrt (<) (map task_number ids) \<and>
     (\<forall>t \<in> set ids. lo < task_number t \<and> task_number t \<le> hi)"

lemma ids_ok_append:
  "ids_ok lo mid xs \<Longrightarrow> ids_ok mid hi ys \<Longrightarrow> lo \<le> mid \<Longrightarrow> mid \<le> hi \<Longrightarrow> ids_ok lo hi (xs @ ys)"
  by (fastforce simp: ids_ok_def sorted_wrt_append)

lemma ids_ok_weaken: "ids_ok lo mid xs \<Longrightarrow> mid \<le> hi \<Longrightarrow> ids_ok lo hi xs"
  by (auto simp: ids_ok_def)

lemma ids_ok_distinct: "ids_ok lo hi ids \<Longrightarrow> distinct ids"
  by (auto simp: ids_ok_def strict_sorted_iff distinct_map dest: strict_sorted_iff [THEN iffD1])

section \<open>Ordered dependencies\<close>

definition tasks_ok :: "blocking_task list \<Rightarrow> bool" where
  "tasks_ok ks \<longleftrightarrow> (\<forall>(t, d) \<in> depends ks. task_number d < task_number t) \<and>
     (\<forall>k \<in> set ks. set (bt_blocked_by k) \<union> set (bt_blocks k) \<subseteq> bt_id ` set ks)"

lemma depends_append: "depends (ks @ ls) = depends ks \<union> depends ls"
  by (auto simp: depends_def)

lemma tasks_ok_append: "tasks_ok ks \<Longrightarrow> tasks_ok ls \<Longrightarrow> tasks_ok (ks @ ls)"
  unfolding tasks_ok_def depends_append set_append image_Un ball_Un by (simp, blast)

lemma tasks_ok_acyclic: "tasks_ok ks \<Longrightarrow> acyclic (depends ks)"
proof -
  assume "tasks_ok ks"
  then have "depends ks \<subseteq> (measure task_number)\<inverse>" by (auto simp: tasks_ok_def)
  then show ?thesis
    by (meson acyclic_converse acyclic_subset wf_acyclic wf_measure)
qed

definition tasks_of :: "planned_issue list \<Rightarrow> blocking_task list" where
  "tasks_of issues = concat (map issue_tasks issues)"

lemma plan_tasks_append: "plan_tasks (ms @ ns) = plan_tasks ms @ plan_tasks ns"
  by (simp add: plan_tasks_def)

lemma plan_tasks_single: "plan_tasks [m] = tasks_of (plm_issues m)"
  by (simp add: plan_tasks_def tasks_of_def)

lemma plan_ids_append: "plan_ids (ms @ ns) = plan_ids ms @ plan_ids ns"
  by (simp add: plan_ids_def)

lemma issue_task_ids: "map bt_id (issue_tasks i) = pli_id i # map psi_id (pli_sub_issues i)"
  by (simp add: issue_tasks_def issue_task_def sub_issue_task_def)

lemma plan_ids_single: "plan_ids [m] = plm_id m # map bt_id (tasks_of (plm_issues m))"
  by (simp add: plan_ids_def tasks_of_def map_concat issue_task_ids comp_def)

lemma plan_task_ids: "bt_id ` set (plan_tasks ms) \<subseteq> set (plan_ids ms)"
proof (induction ms)
  case (Cons m ms)
  have "bt_id ` set (tasks_of (plm_issues m)) \<subseteq> set (plan_ids [m])"
    unfolding plan_ids_single by auto
  with Cons show ?case
    using plan_tasks_append [of "[m]" ms] plan_ids_append [of "[m]" ms] by (auto simp: plan_tasks_single)
qed (simp add: plan_tasks_def)

section \<open>Issues\<close>

text \<open>What every generated issue has.\<close>

definition made_by :: "'c planning_session \<Rightarrow> planned_issue \<Rightarrow> bool" where
  "made_by session i \<longleftrightarrow> (trim (pli_title i) \<noteq> [] \<longrightarrow> issue_ready i) \<and>
     pli_task_file i = Some (task_file_path session (pli_id i)) \<and>
     (\<forall>s \<in> set (pli_sub_issues i). psi_task_file s = Some (task_file_path session (psi_id s)))"

definition issues_inv :: "'c planning_session \<Rightarrow> nat \<Rightarrow> planned_issue list \<times> u64 \<Rightarrow> string list \<Rightarrow> bool" where
  "issues_inv session lo = (\<lambda>(issues, counter) requirements.
     lo \<le> unat counter \<and> ids_ok lo (unat counter) (map bt_id (tasks_of issues)) \<and>
     tasks_ok (tasks_of issues) \<and> (\<forall>i \<in> set issues. made_by session i) \<and> map pli_title issues = requirements)"

lemma strip_leading_keeps:
  "c \<in> set s \<Longrightarrow> \<forall>w \<in> set ws. c \<notin> set w \<Longrightarrow> c \<in> set (strip_leading ws s)"
proof (induction ws s rule: strip_leading.induct)
  case (1 ws s)
  show ?case
  proof (cases "leading ws s = 0 \<or> s = []")
    case False
    have "\<exists>w \<in> set ws. prefix w s \<and> leading ws s = length w" if "leading ws s \<noteq> 0" for ws
      using that by (induction ws) (auto split: if_splits)
    with False obtain w where w: "w \<in> set ws" "prefix w s" "leading ws s = length w" by blast
    with 1(2,3) have "c \<in> set (drop (leading ws s) s)" by (auto simp: prefix_def)
    with 1 False show ?thesis by (simp add: strip_leading.simps [of ws s])
  qed (use 1 in \<open>simp add: strip_leading.simps [of ws s]\<close>)
qed

text \<open>A string with a letter that occurs in no white space is not blank.\<close>

lemma trim_nonblank:
  assumes "c \<in> set s" and "is_ascii_alphanumeric c" shows "trim s \<noteq> []"
proof -
  have "\<forall>w \<in> set white_space. c \<notin> set w"
    using assms(2)
    by (auto simp: white_space_def is_ascii_alphanumeric_def is_ascii_digit_def is_ascii_upper_def byte_def)
  then have "\<forall>w \<in> set white_space. c \<notin> set w" "\<forall>w \<in> set (map rev white_space). c \<notin> set w" by auto
  then have "c \<in> set (trim s)"
    using assms(1) strip_leading_keeps unfolding trim_def trim_start_def trim_end_def by auto
  then show ?thesis by auto
qed

lemma unat_next: "unat (c :: u64) + 1 < 2 ^ 64 \<Longrightarrow> unat (c + 1) = unat c + 1"
  by (simp add: unat_word_ariths)

lemma tasks_of_append: "tasks_of (xs @ ys) = tasks_of xs @ tasks_of ys"
  by (simp add: tasks_of_def)

lemma depends_single: "depends [k] = {bt_id k} \<times> set (bt_blocked_by k) \<union> set (bt_blocks k) \<times> {bt_id k}"
  by (auto simp: depends_def)

text \<open>The tasks of a new issue, and those of the issues before it once the last one blocks it.\<close>

definition new_tasks :: "task_id list \<Rightarrow> task_id \<Rightarrow> task_id \<Rightarrow> task_id \<Rightarrow> blocking_task list" where
  "new_tasks blocked_by a b d = [\<lparr>bt_id = a, bt_blocked_by = blocked_by, bt_blocks = []\<rparr>,
     \<lparr>bt_id = b, bt_blocked_by = [], bt_blocks = [d]\<rparr>, \<lparr>bt_id = d, bt_blocked_by = [b], bt_blocks = []\<rparr>]"

definition refs_of :: "blocking_task list \<Rightarrow> task_id set" where
  "refs_of ks = (\<Union>k \<in> set ks. set (bt_blocked_by k) \<union> set (bt_blocks k))"

lemma tasks_ok_refs:
  "tasks_ok ks \<longleftrightarrow> (\<forall>(t, d) \<in> depends ks. task_number d < task_number t) \<and> refs_of ks \<subseteq> bt_id ` set ks"
  unfolding tasks_ok_def refs_of_def UN_subset_iff ..

lemma tasks_ok_new:
  assumes ok: "tasks_ok (ks @ k # ls)" and ids: "\<forall>t \<in> bt_id ` set (ks @ k # ls). task_number t \<le> n"
    and order: "n < task_number a" "task_number b < task_number d"
  shows "tasks_ok ((ks @ k\<lparr>bt_blocks := bt_blocks k @ [a]\<rparr> # ls) @ new_tasks [bt_id k] a b d)"
proof -
  let ?old = "ks @ k # ls" and ?new = "(ks @ k\<lparr>bt_blocks := bt_blocks k @ [a]\<rparr> # ls) @ new_tasks [bt_id k] a b d"
  have "depends ?new = depends ?old \<union> {(a, bt_id k), (d, b)}"
    unfolding depends_append depends_Cons [of _ ls] new_tasks_def
    by (simp add: depends_Cons [of _ "_ # _"] depends_single) blast
  then have "\<forall>(t, d) \<in> depends ?new. task_number d < task_number t"
    using ok ids order unfolding tasks_ok_def by auto
  moreover have "refs_of ?new \<subseteq> bt_id ` set ?new"
  proof -
    have ids: "bt_id ` set ?new = bt_id ` set ?old \<union> {a, b, d}" by (auto simp: new_tasks_def)
    have refs: "refs_of ?new \<subseteq> refs_of ?old \<union> {bt_id k, a, b, d}" by (auto simp: refs_of_def new_tasks_def)
    have "refs_of ?old \<subseteq> bt_id ` set ?old" "bt_id k \<in> bt_id ` set ?old" using ok by (simp_all add: tasks_ok_refs)
    then show ?thesis unfolding ids using refs by (elim order_trans) (simp del: set_append, blast)
  qed
  ultimately show ?thesis unfolding tasks_ok_refs by (rule conjI)
qed

lemma tasks_ok_first: "task_number b < task_number d \<Longrightarrow> tasks_ok (new_tasks [] a b d)"
  by (auto simp: tasks_ok_def new_tasks_def depends_def)

lemma made_by_new:
  "made_by session (new_issue session intake idx r a
     [implementation_sub_issue session g b d, validation_sub_issue session g b d] bs)"
proof -
  have "trim (r @ '' meets acceptance standards'') \<noteq> []" "trim (''Implement '' @ r) \<noteq> []"
    "trim (''Validate '' @ r) \<noteq> []" for r
    by (rule trim_nonblank [where c = "CHR ''a''"] trim_nonblank [where c = "CHR ''m''"];
        simp add: is_ascii_alphanumeric_def is_ascii_digit_def is_ascii_upper_def byte_def)+
  moreover have "\<forall>s \<in> {''Run unit tests'', ''Verify code style'', ''Run integration tests'',
      ''Verify acceptance criteria'', ''Generate validation report''}. trim s \<noteq> []"
    by (intro ballI trim_nonblank [where c = "CHR ''e''"])
      (auto simp: is_ascii_alphanumeric_def is_ascii_digit_def is_ascii_upper_def byte_def)
  ultimately show ?thesis
    by (simp add: made_by_def new_issue_def issue_ready_def sub_issue_ready_def
        implementation_sub_issue_def validation_sub_issue_def)
qed

lemma generate_issue_step:
  assumes inv: "issues_inv session lo (issues, c) rs" and room: "unat c + 3 < 2 ^ 64"
  shows "issues_inv session lo (generate_issue session intake (issues, c) (length rs, r)) (rs @ [r]) \<and>
    unat (snd (generate_issue session intake (issues, c) (length rs, r))) = unat c + 3"
proof -
  let ?a = "numbered_task_id (c + 1)" and ?b = "numbered_task_id (c + 1 + 1)"
    and ?d = "numbered_task_id (c + 1 + 1 + 1)"
  have "unat (c + 1) = unat c + 1" "unat (c + 1 + 1) = unat c + 2" "unat (c + 1 + 1 + 1) = unat c + 3"
    using room unat_next [of c] unat_next [of "c + 1"] unat_next [of "c + 1 + 1"] by simp_all
  moreover from this have "unat (2 + c) = unat c + 2" "unat (3 + c) = unat c + 3" by simp_all
  ultimately have nums: "unat (c + 1) = unat c + 1" "unat (c + 1 + 1) = unat c + 2" "unat (c + 1 + 1 + 1) = unat c + 3"
    "unat (2 + c) = unat c + 2" "unat (3 + c) = unat c + 3" by simp_all
  define g where "g = context_from_intake ?a r intake"
  define new where "new bs = new_issue session intake (length rs) r ?a
    [implementation_sub_issue session g ?b ?d, validation_sub_issue session g ?b ?d] bs" for bs
  have new_tasks: "tasks_of [new bs] = new_tasks bs ?a ?b ?d" for bs
    by (simp add: tasks_of_def issue_tasks_def issue_task_def sub_issue_task_def new_def new_issue_def
        implementation_sub_issue_def validation_sub_issue_def new_tasks_def)
  have new_made: "made_by session (new bs)" "pli_title (new bs) = r" for bs
    by (simp add: new_def made_by_new) (simp add: new_def new_issue_def)
  have new_ids: "ids_ok (unat c) (unat c + 3) (map bt_id (new_tasks bs ?a ?b ?d))" for bs
    by (simp add: ids_ok_def new_tasks_def nums)
  have lens: "length issues = length rs" using inv unfolding issues_inv_def by (auto dest: arg_cong [where f = length])
  show ?thesis
  proof (cases issues rule: rev_cases)
    case Nil
    with lens have step: "generate_issue session intake (issues, c) (length rs, r) = ([new []], c + 1 + 1 + 1)"
      by (simp add: generate_issue_def next_task_id_def generate_sub_issues_for_issue_def g_def new_def)
    have "tasks_ok (new_tasks [] ?a ?b ?d)" by (rule tasks_ok_first) (simp add: nums)
    moreover have "ids_ok lo (unat c + 3) (map bt_id (new_tasks [] ?a ?b ?d))" "lo \<le> unat c"
      using inv new_ids [of "[]"] by (auto simp: issues_inv_def ids_ok_def)
    ultimately show ?thesis
      using inv new_made Nil unfolding step by (simp add: issues_inv_def new_tasks nums)
  next
    case (snoc xs l)
    let ?l = "l\<lparr>pli_blocks := pli_blocks l @ [?a]\<rparr>"
    from snoc lens have "rs \<noteq> []" by auto
    with snoc have step: "generate_issue session intake (issues, c) (length rs, r) =
        ((xs @ [?l]) @ [new [pli_id l]], c + 1 + 1 + 1)"
      by (simp add: generate_issue_def next_task_id_def generate_sub_issues_for_issue_def g_def new_def
          amend_last_def)
    let ?k = "issue_task l" and ?ls = "map sub_issue_task (pli_sub_issues l)"
    have old: "tasks_of issues = tasks_of xs @ ?k # ?ls" by (simp add: snoc tasks_of_def issue_tasks_def)
    have tasks: "tasks_of ((xs @ [?l]) @ [new [pli_id l]]) =
        (tasks_of xs @ ?k\<lparr>bt_blocks := bt_blocks ?k @ [?a]\<rparr> # ?ls) @ new_tasks [bt_id ?k] ?a ?b ?d"
      unfolding tasks_of_append [of _ "[new [pli_id l]]"] new_tasks
      by (simp add: tasks_of_append) (simp add: tasks_of_def issue_tasks_def issue_task_def)
    have ids: "map bt_id (tasks_of ((xs @ [?l]) @ [new [pli_id l]])) =
        map bt_id (tasks_of issues) @ map bt_id (new_tasks [bt_id ?k] ?a ?b ?d)"
      unfolding tasks old by simp
    have "tasks_ok (tasks_of ((xs @ [?l]) @ [new [pli_id l]]))"
      unfolding tasks
    proof (rule tasks_ok_new)
      show "tasks_ok (tasks_of xs @ ?k # ?ls)" using inv by (simp add: issues_inv_def old)
      show "\<forall>t \<in> bt_id ` set (tasks_of xs @ ?k # ?ls). task_number t \<le> unat c"
        using inv unfolding old [symmetric] by (auto simp: issues_inv_def ids_ok_def)
    qed (simp_all add: nums)
    moreover have "ids_ok lo (unat c + 3) (map bt_id (tasks_of ((xs @ [?l]) @ [new [pli_id l]])))"
      unfolding ids using inv new_ids by (intro ids_ok_append [of _ "unat c"]) (simp_all add: issues_inv_def)
    moreover have "made_by session ?l" "made_by session x" if "x \<in> set xs" for x
      using inv that by (auto simp: issues_inv_def snoc made_by_def issue_ready_def)
    moreover have "made_by session ?l"
      using inv by (auto simp: issues_inv_def snoc made_by_def issue_ready_def)
    ultimately show ?thesis
      using inv new_made unfolding step issues_inv_def by (auto simp: snoc nums)
  qed
qed

lemma generate_issues_inv:
  assumes "unat c + 3 * length (ic_requirements intake) < 2 ^ 64"
  shows "issues_inv session (unat c) (generate_issues_for_milestone session c intake) (ic_requirements intake) \<and>
    unat (snd (generate_issues_for_milestone session c intake)) = unat c + 3 * length (ic_requirements intake)"
proof -
  have "issues_inv session (unat c) (foldl (generate_issue session intake) ([], c) (enumerate 0 rs)) rs \<and>
      unat (snd (foldl (generate_issue session intake) ([], c) (enumerate 0 rs))) = unat c + 3 * length rs"
    if "unat c + 3 * length rs < 2 ^ 64" for rs
    using that
  proof (induction rs rule: rev_induct)
    case (snoc r rs)
    obtain issues d where st: "foldl (generate_issue session intake) ([], c) (enumerate 0 rs) = (issues, d)"
      by (cases "foldl (generate_issue session intake) ([], c) (enumerate 0 rs)")
    with snoc have "issues_inv session (unat c) (issues, d) rs" "unat d = unat c + 3 * length rs" by simp_all
    with generate_issue_step [OF this(1), of intake r] snoc(2) st show ?case
      by (simp add: enumerate_append_eq)
  qed (simp add: issues_inv_def ids_ok_def tasks_ok_def tasks_of_def depends_def)
  from this [OF assms] show ?thesis unfolding generate_issues_for_milestone_def .
qed

section \<open>Plans\<close>

lemma mset_concat_update:
  "i < length xss \<Longrightarrow> mset (concat (xss[i := xss ! i @ [x]])) = add_mset x (mset (concat xss))"
proof (induction xss arbitrary: i)
  case (Cons xs xss)
  then show ?case by (cases i) simp_all
qed simp

lemma requirements_grouped:
  "length (requirements_by_milestone session n) = max n 1 \<and>
     mset (concat (requirements_by_milestone session n)) = mset (ic_requirements (ps_intake session))"
proof -
  let ?step = "\<lambda>grouped (idx, requirement :: string).
    grouped[idx mod max n 1 := grouped ! (idx mod max n 1) @ [requirement]]"
  have "length (foldl ?step gs ps) = length gs \<and>
      mset (concat (foldl ?step gs ps)) = mset (concat gs) + mset (map snd ps)"
    if "length gs = max n 1" for gs and ps :: "(nat \<times> string) list"
    using that
  proof (induction ps arbitrary: gs)
    case (Cons p ps)
    obtain idx r where p: "p = (idx, r)" by (cases p)
    have "idx mod max n 1 < length gs" using Cons(2) by simp
    with Cons show ?case by (simp add: p mset_concat_update del: mset_concat)
  qed simp
  from this [of "replicate (max n 1) []"] show ?thesis
    by (simp add: requirements_by_milestone_def Let_def del: mset_map mset_concat)
qed

definition plan_inv ::
  "'c planning_session \<Rightarrow> nat \<Rightarrow> planned_milestone list \<times> u64 \<Rightarrow> string list \<Rightarrow> bool" where
  "plan_inv session lo = (\<lambda>(ms, counter) titles.
     lo \<le> unat counter \<and> ids_ok lo (unat counter) (plan_ids ms) \<and> tasks_ok (plan_tasks ms) \<and>
     (\<forall>m \<in> set ms. (\<forall>i \<in> set (plm_issues m). made_by session i)) \<and>
     map pli_title (concat (map plm_issues ms)) = titles)"

lemma milestone_inv:
  assumes inv: "plan_inv session lo (ms, c) titles"
    and room: "unat c + 1 + 3 * length (ic_requirements intake) < 2 ^ 64"
    and issues: "generate_issues_for_milestone session (c + 1) intake = (issues, d)"
    and m: "plm_id m = numbered_task_id (c + 1)" "plm_issues m = issues"
  shows "plan_inv session lo (ms @ [m], d) (titles @ ic_requirements intake) \<and>
    unat d = unat c + 1 + 3 * length (ic_requirements intake)"
proof -
  have next_c: "unat (c + 1) = unat c + 1" using room by (intro unat_next) simp
  then have new: "issues_inv session (unat c + 1) (issues, d) (ic_requirements intake)"
    and d: "unat d = unat c + 1 + 3 * length (ic_requirements intake)"
    using generate_issues_inv [of "c + 1" intake session] room by (simp_all add: issues)
  have "ids_ok (unat c) (unat d) (numbered_task_id (c + 1) # map bt_id (tasks_of issues))"
    using new by (auto simp: ids_ok_def issues_inv_def next_c)
  then have "ids_ok lo (unat d) (plan_ids ms @ plan_ids [m])"
    using inv d unfolding plan_ids_single m by (intro ids_ok_append [of _ "unat c"]) (simp_all add: plan_inv_def)
  moreover have "tasks_ok (plan_tasks ms @ plan_tasks [m])"
    unfolding plan_tasks_single m using inv new by (intro tasks_ok_append) (simp_all add: plan_inv_def issues_inv_def)
  ultimately show ?thesis
    using inv new d m by (simp add: plan_inv_def issues_inv_def plan_ids_append plan_tasks_append)
qed

lemma plan_inv_start: "plan_inv session (unat c) ([], c) []"
  by (simp add: plan_inv_def ids_ok_def plan_ids_def tasks_ok_def plan_tasks_def depends_def)

lemma generate_milestone_inv:
  assumes inv: "plan_inv session lo (ms, c) titles" and room: "unat c + 1 + 3 * length rs < 2 ^ 64"
  shows "plan_inv session lo (generate_milestone session (ms, c) (name, rs)) (titles @ rs) \<and>
    unat (snd (generate_milestone session (ms, c) (name, rs))) = unat c + 1 + 3 * length rs \<and>
    plm_name ` set (fst (generate_milestone session (ms, c) (name, rs))) \<subseteq> insert name (plm_name ` set ms)"
proof (cases "rs = []")
  case True
  moreover have "unat (c + 1) = unat c + 1" using room by (intro unat_next) simp
  ultimately show ?thesis
    using inv by (auto simp: generate_milestone_def next_task_id_def plan_inv_def ids_ok_def)
next
  case False
  let ?intake = "(ps_intake session)\<lparr>ic_requirements := rs\<rparr>"
  obtain issues d where issues: "generate_issues_for_milestone session (c + 1) ?intake = (issues, d)" by fastforce
  define m where "m = last (fst (generate_milestone session (ms, c) (name, rs)))"
  have m: "plm_id m = numbered_task_id (c + 1)" "plm_issues m = issues" "plm_name m = name"
    and step: "generate_milestone session (ms, c) (name, rs) = (ms @ [m], d)"
    using False by (simp_all add: m_def generate_milestone_def next_task_id_def issues)
  show ?thesis
    unfolding step using milestone_inv [OF inv _ issues m(1,2)] room m(3) by simp
qed

lemma generate_all_inv:
  "unat c + length ps + 3 * length (concat (map snd ps)) < 2 ^ 64 \<Longrightarrow>
     plan_inv session (unat c) (foldl (generate_milestone session) ([], c) ps) (concat (map snd ps)) \<and>
     unat (snd (foldl (generate_milestone session) ([], c) ps)) = unat c + length ps + 3 * length (concat (map snd ps)) \<and>
     plm_name ` set (fst (foldl (generate_milestone session) ([], c) ps)) \<subseteq> fst ` set ps"
proof (induction ps rule: rev_induct)
  case (snoc p ps)
  obtain name rs where p: "p = (name, rs)" by (cases p)
  obtain ms d where st: "foldl (generate_milestone session) ([], c) ps = (ms, d)" by fastforce
  have "plan_inv session (unat c) (ms, d) (concat (map snd ps))"
    "unat d = unat c + length ps + 3 * length (concat (map snd ps))" "plm_name ` set ms \<subseteq> fst ` set ps"
    using snoc by (simp_all add: st)
  with generate_milestone_inv [OF this(1), of rs name] snoc(2) show ?case
    by (simp add: st p) blast
qed (simp add: plan_inv_start)

definition plan_room :: "'c planning_session \<Rightarrow> u64 \<Rightarrow> bool" where
  "plan_room session c \<longleftrightarrow> unat c + max 1 (length (linear_milestone_names session)) +
     3 * length (ic_requirements (ps_intake session)) < 2 ^ 64"

definition fallback_milestone_name :: "'c planning_session \<Rightarrow> string" where
  "fallback_milestone_name session = ''M1: '' @
     join_words '' '' (take 3 (split_whitespace (ic_project_description (ps_intake session))))"

lemma generated_milestones_inv:
  assumes "plan_room session c"
  shows "\<exists>titles. plan_inv session (unat c) (generate_milestones session c) titles \<and>
    mset titles = mset (ic_requirements (ps_intake session)) \<and>
    plm_name ` set (fst (generate_milestones session c)) \<subseteq>
      insert (fallback_milestone_name session) (set (linear_milestone_names session))"
proof (cases "linear_milestone_names session = []")
  case True
  obtain issues d where issues: "generate_issues_for_milestone session (c + 1) (ps_intake session) = (issues, d)"
    by fastforce
  define m where "m = last (fst (generate_milestones session c))"
  have m: "plm_id m = numbered_task_id (c + 1)" "plm_issues m = issues"
    "plm_name m = fallback_milestone_name session"
    and step: "generate_milestones session c = ([m], d)"
    using True by (simp_all add: m_def generate_milestones_def single_milestone_def Let_def next_task_id_def
        fallback_milestone_name_def issues)
  show ?thesis
    unfolding step using milestone_inv [OF plan_inv_start _ issues m(1,2)] assms True m(3)
    by (intro exI [of _ "ic_requirements (ps_intake session)"]) (simp add: plan_room_def)
next
  case False
  let ?names = "linear_milestone_names session"
  let ?groups = "requirements_by_milestone session (length ?names)"
  have len: "length ?groups = length ?names"
    using requirements_grouped [of session "length ?names"] False by (cases ?names) simp_all
  have all: "mset (concat ?groups) = mset (ic_requirements (ps_intake session))"
    using requirements_grouped [of session "length ?names"] by simp
  have "length (concat ?groups) = length (ic_requirements (ps_intake session))"
    using arg_cong [OF all, of size] by simp
  then have "unat c + length (zip ?names ?groups) + 3 * length (concat (map snd (zip ?names ?groups))) < 2 ^ 64"
    using assms len by (simp add: plan_room_def)
  note made = generate_all_inv [OF this, of session]
  have "fst ` set (zip ?names ?groups) = set ?names" using len by (simp flip: set_map)
  then have "plm_name ` set (fst (generate_milestones session c)) \<subseteq> set ?names"
    using made False by (simp add: generate_milestones_def Let_def)
  moreover have "plan_inv session (unat c) (generate_milestones session c) (concat (map snd (zip ?names ?groups)))"
    using made False by (simp add: generate_milestones_def Let_def)
  moreover have "mset (concat (map snd (zip ?names ?groups))) = mset (ic_requirements (ps_intake session))"
    using len all by simp
  ultimately show ?thesis by blast
qed

lemma generated_Ok:
  assumes "fst (generate now session c) = Ok a"
  shows "pa_milestones a = fst (generate_milestones session c)" "ic_requirements (ps_intake session) \<noteq> []"
    "pa_manifest a = generate_manifest session (pa_milestones a) None"
  using assms
  by (auto simp: generate_def validate_session_def Let_def split_beta split: if_splits)

lemma generated_plan_inv:
  assumes "fst (generate now session c) = Ok a" and "plan_room session c"
  shows "\<exists>hi. ids_ok (unat c) hi (plan_ids (pa_milestones a))" "tasks_ok (plan_tasks (pa_milestones a))"
    "\<forall>m \<in> set (pa_milestones a). \<forall>i \<in> set (plm_issues m). made_by session i"
    "mset (map pli_title (concat (map plm_issues (pa_milestones a)))) = mset (ic_requirements (ps_intake session))"
    "plm_name ` set (pa_milestones a) \<subseteq> insert (fallback_milestone_name session) (set (linear_milestone_names session))"
  using generated_milestones_inv [OF assms(2)] generated_Ok(1) [OF assms(1)]
  by (auto simp: plan_inv_def split_beta simp del: map_concat)

lemma manifest_tasks_made:
  assumes "\<forall>m \<in> set ms. \<forall>i \<in> set (plm_issues m). made_by session i"
  shows "manifest_tasks_of ms = map (\<lambda>(t, file). \<lparr>mft_id = t, mft_file = file\<rparr>) (plan_files ms) \<and>
    (\<forall>(t, file) \<in> set (plan_files ms). file = task_file_path session t)"
proof
  show "manifest_tasks_of ms = map (\<lambda>(t, file). \<lparr>mft_id = t, mft_file = file\<rparr>) (plan_files ms)"
    using assms
    by (induction ms) (simp_all add: manifest_tasks_of_def plan_files_def Let_def made_by_def map_concat comp_def
        cong: map_cong)
  show "\<forall>(t, file) \<in> set (plan_files ms). file = task_file_path session t"
    using assms by (auto simp: plan_files_def made_by_def)
qed

section \<open>Properties\<close>

text \<open>C14: a generated plan has distinct task ids, an issue for every requirement and no other, and no
  cycle of dependencies; it declares every blocker, so the creation-order waves hold all its tasks.\<close>

theorem generated_plan_sound:
  assumes "fst (generate now session counter) = Ok artifacts" and "plan_room session counter"
  shows "distinct (plan_ids (pa_milestones artifacts)) \<and>
    mset (map pli_title (concat (map plm_issues (pa_milestones artifacts)))) =
      mset (ic_requirements (ps_intake session)) \<and>
    validate_dependency_graph artifacts = Ok () \<and>
    set (concat (creation_order_waves artifacts)) = bt_id ` set (plan_tasks (pa_milestones artifacts))"
proof -
  let ?ks = "plan_tasks (pa_milestones artifacts)"
  note inv = generated_plan_inv [OF assms]
  have acyclic: "acyclic (depends ?ks)" using inv(2) by (rule tasks_ok_acyclic)
  have "blockers ?ks t \<subseteq> bt_id ` set ?ks" for t
    using inv(2) unfolding tasks_ok_def blockers_def by blast
  then have "schedulable ?ks t \<longleftrightarrow> t \<in> bt_id ` set ?ks" for t
    using acyclic_schedulable [OF acyclic] by (blast elim: schedulable.cases)
  then have "set (concat (creation_order_waves artifacts)) = bt_id ` set ?ks"
    unfolding waves_schedulable by blast
  with acyclic inv(1,4) ids_ok_distinct show ?thesis by (simp add: validate_iff_acyclic) blast
qed

text \<open>C15: when no requirement and no milestone name is blank, the compiler accepts what the generator
  produces.\<close>

theorem generated_plan_publishable:
  assumes ok: "fst (generate now session counter) = Ok artifacts" and room: "plan_room session counter"
    and requirements: "list_all (\<lambda>r. trim r \<noteq> []) (ic_requirements (ps_intake session))"
    and names: "list_all (\<lambda>n. trim n \<noteq> []) (linear_milestone_names session)"
  shows "is_publishable (compile manifest_to_yaml receipt_to_yaml artifacts)"
  unfolding publishable_ready publish_ready_def
proof (intro conjI)
  let ?ms = "pa_milestones artifacts"
  note inv = generated_plan_inv [OF ok room]
  have made: "\<forall>m \<in> set ?ms. \<forall>i \<in> set (plm_issues m). made_by session i" by (rule inv(3))
  have titles: "set (map pli_title (concat (map plm_issues ?ms))) = set (ic_requirements (ps_intake session))"
    using inv(4) by (metis set_mset_mset)
  have manifest: "tpm_tasks (pa_manifest artifacts) = manifest_tasks_of ?ms"
    "tpm_milestones (pa_manifest artifacts) = map plm_name ?ms"
    using generated_Ok(3) [OF ok] by (simp_all add: generate_manifest_def)
  show "?ms \<noteq> []" using inv(4) generated_Ok(2) [OF ok] by auto
  show "\<forall>m \<in> set ?ms. trim (plm_name m) \<noteq> [] \<and> (\<forall>i \<in> set (plm_issues m). issue_ready i)"
  proof (intro ballI conjI)
    fix m assume m: "m \<in> set ?ms"
    have "trim (fallback_milestone_name session) \<noteq> []"
      unfolding fallback_milestone_name_def
      by (rule trim_nonblank [where c = "CHR ''M''"])
        (simp_all add: is_ascii_alphanumeric_def is_ascii_upper_def byte_def)
    with inv(5) names m show "trim (plm_name m) \<noteq> []" by (auto simp: list_all_iff)
    fix i assume i: "i \<in> set (plm_issues m)"
    have "pli_title i \<in> set (map pli_title (concat (map plm_issues ?ms)))" using m i by auto
    then have "trim (pli_title i) \<noteq> []" using requirements unfolding titles by (simp add: list_all_iff)
    with made m i show "issue_ready i" by (simp add: made_by_def)
  qed
  show "set (tpm_milestones (pa_manifest artifacts)) = plm_name ` set ?ms" by (simp add: manifest)
  note files = manifest_tasks_made [OF made]
  have ids: "mft_id ` set (tpm_tasks (pa_manifest artifacts)) = fst ` set (plan_files ?ms)"
    using files by (simp add: manifest image_image split_beta)
  then show "mft_id ` set (tpm_tasks (pa_manifest artifacts)) = fst ` set (plan_files ?ms)" .
  show "\<forall>t \<in> set (tpm_tasks (pa_manifest artifacts)). declared_file ?ms (mft_id t) \<in> {None, Some (mft_file t)}"
  proof
    fix t assume "t \<in> set (tpm_tasks (pa_manifest artifacts))"
    then have t: "mft_file t = task_file_path session (mft_id t)" using files by (auto simp: manifest)
    show "declared_file ?ms (mft_id t) \<in> {None, Some (mft_file t)}"
    proof (cases "declared_file ?ms (mft_id t)")
      case (Some f)
      then have "(mft_id t, f) \<in> set (plan_files ?ms)"
        unfolding declared_file_def by (auto dest!: map_of_SomeD)
      with files t Some show ?thesis by auto
    qed simp
  qed
qed

section \<open>Witnesses\<close>

definition example_planning_session :: "unit planning_session" where
  "example_planning_session = planning_session_new \<lparr>ic_planning_wave = ''alpha'',
     ic_project_description = ''Ship the alpha'', ic_success_criteria = [],
     ic_requirements = [''Login'', ''Logout''], ic_constraints = [], ic_open_questions = [],
     ic_reference_docs = []\<rparr> ''docs/tasks''"

lemma example_session_generates:
  "\<exists>a. fst (generate 0 example_planning_session 0) = Ok a" "plan_room example_planning_session 0"
  "ic_requirements (ps_intake example_planning_session) = [''Login'', ''Logout'']"
  "linear_milestone_names example_planning_session = []"
  by (simp_all add: example_planning_session_def planning_session_new_def generate_def
      validate_session_def split_beta plan_room_def linear_milestone_names_def)

lemma generated_plan_sound_witness:
  "\<exists>a. fst (generate 0 example_planning_session 0) = Ok a \<and> distinct (plan_ids (pa_milestones a)) \<and>
     mset (map pli_title (concat (map plm_issues (pa_milestones a)))) = {#''Login'', ''Logout''#} \<and>
     validate_dependency_graph a = Ok ()"
proof -
  obtain a where a: "fst (generate 0 example_planning_session 0) = Ok a"
    using example_session_generates(1) by blast
  with generated_plan_sound [OF a example_session_generates(2)] show ?thesis
    by (intro exI [of _ a]) (simp add: example_session_generates(3))
qed

lemma generated_plan_publishable_witness:
  "\<exists>a. fst (generate 0 example_planning_session 0) = Ok a \<and>
     is_publishable (compile (\<lambda>_. []) (\<lambda>_. []) a)"
proof -
  obtain a where a: "fst (generate 0 example_planning_session 0) = Ok a"
    using example_session_generates(1) by blast
  have "trim ''Login'' \<noteq> []" "trim ''Logout'' \<noteq> []"
    by (rule trim_nonblank [where c = "CHR ''L''"];
        simp add: is_ascii_alphanumeric_def is_ascii_upper_def byte_def)+
  with a generated_plan_publishable [OF a example_session_generates(2)] show ?thesis
    by (intro exI [of _ a]) (simp add: example_session_generates(3,4))
qed

end
