(* ===== verification/Planning_Regenerate.thy ===== *)
theory Planning_Regenerate
  imports Planning_Generated
begin

text \<open>
  Regeneration of the issues of a plan: what is not selected stays, and new tasks get ids no task of
  the plan has.
\<close>

section \<open>Seeding the counter\<close>

lemma observe_bounds: "unat c \<le> unat (observe_task_id c t) \<and> task_number t \<le> unat (observe_task_id c t)"
  by (auto simp: observe_task_id_def task_number_def max_def word_le_nat_alt split: option.split)

lemma observe_all_bounds:
  "unat c \<le> unat (foldl observe_task_id c ts) \<and> (\<forall>t \<in> set ts. task_number t \<le> unat (foldl observe_task_id c ts))"
proof (induction ts arbitrary: c)
  case (Cons t ts)
  let ?c = "observe_task_id c t"
  have "unat ?c \<le> unat (foldl observe_task_id ?c ts)"
    "\<forall>t \<in> set ts. task_number t \<le> unat (foldl observe_task_id ?c ts)" using Cons by blast+
  with observe_bounds [of c t] show ?case by (auto intro: order_trans)
qed simp

section \<open>One milestone\<close>

definition group_size :: "string list list \<Rightarrow> nat \<Rightarrow> nat" where
  "group_size groups i = length (unwrap_or (get_index groups i) [])"

text \<open>What regeneration leaves of a milestone.\<close>

definition milestone_kept :: "task_id list option \<Rightarrow> planned_milestone \<Rightarrow> planned_milestone \<Rightarrow> bool" where
  "milestone_kept target_ids m m' \<longleftrightarrow> plm_id m' = plm_id m \<and> plm_name m' = plm_name m \<and>
     plm_goal m' = plm_goal m \<and> (\<not> targeted target_ids (plm_id m) \<longrightarrow> m' = m)"

lemma bind_repositories_ids [simp]: "map psi_id (bind_repositories inherited existing subs) = map psi_id subs"
proof -
  have "map psi_id (map (\<lambda>(index, s). s\<lparr>psi_repository := f index\<rparr>) (enumerate n subs)) = map psi_id subs"
    for n and f :: "nat \<Rightarrow> string option"
    by (induction subs arbitrary: n) simp_all
  then show ?thesis unfolding bind_repositories_def .
qed

lemma rebind_issue_ids: "map bt_id (issue_tasks (rebind_issue m (n, i))) = map bt_id (issue_tasks i)"
  by (simp add: issue_task_ids rebind_issue_def Let_def)

lemma rebound_ids: "map bt_id (tasks_of (map (rebind_issue m) (enumerate n issues))) = map bt_id (tasks_of issues)"
  by (induction issues arbitrary: n) (simp_all add: tasks_of_def rebind_issue_ids)

lemma regenerate_one:
  assumes room: "unat c + 3 * group_size groups idx < 2 ^ 64"
    and step: "regenerate_milestone_issues session groups target_ids c (idx, m) = (m', d)"
  shows "unat c \<le> unat d \<and> unat d \<le> unat c + 3 * group_size groups idx \<and> milestone_kept target_ids m m' \<and>
    (m' = m \<or> ids_ok (unat c) (unat d) (map bt_id (tasks_of (plm_issues m'))))"
proof (cases "targeted target_ids (plm_id m)")
  case True
  let ?intake = "(ps_intake session)\<lparr>ic_requirements := unwrap_or (get_index groups idx) []\<rparr>"
  obtain issues e where issues: "generate_issues_for_milestone session c ?intake = (issues, e)" by fastforce
  have m': "m' = m\<lparr>plm_issues := map (rebind_issue m) (enumerate 0 issues)\<rparr>" "d = e"
    using step True by (simp_all add: regenerate_milestone_issues_def issues)
  have "issues_inv session (unat c) (issues, e) (ic_requirements ?intake)"
    "unat e = unat c + 3 * group_size groups idx"
    using generate_issues_inv [of c ?intake session] room by (simp_all add: issues group_size_def)
  then show ?thesis
    using True by (simp add: m' milestone_kept_def rebound_ids issues_inv_def)
qed (use step in \<open>auto simp: regenerate_milestone_issues_def milestone_kept_def\<close>)

section \<open>All milestones\<close>

definition group_cost :: "string list list \<Rightarrow> (nat \<times> planned_milestone) list \<Rightarrow> nat" where
  "group_cost groups ps = sum_list (map (\<lambda>(i, _). 3 * group_size groups i) ps)"

lemma plan_ids_Cons: "plan_ids (m # ms) = plan_ids [m] @ plan_ids ms"
  using plan_ids_append [of "[m]" ms] by simp

lemma regenerate_all:
  assumes "unat c + group_cost groups ps < 2 ^ 64" and "lo \<le> unat c"
    and "\<forall>t \<in> set (plan_ids (map snd ps)). task_number t \<le> lo" and "distinct (plan_ids (map snd ps))"
    and "map_state (regenerate_milestone_issues session groups target_ids) c ps = (ms, d)"
  shows "unat c \<le> unat d \<and> list_all2 (milestone_kept target_ids) (map snd ps) ms \<and> distinct (plan_ids ms) \<and>
    (\<forall>t \<in> set (plan_ids ms). t \<in> set (plan_ids (map snd ps)) \<or> unat c < task_number t)"
  using assms
proof (induction ps arbitrary: c ms)
  case (Cons p ps)
  obtain idx m where p: "p = (idx, m)" by (cases p)
  obtain m' e where step: "regenerate_milestone_issues session groups target_ids c (idx, m) = (m', e)" by fastforce
  obtain ms' where rest: "map_state (regenerate_milestone_issues session groups target_ids) e ps = (ms', d)"
    and ms: "ms = m' # ms'"
    using Cons.prems(5) step by (auto simp: p split: prod.splits)
  have one: "unat c \<le> unat e" "unat e \<le> unat c + 3 * group_size groups idx" "milestone_kept target_ids m m'"
    "m' = m \<or> ids_ok (unat c) (unat e) (map bt_id (tasks_of (plm_issues m')))"
    using regenerate_one [OF _ step] Cons.prems(1) by (simp_all add: p group_cost_def)
  have old: "plan_ids (map snd (p # ps)) = plan_ids [m] @ plan_ids (map snd ps)"
    by (simp only: p list.map snd_conv plan_ids_Cons [of m "map snd ps"])
  have tail: "unat e \<le> unat d" "list_all2 (milestone_kept target_ids) (map snd ps) ms'" "distinct (plan_ids ms')"
    "\<forall>t \<in> set (plan_ids ms'). t \<in> set (plan_ids (map snd ps)) \<or> unat e < task_number t"
  proof -
    have "unat e + group_cost groups ps < 2 ^ 64" using Cons.prems(1) one(2) by (simp add: p group_cost_def)
    moreover have "lo \<le> unat e" using Cons.prems(2) one(1) by (rule order_trans)
    moreover have "\<forall>t \<in> set (plan_ids (map snd ps)). task_number t \<le> lo" "distinct (plan_ids (map snd ps))"
      using Cons.prems(3,4) unfolding old by (simp_all add: ball_Un)
    ultimately show "unat e \<le> unat d" "list_all2 (milestone_kept target_ids) (map snd ps) ms'" "distinct (plan_ids ms')"
      "\<forall>t \<in> set (plan_ids ms'). t \<in> set (plan_ids (map snd ps)) \<or> unat e < task_number t"
      using Cons.IH [OF _ _ _ _ rest] by blast+
  qed
  have head: "distinct (plan_ids [m'])"
    "\<forall>t \<in> set (plan_ids [m']). t \<in> set (plan_ids [m]) \<or> unat c < task_number t \<and> task_number t \<le> unat e"
  proof -
    have "plm_id m' = plm_id m" using one(3) by (simp add: milestone_kept_def)
    moreover have "task_number (plm_id m) \<le> unat c"
      using Cons.prems(2,3) unfolding old plan_ids_single by simp
    ultimately have "m' = m \<or> distinct (plan_ids [m']) \<and>
        (\<forall>t \<in> set (plan_ids [m']). t = plm_id m \<or> unat c < task_number t \<and> task_number t \<le> unat e)"
      using one(4) ids_ok_distinct unfolding plan_ids_single by (auto simp: ids_ok_def)
    with Cons.prems(4) show "distinct (plan_ids [m'])"
      "\<forall>t \<in> set (plan_ids [m']). t \<in> set (plan_ids [m]) \<or> unat c < task_number t \<and> task_number t \<le> unat e"
      unfolding old by (auto simp: plan_ids_single)
  qed
  have "set (plan_ids [m']) \<inter> set (plan_ids ms') = {}"
  proof (rule ccontr)
    assume "\<not> ?thesis"
    then obtain t where t: "t \<in> set (plan_ids [m'])" "t \<in> set (plan_ids ms')" by blast
    have low: "t \<in> set (plan_ids [m]) \<or> t \<in> set (plan_ids (map snd ps)) \<longrightarrow> task_number t \<le> unat c"
      using Cons.prems(2,3) unfolding old by (auto intro: order_trans)
    moreover have "\<not> (t \<in> set (plan_ids [m]) \<and> t \<in> set (plan_ids (map snd ps)))"
      using Cons.prems(4) unfolding old by auto
    ultimately show False
      using head(2) [rule_format, OF t(1)] tail(4) [rule_format, OF t(2)] one(1) by linarith
  qed
  with head tail one Cons.prems(2) show ?case
    unfolding old ms plan_ids_Cons [of m' ms'] by (auto simp: p)
qed (simp add: plan_ids_def)

section \<open>Properties\<close>

definition regenerate_room :: "'c planning_session \<Rightarrow> u64 \<Rightarrow> plan_artifacts \<Rightarrow> bool" where
  "regenerate_room session c existing \<longleftrightarrow> unat (seed_task_counter_from_existing c existing) +
     group_cost (requirements_by_milestone session (length (pa_milestones existing)))
       (enumerate 0 (pa_milestones existing)) < 2 ^ 64"

text \<open>C16: regenerating issues keeps every milestone with its id, name and goal, and those not selected
  unchanged; new tasks get numbers above all those in the plan, so its ids stay distinct.\<close>

theorem issue_regeneration_keeps_the_rest:
  assumes "fst (regenerate now session counter existing (IssuesScope target_ids)) = Ok artifacts"
    and "regenerate_room session counter existing" and "distinct (plan_ids (pa_milestones existing))"
  shows "list_all2 (milestone_kept target_ids) (pa_milestones existing) (pa_milestones artifacts) \<and>
    distinct (plan_ids (pa_milestones artifacts)) \<and>
    (\<forall>t \<in> set (plan_ids (pa_milestones artifacts)) - set (plan_ids (pa_milestones existing)).
       \<forall>old \<in> set (plan_ids (pa_milestones existing)). task_number old < task_number t)"
proof -
  let ?ms = "pa_milestones existing"
  define c where "c = seed_task_counter_from_existing counter existing"
  have low: "\<forall>t \<in> set (plan_ids ?ms). task_number t \<le> unat c"
    using observe_all_bounds by (simp add: c_def seed_task_counter_from_existing_def)
  obtain ms d where step: "map_state (regenerate_milestone_issues session
      (requirements_by_milestone session (length ?ms)) target_ids) c (enumerate 0 ?ms) = (ms, d)" by fastforce
  have ms: "pa_milestones artifacts = ms"
    using assms(1) step by (auto simp: regenerate_def validate_session_def regenerated_milestones_def
        regenerate_issues_for_milestones_def c_def [symmetric] Let_def split: if_splits)
  have names: "map snd (enumerate 0 ?ms) = ?ms" by simp
  from regenerate_all [OF _ order_refl _ _ step] low assms(2,3)
  have "list_all2 (milestone_kept target_ids) ?ms ms \<and> distinct (plan_ids ms) \<and>
      (\<forall>t \<in> set (plan_ids ms). t \<in> set (plan_ids ?ms) \<or> unat c < task_number t)"
    unfolding names regenerate_room_def c_def [symmetric] by blast
  with low show ?thesis unfolding ms by (meson DiffE le_less_trans)
qed

section \<open>Witnesses\<close>

lemma issue_regeneration_keeps_the_rest_witness:
  "\<exists>a. fst (regenerate 0 example_planning_session 0 (example_plan []) (IssuesScope (Some []))) = Ok a \<and>
     list_all2 (milestone_kept (Some [])) (pa_milestones (example_plan [])) (pa_milestones a) \<and>
     distinct (plan_ids (pa_milestones a))"
proof -
  have valid: "validate_session example_planning_session = Ok ()" by code_simp
  obtain a where a: "fst (regenerate 0 example_planning_session 0 (example_plan []) (IssuesScope (Some []))) = Ok a"
    using that by (simp add: regenerate_def valid Let_def split_beta)
  have "seed_task_counter_from_existing 0 (example_plan []) = 0"
    by (simp add: seed_task_counter_from_existing_def plan_ids_def example_plan_def example_plan_issue_def
        observe_task_id_def strip_prefix_def)
  moreover have "requirements_by_milestone example_planning_session 1 = [[''Login'', ''Logout'']]"
    by (simp add: requirements_by_milestone_def example_session_generates(3))
  moreover have "length (pa_milestones (example_plan [])) = 1" by (simp add: example_plan_def)
  moreover have "group_cost [[''Login'', ''Logout'']] (enumerate 0 (pa_milestones (example_plan []))) = 6"
    by (simp add: group_cost_def group_size_def get_index_def example_plan_def)
  ultimately have "regenerate_room example_planning_session 0 (example_plan [])"
    by (simp only: regenerate_room_def) simp
  moreover have "distinct (plan_ids (pa_milestones (example_plan [])))" by code_simp
  ultimately show ?thesis using a issue_regeneration_keeps_the_rest [OF a] by blast
qed

end
