(* ===== verification/Terminal_Log.thy ===== *)
theory Terminal_Log
  imports Journal Redaction
begin

text \<open>
  The terminal and log store: the frames of \<open>opensymphony-gateway-schema/src/terminal.rs\<close> and
  \<open>opensymphony-domain/src/terminal_log.rs\<close>. Decoding a frame from its JSON payload is a parameter,
  as is Unicode lower-casing. The \<open>HashMap\<close> of sessions is searched by key only, except by
  \<open>sessions_for_run\<close>, which returns the ids in no particular order, here a set. A slice of a string
  off a character boundary panics, which is the value \<open>None\<close>.
\<close>

section \<open>Frames\<close>

record terminal_log_association =
  tla_run_id :: string
  tla_workspace_id :: string
  tla_command_id :: "string option"
  tla_issue_id :: "string option"
  tla_sub_issue_id :: "string option"
  tla_harness_session_id :: "string option"

datatype terminal_frame_kind =
    FrameStdout | FrameStderr | FrameLog | FramePrompt | FrameStatus | FrameEndOfStream

datatype terminal_encoding = EncodedUtf8 | EncodedBase64

record terminal_frame =
  tf_schema_version :: schema_version
  tf_frame_sequence :: u64
  tf_stream_id :: string
  tf_run_id :: string
  tf_terminal_session_id :: string
  tf_frame_kind :: terminal_frame_kind
  tf_encoding :: terminal_encoding
  tf_content :: string
  tf_timestamp :: date_time
  tf_association :: terminal_log_association
  tf_correlation_id :: "string option"
  tf_source_event_id :: "string option"
  tf_frame_id :: "string option"

record terminal_session =
  tse_schema_version :: schema_version
  tse_terminal_session_id :: string
  tse_run_id :: string
  tse_association :: terminal_log_association
  tse_frame_count :: u64
  tse_total_bytes :: u64
  tse_created_at :: date_time
  tse_updated_at :: date_time
  tse_current_cursor :: u64

record terminal_snapshot =
  tsn_schema_version :: schema_version
  tsn_terminal_session_id :: string
  tsn_run_id :: string
  tsn_frames :: "terminal_frame list"
  tsn_total_frames :: u64
  tsn_truncated :: bool
  tsn_cursor :: u64
  tsn_session :: "terminal_session option"

section \<open>The store\<close>

record terminal_session_state =
  tst_association :: terminal_log_association
  tst_frames :: "terminal_frame list"
  tst_total_bytes :: u64
  tst_created_at :: date_time
  tst_updated_at :: date_time

type_synonym terminal_log_store = "(string, terminal_session_state) omap"

definition terminal_log_store_new :: terminal_log_store where "terminal_log_store_new = []"

definition new_session :: "terminal_frame \<Rightarrow> terminal_session_state" where
  "new_session f = \<lparr>tst_association = tf_association f, tst_frames = [], tst_total_bytes = 0,
     tst_created_at = tf_timestamp f, tst_updated_at = tf_timestamp f\<rparr>"

definition session_of :: "terminal_frame \<Rightarrow> terminal_log_store \<Rightarrow> terminal_session_state" where
  "session_of f store = unwrap_or (omap_get store (tf_terminal_session_id f)) (new_session f)"

definition known_frame :: "terminal_frame \<Rightarrow> string \<Rightarrow> terminal_frame list \<Rightarrow> bool" where
  "known_frame f frame_id frames \<longleftrightarrow>
     frame_id \<noteq> [] \<and> list_ex (\<lambda>g. tf_frame_id g = Some frame_id) frames \<or>
     is_some_and (\<lambda>eid. list_ex (\<lambda>g. tf_source_event_id g = Some eid) frames) (tf_source_event_id f)"

definition push_frame :: "terminal_frame \<Rightarrow> terminal_session_state \<Rightarrow> terminal_session_state" where
  "push_frame f s = s\<lparr>tst_total_bytes := saturating_add (tst_total_bytes s) (of_nat (length (tf_content f))),
     tst_updated_at := tf_timestamp f, tst_frames := tst_frames s @ [f]\<rparr>"

definition ingest_frame :: "terminal_frame \<Rightarrow> string \<Rightarrow> terminal_log_store \<Rightarrow> terminal_log_store" where
  "ingest_frame f frame_id store =
     (let s = session_of f store in
      omap_insert (tf_terminal_session_id f)
        (if known_frame f frame_id (tst_frames s) then s else push_frame f s) store)"

definition payload_str :: "json \<Rightarrow> string \<Rightarrow> string option" where
  "payload_str p k = Option.bind (json_get p k) json_as_str"

definition association_str :: "json \<Rightarrow> string \<Rightarrow> string option" where
  "association_str p k = or_else (payload_str p k)
     (Option.bind (json_get p ''association'') (\<lambda>a. payload_str a k))"

definition log_entry_to_frame :: "event_record \<Rightarrow> string \<Rightarrow> terminal_frame option" where
  "log_entry_to_frame r level = map_option (\<lambda>p.
     let content = unwrap_or (Option.bind (or_else (json_get p ''message'') (json_get p ''content'')) json_as_str)
           (ev_summary r);
         session_id = unwrap_or (payload_str p ''terminal_session_id'') ''default'';
         run_id = unwrap_or (payload_str p ''run_id'') []
     in \<lparr>tf_schema_version = schema_version_v1, tf_frame_sequence = ev_sequence r, tf_stream_id = session_id,
         tf_run_id = run_id, tf_terminal_session_id = session_id, tf_frame_kind = FrameLog,
         tf_encoding = EncodedUtf8, tf_content = content, tf_timestamp = ev_happened_at r,
         tf_association = \<lparr>tla_run_id = run_id,
           tla_workspace_id = unwrap_or (payload_str p ''workspace_id'') [],
           tla_command_id = association_str p ''command_id'', tla_issue_id = association_str p ''issue_id'',
           tla_sub_issue_id = association_str p ''sub_issue_id'',
           tla_harness_session_id = association_str p ''harness_session_id''\<rparr>,
         tf_correlation_id = ev_correlation_id r, tf_source_event_id = Some (ev_event_id r),
         tf_frame_id = Some (ev_event_id r)\<rparr>) (ev_payload r)"

definition with_frame_id :: "string \<Rightarrow> terminal_frame \<Rightarrow> terminal_frame" where
  "with_frame_id frame_id f = (if tf_frame_id f = None then f\<lparr>tf_frame_id := Some frame_id\<rparr> else f)"

definition ingest_event_record ::
  "(json \<Rightarrow> 'e + terminal_frame) \<Rightarrow> terminal_log_store \<Rightarrow> event_record \<Rightarrow> terminal_log_store" where
  "ingest_event_record decode store r =
     (case ev_kind r of
        TerminalFrame frame_id \<Rightarrow>
          (case ev_payload r of
             None \<Rightarrow> store
           | Some p \<Rightarrow>
               (case decode p of
                  Err _ \<Rightarrow> store
                | Ok f \<Rightarrow> ingest_frame (with_frame_id frame_id f) frame_id store))
      | LogEntry level \<Rightarrow>
          (case log_entry_to_frame r level of
             None \<Rightarrow> store
           | Some f \<Rightarrow> ingest_frame f [] store)
      | _ \<Rightarrow> store)"

section \<open>Reading\<close>

definition empty_snapshot :: "string \<Rightarrow> terminal_snapshot" where
  "empty_snapshot i = \<lparr>tsn_schema_version = schema_version_v1, tsn_terminal_session_id = i,
     tsn_run_id = [], tsn_frames = [], tsn_total_frames = 0, tsn_truncated = False, tsn_cursor = 0,
     tsn_session = None\<rparr>"

definition frames_from :: "u64 \<Rightarrow> nat \<Rightarrow> terminal_frame list \<Rightarrow> terminal_frame list" where
  "frames_from start limit frames = take limit (dropWhile (\<lambda>f. tf_frame_sequence f < start) frames)"

definition terminal_snapshot_of :: "terminal_log_store \<Rightarrow> string \<Rightarrow> u64 option \<Rightarrow> nat \<Rightarrow> terminal_snapshot" where
  "terminal_snapshot_of store i cursor limit =
     (case omap_get store i of
        None \<Rightarrow> empty_snapshot i
      | Some s \<Rightarrow>
          let start = unwrap_or cursor 0; total = of_nat (length (tst_frames s));
              filtered = frames_from start limit (tst_frames s);
              new_cursor = (if filtered = [] then start
                else saturating_add (tf_frame_sequence (last filtered)) 1)
          in \<lparr>tsn_schema_version = schema_version_v1, tsn_terminal_session_id = i,
              tsn_run_id = tla_run_id (tst_association s), tsn_frames = filtered, tsn_total_frames = total,
              tsn_truncated = length filtered < length (tst_frames s), tsn_cursor = new_cursor,
              tsn_session = Some \<lparr>tse_schema_version = schema_version_v1, tse_terminal_session_id = i,
                tse_run_id = tla_run_id (tst_association s), tse_association = tst_association s,
                tse_frame_count = total, tse_total_bytes = tst_total_bytes s,
                tse_created_at = tst_created_at s, tse_updated_at = tst_updated_at s,
                tse_current_cursor = saturating_add total 1\<rparr>\<rparr>)"

text \<open>A boundary is the end or the first byte of a character, which is not a continuation byte.\<close>

definition continuation_byte :: "char \<Rightarrow> bool" where
  "continuation_byte c \<longleftrightarrow> 128 \<le> byte c \<and> byte c < 192"

definition boundary_at :: "string \<Rightarrow> nat \<Rightarrow> bool" where
  "boundary_at s n \<longleftrightarrow> n = length s \<or> n < length s \<and> (n = 0 \<or> \<not> continuation_byte (s ! n))"

definition checked_slice :: "nat \<Rightarrow> nat \<Rightarrow> string \<Rightarrow> string option" where
  "checked_slice a b s = (if a \<le> b \<and> boundary_at s a \<and> boundary_at s b then Some (str_slice a b s) else None)"

definition snippet :: "(string \<Rightarrow> string) \<Rightarrow> string \<Rightarrow> string \<Rightarrow> string option" where
  "snippet to_lowercase text query =
     (case find_str query (to_lowercase text) of
        None \<Rightarrow> Some (take_chars 120 text)
      | Some pos \<Rightarrow> checked_slice (pos - 40) (min (pos + length query + 40) (length text)) text)"

text \<open>The iterator stops at the first panic.\<close>

fun search_frames ::
  "(string \<Rightarrow> string) \<Rightarrow> string \<Rightarrow> terminal_frame list \<Rightarrow> (u64 \<times> date_time \<times> string) list option" where
  "search_frames to_lowercase query [] = Some []"
| "search_frames to_lowercase query (f # fs) =
     (if str_contains (to_lowercase (tf_content f)) query
      then Option.bind (snippet to_lowercase (tf_content f) query) (\<lambda>t.
        map_option (\<lambda>ms. (tf_frame_sequence f, tf_timestamp f, t) # ms) (search_frames to_lowercase query fs))
      else search_frames to_lowercase query fs)"

definition terminal_search ::
  "(string \<Rightarrow> string) \<Rightarrow> terminal_log_store \<Rightarrow> string \<Rightarrow> string \<Rightarrow> (u64 \<times> date_time \<times> string) list option" where
  "terminal_search to_lowercase store i query =
     (let query = to_lowercase query in
      if query = [] then Some []
      else case omap_get store i of
        None \<Rightarrow> Some []
      | Some s \<Rightarrow> search_frames to_lowercase query (tst_frames s))"

definition jump_to_event :: "terminal_log_store \<Rightarrow> string \<Rightarrow> string \<Rightarrow> u64 option" where
  "jump_to_event store i event_id = Option.bind (omap_get store i) (\<lambda>s.
     or_else (map_option tf_frame_sequence (find (\<lambda>f. tf_source_event_id f = Some event_id) (tst_frames s)))
       (map_option tf_frame_sequence (find (\<lambda>f. str_contains (tf_content f) event_id) (tst_frames s))))"

definition sessions_for_run :: "terminal_log_store \<Rightarrow> string \<Rightarrow> string set" where
  "sessions_for_run store run_id = set (map fst (filter (\<lambda>(_, s). tla_run_id (tst_association s) = run_id) store))"

definition session_association :: "terminal_log_store \<Rightarrow> string \<Rightarrow> terminal_log_association option" where
  "session_association store i = map_option tst_association (omap_get store i)"

section \<open>Replay\<close>

lemma omap_insert_same: "omap_wf m \<Longrightarrow> omap_get m k = Some v \<Longrightarrow> omap_insert k v m = m"
proof (induction k v m rule: omap_insert.induct)
  case (2 k v k' v' m)
  then have "k \<noteq> k' \<Longrightarrow> (k, v) \<in> set m" by (auto simp: omap_get_def split: if_splits dest: map_of_SomeD)
  then show ?case using 2 by (force simp: omap_get_def split: if_splits)
qed simp

lemma ingest_frame_wf: "omap_wf store \<Longrightarrow> omap_wf (ingest_frame f i store)"
  by (simp add: ingest_frame_def Let_def omap_wf_insert)

text \<open>The frame a record carries, with the id it is deduplicated by.\<close>

definition carried_frame :: "(json \<Rightarrow> 'e + terminal_frame) \<Rightarrow> event_record \<Rightarrow> (terminal_frame \<times> string) option" where
  "carried_frame decode r =
     (case ev_kind r of
        TerminalFrame frame_id \<Rightarrow> Option.bind (ev_payload r) (\<lambda>p.
          case decode p of Err _ \<Rightarrow> None | Ok f \<Rightarrow> Some (with_frame_id frame_id f, frame_id))
      | LogEntry level \<Rightarrow> map_option (\<lambda>f. (f, [])) (log_entry_to_frame r level)
      | _ \<Rightarrow> None)"

lemma ingest_carried: "ingest_event_record decode store r =
  (case carried_frame decode r of None \<Rightarrow> store | Some (f, i) \<Rightarrow> ingest_frame f i store)"
  by (auto simp: ingest_event_record_def carried_frame_def
      split: event_kind.split option.split sum.split)

definition identified :: "terminal_frame \<Rightarrow> string \<Rightarrow> bool" where
  "identified f i \<longleftrightarrow> i \<noteq> [] \<and> tf_frame_id f = Some i \<or> tf_source_event_id f \<noteq> None"

definition recorded :: "terminal_log_store \<Rightarrow> terminal_frame \<Rightarrow> string \<Rightarrow> bool" where
  "recorded store f i \<longleftrightarrow> (\<exists>s. omap_get store (tf_terminal_session_id f) = Some s \<and> known_frame f i (tst_frames s))"

lemma known_frame_append: "known_frame f i xs \<Longrightarrow> known_frame f i (xs @ ys)"
  by (auto simp: known_frame_def is_some_and_def split: option.splits)

lemma ingest_records: "identified f i \<Longrightarrow> recorded (ingest_frame f i store) f i"
  by (auto simp: recorded_def ingest_frame_def Let_def omap_get_insert identified_def push_frame_def
      known_frame_def is_some_and_def split: option.splits)

lemma recorded_stays: "recorded store f i \<Longrightarrow> recorded (ingest_frame g j store) f i"
  by (auto simp: recorded_def ingest_frame_def Let_def omap_get_insert session_of_def unwrap_or_def
      push_frame_def known_frame_append)

lemma recorded_ignored: "omap_wf store \<Longrightarrow> recorded store f i \<Longrightarrow> ingest_frame f i store = store"
  by (auto simp: recorded_def ingest_frame_def session_of_def unwrap_or_def omap_insert_same)

lemma fold_ingest_wf: "omap_wf store \<Longrightarrow> omap_wf (foldl (ingest_event_record decode) store rs)"
  by (induction rs arbitrary: store) (auto simp: ingest_carried ingest_frame_wf split: option.split)

lemma fold_recorded_stays:
  "recorded store f i \<Longrightarrow> recorded (foldl (ingest_event_record decode) store rs) f i"
  by (induction rs arbitrary: store) (auto simp: ingest_carried recorded_stays split: option.split)

lemma fold_records:
  assumes "r \<in> set rs" and "carried_frame decode r = Some (f, i)" and "identified f i"
  shows "recorded (foldl (ingest_event_record decode) store rs) f i"
  using assms
proof (induction rs arbitrary: store)
  case (Cons a rs)
  show ?case
  proof (cases "r = a")
    case True
    then have "ingest_event_record decode store a = ingest_frame f i store"
      using Cons.prems by (simp add: ingest_carried)
    then show ?thesis using fold_recorded_stays [OF ingest_records [OF Cons.prems(3)]] by simp
  next
    case False
    then show ?thesis using Cons by simp
  qed
qed simp

lemma fold_ignored:
  assumes "omap_wf store"
    and "\<forall>r \<in> set rs. case carried_frame decode r of None \<Rightarrow> True | Some (f, i) \<Rightarrow> recorded store f i"
  shows "foldl (ingest_event_record decode) store rs = store"
  using assms(2)
proof (induction rs)
  case (Cons r rs)
  then have "ingest_event_record decode store r = store"
    using assms(1) by (auto simp: ingest_carried recorded_ignored split: option.splits)
  then show ?case using Cons by simp
qed simp

text \<open>C25: replaying journal records a terminal store has ingested, in any selection and order, leaves
  the store as it is, when every frame names its source event or carries the id of its event.\<close>

theorem replay_leaves_store:
  assumes "omap_wf store" and "set rs' \<subseteq> set rs"
    and "\<forall>r \<in> set rs. \<forall>f i. carried_frame decode r = Some (f, i) \<longrightarrow> identified f i"
  shows "foldl (ingest_event_record decode) store (rs @ rs') = foldl (ingest_event_record decode) store rs"
proof -
  let ?s = "foldl (ingest_event_record decode) store rs"
  have "recorded ?s f i" if "r \<in> set rs'" "carried_frame decode r = Some (f, i)" for r f i
    using that assms(2,3) fold_records [of r rs decode f i store] by blast
  then have "foldl (ingest_event_record decode) ?s rs' = ?s"
    by (intro fold_ignored) (auto simp: fold_ingest_wf assms(1) split: option.split)
  then show ?thesis by simp
qed

text \<open>A frame that carries an id of its own is taken in again at every replay.\<close>

theorem foreign_frame_id_duplicated:
  assumes "tf_frame_id f = Some x" and "x \<noteq> i" and "tf_source_event_id f = None"
  shows "map_option tst_frames (omap_get (ingest_frame f i (ingest_frame f i [])) (tf_terminal_session_id f)) = Some [f, f]"
  using assms by (simp add: ingest_frame_def Let_def omap_get_def session_of_def unwrap_or_def new_session_def
      known_frame_def push_frame_def is_some_and_def)

section \<open>Pages\<close>

lemma dropWhile_sorted:
  "sorted_wrt (\<lambda>a b. tf_frame_sequence a < tf_frame_sequence b) fs \<Longrightarrow>
     dropWhile (\<lambda>f. tf_frame_sequence f < c) fs = filter (\<lambda>f. c \<le> tf_frame_sequence f) fs"
proof (induction fs)
  case (Cons f fs)
  show ?case
  proof (cases "tf_frame_sequence f < c")
    case False
    then have "\<forall>g \<in> set fs. c \<le> tf_frame_sequence g" using Cons.prems by force
    then show ?thesis using False by (simp add: not_less)
  qed (use Cons in simp)
qed simp

lemma filter_after_page:
  assumes "sorted_wrt (\<lambda>a b. tf_frame_sequence a < tf_frame_sequence b) (xs @ p @ ys)" and "p \<noteq> []"
  shows "filter (\<lambda>f. tf_frame_sequence (last p) < tf_frame_sequence f) (xs @ p @ ys) = ys"
proof -
  obtain q where p: "p = q @ [last p]" using assms(2) by (metis append_butlast_last_id)
  have "sorted_wrt (\<lambda>a b. tf_frame_sequence a < tf_frame_sequence b) (xs @ (q @ [last p]) @ ys)"
    using assms(1) by (simp only: p [symmetric])
  then have "\<forall>f \<in> set xs \<union> set q. tf_frame_sequence f < tf_frame_sequence (last p)"
    and after: "\<forall>f \<in> set ys. tf_frame_sequence (last p) < tf_frame_sequence f"
    by (auto simp: sorted_wrt_append)
  then have "\<forall>f \<in> set xs \<union> set q \<union> {last p}. \<not> tf_frame_sequence (last p) < tf_frame_sequence f"
    by (auto simp: not_less dest: less_imp_le)
  then have "filter (\<lambda>f. tf_frame_sequence (last p) < tf_frame_sequence f) (xs @ (q @ [last p])) = []"
    by (auto simp: filter_empty_conv)
  moreover have "filter (\<lambda>f. tf_frame_sequence (last p) < tf_frame_sequence f) ys = ys"
    using after by simp
  ultimately show ?thesis by (metis append.assoc append_Nil filter_append p)
qed

lemma saturating_add_one_le: "a < - 1 \<Longrightarrow> saturating_add a 1 \<le> b \<longleftrightarrow> a < (b :: u64)"
  by (simp add: word_le_nat_alt word_less_nat_alt unat_saturating_add Suc_le_eq)

text \<open>C26: pages compose. When the frames of a session are numbered in increasing order, reading a page
  and then the page at the cursor it returns gives what one larger page gives.\<close>

theorem terminal_pages_compose:
  assumes "omap_get store i = Some s"
    and sorted: "sorted_wrt (\<lambda>a b. tf_frame_sequence a < tf_frame_sequence b) (tst_frames s)"
    and room: "\<forall>f \<in> set (tst_frames s). tf_frame_sequence f < - 1"
  shows "tsn_frames (terminal_snapshot_of store i c m) @
      tsn_frames (terminal_snapshot_of store i (Some (tsn_cursor (terminal_snapshot_of store i c m))) n) =
    tsn_frames (terminal_snapshot_of store i c (m + n))"
proof -
  let ?fs = "tst_frames s" and ?c = "unwrap_or c 0"
  let ?ds = "dropWhile (\<lambda>f. tf_frame_sequence f < ?c) ?fs"
  have snap: "tsn_frames (terminal_snapshot_of store i x k) = frames_from (unwrap_or x 0) k ?fs" for x k
    using assms(1) by (simp add: terminal_snapshot_of_def Let_def)
  show ?thesis
  proof (cases "take m ?ds = []")
    case True
    then have "tsn_cursor (terminal_snapshot_of store i c m) = ?c"
      using assms(1) by (simp add: terminal_snapshot_of_def Let_def frames_from_def)
    moreover have "m = 0 \<or> ?ds = []" using True by simp
    then have "take m ?ds @ take n ?ds = take (m + n) ?ds" by (elim disjE) (simp, simp only: take_Nil append_Nil)
    ultimately show ?thesis by (simp add: snap frames_from_def unwrap_or_def)
  next
    case False
    let ?l = "last (take m ?ds)"
    have cursor: "tsn_cursor (terminal_snapshot_of store i c m) = saturating_add (tf_frame_sequence ?l) 1"
      using assms(1) False by (auto simp: terminal_snapshot_of_def Let_def frames_from_def)
    have l: "?l \<in> set ?fs" using False by (meson set_dropWhileD in_set_takeD last_in_set)
    have split: "?fs = takeWhile (\<lambda>f. tf_frame_sequence f < ?c) ?fs @ take m ?ds @ drop m ?ds" by simp
    have "dropWhile (\<lambda>f. tf_frame_sequence f < saturating_add (tf_frame_sequence ?l) 1) ?fs =
        filter (\<lambda>f. tf_frame_sequence ?l < tf_frame_sequence f) ?fs"
      using room l by (simp add: dropWhile_sorted [OF sorted] saturating_add_one_le)
    also have "\<dots> = drop m ?ds"
      using filter_after_page [of _ "take m ?ds"] sorted split False by metis
    finally show ?thesis
      by (simp add: snap cursor frames_from_def unwrap_or_def take_add [symmetric])
  qed
qed

section \<open>Search\<close>

definition is_ascii :: "string \<Rightarrow> bool" where
  "is_ascii s \<longleftrightarrow> (\<forall>c \<in> set s. byte c < 128)"

lemma boundary_ascii: "is_ascii s \<Longrightarrow> n \<le> length s \<Longrightarrow> boundary_at s n"
  by (cases "n = length s") (auto simp: is_ascii_def boundary_at_def continuation_byte_def not_le)

lemma lower_slice: "to_ascii_lowercase (str_slice a b s) = str_slice a b (to_ascii_lowercase s)"
  by (simp add: to_ascii_lowercase_def str_slice_def take_map drop_map)

lemma slice_contains:
  assumes "find_str p s = Some pos" and "a \<le> pos" and "pos + length p \<le> b"
  shows "str_contains (str_slice a b s) p"
proof -
  obtain x y where s: "s = x @ p @ y" and pos: "pos = length x"
    using assms(1) by (auto simp: find_str_def dest: split_once_Some)
  have "str_slice a b s = drop a x @ p @ take (b - pos - length p) y"
    using assms(2,3) by (simp add: str_slice_def s pos)
  then show ?thesis by (auto simp: str_contains_iff)
qed

lemma snippet_ascii:
  assumes "is_ascii t" and pos: "find_str q (to_ascii_lowercase t) = Some pos"
  shows "\<exists>x. checked_slice (pos - 40) (min (pos + length q + 40) (length t)) t = Some x \<and>
    str_contains (to_ascii_lowercase x) q"
proof -
  have "pos + length q \<le> length t" using find_str_bound [OF pos] by simp
  then show ?thesis
    using assms by (auto simp: checked_slice_def boundary_ascii lower_slice intro!: slice_contains)
qed

text \<open>Over ASCII text a search finds every frame that contains the query in any case and no other,
  in order, and every snippet shows the match.\<close>

theorem search_exact_on_ascii:
  assumes "omap_get store i = Some s" and "\<forall>f \<in> set (tst_frames s). is_ascii (tf_content f)"
    and "is_ascii q" and "q \<noteq> []" and "\<forall>t. is_ascii t \<longrightarrow> lower t = to_ascii_lowercase t"
  shows "\<exists>ms. terminal_search lower store i q = Some ms \<and>
    map fst ms = map tf_frame_sequence
      (filter (\<lambda>f. str_contains (to_ascii_lowercase (tf_content f)) (to_ascii_lowercase q)) (tst_frames s)) \<and>
    (\<forall>(_, _, t) \<in> set ms. str_contains (to_ascii_lowercase t) (to_ascii_lowercase q))"
proof -
  let ?q = "to_ascii_lowercase q"
  have "\<exists>ms. search_frames lower ?q fs = Some ms \<and>
      map fst ms = map tf_frame_sequence (filter (\<lambda>f. str_contains (to_ascii_lowercase (tf_content f)) ?q) fs) \<and>
      (\<forall>(_, _, t) \<in> set ms. str_contains (to_ascii_lowercase t) ?q)"
    if "\<forall>f \<in> set fs. is_ascii (tf_content f)" for fs
    using that
  proof (induction fs)
    case (Cons f fs)
    then obtain ms where ms: "search_frames lower ?q fs = Some ms"
      "map fst ms = map tf_frame_sequence (filter (\<lambda>f. str_contains (to_ascii_lowercase (tf_content f)) ?q) fs)"
      "\<forall>(_, _, t) \<in> set ms. str_contains (to_ascii_lowercase t) ?q" by auto
    have f: "is_ascii (tf_content f)" using Cons.prems by simp
    then have lf: "lower (tf_content f) = to_ascii_lowercase (tf_content f)" using assms(5) by simp
    show ?case
    proof (cases "str_contains (to_ascii_lowercase (tf_content f)) ?q")
      case True
      then obtain pos where pos: "find_str ?q (to_ascii_lowercase (tf_content f)) = Some pos"
        by (auto simp: str_contains_def find_str_def)
      obtain x where "snippet lower (tf_content f) ?q = Some x" "str_contains (to_ascii_lowercase x) ?q"
        using snippet_ascii [OF f pos] pos by (auto simp: snippet_def lf)
      then show ?thesis using True ms by (simp add: lf)
    qed (use ms lf in simp)
  qed simp
  then show ?thesis
    using assms by (simp add: terminal_search_def Let_def to_ascii_lowercase_def)
qed

text \<open>Outside ASCII the cut forty bytes before the match can fall inside a character: the search panics.\<close>

theorem search_panics_inside_character:
  assumes "lower (concat (replicate 30 [CHR 0xC3, CHR 0xA9]) @ ''bx'') = concat (replicate 30 [CHR 0xC3, CHR 0xA9]) @ ''bx''"
    and "lower ''x'' = ''x''"
  shows "snippet lower (concat (replicate 30 [CHR 0xC3, CHR 0xA9]) @ ''bx'') ''x'' = None"
proof -
  have "find_str ''x'' (concat (replicate 30 [CHR 0xC3, CHR 0xA9]) @ ''bx'') = Some 61" by code_simp
  moreover have "\<not> boundary_at (concat (replicate 30 [CHR 0xC3, CHR 0xA9]) @ ''bx'') 21" by code_simp
  ultimately show ?thesis by (simp only: snippet_def assms) (simp add: checked_slice_def)
qed

section \<open>Witnesses\<close>

definition sample_frame :: "u64 \<Rightarrow> string \<Rightarrow> terminal_frame" where
  "sample_frame n content = \<lparr>tf_schema_version = schema_version_v1, tf_frame_sequence = n, tf_stream_id = ''t'',
     tf_run_id = ''r'', tf_terminal_session_id = ''t'', tf_frame_kind = FrameStdout,
     tf_encoding = EncodedUtf8, tf_content = content, tf_timestamp = 0,
     tf_association = \<lparr>tla_run_id = ''r'', tla_workspace_id = ''w'', tla_command_id = None, tla_issue_id = None,
       tla_sub_issue_id = None, tla_harness_session_id = None\<rparr>,
     tf_correlation_id = None, tf_source_event_id = None, tf_frame_id = None\<rparr>"

definition sample_session :: terminal_session_state where
  "sample_session = push_frame (sample_frame 9 ''Cargo build failed'')
     (push_frame (sample_frame 4 ''cargo test'') (new_session (sample_frame 4 ''cargo test'')))"

definition sample_record :: "event_kind \<Rightarrow> event_record" where
  "sample_record k = build ''e'' 0 (builder\<lparr>bd_kind := Some k, bd_payload := Some (JObject [])\<rparr>)"

definition sample_decode :: "json \<Rightarrow> unit + terminal_frame" where
  "sample_decode _ = Ok (sample_frame 1 ''x'')"

lemma sample_store_get: "omap_get [(''t'', sample_session)] ''t'' = Some sample_session"
  by (simp add: omap_get_def)

lemma sample_frame_sel:
  "tf_frame_sequence (sample_frame n c) = n" "tf_content (sample_frame n c) = c"
  by (simp_all add: sample_frame_def)

lemma sample_session_frames:
  "tst_frames sample_session = [sample_frame 4 ''cargo test'', sample_frame 9 ''Cargo build failed'']"
  by (simp add: sample_session_def push_frame_def new_session_def)

lemma replay_leaves_store_witness:
  "foldl (ingest_event_record sample_decode)
      [] ([sample_record (LogEntry ''info''), sample_record (TerminalFrame ''f'')] @
        [sample_record (TerminalFrame ''f''), sample_record (LogEntry ''info'')]) =
   foldl (ingest_event_record sample_decode)
      [] [sample_record (LogEntry ''info''), sample_record (TerminalFrame ''f'')]"
  by (rule replay_leaves_store)
    (auto simp: carried_frame_def sample_record_def build_def builder_def unwrap_or_def sample_decode_def
      log_entry_to_frame_def Let_def identified_def with_frame_id_def sample_frame_def)

lemma terminal_pages_compose_witness:
  "tsn_frames (terminal_snapshot_of [(''t'', sample_session)] ''t'' None 1) @
     tsn_frames (terminal_snapshot_of [(''t'', sample_session)] ''t''
       (Some (tsn_cursor (terminal_snapshot_of [(''t'', sample_session)] ''t'' None 1))) 5) =
   tsn_frames (terminal_snapshot_of [(''t'', sample_session)] ''t'' None (1 + 5))"
  by (rule terminal_pages_compose [OF sample_store_get])
    (auto simp: sample_session_frames sample_frame_sel word_less_nat_alt)

lemma search_exact_on_ascii_witness:
  "\<exists>ms. terminal_search to_ascii_lowercase [(''t'', sample_session)] ''t'' ''CARGO'' = Some ms \<and>
    map fst ms = map tf_frame_sequence
      (filter (\<lambda>f. str_contains (to_ascii_lowercase (tf_content f)) (to_ascii_lowercase ''CARGO''))
        (tst_frames sample_session)) \<and>
    (\<forall>(_, _, t) \<in> set ms. str_contains (to_ascii_lowercase t) (to_ascii_lowercase ''CARGO''))"
  by (rule search_exact_on_ascii [OF sample_store_get])
    (simp_all add: sample_session_frames sample_frame_sel is_ascii_def byte_def)

end
