(* ===== verification/Timeline.thy ===== *)
theory Timeline
  imports Terminal_Log
begin

text \<open>
  The timeline of a run: the records of \<open>opensymphony-gateway-schema/src/timeline.rs\<close> and
  \<open>opensymphony-domain/src/timeline.rs\<close>, which groups the journal records of a run into entries.
  Unicode lower-casing is a parameter; the time at which the timeline is generated is an argument.
\<close>

section \<open>Timelines\<close>

datatype run_phase =
    PhActive | PhQuiet | PhDegraded | PhStalled | PhRetryQueued | PhCancelled | PhDetached | PhCompleted

datatype run_stream_liveness =
    StreamHealthy | StreamStale | StreamDead | StreamDetached | StreamDegraded | StreamStalled

datatype timeline_entry_kind =
    TkPhase | TkToolCall | TkCommand | TkTokenUpdate | TkReconnect | TkStallProbe | TkProgress | TkState
  | TkLog | TkTerminal | TkFile | TkUnknown

record timeline_entity_ref =
  ter_kind :: entity_kind
  ter_id :: string
  ter_identifier :: "string option"

definition timeline_ref_run :: "string \<Rightarrow> timeline_entity_ref" where
  "timeline_ref_run i = \<lparr>ter_kind = EntRun, ter_id = i, ter_identifier = None\<rparr>"

definition timeline_ref_issue :: "string \<Rightarrow> string \<Rightarrow> timeline_entity_ref" where
  "timeline_ref_issue i identifier = \<lparr>ter_kind = EntIssue, ter_id = i, ter_identifier = Some identifier\<rparr>"

definition timeline_ref_sub_issue :: "string \<Rightarrow> timeline_entity_ref" where
  "timeline_ref_sub_issue i = \<lparr>ter_kind = EntSubIssue, ter_id = i, ter_identifier = None\<rparr>"

record token_delta =
  td_input :: u64
  td_output :: u64
  td_cache_read :: u64

record run_state_evidence =
  rse_phase :: run_phase
  rse_stream :: run_stream_liveness
  rse_last_activity_at :: "date_time option"
  rse_stall_deadline_at :: "date_time option"
  rse_explanation :: string

record timeline_entry =
  te_entry_id :: string
  te_sequence_start :: u64
  te_sequence_end :: u64
  te_happened_at :: date_time
  te_kind :: timeline_entry_kind
  te_phase :: "run_phase option"
  te_title :: string
  te_summary :: string
  te_event_ids :: "string list"
  te_entity_refs :: "timeline_entity_ref list"
  te_command_id :: "string option"
  te_tool_name :: "string option"
  te_file_paths :: "string list"
  te_terminal_session_id :: "string option"
  te_log_level :: "string option"
  te_token_delta :: "token_delta option"
  te_state_evidence :: "run_state_evidence option"

record run_timeline =
  rt_schema_version :: schema_version
  rt_run_id :: string
  rt_generated_at :: date_time
  rt_entries :: "timeline_entry list"

section \<open>Reading a record\<close>

fun json_as_u64 :: "json \<Rightarrow> u64 option" where
  "json_as_u64 (JNumber n) = parse_u64 n"
| "json_as_u64 _ = None"

fun json_as_array :: "json \<Rightarrow> json list option" where
  "json_as_array (JArray js) = Some js"
| "json_as_array _ = None"

definition payload_run_id :: "json \<Rightarrow> string option" where
  "payload_run_id p = Option.bind (or_else (json_get p ''run_id'')
     (Option.bind (json_get p ''association'') (\<lambda>a. json_get a ''run_id''))) json_as_str"

definition belongs_to_run :: "string \<Rightarrow> event_record \<Rightarrow> bool" where
  "belongs_to_run run_id r \<longleftrightarrow>
     list_ex (\<lambda>e. case er_kind e of
         EntRun \<Rightarrow> er_id e = run_id
       | EntIssue \<Rightarrow> er_identifier e = Some run_id \<or> er_id e = run_id
       | _ \<Rightarrow> False) (ev_entity_refs r) \<or>
     is_some_and (\<lambda>p. payload_run_id p = Some run_id) (ev_payload r)"

definition has_ref :: "entity_kind \<Rightarrow> string \<Rightarrow> timeline_entity_ref list \<Rightarrow> bool" where
  "has_ref k i refs \<longleftrightarrow> list_ex (\<lambda>r. ter_kind r = k \<and> ter_id r = i) refs"

definition entity_refs_for :: "event_record \<Rightarrow> string \<Rightarrow> timeline_entity_ref list" where
  "entity_refs_for r run_id =
     (let refs = map (\<lambda>e. \<lparr>ter_kind = er_kind e, ter_id = er_id e, ter_identifier = er_identifier e\<rparr>)
            (filter (\<lambda>e. er_kind e \<in> {EntRun, EntIssue, EntSubIssue, EntTerminalSession}) (ev_entity_refs r));
          refs = (if has_ref EntRun run_id refs then refs else refs @ [timeline_ref_run run_id])
      in case Option.bind (ev_payload r) (\<lambda>p. json_get p ''association'') of
           None \<Rightarrow> refs
         | Some a \<Rightarrow>
             let refs = (case payload_str a ''issue_id'' of
                   None \<Rightarrow> refs
                 | Some i \<Rightarrow> if has_ref EntIssue i refs then refs else refs @ [timeline_ref_issue i i])
             in case payload_str a ''sub_issue_id'' of
                  None \<Rightarrow> refs
                | Some i \<Rightarrow> if has_ref EntSubIssue i refs then refs else refs @ [timeline_ref_sub_issue i])"

definition file_paths_from :: "event_record \<Rightarrow> string list" where
  "file_paths_from r = (case ev_payload r of
      None \<Rightarrow> []
    | Some p \<Rightarrow> opt_list (payload_str p ''path'') @
        (case Option.bind (json_get p ''files'') json_as_array of
           None \<Rightarrow> []
         | Some files \<Rightarrow> concat (map (\<lambda>f. opt_list (payload_str f ''path'')) files)))"

definition terminal_context :: "event_record \<Rightarrow> string option \<times> string option" where
  "terminal_context r =
     (Option.bind (Option.bind (ev_payload r) (\<lambda>p.
        or_else (Option.bind (json_get p ''association'') (\<lambda>a. json_get a ''command_id''))
          (json_get p ''command_id''))) json_as_str,
      Option.bind (Option.bind (ev_payload r) (\<lambda>p.
        or_else (json_get p ''terminal_session_id'') (json_get p ''stream_id''))) json_as_str)"

definition record_tool_name :: "event_record \<Rightarrow> string option" where
  "record_tool_name r = Option.bind (ev_payload r) (\<lambda>p. payload_str p ''tool_name'')"

definition phase_from_state_update :: "(string \<Rightarrow> string) \<Rightarrow> event_record \<Rightarrow> run_phase \<times> string" where
  "phase_from_state_update lower r =
     (let status = lower (unwrap_or (Option.bind (Option.bind (ev_payload r) (\<lambda>p.
            or_else (json_get p ''execution_status'') (or_else (json_get p ''state'') (json_get p ''status''))))
            json_as_str) [])
      in if status \<in> {''finished'', ''completed'', ''done''} then (PhCompleted, ''Run completed'')
         else if status \<in> {''error'', ''stuck'', ''failed''} then (PhStalled, ''Run stalled or failed'')
         else if status \<in> {''waiting_for_prior_turn'', ''waiting_on_prior_turn'', ''waiting''}
         then (PhActive, ''Waiting on prior turn'')
         else if status \<in> {''running'', ''in_progress'', ''active''} then (PhActive, ''Running turn'')
         else if status = ''paused'' then (PhQuiet, ''Run paused'')
         else (PhActive, ''Progress update''))"

definition token_count :: "json \<Rightarrow> string \<Rightarrow> string \<Rightarrow> u64" where
  "token_count usage k k' =
     unwrap_or (Option.bind (or_else (json_get usage k) (json_get usage k')) json_as_u64) 0"

definition record_token_delta :: "event_record \<Rightarrow> token_delta option" where
  "record_token_delta r = Option.bind (Option.bind (ev_payload r) (\<lambda>p. json_get p ''usage'')) (\<lambda>usage.
     let input = token_count usage ''input_tokens'' ''prompt_tokens'';
         output = token_count usage ''output_tokens'' ''completion_tokens'';
         cache_read = unwrap_or (Option.bind (json_get usage ''cache_read_tokens'') json_as_u64) 0
     in if input = 0 \<and> output = 0 \<and> cache_read = 0 then None
        else Some \<lparr>td_input = input, td_output = output, td_cache_read = cache_read\<rparr>)"

section \<open>Classification\<close>

record classified =
  cl_kind :: timeline_entry_kind
  cl_phase :: "run_phase option"
  cl_command_id :: "string option"
  cl_tool_name :: "string option"
  cl_terminal_session_id :: "string option"
  cl_log_level :: "string option"
  cl_token_delta :: "token_delta option"

definition plain :: "timeline_entry_kind \<Rightarrow> run_phase \<Rightarrow> classified" where
  "plain kind phase = \<lparr>cl_kind = kind, cl_phase = Some phase, cl_command_id = None, cl_tool_name = None,
     cl_terminal_session_id = None, cl_log_level = None, cl_token_delta = None\<rparr>"

definition classify :: "(string \<Rightarrow> string) \<Rightarrow> event_record \<Rightarrow> classified" where
  "classify lower r =
     (case ev_kind r of
        RunStarted \<Rightarrow> plain TkState PhActive
      | RunCompleted \<Rightarrow> plain TkState PhCompleted
      | RunFailed \<Rightarrow> plain TkState PhStalled
      | RunCancelled \<Rightarrow> plain TkState PhCancelled
      | OrchestratorRetryScheduled _ \<Rightarrow> plain TkState PhRetryQueued
      | OrchestratorWorkerFailed reason \<Rightarrow>
          plain TkStallProbe (if str_contains (lower reason) ''detach'' then PhDetached else PhStalled)
      | GatewayActionFailed _ _ \<Rightarrow> plain TkStallProbe PhDegraded
      | StreamConnected _ \<Rightarrow> plain TkReconnect PhActive
      | StreamDisconnected _ \<Rightarrow> plain TkReconnect PhDegraded
      | StreamReconnected _ \<Rightarrow> plain TkReconnect PhDegraded
      | TerminalFrame _ \<Rightarrow> (plain TkTerminal PhActive)\<lparr>cl_command_id := fst (terminal_context r),
          cl_terminal_session_id := snd (terminal_context r)\<rparr>
      | LogEntry level \<Rightarrow> (plain TkLog PhActive)\<lparr>cl_command_id := fst (terminal_context r),
          cl_terminal_session_id := snd (terminal_context r), cl_log_level := Some level\<rparr>
      | HarnessToolCall \<Rightarrow> (plain TkToolCall PhActive)\<lparr>cl_tool_name := record_tool_name r\<rparr>
      | HarnessToolResult \<Rightarrow> (plain TkToolCall PhActive)\<lparr>cl_tool_name := record_tool_name r\<rparr>
      | HarnessConversationStateUpdate \<Rightarrow> plain TkProgress (fst (phase_from_state_update lower r))
      | HarnessEventNormalized _ \<Rightarrow>
          (if record_token_delta r \<noteq> None
           then (plain TkTokenUpdate PhActive)\<lparr>cl_token_delta := record_token_delta r\<rparr>
           else plain TkProgress PhActive)
      | OrchestratorWorkerStarted \<Rightarrow> plain TkProgress PhActive
      | TaskGraphMilestoneCreated _ \<Rightarrow> plain TkFile PhActive
      | TaskGraphMilestoneUpdated _ \<Rightarrow> plain TkFile PhActive
      | TaskGraphIssueCreated _ \<Rightarrow> plain TkFile PhActive
      | TaskGraphIssueUpdated _ \<Rightarrow> plain TkFile PhActive
      | TaskGraphSubIssueCreated _ _ \<Rightarrow> plain TkFile PhActive
      | TaskGraphSubIssueUpdated _ \<Rightarrow> plain TkFile PhActive
      | TaskGraphRelationCreated _ _ \<Rightarrow> plain TkFile PhActive
      | TaskGraphCommentCreated _ _ \<Rightarrow> plain TkFile PhActive
      | _ \<Rightarrow> plain TkUnknown PhActive)"

fun phase_to_label :: "run_phase option \<Rightarrow> string" where
  "phase_to_label (Some PhActive) = ''active''"
| "phase_to_label (Some PhQuiet) = ''quiet''"
| "phase_to_label (Some PhDegraded) = ''degraded''"
| "phase_to_label (Some PhStalled) = ''stalled''"
| "phase_to_label (Some PhRetryQueued) = ''retry queued''"
| "phase_to_label (Some PhCancelled) = ''cancelled''"
| "phase_to_label (Some PhDetached) = ''detached''"
| "phase_to_label (Some PhCompleted) = ''completed''"
| "phase_to_label None = ''unknown''"

definition reconnect_title :: "run_phase option \<Rightarrow> event_kind \<Rightarrow> string" where
  "reconnect_title phase k = (case k of
      StreamConnected _ \<Rightarrow> ''Stream connected''
    | StreamDisconnected _ \<Rightarrow> ''Stream disconnected''
    | StreamReconnected _ \<Rightarrow> ''Stream reconnected''
    | _ \<Rightarrow> ''Reconnect: '' @ phase_to_label phase)"

definition state_title :: "run_phase option \<Rightarrow> event_kind \<Rightarrow> string" where
  "state_title phase k = (case k of
      RunStarted \<Rightarrow> ''Run started''
    | RunCompleted \<Rightarrow> ''Run completed''
    | RunFailed \<Rightarrow> ''Run failed''
    | RunCancelled \<Rightarrow> ''Run cancelled''
    | OrchestratorRetryScheduled _ \<Rightarrow> ''Retry queued''
    | OrchestratorWorkerFailed _ \<Rightarrow> ''Worker failed''
    | GatewayActionFailed _ _ \<Rightarrow> ''Action failed''
    | _ \<Rightarrow> ''State: '' @ phase_to_label phase)"

definition title_for ::
  "(string \<Rightarrow> string) \<Rightarrow> timeline_entry_kind \<Rightarrow> run_phase option \<Rightarrow> event_record \<Rightarrow> string option
     \<Rightarrow> string option \<Rightarrow> string" where
  "title_for lower kind phase r tool_name command_id =
     (case kind of
        TkPhase \<Rightarrow> ''Phase: '' @ phase_to_label phase
      | TkToolCall \<Rightarrow> (case tool_name of Some n \<Rightarrow> ''Tool: '' @ n | None \<Rightarrow> ''Tool call'')
      | TkCommand \<Rightarrow> (case command_id of Some c \<Rightarrow> ''Command: '' @ c | None \<Rightarrow> ''Command'')
      | TkTokenUpdate \<Rightarrow> ''Token update''
      | TkReconnect \<Rightarrow> reconnect_title phase (ev_kind r)
      | TkStallProbe \<Rightarrow> ''Stall: '' @ phase_to_label phase
      | TkProgress \<Rightarrow>
          (if ev_kind r = HarnessConversationStateUpdate then snd (phase_from_state_update lower r)
           else ''Progress: '' @ phase_to_label phase)
      | TkState \<Rightarrow> state_title phase (ev_kind r)
      | TkLog \<Rightarrow> ''Log''
      | TkTerminal \<Rightarrow> ''Terminal output''
      | TkFile \<Rightarrow> ''Task graph / file''
      | TkUnknown \<Rightarrow> ''Event'')"

definition stream_health_for :: "timeline_entry_kind \<Rightarrow> event_record \<Rightarrow> run_stream_liveness" where
  "stream_health_for kind r =
     (case kind of
        TkReconnect \<Rightarrow> (case ev_kind r of
            StreamConnected _ \<Rightarrow> StreamHealthy
          | StreamReconnected _ \<Rightarrow> StreamStale
          | _ \<Rightarrow> StreamDead)
      | TkStallProbe \<Rightarrow> StreamDead
      | _ \<Rightarrow> StreamHealthy)"

fun phase_explanation :: "run_phase \<Rightarrow> string" where
  "phase_explanation PhActive = ''Turn is actively executing or waiting on a prior turn.''"
| "phase_explanation PhQuiet = ''Run is alive but no recent progress signal arrived.''"
| "phase_explanation PhDegraded = ''Stream is reachable but unhealthy; awaiting reconnect or reconciliation.''"
| "phase_explanation PhStalled = ''No progress observed within the idle timeout; run stalled.''"
| "phase_explanation PhRetryQueued = ''Scheduler queued a retry after a worker outcome.''"
| "phase_explanation PhCancelled = ''Run was cancelled by user or system action.''"
| "phase_explanation PhDetached = ''Worker could not stop the runtime; execution is detached.''"
| "phase_explanation PhCompleted = ''Run reached a terminal completed state.''"

definition state_evidence ::
  "timeline_entry_kind \<Rightarrow> run_phase option \<Rightarrow> timeline_entry \<Rightarrow> event_record \<Rightarrow> run_state_evidence option" where
  "state_evidence kind phase entry r = map_option (\<lambda>ph. \<lparr>rse_phase = ph,
     rse_stream = stream_health_for kind r, rse_last_activity_at = Some (te_happened_at entry),
     rse_stall_deadline_at = None,
     rse_explanation = phase_explanation ph @ '' ('' @ ev_summary r @ '')''\<rparr>) phase"

section \<open>Grouping\<close>

definition merge_token_delta :: "token_delta option \<Rightarrow> token_delta option \<Rightarrow> token_delta option" where
  "merge_token_delta acc delta =
     (case (acc, delta) of
        (Some a, Some d) \<Rightarrow> Some \<lparr>td_input = saturating_add (td_input a) (td_input d),
          td_output = saturating_add (td_output a) (td_output d),
          td_cache_read = saturating_add (td_cache_read a) (td_cache_read d)\<rparr>
      | (None, _) \<Rightarrow> delta
      | _ \<Rightarrow> acc)"

definition merge_file_paths :: "string list \<Rightarrow> string list \<Rightarrow> string list" where
  "merge_file_paths = foldl (\<lambda>ps p. if p \<in> set ps then ps else ps @ [p])"

definition merge_entity_refs ::
  "timeline_entity_ref list \<Rightarrow> timeline_entity_ref list \<Rightarrow> timeline_entity_ref list" where
  "merge_entity_refs = foldl (\<lambda>rs r. if has_ref (ter_kind r) (ter_id r) rs then rs else rs @ [r])"

definition record_title :: "(string \<Rightarrow> string) \<Rightarrow> event_record \<Rightarrow> string" where
  "record_title lower r = (let c = classify lower r in
     title_for lower (cl_kind c) (cl_phase c) r (cl_tool_name c) (cl_command_id c))"

definition can_extend :: "(string \<Rightarrow> string) \<Rightarrow> timeline_entry \<Rightarrow> event_record \<Rightarrow> bool" where
  "can_extend lower e r \<longleftrightarrow> (let c = classify lower r in
     te_kind e = cl_kind c \<and> te_phase e = cl_phase c \<and> te_title e = record_title lower r \<and>
     te_command_id e = cl_command_id c \<and> te_tool_name e = cl_tool_name c \<and>
     te_terminal_session_id e = cl_terminal_session_id c \<and> te_log_level e = cl_log_level c)"

definition extend_entry :: "(string \<Rightarrow> string) \<Rightarrow> string \<Rightarrow> timeline_entry \<Rightarrow> event_record \<Rightarrow> timeline_entry" where
  "extend_entry lower run_id e r =
     (let c = classify lower r;
          e = e\<lparr>te_sequence_end := ev_sequence r, te_event_ids := te_event_ids e @ [ev_event_id r],
            te_summary := (if length (te_summary e) < 200 then te_summary e @ ''; '' @ ev_summary r
              else te_summary e),
            te_token_delta := merge_token_delta (te_token_delta e) (cl_token_delta c),
            te_file_paths := merge_file_paths (te_file_paths e) (file_paths_from r),
            te_entity_refs := merge_entity_refs (te_entity_refs e) (entity_refs_for r run_id)\<rparr>
      in e\<lparr>te_state_evidence := state_evidence (cl_kind c) (cl_phase c) e r\<rparr>)"

definition new_entry :: "(string \<Rightarrow> string) \<Rightarrow> string \<Rightarrow> event_record \<Rightarrow> timeline_entry" where
  "new_entry lower run_id r =
     (let c = classify lower r;
          e = \<lparr>te_entry_id = ev_event_id r, te_sequence_start = ev_sequence r, te_sequence_end = ev_sequence r,
            te_happened_at = ev_happened_at r, te_kind = cl_kind c, te_phase = cl_phase c,
            te_title = record_title lower r, te_summary = ev_summary r, te_event_ids = [ev_event_id r],
            te_entity_refs = entity_refs_for r run_id, te_command_id = cl_command_id c,
            te_tool_name = cl_tool_name c, te_file_paths = file_paths_from r,
            te_terminal_session_id = cl_terminal_session_id c, te_log_level = cl_log_level c,
            te_token_delta = cl_token_delta c, te_state_evidence = None\<rparr>
      in e\<lparr>te_state_evidence := state_evidence (cl_kind c) (cl_phase c) e r\<rparr>)"

definition timeline_step ::
  "(string \<Rightarrow> string) \<Rightarrow> string \<Rightarrow> timeline_entry list \<times> timeline_entry option \<Rightarrow> event_record
     \<Rightarrow> timeline_entry list \<times> timeline_entry option" where
  "timeline_step lower run_id = (\<lambda>(entries, current) r.
     case current of
       None \<Rightarrow> (entries, Some (new_entry lower run_id r))
     | Some e \<Rightarrow>
         if can_extend lower e r then (entries, Some (extend_entry lower run_id e r))
         else (entries @ [e], Some (new_entry lower run_id r)))"

definition build_timeline :: "(string \<Rightarrow> string) \<Rightarrow> date_time \<Rightarrow> string \<Rightarrow> event_record list \<Rightarrow> run_timeline" where
  "build_timeline lower now run_id records =
     (let (entries, current) = foldl (timeline_step lower run_id) ([], None)
            (filter (belongs_to_run run_id) records)
      in \<lparr>rt_schema_version = schema_version_v1, rt_run_id = run_id, rt_generated_at = now,
          rt_entries = entries @ opt_list current\<rparr>)"

section \<open>What a timeline accounts for\<close>

text \<open>What an entry says of the records it groups. Two neighbouring entries differ in what grouping
  compares (\<open>shows_like\<close>).\<close>

definition describes :: "(string \<Rightarrow> string) \<Rightarrow> event_record list \<Rightarrow> timeline_entry \<Rightarrow> bool" where
  "describes lower g e \<longleftrightarrow> g \<noteq> [] \<and>
     te_event_ids e = map ev_event_id g \<and> te_entry_id e = ev_event_id (hd g) \<and>
     te_sequence_start e = ev_sequence (hd g) \<and> te_sequence_end e = ev_sequence (last g) \<and>
     te_happened_at e = ev_happened_at (hd g) \<and> list_all (can_extend lower e) g \<and>
     te_token_delta e = foldl merge_token_delta None (map (\<lambda>r. cl_token_delta (classify lower r)) g) \<and>
     (case te_state_evidence e of None \<Rightarrow> False | Some v \<Rightarrow>
        rse_last_activity_at v = Some (ev_happened_at (hd g)))"

definition shows_like :: "timeline_entry \<Rightarrow> timeline_entry \<Rightarrow> bool" where
  "shows_like e e' \<longleftrightarrow> te_kind e = te_kind e' \<and> te_phase e = te_phase e' \<and> te_title e = te_title e' \<and>
     te_command_id e = te_command_id e' \<and> te_tool_name e = te_tool_name e' \<and>
     te_terminal_session_id e = te_terminal_session_id e' \<and> te_log_level e = te_log_level e'"

lemma can_extend_new: "can_extend lower (new_entry lower run_id r) r"
  by (simp add: can_extend_def new_entry_def Let_def)

lemma can_extend_extend [simp]: "can_extend lower (extend_entry lower run_id e r) = can_extend lower e"
  by (rule ext) (simp add: can_extend_def extend_entry_def Let_def)

lemma shows_like_extend [simp]: "shows_like x (extend_entry lower run_id e r) = shows_like x e"
  by (simp add: shows_like_def extend_entry_def Let_def)

lemma shows_like_new: "shows_like e (new_entry lower run_id r) \<longleftrightarrow> can_extend lower e r"
  by (simp add: shows_like_def new_entry_def Let_def can_extend_def)

lemma classify_phase: "\<exists>ph. cl_phase (classify lower r) = Some ph"
  by (simp add: classify_def plain_def split: event_kind.split)

lemma describes_new: "describes lower [r] (new_entry lower run_id r)"
proof -
  have "merge_token_delta None x = x" for x by (simp add: merge_token_delta_def)
  then show ?thesis
    using can_extend_new classify_phase [of lower r]
    by (auto simp: describes_def) (auto simp: new_entry_def Let_def state_evidence_def)
qed

lemma describes_extend:
  "describes lower g e \<Longrightarrow> can_extend lower e r \<Longrightarrow> describes lower (g @ [r]) (extend_entry lower run_id e r)"
  using classify_phase [of lower r]
  by (auto simp: describes_def) (auto simp: extend_entry_def Let_def state_evidence_def)

definition grouped ::
  "(string \<Rightarrow> string) \<Rightarrow> event_record list \<Rightarrow> timeline_entry list \<Rightarrow> bool" where
  "grouped lower rs entries \<longleftrightarrow> (\<exists>groups. concat groups = rs \<and> list_all2 (describes lower) groups entries) \<and>
     successively (\<lambda>e e'. \<not> shows_like e e') entries"

lemma grouped_Nil: "grouped lower [] []"
  by (auto simp: grouped_def intro: exI [of _ "[]"])

lemma grouped_snoc:
  assumes "grouped lower rs entries" and "describes lower g e"
    and "entries \<noteq> [] \<Longrightarrow> \<not> shows_like (last entries) e"
  shows "grouped lower (rs @ g) (entries @ [e])"
proof -
  obtain groups where "concat groups = rs" "list_all2 (describes lower) groups entries"
    using assms(1) by (auto simp: grouped_def)
  then have "concat (groups @ [g]) = rs @ g" "list_all2 (describes lower) (groups @ [g]) (entries @ [e])"
    using assms(2) by (auto intro: list_all2_appendI)
  moreover have "successively (\<lambda>e e'. \<not> shows_like e e') (entries @ [e])"
    using assms(1,3) by (auto simp: grouped_def successively_append_iff)
  ultimately show ?thesis unfolding grouped_def by blast
qed

text \<open>The state of the loop after the records \<open>rs\<close>.\<close>

definition loop_state ::
  "(string \<Rightarrow> string) \<Rightarrow> event_record list \<Rightarrow> timeline_entry list \<times> timeline_entry option \<Rightarrow> bool" where
  "loop_state lower rs = (\<lambda>(entries, current). case current of
      None \<Rightarrow> rs = [] \<and> entries = []
    | Some e \<Rightarrow> \<exists>xs g. rs = xs @ g \<and> grouped lower xs entries \<and> describes lower g e \<and>
        (entries \<noteq> [] \<longrightarrow> \<not> shows_like (last entries) e))"

lemma loop_state_step:
  assumes "loop_state lower rs st" shows "loop_state lower (rs @ [r]) (timeline_step lower run_id st r)"
proof (cases st)
  case (Pair entries current)
  show ?thesis
  proof (cases current)
    case None
    then have "rs = [] \<and> entries = []" using assms Pair by (simp add: loop_state_def)
    then show ?thesis
      using None Pair grouped_Nil describes_new by (fastforce simp: loop_state_def timeline_step_def)
  next
    case (Some e)
    then obtain xs g where rs: "rs = xs @ g" "grouped lower xs entries" "describes lower g e"
      "entries \<noteq> [] \<longrightarrow> \<not> shows_like (last entries) e"
      using assms Pair by (auto simp: loop_state_def)
    show ?thesis
    proof (cases "can_extend lower e r")
      case True
      have "describes lower (g @ [r]) (extend_entry lower run_id e r)" by (rule describes_extend [OF rs(3) True])
      moreover have "rs @ [r] = xs @ (g @ [r])" using rs(1) by simp
      ultimately show ?thesis using rs(2,4) True Some Pair
        by (simp add: loop_state_def timeline_step_def) blast
    next
      case False
      have "grouped lower (xs @ g) (entries @ [e])" using rs by (intro grouped_snoc) auto
      moreover have "describes lower [r] (new_entry lower run_id r)" by (rule describes_new)
      moreover have "rs @ [r] = (xs @ g) @ [r]" using rs(1) by simp
      moreover have "\<not> shows_like (last (entries @ [e])) (new_entry lower run_id r)"
        using False by (simp add: shows_like_new)
      ultimately have "\<exists>ys g'. rs @ [r] = ys @ g' \<and> grouped lower ys (entries @ [e]) \<and>
          describes lower g' (new_entry lower run_id r) \<and>
          (entries @ [e] \<noteq> [] \<longrightarrow> \<not> shows_like (last (entries @ [e])) (new_entry lower run_id r))"
        by blast
      then show ?thesis using False Some Pair by (simp add: loop_state_def timeline_step_def)
    qed
  qed
qed

lemma loop_state_fold: "loop_state lower rs st \<Longrightarrow>
  loop_state lower (rs @ qs) (foldl (timeline_step lower run_id) st qs)"
proof (induction qs arbitrary: rs st)
  case (Cons q qs)
  then show ?case using loop_state_step [OF Cons.prems, of q run_id] Cons.IH [of "rs @ [q]"] by simp
qed simp

lemma loop_state_done: "loop_state lower rs (entries, current) \<Longrightarrow> grouped lower rs (entries @ opt_list current)"
  by (auto simp: loop_state_def opt_list_def grouped_Nil intro: grouped_snoc split: option.splits)

text \<open>C27: the entries of a timeline split the records of the run, in order, into groups of neighbours:
  an entry lists exactly the events of its group, spans their sequence numbers and adds up their
  tokens, and dates the last activity by its first record; all records of a group show alike and neighbouring entries do not, so none could be merged.\<close>

theorem timeline_groups_records:
  "(\<exists>groups. concat groups = filter (belongs_to_run run_id) records \<and>
      list_all2 (describes lower) groups (rt_entries (build_timeline lower now run_id records))) \<and>
   successively (\<lambda>e e'. \<not> shows_like e e') (rt_entries (build_timeline lower now run_id records))"
proof -
  let ?rs = "filter (belongs_to_run run_id) records"
  obtain entries current where st: "foldl (timeline_step lower run_id) ([], None) ?rs = (entries, current)"
    by (metis surj_pair)
  have "loop_state lower [] ([], None)" by (simp add: loop_state_def)
  then have "loop_state lower ?rs (entries, current)" using loop_state_fold [of lower "[]" "([], None)" ?rs run_id] st by simp
  then have "grouped lower ?rs (entries @ opt_list current)" by (rule loop_state_done)
  then show ?thesis by (simp add: grouped_def build_timeline_def st)
qed

end
