(* ===== verification/Spec2Isabelle.thy ===== *)
theory Spec2Isabelle
  imports Repository Selection Executions Durable Event_Replay Parent_Properties
    Scheduler_Issue_Properties Planning_Package Planning_Report Planning_Render Planning_Regenerate Timeline
begin

text \<open>
  OpenSymphony: a verification development.

  OpenSymphony schedules coding agents on the issues of a tracker. A scheduler polls the tracker,
  selects issues (\<open>opensymphony-orchestrator/src/selection.rs\<close>), claims them, starts a run of an
  agent harness in a workspace, watches the run, retries it with a back-off and releases the issue
  (\<open>opensymphony-domain/src/state_machine.rs\<close> and \<open>runtime.rs\<close>). Issues form a hierarchy: a
  parent waits for its children, inherits leases on their checkouts
  (\<open>opensymphony-orchestrator/src/hierarchy.rs\<close>) and then integrates and verifies their work
  (\<open>parent_integration.rs\<close>). What happens is journalled (\<open>opensymphony-domain/src/journal.rs\<close>) and
  streamed to clients (\<open>opensymphony-gateway/src/lib.rs\<close>).

  Theories, and the code they model.

  \<^item> \<open>Prelude\<close>, \<open>Ordered_Map\<close>: the standard library as the code uses it. Machine integers are words
    of their width (\<open>saturating_add\<close>, \<open>checked\<close> operations; lemma collection \<open>word_nat\<close>), strings are
    lists of the bytes of their UTF-8 form, \<open>Result\<close> is a sum with \<open>Ok\<close> and \<open>Err\<close>, \<open>BTreeMap\<close> is a
    sorted association list, \<open>usize\<close> is \<open>nat\<close>.
  \<^item> \<open>Identifiers\<close>, \<open>Issues\<close>, \<open>Repository\<close>: \<open>identifiers.rs\<close>, \<open>time.rs\<close>, \<open>issue.rs\<close>, \<open>tracker.rs\<close> and
    \<open>repository.rs\<close> of \<open>opensymphony-domain\<close>: names, the parsing of remotes into repository identities
    and the resolution of labels to managed repositories.
  \<^item> \<open>Runtime\<close>, \<open>Conversation\<close>, \<open>Runs\<close>: \<open>runtime.rs\<close>: liveness phases, retry policy and back-off, the
    coalescing activity log, run attempts with their stall clock and interrupts, worker outcomes.
  \<^item> \<open>State_Machine\<close>, \<open>Workspace_Path\<close>, \<open>Executions\<close>: \<open>state_machine.rs\<close>: the execution record of an
    issue with every transition and the bindings it checks. \<open>Executions\<close> holds the step relation over
    the transitions, the invariant of the reachable executions and the refinement of an abstract
    status machine.
  \<^item> \<open>Selection\<close>: \<open>selection.rs\<close>, with the dispatch list as a sorted selection.
  \<^item> \<open>Worklist\<close>, \<open>Leases\<close>, \<open>Hierarchy\<close>, \<open>Durable\<close>: \<open>hierarchy.rs\<close>: the worklist searches and
    their equivalence with reachability, the lease log, generation fences and eligibility evidence,
    and the durable state with every operation of it.
  \<^item> \<open>Redaction\<close>: \<open>redact_runtime_diagnostic\<close> of \<open>opensymphony-workspace/src/models.rs\<close>, with the
    termination of its rewriting loops.
  \<^item> \<open>Parent_Records\<close>, \<open>Parent_Integration\<close>: the types and methods of \<open>parent_integration.rs\<close>. A
    method is a function to its result and the controller it leaves, on an error too, and
    \<open>try_step\<close> is the operator \<open>?\<close>. \<open>Parent_Steps\<close> shows each method to be a sequence of small moves,
    \<open>Parent_Safety\<close> proves the invariants once per move and lifts them to runs of calls,
    \<open>Parent_Entry\<close> bounds the states each call may enter, and \<open>Parent_Properties\<close> states what holds
    of whole runs.
  \<^item> \<open>Journal\<close>, \<open>Event_Replay\<close>: the event journal, its cursors, pages and broadcast
    (\<open>journal.rs\<close>, \<open>event_journal.rs\<close>) and the WebSocket session that replays the journal and hands over
    to the live stream. The locale \<open>event_journal\<close> states the contract of the journal the
    session relies on; it is interpreted on the in-memory journal of the code.
  \<^item> \<open>Terminal_Log\<close>, \<open>Timeline\<close>: what is read off the journal: the store of terminal and log frames
    (\<open>opensymphony-domain/src/terminal_log.rs\<close>) and the timeline of a run (\<open>timeline.rs\<close>).

  \<^item> \<open>Harness_Kinds\<close>: the harness kinds and their capabilities
    (\<open>opensymphony-gateway-schema/src/capability.rs\<close>).
  \<^item> \<open>Results\<close>, \<open>Workflow_Model\<close>, \<open>Workflow_Resolve\<close>, \<open>Workflow_Openhands\<close>: the crate
    \<open>opensymphony-workflow\<close>: the workflow file and its front matter, ACP profiles, and the
    resolution of every section into the configuration the program runs on. \<open>Results\<close> holds \<open>?\<close>
    (\<open>and_then\<close>) and the other combinators on \<open>Result\<close>. \<open>Workflow_Properties\<close> states what holds of a
    file that loads and of a configuration that resolves.
  \<^item> \<open>Scheduler_Config\<close>, \<open>Scheduler_Issues\<close>: the pure part of
    \<open>opensymphony-orchestrator/src/scheduler.rs\<close>: its configuration, state names and limits, the
    routes of new and recovered runs, normalisation of tracker issues and back, summaries and the
    guards over executions. \<open>Scheduler_Issue_Properties\<close> states how they compose with the workflow
    configuration and with \<open>Selection\<close>.
  \<^item> \<open>Planning_Model\<close>, \<open>Planning_Dependencies\<close>, \<open>Planning_Manifest\<close>: the crate
    \<open>opensymphony-planning\<close>: the records of a plan, its dependency check and creation-order waves
    (\<open>generator.rs\<close>, \<open>graph_validate/checks.rs\<close>), task files and the validation of a task package
    (\<open>frontmatter.rs\<close>, \<open>manifest.rs\<close>). \<open>Planning_Cycles\<close> and \<open>Planning_Package\<close> state what the
    two depth-first searches, the waves and the validator decide.
  \<^item> \<open>Planning_Checks\<close>: the findings, the dependency graph and the report on a plan
    (\<open>graph_validate/domain.rs\<close>, \<open>checks.rs\<close>, \<open>graph.rs\<close>, \<open>mod.rs\<close>); \<open>Planning_Report\<close> states what
    the report and the graph contain.
  \<^item> \<open>Planning_Linear\<close>, \<open>Planning_Research\<close>: the analysis of a tracker graph, research briefs and the
    planning session (\<open>linear_graph.rs\<close>, \<open>research.rs\<close>, \<open>generator/session.rs\<close>).
  \<^item> \<open>Planning_Generator\<close>: the generator (\<open>generator/generator.rs\<close>): plans, their manifest, index and
    task files, and regeneration within a scope. The task counter is passed along as a 64-bit word.
    \<open>Planning_Generated\<close>, \<open>Planning_Render\<close> and \<open>Planning_Regenerate\<close> state what a generated plan,
    its task files and a regenerated plan keep.
  \<^item> \<open>Planning_Compiler\<close>: the compiler (\<open>compiler/domain.rs\<close>, \<open>compiler/compiler.rs\<close>): validation,
    the projection on the tracker's types, the manifest and the publish receipt;
    \<open>Planning_Publish\<close> states when its result is publishable and what the receipt holds.

  What the lemmas show. For the execution record: an invariant of all reachable records, refinement
  of the status machine, and the safety of claims, outcomes, interrupts and workspaces. For leases
  and the hierarchy: exclusiveness of leaf leases, hand-over without a gap, evidence for eligible
  parents, fences that survive a change of scope. For parent integration: the transition log, the
  one running attempt, the ledger of provider operations, what a merge and a completion rest on,
  and that completion can be reached. For the event stream: a client that replays from a cursor and
  then listens misses nothing and sees nothing twice, and the replay ends; replaying into the
  terminal store changes nothing, its pages compose, and a timeline groups every event of its run. For the workflow file: it
  is read back as written, and what resolves is well formed, keeps the agent server's transport
  protected, launches without credentials in arguments and stays inside the workspace. For the
  scheduler's reading of issues: the round trip through the normalised form, and which limits,
  routes and models apply. For plans: the searches for cycles are exact, the waves are a layering of
  what can be scheduled, and a package is accepted exactly when it is well formed; a generated plan
  has distinct ids, an issue for every requirement and no cycle, and the compiler accepts it; the
  compiler's and the checker's verdicts are characterised; escaped titles and rendered task files
  read back; a regeneration leaves the rest of the plan alone.

  Bounds. The generator's task counter is a \<open>usize\<close>, modelled as a 64-bit word. That the numbers of
  a plan do not wrap around is a hypothesis (\<open>plan_room\<close>, \<open>regenerate_room\<close>: the counter, or the
  largest number of the plan, plus three numbers for each requirement and one for each milestone is
  below \<open>2 ^ 64\<close>), which the witnesses discharge.

  Abstractions. An operation reads the clock once, as its argument \<open>now\<close> or \<open>t\<close>. Sockets, the
  broadcast channel (the list of what it delivers), the tokio runtime, serde, SHA-256, the
  canonicalisation of paths, the YAML decoder, the Liquid template engine, the URL parser, Unicode
  lower-casing, the YAML writer, the calendar (\<open>from_timestamp_millis\<close>) and the formatting of an instant, the environment and the current directory
  are parameters. Records of the crate's own types keep the order of
  their fields. No fuel is used: every loop modelled is shown to end.

  Not modelled: process, file, network and database I/O (the harnesses, the Linear client, the
  memory store, the workspace manager, the code analysis of a plan), the terminal and desktop interfaces, the command line and
  the asynchronous scheduler loop that calls the operations above.
\<close>

end
